(* ===== verification/Prelude.thy ===== *)
theory Prelude
  imports Main "HOL-Library.Sublist" "HOL-Library.Char_ord" "HOL-Library.List_Lexorder"
begin

text \<open>
  Shared vocabulary of the development: the theorem collections, the JavaScript string helpers
  the components use, and generic lemmas on lists.

  A JavaScript string is modelled as a HOL \<open>string\<close>, one \<open>char\<close> per UTF-16 code unit.
  A \<open>char\<close> is one of 256 codes, so the model covers strings whose code units are below 256;
  every literal, every regular expression and every limit of the modelled code is about
  such code units, and \<open>length\<close> counts what \<^verbatim>\<open>.length\<close> counts.
\<close>

named_theorems table_simps "facts about rows and tables"
named_theorems js_simps "evaluation of the JavaScript helpers"
named_theorems inv_intros "preservation of invariants by one operation"

section \<open>Characters and regular-expression classes\<close>

definition code_of :: "char \<Rightarrow> nat" where
  "code_of c = of_char c"

lemma code_of_inject: "code_of c = code_of d \<longleftrightarrow> c = d"
  by (metis code_of_def char_of_char)

lemma code_of_less: "code_of c < 256"
  by (simp add: code_of_def)

definition is_digit :: "char \<Rightarrow> bool" where
  "is_digit c \<longleftrightarrow> 48 \<le> code_of c \<and> code_of c \<le> 57"

definition is_upper :: "char \<Rightarrow> bool" where
  "is_upper c \<longleftrightarrow> 65 \<le> code_of c \<and> code_of c \<le> 90"

definition is_lower :: "char \<Rightarrow> bool" where
  "is_lower c \<longleftrightarrow> 97 \<le> code_of c \<and> code_of c \<le> 122"

definition is_alnum :: "char \<Rightarrow> bool" where
  "is_alnum c \<longleftrightarrow> is_upper c \<or> is_lower c \<or> is_digit c"

text \<open>\<^verbatim>\<open>[A-Za-z0-9_-]\<close>\<close>

definition is_token_char :: "char \<Rightarrow> bool" where
  "is_token_char c \<longleftrightarrow> is_alnum c \<or> code_of c = 95 \<or> code_of c = 45"

text \<open>The white space \<^verbatim>\<open>trim\<close> removes, among the code units below 256.\<close>

definition is_js_space :: "char \<Rightarrow> bool" where
  "is_js_space c \<longleftrightarrow> (9 \<le> code_of c \<and> code_of c \<le> 13) \<or> code_of c = 32 \<or> code_of c = 160"

text \<open>\<^verbatim>\<open>toLowerCase\<close> on code units below 256: ASCII and the Latin-1 capitals.\<close>

definition lower_char :: "char \<Rightarrow> char" where
  "lower_char c =
     (let n = code_of c in
      if (65 \<le> n \<and> n \<le> 90) \<or> (192 \<le> n \<and> n \<le> 222 \<and> n \<noteq> 215) then char_of (n + 32) else c)"

definition to_lower :: "string \<Rightarrow> string" where
  "to_lower s = map lower_char s"

section \<open>String operations\<close>

text \<open>\<^verbatim>\<open>s.slice(a, b)\<close> for \<open>0 \<le> a\<close>; out-of-range bounds are clamped as JavaScript does.\<close>

definition js_slice :: "nat \<Rightarrow> nat \<Rightarrow> 'a list \<Rightarrow> 'a list" where
  "js_slice a b s = take (b - a) (drop a s)"

definition js_trim :: "string \<Rightarrow> string" where
  "js_trim s = rev (dropWhile is_js_space (rev (dropWhile is_js_space s)))"

text \<open>\<^verbatim>\<open>s.indexOf(c)\<close> for a single code unit.\<close>

fun index_char :: "char \<Rightarrow> string \<Rightarrow> nat option" where
  "index_char c [] = None"
| "index_char c (x # xs) = (if x = c then Some 0 else map_option Suc (index_char c xs))"

text \<open>\<^verbatim>\<open>s.indexOf(needle)\<close> and \<^verbatim>\<open>s.indexOf(needle, from)\<close>.\<close>

fun index_str :: "string \<Rightarrow> string \<Rightarrow> nat option" where
  "index_str p [] = (if p = [] then Some 0 else None)"
| "index_str p (x # xs) =
     (if prefix p (x # xs) then Some 0 else map_option Suc (index_str p xs))"

definition index_from :: "string \<Rightarrow> nat \<Rightarrow> string \<Rightarrow> nat option" where
  "index_from p a s = map_option (\<lambda>i. i + a) (index_str p (drop a s))"

definition includes_str :: "string \<Rightarrow> string \<Rightarrow> bool" where
  "includes_str p s \<longleftrightarrow> index_str p s \<noteq> None"

text \<open>\<^verbatim>\<open>s.split(c)\<close> for a single code unit.\<close>

fun split_on :: "char \<Rightarrow> string \<Rightarrow> string list" where
  "split_on c [] = [[]]"
| "split_on c (x # xs) =
     (if x = c then [] # split_on c xs
      else case split_on c xs of [] \<Rightarrow> [[x]] | y # ys \<Rightarrow> (x # y) # ys)"

text \<open>A decimal numeral, as \<^verbatim>\<open>String(n)\<close> prints it.\<close>

fun nat_digits :: "nat \<Rightarrow> string" where
  "nat_digits n =
     (if n < 10 then [char_of (48 + n)] else nat_digits (n div 10) @ [char_of (48 + n mod 10)])"

declare nat_digits.simps [simp del]

definition int_digits :: "int \<Rightarrow> string" where
  "int_digits i = (if i < 0 then CHR ''-'' # nat_digits (nat (- i)) else nat_digits (nat i))"

lemma js_slice_0 [simp]: "js_slice 0 n s = take n s"
  by (simp add: js_slice_def)

lemma length_js_slice [simp]: "length (js_slice a b s) = min (b - a) (length s - a)"
  by (simp add: js_slice_def)

lemma index_char_Some:
  "index_char c s = Some i \<Longrightarrow> i < length s \<and> s ! i = c \<and> c \<notin> set (take i s)"
  by (induction s arbitrary: i) (auto split: if_splits)

lemma index_char_None: "index_char c s = None \<longleftrightarrow> c \<notin> set s"
  by (induction s) auto

lemma index_str_prefix: "index_str p s = Some i \<Longrightarrow> prefix p (drop i s)"
proof (induction s arbitrary: i)
  case Nil
  then show ?case by (simp split: if_splits)
next
  case (Cons x xs)
  then show ?case by (auto split: if_splits)
qed

lemma index_str_le: "index_str p s = Some i \<Longrightarrow> i + length p \<le> length s"
proof (induction s arbitrary: i)
  case Nil
  then show ?case by (simp split: if_splits)
next
  case (Cons x xs)
  then show ?case by (auto split: if_splits dest: prefix_length_le)
qed

lemma index_str_self: "index_str p (p @ s) = Some 0"
proof (cases "p @ s")
  case Nil
  then show ?thesis by simp
next
  case (Cons a list)
  then have "prefix p (a # list)" by (metis prefixI)
  with Cons show ?thesis by simp
qed

lemma split_on_nonempty [simp]: "split_on c s \<noteq> []"
  by (induction s) (auto split: list.splits)

lemma split_on_free: "c \<notin> set s \<Longrightarrow> split_on c s = [s]"
  by (induction s) auto

lemma split_on_append: "c \<notin> set s \<Longrightarrow> split_on c (s @ c # t) = s # split_on c t"
  by (induction s) auto

section \<open>Lists\<close>

text \<open>\<^verbatim>\<open>[...new Set(xs)]\<close>: insertion order, first occurrence kept.\<close>

fun js_unique_acc :: "'a list \<Rightarrow> 'a list \<Rightarrow> 'a list" where
  "js_unique_acc seen [] = []"
| "js_unique_acc seen (x # xs) =
     (if x \<in> set seen then js_unique_acc seen xs else x # js_unique_acc (x # seen) xs)"

definition js_unique :: "'a list \<Rightarrow> 'a list" where
  "js_unique xs = js_unique_acc [] xs"

lemma set_js_unique_acc: "set (js_unique_acc seen xs) = set xs - set seen"
  by (induction xs arbitrary: seen) auto

lemma distinct_js_unique_acc: "distinct (js_unique_acc seen xs)"
  by (induction xs arbitrary: seen) (auto simp: set_js_unique_acc)

lemma set_js_unique [simp]: "set (js_unique xs) = set xs"
  by (simp add: js_unique_def set_js_unique_acc)

lemma distinct_js_unique [simp]: "distinct (js_unique xs)"
  by (simp add: js_unique_def distinct_js_unique_acc)

text \<open>Sequencing of computations that may fail.\<close>

definition sum_bind :: "'e + 'a \<Rightarrow> ('a \<Rightarrow> 'e + 'b) \<Rightarrow> 'e + 'b" where
  "sum_bind r k = (case r of Inl e \<Rightarrow> Inl e | Inr a \<Rightarrow> k a)"

lemma sum_bind_simps [simp]:
  "sum_bind (Inl e) k = Inl e" "sum_bind (Inr a) k = k a"
  by (simp_all add: sum_bind_def)

lemma sum_bind_Inr_iff: "sum_bind r k = Inr b \<longleftrightarrow> (\<exists>a. r = Inr a \<and> k a = Inr b)"
  by (cases r) auto

text \<open>UPDATE by key, then SELECT by the same key.\<close>

lemma find_map_update:
  "(\<And>r. key (f r) = key r) \<Longrightarrow>
     find (\<lambda>r. key r = k) (map (\<lambda>r. if key r = k then f r else r) rs) =
       map_option f (find (\<lambda>r. key r = k) rs)"
  by (induction rs) auto

lemma distinct_map_filter_imp: "distinct (map f xs) \<Longrightarrow> distinct (map f (filter P xs))"
  by (induction xs) auto

lemma map_eq_of_same_key: "(\<And>x. x \<in> set xs \<Longrightarrow> f (g x) = f x) \<Longrightarrow> map f (map g xs) = map f xs"
  by simp

lemma distinct_map_unique:
  "distinct (map f xs) \<Longrightarrow> x \<in> set xs \<Longrightarrow> y \<in> set xs \<Longrightarrow> f x = f y \<Longrightarrow> x = y"
  by (meson distinct_map inj_onD)

end
