(* ===== verification/Effects.thy ===== *)
theory Effects
  imports Prelude
begin

text \<open>
  Asynchronous JavaScript as resumption programs. A program either has returned, has thrown, or
  performs one atomic action on the shared world and continues. The actions are the places where
  an \<^verbatim>\<open>async\<close> function touches shared state: every \<^verbatim>\<open>await\<close> of a repository call
  or of a push delivery, every clock reading, every log line. JavaScript runs the code between
  two awaits without interruption; here other tasks may run between any two actions, so every
  schedule of the real event loop is a schedule of the model.

  \<open>run\<close> executes one program alone; \<open>par2\<close> and \<open>pool_run\<close> interleave programs under any
  schedule. The lemmas lift a property of single actions to whole programs and to every
  interleaving of programs.
\<close>

section \<open>Programs\<close>

datatype ('w, 'e, 'a) prog =
    Ret 'a
  | Raise 'e
  | Act "'w \<Rightarrow> ('w, 'e, 'a) prog \<times> 'w"

primrec bindP :: "('w, 'e, 'a) prog \<Rightarrow> ('a \<Rightarrow> ('w, 'e, 'b) prog) \<Rightarrow> ('w, 'e, 'b) prog" where
  "bindP (Ret a) k = k a"
| "bindP (Raise e) k = Raise e"
| "bindP (Act f) k = Act (\<lambda>w. map_prod (\<lambda>p. bindP p k) id (f w))"

text \<open>\<^verbatim>\<open>try { p } catch (e) { h(e) }\<close>\<close>

primrec catchP :: "('w, 'e, 'a) prog \<Rightarrow> ('e \<Rightarrow> ('w, 'e, 'a) prog) \<Rightarrow> ('w, 'e, 'a) prog" where
  "catchP (Ret a) h = Ret a"
| "catchP (Raise e) h = h e"
| "catchP (Act f) h = Act (\<lambda>w. map_prod (\<lambda>p. catchP p h) id (f w))"

text \<open>One atomic action that returns a value or throws.\<close>

definition atom :: "('w \<Rightarrow> ('e + 'a) \<times> 'w) \<Rightarrow> ('w, 'e, 'a) prog" where
  "atom f = Act (\<lambda>w. map_prod (case_sum Raise Ret) id (f w))"

text \<open>Sequential execution of a list of programs, collecting the results.\<close>

primrec seqP :: "('w, 'e, 'a) prog list \<Rightarrow> ('w, 'e, 'a list) prog" where
  "seqP [] = Ret []"
| "seqP (p # ps) = bindP p (\<lambda>x. bindP (seqP ps) (\<lambda>xs. Ret (x # xs)))"

primrec run :: "('w, 'e, 'a) prog \<Rightarrow> 'w \<Rightarrow> ('e + 'a) \<times> 'w" where
  "run (Ret a) = (\<lambda>w. (Inr a, w))"
| "run (Raise e) = (\<lambda>w. (Inl e, w))"
| "run (Act f) = (\<lambda>w. case map_prod run id (f w) of (g, w') \<Rightarrow> g w')"

text \<open>Induction with the continuation of an action as the hypothesis' subject.\<close>

lemma prog_induct [case_names Ret Raise Act]:
  assumes "\<And>a. P (Ret a)" and "\<And>e. P (Raise e)"
    and "\<And>f. (\<And>w. P (fst (f w))) \<Longrightarrow> P (Act f)"
  shows "P p"
proof (induction p)
  case (Act f)
  then have "P (fst (f w))" for w by (meson fsts.intros rangeI)
  then show ?case by (rule assms(3))
qed (use assms in auto)

lemma run_Act [simp]: "run (Act f) w = run (fst (f w)) (snd (f w))"
  by (simp add: case_prod_beta)

declare run.simps(3) [simp del]

lemma run_bindP [simp]:
  "run (bindP p k) w = (case run p w of (Inl e, w') \<Rightarrow> (Inl e, w') | (Inr a, w') \<Rightarrow> run (k a) w')"
  by (induction p arbitrary: w rule: prog_induct) simp_all

lemma bindP_assoc: "bindP (bindP p k) h = bindP p (\<lambda>x. bindP (k x) h)"
  by (induction p rule: prog_induct) (simp_all add: fun_eq_iff prod_eq_iff)

lemma run_catchP [simp]:
  "run (catchP p h) w = (case run p w of (Inl e, w') \<Rightarrow> run (h e) w' | (Inr a, w') \<Rightarrow> (Inr a, w'))"
  by (induction p arbitrary: w rule: prog_induct) simp_all

text \<open>Evaluating a program: the continuation waits until its argument is known.\<close>

lemma bindP_step: "p = q \<Longrightarrow> bindP p k = bindP q k"
  by simp

lemma catchP_step: "p = q \<Longrightarrow> catchP p h = catchP q h"
  by simp

lemmas step_congs = bindP_step catchP_step

lemma run_atom [simp]: "run (atom f) w = f w"
  by (cases "f w"; cases "fst (f w)") (auto simp: atom_def)

section \<open>Every action satisfies a relation\<close>

text \<open>
  \<open>acts_in R p\<close>: each atomic action of \<open>p\<close>, whatever the world it meets, moves the world
  along \<open>R\<close>. It speaks of every continuation, so it is closed under interleaving.
\<close>

primrec acts_in :: "('w \<Rightarrow> 'w \<Rightarrow> bool) \<Rightarrow> ('w, 'e, 'a) prog \<Rightarrow> bool" where
  "acts_in R (Ret a) = True"
| "acts_in R (Raise e) = True"
| "acts_in R (Act f) = (\<forall>w. R w (snd (f w)) \<and> fst (map_prod (acts_in R) id (f w)))"

lemma acts_in_Act [simp]: "acts_in R (Act f) \<longleftrightarrow> (\<forall>w. R w (snd (f w)) \<and> acts_in R (fst (f w)))"
  by simp

declare acts_in.simps(3) [simp del]

lemma acts_in_bindP [intro]:
  "acts_in R p \<Longrightarrow> (\<And>a. acts_in R (k a)) \<Longrightarrow> acts_in R (bindP p k)"
  by (induction p rule: prog_induct) simp_all

lemma acts_in_catchP [intro]:
  "acts_in R p \<Longrightarrow> (\<And>e. acts_in R (h e)) \<Longrightarrow> acts_in R (catchP p h)"
  by (induction p rule: prog_induct) simp_all

lemma acts_in_atom [simp]: "acts_in R (atom f) \<longleftrightarrow> (\<forall>w. R w (snd (f w)))"
proof -
  have "acts_in R (atom f) \<longleftrightarrow> (\<forall>w. R w (snd (f w)) \<and> acts_in R (case_sum Raise Ret (fst (f w))))"
    by (simp add: atom_def)
  moreover have "acts_in R (case_sum Raise Ret r)" for r :: "'b + 'c"
    by (cases r) simp_all
  ultimately show ?thesis by simp
qed

lemma acts_in_seqP [intro]: "(\<And>p. p \<in> set ps \<Longrightarrow> acts_in R p) \<Longrightarrow> acts_in R (seqP ps)"
  by (induction ps) (auto intro!: acts_in_bindP)

lemma acts_in_mono: "acts_in R p \<Longrightarrow> (\<And>w w'. R w w' \<Longrightarrow> S w w') \<Longrightarrow> acts_in S p"
  by (induction p rule: prog_induct) auto

text \<open>\<open>yields P p\<close>: every value \<open>p\<close> can return, whatever the world does, satisfies \<open>P\<close>.\<close>

primrec yields :: "('a \<Rightarrow> bool) \<Rightarrow> ('w, 'e, 'a) prog \<Rightarrow> bool" where
  "yields P (Ret a) = P a"
| "yields P (Raise e) = True"
| "yields P (Act f) = (\<forall>w. fst (map_prod (yields P) id (f w)))"

lemma yields_Act [simp]: "yields P (Act f) \<longleftrightarrow> (\<forall>w. yields P (fst (f w)))"
  by simp

declare yields.simps(3) [simp del]

lemma yields_atom [simp]: "yields P (atom f) \<longleftrightarrow> (\<forall>w. case fst (f w) of Inl e \<Rightarrow> True | Inr a \<Rightarrow> P a)"
  by (auto simp: atom_def split: sum.split)

lemma yields_bindP [intro]:
  "yields Q p \<Longrightarrow> (\<And>a. Q a \<Longrightarrow> yields P (k a)) \<Longrightarrow> yields P (bindP p k)"
  by (induction p rule: prog_induct) simp_all

lemma yields_run: "yields P p \<Longrightarrow> run p w = (Inr a, w') \<Longrightarrow> P a"
  by (induction p arbitrary: w rule: prog_induct) simp_all

section \<open>Two tasks in parallel\<close>

text \<open>
  \<open>par2 c p q\<close> is \<^verbatim>\<open>Promise.all([p, q])\<close> under the scheduler \<open>c\<close>, which looks at the world
  and lets the left task move when it holds. When one task throws, the other one still runs to
  its end (a rejected \<^verbatim>\<open>Promise.all\<close> does not stop its other members) and its outcome is
  dropped.
\<close>

definition drainP :: "('w, 'e, 'a) prog \<Rightarrow> ('w, 'e, unit) prog" where
  "drainP p = catchP (bindP p (\<lambda>_. Ret ())) (\<lambda>_. Ret ())"

primrec par_right ::
  "('w \<Rightarrow> bool) \<Rightarrow> ('w \<Rightarrow> ('w, 'e, 'a) prog \<times> 'w) \<Rightarrow>
   ('w \<Rightarrow> (('w, 'e, 'b) prog \<Rightarrow> ('w, 'e, 'a \<times> 'b) prog) \<times> 'w) \<Rightarrow>
   ('w, 'e, 'b) prog \<Rightarrow> ('w, 'e, 'a \<times> 'b) prog" where
  "par_right c f F (Ret b) = bindP (Act f) (\<lambda>a. Ret (a, b))"
| "par_right c f F (Raise e) = bindP (drainP (Act f)) (\<lambda>_. Raise e)"
| "par_right c f F (Act g) =
     Act (\<lambda>w. if c w then (fst (F w) (Act g), snd (F w))
              else map_prod (par_right c f F) id (g w))"

primrec par2 ::
  "('w \<Rightarrow> bool) \<Rightarrow> ('w, 'e, 'a) prog \<Rightarrow> ('w, 'e, 'b) prog \<Rightarrow> ('w, 'e, 'a \<times> 'b) prog" where
  "par2 c (Ret a) = (\<lambda>q. bindP q (\<lambda>b. Ret (a, b)))"
| "par2 c (Raise e) = (\<lambda>q. bindP (drainP q) (\<lambda>_. Raise e))"
| "par2 c (Act f) = par_right c f (\<lambda>w. map_prod (par2 c) id (f w))"

primrec parP :: "('w \<Rightarrow> bool) \<Rightarrow> ('w, 'e, 'a) prog list \<Rightarrow> ('w, 'e, 'a list) prog" where
  "parP c [] = Ret []"
| "parP c (p # ps) = bindP (par2 c p (parP c ps)) (\<lambda>(x, xs). Ret (x # xs))"

lemma acts_in_drainP: "acts_in R p \<Longrightarrow> acts_in R (drainP p)"
  unfolding drainP_def by (intro acts_in_catchP acts_in_bindP) simp_all

lemma acts_in_par_right:
  assumes "acts_in R (Act f)" and "\<And>w. snd (F w) = snd (f w)"
    and "\<And>w q. acts_in R q \<Longrightarrow> acts_in R (fst (F w) q)"
  shows "acts_in R q \<Longrightarrow> acts_in R (par_right c f F q)"
proof (induction q rule: prog_induct)
  case (Ret b)
  have "acts_in R (bindP (Act f) (\<lambda>a. Ret (a, b)))" using assms(1) by (rule acts_in_bindP) simp
  then show ?case by simp
next
  case (Raise e)
  have "acts_in R (bindP (drainP (Act f)) (\<lambda>_. Raise e))"
    using assms(1) by (intro acts_in_bindP acts_in_drainP) simp_all
  then show ?case by simp
next
  case (Act g)
  then show ?case using assms by auto
qed

lemma acts_in_par2 [intro]:
  "acts_in R p \<Longrightarrow> acts_in R q \<Longrightarrow> acts_in R (par2 c p q)"
proof (induction p arbitrary: q rule: prog_induct)
  case (Act f)
  have "acts_in R (par_right c f (\<lambda>w. map_prod (par2 c) id (f w)) q)"
    using Act by (intro acts_in_par_right) auto
  then show ?case by simp
qed (auto intro: acts_in_bindP acts_in_drainP)

lemma acts_in_parP [intro]: "(\<And>p. p \<in> set ps \<Longrightarrow> acts_in R p) \<Longrightarrow> acts_in R (parP c ps)"
  by (induction ps) (auto intro!: acts_in_bindP acts_in_par2 split: prod.split)

section \<open>A pool of tasks under a schedule\<close>

text \<open>
  Requests arrive independently, so a server is a pool of programs; a schedule is the list of
  task numbers in the order the event loop lets them move.
\<close>

definition pool_step ::
  "nat \<Rightarrow> ('w, 'e, 'a) prog list \<times> 'w \<Rightarrow> ('w, 'e, 'a) prog list \<times> 'w" where
  "pool_step i s =
     (if i < length (fst s) then
        (case fst s ! i of
           Act f \<Rightarrow> ((fst s)[i := fst (f (snd s))], snd (f (snd s)))
         | _ \<Rightarrow> s)
      else s)"

primrec pool_run ::
  "nat list \<Rightarrow> ('w, 'e, 'a) prog list \<times> 'w \<Rightarrow> ('w, 'e, 'a) prog list \<times> 'w" where
  "pool_run [] s = s"
| "pool_run (i # is) s = pool_run is (pool_step i s)"

text \<open>A pool of one task, moved often enough, does what the task does alone.\<close>

lemma pool_run_single: "\<exists>n. snd (pool_run (replicate n 0) ([p], w)) = snd (run p w)"
proof (induction p arbitrary: w rule: prog_induct)
  case (Act f)
  then obtain n where "snd (pool_run (replicate n 0) ([fst (f w)], snd (f w))) = snd (run (fst (f w)) (snd (f w)))"
    by blast
  then show ?case by (intro exI [of _ "Suc n"]) (simp add: pool_step_def)
qed (rule exI [of _ 0], simp)+

section \<open>Lifting a relation on actions to runs and interleavings\<close>

text \<open>
  The contract of a well-behaved action: a reflexive and transitive relation on worlds that it
  respects. Everything built from such actions respects it, alone or interleaved.
\<close>

locale step_relation =
  fixes R :: "'w \<Rightarrow> 'w \<Rightarrow> bool"
  assumes R_refl: "R w w"
    and R_trans: "R u v \<Longrightarrow> R v w \<Longrightarrow> R u w"
begin

lemma run_R: "acts_in R p \<Longrightarrow> R w (snd (run p w))"
proof (induction p arbitrary: w rule: prog_induct)
  case (Act f)
  then have "R w (snd (f w))" and "R (snd (f w)) (snd (run (fst (f w)) (snd (f w))))" by auto
  then show ?case using R_trans by simp
qed (simp_all add: R_refl)

lemma pool_step_R:
  assumes "\<forall>p \<in> set (fst s). acts_in R p"
  shows "R (snd s) (snd (pool_step i s)) \<and> (\<forall>p \<in> set (fst (pool_step i s)). acts_in R p)"
proof (cases "i < length (fst s) \<and> (\<exists>f. fst s ! i = Act f)")
  case True
  then obtain f where i: "i < length (fst s)" and f: "fst s ! i = Act f" by blast
  have "acts_in R (Act f)" using assms i f by (metis nth_mem)
  then have "R (snd s) (snd (f (snd s)))" and "acts_in R (fst (f (snd s)))" by auto
  then show ?thesis using assms i f by (auto simp: pool_step_def dest: set_update_subset_insert [THEN subsetD])
next
  case False
  then have "pool_step i s = s" by (auto simp: pool_step_def split: prog.splits)
  then show ?thesis using assms R_refl by simp
qed

lemma pool_run_R:
  "\<forall>p \<in> set (fst s). acts_in R p \<Longrightarrow> R (snd s) (snd (pool_run is s))"
proof (induction "is" arbitrary: s)
  case Nil
  then show ?case by (simp add: R_refl)
next
  case (Cons i "is")
  from pool_step_R [OF Cons.prems]
  have "R (snd s) (snd (pool_step i s))" and "\<forall>p \<in> set (fst (pool_step i s)). acts_in R p" by auto
  then show ?case using Cons.IH R_trans by (metis pool_run.simps(2))
qed

end

text \<open>An invariant is the relation "if it held before, it holds after".\<close>

definition keeps :: "('w \<Rightarrow> bool) \<Rightarrow> 'w \<Rightarrow> 'w \<Rightarrow> bool" where
  "keeps I w w' \<longleftrightarrow> (I w \<longrightarrow> I w')"

interpretation keep: step_relation "keeps I" for I
  by unfold_locales (auto simp: keeps_def)

lemma run_keeps: "acts_in (keeps I) p \<Longrightarrow> I w \<Longrightarrow> I (snd (run p w))"
  using keep.run_R [of I p w] by (simp add: keeps_def)

lemma pool_run_keeps:
  "\<forall>p \<in> set ps. acts_in (keeps I) p \<Longrightarrow> I w \<Longrightarrow> I (snd (pool_run is (ps, w)))"
  using keep.pool_run_R [of "(ps, w)" I "is"] by (simp add: keeps_def)

end
