(* ===== verification/JsValue.thy ===== *)
theory JsValue
  imports Complex_Main Prelude "HOL-Library.Word"
begin

text \<open>
  JavaScript values as the code meets them when it reads untrusted data: parsed JSON bodies and
  structured clones from IndexedDB. Numbers are exact rationals with the three non-finite values;
  rounding to doubles is not modelled, and every numeric limit of the code lies in the range where
  doubles are exact. An array keeps its holes (\<open>None\<close>) and any named extra properties, which a
  structured clone preserves; an object is its list of own enumerable properties. A clone may also
  hold an \<^verbatim>\<open>ArrayBuffer\<close>, an object without own properties.
\<close>

section \<open>Numbers\<close>

datatype jsnum = Fin rat | PosInf | NegInf | NaN

definition max_safe :: int where
  "max_safe = 9007199254740991"

text \<open>\<^verbatim>\<open>Number.isSafeInteger\<close>\<close>

definition is_safe_integer :: "jsnum \<Rightarrow> bool" where
  "is_safe_integer n =
     (case n of Fin q \<Rightarrow> q = of_int \<lfloor>q\<rfloor> \<and> \<bar>\<lfloor>q\<rfloor>\<bar> \<le> max_safe | _ \<Rightarrow> False)"

definition is_finite_num :: "jsnum \<Rightarrow> bool" where
  "is_finite_num n = (case n of Fin q \<Rightarrow> True | _ \<Rightarrow> False)"

lemma is_safe_integer_Fin:
  "is_safe_integer n \<longleftrightarrow> (\<exists>i. n = Fin (of_int i) \<and> \<bar>i\<bar> \<le> max_safe)"
  by (auto simp: is_safe_integer_def split: jsnum.split)

lemma is_safe_integer_int [simp]: "is_safe_integer (Fin (of_int i)) \<longleftrightarrow> \<bar>i\<bar> \<le> max_safe"
  by (simp add: is_safe_integer_def)

section \<open>Values\<close>

datatype jsval =
    JUndef
  | JNull
  | JBool bool
  | JNum jsnum
  | JStr string
  | JArr "jsval option list" "(string \<times> jsval) list"
  | JObj "(string \<times> jsval) list"
  | JBuf "8 word list"

definition js_int :: "int \<Rightarrow> jsval" where
  "js_int i = JNum (Fin (of_int i))"

text \<open>An array literal.\<close>

definition js_array :: "jsval list \<Rightarrow> jsval" where
  "js_array xs = JArr (map Some xs) []"

text \<open>
  Reading a property. On \<open>undefined\<close> and \<open>null\<close> it throws a TypeError (\<open>None\<close>); a missing
  property, and any property of a primitive, is \<open>undefined\<close>. The code reads only names that no
  built-in prototype has.
\<close>

definition own_props :: "jsval \<Rightarrow> (string \<times> jsval) list" where
  "own_props v = (case v of JObj ps \<Rightarrow> ps | JArr xs ps \<Rightarrow> ps | _ \<Rightarrow> [])"

definition js_prop :: "string \<Rightarrow> jsval \<Rightarrow> jsval option" where
  "js_prop k v =
     (if v = JUndef \<or> v = JNull then None
      else Some (case map_of (own_props v) k of None \<Rightarrow> JUndef | Some x \<Rightarrow> x))"

text \<open>\<^verbatim>\<open>v?.k\<close>\<close>

definition js_opt :: "string \<Rightarrow> jsval \<Rightarrow> jsval" where
  "js_opt k v = (case js_prop k v of None \<Rightarrow> JUndef | Some x \<Rightarrow> x)"

text \<open>\<^verbatim>\<open>Array.isArray\<close>, and the value an index read gives (a hole reads as undefined).\<close>

definition is_array :: "jsval \<Rightarrow> bool" where
  "is_array v = (case v of JArr xs ps \<Rightarrow> True | _ \<Rightarrow> False)"

definition array_items :: "jsval \<Rightarrow> jsval list" where
  "array_items v = (case v of JArr xs ps \<Rightarrow> map (case_option JUndef id) xs | _ \<Rightarrow> [])"

text \<open>\<^verbatim>\<open>typeof v === "object"\<close>, not null and not an array.\<close>

definition is_object :: "jsval \<Rightarrow> bool" where
  "is_object v = (case v of JObj ps \<Rightarrow> True | JBuf bs \<Rightarrow> True | _ \<Rightarrow> False)"

lemma array_items_array [simp]: "array_items (js_array xs) = xs" "is_array (js_array xs)"
  by (simp_all add: array_items_def js_array_def is_array_def comp_def)

lemma js_prop_obj [simp]:
  "js_prop k (JObj ps) = Some (case map_of ps k of None \<Rightarrow> JUndef | Some x \<Rightarrow> x)"
  by (simp add: js_prop_def own_props_def)

lemma js_prop_nullish [simp]: "js_prop k JNull = None" "js_prop k JUndef = None"
  by (simp_all add: js_prop_def)

lemma js_opt_obj [simp]: "js_opt k (JObj ps) = (case map_of ps k of None \<Rightarrow> JUndef | Some x \<Rightarrow> x)"
  by (simp add: js_opt_def)

lemma js_opt_nullish [simp]: "js_opt k JNull = JUndef" "js_opt k JUndef = JUndef"
  by (simp_all add: js_opt_def)

text \<open>\<^verbatim>\<open>typeof v === "string"\<close>, and \<^verbatim>\<open>a === b\<close> on values that came from different clones: two objects
  are never the same, and NaN is not itself.\<close>

definition is_str :: "jsval \<Rightarrow> bool" where
  "is_str v = (case v of JStr s \<Rightarrow> True | _ \<Rightarrow> False)"

definition js_same :: "jsval \<Rightarrow> jsval \<Rightarrow> bool" where
  "js_same a b \<longleftrightarrow> a = b \<and>
     (case a of JArr xs ps \<Rightarrow> False | JObj ps \<Rightarrow> False | JBuf bs \<Rightarrow> False | JNum n \<Rightarrow> n \<noteq> NaN | _ \<Rightarrow> True)"

lemma js_same_eq: "js_same a b \<Longrightarrow> a = b"
  by (simp add: js_same_def)

lemma is_strE: "is_str v \<Longrightarrow> (\<And>s. v = JStr s \<Longrightarrow> P) \<Longrightarrow> P"
  by (auto simp: is_str_def split: jsval.splits)

lemma js_same_str [simp]: "js_same (JStr s) v \<longleftrightarrow> v = JStr s" "is_str (JStr s)"
  by (auto simp: js_same_def is_str_def)

text \<open>\<^verbatim>\<open>{...v, k: x, ...}\<close>: the new properties replace the old ones.\<close>

definition with_props :: "jsval \<Rightarrow> (string \<times> jsval) list \<Rightarrow> jsval" where
  "with_props v ps = JObj (filter (\<lambda>(k, x). k \<notin> fst ` set ps) (own_props v) @ ps)"

section \<open>Bytes of text\<close>

text \<open>\<^verbatim>\<open>TextEncoder\<close> on code units below 256.\<close>

definition utf8_char :: "char \<Rightarrow> 8 word list" where
  "utf8_char c =
     (let n = code_of c in
      if n < 128 then [word_of_nat n] else [word_of_nat (192 + n div 64), word_of_nat (128 + n mod 64)])"

definition utf8 :: "string \<Rightarrow> 8 word list" where
  "utf8 s = concat (map utf8_char s)"

section \<open>Number(text)\<close>

definition digit_val :: "char \<Rightarrow> nat" where
  "digit_val c =
     (if is_digit c then code_of c - 48
      else if is_lower c then code_of c - 87
      else if is_upper c then code_of c - 55
      else 99)"

definition is_radix_digit :: "nat \<Rightarrow> char \<Rightarrow> bool" where
  "is_radix_digit b c \<longleftrightarrow> digit_val c < b"

definition digits_value :: "nat \<Rightarrow> string \<Rightarrow> nat" where
  "digits_value b ds = foldl (\<lambda>n c. n * b + digit_val c) 0 ds"

definition radix_literal :: "nat \<Rightarrow> string \<Rightarrow> jsnum" where
  "radix_literal b ds =
     (if ds \<noteq> [] \<and> list_all (is_radix_digit b) ds then Fin (of_nat (digits_value b ds)) else NaN)"

definition pow10 :: "int \<Rightarrow> rat" where
  "pow10 e = (if 0 \<le> e then 10 ^ nat e else 1 / 10 ^ nat (- e))"

text \<open>An optional sign, and what follows it.\<close>

definition split_sign :: "string \<Rightarrow> bool \<times> string" where
  "split_sign s =
     (case s of
        c # cs \<Rightarrow> if c = CHR ''-'' then (True, cs) else if c = CHR ''+'' then (False, cs) else (False, s)
      | [] \<Rightarrow> (False, []))"

text \<open>The exponent part; \<open>None\<close> when it is malformed.\<close>

definition exponent_value :: "string \<Rightarrow> int option" where
  "exponent_value s =
     (case s of
        [] \<Rightarrow> Some 0
      | c # cs \<Rightarrow>
          if c = CHR ''e'' \<or> c = CHR ''E'' then
            (let (neg, ds) = split_sign cs in
             if ds \<noteq> [] \<and> list_all is_digit ds
             then Some (if neg then - int (digits_value 10 ds) else int (digits_value 10 ds))
             else None)
          else None)"

definition unsigned_decimal :: "string \<Rightarrow> jsnum" where
  "unsigned_decimal s =
     (if s = ''Infinity'' then PosInf
      else
        let ip = takeWhile is_digit s; r = dropWhile is_digit s;
            (fp, r') = (case r of
               c # cs \<Rightarrow> if c = CHR ''.'' then (takeWhile is_digit cs, dropWhile is_digit cs) else ([], r)
             | [] \<Rightarrow> ([], []))
        in if ip = [] \<and> fp = [] then NaN
           else case exponent_value r' of
                  None \<Rightarrow> NaN
                | Some e \<Rightarrow> Fin (of_nat (digits_value 10 (ip @ fp)) * pow10 (e - int (length fp))))"

definition negate_num :: "jsnum \<Rightarrow> jsnum" where
  "negate_num n = (case n of Fin q \<Rightarrow> Fin (- q) | PosInf \<Rightarrow> NegInf | NegInf \<Rightarrow> PosInf | NaN \<Rightarrow> NaN)"

definition js_number :: "string \<Rightarrow> jsnum" where
  "js_number s =
     (let t = js_trim s; p = take 2 t in
      if t = [] then Fin 0
      else if p = ''0x'' \<or> p = ''0X'' then radix_literal 16 (drop 2 t)
      else if p = ''0o'' \<or> p = ''0O'' then radix_literal 8 (drop 2 t)
      else if p = ''0b'' \<or> p = ''0B'' then radix_literal 2 (drop 2 t)
      else let (neg, u) = split_sign t
           in if neg then negate_num (unsigned_decimal u) else unsigned_decimal u)"

text \<open>\<^verbatim>\<open>Boolean(v)\<close>, and \<^verbatim>\<open>Number(v)\<close> on the primitives (the code
  converts nothing else).\<close>

definition truthy :: "jsval \<Rightarrow> bool" where
  "truthy v =
     (case v of
        JUndef \<Rightarrow> False
      | JNull \<Rightarrow> False
      | JBool b \<Rightarrow> b
      | JNum n \<Rightarrow> n \<noteq> Fin 0 \<and> n \<noteq> NaN
      | JStr s \<Rightarrow> s \<noteq> []
      | _ \<Rightarrow> True)"

lemma truthy_nullish [simp]: "\<not> truthy JUndef" "\<not> truthy JNull"
  by (simp_all add: truthy_def)

definition to_number :: "jsval \<Rightarrow> jsnum" where
  "to_number v =
     (case v of
        JNull \<Rightarrow> Fin 0
      | JBool b \<Rightarrow> Fin (if b then 1 else 0)
      | JNum n \<Rightarrow> n
      | JStr s \<Rightarrow> js_number s
      | _ \<Rightarrow> NaN)"

lemma takeWhile_digits: "list_all is_digit ds \<Longrightarrow> takeWhile is_digit ds = ds \<and> dropWhile is_digit ds = []"
  by (induction ds) auto

lemma digit_not_space: "is_digit c \<Longrightarrow> \<not> is_js_space c"
  by (auto simp: is_digit_def is_js_space_def)

lemma js_trim_id: "list_all (\<lambda>c. \<not> is_js_space c) s \<Longrightarrow> js_trim s = s"
proof -
  assume a: "list_all (\<lambda>c. \<not> is_js_space c) s"
  have d: "dropWhile is_js_space t = t" if "list_all (\<lambda>c. \<not> is_js_space c) t" for t
    using that by (cases t) auto
  have "list_all (\<lambda>c. \<not> is_js_space c) (rev s)" using a by (simp add: list_all_iff)
  then show ?thesis using d a by (simp add: js_trim_def)
qed

lemma letter_not_digit: "\<not> is_digit (CHR ''I'')" "\<not> is_digit (CHR ''x'')" "\<not> is_digit (CHR ''X'')"
  "\<not> is_digit (CHR ''o'')" "\<not> is_digit (CHR ''O'')" "\<not> is_digit (CHR ''b'')" "\<not> is_digit (CHR ''B'')"
  "\<not> is_digit (CHR ''-'')" "\<not> is_digit (CHR ''+'')"
  by (simp_all add: is_digit_def code_of_def)

text \<open>On a decimal numeral, \<^verbatim>\<open>Number\<close> is its value.\<close>

lemma js_number_digits:
  assumes "ds \<noteq> []" and d: "list_all is_digit ds"
  shows "js_number ds = Fin (of_nat (digits_value 10 ds))"
proof -
  have tr: "js_trim ds = ds"
    using d by (intro js_trim_id) (auto simp: list_all_iff digit_not_space)
  have inf: "ds \<noteq> ''Infinity''" using d letter_not_digit by auto
  have p: "take 2 ds \<noteq> [CHR ''0'', x]" if "\<not> is_digit x" for x
  proof
    assume "take 2 ds = [CHR ''0'', x]"
    then have "x \<in> set ds" by (metis in_set_takeD list.set_intros)
    then show False using d that by (auto simp: list_all_iff)
  qed
  have sg: "split_sign ds = (False, ds)"
    using assms letter_not_digit by (cases ds) (auto simp: split_sign_def)
  have u: "unsigned_decimal ds = Fin (of_nat (digits_value 10 ds))"
  proof -
    have tw: "takeWhile is_digit ds = ds" and dw: "dropWhile is_digit ds = []"
      using takeWhile_digits [OF d] by auto
    show ?thesis
      using inf assms(1) by (simp add: unsigned_decimal_def exponent_value_def pow10_def tw dw)
  qed
  show ?thesis
    using assms(1) p letter_not_digit sg u by (simp add: js_number_def tr Let_def)
qed

end
