(* ===== verification/Url_Policy.thy ===== *)
theory Url_Policy
  imports JsValue
begin

text \<open>
  lib/matrix/url-policy.ts: which homeserver addresses the client accepts. The WHATWG URL parser
  is a parameter: \<open>parse_url\<close> is \<open>None\<close> where \<^verbatim>\<open>new URL(raw)\<close> throws; the record holds the
  properties of a \<^verbatim>\<open>URL\<close> the program reads.
\<close>

record url =
  url_protocol :: string
  url_username :: string
  url_password :: string
  url_hostname :: string
  url_port :: string
  url_pathname :: string
  url_search :: string
  url_hash :: string
  url_origin :: string
  url_href :: string

section \<open>Loopback hosts\<close>

text \<open>\<^verbatim>\<open>replace(/^\[|\]$/g, "")\<close>\<close>

definition strip_brackets :: "string \<Rightarrow> string" where
  "strip_brackets s =
     (let t = (case s of c # cs \<Rightarrow> if c = CHR ''['' then cs else s | [] \<Rightarrow> [])
      in if t \<noteq> [] \<and> last t = CHR '']'' then butlast t else t)"

text \<open>\<^verbatim>\<open>/^\d{1,3}$/\<close> and a value of at most 255\<close>

definition is_octet :: "string \<Rightarrow> bool" where
  "is_octet s \<longleftrightarrow>
     1 \<le> length s \<and> length s \<le> 3 \<and> list_all is_digit s \<and>
     (case js_number s of Fin q \<Rightarrow> q \<le> 255 | _ \<Rightarrow> False)"

definition is_loopback_hostname :: "string \<Rightarrow> bool" where
  "is_loopback_hostname raw =
     (let hostname = strip_brackets (to_lower raw) in
      if hostname = ''localhost'' \<or> hostname = ''::1'' then True
      else let octets = split_on (CHR ''.'') hostname
           in length octets = 4 \<and> list_all is_octet octets \<and> js_number (hd octets) = Fin 127)"

section \<open>Homeserver addresses\<close>

text \<open>\<^verbatim>\<open>replace(/\/$/, "")\<close>\<close>

definition strip_slash :: "string \<Rightarrow> string" where
  "strip_slash s = (if s \<noteq> [] \<and> last s = CHR ''/'' then butlast s else s)"

text \<open>
  \<open>production\<close> and \<open>app_origin\<close> are the policy after its defaults: the build mode, and the origin of
  the page if there is one. The left result is the message of the \<open>InsecureHomeserverError\<close>.
\<close>

definition assert_allowed_homeserver_url ::
  "(string \<Rightarrow> url option) \<Rightarrow> bool \<Rightarrow> string option \<Rightarrow> string \<Rightarrow> string + string" where
  "assert_allowed_homeserver_url parse_url production app_origin raw =
     (case parse_url raw of
        None \<Rightarrow> Inl ''The homeserver address is not a valid URL.''
      | Some u \<Rightarrow>
          if url_username u \<noteq> [] \<or> url_password u \<noteq> []
          then Inl ''Homeserver URLs may not contain embedded credentials.''
          else if url_search u \<noteq> [] \<or> url_hash u \<noteq> []
          then Inl ''Homeserver URLs may not contain a query or fragment.''
          else if url_protocol u = ''https:'' then Inr (strip_slash (url_href u))
          else if url_protocol u \<noteq> ''http:'' then Inl ''Matrix homeservers must use HTTPS.''
          else
            let app_url = (case app_origin of
                             Some (c # cs) \<Rightarrow> parse_url (c # cs)
                           | _ \<Rightarrow> None)
            in if production
                  \<or> (case app_url of None \<Rightarrow> True | Some a \<Rightarrow> \<not> is_loopback_hostname (url_hostname a))
                  \<or> \<not> is_loopback_hostname (url_hostname u)
               then Inl ''Matrix homeservers must use HTTPS outside loopback development.''
               else Inr (strip_slash (url_href u)))"

section \<open>Facts\<close>

lemma digits_value_Cons:
  "digits_value b (ds @ [d]) = digits_value b ds * b + digit_val d"
  by (simp add: digits_value_def)

lemma digit_val_digit: "is_digit c \<Longrightarrow> digit_val c + 48 = code_of c \<and> digit_val c \<le> 9"
  by (auto simp: digit_val_def is_digit_def)

lemma digit_val_inj: "is_digit c \<Longrightarrow> is_digit d \<Longrightarrow> digit_val c = digit_val d \<Longrightarrow> c = d"
  using digit_val_digit [of c] digit_val_digit [of d] by (simp add: code_of_inject [symmetric])

text \<open>Three decimal digits of value 127 are the digits 1, 2 and 7: no octal or padded spelling.\<close>

lemma digits_127:
  fixes x y z :: nat
  assumes "(x * 10 + y) * 10 + z = 127" and "x \<le> 9" "y \<le> 9" "z \<le> 9"
  shows "x = 1" and "y = 2" and "z = 7"
proof -
  have e: "100 * x + 10 * y + z = 127" using assms(1) by (simp add: algebra_simps)
  have "x \<le> 1" "1 \<le> x" using e assms(2-4) by arith+
  then show x: "x = 1" by simp
  have "y \<le> 2" "2 \<le> y" using e x assms(2-4) by arith+
  then show y: "y = 2" by simp
  show "z = 7" using assms x y by simp
qed

lemma octet_127:
  assumes "is_octet s" and "js_number s = Fin 127"
  shows "s = ''127''"
proof -
  have d: "list_all is_digit s" "s \<noteq> []" "length s \<le> 3" using assms(1) by (auto simp: is_octet_def)
  then have v: "digits_value 10 s = 127"
    using js_number_digits [of s] assms(2) by simp
  have dv: "digit_val c \<le> 9" if "c \<in> set s" for c
    using d that digit_val_digit [of c] by (auto simp: list_all_iff)
  consider (1) a where "s = [a]" | (2) a b where "s = [a, b]" | (3) a b c where "s = [a, b, c]"
    using d(2,3) by (cases s rule: list.exhaust; cases "tl s"; cases "tl (tl s)"; cases "tl (tl (tl s))") auto
  then show ?thesis
  proof cases
    case 1
    then show ?thesis using v dv by (auto simp: digits_value_def)
  next
    case 2
    then show ?thesis using v dv [of a] dv [of b] by (simp add: digits_value_def)
  next
    case 3
    then have *: "(digit_val a * 10 + digit_val b) * 10 + digit_val c = 127"
      and l: "digit_val a \<le> 9" "digit_val b \<le> 9" "digit_val c \<le> 9"
      using v dv by (auto simp: digits_value_def)
    have "digit_val a = 1" "digit_val b = 2" "digit_val c = 7" using digits_127 [OF * l] by auto
    moreover have "is_digit a" "is_digit b" "is_digit c" using d(1) 3 by auto
    moreover have "digit_val (CHR ''1'') = 1" "digit_val (CHR ''2'') = 2" "digit_val (CHR ''7'') = 7"
      "is_digit (CHR ''1'')" "is_digit (CHR ''2'')" "is_digit (CHR ''7'')"
      by (simp_all add: digit_val_def is_digit_def code_of_def)
    ultimately show ?thesis using 3 by (metis digit_val_inj)
  qed
qed

lemma loopback_cases:
  assumes "is_loopback_hostname raw"
  shows "strip_brackets (to_lower raw) = ''localhost'' \<or> strip_brackets (to_lower raw) = ''::1'' \<or>
    (\<exists>b c d. split_on (CHR ''.'') (strip_brackets (to_lower raw)) = [''127'', b, c, d] \<and>
       is_octet b \<and> is_octet c \<and> is_octet d)"
proof (cases "strip_brackets (to_lower raw) = ''localhost'' \<or> strip_brackets (to_lower raw) = ''::1''")
  case False
  define os where "os = split_on (CHR ''.'') (strip_brackets (to_lower raw))"
  have h: "length os = 4" "list_all is_octet os" "js_number (hd os) = Fin 127"
    using assms False by (auto simp: is_loopback_hostname_def Let_def os_def)
  obtain a b c d where os: "os = [a, b, c, d]"
    using h(1) by (auto simp: eval_nat_numeral length_Suc_conv)
  then show ?thesis using h octet_127 [of a] by (auto simp: os_def)
qed blast

lemma allowed_homeserver_cases:
  assumes "assert_allowed_homeserver_url parse_url production app_origin raw = Inr base"
  obtains u where "parse_url raw = Some u" "base = strip_slash (url_href u)"
    "url_username u = []" "url_password u = []" "url_search u = []" "url_hash u = []"
    "url_protocol u = ''https:'' \<or>
     url_protocol u = ''http:'' \<and> \<not> production \<and> is_loopback_hostname (url_hostname u) \<and>
     (\<exists>origin a. app_origin = Some origin \<and> parse_url origin = Some a \<and> is_loopback_hostname (url_hostname a))"
proof (cases "parse_url raw")
  case (Some u)
  show ?thesis
  proof (rule that [OF Some])
    show "url_protocol u = ''https:'' \<or>
     url_protocol u = ''http:'' \<and> \<not> production \<and> is_loopback_hostname (url_hostname u) \<and>
     (\<exists>origin a. app_origin = Some origin \<and> parse_url origin = Some a \<and> is_loopback_hostname (url_hostname a))"
      using assms Some
      by (auto simp: assert_allowed_homeserver_url_def Let_def split: if_splits option.splits list.splits)
  qed (use assms Some in
      \<open>auto simp: assert_allowed_homeserver_url_def Let_def split: if_splits option.splits\<close>)
qed (use assms in \<open>simp add: assert_allowed_homeserver_url_def\<close>)

end
