(* ===== verification/Push_Gateway.thy ===== *)
theory Push_Gateway
  imports Url_Policy
begin

text \<open>
  lib/push-gateway.ts: which keys, endpoints and addresses the push gateway accepts, and the
  payload it sends. The URL parser (WHATWG \<^verbatim>\<open>URL\<close>) and the ipaddr.js library are parameters:
  \<open>parse_url\<close> is \<open>None\<close> where the constructor throws, \<open>ip_valid\<close> is \<open>ipaddr.isValid\<close> and
  \<open>ip_parse\<close> is \<open>ipaddr.parse\<close>, \<open>None\<close> where it throws.
\<close>

section \<open>Keys\<close>

text \<open>\<^verbatim>\<open>/^[A-Za-z0-9_-]{lo,hi}$/\<close>\<close>

definition token_pattern :: "nat \<Rightarrow> nat \<Rightarrow> string \<Rightarrow> bool" where
  "token_pattern lo hi s \<longleftrightarrow> lo \<le> length s \<and> length s \<le> hi \<and> list_all is_token_char s"

definition valid_push_key :: "jsval \<Rightarrow> bool" where
  "valid_push_key v = (case v of JStr s \<Rightarrow> token_pattern 40 128 s | _ \<Rightarrow> False)"

section \<open>Endpoints\<close>

definition is_host_alnum :: "char \<Rightarrow> bool" where
  "is_host_alnum c \<longleftrightarrow> is_lower c \<or> is_digit c"

definition is_host_char :: "char \<Rightarrow> bool" where
  "is_host_char c \<longleftrightarrow> is_host_alnum c \<or> code_of c = 46 \<or> code_of c = 45"

text \<open>\<^verbatim>\<open>/^[a-z0-9](?:[a-z0-9.-]*[a-z0-9])?$/\<close>\<close>

definition host_pattern :: "string \<Rightarrow> bool" where
  "host_pattern s \<longleftrightarrow>
     s \<noteq> [] \<and> is_host_alnum (hd s) \<and> is_host_alnum (last s) \<and> list_all is_host_char s"

text \<open>The argument is \<open>PUSH_ENDPOINT_HOSTS\<close>, the empty string when it is not set.\<close>

definition configured_push_hosts :: "string \<Rightarrow> string list" where
  "configured_push_hosts env =
     filter (\<lambda>host. host_pattern host \<and> \<not> includes_str ''..'' host)
       (map (\<lambda>host. to_lower (js_trim host)) (split_on (CHR '','') env))"

definition built_in_push_hosts :: "string list" where
  "built_in_push_hosts = [''fcm.googleapis.com'', ''updates.push.services.mozilla.com'']"

definition allowed_push_host :: "string \<Rightarrow> string list \<Rightarrow> bool" where
  "allowed_push_host host additional =
     (if host \<in> set built_in_push_hosts then True
      else if suffix ''.push.apple.com'' host \<or> suffix ''.notify.windows.com'' host then True
      else host \<in> set (map (\<lambda>v. to_lower (js_trim v)) additional))"

definition valid_push_endpoint ::
  "(string \<Rightarrow> url option) \<Rightarrow> (string \<Rightarrow> bool) \<Rightarrow> string list \<Rightarrow> jsval \<Rightarrow> bool" where
  "valid_push_endpoint parse_url ip_valid additional raw =
     (case raw of
        JStr s \<Rightarrow>
          if length s > 2048 then False
          else (case parse_url s of
             None \<Rightarrow> False
           | Some u \<Rightarrow>
               if url_protocol u \<noteq> ''https:'' \<or> url_username u \<noteq> [] \<or> url_password u \<noteq> []
                  \<or> url_port u \<noteq> [] \<or> url_hash u \<noteq> [] then False
               else let host = to_lower (url_hostname u)
                    in if ip_valid host then False else allowed_push_host host additional)
      | _ \<Rightarrow> False)"

section \<open>Addresses\<close>

text \<open>A parsed address: its range, and for IPv6 the range of the IPv4 address it maps, if any.\<close>

datatype ip = IPv4 string | IPv6 string "string option"

definition is_public_ip_address :: "(string \<Rightarrow> ip option) \<Rightarrow> string \<Rightarrow> bool" where
  "is_public_ip_address ip_parse raw =
     (case ip_parse raw of
        None \<Rightarrow> False
      | Some (IPv4 r) \<Rightarrow> r = ''unicast''
      | Some (IPv6 r mapped) \<Rightarrow>
          (case mapped of Some v4 \<Rightarrow> v4 = ''unicast'' | None \<Rightarrow> r = ''unicast''))"

record lookup_address =
  addr_text :: string
  addr_family :: int

datatype lookup_result =
    LookupError string
  | LookupAll "lookup_address list"
  | LookupOne string int

definition requested_family :: "jsval \<Rightarrow> jsnum" where
  "requested_family family = (if truthy family then to_number family else Fin 0)"

definition matching_addresses :: "jsnum \<Rightarrow> lookup_address list \<Rightarrow> lookup_address list" where
  "matching_addresses requested addresses =
     (if truthy (JNum requested)
      then filter (\<lambda>a. Fin (of_int (addr_family a)) = requested) addresses
      else addresses)"

text \<open>The resolver's answer is an error code or the list of all addresses.\<close>

definition public_lookup ::
  "(string \<Rightarrow> ip option) \<Rightarrow> bool \<Rightarrow> jsval \<Rightarrow> string + lookup_address list \<Rightarrow> lookup_result" where
  "public_lookup ip_parse all family answer =
     (case answer of
        Inl code \<Rightarrow> LookupError code
      | Inr addresses \<Rightarrow>
          if addresses = [] \<or> list_ex (\<lambda>a. \<not> is_public_ip_address ip_parse (addr_text a)) addresses
          then LookupError ''EACCES''
          else
            let matching = matching_addresses (requested_family family) addresses
            in (case matching of
                  [] \<Rightarrow> LookupError ''EAI_ADDRFAMILY''
                | a # _ \<Rightarrow> if all then LookupAll matching else LookupOne (addr_text a) (addr_family a)))"

section \<open>Payload\<close>

text \<open>
  The object \<^verbatim>\<open>JSON.stringify\<close> prints; \<open>owner\<close> is \<open>None\<close> when it is null or undefined.
\<close>

definition unread_count :: "jsval \<Rightarrow> jsnum" where
  "unread_count notification =
     (case js_opt ''unread'' (js_opt ''counts'' notification) of
        JNum (Fin q) \<Rightarrow> Fin (max 0 q)
      | _ \<Rightarrow> Fin 0)"

definition nullish_null :: "jsval \<Rightarrow> jsval" where
  "nullish_null v = (if v = JUndef then JNull else v)"

definition generic_notification_payload :: "jsval \<Rightarrow> string \<Rightarrow> string option \<Rightarrow> jsval" where
  "generic_notification_payload notification kind owner =
     JObj ([(''kind'', JStr kind)]
       @ (case owner of Some (c # cs) \<Rightarrow> [(''owner'', JStr (c # cs))] | _ \<Rightarrow> [])
       @ [(''roomId'', nullish_null (js_opt ''room_id'' notification)),
          (''eventId'', nullish_null (js_opt ''event_id'' notification)),
          (''unread'', JNum (unread_count notification))])"

section \<open>Facts\<close>

text \<open>A trusted host: a known push service, one of its sub-domains, or a configured name.\<close>

definition trusted_host :: "string list \<Rightarrow> string \<Rightarrow> bool" where
  "trusted_host additional host \<longleftrightarrow>
     host \<in> set built_in_push_hosts \<or> (\<exists>p. host = p @ ''.push.apple.com'') \<or>
     (\<exists>p. host = p @ ''.notify.windows.com'') \<or> (\<exists>v \<in> set additional. host = to_lower (js_trim v))"

lemma allowed_push_host_iff: "allowed_push_host host hosts \<longleftrightarrow> trusted_host hosts host"
  by (auto simp: allowed_push_host_def trusted_host_def suffix_def)

lemma valid_push_keyE:
  assumes "valid_push_key v"
  obtains s where "v = JStr s" and "40 \<le> length s" and "length s \<le> 128" and "list_all is_token_char s"
  using assms by (auto simp: valid_push_key_def token_pattern_def split: jsval.splits)

lemma valid_push_endpointE:
  assumes "valid_push_endpoint parse_url ip_valid hosts v"
  obtains s u where "v = JStr s" and "length s \<le> 2048" and "parse_url s = Some u"
    and "url_protocol u = ''https:''" and "\<not> ip_valid (to_lower (url_hostname u))"
    and "trusted_host hosts (to_lower (url_hostname u))"
    and "url_username u = []" "url_password u = []" "url_port u = []" "url_hash u = []"
  using assms
  by (auto simp: valid_push_endpoint_def allowed_push_host_iff Let_def
      split: jsval.splits option.splits if_splits)

lemma configured_hosts_shape:
  assumes "h \<in> set (configured_push_hosts env)"
  shows "host_pattern h" and "\<not> includes_str ''..'' h"
  using assms by (auto simp: configured_push_hosts_def)

lemma lower_char_host [simp]: "is_host_char c \<Longrightarrow> lower_char c = c"
  by (auto simp: is_host_char_def is_host_alnum_def is_lower_def is_digit_def lower_char_def Let_def)

lemma host_char_not_space: "is_host_char c \<Longrightarrow> \<not> is_js_space c"
  by (auto simp: is_host_char_def is_host_alnum_def is_lower_def is_digit_def is_js_space_def)

lemma host_pattern_fixed:
  assumes "host_pattern h"
  shows "to_lower (js_trim h) = h"
proof -
  have c: "list_all is_host_char h" using assms by (simp add: host_pattern_def)
  then have "js_trim h = h" by (intro js_trim_id) (auto simp: list_all_iff host_char_not_space)
  moreover have "to_lower h = h" using c by (auto simp: to_lower_def list_all_iff intro: map_idI)
  ultimately show ?thesis by simp
qed

lemma lookup_cases:
  assumes "public_lookup ip_parse all family answer = r"
  shows "(\<exists>code. r = LookupError code) \<or>
     (\<exists>addresses. answer = Inr addresses \<and>
        (\<forall>a \<in> set addresses. is_public_ip_address ip_parse (addr_text a)) \<and>
        ((\<exists>as. r = LookupAll as \<and> as \<noteq> [] \<and> set as \<subseteq> set addresses \<and> all) \<or>
         (\<exists>a \<in> set addresses. r = LookupOne (addr_text a) (addr_family a) \<and> \<not> all)))"
proof (cases answer)
  case (Inl code)
  then show ?thesis using assms by (auto simp: public_lookup_def)
next
  case (Inr addresses)
  define m where "m = matching_addresses (requested_family family) addresses"
  have sub: "set m \<subseteq> set addresses" by (auto simp: m_def matching_addresses_def)
  show ?thesis
    using assms Inr sub
    by (cases m) (auto simp: public_lookup_def m_def [symmetric] list_ex_iff split: if_splits)
qed

end
