(* ===== verification/Push_Store.thy ===== *)
theory Push_Store
  imports Prelude
begin

text \<open>
  The PostgreSQL side of the push gateway: the tables of db/schema.ts and the stored functions of
  drizzle/*.sql that lib/push-repository.ts calls. A table is the list of its rows (the order
  carries no meaning); the unique indexes are checked by every INSERT and UPDATE, and a violation
  is the error the driver raises, with the transaction rolled back. The two row-count triggers
  are part of the INSERT and DELETE they fire on.

  Every stored function locks the gateway row or is one statement, so one call is one atomic step.
\<close>

section \<open>Tables (db/schema.ts)\<close>

record subscription_row =
  sub_key :: string
  sub_manage :: "string option"
  sub_endpoint :: string
  sub_p256dh :: string
  sub_auth :: string
  sub_created :: int
  sub_updated :: int
  sub_success :: "int option"
  sub_window :: int
  sub_count :: int

record pending_row =
  pend_manage :: string
  pend_delivery :: string
  pend_challenge :: string
  pend_endpoint :: string
  pend_p256dh :: string
  pend_auth :: string
  pend_created :: int
  pend_expires :: int

record revoked_row =
  rev_manage :: string
  rev_at :: int

record gateway_row =
  gate_subs :: int
  gate_revoked :: int
  gate_limit :: "int option"

record budget_row =
  bud_name :: string
  bud_window :: int
  bud_count :: int

datatype delivery_status = Pending | Sent

record delivery_row =
  del_key :: string
  del_event :: string
  del_status :: delivery_status
  del_updated :: int

text \<open>The gateway table holds at most the row with id 1 (its CHECK constraint).\<close>

record push_db =
  subs :: "subscription_row list"
  pendings :: "pending_row list"
  revoked :: "revoked_row list"
  gateway :: "gateway_row option"
  budgets :: "budget_row list"
  deliveries :: "delivery_row list"

datatype db_error = GatewayMissing | UniqueViolation | LimitNotPositive | LimitNotConfigured
  | RevokedCapacity

section \<open>Unique indexes\<close>

text \<open>NULL management keys do not collide in a unique index.\<close>

fun manage_keys :: "subscription_row list \<Rightarrow> string list" where
  "manage_keys [] = []"
| "manage_keys (r # rs) =
     (case sub_manage r of None \<Rightarrow> manage_keys rs | Some m \<Rightarrow> m # manage_keys rs)"

definition unique_subs :: "subscription_row list \<Rightarrow> bool" where
  "unique_subs rs \<longleftrightarrow>
     distinct (map sub_key rs) \<and> distinct (map sub_endpoint rs) \<and> distinct (manage_keys rs)"

definition unique_pendings :: "pending_row list \<Rightarrow> bool" where
  "unique_pendings rs \<longleftrightarrow>
     distinct (map pend_manage rs) \<and> distinct (map pend_delivery rs) \<and>
     distinct (map pend_challenge rs) \<and> distinct (map pend_endpoint rs)"

section \<open>Statements\<close>

text \<open>\<^verbatim>\<open>subetha_update_push_subscription_count\<close>, fired for each row.\<close>

definition count_insert :: "push_db \<Rightarrow> push_db" where
  "count_insert db = db\<lparr>gateway := map_option (\<lambda>g. g\<lparr>gate_subs := gate_subs g + 1\<rparr>) (gateway db)\<rparr>"

definition count_delete :: "push_db \<Rightarrow> push_db" where
  "count_delete db =
     db\<lparr>gateway := map_option (\<lambda>g. g\<lparr>gate_subs := max 0 (gate_subs g - 1)\<rparr>) (gateway db)\<rparr>"

definition delete_subs :: "(subscription_row \<Rightarrow> bool) \<Rightarrow> push_db \<Rightarrow> push_db" where
  "delete_subs P db =
     (count_delete ^^ length (filter P (subs db))) (db\<lparr>subs := filter (\<lambda>r. \<not> P r) (subs db)\<rparr>)"

definition insert_sub :: "subscription_row \<Rightarrow> push_db \<Rightarrow> db_error + push_db" where
  "insert_sub r db =
     (if unique_subs (subs db @ [r]) then Inr (count_insert (db\<lparr>subs := subs db @ [r]\<rparr>))
      else Inl UniqueViolation)"

definition update_subs ::
  "(subscription_row \<Rightarrow> bool) \<Rightarrow> (subscription_row \<Rightarrow> subscription_row) \<Rightarrow> push_db \<Rightarrow>
   db_error + push_db" where
  "update_subs P f db =
     (let rs = map (\<lambda>r. if P r then f r else r) (subs db) in
      if unique_subs rs then Inr (db\<lparr>subs := rs\<rparr>) else Inl UniqueViolation)"

definition delete_pendings :: "(pending_row \<Rightarrow> bool) \<Rightarrow> push_db \<Rightarrow> push_db" where
  "delete_pendings P db = db\<lparr>pendings := filter (\<lambda>r. \<not> P r) (pendings db)\<rparr>"

definition insert_pending :: "pending_row \<Rightarrow> push_db \<Rightarrow> db_error + push_db" where
  "insert_pending r db =
     (if unique_pendings (pendings db @ [r]) then Inr (db\<lparr>pendings := pendings db @ [r]\<rparr>)
      else Inl UniqueViolation)"

definition delete_deliveries :: "(delivery_row \<Rightarrow> bool) \<Rightarrow> push_db \<Rightarrow> push_db" where
  "delete_deliveries P db = db\<lparr>deliveries := filter (\<lambda>r. \<not> P r) (deliveries db)\<rparr>"

text \<open>\<^verbatim>\<open>subetha_update_revoked_management_key_count\<close> fires on the INSERT.\<close>

definition insert_revoked :: "revoked_row \<Rightarrow> push_db \<Rightarrow> db_error + push_db" where
  "insert_revoked r db =
     (if list_ex (\<lambda>q. rev_manage q = rev_manage r) (revoked db) then Inl UniqueViolation
      else Inr (db\<lparr>revoked := revoked db @ [r],
                   gateway := map_option (\<lambda>g. g\<lparr>gate_revoked := gate_revoked g + 1\<rparr>) (gateway db)\<rparr>))"

text \<open>\<^verbatim>\<open>SELECT ... WHERE\<close> into a row variable: the first match.\<close>

definition select_sub :: "(subscription_row \<Rightarrow> bool) \<Rightarrow> push_db \<Rightarrow> subscription_row option" where
  "select_sub P db = find P (subs db)"

definition is_revoked :: "string \<Rightarrow> push_db \<Rightarrow> bool" where
  "is_revoked m db \<longleftrightarrow> list_ex (\<lambda>r. rev_manage r = m) (revoked db)"

text \<open>Delete the subscription with a key together with its delivery records.\<close>

definition drop_sub_key :: "string \<Rightarrow> push_db \<Rightarrow> push_db" where
  "drop_sub_key k db = delete_subs (\<lambda>r. sub_key r = k) (delete_deliveries (\<lambda>r. del_key r = k) db)"

section \<open>Stored functions\<close>

datatype start_outcome = Active | ChallengeRequired | CapacityExceeded | PendingCapacityExceeded
  | ManagementConflict | RevokedStart

datatype confirm_outcome = Created | Reassigned | ConfirmCapacity | InvalidChallenge
  | ExpiredChallenge | RevokedConfirm

datatype deletion_outcome = Removed | NotFound | DeletionCapacity

text \<open>The subscription material of a request: endpoint, p256dh and auth.\<close>

record material =
  mat_endpoint :: string
  mat_p256dh :: string
  mat_auth :: string

definition same_material :: "material \<Rightarrow> subscription_row \<Rightarrow> bool" where
  "same_material s r \<longleftrightarrow>
     sub_endpoint r = mat_endpoint s \<and> sub_p256dh r = mat_p256dh s \<and> sub_auth r = mat_auth s"

definition claims_pending :: "string \<Rightarrow> string \<Rightarrow> string \<Rightarrow> pending_row \<Rightarrow> bool" where
  "claims_pending d m e r \<longleftrightarrow> pend_delivery r = d \<or> pend_manage r = m \<or> pend_endpoint r = e"

text \<open>
  \<^verbatim>\<open>subetha_begin_push_subscription_registration\<close>: the branch for a delivery key that
  already has a subscription, the branch for a new one, and the function.
\<close>

definition begin_existing ::
  "string \<Rightarrow> string \<Rightarrow> material \<Rightarrow> int \<Rightarrow> subscription_row \<Rightarrow> push_db \<Rightarrow>
   db_error + start_outcome \<times> push_db" where
  "begin_existing d m s now r db =
     (if sub_manage r \<noteq> None \<and> sub_manage r \<noteq> Some m then Inr (ManagementConflict, db)
      else if sub_manage r = None \<and> \<not> same_material s r then Inr (ManagementConflict, db)
      else
        let db1 = (case select_sub (\<lambda>q. sub_endpoint q = mat_endpoint s \<and> sub_key q \<noteq> d) db of
                     None \<Rightarrow> db
                   | Some q \<Rightarrow> drop_sub_key (sub_key q) db)
        in sum_bind
             (update_subs (\<lambda>q. sub_key q = d)
                (\<lambda>q. q\<lparr>sub_manage := Some m, sub_endpoint := mat_endpoint s,
                       sub_p256dh := mat_p256dh s, sub_auth := mat_auth s, sub_updated := now\<rparr>) db1)
             (\<lambda>db2. Inr (Active, delete_pendings (claims_pending d m (mat_endpoint s)) db2)))"

definition begin_new ::
  "string \<Rightarrow> string \<Rightarrow> material \<Rightarrow> string \<Rightarrow> int \<Rightarrow> int \<Rightarrow> int \<Rightarrow> int \<Rightarrow> gateway_row \<Rightarrow>
   push_db \<Rightarrow> db_error + start_outcome \<times> push_db" where
  "begin_new d m s ch now expires max_subs max_pending g db =
     (if list_ex (\<lambda>r. sub_manage r = Some m) (subs db) then Inr (ManagementConflict, db)
      else if max_subs \<le> gate_subs g then Inr (CapacityExceeded, db)
      else
        let db1 = delete_pendings (claims_pending d m (mat_endpoint s)) db
        in if max_pending \<le> int (length (pendings db1)) then Inr (PendingCapacityExceeded, db1)
           else sum_bind
             (insert_pending
                \<lparr>pend_manage = m, pend_delivery = d, pend_challenge = ch,
                 pend_endpoint = mat_endpoint s, pend_p256dh = mat_p256dh s,
                 pend_auth = mat_auth s, pend_created = now, pend_expires = expires\<rparr> db1)
             (\<lambda>db2. Inr (ChallengeRequired, db2)))"

definition begin_registration ::
  "string \<Rightarrow> string \<Rightarrow> material \<Rightarrow> string \<Rightarrow> int \<Rightarrow> int \<Rightarrow> int \<Rightarrow> int \<Rightarrow> push_db \<Rightarrow>
   db_error + start_outcome \<times> push_db" where
  "begin_registration d m s ch now expires max_subs max_pending db0 =
     (case gateway db0 of
        None \<Rightarrow> Inl GatewayMissing
      | Some g \<Rightarrow>
          let db = delete_pendings (\<lambda>r. pend_expires r \<le> now) db0
          in if is_revoked m db then Inr (RevokedStart, db)
             else case select_sub (\<lambda>r. sub_key r = d) db of
                    Some r \<Rightarrow> begin_existing d m s now r db
                  | None \<Rightarrow> begin_new d m s ch now expires max_subs max_pending g db)"

text \<open>\<^verbatim>\<open>subetha_confirm_push_subscription\<close>; the INSERT carries ON CONFLICT DO UPDATE.\<close>

definition upsert_sub :: "pending_row \<Rightarrow> int \<Rightarrow> push_db \<Rightarrow> db_error + push_db" where
  "upsert_sub p now db =
     (if list_ex (\<lambda>r. sub_key r = pend_delivery p) (subs db) then
        update_subs (\<lambda>r. sub_key r = pend_delivery p)
          (\<lambda>r. r\<lparr>sub_manage := Some (pend_manage p), sub_endpoint := pend_endpoint p,
                 sub_p256dh := pend_p256dh p, sub_auth := pend_auth p, sub_updated := now\<rparr>) db
      else
        insert_sub
          \<lparr>sub_key = pend_delivery p, sub_manage = Some (pend_manage p),
           sub_endpoint = pend_endpoint p, sub_p256dh = pend_p256dh p, sub_auth = pend_auth p,
           sub_created = now, sub_updated = now, sub_success = None, sub_window = now,
           sub_count = 0\<rparr> db)"

definition confirm_subscription ::
  "string \<Rightarrow> int \<Rightarrow> int \<Rightarrow> push_db \<Rightarrow> db_error + confirm_outcome \<times> push_db" where
  "confirm_subscription ch now max_subs db =
     (case gateway db of
        None \<Rightarrow> Inl GatewayMissing
      | Some g \<Rightarrow>
        (case find (\<lambda>r. pend_challenge r = ch) (pendings db) of
           None \<Rightarrow> Inr (InvalidChallenge, db)
         | Some p \<Rightarrow>
           let done = delete_pendings (\<lambda>r. pend_manage r = pend_manage p)
           in if pend_expires p \<le> now then Inr (ExpiredChallenge, done db)
              else if is_revoked (pend_manage p) db then Inr (RevokedConfirm, done db)
              else
                let owner = select_sub (\<lambda>r. sub_endpoint r = pend_endpoint p) db;
                    taken = (case owner of
                               Some r \<Rightarrow> sub_key r \<noteq> pend_delivery p
                             | None \<Rightarrow> False);
                    db1 = (case owner of
                             Some r \<Rightarrow> if taken then drop_sub_key (sub_key r) db else db
                           | None \<Rightarrow> db)
                in if \<not> taken \<and> max_subs \<le> gate_subs g then Inr (ConfirmCapacity, db1)
                   else sum_bind (upsert_sub p now db1)
                          (\<lambda>db2. Inr (if taken then Reassigned else Created, done db2))))"

text \<open>\<^verbatim>\<open>subetha_delete_push_subscription\<close> with the capacity argument.\<close>

definition remove_managed :: "string \<Rightarrow> push_db \<Rightarrow> push_db" where
  "remove_managed m db =
     (case select_sub (\<lambda>r. sub_manage r = Some m) db of
        None \<Rightarrow> delete_pendings (\<lambda>r. pend_manage r = m) db
      | Some r \<Rightarrow>
          delete_subs (\<lambda>q. sub_manage q = Some m)
            (delete_deliveries (\<lambda>q. del_key q = sub_key r)
              (delete_pendings (\<lambda>q. pend_manage q = m) db)))"

definition has_managed :: "string \<Rightarrow> push_db \<Rightarrow> bool" where
  "has_managed m db \<longleftrightarrow>
     select_sub (\<lambda>r. sub_manage r = Some m) db \<noteq> None \<or>
     list_ex (\<lambda>r. pend_manage r = m) (pendings db)"

definition delete_subscription ::
  "string \<Rightarrow> int \<Rightarrow> int \<Rightarrow> push_db \<Rightarrow> db_error + deletion_outcome \<times> push_db" where
  "delete_subscription m now max_revoked db0 =
     (if max_revoked \<le> 0 then Inl LimitNotPositive
      else case gateway db0 of
        None \<Rightarrow> Inl GatewayMissing
      | Some g \<Rightarrow>
          let lim = (case gate_limit g of None \<Rightarrow> max_revoked | Some l \<Rightarrow> l);
              db = db0\<lparr>gateway := Some (g\<lparr>gate_limit := Some lim\<rparr>)\<rparr>;
              tombstone = is_revoked m db
          in if \<not> tombstone \<and> lim \<le> gate_revoked g then Inr (DeletionCapacity, db)
             else sum_bind
               (if tombstone then Inr db
                else insert_revoked \<lparr>rev_manage = m, rev_at = now\<rparr> db)
               (\<lambda>db1. Inr (if has_managed m db1 then (Removed, remove_managed m db1)
                           else (NotFound, db1))))"

text \<open>The older two-argument overload, kept for a rolling deployment; it raises at capacity.\<close>

definition delete_subscription_legacy ::
  "string \<Rightarrow> int \<Rightarrow> push_db \<Rightarrow> db_error + bool \<times> push_db" where
  "delete_subscription_legacy m now db =
     (case gateway db of
        None \<Rightarrow> Inl GatewayMissing
      | Some g \<Rightarrow>
          let tombstone = is_revoked m db
          in if \<not> tombstone \<and> gate_limit g = None then Inl LimitNotConfigured
             else if \<not> tombstone \<and> the (gate_limit g) \<le> gate_revoked g then Inl RevokedCapacity
             else sum_bind
               (if tombstone then Inr db
                else insert_revoked \<lparr>rev_manage = m, rev_at = now\<rparr> db)
               (\<lambda>db1. Inr (if has_managed m db1 then (True, remove_managed m db1)
                           else (False, db1))))"

text \<open>\<^verbatim>\<open>subetha_delete_push_subscription_if_current\<close>\<close>

definition is_current :: "string \<Rightarrow> material \<Rightarrow> subscription_row \<Rightarrow> bool" where
  "is_current d s r \<longleftrightarrow> sub_key r = d \<and> same_material s r"

definition delete_if_current :: "string \<Rightarrow> material \<Rightarrow> push_db \<Rightarrow> bool \<times> push_db" where
  "delete_if_current d s db =
     (let removed = map sub_key (filter (is_current d s) (subs db))
      in (removed \<noteq> [],
          delete_deliveries (\<lambda>r. del_key r \<in> set removed) (delete_subs (is_current d s) db)))"

text \<open>\<^verbatim>\<open>subetha_mark_push_delivery_if_current\<close>; both updates see the rows as they were.\<close>

definition mark_delivery ::
  "string \<Rightarrow> material \<Rightarrow> string option \<Rightarrow> int \<Rightarrow> push_db \<Rightarrow> bool \<times> push_db" where
  "mark_delivery d s ev now db =
     (let current = map sub_key (filter (is_current d s) (subs db))
      in (current \<noteq> [],
          db\<lparr>subs := map (\<lambda>r. if is_current d s r
                              then r\<lparr>sub_success := Some now, sub_updated := now\<rparr> else r) (subs db),
             deliveries := map (\<lambda>r. if ev = Some (del_event r) \<and> del_key r \<in> set current
                                    then r\<lparr>del_status := Sent, del_updated := now\<rparr> else r)
                             (deliveries db)\<rparr>))"

text \<open>
  \<^verbatim>\<open>subetha_cleanup_push_subscriptions\<close>: the oldest rows first, ties by key; rows another
  transaction holds (\<open>locked\<close>) are skipped.
\<close>

definition cleanup_subscriptions ::
  "(string \<Rightarrow> bool) \<Rightarrow> int \<Rightarrow> nat \<Rightarrow> push_db \<Rightarrow> int \<times> push_db" where
  "cleanup_subscriptions locked cutoff lim db =
     (let eligible = filter (\<lambda>r. sub_updated r \<le> cutoff \<and> \<not> locked (sub_key r)) (subs db);
          stale = take lim (sort_key sub_updated (sort_key sub_key eligible));
          gone = (\<lambda>r. list_ex (\<lambda>q. sub_key r = sub_key q \<and> sub_updated r = sub_updated q) stale
                      \<and> sub_updated r \<le> cutoff);
          removed = map sub_key (filter gone (subs db))
      in (int (length removed),
          delete_deliveries (\<lambda>r. del_key r \<in> set removed) (delete_subs gone db)))"

end
