(* ===== verification/Push_Invariants.thy ===== *)
theory Push_Invariants
  imports Push_Store
begin

text \<open>
  What the push tables keep true: the trigger-maintained counters equal the row counts, every
  unique index holds, and no capability is in two places at once (a revoked management key has
  neither a subscription nor a pending challenge; a pending challenge is for a delivery key and a
  management key no subscription holds). One lemma per statement, then one per stored function.
\<close>

section \<open>The invariant\<close>

definition gate_ok :: "push_db \<Rightarrow> bool" where
  "gate_ok db \<longleftrightarrow>
     (\<exists>g. gateway db = Some g \<and> gate_subs g = int (length (subs db)) \<and>
          gate_revoked g = int (length (revoked db)) \<and>
          (\<forall>l. gate_limit g = Some l \<longrightarrow> 0 < l))"

definition keys_ok :: "push_db \<Rightarrow> bool" where
  "keys_ok db \<longleftrightarrow>
     unique_subs (subs db) \<and> unique_pendings (pendings db) \<and>
     distinct (map rev_manage (revoked db)) \<and> distinct (map bud_name (budgets db)) \<and>
     distinct (map (\<lambda>r. (del_key r, del_event r)) (deliveries db))"

definition caps_ok :: "push_db \<Rightarrow> bool" where
  "caps_ok db \<longleftrightarrow>
     (\<forall>m \<in> set (manage_keys (subs db)). \<not> is_revoked m db) \<and>
     (\<forall>p \<in> set (pendings db). \<not> is_revoked (pend_manage p) db \<and>
        pend_manage p \<notin> set (manage_keys (subs db)) \<and>
        (\<forall>r \<in> set (subs db). sub_key r \<noteq> pend_delivery p))"

definition store_ok :: "push_db \<Rightarrow> bool" where
  "store_ok db \<longleftrightarrow> gate_ok db \<and> keys_ok db \<and> caps_ok db"

section \<open>Management keys and uniqueness\<close>

lemma manage_keys_append [table_simps]: "manage_keys (rs @ qs) = manage_keys rs @ manage_keys qs"
  by (induction rs) (auto split: option.split)

lemma set_manage_keys [table_simps]: "m \<in> set (manage_keys rs) \<longleftrightarrow> (\<exists>r \<in> set rs. sub_manage r = Some m)"
  by (induction rs) (auto split: option.split)

lemma manage_keys_filter_sub: "set (manage_keys (filter P rs)) \<subseteq> set (manage_keys rs)"
  by (auto simp: table_simps)

lemma distinct_manage_keys_filter: "distinct (manage_keys rs) \<Longrightarrow> distinct (manage_keys (filter P rs))"
  by (induction rs) (auto simp: table_simps split: option.split)

lemma unique_subs_filter: "unique_subs rs \<Longrightarrow> unique_subs (filter P rs)"
  by (simp add: unique_subs_def distinct_map_filter_imp distinct_manage_keys_filter)

lemma unique_pendings_filter: "unique_pendings rs \<Longrightarrow> unique_pendings (filter P rs)"
  by (simp add: unique_pendings_def distinct_map_filter_imp)

lemma distinct_manage_keysD:
  "distinct (manage_keys rs) \<Longrightarrow> r \<in> set rs \<Longrightarrow> q \<in> set rs \<Longrightarrow>
     sub_manage r = Some m \<Longrightarrow> sub_manage q = Some m \<Longrightarrow> r = q"
  by (induction rs) (auto simp: table_simps split: option.splits)

lemma unique_subs_key: "unique_subs rs \<Longrightarrow> r \<in> set rs \<Longrightarrow> q \<in> set rs \<Longrightarrow> sub_key r = sub_key q \<Longrightarrow> r = q"
  by (auto simp: unique_subs_def intro: distinct_map_unique)

lemma unique_subs_endpoint:
  "unique_subs rs \<Longrightarrow> r \<in> set rs \<Longrightarrow> q \<in> set rs \<Longrightarrow> sub_endpoint r = sub_endpoint q \<Longrightarrow> r = q"
  by (auto simp: unique_subs_def intro: distinct_map_unique)

lemma unique_subs_manage:
  "unique_subs rs \<Longrightarrow> r \<in> set rs \<Longrightarrow> q \<in> set rs \<Longrightarrow> sub_manage r = Some m \<Longrightarrow>
     sub_manage q = Some m \<Longrightarrow> r = q"
  by (auto simp: unique_subs_def intro: distinct_manage_keysD)

lemma unique_subs_append_one:
  "unique_subs (rs @ [r]) \<longleftrightarrow>
     unique_subs rs \<and> (\<forall>q \<in> set rs. sub_key q \<noteq> sub_key r \<and> sub_endpoint q \<noteq> sub_endpoint r) \<and>
     (\<forall>m. sub_manage r = Some m \<longrightarrow> m \<notin> set (manage_keys rs))"
  by (auto simp: unique_subs_def manage_keys_append image_iff split: option.splits)

lemma unique_pendings_append_one:
  "unique_pendings (rs @ [r]) \<longleftrightarrow>
     unique_pendings rs \<and>
     (\<forall>q \<in> set rs. pend_manage q \<noteq> pend_manage r \<and> pend_delivery q \<noteq> pend_delivery r \<and>
        pend_challenge q \<noteq> pend_challenge r \<and> pend_endpoint q \<noteq> pend_endpoint r)"
  by (auto simp: unique_pendings_def image_iff)

section \<open>What each statement does to each table\<close>

lemma count_delete_pow:
  "(count_delete ^^ n) db =
     db\<lparr>gateway := map_option (\<lambda>g. g\<lparr>gate_subs := ((\<lambda>c. max 0 (c - 1)) ^^ n) (gate_subs g)\<rparr>)
                     (gateway db)\<rparr>"
proof (induction n)
  case 0
  then show ?case by (cases "gateway db") simp_all
next
  case (Suc n)
  then show ?case by (cases "gateway db") (simp_all add: count_delete_def)
qed

lemma decrease_pow: "0 \<le> c \<Longrightarrow> ((\<lambda>c. max 0 (c - 1)) ^^ n) c = max 0 (c - int n)"
  by (induction n) (auto simp: max_def)

lemma delete_subs_tables [simp]:
  "subs (delete_subs P db) = filter (\<lambda>r. \<not> P r) (subs db)"
  "pendings (delete_subs P db) = pendings db"
  "revoked (delete_subs P db) = revoked db"
  "budgets (delete_subs P db) = budgets db"
  "deliveries (delete_subs P db) = deliveries db"
  by (simp_all add: delete_subs_def count_delete_pow)

lemma delete_subs_gateway:
  assumes "gateway db = Some g" and "gate_subs g = int (length (subs db))"
  shows "gateway (delete_subs P db) =
           Some (g\<lparr>gate_subs := int (length (filter (\<lambda>r. \<not> P r) (subs db)))\<rparr>)"
proof -
  have "length (filter P (subs db)) + length (filter (\<lambda>r. \<not> P r) (subs db)) = length (subs db)"
    by (rule sum_length_filter_compl)
  then show ?thesis using assms by (simp add: delete_subs_def count_delete_pow decrease_pow)
qed

lemma delete_pendings_tables [simp]:
  "subs (delete_pendings P db) = subs db"
  "pendings (delete_pendings P db) = filter (\<lambda>r. \<not> P r) (pendings db)"
  "revoked (delete_pendings P db) = revoked db"
  "gateway (delete_pendings P db) = gateway db"
  "budgets (delete_pendings P db) = budgets db"
  "deliveries (delete_pendings P db) = deliveries db"
  by (simp_all add: delete_pendings_def)

lemma delete_deliveries_tables [simp]:
  "subs (delete_deliveries P db) = subs db"
  "pendings (delete_deliveries P db) = pendings db"
  "revoked (delete_deliveries P db) = revoked db"
  "gateway (delete_deliveries P db) = gateway db"
  "budgets (delete_deliveries P db) = budgets db"
  "deliveries (delete_deliveries P db) = filter (\<lambda>r. \<not> P r) (deliveries db)"
  by (simp_all add: delete_deliveries_def)

lemma drop_sub_key_tables [simp]:
  "subs (drop_sub_key k db) = filter (\<lambda>r. sub_key r \<noteq> k) (subs db)"
  "pendings (drop_sub_key k db) = pendings db"
  "revoked (drop_sub_key k db) = revoked db"
  "budgets (drop_sub_key k db) = budgets db"
  "deliveries (drop_sub_key k db) = filter (\<lambda>r. del_key r \<noteq> k) (deliveries db)"
  by (simp_all add: drop_sub_key_def)

lemma is_revoked_cong [simp]:
  "is_revoked m (delete_pendings P db) = is_revoked m db"
  "is_revoked m (delete_subs Q db) = is_revoked m db"
  "is_revoked m (drop_sub_key k db) = is_revoked m db"
  "is_revoked m (delete_deliveries S db) = is_revoked m db"
  by (simp_all add: is_revoked_def)

section \<open>Every statement keeps the invariant\<close>

lemma store_okD:
  assumes "store_ok db"
  shows "gate_ok db" "keys_ok db" "caps_ok db"
  using assms by (simp_all add: store_ok_def)

lemma gate_okE:
  assumes "store_ok db"
  obtains g where "gateway db = Some g" "gate_subs g = int (length (subs db))"
    "gate_revoked g = int (length (revoked db))" "\<forall>l. gate_limit g = Some l \<longrightarrow> 0 < l"
  using assms by (auto simp: store_ok_def gate_ok_def)

lemma store_ok_delete_subs [inv_intros]: "store_ok db \<Longrightarrow> store_ok (delete_subs P db)"
proof -
  assume ok: "store_ok db"
  then obtain g where g: "gateway db = Some g" "gate_subs g = int (length (subs db))"
    "gate_revoked g = int (length (revoked db))" "\<forall>l. gate_limit g = Some l \<longrightarrow> 0 < l"
    by (rule gate_okE)
  have "gate_ok (delete_subs P db)"
    using g by (simp add: gate_ok_def delete_subs_gateway)
  moreover have "keys_ok (delete_subs P db)"
    using ok by (simp add: store_ok_def keys_ok_def unique_subs_filter)
  moreover have "caps_ok (delete_subs P db)"
    using ok manage_keys_filter_sub [of "\<lambda>r. \<not> P r" "subs db"]
    by (auto simp: store_ok_def caps_ok_def)
  ultimately show ?thesis by (simp add: store_ok_def)
qed

lemma store_ok_delete_pendings [inv_intros]: "store_ok db \<Longrightarrow> store_ok (delete_pendings P db)"
  by (simp add: store_ok_def gate_ok_def keys_ok_def caps_ok_def unique_pendings_filter)

lemma store_ok_delete_deliveries [inv_intros]: "store_ok db \<Longrightarrow> store_ok (delete_deliveries P db)"
  by (simp add: store_ok_def gate_ok_def keys_ok_def caps_ok_def distinct_map_filter_imp)

lemma store_ok_drop_sub_key [inv_intros]: "store_ok db \<Longrightarrow> store_ok (drop_sub_key k db)"
  by (simp add: drop_sub_key_def inv_intros)

text \<open>The tombstone INSERT, and its commuting with the deletions that follow it.\<close>

definition revoke_row :: "revoked_row \<Rightarrow> push_db \<Rightarrow> push_db" where
  "revoke_row r db =
     db\<lparr>revoked := revoked db @ [r],
        gateway := map_option (\<lambda>g. g\<lparr>gate_revoked := gate_revoked g + 1\<rparr>) (gateway db)\<rparr>"

lemma insert_revoked_alt:
  "insert_revoked r db = (if is_revoked (rev_manage r) db then Inl UniqueViolation else Inr (revoke_row r db))"
  by (simp add: insert_revoked_def is_revoked_def revoke_row_def)

lemma revoke_row_tables [simp]:
  "subs (revoke_row r db) = subs db"
  "pendings (revoke_row r db) = pendings db"
  "revoked (revoke_row r db) = revoked db @ [r]"
  "budgets (revoke_row r db) = budgets db"
  "deliveries (revoke_row r db) = deliveries db"
  by (simp_all add: revoke_row_def)

lemma is_revoked_iff: "is_revoked m db \<longleftrightarrow> (\<exists>r \<in> set (revoked db). rev_manage r = m)"
  by (simp add: is_revoked_def list_ex_iff)

lemma is_revoked_revoke_row: "is_revoked m (revoke_row r db) \<longleftrightarrow> is_revoked m db \<or> m = rev_manage r"
  by (auto simp: is_revoked_iff)

lemma revoke_row_delete_pendings: "delete_pendings P (revoke_row r db) = revoke_row r (delete_pendings P db)"
  by (simp add: delete_pendings_def revoke_row_def)

lemma revoke_row_delete_deliveries:
  "delete_deliveries P (revoke_row r db) = revoke_row r (delete_deliveries P db)"
  by (simp add: delete_deliveries_def revoke_row_def)

lemma revoke_row_delete_subs: "delete_subs P (revoke_row r db) = revoke_row r (delete_subs P db)"
  by (cases "gateway db") (simp_all add: delete_subs_def count_delete_pow revoke_row_def)

lemma revoke_row_remove_managed: "remove_managed m (revoke_row r db) = revoke_row r (remove_managed m db)"
  by (simp add: remove_managed_def select_sub_def revoke_row_delete_subs
      revoke_row_delete_deliveries revoke_row_delete_pendings split: option.split)

lemma has_managed_revoke_row [simp]: "has_managed m (revoke_row r db) = has_managed m db"
  by (simp add: has_managed_def select_sub_def)

lemma has_managed_iff:
  "has_managed m db \<longleftrightarrow>
     m \<in> set (manage_keys (subs db)) \<or> (\<exists>r \<in> set (pendings db). pend_manage r = m)"
  by (auto simp: has_managed_def select_sub_def find_None_iff list_ex_iff table_simps)

lemma remove_managed_tables [simp]:
  "subs (remove_managed m db) = filter (\<lambda>r. sub_manage r \<noteq> Some m) (subs db)"
  "pendings (remove_managed m db) = filter (\<lambda>r. pend_manage r \<noteq> m) (pendings db)"
  "revoked (remove_managed m db) = revoked db"
  "budgets (remove_managed m db) = budgets db"
  by (auto simp: remove_managed_def select_sub_def find_None_iff filter_id_conv split: option.split)

lemma store_ok_remove_managed [inv_intros]: "store_ok db \<Longrightarrow> store_ok (remove_managed m db)"
  by (auto simp: remove_managed_def inv_intros split: option.split)

lemma store_ok_revoke_row:
  assumes "store_ok db" and "\<not> is_revoked (rev_manage r) db" and "\<not> has_managed (rev_manage r) db"
  shows "store_ok (revoke_row r db)"
proof -
  have "gate_ok (revoke_row r db)"
    using assms(1) by (auto simp: store_ok_def gate_ok_def revoke_row_def)
  moreover have "keys_ok (revoke_row r db)"
    using assms(1,2) by (auto simp: store_ok_def keys_ok_def is_revoked_iff)
  moreover have "caps_ok (revoke_row r db)"
    using store_okD(3) [OF assms(1)] assms(3) unfolding caps_ok_def has_managed_iff
    by (auto simp: is_revoked_revoke_row)
  ultimately show ?thesis by (simp add: store_ok_def)
qed

lemma caps_ok_claim:
  assumes caps: "caps_ok db" and P: "set (pendings db') \<subseteq> set (pendings db)"
    "\<And>r. r \<in> set (pendings db') \<Longrightarrow> pend_manage r \<noteq> m"
    and S: "set (manage_keys (subs db')) \<subseteq> insert m (set (manage_keys (subs db)))"
    "sub_key ` set (subs db') \<subseteq> sub_key ` set (subs db)"
    and R: "\<And>k. is_revoked k db' = is_revoked k db" "\<not> is_revoked m db"
  shows "caps_ok db'"
  unfolding caps_ok_def
proof (intro conjI ballI)
  show "\<not> is_revoked k db'" if "k \<in> set (manage_keys (subs db'))" for k
    using that S(1) R caps by (auto simp: caps_ok_def)
next
  fix p assume p: "p \<in> set (pendings db')"
  then have old: "p \<in> set (pendings db)" "pend_manage p \<noteq> m" using P by auto
  show "\<not> is_revoked (pend_manage p) db'" using old caps R by (simp add: caps_ok_def)
  show "pend_manage p \<notin> set (manage_keys (subs db'))" using old caps S(1) by (auto simp: caps_ok_def)
  show "sub_key r \<noteq> pend_delivery p" if r: "r \<in> set (subs db')" for r
  proof -
    from r S(2) obtain q where "q \<in> set (subs db)" "sub_key q = sub_key r" by (metis image_iff image_eqI subsetD)
    then show ?thesis using old(1) caps by (metis caps_ok_def)
  qed
qed

lemma is_revoked_cong_table: "revoked db' = revoked db \<Longrightarrow> is_revoked m db' = is_revoked m db"
  by (simp add: is_revoked_def)

lemma store_ok_update_existing:
  assumes ok: "store_ok db" and up: "update_subs (\<lambda>q. sub_key q = d) f db = Inr db'"
    and key: "\<And>q. sub_key (f q) = sub_key q" and man: "\<And>q. sub_manage (f q) = Some m"
    and free: "\<not> is_revoked m db"
  shows "store_ok (delete_pendings (claims_pending d m e) db')"
proof -
  let ?g = "\<lambda>r. if sub_key r = d then f r else r"
  let ?db = "delete_pendings (claims_pending d m e) db'"
  from up have db': "db' = db\<lparr>subs := map ?g (subs db)\<rparr>" and u: "unique_subs (map ?g (subs db))"
    by (auto simp: update_subs_def Let_def split: if_splits)
  have "map sub_key (map ?g (subs db)) = map sub_key (subs db)" by (simp add: key)
  then have k: "sub_key ` set (map ?g (subs db)) = sub_key ` set (subs db)" by (metis set_map)
  have m: "set (manage_keys (map ?g (subs db))) \<subseteq> insert m (set (manage_keys (subs db)))"
    using man by (auto simp: table_simps split: if_splits)
  have "gate_ok ?db" using ok by (simp add: db' store_ok_def gate_ok_def)
  moreover have "keys_ok ?db"
    using ok u by (simp add: db' store_ok_def keys_ok_def unique_pendings_filter)
  moreover have "caps_ok ?db"
    using m k free
    by (intro caps_ok_claim [OF store_okD(3) [OF ok], where m = m])
      (auto simp: db' claims_pending_def is_revoked_def)
  ultimately show ?thesis by (simp add: store_ok_def)
qed

section \<open>Every stored function keeps the invariant\<close>

lemma store_ok_begin_existing:
  assumes ok: "store_ok db" and free: "\<not> is_revoked m db"
    and r: "begin_existing d m s now r db = Inr (out, db')"
  shows "store_ok db'"
proof -
  define db1 where "db1 = (case select_sub (\<lambda>q. sub_endpoint q = mat_endpoint s \<and> sub_key q \<noteq> d) db of
                     None \<Rightarrow> db | Some q \<Rightarrow> drop_sub_key (sub_key q) db)"
  have ok1: "store_ok db1" and free1: "\<not> is_revoked m db1"
    using ok free by (auto simp: db1_def inv_intros split: option.split)
  show ?thesis
    using r ok store_ok_update_existing [OF ok1 _ _ _ free1]
    by (auto simp: begin_existing_def db1_def [symmetric] sum_bind_Inr_iff split: if_splits)
qed

lemma store_ok_begin_new:
  assumes ok: "store_ok db" and free: "\<not> is_revoked m db" and d: "\<forall>r \<in> set (subs db). sub_key r \<noteq> d"
    and r: "begin_new d m s ch now expires max_subs max_pending g db = Inr (out, db')"
  shows "store_ok db'"
proof -
  let ?db1 = "delete_pendings (claims_pending d m (mat_endpoint s)) db"
  let ?row = "\<lparr>pend_manage = m, pend_delivery = d, pend_challenge = ch,
                 pend_endpoint = mat_endpoint s, pend_p256dh = mat_p256dh s,
                 pend_auth = mat_auth s, pend_created = now, pend_expires = expires\<rparr>"
  have ok1: "store_ok ?db1" using ok by (rule inv_intros)
  have ins: "store_ok db2" if i: "insert_pending ?row ?db1 = Inr db2"
    and nm: "\<not> list_ex (\<lambda>r. sub_manage r = Some m) (subs db)" for db2
  proof -
    from i have db2: "db2 = ?db1\<lparr>pendings := pendings ?db1 @ [?row]\<rparr>"
      and u: "unique_pendings (pendings ?db1 @ [?row])"
      by (auto simp: insert_pending_def split: if_splits)
    have "m \<notin> set (manage_keys (subs db))" using nm by (auto simp: table_simps list_ex_iff)
    then have "caps_ok db2"
      using store_okD(3) [OF ok1] d free unfolding caps_ok_def
      by (auto simp: db2 is_revoked_def)
    then show ?thesis using ok1 u by (auto simp: store_ok_def db2 gate_ok_def keys_ok_def)
  qed
  show ?thesis using r ok ok1 ins
    by (auto simp: begin_new_def Let_def sum_bind_Inr_iff split: if_splits)
qed

lemma select_sub_None: "select_sub P db = None \<longleftrightarrow> (\<forall>r \<in> set (subs db). \<not> P r)"
  by (auto simp: select_sub_def find_None_iff)

lemma select_sub_Some: "select_sub P db = Some r \<Longrightarrow> r \<in> set (subs db) \<and> P r"
  by (auto simp: select_sub_def find_Some_iff)

lemma store_ok_begin_registration:
  assumes ok: "store_ok db"
    and r: "begin_registration d m s ch now expires max_subs max_pending db = Inr (out, db')"
  shows "store_ok db'"
proof -
  obtain g where g: "gateway db = Some g" using ok by (rule gate_okE)
  let ?db = "delete_pendings (\<lambda>r. pend_expires r \<le> now) db"
  have ok1: "store_ok ?db" using ok by (rule inv_intros)
  show ?thesis
  proof (cases "is_revoked m ?db")
    case True
    then show ?thesis using r ok1 g by (simp add: begin_registration_def Let_def)
  next
    case free: False
    show ?thesis
    proof (cases "select_sub (\<lambda>r. sub_key r = d) ?db")
      case None
      then have "\<forall>r \<in> set (subs ?db). sub_key r \<noteq> d" by (simp add: select_sub_None)
      then show ?thesis using r g free None store_ok_begin_new [OF ok1 free]
        by (simp add: begin_registration_def Let_def)
    next
      case (Some q)
      then show ?thesis using r g free store_ok_begin_existing [OF ok1 free]
        by (simp add: begin_registration_def Let_def)
    qed
  qed
qed

text \<open>
  Confirmation never meets a unique violation: the pending row's delivery and management keys are
  unused (the invariant), and another holder of the endpoint has just been dropped.
\<close>

definition endpoint_owner :: "pending_row \<Rightarrow> push_db \<Rightarrow> subscription_row option" where
  "endpoint_owner p db = select_sub (\<lambda>r. sub_endpoint r = pend_endpoint p) db"

lemma confirm_insert_ok:
  assumes ok: "store_ok db" and p: "p \<in> set (pendings db)"
    and free: "\<forall>r \<in> set (subs db). sub_endpoint r \<noteq> pend_endpoint p"
    and live: "\<not> is_revoked (pend_manage p) db"
  shows "\<exists>db'. upsert_sub p now db = Inr db' \<and>
           store_ok (delete_pendings (\<lambda>r. pend_manage r = pend_manage p) db') \<and>
           gate_subs (the (gateway db')) = gate_subs (the (gateway db)) + 1 \<and>
           (\<exists>row. subs db' = subs db @ [row] \<and> sub_key row = pend_delivery p \<and>
              sub_manage row = Some (pend_manage p) \<and> sub_endpoint row = pend_endpoint p \<and>
              sub_p256dh row = pend_p256dh p \<and> sub_auth row = pend_auth p)"
proof -
  let ?row = "\<lparr>sub_key = pend_delivery p, sub_manage = Some (pend_manage p),
           sub_endpoint = pend_endpoint p, sub_p256dh = pend_p256dh p, sub_auth = pend_auth p,
           sub_created = now, sub_updated = now, sub_success = None, sub_window = now,
           sub_count = 0\<rparr>"
  let ?db1 = "count_insert (db\<lparr>subs := subs db @ [?row]\<rparr>)"
  let ?db2 = "delete_pendings (\<lambda>r. pend_manage r = pend_manage p) ?db1"
  obtain g where g: "gateway db = Some g" "gate_subs g = int (length (subs db))"
    "gate_revoked g = int (length (revoked db))" "\<forall>l. gate_limit g = Some l \<longrightarrow> 0 < l"
    using ok by (rule gate_okE)
  note caps = store_okD(3) [OF ok, unfolded caps_ok_def]
  have d: "\<forall>r \<in> set (subs db). sub_key r \<noteq> pend_delivery p"
    and m: "pend_manage p \<notin> set (manage_keys (subs db))" using caps p by simp_all
  have u: "unique_subs (subs db @ [?row])"
    using ok d m free by (simp add: unique_subs_append_one store_ok_def keys_ok_def)
  have "\<not> list_ex (\<lambda>r. sub_key r = pend_delivery p) (subs db)"
    using d by (simp add: list_ex_iff)
  then have ups: "upsert_sub p now db = Inr ?db1"
    using u by (simp add: upsert_sub_def insert_sub_def)
  have same: "pend_manage q = pend_manage p" if "q \<in> set (pendings db)" "pend_delivery p = pend_delivery q" for q
    using ok p that by (auto simp: store_ok_def keys_ok_def unique_pendings_def dest: distinct_map_unique)
  have "gate_ok ?db2" using g by (simp add: gate_ok_def count_insert_def)
  moreover have "keys_ok ?db2"
    using ok u by (simp add: store_ok_def keys_ok_def count_insert_def unique_pendings_filter)
  moreover have "caps_ok ?db2"
    unfolding caps_ok_def
    using caps live same by (auto simp: count_insert_def manage_keys_append is_revoked_iff)
  ultimately have "store_ok ?db2" by (simp add: store_ok_def)
  moreover have "gate_subs (the (gateway ?db1)) = gate_subs (the (gateway db)) + 1"
    using g by (simp add: count_insert_def)
  moreover have "subs ?db1 = subs db @ [?row]" by (simp add: count_insert_def)
  ultimately show ?thesis using ups by (metis (no_types, lifting) subscription_row.select_convs)
qed

lemma find_pending_Some: "find P (pendings db) = Some p \<Longrightarrow> p \<in> set (pendings db) \<and> P p"
  by (auto simp: find_Some_iff)

lemma confirm_total:
  assumes ok: "store_ok db"
  shows "\<exists>out db'. confirm_subscription ch now max_subs db = Inr (out, db') \<and> store_ok db'"
proof -
  obtain g where g: "gateway db = Some g" using ok by (rule gate_okE)
  show ?thesis
  proof (cases "find (\<lambda>r. pend_challenge r = ch) (pendings db)")
    case None
    then show ?thesis using ok g by (simp add: confirm_subscription_def)
  next
    case (Some p)
    then have p: "p \<in> set (pendings db)" by (simp add: find_pending_Some)
    show ?thesis
    proof (cases "pend_expires p \<le> now \<or> is_revoked (pend_manage p) db")
      case True
      then show ?thesis using ok g Some by (auto simp: confirm_subscription_def Let_def inv_intros)
    next
      case False
      then have live: "\<not> is_revoked (pend_manage p) db" by simp
      show ?thesis
      proof (cases "select_sub (\<lambda>r. sub_endpoint r = pend_endpoint p) db")
        case None
        then have "\<forall>r \<in> set (subs db). sub_endpoint r \<noteq> pend_endpoint p" by (simp add: select_sub_None)
        from confirm_insert_ok [OF ok p this live, of now]
        show ?thesis using ok g Some False None
          by (auto simp: confirm_subscription_def Let_def)
      next
        case (Some r)
        then have r: "r \<in> set (subs db)" "sub_endpoint r = pend_endpoint p"
          by (auto dest: select_sub_Some)
        then have ne: "sub_key r \<noteq> pend_delivery p"
          using store_okD(3) [OF ok] p by (simp add: caps_ok_def)
        let ?db1 = "drop_sub_key (sub_key r) db"
        have ok1: "store_ok ?db1" using ok by (rule inv_intros)
        have "\<forall>q \<in> set (subs ?db1). sub_endpoint q \<noteq> pend_endpoint p"
          using r ok by (auto simp: store_ok_def keys_ok_def dest: unique_subs_endpoint)
        from confirm_insert_ok [OF ok1 _ this, of now] live p
        show ?thesis using ok g \<open>find _ _ = Some p\<close> False Some ne
          by (auto simp: confirm_subscription_def Let_def)
      qed
    qed
  qed
qed

lemma store_ok_confirm:
  "store_ok db \<Longrightarrow> confirm_subscription ch now max_subs db = Inr (out, db') \<Longrightarrow> store_ok db'"
  using confirm_total [of db ch now max_subs] by auto

lemma store_ok_gateway_limit:
  "store_ok db \<Longrightarrow> gateway db = Some g \<Longrightarrow> 0 < l \<Longrightarrow>
     store_ok (db\<lparr>gateway := Some (g\<lparr>gate_limit := Some l\<rparr>)\<rparr>)"
  by (auto simp: store_ok_def gate_ok_def keys_ok_def caps_ok_def is_revoked_def)

text \<open>The tombstone and the deletions it makes, as one change.\<close>

definition revoke_and_remove :: "string \<Rightarrow> int \<Rightarrow> push_db \<Rightarrow> push_db" where
  "revoke_and_remove m now db =
     (let db1 = (if is_revoked m db then db else revoke_row \<lparr>rev_manage = m, rev_at = now\<rparr> db)
      in if has_managed m db1 then remove_managed m db1 else db1)"

lemma store_ok_revoke_and_remove: "store_ok db \<Longrightarrow> store_ok (revoke_and_remove m now db)"
proof -
  assume ok: "store_ok db"
  let ?t = "\<lparr>rev_manage = m, rev_at = now\<rparr>"
  have clean: "\<not> has_managed m (remove_managed m db)"
    by (auto simp: has_managed_iff table_simps)
  have rem: "store_ok (remove_managed m db)" using ok by (rule inv_intros)
  have nrev: "is_revoked m (remove_managed m db) = is_revoked m db"
    by (rule is_revoked_cong_table) simp
  show ?thesis
    using ok rem clean nrev
    by (auto simp: revoke_and_remove_def Let_def revoke_row_remove_managed intro!: store_ok_revoke_row)
qed

lemma revoke_and_remove_result:
  "is_revoked m (revoke_and_remove m now db) \<and>
   subs (revoke_and_remove m now db) = filter (\<lambda>r. sub_manage r \<noteq> Some m) (subs db) \<and>
   pendings (revoke_and_remove m now db) = filter (\<lambda>r. pend_manage r \<noteq> m) (pendings db)"
  by (auto simp: revoke_and_remove_def Let_def is_revoked_iff has_managed_iff filter_id_conv table_simps)

lemma delete_subscription_cases:
  assumes "gateway db = Some g" and "0 < max_revoked"
  defines "l \<equiv> (case gate_limit g of None \<Rightarrow> max_revoked | Some l \<Rightarrow> l)"
  defines "db1 \<equiv> db\<lparr>gateway := Some (g\<lparr>gate_limit := Some l\<rparr>)\<rparr>"
  shows "delete_subscription m now max_revoked db =
     Inr (if \<not> is_revoked m db \<and> l \<le> gate_revoked g then (DeletionCapacity, db1)
          else (if has_managed m db then Removed else NotFound, revoke_and_remove m now db1))"
proof -
  have "is_revoked m db1 = is_revoked m db" "has_managed m db1 = has_managed m db"
    by (simp_all add: db1_def is_revoked_def has_managed_def select_sub_def)
  moreover have "insert_revoked \<lparr>rev_manage = m, rev_at = now\<rparr> db1 =
      Inr (revoke_row \<lparr>rev_manage = m, rev_at = now\<rparr> db1)" if "\<not> is_revoked m db1"
    using that by (simp add: insert_revoked_alt)
  ultimately show ?thesis
    using assms(1,2)
    by (auto simp: delete_subscription_def Let_def revoke_and_remove_def l_def [symmetric]
        db1_def [symmetric])
qed

lemma store_ok_delete_subscription:
  assumes ok: "store_ok db" and r: "delete_subscription m now max_revoked db = Inr (out, db')"
  shows "store_ok db'"
proof -
  obtain g where g: "gateway db = Some g" "\<forall>l. gate_limit g = Some l \<longrightarrow> 0 < l"
    using ok by (auto elim: gate_okE)
  have pos: "0 < max_revoked" using r by (auto simp: delete_subscription_def split: if_splits)
  define l where "l = (case gate_limit g of None \<Rightarrow> max_revoked | Some l \<Rightarrow> l)"
  have "0 < l" using g(2) pos by (auto simp: l_def split: option.split)
  then have ok1: "store_ok (db\<lparr>gateway := Some (g\<lparr>gate_limit := Some l\<rparr>)\<rparr>)"
    using ok g(1) by (intro store_ok_gateway_limit)
  show ?thesis
    using r ok1 store_ok_revoke_and_remove [OF ok1]
    unfolding delete_subscription_cases [OF g(1) pos] l_def [symmetric]
    by (auto split: if_splits)
qed

lemma store_ok_delete_legacy:
  assumes ok: "store_ok db" and r: "delete_subscription_legacy m now db = Inr (out, db')"
  shows "store_ok db'"
proof -
  obtain g where g: "gateway db = Some g" using ok by (rule gate_okE)
  have "db' = revoke_and_remove m now db"
    using r g by (auto simp: delete_subscription_legacy_def revoke_and_remove_def Let_def
        insert_revoked_alt split: if_splits)
  then show ?thesis using store_ok_revoke_and_remove [OF ok] by simp
qed

lemma store_ok_delete_if_current [inv_intros]: "store_ok db \<Longrightarrow> store_ok (snd (delete_if_current d s db))"
  by (simp add: delete_if_current_def Let_def inv_intros)

lemma store_ok_cleanup [inv_intros]:
  "store_ok db \<Longrightarrow> store_ok (snd (cleanup_subscriptions locked cutoff lim db))"
  by (simp add: cleanup_subscriptions_def Let_def inv_intros)

text \<open>Row updates that keep the key, endpoint and management columns.\<close>

lemma manage_keys_map: "(\<And>r. sub_manage (f r) = sub_manage r) \<Longrightarrow> manage_keys (map f rs) = manage_keys rs"
  by (induction rs) (auto split: option.split)

lemma store_ok_map_rows:
  assumes ok: "store_ok db" and f: "\<And>r. sub_key (f r) = sub_key r" "\<And>r. sub_endpoint (f r) = sub_endpoint r"
    "\<And>r. sub_manage (f r) = sub_manage r"
    and h: "\<And>r. del_key (h r) = del_key r" "\<And>r. del_event (h r) = del_event r"
  shows "store_ok (db\<lparr>subs := map f (subs db), deliveries := map h (deliveries db)\<rparr>)"
  using ok f h
  by (simp add: store_ok_def gate_ok_def keys_ok_def caps_ok_def unique_subs_def manage_keys_map
      is_revoked_def comp_def)

lemma store_ok_mark_delivery [inv_intros]: "store_ok db \<Longrightarrow> store_ok (snd (mark_delivery d s ev now db))"
  unfolding mark_delivery_def Let_def snd_conv by (rule store_ok_map_rows) simp_all

end
