(* ===== verification/Rate_Window.thy ===== *)
theory Rate_Window
  imports Prelude
begin

text \<open>
  The fixed-window limiter both push budgets use. The two SQL \<^verbatim>\<open>CASE\<close> expressions of
  \<open>consumeRateLimit\<close> and \<open>consumeGlobalRateLimit\<close> (lib/push-repository.ts) are \<open>window_start\<close>
  and \<open>window_count\<close>; the locale states what a table of windows has to provide, and proves how
  many requests such a table can let through.
\<close>

section \<open>The two CASE expressions\<close>

definition window_start :: "int \<Rightarrow> int \<Rightarrow> int \<Rightarrow> int" where
  "window_start now win start = (if start \<le> now - win then now else start)"

definition window_count :: "int \<Rightarrow> int \<Rightarrow> int \<Rightarrow> int \<Rightarrow> int" where
  "window_count now win start cnt = (if start \<le> now - win then 1 else cnt + 1)"

text \<open>How many of the requests made at the times \<open>ts\<close> a limiter grants.\<close>

fun grants :: "(int \<Rightarrow> 's \<Rightarrow> bool \<times> 's) \<Rightarrow> int list \<Rightarrow> 's \<Rightarrow> nat" where
  "grants tk [] s = 0"
| "grants tk (t # ts) s = (if fst (tk t s) then 1 else 0) + grants tk ts (snd (tk t s))"

section \<open>The contract of a limiter\<close>

locale fixed_window =
  fixes tk :: "int \<Rightarrow> 's \<Rightarrow> bool \<times> 's"
    and start :: "'s \<Rightarrow> int"
    and cnt :: "'s \<Rightarrow> int"
    and ok :: "'s \<Rightarrow> bool"
    and win :: int
    and limit :: int
  assumes take_ok: "ok s \<Longrightarrow> ok (snd (tk t s))"
    and take_start: "ok s \<Longrightarrow> start (snd (tk t s)) = window_start t win (start s)"
    and take_count: "ok s \<Longrightarrow> cnt (snd (tk t s)) = window_count t win (start s) (cnt s)"
    and take_granted: "ok s \<Longrightarrow> fst (tk t s) \<longleftrightarrow> window_count t win (start s) (cnt s) \<le> limit"
begin

lemmas take_laws = take_ok take_start take_count take_granted

text \<open>As long as the window does not roll over, exactly the unused part of the budget is granted.\<close>

lemma grants_same_window:
  assumes "ok s" and "\<forall>t \<in> set ts. t - win < start s"
  shows "grants tk ts s = min (length ts) (nat (limit - cnt s))"
  using assms
proof (induction ts arbitrary: s)
  case Nil
  then show ?case by simp
next
  case (Cons t ts)
  then have t: "\<not> start s \<le> t - win" by auto
  let ?s = "snd (tk t s)"
  have s': "ok ?s" "start ?s = start s" "cnt ?s = cnt s + 1"
    using Cons.prems t by (simp_all add: take_laws window_start_def window_count_def)
  then have "grants tk ts ?s = min (length ts) (nat (limit - cnt ?s))"
    using Cons.IH [of ?s] Cons.prems(2) by auto
  moreover have "fst (tk t s) \<longleftrightarrow> cnt s + 1 \<le> limit"
    using Cons.prems t by (simp add: take_laws window_count_def)
  ultimately show ?case using s' by (auto simp: min_def)
qed

text \<open>A request that opens a new window is followed by exactly the rest of a fresh budget.\<close>

lemma grants_fresh_window:
  assumes "ok s" and "start s \<le> t - win" and "\<forall>u \<in> set ts. u < t + win"
  shows "grants tk (t # ts) s = min (Suc (length ts)) (nat limit)"
proof -
  let ?s = "snd (tk t s)"
  have s': "ok ?s" "start ?s = t" "cnt ?s = 1" "fst (tk t s) \<longleftrightarrow> 1 \<le> limit"
    using assms by (simp_all add: take_laws window_start_def window_count_def)
  have "\<forall>u \<in> set ts. u - win < start ?s"
    using assms(3) s'(2) by (simp add: diff_less_eq)
  with s' have "grants tk ts ?s = min (length ts) (nat (limit - 1))"
    using grants_same_window [of ?s ts] by simp
  with s'(4) show ?thesis by (auto simp: min_def)
qed

text \<open>Over any number of window lengths, every roll-over costs a window length of time.\<close>

lemma grants_windows:
  assumes "ok s" and "\<forall>t \<in> set ts. a \<le> t \<and> t < e" and "e \<le> max a (start s + win) + int n * win"
  shows "grants tk ts s \<le> nat (limit - cnt s) + n * nat limit"
  using assms
proof (induction ts arbitrary: s n)
  case Nil
  then show ?case by simp
next
  case (Cons t ts)
  let ?s = "snd (tk t s)"
  have t: "a \<le> t" "t < e" and ts: "\<forall>u \<in> set ts. a \<le> u \<and> u < e" using Cons.prems(2) by auto
  show ?case
  proof (cases "start s \<le> t - win")
    case True
    then have "max a (start s + win) \<le> t" using t by simp
    then have e: "e \<le> t + int n * win" using Cons.prems(3) by linarith
    then obtain m where m: "n = Suc m" using t(2) by (cases n) auto
    have s': "ok ?s" "start ?s = t" "cnt ?s = 1" "fst (tk t s) \<longleftrightarrow> 1 \<le> limit"
      using Cons.prems(1) True by (simp_all add: take_laws window_start_def window_count_def)
    have "e \<le> max a (start ?s + win) + int m * win" using e by (simp add: m s' algebra_simps)
    from Cons.IH [OF s'(1) ts this]
    have "grants tk ts ?s \<le> nat (limit - 1) + m * nat limit" by (simp add: s')
    then show ?thesis using s'(4) by (auto simp: m)
  next
    case False
    have s': "ok ?s" "start ?s = start s" "cnt ?s = cnt s + 1" "fst (tk t s) \<longleftrightarrow> cnt s + 1 \<le> limit"
      using Cons.prems(1) False by (simp_all add: take_laws window_start_def window_count_def)
    from Cons.IH [OF s'(1) ts, of n] Cons.prems(3)
    have "grants tk ts ?s \<le> nat (limit - cnt ?s) + n * nat limit" by (simp add: s')
    with s' show ?thesis by auto
  qed
qed

lemma grants_per_window:
  assumes "ok s" and "0 \<le> cnt s" and "\<forall>t \<in> set ts. a \<le> t \<and> t < a + int n * win"
  shows "grants tk ts s \<le> Suc n * nat limit"
proof -
  have "grants tk ts s \<le> nat (limit - cnt s) + n * nat limit"
    by (rule grants_windows [OF assms(1,3)]) simp
  moreover have "nat (limit - cnt s) \<le> nat limit" using assms(2) by simp
  ultimately show ?thesis by simp
qed

lemma grants_twice_limit:
  assumes "ok s" and "0 \<le> cnt s" and "\<forall>t \<in> set ts. a \<le> t \<and> t < a + win"
  shows "grants tk ts s \<le> 2 * nat limit"
  using grants_per_window [OF assms(1,2), of ts a 1] assms(3) by simp

end

end
