(* ===== verification/Push_Repository.thy ===== *)
theory Push_Repository
  imports Push_Invariants Rate_Window
begin

text \<open>
  lib/push-repository.ts: one definition per method of \<open>neonPushRepository\<close>. A method is a step
  of the database that returns its result or the driver's error (with the tables unchanged).
  \<open>claimDelivery\<close> is two statements, so it is two steps: the INSERT and the reclaiming UPDATE.

  \<open>push_op\<close> lists every call a server process can make; a sequence of them, in any order, is what
  any number of concurrent requests does to the tables.
\<close>

section \<open>Snapshots\<close>

record snapshot =
  snap_key :: string
  snap_material :: material

definition row_material :: "subscription_row \<Rightarrow> material" where
  "row_material r =
     \<lparr>mat_endpoint = sub_endpoint r, mat_p256dh = sub_p256dh r, mat_auth = sub_auth r\<rparr>"

definition row_snapshot :: "subscription_row \<Rightarrow> snapshot" where
  "row_snapshot r = \<lparr>snap_key = sub_key r, snap_material = row_material r\<rparr>"

section \<open>Registration methods\<close>

definition cancel_pending :: "string \<Rightarrow> push_db \<Rightarrow> push_db" where
  "cancel_pending ch db = delete_pendings (\<lambda>r. pend_challenge r = ch) db"

definition get_subscription :: "string \<Rightarrow> push_db \<Rightarrow> material option" where
  "get_subscription k db = map_option row_material (select_sub (\<lambda>r. sub_key r = k) db)"

definition get_subscriptions :: "string list \<Rightarrow> push_db \<Rightarrow> snapshot list" where
  "get_subscriptions ks db =
     (if ks = [] then []
      else map row_snapshot (filter (\<lambda>r. sub_key r \<in> set ks) (subs db)))"

definition get_managed :: "string \<Rightarrow> push_db \<Rightarrow> snapshot option" where
  "get_managed m db = map_option row_snapshot (select_sub (\<lambda>r. sub_manage r = Some m) db)"

section \<open>Rate limits\<close>

definition touch_row :: "int \<Rightarrow> int \<Rightarrow> subscription_row \<Rightarrow> subscription_row" where
  "touch_row now win r =
     r\<lparr>sub_window := window_start now win (sub_window r),
       sub_count := window_count now win (sub_window r) (sub_count r)\<rparr>"

definition consume_rate_limit :: "string \<Rightarrow> int \<Rightarrow> int \<Rightarrow> int \<Rightarrow> push_db \<Rightarrow> bool \<times> push_db" where
  "consume_rate_limit k now win limit db =
     (let rs = map (\<lambda>r. if sub_key r = k then touch_row now win r else r) (subs db);
          c = (case find (\<lambda>r. sub_key r = k) rs of None \<Rightarrow> limit + 1 | Some r \<Rightarrow> sub_count r)
      in (c \<le> limit, db\<lparr>subs := rs\<rparr>))"

definition touch_budget :: "int \<Rightarrow> int \<Rightarrow> budget_row \<Rightarrow> budget_row" where
  "touch_budget now win r =
     r\<lparr>bud_window := window_start now win (bud_window r),
       bud_count := window_count now win (bud_window r) (bud_count r)\<rparr>"

definition consume_global_rate_limit ::
  "string \<Rightarrow> int \<Rightarrow> int \<Rightarrow> int \<Rightarrow> push_db \<Rightarrow> bool \<times> push_db" where
  "consume_global_rate_limit b now win limit db =
     (let rs = map (\<lambda>r. if bud_name r = b then touch_budget now win r else r) (budgets db);
          c = (case find (\<lambda>r. bud_name r = b) rs of None \<Rightarrow> limit + 1 | Some r \<Rightarrow> bud_count r)
      in (c \<le> limit, db\<lparr>budgets := rs\<rparr>))"

section \<open>Delivery records\<close>

definition same_delivery :: "string \<Rightarrow> string \<Rightarrow> delivery_row \<Rightarrow> bool" where
  "same_delivery k e r \<longleftrightarrow> del_key r = k \<and> del_event r = e"

text \<open>\<^verbatim>\<open>INSERT ... ON CONFLICT DO NOTHING RETURNING\<close>\<close>

definition claim_insert :: "string \<Rightarrow> string \<Rightarrow> int \<Rightarrow> push_db \<Rightarrow> bool \<times> push_db" where
  "claim_insert k e now db =
     (if list_ex (same_delivery k e) (deliveries db) then (False, db)
      else (True, db\<lparr>deliveries := deliveries db @
              [\<lparr>del_key = k, del_event = e, del_status = Pending, del_updated = now\<rparr>]\<rparr>))"

definition reclaimable :: "string \<Rightarrow> string \<Rightarrow> int \<Rightarrow> delivery_row \<Rightarrow> bool" where
  "reclaimable k e cutoff r \<longleftrightarrow>
     same_delivery k e r \<and> del_status r = Pending \<and> del_updated r \<le> cutoff"

definition claim_reclaim :: "string \<Rightarrow> string \<Rightarrow> int \<Rightarrow> int \<Rightarrow> push_db \<Rightarrow> bool \<times> push_db" where
  "claim_reclaim k e now stale db =
     (list_ex (reclaimable k e (now - stale)) (deliveries db),
      db\<lparr>deliveries := map (\<lambda>r. if reclaimable k e (now - stale) r then r\<lparr>del_updated := now\<rparr> else r)
                         (deliveries db)\<rparr>)"

definition release_delivery :: "string \<Rightarrow> string \<Rightarrow> push_db \<Rightarrow> push_db" where
  "release_delivery k e db =
     delete_deliveries (\<lambda>r. same_delivery k e r \<and> del_status r = Pending) db"

definition cleanup_deliveries :: "int \<Rightarrow> push_db \<Rightarrow> push_db" where
  "cleanup_deliveries cutoff db = delete_deliveries (\<lambda>r. del_updated r \<le> cutoff) db"

definition mark_delivered :: "snapshot \<Rightarrow> string option \<Rightarrow> int \<Rightarrow> push_db \<Rightarrow> bool \<times> push_db" where
  "mark_delivered s ev now db = mark_delivery (snap_key s) (snap_material s) ev now db"

definition delete_if_current_snapshot :: "snapshot \<Rightarrow> push_db \<Rightarrow> bool \<times> push_db" where
  "delete_if_current_snapshot s db = delete_if_current (snap_key s) (snap_material s) db"

section \<open>Every call on the tables\<close>

datatype push_op =
    OpBegin string string material string int int int int
  | OpConfirm string int int
  | OpCancel string
  | OpDelete string int int
  | OpDeleteLegacy string int
  | OpDeleteIfCurrent snapshot
  | OpRate string int int int
  | OpGlobalRate string int int int
  | OpClaimInsert string string int
  | OpReclaim string string int int
  | OpMark snapshot "string option" int
  | OpRelease string string
  | OpCleanupSubs "string \<Rightarrow> bool" int nat
  | OpCleanupDeliveries int

definition committed :: "push_db \<Rightarrow> db_error + 'a \<times> push_db \<Rightarrow> push_db" where
  "committed db r = (case r of Inl e \<Rightarrow> db | Inr (a, db') \<Rightarrow> db')"

fun apply_op :: "push_op \<Rightarrow> push_db \<Rightarrow> push_db" where
  "apply_op (OpBegin d m s ch now expires ms mp) db =
     committed db (begin_registration d m s ch now expires ms mp db)"
| "apply_op (OpConfirm ch now ms) db = committed db (confirm_subscription ch now ms db)"
| "apply_op (OpCancel ch) db = cancel_pending ch db"
| "apply_op (OpDelete m now mr) db = committed db (delete_subscription m now mr db)"
| "apply_op (OpDeleteLegacy m now) db = committed db (delete_subscription_legacy m now db)"
| "apply_op (OpDeleteIfCurrent s) db = snd (delete_if_current_snapshot s db)"
| "apply_op (OpRate k now win l) db = snd (consume_rate_limit k now win l db)"
| "apply_op (OpGlobalRate b now win l) db = snd (consume_global_rate_limit b now win l db)"
| "apply_op (OpClaimInsert k e now) db = snd (claim_insert k e now db)"
| "apply_op (OpReclaim k e now stale) db = snd (claim_reclaim k e now stale db)"
| "apply_op (OpMark s ev now) db = snd (mark_delivered s ev now db)"
| "apply_op (OpRelease k e) db = release_delivery k e db"
| "apply_op (OpCleanupSubs locked cutoff lim) db = snd (cleanup_subscriptions locked cutoff lim db)"
| "apply_op (OpCleanupDeliveries cutoff) db = cleanup_deliveries cutoff db"

definition apply_ops :: "push_op list \<Rightarrow> push_db \<Rightarrow> push_db" where
  "apply_ops ops db = fold apply_op ops db"

lemma committed_cases: "P db \<Longrightarrow> (\<And>a db'. r = Inr (a, db') \<Longrightarrow> P db') \<Longrightarrow> P (committed db r)"
  by (auto simp: committed_def split: sum.split prod.split)

section \<open>The invariant holds after every sequence of calls\<close>

lemma manage_keys_eq: "map sub_manage rs = map sub_manage qs \<Longrightarrow> manage_keys rs = manage_keys qs"
proof (induction rs arbitrary: qs)
  case Nil
  then show ?case by simp
next
  case (Cons r rs)
  then obtain q qs' where q: "qs = q # qs'" "sub_manage r = sub_manage q"
    and m: "map sub_manage rs = map sub_manage qs'" by (cases qs) auto
  from Cons.IH [OF m] q show ?case by (simp cong: option.case_cong)
qed

lemma store_ok_rows:
  assumes "store_ok db" and "map sub_key rs = map sub_key (subs db)"
    "map sub_endpoint rs = map sub_endpoint (subs db)" "map sub_manage rs = map sub_manage (subs db)"
    and "map bud_name bs = map bud_name (budgets db)"
    and "distinct (map (\<lambda>r. (del_key r, del_event r)) ds)"
  shows "store_ok (db\<lparr>subs := rs, budgets := bs, deliveries := ds\<rparr>)"
proof -
  have len: "length rs = length (subs db)" using assms(2) by (metis length_map)
  have mk: "manage_keys rs = manage_keys (subs db)"
    using assms(4) by (rule manage_keys_eq)
  have "sub_key ` set rs = sub_key ` set (subs db)" using assms(2) by (metis set_map)
  then have k: "(\<forall>r \<in> set rs. sub_key r \<noteq> x) \<longleftrightarrow> (\<forall>r \<in> set (subs db). sub_key r \<noteq> x)" for x
    by (metis (no_types, opaque_lifting) imageE imageI)
  show ?thesis using assms mk len k
    by (simp add: store_ok_def gate_ok_def keys_ok_def caps_ok_def unique_subs_def is_revoked_def)
qed

lemma rate_rows [simp]:
  "sub_key (touch_row now win r) = sub_key r"
  "sub_endpoint (touch_row now win r) = sub_endpoint r"
  "sub_manage (touch_row now win r) = sub_manage r"
  "bud_name (touch_budget now win b) = bud_name b"
  by (simp_all add: touch_row_def touch_budget_def)

lemma store_ok_same_keys:
  assumes "store_ok db" and "\<And>r. sub_key (f r) = sub_key r" "\<And>r. sub_endpoint (f r) = sub_endpoint r"
    "\<And>r. sub_manage (f r) = sub_manage r"
  shows "store_ok (db\<lparr>subs := map f (subs db)\<rparr>)"
  using store_ok_rows [OF assms(1), where rs = "map f (subs db)" and bs = "budgets db"
      and ds = "deliveries db"] assms store_okD(2) [OF assms(1)]
  by (simp add: keys_ok_def comp_def)

lemma store_ok_budgets:
  assumes "store_ok db" and "map bud_name bs = map bud_name (budgets db)"
  shows "store_ok (db\<lparr>budgets := bs\<rparr>)"
  using store_ok_rows [OF assms(1), where rs = "subs db" and bs = bs and ds = "deliveries db"]
    assms store_okD(2) [OF assms(1)]
  by (simp add: keys_ok_def)

lemma store_ok_deliveries:
  assumes "store_ok db" and "distinct (map (\<lambda>r. (del_key r, del_event r)) ds)"
  shows "store_ok (db\<lparr>deliveries := ds\<rparr>)"
  using store_ok_rows [OF assms(1), where rs = "subs db" and bs = "budgets db" and ds = ds]
    assms store_okD(2) [OF assms(1)]
  by (simp add: keys_ok_def)

lemma store_ok_rate: "store_ok db \<Longrightarrow> store_ok (snd (consume_rate_limit k now win l db))"
  unfolding consume_rate_limit_def Let_def snd_conv by (rule store_ok_same_keys) auto

lemma store_ok_global_rate: "store_ok db \<Longrightarrow> store_ok (snd (consume_global_rate_limit b now win l db))"
  unfolding consume_global_rate_limit_def Let_def snd_conv by (rule store_ok_budgets) auto

lemma store_ok_claim_insert: "store_ok db \<Longrightarrow> store_ok (snd (claim_insert k e now db))"
  using store_okD(2) [of db]
  by (auto simp: claim_insert_def list_ex_iff same_delivery_def keys_ok_def intro!: store_ok_deliveries)

lemma store_ok_reclaim: "store_ok db \<Longrightarrow> store_ok (snd (claim_reclaim k e now stale db))"
  using store_okD(2) [of db]
  by (auto simp: claim_reclaim_def keys_ok_def comp_def if_distrib cong: if_cong
      intro!: store_ok_deliveries)

lemma store_ok_apply_op: "store_ok db \<Longrightarrow> store_ok (apply_op op db)"
proof (induction op db rule: apply_op.induct)
  case (1 d m s ch now expires ms mp db)
  then show ?case by (auto intro: committed_cases store_ok_begin_registration)
next
  case (2 ch now ms db)
  then show ?case by (auto intro: committed_cases store_ok_confirm)
next
  case (4 m now mr db)
  then show ?case by (auto intro: committed_cases store_ok_delete_subscription)
next
  case (5 m now db)
  then show ?case by (auto intro: committed_cases store_ok_delete_legacy)
qed (simp_all add: cancel_pending_def delete_if_current_snapshot_def mark_delivered_def
    release_delivery_def cleanup_deliveries_def inv_intros store_ok_rate store_ok_global_rate
    store_ok_claim_insert store_ok_reclaim)

lemma apply_ops_simps [simp]:
  "apply_ops [] db = db" "apply_ops (op # ops) db = apply_ops ops (apply_op op db)"
  by (simp_all add: apply_ops_def)

lemma store_ok_apply_ops: "store_ok db \<Longrightarrow> store_ok (apply_ops ops db)"
  by (induction ops arbitrary: db) (simp_all add: store_ok_apply_op)

section \<open>Both budgets are fixed-window limiters\<close>

definition budget_of :: "string \<Rightarrow> push_db \<Rightarrow> budget_row option" where
  "budget_of b db = find (\<lambda>r. bud_name r = b) (budgets db)"

definition row_of :: "string \<Rightarrow> push_db \<Rightarrow> subscription_row option" where
  "row_of k db = find (\<lambda>r. sub_key r = k) (subs db)"

lemma budget_of_consume:
  "budget_of b (snd (consume_global_rate_limit b t win l db)) =
     map_option (touch_budget t win) (budget_of b db)"
  by (simp add: budget_of_def consume_global_rate_limit_def Let_def find_map_update)

lemma row_of_consume:
  "row_of k (snd (consume_rate_limit k t win l db)) = map_option (touch_row t win) (row_of k db)"
  by (simp add: row_of_def consume_rate_limit_def Let_def find_map_update)

interpretation bucket: fixed_window
  "\<lambda>t db. consume_global_rate_limit b t win limit db"
  "\<lambda>db. bud_window (the (budget_of b db))" "\<lambda>db. bud_count (the (budget_of b db))"
  "\<lambda>db. budget_of b db \<noteq> None" win limit for b win limit
proof unfold_locales
  fix s t
  assume "budget_of b s \<noteq> None"
  then obtain r where r: "budget_of b s = Some r" by blast
  have "fst (consume_global_rate_limit b t win limit s) \<longleftrightarrow>
      window_count t win (bud_window r) (bud_count r) \<le> limit"
    using r by (simp add: budget_of_def consume_global_rate_limit_def Let_def find_map_update touch_budget_def)
  then show "fst (consume_global_rate_limit b t win limit s) \<longleftrightarrow>
      window_count t win (bud_window (the (budget_of b s))) (bud_count (the (budget_of b s))) \<le> limit"
    using r by simp
qed (auto simp: budget_of_consume touch_budget_def)

interpretation device: fixed_window
  "\<lambda>t db. consume_rate_limit k t win limit db"
  "\<lambda>db. sub_window (the (row_of k db))" "\<lambda>db. sub_count (the (row_of k db))"
  "\<lambda>db. row_of k db \<noteq> None" win limit for k win limit
proof unfold_locales
  fix s t
  assume "row_of k s \<noteq> None"
  then obtain r where r: "row_of k s = Some r" by blast
  have "fst (consume_rate_limit k t win limit s) \<longleftrightarrow>
      window_count t win (sub_window r) (sub_count r) \<le> limit"
    using r by (simp add: row_of_def consume_rate_limit_def Let_def find_map_update touch_row_def)
  then show "fst (consume_rate_limit k t win limit s) \<longleftrightarrow>
      window_count t win (sub_window (the (row_of k s))) (sub_count (the (row_of k s))) \<le> limit"
    using r by simp
qed (auto simp: row_of_consume touch_row_def)

end
