(* ===== verification/Push_Ledger.thy ===== *)
theory Push_Ledger
  imports Push_Repository
begin

text \<open>
  Deduplication: who may send an event to a device. A delivery row is the claim of one worker;
  it disappears only when it is released, aged out, or dropped together with its subscription.
  The lemmas follow one row through any sequence of repository calls.
\<close>

section \<open>Calls lose only the records of subscriptions they drop\<close>

definition loses_only_orphans :: "push_db \<Rightarrow> push_db \<Rightarrow> bool" where
  "loses_only_orphans db db' \<longleftrightarrow>
     (\<forall>r \<in> set (deliveries db). r \<in> set (deliveries db') \<or>
        (\<forall>q \<in> set (subs db'). sub_key q \<noteq> del_key r))"

lemma orphans_same: "deliveries db' = deliveries db \<Longrightarrow> loses_only_orphans db db'"
  by (simp add: loses_only_orphans_def)

lemma orphans_refl [simp]: "loses_only_orphans db db"
  by (simp add: orphans_same)

lemma update_subs_tables:
  assumes "update_subs P f db = Inr db'"
  shows "deliveries db' = deliveries db" "pendings db' = pendings db" "revoked db' = revoked db"
    "gateway db' = gateway db" "subs db' = map (\<lambda>r. if P r then f r else r) (subs db)"
  using assms by (auto simp: update_subs_def Let_def split: if_splits)

lemma orphans_begin_existing:
  assumes "begin_existing d m s now r db = Inr (out, db')"
  shows "loses_only_orphans db db'"
proof -
  define db1 where "db1 = (case select_sub (\<lambda>q. sub_endpoint q = mat_endpoint s \<and> sub_key q \<noteq> d) db of
                     None \<Rightarrow> db | Some q \<Rightarrow> drop_sub_key (sub_key q) db)"
  have one: "loses_only_orphans db (delete_pendings P db2)"
    if up: "update_subs (\<lambda>q. sub_key q = d) f db1 = Inr db2" and f: "\<And>q. sub_key (f q) = sub_key q" for f db2 P
  proof (cases "select_sub (\<lambda>q. sub_endpoint q = mat_endpoint s \<and> sub_key q \<noteq> d) db")
    case None
    then show ?thesis using update_subs_tables [OF up] by (simp add: db1_def orphans_same)
  next
    case (Some q)
    then show ?thesis using update_subs_tables [OF up] f by (auto simp: db1_def loses_only_orphans_def)
  qed
  show ?thesis using assms one
    by (auto simp: begin_existing_def db1_def [symmetric] sum_bind_Inr_iff split: if_splits)
qed

lemma orphans_begin_new:
  "begin_new d m s ch now expires ms mp g db = Inr (out, db') \<Longrightarrow> loses_only_orphans db db'"
  by (auto simp: begin_new_def Let_def sum_bind_Inr_iff insert_pending_def orphans_same split: if_splits)

lemma orphans_begin:
  assumes "begin_registration d m s ch now expires ms mp db = Inr (out, db')"
  shows "loses_only_orphans db db'"
proof -
  let ?db = "delete_pendings (\<lambda>r. pend_expires r \<le> now) db"
  have "loses_only_orphans ?db db'"
    using assms orphans_begin_existing [of d m s now _ ?db] orphans_begin_new [of d m s ch now expires ms mp _ ?db]
    by (auto simp: begin_registration_def Let_def split: option.splits if_splits)
  then show ?thesis by (simp add: loses_only_orphans_def)
qed

lemma orphans_confirm:
  assumes ok: "store_ok db" and r: "confirm_subscription ch now ms db = Inr (out, db')"
  shows "loses_only_orphans db db'"
proof -
  have ups: "deliveries db2 = deliveries db1 \<and>
      sub_key ` set (subs db2) \<subseteq> insert (pend_delivery p) (sub_key ` set (subs db1))"
    if "upsert_sub p now db1 = Inr db2" for p db1 db2
    using that by (auto simp: upsert_sub_def update_subs_def insert_sub_def count_insert_def Let_def
        split: if_splits)
  have key: "loses_only_orphans db (delete_pendings P db2)"
    if "upsert_sub p now (drop_sub_key k db) = Inr db2" "k \<noteq> pend_delivery p" for P p db2 k
  proof -
    have "k \<notin> sub_key ` set (subs db2)" using ups [OF that(1)] that(2) by auto
    then have "\<forall>q \<in> set (subs db2). sub_key q \<noteq> k" by (metis imageI)
    then show ?thesis using ups [OF that(1)] by (auto simp: loses_only_orphans_def)
  qed
  have same: "loses_only_orphans db (delete_pendings P db2)" if "upsert_sub p now db = Inr db2" for P p db2
    using ups [OF that] by (simp add: orphans_same)
  show ?thesis using r key same
    by (auto simp: confirm_subscription_def Let_def orphans_same sum_bind_Inr_iff
        split: option.splits if_splits)
qed

lemma orphans_remove_managed: "store_ok db \<Longrightarrow> loses_only_orphans db (remove_managed m db)"
proof -
  assume ok: "store_ok db"
  show ?thesis
  proof (cases "select_sub (\<lambda>r. sub_manage r = Some m) db")
    case None
    then show ?thesis by (simp add: remove_managed_def orphans_same)
  next
    case (Some r)
    then have r: "r \<in> set (subs db)" "sub_manage r = Some m" by (auto dest: select_sub_Some)
    have "sub_key q \<noteq> sub_key r" if "q \<in> set (subs db)" "sub_manage q \<noteq> Some m" for q
      using ok r that by (auto simp: store_ok_def keys_ok_def dest: unique_subs_key)
    then show ?thesis using Some by (auto simp: remove_managed_def loses_only_orphans_def)
  qed
qed

lemma orphans_cong:
  "loses_only_orphans db1 db' \<Longrightarrow> deliveries db1 = deliveries db \<Longrightarrow> loses_only_orphans db db'"
  by (simp add: loses_only_orphans_def)

lemma orphans_revoke_and_remove: "store_ok db \<Longrightarrow> loses_only_orphans db (revoke_and_remove m now db)"
  using orphans_remove_managed [of db m]
  by (auto simp: revoke_and_remove_def Let_def revoke_row_remove_managed loses_only_orphans_def)

lemma orphans_delete_subscription:
  assumes ok: "store_ok db" and r: "delete_subscription m now mr db = Inr (out, db')"
  shows "loses_only_orphans db db'"
proof -
  obtain g where g: "gateway db = Some g" "\<forall>l. gate_limit g = Some l \<longrightarrow> 0 < l"
    using ok by (auto elim: gate_okE)
  have pos: "0 < mr" using r by (auto simp: delete_subscription_def split: if_splits)
  define l where "l = (case gate_limit g of None \<Rightarrow> mr | Some l \<Rightarrow> l)"
  let ?db1 = "db\<lparr>gateway := Some (g\<lparr>gate_limit := Some l\<rparr>)\<rparr>"
  have "0 < l" using g(2) pos by (auto simp: l_def split: option.split)
  then have "loses_only_orphans ?db1 (revoke_and_remove m now ?db1)"
    using ok g(1) by (intro orphans_revoke_and_remove store_ok_gateway_limit)
  then show ?thesis
    using r unfolding delete_subscription_cases [OF g(1) pos] l_def [symmetric]
    by (auto simp: loses_only_orphans_def split: if_splits)
qed

lemma orphans_delete_legacy:
  assumes ok: "store_ok db" and r: "delete_subscription_legacy m now db = Inr (out, db')"
  shows "loses_only_orphans db db'"
proof -
  obtain g where g: "gateway db = Some g" using ok by (rule gate_okE)
  have "db' = revoke_and_remove m now db"
    using r g by (auto simp: delete_subscription_legacy_def revoke_and_remove_def Let_def
        insert_revoked_alt split: if_splits)
  then show ?thesis using orphans_revoke_and_remove [OF ok] by simp
qed

lemma orphans_delete_where:
  assumes "store_ok db" and "ks = map sub_key (filter P (subs db))"
  shows "loses_only_orphans db (delete_deliveries (\<lambda>r. del_key r \<in> set ks) (delete_subs P db))"
  unfolding loses_only_orphans_def
proof
  fix r assume r: "r \<in> set (deliveries db)"
  show "r \<in> set (deliveries (delete_deliveries (\<lambda>r. del_key r \<in> set ks) (delete_subs P db))) \<or>
    (\<forall>q \<in> set (subs (delete_deliveries (\<lambda>r. del_key r \<in> set ks) (delete_subs P db))). sub_key q \<noteq> del_key r)"
  proof (cases "del_key r \<in> set ks")
    case True
    then obtain p where p: "p \<in> set (subs db)" "P p" "sub_key p = del_key r" using assms(2) by auto
    have "sub_key q \<noteq> del_key r" if "q \<in> set (subs db)" "\<not> P q" for q
      using assms(1) p that by (auto simp: store_ok_def keys_ok_def dest: unique_subs_key)
    then show ?thesis by simp
  qed (use r in simp)
qed

section \<open>A record through any sequence of calls\<close>

text \<open>
  \<open>held strict k e t0 db\<close>: there is a record for event \<open>e\<close> on device \<open>k\<close>, written at or after
  \<open>t0\<close>; with \<open>strict\<close> it is marked sent.
\<close>

definition held :: "bool \<Rightarrow> string \<Rightarrow> string \<Rightarrow> int \<Rightarrow> push_db \<Rightarrow> bool" where
  "held strict k e t0 db \<longleftrightarrow>
     list_ex (\<lambda>r. same_delivery k e r \<and> t0 \<le> del_updated r \<and> (strict \<longrightarrow> del_status r = Sent))
       (deliveries db)"

text \<open>
  Calls that leave such a record alone: no cleanup of records as young as \<open>t0\<close>, marks and reclaims
  carry clock readings from \<open>t0\<close> on, and, unless the record is already marked sent, nobody
  releases it or reclaims it as stale.
\<close>

fun spares :: "bool \<Rightarrow> string \<Rightarrow> string \<Rightarrow> int \<Rightarrow> push_op \<Rightarrow> bool" where
  "spares strict k e t0 (OpRelease k' e') = (strict \<or> \<not> (k' = k \<and> e' = e))"
| "spares strict k e t0 (OpReclaim k' e' now stale) =
     (strict \<or> (k' = k \<and> e' = e \<longrightarrow> now - stale < t0))"
| "spares strict k e t0 (OpCleanupDeliveries cutoff) = (cutoff < t0)"
| "spares strict k e t0 (OpMark s ev now) = (t0 \<le> now)"
| "spares strict k e t0 op = True"

text \<open>A run of such calls during which the device keeps a subscription.\<close>

fun undisturbed :: "bool \<Rightarrow> string \<Rightarrow> string \<Rightarrow> int \<Rightarrow> push_op list \<Rightarrow> push_db \<Rightarrow> bool" where
  "undisturbed strict k e t0 [] db = True"
| "undisturbed strict k e t0 (op # ops) db =
     (spares strict k e t0 op \<and> row_of k (apply_op op db) \<noteq> None \<and>
      undisturbed strict k e t0 ops (apply_op op db))"

fun claim_succeeds :: "string \<Rightarrow> string \<Rightarrow> push_op \<Rightarrow> push_db \<Rightarrow> bool" where
  "claim_succeeds k e (OpClaimInsert k' e' now) db =
     (k' = k \<and> e' = e \<and> fst (claim_insert k e now db))"
| "claim_succeeds k e (OpReclaim k' e' now stale) db =
     (k' = k \<and> e' = e \<and> fst (claim_reclaim k e now stale db))"
| "claim_succeeds k e op db = False"

fun claims_won :: "string \<Rightarrow> string \<Rightarrow> push_op list \<Rightarrow> push_db \<Rightarrow> nat" where
  "claims_won k e [] db = 0"
| "claims_won k e (op # ops) db =
     (if claim_succeeds k e op db then 1 else 0) + claims_won k e ops (apply_op op db)"

lemma row_of_None: "row_of k db = None \<longleftrightarrow> (\<forall>r \<in> set (subs db). sub_key r \<noteq> k)"
  by (auto simp: row_of_def find_None_iff)

lemma held_iff:
  "held strict k e t0 db \<longleftrightarrow>
     (\<exists>r \<in> set (deliveries db). same_delivery k e r \<and> t0 \<le> del_updated r \<and>
        (strict \<longrightarrow> del_status r = Sent))"
  by (simp add: held_def list_ex_iff)

lemma held_orphans:
  assumes "held strict k e t0 db" and "loses_only_orphans db db'" and "row_of k db' \<noteq> None"
  shows "held strict k e t0 db'"
  using assms unfolding held_iff loses_only_orphans_def row_of_None same_delivery_def by metis

lemma held_mono:
  assumes "held strict k e t0 db" and "set (deliveries db) \<subseteq> set (deliveries db')"
  shows "held strict k e t0 db'"
  using assms by (auto simp: held_iff)

lemma held_map:
  assumes "held strict k e t0 db"
    and "\<And>r. same_delivery k e r \<Longrightarrow> t0 \<le> del_updated r \<Longrightarrow> (strict \<longrightarrow> del_status r = Sent) \<Longrightarrow>
           same_delivery k e (h r) \<and> t0 \<le> del_updated (h r) \<and> (strict \<longrightarrow> del_status (h r) = Sent)"
  shows "held strict k e t0 (db\<lparr>subs := rs, deliveries := map h (deliveries db)\<rparr>)"
  using assms by (auto simp: held_iff)

lemma held_apply_op:
  assumes ok: "store_ok db" and h: "held strict k e t0 db" and sp: "spares strict k e t0 op"
    and row: "row_of k (apply_op op db) \<noteq> None"
  shows "held strict k e t0 (apply_op op db)"
proof (cases op)
  case (OpBegin d m s ch now expires ms mp)
  then show ?thesis using h row
    by (auto simp: committed_def split: sum.splits intro: held_orphans orphans_begin)
next
  case (OpConfirm ch now ms)
  then show ?thesis using h row ok
    by (auto simp: committed_def split: sum.splits intro: held_orphans orphans_confirm)
next
  case (OpDelete m now mr)
  then show ?thesis using h row ok
    by (auto simp: committed_def split: sum.splits intro: held_orphans orphans_delete_subscription)
next
  case (OpDeleteLegacy m now)
  then show ?thesis using h row ok
    by (auto simp: committed_def split: sum.splits intro: held_orphans orphans_delete_legacy)
next
  case (OpDeleteIfCurrent s)
  have "loses_only_orphans db (apply_op op db)"
    using orphans_delete_where [OF ok refl]
    by (simp add: OpDeleteIfCurrent delete_if_current_snapshot_def delete_if_current_def Let_def)
  then show ?thesis using h row by (blast intro: held_orphans)
next
  case (OpCleanupSubs locked cutoff lim)
  have "loses_only_orphans db (apply_op op db)"
    using orphans_delete_where [OF ok refl]
    by (simp add: OpCleanupSubs cleanup_subscriptions_def Let_def)
  then show ?thesis using h row by (blast intro: held_orphans)
next
  case (OpClaimInsert k' e' now)
  then show ?thesis using h by (auto simp: claim_insert_def intro: held_mono)
next
  case (OpReclaim k' e' now stale)
  then show ?thesis using h sp
    by (auto simp: claim_reclaim_def held_iff reclaimable_def same_delivery_def)
next
  case (OpMark s ev now)
  then show ?thesis using h sp
    unfolding OpMark apply_op.simps mark_delivered_def mark_delivery_def Let_def snd_conv
    by (intro held_map) (auto simp: same_delivery_def)
next
  case (OpRelease k' e')
  then show ?thesis using h sp by (auto simp: release_delivery_def held_iff same_delivery_def)
next
  case (OpCleanupDeliveries cutoff)
  then show ?thesis using h sp by (force simp: cleanup_deliveries_def held_iff)
qed (use h in \<open>auto simp: cancel_pending_def consume_rate_limit_def consume_global_rate_limit_def
       Let_def held_iff\<close>)

lemma held_blocks_claims:
  assumes ok: "store_ok db" and h: "held strict k e t0 db" and sp: "spares strict k e t0 op"
  shows "\<not> claim_succeeds k e op db"
proof -
  obtain r where r: "r \<in> set (deliveries db)" "same_delivery k e r" "t0 \<le> del_updated r"
    "strict \<longrightarrow> del_status r = Sent" using h by (auto simp: held_iff)
  have only: "q = r" if "q \<in> set (deliveries db)" "same_delivery k e q" for q
    using store_okD(2) [OF ok] r that
    by (auto simp: keys_ok_def same_delivery_def dest: distinct_map_unique)
  show ?thesis
  proof (cases op)
    case (OpClaimInsert k' e' now)
    then show ?thesis using r by (auto simp: claim_insert_def list_ex_iff)
  next
    case (OpReclaim k' e' now stale)
    show ?thesis
    proof
      assume "claim_succeeds k e op db"
      then obtain q where "q \<in> set (deliveries db)" and q: "reclaimable k e (now - stale) q"
        and "k' = k" "e' = e"
        by (auto simp: OpReclaim claim_reclaim_def list_ex_iff)
      then have "q = r" using only by (simp add: reclaimable_def)
      then show False using q r(3,4) sp \<open>k' = k\<close> \<open>e' = e\<close> by (auto simp: OpReclaim reclaimable_def)
    qed
  qed simp_all
qed

lemma no_second_claim:
  assumes "store_ok db" and "held strict k e t0 db" and "undisturbed strict k e t0 ops db"
  shows "claims_won k e ops db = 0 \<and> held strict k e t0 (apply_ops ops db)"
  using assms
proof (induction ops arbitrary: db)
  case Nil
  then show ?case by simp
next
  case (Cons op ops)
  have "held strict k e t0 (apply_op op db)"
    using Cons.prems by (intro held_apply_op) auto
  moreover have "\<not> claim_succeeds k e op db"
    using Cons.prems by (intro held_blocks_claims) auto
  ultimately show ?case
    using Cons.IH [of "apply_op op db"] Cons.prems store_ok_apply_op by auto
qed

lemma claim_held: "fst (claim_insert k e t db) \<Longrightarrow> held False k e t (snd (claim_insert k e t db))"
  by (auto simp: claim_insert_def held_iff same_delivery_def)

lemma reclaim_held:
  assumes "fst (claim_reclaim k e t stale db)"
  shows "held False k e t (snd (claim_reclaim k e t stale db))"
proof -
  obtain r where r: "r \<in> set (deliveries db)" "reclaimable k e (t - stale) r"
    using assms by (auto simp: claim_reclaim_def list_ex_iff)
  then have "r\<lparr>del_updated := t\<rparr> \<in> set (deliveries (snd (claim_reclaim k e t stale db)))"
    by (auto simp: claim_reclaim_def image_iff intro!: bexI [of _ r])
  then show ?thesis using r(2) unfolding held_iff
    by (intro bexI [of _ "r\<lparr>del_updated := t\<rparr>"]) (auto simp: reclaimable_def same_delivery_def)
qed

lemma mark_held:
  assumes m: "fst (mark_delivered s (Some e) t db)" and "held False (snap_key s) e t' db"
  shows "held True (snap_key s) e (min t t') (snd (mark_delivered s (Some e) t db))"
proof -
  obtain r where r: "r \<in> set (deliveries db)" "same_delivery (snap_key s) e r"
    using assms(2) by (auto simp: held_iff)
  let ?r = "r\<lparr>del_status := Sent, del_updated := t\<rparr>"
  have "snap_key s \<in> sub_key ` set (filter (is_current (snap_key s) (snap_material s)) (subs db))"
    using m by (auto simp: mark_delivered_def mark_delivery_def Let_def is_current_def filter_empty_conv)
  then have "?r \<in> set (deliveries (snd (mark_delivered s (Some e) t db)))"
    using r by (auto simp: mark_delivered_def mark_delivery_def Let_def same_delivery_def image_iff
        intro!: bexI [of _ r])
  then show ?thesis using r(2) unfolding held_iff
    by (intro bexI [of _ ?r]) (auto simp: same_delivery_def)
qed

end
