(* ===== verification/Push_Server.thy ===== *)
theory Push_Server
  imports Effects Push_Gateway Push_Ledger "HOL-Library.Word"
begin

text \<open>
  lib/push-server.ts: the request handlers of the push gateway as programs over a world that holds
  the tables, the messages handed to push providers, the log, and the arrays the delivery workers
  share. What the handlers cannot control is the record \<open>server\<close>: the clocks, the outcome of each
  push delivery, database faults, random capabilities, row locks and the scheduler are functions
  of the number of actions taken so far; SHA-256, the JSON parser, the URL parser and ipaddr.js are
  plain functions. Nothing is assumed about any of them here.

  \<open>w_trace\<close> is a history variable: the database calls that were committed, in order.
\<close>

section \<open>Configuration\<close>

record push_configuration =
  vapid_public :: string
  vapid_private :: string
  vapid_subject :: string

record push_limits =
  max_subscriptions :: int
  max_revoked :: int
  registration_limit :: int
  test_limit :: int
  notify_limit :: int
  delivery_limit :: int

text \<open>An environment maps variable names to values; \<open>None\<close> is an unset variable.\<close>

text \<open>\<^verbatim>\<open>/^[1-9]\d*$/\<close>\<close>

definition positive_decimal :: "string \<Rightarrow> bool" where
  "positive_decimal s \<longleftrightarrow> s \<noteq> [] \<and> hd s \<noteq> CHR ''0'' \<and> list_all is_digit s"

definition positive_integer_environment :: "(string \<Rightarrow> string option) \<Rightarrow> string \<Rightarrow> int \<Rightarrow> int" where
  "positive_integer_environment env name fallback =
     (case env name of
        None \<Rightarrow> fallback
      | Some raw \<Rightarrow>
          if \<not> positive_decimal raw then fallback
          else (case js_number raw of
                  Fin q \<Rightarrow> if is_safe_integer (Fin q) then \<lfloor>q\<rfloor> else fallback
                | _ \<Rightarrow> fallback))"

definition push_limits_from_environment :: "(string \<Rightarrow> string option) \<Rightarrow> push_limits" where
  "push_limits_from_environment env =
     \<lparr>max_subscriptions = positive_integer_environment env ''PUSH_MAX_SUBSCRIPTIONS'' 10000,
      max_revoked = positive_integer_environment env ''PUSH_MAX_REVOKED_MANAGEMENT_KEYS'' 100000,
      registration_limit = positive_integer_environment env ''PUSH_REGISTRATION_LIMIT_PER_10M'' 300,
      test_limit = positive_integer_environment env ''PUSH_TEST_LIMIT_PER_MIN'' 60,
      notify_limit = positive_integer_environment env ''PUSH_NOTIFY_LIMIT_PER_MIN'' 600,
      delivery_limit = positive_integer_environment env ''PUSH_DELIVERY_LIMIT_PER_MIN'' 3000\<rparr>"

definition nonempty :: "string option \<Rightarrow> string option" where
  "nonempty v = (case v of Some (c # cs) \<Rightarrow> v | _ \<Rightarrow> None)"

definition environment_configuration :: "(string \<Rightarrow> string option) \<Rightarrow> push_configuration option" where
  "environment_configuration env =
     (if env ''VERCEL_ENV'' = Some ''preview'' then None
      else (case (nonempty (env ''VAPID_PUBLIC_KEY''), nonempty (env ''VAPID_PRIVATE_KEY''),
                  nonempty (env ''VAPID_SUBJECT'')) of
              (Some p, Some k, Some s) \<Rightarrow>
                Some \<lparr>vapid_public = p, vapid_private = k, vapid_subject = s\<rparr>
            | _ \<Rightarrow> None))"

section \<open>World and environment\<close>

datatype device_result = DSent | DSuppressed | DRejected | DTransient

record message =
  msg_target :: material
  msg_payload :: jsval

text \<open>The closure of one \<open>mapWithConcurrency\<close> call: its cursor and its result array.\<close>

record cell =
  cell_cursor :: nat
  cell_results :: "device_result option list"

record world =
  w_db :: push_db
  w_tick :: nat
  w_out :: "message list"
  w_log :: "jsval list"
  w_trace :: "push_op list"
  w_cells :: "cell list"

text \<open>
  A database call may fail before it commits, or commit and lose its answer. A delivery fails with
  the numeric \<open>statusCode\<close> of its error, 0 when the error has none.
\<close>

datatype db_fault = NoFault | FailsBefore | FailsAfter

record server =
  srv_now :: "nat \<Rightarrow> int"
  srv_ms :: "nat \<Rightarrow> int"
  srv_send :: "nat \<Rightarrow> message \<Rightarrow> int option"
  srv_fault :: "nat \<Rightarrow> db_fault"
  srv_random :: "nat \<Rightarrow> string"
  srv_locked :: "nat \<Rightarrow> string \<Rightarrow> bool"
  srv_left :: "nat \<Rightarrow> bool"
  srv_hash :: "string \<Rightarrow> string"
  srv_json :: "8 word list \<Rightarrow> jsval option"
  srv_url :: "string \<Rightarrow> url option"
  srv_ip :: "string \<Rightarrow> bool"
  srv_hosts :: string
  srv_config :: "push_configuration option"
  srv_limits :: push_limits

text \<open>What a handler throws: a \<open>Response\<close> with a status and a text, or an error with a status code.\<close>

datatype exn = Thrown nat string | Failure int

type_synonym 'a job = "(world, exn, 'a) prog"

record response =
  resp_status :: nat
  resp_headers :: "(string \<times> string) list"
  resp_body :: jsval

text \<open>
  A request; its body is absent or a sequence of chunks, after which the stream ends or, with
  \<open>req_broken\<close>, fails.
\<close>

record request =
  req_method :: string
  req_url :: string
  req_origin :: "string option"
  req_length :: "string option"
  req_body :: "8 word list list option"
  req_broken :: bool

section \<open>Constants\<close>

definition app_id :: string where "app_id = ''chat.subetha.pwa''"
definition max_body_bytes :: nat where "max_body_bytes = 65536"
definition max_devices_per_request :: nat where "max_devices_per_request = 50"
definition delivery_retention_seconds :: int where "delivery_retention_seconds = 604800"
definition pending_delivery_timeout_seconds :: int where "pending_delivery_timeout_seconds = 120"
definition rate_window_seconds :: int where "rate_window_seconds = 60"
definition rate_limit :: int where "rate_limit = 120"
definition delivery_concurrency :: nat where "delivery_concurrency = 8"
definition stale_subscription_seconds :: int where "stale_subscription_seconds = 2592000"
definition stale_cleanup_batch :: nat where "stale_cleanup_batch = 500"
definition ten_minutes_seconds :: int where "ten_minutes_seconds = 600"
definition one_minute_seconds :: int where "one_minute_seconds = 60"
definition registration_challenge_seconds :: int where "registration_challenge_seconds = 600"
definition budget_mutations :: string where "budget_mutations = ''subscription-mutations''"
definition budget_tests :: string where "budget_tests = ''test-sends''"
definition budget_notify :: string where "budget_notify = ''matrix-notify''"
definition budget_outbound :: string where "budget_outbound = ''outbound-deliveries''"

section \<open>Responses\<close>

definition json_response :: "jsval \<Rightarrow> nat \<Rightarrow> (string \<times> string) list \<Rightarrow> response" where
  "json_response body status additional =
     \<lparr>resp_status = status,
      resp_headers =
        [(''Cache-Control'', ''no-store''), (''Referrer-Policy'', ''no-referrer''),
         (''X-Content-Type-Options'', ''nosniff'')] @ map (map_prod to_lower id) additional,
      resp_body = body\<rparr>"

definition error_response :: "string \<Rightarrow> nat \<Rightarrow> response" where
  "error_response text status = json_response (JObj [(''error'', JStr text)]) status []"

definition retry_after :: "(string \<times> string) list" where
  "retry_after = [(''Retry-After'', ''60'')]"

definition retry_response :: "string \<Rightarrow> response" where
  "retry_response text = json_response (JObj [(''error'', JStr text)]) 503 retry_after"

definition thrown_response :: "nat \<Rightarrow> string \<Rightarrow> response" where
  "thrown_response status text = \<lparr>resp_status = status, resp_headers = [], resp_body = JStr text\<rparr>"

definition flag_response :: "string \<Rightarrow> nat \<Rightarrow> response" where
  "flag_response name status = json_response (JObj [(name, JBool True)]) status []"

section \<open>Actions\<close>

definition tick_act :: "(nat \<Rightarrow> world \<Rightarrow> (exn + 'a) \<times> world) \<Rightarrow> 'a job" where
  "tick_act f = atom (\<lambda>w. f (w_tick w) (w\<lparr>w_tick := Suc (w_tick w)\<rparr>))"

definition read_now :: "server \<Rightarrow> int job" where
  "read_now E = tick_act (\<lambda>t w. (Inr (srv_now E t), w))"

definition read_ms :: "server \<Rightarrow> int job" where
  "read_ms E = tick_act (\<lambda>t w. (Inr (srv_ms E t), w))"

definition write_log :: "(string \<times> jsval) list \<Rightarrow> unit job" where
  "write_log entry = tick_act (\<lambda>t w. (Inr (), w\<lparr>w_log := w_log w @ [JObj entry]\<rparr>))"

definition random_capability :: "server \<Rightarrow> string job" where
  "random_capability E = tick_act (\<lambda>t w. (Inr (srv_random E t), w))"

definition send_notification :: "server \<Rightarrow> material \<Rightarrow> jsval \<Rightarrow> unit job" where
  "send_notification E target payload =
     (let m = \<lparr>msg_target = target, msg_payload = payload\<rparr> in
      tick_act (\<lambda>t w.
        (case srv_send E t m of None \<Rightarrow> Inr () | Some status \<Rightarrow> Inl (Failure status),
         w\<lparr>w_out := w_out w @ [m]\<rparr>)))"

text \<open>A call that changes the tables, and one that only reads them.\<close>

definition db_call :: "server \<Rightarrow> push_op \<Rightarrow> (push_db \<Rightarrow> db_error + 'a \<times> push_db) \<Rightarrow> 'a job" where
  "db_call E op g = tick_act (\<lambda>t w.
     (let w' = w\<lparr>w_db := committed (w_db w) (g (w_db w)), w_trace := w_trace w @ [op]\<rparr> in
      case srv_fault E t of
        FailsBefore \<Rightarrow> (Inl (Failure 0), w)
      | FailsAfter \<Rightarrow> (Inl (Failure 0), w')
      | NoFault \<Rightarrow> (case g (w_db w) of Inl e \<Rightarrow> Inl (Failure 0) | Inr (a, db) \<Rightarrow> Inr a, w')))"

definition db_read :: "server \<Rightarrow> (push_db \<Rightarrow> 'a) \<Rightarrow> 'a job" where
  "db_read E g = tick_act (\<lambda>t w.
     (if srv_fault E t = NoFault then Inr (g (w_db w)) else Inl (Failure 0), w))"

definition repo_begin ::
  "server \<Rightarrow> string \<Rightarrow> string \<Rightarrow> material \<Rightarrow> string \<Rightarrow> int \<Rightarrow> int \<Rightarrow> int \<Rightarrow> int \<Rightarrow> start_outcome job" where
  "repo_begin E d m s ch now expires ms mp =
     db_call E (OpBegin d m s ch now expires ms mp) (begin_registration d m s ch now expires ms mp)"

definition repo_confirm :: "server \<Rightarrow> string \<Rightarrow> int \<Rightarrow> int \<Rightarrow> confirm_outcome job" where
  "repo_confirm E ch now ms = db_call E (OpConfirm ch now ms) (confirm_subscription ch now ms)"

definition repo_cancel :: "server \<Rightarrow> string \<Rightarrow> unit job" where
  "repo_cancel E ch = db_call E (OpCancel ch) (\<lambda>db. Inr ((), cancel_pending ch db))"

definition repo_delete :: "server \<Rightarrow> string \<Rightarrow> int \<Rightarrow> int \<Rightarrow> deletion_outcome job" where
  "repo_delete E m now mr = db_call E (OpDelete m now mr) (delete_subscription m now mr)"

definition repo_delete_if_current :: "server \<Rightarrow> snapshot \<Rightarrow> bool job" where
  "repo_delete_if_current E s =
     db_call E (OpDeleteIfCurrent s) (\<lambda>db. Inr (delete_if_current_snapshot s db))"

definition repo_rate :: "server \<Rightarrow> string \<Rightarrow> int \<Rightarrow> int \<Rightarrow> int \<Rightarrow> bool job" where
  "repo_rate E k now win l =
     db_call E (OpRate k now win l) (\<lambda>db. Inr (consume_rate_limit k now win l db))"

definition repo_global_rate :: "server \<Rightarrow> string \<Rightarrow> int \<Rightarrow> int \<Rightarrow> int \<Rightarrow> bool job" where
  "repo_global_rate E b now win l =
     db_call E (OpGlobalRate b now win l) (\<lambda>db. Inr (consume_global_rate_limit b now win l db))"

definition repo_claim :: "server \<Rightarrow> string \<Rightarrow> string \<Rightarrow> int \<Rightarrow> int \<Rightarrow> bool job" where
  "repo_claim E k e now stale =
     bindP (db_call E (OpClaimInsert k e now) (\<lambda>db. Inr (claim_insert k e now db))) (\<lambda>inserted.
       if inserted then Ret True
       else db_call E (OpReclaim k e now stale) (\<lambda>db. Inr (claim_reclaim k e now stale db)))"

definition repo_mark :: "server \<Rightarrow> snapshot \<Rightarrow> string option \<Rightarrow> int \<Rightarrow> bool job" where
  "repo_mark E s ev now = db_call E (OpMark s ev now) (\<lambda>db. Inr (mark_delivered s ev now db))"

definition repo_release :: "server \<Rightarrow> string \<Rightarrow> string \<Rightarrow> unit job" where
  "repo_release E k e = db_call E (OpRelease k e) (\<lambda>db. Inr ((), release_delivery k e db))"

definition repo_cleanup_subscriptions :: "server \<Rightarrow> int \<Rightarrow> nat \<Rightarrow> int job" where
  "repo_cleanup_subscriptions E cutoff batch =
     bindP (tick_act (\<lambda>t w. (Inr t, w))) (\<lambda>t.
       db_call E (OpCleanupSubs (srv_locked E t) cutoff batch)
         (\<lambda>db. Inr (cleanup_subscriptions (srv_locked E t) cutoff batch db)))"

definition repo_cleanup_deliveries :: "server \<Rightarrow> int \<Rightarrow> unit job" where
  "repo_cleanup_deliveries E cutoff =
     db_call E (OpCleanupDeliveries cutoff) (\<lambda>db. Inr ((), cleanup_deliveries cutoff db))"

section \<open>Reading a request\<close>

definition body_too_large :: exn where
  "body_too_large = Thrown 413 ''Request body is too large.''"

definition length_rejected :: "jsnum \<Rightarrow> bool" where
  "length_rejected n = (case n of Fin q \<Rightarrow> q < 0 \<or> of_nat max_body_bytes < q | _ \<Rightarrow> True)"

text \<open>The read loop: the bytes so far, kept in order, and their number.\<close>

fun read_chunks :: "8 word list list \<Rightarrow> bool \<Rightarrow> nat \<Rightarrow> 8 word list \<Rightarrow> exn + 8 word list" where
  "read_chunks [] broken size_so_far acc = (if broken then Inl (Failure 0) else Inr acc)"
| "read_chunks (c # cs) broken size_so_far acc =
     (let new_size = size_so_far + length c in
      if new_size > max_body_bytes then Inl body_too_large
      else read_chunks cs broken new_size (acc @ c))"

definition read_json :: "server \<Rightarrow> request \<Rightarrow> exn + jsval" where
  "read_json E r =
     sum_bind
       (case req_length r of
          Some text \<Rightarrow> if length_rejected (js_number text) then Inl body_too_large else Inr ()
        | None \<Rightarrow> Inr ())
       (\<lambda>_. sum_bind
         (case req_body r of
            None \<Rightarrow> Inr []
          | Some chunks \<Rightarrow> read_chunks chunks (req_broken r) 0 [])
         (\<lambda>bytes. case srv_json E bytes of
            None \<Rightarrow> Inl (Thrown 400 ''Request body must be valid JSON.'')
          | Some v \<Rightarrow> Inr v))"

end
