(* ===== verification/Push_Handlers.thy ===== *)
theory Push_Handlers
  imports Push_Server
begin

text \<open>
  lib/push-server.ts, second part: the delivery of one notification, the worker pool of
  \<open>mapWithConcurrency\<close> and the four request handlers. \<open>bindP\<close> is the semicolon of an
  \<^verbatim>\<open>async\<close> function, \<open>catchP\<close> its \<^verbatim>\<open>try\<close>/\<^verbatim>\<open>catch\<close>.
\<close>

section \<open>Shared steps\<close>

definition lift_result :: "exn + 'a \<Rightarrow> 'a job" where
  "lift_result r = (case r of Inl e \<Rightarrow> Raise e | Inr a \<Rightarrow> Ret a)"

text \<open>Reading a property of \<open>null\<close> throws a TypeError, which has no status code.\<close>

definition get_prop :: "string \<Rightarrow> jsval \<Rightarrow> jsval job" where
  "get_prop k v = (case js_prop k v of None \<Rightarrow> Raise (Failure 0) | Some x \<Rightarrow> Ret x)"

definition assert_same_origin :: "server \<Rightarrow> request \<Rightarrow> unit job" where
  "assert_same_origin E r =
     (case nonempty (req_origin r) of
        None \<Rightarrow> Raise (Thrown 403 ''Cross-origin push changes are not allowed.'')
      | Some origin \<Rightarrow>
          (case srv_url E (req_url r) of
             None \<Rightarrow> Raise (Failure 0)
           | Some u \<Rightarrow>
               if origin \<noteq> url_origin u
               then Raise (Thrown 403 ''Cross-origin push changes are not allowed.'')
               else Ret ()))"

definition valid_endpoint :: "server \<Rightarrow> jsval \<Rightarrow> bool" where
  "valid_endpoint E v =
     valid_push_endpoint (srv_url E) (srv_ip E) (configured_push_hosts (srv_hosts E)) v"

definition valid_push_generation :: "jsval \<Rightarrow> bool" where
  "valid_push_generation v = (case v of JStr s \<Rightarrow> token_pattern 16 128 s | _ \<Rightarrow> False)"

definition str_of :: "jsval \<Rightarrow> string" where
  "str_of v = (case v of JStr s \<Rightarrow> s | _ \<Rightarrow> [])"

definition consume_budget :: "server \<Rightarrow> string \<Rightarrow> int \<Rightarrow> int \<Rightarrow> bool job" where
  "consume_budget E bucket window limit =
     bindP (read_now E) (\<lambda>now.
     bindP (repo_global_rate E bucket now window limit) (\<lambda>allowed.
       if allowed then Ret True
       else bindP (write_log [(''route'', JStr ''push-budget''), (''status'', js_int 429),
                              (''budgetCategory'', JStr bucket), (''allowed'', JBool False)])
              (\<lambda>_. Ret False)))"

definition cleanup_stale_subscriptions :: "server \<Rightarrow> int job" where
  "cleanup_stale_subscriptions E =
     bindP (read_now E) (\<lambda>now.
     bindP (repo_cleanup_subscriptions E (now - stale_subscription_seconds) stale_cleanup_batch)
       (\<lambda>removed.
         if 0 < removed
         then bindP (write_log [(''route'', JStr ''subscription-cleanup''), (''status'', js_int 200),
                                (''removedCount'', js_int removed)]) (\<lambda>_. Ret removed)
         else Ret removed))"

definition guarded :: "server \<Rightarrow> string \<Rightarrow> response job \<Rightarrow> response job" where
  "guarded E route operation =
     bindP (read_ms E) (\<lambda>started_at.
       catchP
         (bindP operation (\<lambda>response.
          bindP (read_ms E) (\<lambda>t.
          bindP (write_log [(''route'', JStr route), (''status'', js_int (int (resp_status response))),
                            (''durationMs'', js_int (t - started_at))]) (\<lambda>_.
          Ret response))))
         (\<lambda>e. case e of
            Thrown status text \<Rightarrow>
              bindP (read_ms E) (\<lambda>t.
              bindP (write_log [(''route'', JStr route), (''status'', js_int (int status)),
                                (''durationMs'', js_int (t - started_at))]) (\<lambda>_.
              Ret (thrown_response status text)))
          | Failure code \<Rightarrow>
              bindP (read_ms E) (\<lambda>t.
              bindP (write_log [(''route'', JStr route), (''status'', js_int 502),
                                (''result'', JStr ''failed''),
                                (''durationMs'', js_int (t - started_at))]) (\<lambda>_.
              Ret (error_response ''Push gateway operation failed.'' 502)))))"

text \<open>\<^verbatim>\<open>configured()\<close> followed by the early return of its 503.\<close>

definition with_configuration ::
  "server \<Rightarrow> (push_configuration \<Rightarrow> response job) \<Rightarrow> response job" where
  "with_configuration E k =
     (case srv_config E of
        None \<Rightarrow> Ret (error_response ''Web Push is not configured.'' 503)
      | Some c \<Rightarrow> k c)"

section \<open>One device of a Matrix notification\<close>

definition status_code :: "exn \<Rightarrow> int" where
  "status_code e = (case e of Failure code \<Rightarrow> code | Thrown st text \<Rightarrow> 0)"

record resolved_device =
  rd_device :: jsval
  rd_hash :: "string option"
  rd_snapshot :: "snapshot option"

definition own_device :: "jsval \<Rightarrow> bool" where
  "own_device d \<longleftrightarrow> js_opt ''app_id'' d = JStr app_id \<and> valid_push_key (js_opt ''pushkey'' d)"

text \<open>The event id of an event-bearing notification.\<close>

definition event_id_of :: "jsval \<Rightarrow> string option" where
  "event_id_of notification =
     (case js_opt ''event_id'' notification of JStr (c # cs) \<Rightarrow> Some (c # cs) | _ \<Rightarrow> None)"

text \<open>\<^verbatim>\<open>return removed ? "rejected" : "transient"\<close>\<close>

definition gone_or_transient :: "bool \<Rightarrow> device_result" where
  "gone_or_transient removed = (if removed then DRejected else DTransient)"

text \<open>From the outbound budget on: the caller has claimed the delivery.\<close>

definition deliver_claimed ::
  "server \<Rightarrow> string \<Rightarrow> snapshot \<Rightarrow> jsval \<Rightarrow> string \<Rightarrow> int \<Rightarrow> device_result job" where
  "deliver_claimed E key snap notification event timestamp =
     bindP (consume_budget E budget_outbound one_minute_seconds (delivery_limit (srv_limits E)))
       (\<lambda>allowed.
        if \<not> allowed then bindP (repo_release E key event) (\<lambda>_. Ret DTransient)
        else
          catchP
            (bindP (send_notification E (snap_material snap)
                      (generic_notification_payload notification ''matrix'' (Some (snap_key snap))))
               (\<lambda>_. bindP (repo_mark E snap (Some event) timestamp) (\<lambda>marked.
                  if \<not> marked then bindP (repo_release E key event) (\<lambda>_. Ret DTransient)
                  else Ret DSent)))
            (\<lambda>e. let status = status_code e in
               if status = 404 \<or> status = 410
               then bindP (repo_delete_if_current E snap) (\<lambda>removed.
                      if \<not> removed
                      then bindP (repo_release E key event) (\<lambda>_. Ret (gone_or_transient removed))
                      else Ret (gone_or_transient removed))
               else bindP (repo_release E key event) (\<lambda>_. Ret DTransient)))"

definition deliver :: "server \<Rightarrow> jsval \<Rightarrow> resolved_device \<Rightarrow> device_result job" where
  "deliver E notification rd =
     (if \<not> own_device (rd_device rd) then Ret DRejected
      else case (nonempty (rd_hash rd), rd_snapshot rd) of
        (Some key, Some snap) \<Rightarrow>
          if \<not> valid_endpoint E (JStr (mat_endpoint (snap_material snap))) then
            bindP (repo_delete_if_current E snap) (\<lambda>removed. Ret (gone_or_transient removed))
          else (case event_id_of notification of
            None \<Rightarrow> Ret DSuppressed
          | Some event \<Rightarrow>
              bindP (read_now E) (\<lambda>timestamp.
              bindP (repo_rate E key timestamp rate_window_seconds rate_limit) (\<lambda>in_rate.
                if \<not> in_rate then Ret DSuppressed
                else bindP (repo_claim E key event timestamp pending_delivery_timeout_seconds)
                  (\<lambda>claimed.
                    if \<not> claimed then Ret DSuppressed
                    else deliver_claimed E key snap notification event timestamp))))
      | _ \<Rightarrow> Ret DRejected)"

section \<open>mapWithConcurrency\<close>

definition new_cell :: "nat \<Rightarrow> nat job" where
  "new_cell n = tick_act (\<lambda>t w.
     (Inr (length (w_cells w)),
      w\<lparr>w_cells := w_cells w @ [\<lparr>cell_cursor = 0, cell_results = replicate n None\<rparr>]\<rparr>))"

text \<open>\<^verbatim>\<open>while (cursor < items.length) { const index = cursor++; ...\<close>\<close>

definition take_index :: "nat \<Rightarrow> nat \<Rightarrow> nat option job" where
  "take_index c n = tick_act (\<lambda>t w.
     (let cl = w_cells w ! c in
      if cell_cursor cl < n
      then (Inr (Some (cell_cursor cl)),
            w\<lparr>w_cells := (w_cells w)[c := cl\<lparr>cell_cursor := Suc (cell_cursor cl)\<rparr>]\<rparr>)
      else (Inr None, w)))"

definition store_result :: "nat \<Rightarrow> nat \<Rightarrow> device_result \<Rightarrow> unit job" where
  "store_result c i r = tick_act (\<lambda>t w.
     (Inr (), w\<lparr>w_cells := (w_cells w)[c := (w_cells w ! c)\<lparr>cell_results :=
                   (cell_results (w_cells w ! c))[i := Some r]\<rparr>]\<rparr>))"

definition read_results :: "nat \<Rightarrow> device_result option list job" where
  "read_results c = tick_act (\<lambda>t w. (Inr (cell_results (w_cells w ! c)), w))"

text \<open>
  One worker. The fuel counts its iterations; every iteration moves the shared cursor, so
  \<open>Suc (length items)\<close> is more than any worker can use.
\<close>

primrec worker :: "nat \<Rightarrow> nat \<Rightarrow> ('i \<Rightarrow> device_result job) \<Rightarrow> 'i list \<Rightarrow> unit job" where
  "worker 0 c mapper items = Ret ()"
| "worker (Suc fuel) c mapper items =
     bindP (take_index c (length items)) (\<lambda>index.
       case index of
         None \<Rightarrow> Ret ()
       | Some i \<Rightarrow>
           bindP (mapper (items ! i)) (\<lambda>r.
           bindP (store_result c i r) (\<lambda>_. worker fuel c mapper items)))"

definition map_with_concurrency ::
  "server \<Rightarrow> 'i list \<Rightarrow> nat \<Rightarrow> ('i \<Rightarrow> device_result job) \<Rightarrow> device_result option list job" where
  "map_with_concurrency E items concurrency mapper =
     bindP (new_cell (length items)) (\<lambda>c.
     bindP (parP (\<lambda>w. srv_left E (w_tick w))
              (replicate (min concurrency (length items))
                 (worker (Suc (length items)) c mapper items)))
       (\<lambda>_. read_results c))"

section \<open>GET: the VAPID key\<close>

definition get_vapid_key :: "server \<Rightarrow> response job" where
  "get_vapid_key E =
     guarded E ''vapid-key''
       (with_configuration E (\<lambda>c.
          Ret (json_response (JObj [(''publicKey'', JStr (vapid_public c))]) 200 [])))"

section \<open>Changing a subscription\<close>

definition confirm_registration :: "server \<Rightarrow> request \<Rightarrow> response job" where
  "confirm_registration E r =
     bindP (lift_result (read_json E r)) (\<lambda>body.
     bindP (get_prop ''challenge'' body) (\<lambda>challenge.
       if \<not> valid_push_key challenge
       then Ret (error_response ''Invalid push confirmation.'' 400)
       else
         bindP (read_now E) (\<lambda>now.
         bindP (repo_confirm E (srv_hash E (str_of challenge)) now (max_subscriptions (srv_limits E)))
           (\<lambda>outcome.
             case outcome of
               InvalidChallenge \<Rightarrow>
                 Ret (error_response ''Push confirmation expired or was not recognized.'' 410)
             | ExpiredChallenge \<Rightarrow>
                 Ret (error_response ''Push confirmation expired or was not recognized.'' 410)
             | RevokedConfirm \<Rightarrow>
                 Ret (error_response ''Push confirmation expired or was not recognized.'' 410)
             | ConfirmCapacity \<Rightarrow>
                 Ret (retry_response ''Push subscription capacity is temporarily full.'')
             | _ \<Rightarrow> Ret (flag_response ''registered'' 200)))))"

definition remove_subscription :: "server \<Rightarrow> request \<Rightarrow> response job" where
  "remove_subscription E r =
     bindP (lift_result (read_json E r)) (\<lambda>body.
     bindP (get_prop ''managementKey'' body) (\<lambda>key.
       if \<not> valid_push_key key
       then Ret (error_response ''Invalid push management key.'' 400)
       else
         bindP (consume_budget E budget_mutations ten_minutes_seconds
                  (registration_limit (srv_limits E))) (\<lambda>allowed.
           if \<not> allowed then Ret (error_response ''Push subscription rate limit exceeded.'' 429)
           else
             bindP (read_now E) (\<lambda>now.
             bindP (repo_delete E (srv_hash E (str_of key)) now (max_revoked (srv_limits E)))
               (\<lambda>outcome.
                 case outcome of
                   DeletionCapacity \<Rightarrow>
                     Ret (retry_response ''Push revocation capacity is temporarily full.'')
                 | NotFound \<Rightarrow> Ret (error_response ''Push subscription was not found.'' 404)
                 | Removed \<Rightarrow> Ret (flag_response ''removed'' 200))))))"

text \<open>The fields of a registration body, in the order the code reads them.\<close>

record registration =
  reg_delivery :: jsval
  reg_management :: jsval
  reg_generation :: jsval
  reg_endpoint :: jsval
  reg_p256dh :: jsval
  reg_auth :: jsval

definition registration_of :: "jsval \<Rightarrow> exn + registration" where
  "registration_of body =
     (case js_prop ''subscription'' body of
        None \<Rightarrow> Inl (Failure 0)
      | Some sub \<Rightarrow> Inr
          \<lparr>reg_delivery = js_opt ''deliveryKey'' body,
           reg_management = js_opt ''managementKey'' body,
           reg_generation = js_opt ''generation'' body,
           reg_endpoint = js_opt ''endpoint'' sub,
           reg_p256dh = js_opt ''p256dh'' (js_opt ''keys'' sub),
           reg_auth = js_opt ''auth'' (js_opt ''keys'' sub)\<rparr>)"

definition registration_rejected :: "server \<Rightarrow> registration \<Rightarrow> string option" where
  "registration_rejected E g =
     (if \<not> valid_push_key (reg_delivery g) \<or> \<not> valid_push_key (reg_management g)
         \<or> reg_delivery g = reg_management g \<or> \<not> valid_endpoint E (reg_endpoint g)
         \<or> \<not> is_str (reg_p256dh g) \<or> \<not> is_str (reg_auth g)
      then Some ''Invalid push subscription.''
      else if reg_generation g \<noteq> JUndef \<and> \<not> valid_push_generation (reg_generation g)
      then Some ''Invalid push subscription.''
      else if length (str_of (reg_p256dh g)) > 256 \<or> length (str_of (reg_auth g)) > 128
      then Some ''Invalid push subscription keys.''
      else None)"

definition reg_material :: "registration \<Rightarrow> material" where
  "reg_material g =
     \<lparr>mat_endpoint = str_of (reg_endpoint g), mat_p256dh = str_of (reg_p256dh g),
      mat_auth = str_of (reg_auth g)\<rparr>"

definition challenge_payload :: "string \<Rightarrow> jsval \<Rightarrow> jsval" where
  "challenge_payload challenge generation =
     JObj ([(''kind'', JStr ''subscription-challenge''), (''challenge'', JStr challenge)]
       @ (if generation = JUndef then [] else [(''generation'', generation)]))"

text \<open>After a challenge is required: spend outbound capacity and send it, or cancel.\<close>

definition send_challenge :: "server \<Rightarrow> registration \<Rightarrow> string \<Rightarrow> response job" where
  "send_challenge E g challenge =
     (let ch = srv_hash E challenge in
      bindP (consume_budget E budget_outbound one_minute_seconds (delivery_limit (srv_limits E)))
        (\<lambda>allowed.
          if \<not> allowed then
            bindP (repo_cancel E ch) (\<lambda>_.
              Ret (error_response ''Push confirmation capacity is temporarily busy.'' 429))
          else
            catchP
              (bindP (send_notification E (reg_material g)
                        (challenge_payload challenge (reg_generation g)))
                 (\<lambda>_. Ret (flag_response ''pending'' 202)))
              (\<lambda>_. bindP (repo_cancel E ch) (\<lambda>_.
                 Ret (error_response ''The browser push endpoint could not be confirmed.'' 502)))))"

definition start_registration :: "server \<Rightarrow> registration \<Rightarrow> response job" where
  "start_registration E g =
     bindP (consume_budget E budget_mutations ten_minutes_seconds (registration_limit (srv_limits E)))
       (\<lambda>allowed.
         if \<not> allowed then Ret (error_response ''Push subscription rate limit exceeded.'' 429)
         else
           bindP (cleanup_stale_subscriptions E) (\<lambda>_.
           bindP (random_capability E) (\<lambda>challenge.
           bindP (read_now E) (\<lambda>now.
           bindP (read_now E) (\<lambda>later.
           bindP (repo_begin E (srv_hash E (str_of (reg_delivery g)))
                    (srv_hash E (str_of (reg_management g))) (reg_material g)
                    (srv_hash E challenge) now (later + registration_challenge_seconds)
                    (max_subscriptions (srv_limits E)) (registration_limit (srv_limits E)))
             (\<lambda>outcome.
               case outcome of
                 Active \<Rightarrow> Ret (flag_response ''registered'' 200)
               | ManagementConflict \<Rightarrow>
                   Ret (error_response
                     ''The delivery identifier is already managed by another browser capability.'' 409)
               | RevokedStart \<Rightarrow> Ret (error_response ''This push registration was revoked.'' 410)
               | CapacityExceeded \<Rightarrow>
                   Ret (retry_response ''Push subscription capacity is temporarily full.'')
               | PendingCapacityExceeded \<Rightarrow>
                   Ret (retry_response ''Push subscription capacity is temporarily full.'')
               | ChallengeRequired \<Rightarrow> send_challenge E g challenge))))))"

definition begin_registration_request :: "server \<Rightarrow> request \<Rightarrow> response job" where
  "begin_registration_request E r =
     bindP (lift_result (read_json E r)) (\<lambda>body.
     bindP (lift_result (registration_of body)) (\<lambda>g.
       case registration_rejected E g of
         Some text \<Rightarrow> Ret (error_response text 400)
       | None \<Rightarrow> start_registration E g))"

definition change_subscription :: "server \<Rightarrow> request \<Rightarrow> response job" where
  "change_subscription E r =
     guarded E ''subscriptions''
       (with_configuration E (\<lambda>_.
          bindP (assert_same_origin E r) (\<lambda>_.
            if req_method r = ''PATCH'' then confirm_registration E r
            else if req_method r = ''DELETE'' then remove_subscription E r
            else begin_registration_request E r)))"

section \<open>A test notification\<close>

definition test_changed :: "string \<Rightarrow> response" where
  "test_changed what = retry_response (''The push subscription changed while it was being '' @ what)"

definition test_event :: "int \<Rightarrow> jsval" where
  "test_event timestamp =
     JObj [(''event_id'', JStr (''test-'' @ int_digits timestamp)),
           (''counts'', JObj [(''unread'', js_int 0)])]"

definition send_test :: "server \<Rightarrow> snapshot \<Rightarrow> int \<Rightarrow> response job" where
  "send_test E snap timestamp =
     catchP
       (bindP (send_notification E (snap_material snap)
                 (generic_notification_payload (test_event timestamp) ''test'' (Some (snap_key snap))))
          (\<lambda>_. bindP (repo_mark E snap None timestamp) (\<lambda>marked.
             if \<not> marked then Ret (test_changed ''tested.'')
             else Ret (flag_response ''sent'' 200))))
       (\<lambda>e. let status = status_code e in
          if status = 404 \<or> status = 410
          then bindP (repo_delete_if_current E snap) (\<lambda>removed.
                 if \<not> removed then Ret (test_changed ''tested.'')
                 else Ret (error_response ''Push subscription expired.'' 410))
          else Ret (error_response ''The test notification could not be sent.'' 502))"

definition test_checked :: "server \<Rightarrow> snapshot \<Rightarrow> response job" where
  "test_checked E snap =
     bindP (consume_budget E budget_tests one_minute_seconds (test_limit (srv_limits E))) (\<lambda>tests.
       if \<not> tests then Ret (error_response ''Push test rate limit exceeded.'' 429)
       else
         bindP (read_now E) (\<lambda>timestamp.
         bindP (repo_rate E (snap_key snap) timestamp rate_window_seconds rate_limit) (\<lambda>in_rate.
           if \<not> in_rate then Ret (error_response ''Push rate limit exceeded.'' 429)
           else
             bindP (consume_budget E budget_outbound one_minute_seconds
                      (delivery_limit (srv_limits E))) (\<lambda>outbound.
               if \<not> outbound then Ret (error_response ''Push delivery rate limit exceeded.'' 429)
               else send_test E snap timestamp))))"

definition test_notification :: "server \<Rightarrow> request \<Rightarrow> response job" where
  "test_notification E r =
     guarded E ''test''
       (with_configuration E (\<lambda>_.
          bindP (assert_same_origin E r) (\<lambda>_.
          bindP (lift_result (read_json E r)) (\<lambda>body.
          bindP (get_prop ''managementKey'' body) (\<lambda>key.
            if \<not> valid_push_key key then Ret (error_response ''Invalid push management key.'' 400)
            else
              bindP (db_read E (get_managed (srv_hash E (str_of key)))) (\<lambda>subscription.
                case subscription of
                  None \<Rightarrow> Ret (error_response ''Push subscription was not found.'' 404)
                | Some snap \<Rightarrow>
                    if \<not> valid_endpoint E (JStr (mat_endpoint (snap_material snap))) then
                      bindP (repo_delete_if_current E snap) (\<lambda>removed.
                        if \<not> removed then Ret (test_changed ''checked.'')
                        else Ret (error_response ''Push subscription is no longer valid.'' 410))
                    else test_checked E snap))))))"

section \<open>The Matrix push gateway\<close>

definition device_hash :: "server \<Rightarrow> jsval \<Rightarrow> string option" where
  "device_hash E d =
     (if own_device d then Some (srv_hash E (str_of (js_opt ''pushkey'' d))) else None)"

definition unique_hashes :: "string option list \<Rightarrow> string list" where
  "unique_hashes hashes = js_unique (map the (filter (\<lambda>h. h \<noteq> None) hashes))"

text \<open>\<^verbatim>\<open>new Map(...)\<close>: the last entry of a key wins.\<close>

definition snapshot_by_hash :: "snapshot list \<Rightarrow> string \<Rightarrow> snapshot option" where
  "snapshot_by_hash snaps = map_of (rev (map (\<lambda>s. (snap_key s, s)) snaps))"

definition resolve_device :: "server \<Rightarrow> snapshot list \<Rightarrow> jsval \<Rightarrow> resolved_device" where
  "resolve_device E snaps d =
     \<lparr>rd_device = d, rd_hash = device_hash E d,
      rd_snapshot = (case device_hash E d of None \<Rightarrow> None | Some h \<Rightarrow> snapshot_by_hash snaps h)\<rparr>"

definition result_count :: "device_result \<Rightarrow> device_result option list \<Rightarrow> nat" where
  "result_count r results = length (filter (\<lambda>x. x = Some r) results)"

definition rejected_keys :: "jsval list \<Rightarrow> device_result option list \<Rightarrow> jsval list" where
  "rejected_keys devices results =
     map (\<lambda>(d, r). js_opt ''pushkey'' d)
       (filter (\<lambda>(d, r). r = Some DRejected \<and> is_str (js_opt ''pushkey'' d)) (zip devices results))"

definition summarize ::
  "bool \<Rightarrow> jsval list \<Rightarrow> device_result option list \<Rightarrow> jsval list job" where
  "summarize event_bearing devices results =
     bindP (write_log
       [(''route'', JStr ''matrix-notify-summary''),
        (''notificationKind'', JStr (if event_bearing then ''event'' else ''counts-only'')),
        (''sent'', js_int (int (result_count DSent results))),
        (''suppressed'', js_int (int (result_count DSuppressed results))),
        (''rejected'', js_int (int (result_count DRejected results))),
        (''transient'', js_int (int (result_count DTransient results))),
        (''deviceCount'', js_int (int (length devices)))])
       (\<lambda>_. Ret (rejected_keys devices results))"

definition rejected_response :: "jsval list \<Rightarrow> response" where
  "rejected_response keys = json_response (JObj [(''rejected'', js_array keys)]) 200 []"

definition matrix_error :: "string \<Rightarrow> string \<Rightarrow> nat \<Rightarrow> (string \<times> string) list \<Rightarrow> response" where
  "matrix_error errcode text status additional =
     json_response (JObj [(''errcode'', JStr errcode), (''error'', JStr text)]) status additional"

definition bad_notification :: "jsval \<Rightarrow> bool" where
  "bad_notification notification \<longleftrightarrow>
     (let devices = js_opt ''devices'' notification in
      \<not> truthy notification \<or> \<not> is_array devices
      \<or> length (array_items devices) > max_devices_per_request
      \<or> list_ex (\<lambda>d. \<not> is_object d) (array_items devices))"

definition count_only_result :: "resolved_device \<Rightarrow> device_result" where
  "count_only_result rd =
     (if own_device (rd_device rd) \<and> nonempty (rd_hash rd) \<noteq> None \<and> rd_snapshot rd \<noteq> None
      then DSuppressed else DRejected)"

text \<open>\<^verbatim>\<open>p.catch(() => undefined)\<close>\<close>

definition ignoring :: "'a job \<Rightarrow> unit job" where
  "ignoring p = catchP (bindP p (\<lambda>_. Ret ())) (\<lambda>_. Ret ())"

text \<open>From the notify budget on: the deliveries, the housekeeping and the answer.\<close>

definition notify_devices ::
  "server \<Rightarrow> jsval \<Rightarrow> jsval list \<Rightarrow> resolved_device list \<Rightarrow> response job" where
  "notify_devices E notification devices resolved =
     bindP (consume_budget E budget_notify one_minute_seconds (notify_limit (srv_limits E)))
       (\<lambda>allowed.
         if \<not> allowed then
           Ret (matrix_error ''M_UNKNOWN'' ''Push gateway is temporarily busy.'' 503 retry_after)
         else
           bindP (map_with_concurrency E resolved delivery_concurrency (deliver E notification))
             (\<lambda>results.
           bindP (summarize True devices results) (\<lambda>rejected.
           bindP (read_now E) (\<lambda>now.
           bindP (ignoring (repo_cleanup_deliveries E (now - delivery_retention_seconds))) (\<lambda>_.
           bindP (ignoring (cleanup_stale_subscriptions E)) (\<lambda>_.
             if 0 < result_count DTransient results then
               Ret (matrix_error ''M_UNKNOWN'' ''Some push deliveries failed temporarily.'' 503
                      retry_after)
             else Ret (rejected_response rejected)))))))"

definition notify_resolved ::
  "server \<Rightarrow> jsval \<Rightarrow> jsval list \<Rightarrow> snapshot list \<Rightarrow> response job" where
  "notify_resolved E notification devices snaps =
     (let resolved = map (resolve_device E snaps) devices in
      if event_id_of notification = None then
        bindP (summarize False devices (map (\<lambda>rd. Some (count_only_result rd)) resolved))
          (\<lambda>rejected. Ret (rejected_response rejected))
      else
        with_configuration E (\<lambda>_.
          if snaps = [] then
            bindP (summarize True devices (map (\<lambda>_. Some DRejected) resolved))
              (\<lambda>rejected. Ret (rejected_response rejected))
          else notify_devices E notification devices resolved))"

text \<open>\<open>getSubscriptions\<close> answers an empty list of hashes without asking the database.\<close>

definition repo_get_subscriptions :: "server \<Rightarrow> string list \<Rightarrow> snapshot list job" where
  "repo_get_subscriptions E ks =
     (if ks = [] then Ret [] else db_read E (get_subscriptions ks))"

definition notify :: "server \<Rightarrow> request \<Rightarrow> response job" where
  "notify E r =
     guarded E ''matrix-notify''
       (bindP (lift_result (read_json E r)) (\<lambda>body.
        bindP (get_prop ''notification'' body) (\<lambda>notification.
          if bad_notification notification then
            Ret (matrix_error ''M_BAD_JSON'' ''Invalid Matrix notification.'' 400 [])
          else
            (let devices = array_items (js_opt ''devices'' notification);
                 hashes = unique_hashes (map (device_hash E) devices)
             in bindP (repo_get_subscriptions E hashes) (\<lambda>snaps.
                  notify_resolved E notification devices snaps)))))"

section \<open>Requests\<close>

datatype route = VapidKey | Subscriptions request | TestPush request | MatrixNotify request

fun handle :: "server \<Rightarrow> route \<Rightarrow> response job" where
  "handle E VapidKey = get_vapid_key E"
| "handle E (Subscriptions r) = change_subscription E r"
| "handle E (TestPush r) = test_notification E r"
| "handle E (MatrixNotify r) = notify E r"

end
