(* ===== verification/Push_Contract.thy ===== *)
theory Push_Contract
  imports Push_Handlers
begin

text \<open>
  The contract between the handlers and the world. \<open>op_ok\<close>, \<open>message_ok\<close> and \<open>log_ok\<close> say what
  calls, messages and log entries the handlers can produce at all; the locale \<open>server_actions\<close>
  is a relation on worlds that every such action respects, and its lemma \<open>handle_acts\<close> walks
  through the handlers once. Each global property of the gateway is an interpretation of it.
\<close>

section \<open>What the handlers can do\<close>

definition clock_of :: "server \<Rightarrow> int \<Rightarrow> bool" where
  "clock_of E t \<longleftrightarrow> (\<exists>n. t = srv_now E n)"

text \<open>The database calls: their limits and windows are the constants of the code.\<close>

fun op_ok :: "server \<Rightarrow> push_op \<Rightarrow> bool" where
  "op_ok E (OpBegin d m s ch now expires ms mp) \<longleftrightarrow>
     clock_of E now \<and> clock_of E (expires - 600) \<and> ms = max_subscriptions (srv_limits E) \<and>
     mp = registration_limit (srv_limits E) \<and> valid_endpoint E (JStr (mat_endpoint s)) \<and>
     length (mat_p256dh s) \<le> 256 \<and> length (mat_auth s) \<le> 128"
| "op_ok E (OpConfirm ch now ms) \<longleftrightarrow> clock_of E now \<and> ms = max_subscriptions (srv_limits E)"
| "op_ok E (OpCancel ch) \<longleftrightarrow> True"
| "op_ok E (OpDelete m now mr) \<longleftrightarrow> clock_of E now \<and> mr = max_revoked (srv_limits E)"
| "op_ok E (OpDeleteLegacy m now) \<longleftrightarrow> False"
| "op_ok E (OpDeleteIfCurrent s) \<longleftrightarrow> True"
| "op_ok E (OpRate k now win l) \<longleftrightarrow> clock_of E now \<and> win = 60 \<and> l = 120"
| "op_ok E (OpGlobalRate b now win l) \<longleftrightarrow>
     clock_of E now \<and>
     (b = budget_mutations \<and> win = 600 \<and> l = registration_limit (srv_limits E) \<or>
      b = budget_tests \<and> win = 60 \<and> l = test_limit (srv_limits E) \<or>
      b = budget_notify \<and> win = 60 \<and> l = notify_limit (srv_limits E) \<or>
      b = budget_outbound \<and> win = 60 \<and> l = delivery_limit (srv_limits E))"
| "op_ok E (OpClaimInsert k e now) \<longleftrightarrow> clock_of E now"
| "op_ok E (OpReclaim k e now stale) \<longleftrightarrow> clock_of E now \<and> stale = 120"
| "op_ok E (OpMark s ev now) \<longleftrightarrow> clock_of E now"
| "op_ok E (OpRelease k e) \<longleftrightarrow> True"
| "op_ok E (OpCleanupSubs locked cutoff batch) \<longleftrightarrow> clock_of E (cutoff + 2592000) \<and> batch = 500"
| "op_ok E (OpCleanupDeliveries cutoff) \<longleftrightarrow> clock_of E (cutoff + 604800)"

text \<open>
  The messages: to an endpoint the policy accepts, with a payload of these fields only; the
  strings a homeserver supplies travel only as the room and event identifiers.
\<close>

definition payload_fields :: "string list" where
  "payload_fields =
     [''kind'', ''owner'', ''roomId'', ''eventId'', ''unread'', ''challenge'', ''generation'']"

definition payload_ok :: "jsval \<Rightarrow> bool" where
  "payload_ok v =
     (case v of JObj ps \<Rightarrow> list_all (\<lambda>(k, x). k \<in> set payload_fields) ps | _ \<Rightarrow> False)"

definition message_ok :: "server \<Rightarrow> message \<Rightarrow> bool" where
  "message_ok E m \<longleftrightarrow>
     valid_endpoint E (JStr (mat_endpoint (msg_target m))) \<and> payload_ok (msg_payload m)"

text \<open>The log: numbers, flags, and words of a fixed vocabulary.\<close>

definition log_words :: "string list" where
  "log_words =
     [''push-budget'', ''subscription-cleanup'', ''matrix-notify-summary'', ''event'', ''counts-only'',
      ''vapid-key'', ''subscriptions'', ''test'', ''matrix-notify'', ''failed'',
      ''subscription-mutations'', ''test-sends'', ''outbound-deliveries'']"

definition log_value_ok :: "jsval \<Rightarrow> bool" where
  "log_value_ok v =
     (case v of JNum n \<Rightarrow> True | JBool b \<Rightarrow> True | JStr s \<Rightarrow> s \<in> set log_words | _ \<Rightarrow> False)"

definition log_ok :: "jsval \<Rightarrow> bool" where
  "log_ok e = (case e of JObj ps \<Rightarrow> list_all (\<lambda>(k, v). log_value_ok v) ps | _ \<Rightarrow> False)"

lemma log_value_simps [simp]:
  "log_value_ok (js_int i)" "log_value_ok (JBool b)"
  "log_value_ok (JStr s) \<longleftrightarrow> s \<in> set log_words"
  by (simp_all add: log_value_ok_def js_int_def)

section \<open>The contract\<close>

text \<open>One committed call of the repository.\<close>

definition commit_op :: "push_op \<Rightarrow> world \<Rightarrow> world" where
  "commit_op op w = w\<lparr>w_db := apply_op op (w_db w), w_trace := w_trace w @ [op]\<rparr>"

definition post_message :: "message \<Rightarrow> world \<Rightarrow> world" where
  "post_message m w = w\<lparr>w_out := w_out w @ [m]\<rparr>"

definition append_log :: "jsval \<Rightarrow> world \<Rightarrow> world" where
  "append_log e w = w\<lparr>w_log := w_log w @ [e]\<rparr>"

definition set_cells :: "cell list \<Rightarrow> world \<Rightarrow> world" where
  "set_cells cs w = w\<lparr>w_cells := cs\<rparr>"

definition set_tick :: "nat \<Rightarrow> world \<Rightarrow> world" where
  "set_tick n w = w\<lparr>w_tick := n\<rparr>"

lemma generic_payload_ok: "payload_ok (generic_notification_payload n kind ow)"
  by (auto simp: payload_ok_def generic_notification_payload_def payload_fields_def
      split: option.split list.split)

lemma challenge_payload_ok: "payload_ok (challenge_payload c g)"
  by (simp add: payload_ok_def challenge_payload_def payload_fields_def)

lemma not_rejected:
  assumes "registration_rejected E g = None"
  shows "valid_endpoint E (reg_endpoint g)" and "valid_endpoint E (JStr (mat_endpoint (reg_material g)))"
    and "length (mat_p256dh (reg_material g)) \<le> 256" and "length (mat_auth (reg_material g)) \<le> 128"
    and "valid_push_key (reg_delivery g)" and "valid_push_key (reg_management g)"
    and "reg_delivery g \<noteq> reg_management g"
proof -
  show v: "valid_endpoint E (reg_endpoint g)"
    using assms by (auto simp: registration_rejected_def split: if_splits)
  obtain s where "reg_endpoint g = JStr s"
    using v by (auto simp: valid_endpoint_def elim: valid_push_endpointE)
  then show "valid_endpoint E (JStr (mat_endpoint (reg_material g)))"
    using v by (simp add: reg_material_def str_of_def)
qed (use assms in \<open>auto simp: registration_rejected_def reg_material_def split: if_splits\<close>)

text \<open>Everything a handler does apart from contacting a push service.\<close>

locale server_base =
  fixes E :: server and R :: "world \<Rightarrow> world \<Rightarrow> bool"
  assumes tick_R: "R w (set_tick n w)"
    and log_R: "log_ok e \<Longrightarrow> R w (append_log e (set_tick n w))"
    and op_R: "op_ok E op \<Longrightarrow> R w (commit_op op (set_tick n w))"
    and cells_R: "R w (set_cells cs (set_tick n w))"
begin


lemma tick_act_acts [intro]:
  "(\<And>w. R w (snd (f (w_tick w) (set_tick (Suc (w_tick w)) w)))) \<Longrightarrow> acts_in R (tick_act f)"
  by (simp add: tick_act_def set_tick_def)

lemma pure_acts: "acts_in R (tick_act (\<lambda>t w. (g t w, w)))" for g :: "nat \<Rightarrow> world \<Rightarrow> exn + ('a)"
  using tick_R by (intro tick_act_acts) simp

lemma read_now_acts [intro, simp]: "acts_in R (read_now E)"
  unfolding read_now_def by (rule pure_acts)

lemma read_ms_acts [intro, simp]: "acts_in R (read_ms E)"
  unfolding read_ms_def by (rule pure_acts)

lemma random_acts [intro, simp]: "acts_in R (random_capability E)"
  unfolding random_capability_def by (rule pure_acts)

lemma db_read_acts [intro, simp]: "acts_in R (db_read E g)"
  unfolding db_read_def by (rule pure_acts)

lemma write_log_acts [intro]: "log_ok (JObj e) \<Longrightarrow> acts_in R (write_log e)"
  unfolding write_log_def using log_R [of "JObj e"]
  by (intro tick_act_acts) (simp add: append_log_def)

lemma db_call_acts:
  assumes "op_ok E op" and "\<And>db. committed db (g db) = apply_op op db"
  shows "acts_in R (db_call E op g)"
  unfolding db_call_def Let_def using op_R [OF assms(1)] tick_R
  by (intro tick_act_acts)
    (auto simp: assms(2) commit_op_def set_tick_def split: db_fault.split)

lemma committed_Inr [simp]: "committed db (Inr r) = snd r"
  by (cases r) (simp add: committed_def)

lemma repo_acts:
  "op_ok E (OpBegin d m s ch now expires ms mp) \<Longrightarrow> acts_in R (repo_begin E d m s ch now expires ms mp)"
  "op_ok E (OpConfirm ch now ms) \<Longrightarrow> acts_in R (repo_confirm E ch now ms)"
  "acts_in R (repo_cancel E ch)"
  "op_ok E (OpDelete m now mr) \<Longrightarrow> acts_in R (repo_delete E m now mr)"
  "acts_in R (repo_delete_if_current E sn)"
  "op_ok E (OpRate k now win l) \<Longrightarrow> acts_in R (repo_rate E k now win l)"
  "op_ok E (OpGlobalRate b now win l) \<Longrightarrow> acts_in R (repo_global_rate E b now win l)"
  "op_ok E (OpMark sn ev now) \<Longrightarrow> acts_in R (repo_mark E sn ev now)"
  "acts_in R (repo_release E k e)"
  "op_ok E (OpCleanupDeliveries cutoff) \<Longrightarrow> acts_in R (repo_cleanup_deliveries E cutoff)"
  unfolding repo_begin_def repo_confirm_def repo_cancel_def repo_delete_def
    repo_delete_if_current_def repo_rate_def repo_global_rate_def repo_mark_def repo_release_def
    repo_cleanup_deliveries_def
  by (rule db_call_acts; simp)+

lemma claim_acts: "clock_of E now \<Longrightarrow> acts_in R (repo_claim E k e now 120)"
  unfolding repo_claim_def by (intro acts_in_bindP) (auto intro: db_call_acts)

lemma cleanup_subs_acts:
  assumes "clock_of E (cutoff + 2592000)"
  shows "acts_in R (repo_cleanup_subscriptions E cutoff 500)"
  unfolding repo_cleanup_subscriptions_def
  using assms by (intro acts_in_bindP pure_acts db_call_acts) simp_all

text \<open>A clock reading is a value of the clock.\<close>

lemma after_now:
  assumes "\<And>t. clock_of E t \<Longrightarrow> acts_in R (k t)"
  shows "acts_in R (bindP (read_now E) k)"
  using assms tick_R
  by (simp add: read_now_def tick_act_def atom_def map_prod_def case_prod_beta clock_of_def set_tick_def)
    blast

lemma consume_budget_acts:
  assumes "\<And>t. clock_of E t \<Longrightarrow> op_ok E (OpGlobalRate b t win l)" and "b \<in> set log_words"
  shows "acts_in R (consume_budget E b win l)"
  unfolding consume_budget_def
  using assms
  by (intro after_now acts_in_bindP repo_acts)
    (auto intro!: acts_in_bindP write_log_acts simp: log_ok_def log_words_def)

lemma outbound_acts: "acts_in R (consume_budget E budget_outbound one_minute_seconds (delivery_limit (srv_limits E)))"
  by (rule consume_budget_acts)
    (simp_all add: one_minute_seconds_def budget_outbound_def log_words_def)

lemma mutations_acts:
  "acts_in R (consume_budget E budget_mutations ten_minutes_seconds (registration_limit (srv_limits E)))"
  by (rule consume_budget_acts)
    (simp_all add: ten_minutes_seconds_def budget_mutations_def log_words_def)

lemma tests_acts: "acts_in R (consume_budget E budget_tests one_minute_seconds (test_limit (srv_limits E)))"
  by (rule consume_budget_acts) (simp_all add: one_minute_seconds_def budget_tests_def log_words_def)

lemma notify_budget_acts:
  "acts_in R (consume_budget E budget_notify one_minute_seconds (notify_limit (srv_limits E)))"
  by (rule consume_budget_acts) (simp_all add: one_minute_seconds_def budget_notify_def log_words_def)

lemma cleanup_stale_acts: "acts_in R (cleanup_stale_subscriptions E)"
  unfolding cleanup_stale_subscriptions_def stale_subscription_seconds_def stale_cleanup_batch_def
  by (intro after_now acts_in_bindP cleanup_subs_acts)
    (auto intro!: acts_in_bindP write_log_acts simp: log_ok_def log_words_def)

lemma guarded_acts:
  assumes "route \<in> set log_words" and "acts_in R p"
  shows "acts_in R (guarded E route p)"
  unfolding guarded_def using assms
  by (intro acts_in_bindP acts_in_catchP)
    (auto intro!: acts_in_bindP write_log_acts simp: log_ok_def log_words_def split: exn.split)

lemma release_acts: "acts_in R (bindP (repo_release E k e) (\<lambda>_. Ret x))"
  by (intro acts_in_bindP repo_acts) simp

lemma cells_acts:
  "acts_in R (new_cell n)" "acts_in R (take_index c n)" "acts_in R (store_result c i r)"
  "acts_in R (read_results c)"
  unfolding new_cell_def take_index_def store_result_def read_results_def Let_def
  using tick_R cells_R by (auto intro!: tick_act_acts simp: set_cells_def)

lemma worker_acts: "(\<And>x. acts_in R (mapper x)) \<Longrightarrow> acts_in R (worker n c mapper items)"
  by (induction n) (auto intro!: acts_in_bindP cells_acts split: option.split)

lemma map_with_concurrency_acts:
  "(\<And>x. acts_in R (mapper x)) \<Longrightarrow> acts_in R (map_with_concurrency E items k mapper)"
  unfolding map_with_concurrency_def
  by (intro acts_in_bindP acts_in_parP cells_acts) (auto intro: worker_acts simp del: worker.simps)

lemma lift_acts [simp]: "acts_in R (lift_result r)"
  by (cases r) (simp_all add: lift_result_def)

lemma get_prop_acts [simp]: "acts_in R (get_prop k v)"
  by (simp add: get_prop_def split: option.split)

lemma origin_acts [simp]: "acts_in R (assert_same_origin E r)"
  by (simp add: assert_same_origin_def split: option.split)

lemma configuration_acts: "(\<And>c. acts_in R (k c)) \<Longrightarrow> acts_in R (with_configuration E k)"
  by (simp add: with_configuration_def split: option.split)

lemma confirm_registration_acts: "acts_in R (confirm_registration E r)"
  unfolding confirm_registration_def
  by (auto intro!: acts_in_bindP after_now repo_acts split: confirm_outcome.split)

lemma remove_subscription_acts: "acts_in R (remove_subscription E r)"
  unfolding remove_subscription_def
  by (auto intro!: acts_in_bindP mutations_acts after_now repo_acts split: deletion_outcome.split)

lemma summarize_acts: "acts_in R (summarize b ds rs)"
  unfolding summarize_def
  by (intro acts_in_bindP write_log_acts) (simp_all add: log_ok_def log_words_def)

lemma ignoring_acts: "acts_in R p \<Longrightarrow> acts_in R (ignoring p)"
  unfolding ignoring_def by (intro acts_in_catchP acts_in_bindP) simp_all

lemma get_vapid_key_acts: "acts_in R (get_vapid_key E)"
  unfolding get_vapid_key_def
  by (intro guarded_acts configuration_acts) (simp_all add: log_words_def)

end

section \<open>The handlers keep the contract\<close>

text \<open>With the messages: every action of every handler.\<close>

locale server_actions = server_base +
  assumes send_R: "message_ok E m \<Longrightarrow> R w (post_message m (set_tick n w))"
begin

lemma send_acts [intro]:
  "message_ok E \<lparr>msg_target = m, msg_payload = p\<rparr> \<Longrightarrow> acts_in R (send_notification E m p)"
  unfolding send_notification_def Let_def using send_R
  by (intro tick_act_acts) (simp add: post_message_def)

lemma deliver_claimed_acts:
  assumes "clock_of E t" and "valid_endpoint E (JStr (mat_endpoint (snap_material sn)))"
  shows "acts_in R (deliver_claimed E k sn n ev t)"
proof -
  have send: "acts_in R (send_notification E (snap_material sn) (generic_notification_payload n kind ow))"
    for kind ow
    using assms(2) by (intro send_acts) (simp add: message_ok_def generic_payload_ok)
  have handler: "acts_in R (if st = 404 \<or> st = 410
        then bindP (repo_delete_if_current E sn) (\<lambda>removed.
               if \<not> removed then bindP (repo_release E k ev) (\<lambda>_. Ret (gone_or_transient removed))
               else Ret (gone_or_transient removed))
        else bindP (repo_release E k ev) (\<lambda>_. Ret DTransient))" for st :: int
    by (auto intro!: acts_in_bindP repo_acts)
  show ?thesis
    unfolding deliver_claimed_def Let_def
    using handler assms(1)
    by (auto intro!: outbound_acts acts_in_bindP acts_in_catchP release_acts send repo_acts)
qed

lemma deliver_acts: "acts_in R (deliver E n rd)"
proof -
  have claimed: "acts_in R (bindP (read_now E) (\<lambda>t.
      bindP (repo_rate E k t rate_window_seconds rate_limit) (\<lambda>in_rate.
        if \<not> in_rate then Ret DSuppressed
        else bindP (repo_claim E k ev t pending_delivery_timeout_seconds) (\<lambda>c.
          if \<not> c then Ret DSuppressed else deliver_claimed E k sn n ev t))))"
    if "valid_endpoint E (JStr (mat_endpoint (snap_material sn)))" for k ev sn
    unfolding pending_delivery_timeout_seconds_def rate_window_seconds_def rate_limit_def
    using that
    by (intro after_now) (auto intro!: acts_in_bindP repo_acts claim_acts deliver_claimed_acts)
  show ?thesis
    unfolding deliver_def
    by (auto intro!: claimed acts_in_bindP repo_acts split: option.split)
qed

lemma send_challenge_acts:
  assumes "valid_endpoint E (reg_endpoint g)"
  shows "acts_in R (send_challenge E g c)"
proof -
  obtain s where s: "reg_endpoint g = JStr s"
    using assms by (auto simp: valid_endpoint_def elim: valid_push_endpointE)
  then have "acts_in R (send_notification E (reg_material g) (challenge_payload c v))" for v
    using assms by (intro send_acts) (simp add: message_ok_def challenge_payload_ok reg_material_def str_of_def)
  then show ?thesis
    unfolding send_challenge_def Let_def
    by (auto intro!: acts_in_bindP acts_in_catchP outbound_acts repo_acts)
qed

lemma start_registration_acts:
  assumes "registration_rejected E g = None"
  shows "acts_in R (start_registration E g)"
  unfolding start_registration_def
  using not_rejected [OF assms]
  by (auto intro!: acts_in_bindP mutations_acts cleanup_stale_acts after_now repo_acts
      send_challenge_acts simp: registration_challenge_seconds_def split: start_outcome.split)

lemma begin_request_acts: "acts_in R (begin_registration_request E r)"
  unfolding begin_registration_request_def
  by (intro acts_in_bindP lift_acts) (auto intro: start_registration_acts split: option.split)

lemma change_subscription_acts: "acts_in R (change_subscription E r)"
  unfolding change_subscription_def
  by (intro guarded_acts configuration_acts acts_in_bindP origin_acts)
    (auto simp: log_words_def intro: confirm_registration_acts remove_subscription_acts
      begin_request_acts)

lemma send_test_acts:
  assumes "clock_of E t" and "valid_endpoint E (JStr (mat_endpoint (snap_material sn)))"
  shows "acts_in R (send_test E sn t)"
proof -
  have "acts_in R (send_notification E (snap_material sn) (generic_notification_payload n kind ow))"
    for n kind ow
    using assms(2) by (intro send_acts) (simp add: message_ok_def generic_payload_ok)
  then show ?thesis
    unfolding send_test_def Let_def using assms(1)
    by (auto intro!: acts_in_bindP acts_in_catchP repo_acts)
qed

lemma test_checked_acts:
  assumes "valid_endpoint E (JStr (mat_endpoint (snap_material sn)))"
  shows "acts_in R (test_checked E sn)"
  unfolding test_checked_def rate_window_seconds_def rate_limit_def using assms
  by (auto intro!: acts_in_bindP tests_acts outbound_acts after_now repo_acts send_test_acts)

lemma test_notification_acts: "acts_in R (test_notification E r)"
  unfolding test_notification_def
  by (intro guarded_acts configuration_acts acts_in_bindP origin_acts lift_acts get_prop_acts)
    (auto simp: log_words_def intro!: acts_in_bindP repo_acts test_checked_acts split: option.split)

lemma notify_devices_acts: "acts_in R (notify_devices E n ds rds)"
  unfolding notify_devices_def
  by (auto intro!: acts_in_bindP notify_budget_acts map_with_concurrency_acts deliver_acts
      summarize_acts after_now ignoring_acts repo_acts cleanup_stale_acts
      simp: delivery_retention_seconds_def)

lemma notify_acts: "acts_in R (notify E r)"
  unfolding notify_def notify_resolved_def repo_get_subscriptions_def Let_def
  by (intro guarded_acts acts_in_bindP lift_acts get_prop_acts)
    (auto simp: log_words_def intro!: acts_in_bindP summarize_acts configuration_acts
      notify_devices_acts)

lemma handle_acts: "acts_in R (handle E q)"
  by (cases q) (simp_all add: get_vapid_key_acts change_subscription_acts test_notification_acts
      notify_acts)

end

end
