(* ===== verification/Push_Budgets.thy ===== *)
theory Push_Budgets
  imports Push_Ledger
begin

text \<open>
  The global request budgets through any sequence of repository calls: how many calls of
  \<open>consumeGlobalRateLimit\<close> on one bucket are granted, whatever other calls come between.
\<close>

section \<open>Budgets\<close>

text \<open>How many calls of \<open>consumeGlobalRateLimit\<close> on a bucket a sequence of calls grants.\<close>

fun budget_granted :: "string \<Rightarrow> push_op list \<Rightarrow> push_db \<Rightarrow> nat" where
  "budget_granted b [] db = 0"
| "budget_granted b (op # ops) db =
     (case op of
        OpGlobalRate b' t win lim \<Rightarrow>
          (if b' = b \<and> fst (consume_global_rate_limit b t win lim db) then 1 else 0)
      | _ \<Rightarrow> 0) + budget_granted b ops (apply_op op db)"

fun budget_call :: "string \<Rightarrow> int \<Rightarrow> int \<Rightarrow> int \<Rightarrow> int \<Rightarrow> push_op \<Rightarrow> bool" where
  "budget_call b win lim a e (OpGlobalRate b' t w l) = (b' = b \<longrightarrow> w = win \<and> l = lim \<and> a \<le> t \<and> t < e)"
| "budget_call b win lim a e op = True"

fun budget_times :: "string \<Rightarrow> push_op list \<Rightarrow> int list" where
  "budget_times b [] = []"
| "budget_times b (OpGlobalRate b' t w l # ops) = (if b' = b then t # budget_times b ops else budget_times b ops)"
| "budget_times b (op # ops) = budget_times b ops"

lemma budgets_upsert: "upsert_sub p now db = Inr db' \<Longrightarrow> budgets db' = budgets db"
  by (auto simp: upsert_sub_def update_subs_def insert_sub_def count_insert_def Let_def split: if_splits)

lemma budgets_begin:
  "begin_registration d m s ch now expires ms mp db = Inr (out, db') \<Longrightarrow> budgets db' = budgets db"
  by (auto simp: begin_registration_def begin_existing_def begin_new_def Let_def sum_bind_Inr_iff
      insert_pending_def update_subs_def split: option.splits if_splits)

lemma budgets_confirm:
  "confirm_subscription ch now ms db = Inr (out, db') \<Longrightarrow> budgets db' = budgets db"
  by (auto simp: confirm_subscription_def Let_def sum_bind_Inr_iff dest!: budgets_upsert
      split: option.splits if_splits)

lemma budgets_delete:
  "delete_subscription m now mr db = Inr (out, db') \<Longrightarrow> budgets db' = budgets db"
  "delete_subscription_legacy m now db = Inr (out', db') \<Longrightarrow> budgets db' = budgets db"
  by (auto simp: delete_subscription_def delete_subscription_legacy_def Let_def sum_bind_Inr_iff
      insert_revoked_def split: option.splits if_splits)

lemma budget_of_other:
  assumes "\<And>t w l. op \<noteq> OpGlobalRate b t w l"
  shows "budget_of b (apply_op op db) = budget_of b db"
proof (cases "\<exists>b' t w l. op = OpGlobalRate b' t w l")
  case True
  then obtain b' t w l where op: "op = OpGlobalRate b' t w l" by blast
  with assms have "b' \<noteq> b" by blast
  then have "find (\<lambda>r. bud_name r = b) (map (\<lambda>r. if bud_name r = b' then touch_budget t w r else r) rs) =
      find (\<lambda>r. bud_name r = b) rs" for rs
    by (induction rs) auto
  then show ?thesis by (simp add: op consume_global_rate_limit_def Let_def budget_of_def)
next
  case False
  then have "budgets (apply_op op db) = budgets db"
    by (cases op)
      (auto simp: committed_def cancel_pending_def delete_if_current_snapshot_def delete_if_current_def
        consume_rate_limit_def claim_insert_def claim_reclaim_def mark_delivered_def
        mark_delivery_def release_delivery_def cleanup_subscriptions_def cleanup_deliveries_def Let_def
        split: sum.split dest: budgets_begin budgets_confirm budgets_delete)
  then show ?thesis by (simp add: budget_of_def)
qed

lemma budget_granted_grants:
  assumes "budget_of b db = budget_of b db'" and "\<forall>op \<in> set ops. budget_call b win lim a e op"
  shows "budget_granted b ops db =
     grants (\<lambda>t db. consume_global_rate_limit b t win lim db) (budget_times b ops) db'"
  using assms
proof (induction ops arbitrary: db db')
  case (Cons op ops)
  have same: "fst (consume_global_rate_limit b t win lim x) = fst (consume_global_rate_limit b t win lim y) \<and>
      budget_of b (snd (consume_global_rate_limit b t win lim x)) =
      budget_of b (snd (consume_global_rate_limit b t win lim y))" if "budget_of b x = budget_of b y" for t x y
    using that by (simp add: budget_of_consume)
      (simp add: consume_global_rate_limit_def Let_def find_map_update budget_of_def)
  show ?case
  proof (cases "\<exists>t w l. op = OpGlobalRate b t w l")
    case True
    then obtain t where op: "op = OpGlobalRate b t win lim" using Cons.prems(2) by auto
    from same [OF Cons.prems(1), of t] Cons.IH [of "apply_op op db" "snd (consume_global_rate_limit b t win lim db')"] Cons.prems(2)
    show ?thesis by (simp add: op)
  next
    case False
    then have "budget_of b (apply_op op db) = budget_of b db'" using budget_of_other Cons.prems(1) by metis
    with Cons.IH [of "apply_op op db" db'] Cons.prems(2) False
    show ?thesis by (cases op) auto
  qed
qed simp

lemma budget_times_span:
  "\<forall>op \<in> set ops. budget_call b win lim a e op \<Longrightarrow> \<forall>t \<in> set (budget_times b ops). a \<le> t \<and> t < e"
  by (induction b ops rule: budget_times.induct) auto

lemma budget_bound:
  assumes "budget_of b db = Some r" and "0 \<le> bud_count r"
    and "\<forall>op \<in> set ops. budget_call b win lim a (a + int n * win) op"
  shows "budget_granted b ops db \<le> Suc n * nat lim"
    and "a + int n * win \<le> bud_window r + win \<Longrightarrow> budget_granted b ops db \<le> nat lim"
proof -
  have g: "budget_granted b ops db =
      grants (\<lambda>t db. consume_global_rate_limit b t win lim db) (budget_times b ops) db"
    using assms(3) by (intro budget_granted_grants) auto
  have span: "\<forall>t \<in> set (budget_times b ops). a \<le> t \<and> t < a + int n * win"
    using assms(3) by (rule budget_times_span)
  show "budget_granted b ops db \<le> Suc n * nat lim"
    using bucket.grants_per_window [of b db "budget_times b ops" a n win lim] assms(1,2) span g by simp
  show "budget_granted b ops db \<le> nat lim" if "a + int n * win \<le> bud_window r + win"
  proof -
    have "\<forall>t \<in> set (budget_times b ops). t - win < bud_window r" using span that by fastforce
    then have "budget_granted b ops db = min (length (budget_times b ops)) (nat (lim - bud_count r))"
      using bucket.grants_same_window [of b db "budget_times b ops" win lim] assms(1) g by simp
    then show ?thesis using assms(2) by simp
  qed
qed

end
