(* ===== verification/Tokens.thy ===== *)
theory Tokens
  imports Effects "HOL-Library.Multiset"
begin

text \<open>
  Permission accounting for interleaved programs. The world carries a multiset of tokens,
  \<open>\<mu> w\<close>; \<open>owns I \<mu> Q p N\<close> says that \<open>p\<close>, holding the tokens \<open>N\<close>, keeps the invariant \<open>I\<close> and
  spends only tokens it holds, whatever other programs do to theirs between its actions. Tokens
  an action creates belong to the program that performs it. A pool of programs holding disjoint
  parts of the world's tokens keeps \<open>I\<close> under every schedule.
\<close>

primrec owns ::
  "('w \<Rightarrow> bool) \<Rightarrow> ('w \<Rightarrow> 'm multiset) \<Rightarrow> ('a \<Rightarrow> 'm multiset \<Rightarrow> bool) \<Rightarrow>
   ('w, 'e, 'a) prog \<Rightarrow> 'm multiset \<Rightarrow> bool" where
  "owns I \<mu> Q (Ret a) = (\<lambda>N. Q a N)"
| "owns I \<mu> Q (Raise e) = (\<lambda>N. True)"
| "owns I \<mu> Q (Act f) = (\<lambda>N. \<forall>w. I w \<longrightarrow> N \<subseteq># \<mu> w \<longrightarrow> I (snd (f w)) \<and>
     (\<exists>N'. \<mu> (snd (f w)) = \<mu> w - N + N' \<and> fst (map_prod (owns I \<mu> Q) id (f w)) N'))"

lemma owns_Act [simp]:
  "owns I \<mu> Q (Act f) N \<longleftrightarrow> (\<forall>w. I w \<longrightarrow> N \<subseteq># \<mu> w \<longrightarrow> I (snd (f w)) \<and>
     (\<exists>N'. \<mu> (snd (f w)) = \<mu> w - N + N' \<and> owns I \<mu> Q (fst (f w)) N'))"
  by simp

declare owns.simps(3) [simp del]

text \<open>Tokens an action leaves alone stay what they are for the others.\<close>

lemma token_frame:
  assumes "N + F \<subseteq># (M :: 'm multiset)"
  shows "N \<subseteq># M" and "F \<subseteq># M - N + N'" and "M - N + N' = M - (N + F) + (N' + F)"
proof -
  obtain K where M: "M = N + F + K" using assms by (metis subset_mset.add_diff_inverse)
  then show "N \<subseteq># M" by (simp add: add.assoc)
  have d: "M - N = F + K" and e: "M - (N + F) = K"
    unfolding M by (simp_all only: add.assoc add_diff_cancel_left' add_diff_cancel_left)
  show "F \<subseteq># M - N + N'" by (simp add: d add.assoc)
  show "M - N + N' = M - (N + F) + (N' + F)" unfolding d e by (simp add: ac_simps)
qed

lemma owns_mono: "owns I \<mu> Q p N \<Longrightarrow> (\<And>a N. Q a N \<Longrightarrow> Q' a N) \<Longrightarrow> owns I \<mu> Q' p N"
proof (induction p arbitrary: N rule: prog_induct)
  case (Act f)
  then show ?case by simp meson
qed simp_all

lemma owns_bindP:
  assumes "owns I \<mu> Q p N" and "\<And>a N. Q a N \<Longrightarrow> owns I \<mu> Q' (k a) N"
  shows "owns I \<mu> Q' (bindP p k) N"
  using assms
proof (induction p arbitrary: N rule: prog_induct)
  case (Act f)
  then show ?case by simp meson
qed simp_all

text \<open>A handler runs with whatever tokens are left, so it has to work without any.\<close>

lemma owns_frame:
  "owns I \<mu> Q p N \<Longrightarrow> owns I \<mu> (\<lambda>a K. \<exists>N'. K = N' + F \<and> Q a N') p (N + F)"
proof (induction p arbitrary: N rule: prog_induct)
  case (Act f)
  show ?case
  proof (unfold owns_Act, intro allI impI)
    fix w
    assume I: "I w" and sub: "N + F \<subseteq># \<mu> w"
    then obtain N' where "I (snd (f w))" "\<mu> (snd (f w)) = \<mu> w - N + N'" "owns I \<mu> Q (fst (f w)) N'"
      using Act.prems token_frame(1) [OF sub] by auto
    then show "I (snd (f w)) \<and> (\<exists>N''. \<mu> (snd (f w)) = \<mu> w - (N + F) + N'' \<and>
        owns I \<mu> (\<lambda>a K. \<exists>N'. K = N' + F \<and> Q a N') (fst (f w)) N'')"
      using Act.IH token_frame(3) [OF sub, of N'] by (intro conjI exI [of _ "N' + F"]) simp_all
  qed
qed auto

lemma owns_catchP:
  assumes "owns I \<mu> Q p N" and "\<And>e N. owns I \<mu> Q (h e) N"
  shows "owns I \<mu> Q (catchP p h) N"
  using assms
proof (induction p arbitrary: N rule: prog_induct)
  case (Act f)
  then show ?case by simp meson
qed simp_all

text \<open>Actions that keep the invariant and at most add tokens can run with any holding.\<close>

lemma owns_free:
  assumes "acts_in (\<lambda>w w'. I w \<longrightarrow> I w' \<and> \<mu> w \<subseteq># \<mu> w') p" and "yields P p"
  shows "owns I \<mu> (\<lambda>a N'. N \<subseteq># N' \<and> P a) p N"
proof -
  have "owns I \<mu> (\<lambda>a N'. N \<subseteq># N' \<and> P a) p M" if "N \<subseteq># M" for M
    using assms that
  proof (induction p arbitrary: M rule: prog_induct)
    case (Act f)
    show ?case
    proof (unfold owns_Act, intro allI impI)
      fix w
      assume I: "I w" and sub: "M \<subseteq># \<mu> w"
      then have w': "I (snd (f w))" "\<mu> w \<subseteq># \<mu> (snd (f w))" using Act.prems(1) by auto
      define D where "D = \<mu> (snd (f w)) - \<mu> w"
      have "\<mu> (snd (f w)) = \<mu> w - M + (M + D)"
        using w'(2) sub unfolding D_def
        by (metis add.assoc subset_mset.add_diff_inverse subset_mset.diff_add)
      moreover have "owns I \<mu> (\<lambda>a N'. N \<subseteq># N' \<and> P a) (fst (f w)) (M + D)"
        using Act.prems by (intro Act.IH) (auto intro: subset_mset.order_trans)
      ultimately show "I (snd (f w)) \<and> (\<exists>N'. \<mu> (snd (f w)) = \<mu> w - M + N' \<and>
          owns I \<mu> (\<lambda>a N'. N \<subseteq># N' \<and> P a) (fst (f w)) N')"
        using w'(1) by blast
    qed
  qed simp_all
  then show ?thesis by simp
qed

lemma owns_atom:
  assumes "\<And>w. I w \<Longrightarrow> N \<subseteq># \<mu> w \<Longrightarrow> I (snd (f w)) \<and>
    (\<exists>N'. \<mu> (snd (f w)) = \<mu> w - N + N' \<and> (\<forall>a. fst (f w) = Inr a \<longrightarrow> Q a N'))"
  shows "owns I \<mu> Q (atom f) N"
  unfolding atom_def owns_Act
proof (intro allI impI)
  fix w
  assume "I w" "N \<subseteq># \<mu> w"
  from assms [OF this] obtain N' where "I (snd (f w))" "\<mu> (snd (f w)) = \<mu> w - N + N'"
    "\<forall>a. fst (f w) = Inr a \<longrightarrow> Q a N'" by blast
  then show "I (snd (map_prod (case_sum Raise Ret) id (f w))) \<and>
      (\<exists>N'. \<mu> (snd (map_prod (case_sum Raise Ret) id (f w))) = \<mu> w - N + N' \<and>
        owns I \<mu> Q (fst (map_prod (case_sum Raise Ret) id (f w))) N')"
    by (intro conjI exI [of _ N']) (simp_all split: sum.split)
qed

section \<open>Parallel composition\<close>

abbreviation any_tokens :: "'a \<Rightarrow> 'm multiset \<Rightarrow> bool" where
  "any_tokens \<equiv> (\<lambda>a N. True)"

lemma owns_any: "owns I \<mu> Q p N \<Longrightarrow> owns I \<mu> any_tokens p N"
  by (rule owns_mono) simp_all

lemma owns_extra:
  assumes "owns I \<mu> any_tokens p N"
  shows "owns I \<mu> any_tokens p (N + F)"
  using owns_frame [OF assms, of F] by (rule owns_any)

lemma owns_drainP: "owns I \<mu> any_tokens p N \<Longrightarrow> owns I \<mu> any_tokens (drainP p) N"
  unfolding drainP_def by (intro owns_catchP owns_bindP) simp_all

lemma owns_par_right:
  assumes f: "owns I \<mu> any_tokens (Act f) N" and F: "\<And>w. snd (F w) = snd (f w)"
    and IH: "\<And>w N q M. owns I \<mu> any_tokens (fst (f w)) N \<Longrightarrow> owns I \<mu> any_tokens q M \<Longrightarrow>
      owns I \<mu> any_tokens (fst (F w) q) (N + M)"
  shows "owns I \<mu> any_tokens q M \<Longrightarrow> owns I \<mu> any_tokens (par_right c f F q) (N + M)"
proof (induction q arbitrary: M rule: prog_induct)
  case (Ret b)
  have "owns I \<mu> any_tokens (bindP (Act f) (\<lambda>a. Ret (a, b))) (N + M)"
    using owns_extra [OF f] by (rule owns_bindP) simp
  then show ?case by simp
next
  case (Raise e)
  have "owns I \<mu> any_tokens (bindP (drainP (Act f)) (\<lambda>_. Raise e)) (N + M)"
    using owns_drainP [OF owns_extra [OF f]] by (rule owns_bindP) simp
  then show ?case by simp
next
  case (Act g)
  show ?case
  proof (unfold par_right.simps(3) owns_Act, intro allI impI)
    fix w
    assume I: "I w" and sub: "N + M \<subseteq># \<mu> w"
    then have sub': "M + N \<subseteq># \<mu> w" by (simp add: ac_simps)
    obtain N' where N': "I (snd (f w))" "\<mu> (snd (f w)) = \<mu> w - N + N'" "owns I \<mu> any_tokens (fst (f w)) N'"
      using f I token_frame(1) [OF sub] by auto
    obtain M' where M': "I (snd (g w))" "\<mu> (snd (g w)) = \<mu> w - M + M'" "owns I \<mu> any_tokens (fst (g w)) M'"
      using Act.prems I token_frame(1) [OF sub'] by auto
    have left: "owns I \<mu> any_tokens (fst (F w) (Act g)) (N' + M)"
      using IH N'(3) Act.prems by blast
    have right: "owns I \<mu> any_tokens (par_right c f F (fst (g w))) (N + M')"
      using Act.IH M'(3) by blast
    let ?s = "if c w then (fst (F w) (Act g), snd (F w)) else map_prod (par_right c f F) id (g w)"
    have "\<exists>K. \<mu> (snd (f w)) = \<mu> w - (N + M) + K \<and> owns I \<mu> any_tokens (fst (F w) (Act g)) K"
      using left N'(2) token_frame(3) [OF sub, of N'] by auto
    moreover have "\<exists>K. \<mu> (snd (g w)) = \<mu> w - (N + M) + K \<and>
        owns I \<mu> any_tokens (par_right c f F (fst (g w))) K"
      using right M'(2) token_frame(3) [OF sub', of M'] by (intro exI [of _ "N + M'"]) (simp add: ac_simps)
    ultimately show "I (snd ?s) \<and> (\<exists>K. \<mu> (snd ?s) = \<mu> w - (N + M) + K \<and> owns I \<mu> any_tokens (fst ?s) K)"
      using N'(1) M'(1) by (cases "c w") (simp_all add: F)
  qed
qed

lemma owns_par2:
  "owns I \<mu> any_tokens p N \<Longrightarrow> owns I \<mu> any_tokens q M \<Longrightarrow> owns I \<mu> any_tokens (par2 c p q) (N + M)"
proof (induction p arbitrary: q N M rule: prog_induct)
  case (Ret a)
  have "owns I \<mu> any_tokens (bindP q (\<lambda>b. Ret (a, b))) (M + N)"
    using owns_extra [OF Ret.prems(2)] by (rule owns_bindP) simp
  then show ?case by (simp add: ac_simps)
next
  case (Raise e)
  have "owns I \<mu> any_tokens (bindP (drainP q) (\<lambda>_. Raise e)) (M + N)"
    using owns_drainP [OF owns_extra [OF Raise.prems(2)]] by (rule owns_bindP) simp
  then show ?case by (simp add: ac_simps)
next
  case (Act f)
  have "owns I \<mu> any_tokens (par_right c f (\<lambda>w. map_prod (par2 c) id (f w)) q) (N + M)"
    by (rule owns_par_right [OF Act.prems(1) _ _ Act.prems(2)]) (use Act.IH in auto)
  then show ?case by simp
qed

lemma owns_parP: "(\<And>p. p \<in> set ps \<Longrightarrow> owns I \<mu> any_tokens p {#}) \<Longrightarrow> owns I \<mu> any_tokens (parP c ps) {#}"
proof (induction ps)
  case (Cons p ps)
  then have "owns I \<mu> any_tokens (par2 c p (parP c ps)) ({#} + {#})" by (intro owns_par2) auto
  then show ?case by (auto intro!: owns_bindP split: prod.split)
qed simp

section \<open>Pools\<close>

definition pool_owns ::
  "('w \<Rightarrow> bool) \<Rightarrow> ('w \<Rightarrow> 'm multiset) \<Rightarrow> ('w, 'e, 'a) prog list \<times> 'w \<Rightarrow> bool" where
  "pool_owns I \<mu> s \<longleftrightarrow> I (snd s) \<and>
     (\<exists>Ns. list_all2 (owns I \<mu> any_tokens) (fst s) Ns \<and> sum_list Ns \<subseteq># \<mu> (snd s))"

lemma sum_list_split: "i < length Ns \<Longrightarrow> sum_list Ns = Ns ! i + sum_list (Ns[i := ({#} :: 'm multiset)])"
  by (induction Ns arbitrary: i) (auto simp: nth_Cons' list_update_code ac_simps split: nat.splits
      simp: less_Suc_eq_0_disj)

lemma sum_list_update: "i < length Ns \<Longrightarrow> sum_list (Ns[i := N]) = N + sum_list (Ns[i := ({#} :: 'm multiset)])"
  by (induction Ns arbitrary: i) (auto simp: less_Suc_eq_0_disj ac_simps)

lemma pool_step_owns:
  assumes "pool_owns I \<mu> s"
  shows "pool_owns I \<mu> (pool_step i s)"
proof (cases "i < length (fst s) \<and> (\<exists>f. fst s ! i = Act f)")
  case True
  then obtain f where i: "i < length (fst s)" and f: "fst s ! i = Act f" by blast
  obtain Ns where Ns: "list_all2 (owns I \<mu> any_tokens) (fst s) Ns" "sum_list Ns \<subseteq># \<mu> (snd s)"
    and I: "I (snd s)" using assms by (auto simp: pool_owns_def)
  let ?F = "sum_list (Ns[i := {#}])"
  have len: "length Ns = length (fst s)" using Ns(1) by (simp add: list_all2_lengthD)
  have sub: "Ns ! i + ?F \<subseteq># \<mu> (snd s)" using Ns(2) sum_list_split i len by metis
  have "owns I \<mu> any_tokens (Act f) (Ns ! i)" using Ns(1) i f by (metis list_all2_nthD)
  then obtain N' where N': "I (snd (f (snd s)))" "\<mu> (snd (f (snd s))) = \<mu> (snd s) - Ns ! i + N'"
    "owns I \<mu> any_tokens (fst (f (snd s))) N'"
    using I token_frame(1) [OF sub] by auto
  have "list_all2 (owns I \<mu> any_tokens) ((fst s)[i := fst (f (snd s))]) (Ns[i := N'])"
    using Ns(1) N'(3) by (rule list_all2_update_cong)
  moreover have "sum_list (Ns[i := N']) \<subseteq># \<mu> (snd (f (snd s)))"
    using N'(2) token_frame(3) [OF sub, of N'] sum_list_update i len by (metis mset_subset_eq_add_right)
  ultimately show ?thesis using N'(1) i f by (auto simp: pool_owns_def pool_step_def)
next
  case False
  then have "pool_step i s = s" by (auto simp: pool_step_def split: prog.splits)
  then show ?thesis using assms by simp
qed

lemma pool_run_owns: "pool_owns I \<mu> s \<Longrightarrow> pool_owns I \<mu> (pool_run is s)"
  by (induction "is" arbitrary: s) (simp_all add: pool_step_owns)

lemma pool_start:
  assumes "\<And>p. p \<in> set ps \<Longrightarrow> owns I \<mu> any_tokens p {#}" and "I w"
  shows "pool_owns I \<mu> (ps, w)"
proof -
  have "list_all2 (owns I \<mu> any_tokens) ps (replicate (length ps) {#})"
    using assms(1) by (auto simp: list_all2_conv_all_nth)
  moreover have "sum_list (replicate n {#}) = ({#} :: 'm multiset)" for n by (induction n) auto
  ultimately show ?thesis
    using assms(2) unfolding pool_owns_def by (metis fst_conv snd_conv empty_le)
qed

theorem pool_run_invariant:
  assumes "\<And>p. p \<in> set ps \<Longrightarrow> owns I \<mu> any_tokens p {#}" and "I w"
  shows "I (snd (pool_run is (ps, w)))"
  using pool_run_owns [OF pool_start [OF assms]] by (simp add: pool_owns_def)

section \<open>Programs that need no tokens to start\<close>

definition self_reliant :: "('w \<Rightarrow> bool) \<Rightarrow> ('w \<Rightarrow> 'm multiset) \<Rightarrow> ('w, 'e, 'a) prog \<Rightarrow> bool" where
  "self_reliant I \<mu> p \<longleftrightarrow> owns I \<mu> any_tokens p {#}"

lemma self_reliant_any: "self_reliant I \<mu> p \<Longrightarrow> owns I \<mu> any_tokens p N"
  unfolding self_reliant_def using owns_extra [of I \<mu> p "{#}" N] by simp

lemma self_reliant_bindP:
  "self_reliant I \<mu> p \<Longrightarrow> (\<And>a. self_reliant I \<mu> (k a)) \<Longrightarrow> self_reliant I \<mu> (bindP p k)"
  unfolding self_reliant_def [of I \<mu> "bindP p k"]
  unfolding self_reliant_def [of I \<mu> p]
  by (rule owns_bindP [where Q = any_tokens]) (auto intro: self_reliant_any)

lemma self_reliant_catchP:
  "self_reliant I \<mu> p \<Longrightarrow> (\<And>e. self_reliant I \<mu> (h e)) \<Longrightarrow> self_reliant I \<mu> (catchP p h)"
  unfolding self_reliant_def [of I \<mu> "catchP p h"] self_reliant_def [of I \<mu> p]
  by (rule owns_catchP) (auto intro: self_reliant_any)

lemma self_reliant_parP:
  "(\<And>p. p \<in> set ps \<Longrightarrow> self_reliant I \<mu> p) \<Longrightarrow> self_reliant I \<mu> (parP c ps)"
  unfolding self_reliant_def by (rule owns_parP)

lemma self_reliant_acts:
  "acts_in (\<lambda>w w'. I w \<longrightarrow> I w' \<and> \<mu> w \<subseteq># \<mu> w') p \<Longrightarrow> self_reliant I \<mu> p"
proof -
  assume "acts_in (\<lambda>w w'. I w \<longrightarrow> I w' \<and> \<mu> w \<subseteq># \<mu> w') p"
  moreover have "yields (\<lambda>_. True) p" by (induction p rule: prog_induct) simp_all
  ultimately show ?thesis unfolding self_reliant_def using owns_free owns_any by blast
qed

lemma self_reliant_simps [simp]: "self_reliant I \<mu> (Ret a)" "self_reliant I \<mu> (Raise e)"
  by (simp_all add: self_reliant_def)

lemmas self_reliant_intros = self_reliant_bindP self_reliant_catchP self_reliant_parP

end
