(* ===== verification/Push_Licence.thy ===== *)
theory Push_Licence
  imports Push_Contract Push_Budgets Tokens
begin

text \<open>
  Every message needs a licence. \<open>licensed\<close> is the contract of a permission a handler has to earn
  before it contacts a push service: the handlers never spend more than was earned, whatever the
  schedule. It is interpreted on two licences: a granted outbound budget pays for each message,
  and a successful claim pays for each Matrix message of one event to one device.
\<close>

locale licensed = server_base E "\<lambda>w w'. I w \<longrightarrow> I w' \<and> \<mu> w \<subseteq># \<mu> w'"
  for E :: server and I :: "world \<Rightarrow> bool" and \<mu> :: "world \<Rightarrow> 'm multiset" +
  assumes deliver_licensed: "self_reliant I \<mu> (deliver E n (resolve_device E snaps d))"
    and challenge_licensed:
      "valid_endpoint E (reg_endpoint g) \<Longrightarrow> self_reliant I \<mu> (send_challenge E g c)"
    and test_licensed:
      "valid_endpoint E (JStr (mat_endpoint (snap_material sn))) \<Longrightarrow>
       self_reliant I \<mu> (test_checked E sn)"
begin

lemma now_licensed:
  assumes "\<And>t. self_reliant I \<mu> (k t)"
  shows "self_reliant I \<mu> (bindP (read_now E) k)"
  by (rule self_reliant_bindP) (auto intro: self_reliant_acts assms)

lemma start_registration_licensed:
  assumes "registration_rejected E g = None"
  shows "self_reliant I \<mu> (start_registration E g)"
proof -
  have v: "valid_endpoint E (reg_endpoint g)" using not_rejected [OF assms] by simp
  have call: "self_reliant I \<mu> (bindP (read_now E) (\<lambda>now. bindP (read_now E) (\<lambda>later.
      bindP (repo_begin E d m (reg_material g) ch now (later + registration_challenge_seconds)
         (max_subscriptions (srv_limits E)) (registration_limit (srv_limits E))) k)))"
    if "\<And>x. self_reliant I \<mu> (k x)" for d m ch k
  proof -
    have *: "bindP (read_now E) (\<lambda>now. bindP (read_now E) (\<lambda>later.
        bindP (repo_begin E d m (reg_material g) ch now (later + registration_challenge_seconds)
         (max_subscriptions (srv_limits E)) (registration_limit (srv_limits E))) k)) =
      bindP (bindP (read_now E) (\<lambda>now. bindP (read_now E) (\<lambda>later.
         repo_begin E d m (reg_material g) ch now (later + registration_challenge_seconds)
         (max_subscriptions (srv_limits E)) (registration_limit (srv_limits E))))) k"
      by (simp only: bindP_assoc)
    show ?thesis unfolding *
    proof (rule self_reliant_bindP)
      show "self_reliant I \<mu> (bindP (read_now E) (\<lambda>now. bindP (read_now E) (\<lambda>later.
         repo_begin E d m (reg_material g) ch now (later + registration_challenge_seconds)
         (max_subscriptions (srv_limits E)) (registration_limit (srv_limits E)))))"
        using not_rejected [OF assms]
        by (intro self_reliant_acts after_now repo_acts) (simp add: registration_challenge_seconds_def)
    qed (rule that)
  qed
  show ?thesis
    unfolding start_registration_def
    by (auto intro!: self_reliant_bindP self_reliant_acts [OF mutations_acts]
        self_reliant_acts [OF cleanup_stale_acts] self_reliant_acts [OF random_acts] call
        challenge_licensed [OF v] split: start_outcome.split)
qed

lemma guarded_licensed:
  assumes "route \<in> set log_words" and "self_reliant I \<mu> p"
  shows "self_reliant I \<mu> (guarded E route p)"
proof -
  have log: "self_reliant I \<mu> (bindP (read_ms E) (\<lambda>t. bindP (write_log (e t)) (\<lambda>_. Ret x)))"
    if "\<And>t. log_ok (JObj (e t))" for e :: "int \<Rightarrow> (string \<times> jsval) list" and x :: response
    using that by (intro self_reliant_acts acts_in_bindP read_ms_acts write_log_acts) simp_all
  show ?thesis
    unfolding guarded_def using assms
    by (auto intro!: self_reliant_bindP self_reliant_catchP self_reliant_acts [OF read_ms_acts] log
        self_reliant_acts [OF write_log_acts] simp: log_ok_def log_words_def split: exn.split)
qed

lemma configuration_licensed: "(\<And>c. self_reliant I \<mu> (k c)) \<Longrightarrow> self_reliant I \<mu> (with_configuration E k)"
  by (simp add: with_configuration_def split: option.split)

lemmas pure_licensed = self_reliant_acts [OF lift_acts] self_reliant_acts [OF get_prop_acts]
  self_reliant_acts [OF origin_acts] self_reliant_acts [OF db_read_acts]

lemma change_subscription_licensed: "self_reliant I \<mu> (change_subscription E r)"
proof -
  have "self_reliant I \<mu> (begin_registration_request E r)"
    unfolding begin_registration_request_def
    by (intro self_reliant_bindP pure_licensed)
      (auto intro: start_registration_licensed split: option.split)
  then show ?thesis
    unfolding change_subscription_def
    by (auto intro!: guarded_licensed configuration_licensed self_reliant_bindP pure_licensed
        self_reliant_acts [OF confirm_registration_acts]
        self_reliant_acts [OF remove_subscription_acts] simp: log_words_def)
qed

lemma test_notification_licensed: "self_reliant I \<mu> (test_notification E r)"
  unfolding test_notification_def
  by (auto intro!: guarded_licensed configuration_licensed self_reliant_bindP pure_licensed
      self_reliant_acts [OF repo_acts(5)] test_licensed simp: log_words_def split: option.split)

lemma worker_licensed:
  assumes "\<And>x. x \<in> set items \<Longrightarrow> self_reliant I \<mu> (mapper x)"
  shows "self_reliant I \<mu> (worker n c mapper items)"
proof (induction n)
  case (Suc n)
  have take: "self_reliant I \<mu> (bindP (take_index c (length items)) k)"
    if "self_reliant I \<mu> (k None)" "\<And>i. i < length items \<Longrightarrow> self_reliant I \<mu> (k (Some i))" for k
  proof -
    have "yields (\<lambda>x. \<forall>i. x = Some i \<longrightarrow> i < length items) (take_index c (length items))"
      by (simp add: take_index_def tick_act_def Let_def)
    note owns_free [OF cells_acts(2) this, of "{#}"]
    then show ?thesis
      unfolding self_reliant_def
    proof (rule owns_bindP)
      fix x and N :: "'m multiset"
      assume "{#} \<subseteq># N \<and> (\<forall>i. x = Some i \<longrightarrow> i < length items)"
      then show "owns I \<mu> any_tokens (k x) N" using that by (cases x) (auto intro: self_reliant_any)
    qed
  qed
  show ?case
    unfolding worker.simps(2)
    by (rule take)
      (auto intro!: self_reliant_bindP self_reliant_acts [OF cells_acts(3)] Suc assms)
qed simp

lemma notify_devices_licensed:
  "self_reliant I \<mu> (notify_devices E n ds (map (resolve_device E snaps) ds'))"
proof -
  have pool: "self_reliant I \<mu> (map_with_concurrency E (map (resolve_device E snaps) ds')
      delivery_concurrency (deliver E n))"
    unfolding map_with_concurrency_def
    by (intro self_reliant_bindP self_reliant_parP self_reliant_acts [OF cells_acts(1)]
        self_reliant_acts [OF cells_acts(4)])
      (auto intro!: worker_licensed deliver_licensed simp del: worker.simps)
  have house: "self_reliant I \<mu> (bindP (read_now E) (\<lambda>now.
      bindP (ignoring (repo_cleanup_deliveries E (now - delivery_retention_seconds))) (\<lambda>_.
      bindP (ignoring (cleanup_stale_subscriptions E)) (\<lambda>_. if b then Ret x else Ret y))))"
    for b and x y :: response
    by (intro self_reliant_acts after_now acts_in_bindP ignoring_acts repo_acts cleanup_stale_acts)
      (simp_all add: delivery_retention_seconds_def)
  show ?thesis
    unfolding notify_devices_def
    by (auto intro!: self_reliant_bindP self_reliant_acts [OF notify_budget_acts] pool
        self_reliant_acts [OF summarize_acts] house simp del: if_split split: if_split)
qed

lemma notify_resolved_licensed: "self_reliant I \<mu> (notify_resolved E n ds snaps)"
proof -
  have answer: "self_reliant I \<mu> (bindP (summarize b ds rs) (\<lambda>x. Ret (rejected_response x)))" for b rs
    by (intro self_reliant_acts acts_in_bindP summarize_acts) simp
  show ?thesis
    unfolding notify_resolved_def Let_def
    by (simp add: answer notify_devices_licensed configuration_licensed)
qed

lemma notify_licensed: "self_reliant I \<mu> (notify E r)"
proof -
  have "self_reliant I \<mu> (repo_get_subscriptions E hs)" for hs
    unfolding repo_get_subscriptions_def by (auto intro: pure_licensed)
  then show ?thesis
    unfolding notify_def Let_def
    by (intro guarded_licensed self_reliant_bindP pure_licensed)
      (simp_all add: log_words_def self_reliant_bindP notify_resolved_licensed)
qed

lemma handle_licensed: "self_reliant I \<mu> (handle E q)"
proof (cases q)
  case VapidKey
  have "self_reliant I \<mu> (get_vapid_key E)" by (intro self_reliant_acts get_vapid_key_acts)
  then show ?thesis unfolding VapidKey handle.simps .
next
  case (Subscriptions r)
  then show ?thesis using change_subscription_licensed by simp
next
  case (TestPush r)
  then show ?thesis using test_notification_licensed by simp
next
  case (MatrixNotify r)
  then show ?thesis using notify_licensed by simp
qed

lemma pool_licensed:
  assumes "I w"
  shows "I (snd (pool_run is (map (handle E) qs, w)))"
proof (rule pool_run_invariant [where \<mu> = \<mu>])
  fix p
  assume "p \<in> set (map (handle E) qs)"
  then obtain q where "p = handle E q" by auto
  then show "owns I \<mu> any_tokens p {#}" using handle_licensed [of q] by (simp add: self_reliant_def)
qed (rule assms)

end

end
