(* ===== verification/Push_Claims.thy ===== *)
theory Push_Claims
  imports Push_Budgets
begin

text \<open>
  What the push tables guarantee to their users: the properties of the persistence layer, each
  over every sequence of repository calls, with the concrete databases their witnesses use.
\<close>

section \<open>Concrete databases\<close>

text \<open>The database after the migrations of drizzle/*.sql on an empty server.\<close>

definition initial_db :: push_db where
  "initial_db =
     \<lparr>subs = [], pendings = [], revoked = [],
      gateway = Some \<lparr>gate_subs = 0, gate_revoked = 0, gate_limit = Some 100000\<rparr>,
      budgets = map (\<lambda>n. \<lparr>bud_name = n, bud_window = 0, bud_count = 0\<rparr>)
        [''subscription-mutations'', ''test-sends'', ''matrix-notify'', ''outbound-deliveries''],
      deliveries = []\<rparr>"

definition sample_row :: "string \<Rightarrow> string \<Rightarrow> string \<Rightarrow> subscription_row" where
  "sample_row d m e =
     \<lparr>sub_key = d, sub_manage = Some m, sub_endpoint = e, sub_p256dh = ''p'', sub_auth = ''a'',
      sub_created = 5, sub_updated = 5, sub_success = None, sub_window = 5, sub_count = 0\<rparr>"

definition sample_db :: push_db where
  "sample_db =
     initial_db\<lparr>subs := [sample_row ''d'' ''m'' ''e''],
        gateway := Some \<lparr>gate_subs = 1, gate_revoked = 0, gate_limit = Some 100000\<rparr>\<rparr>"

definition sample_material :: "string \<Rightarrow> material" where
  "sample_material e = \<lparr>mat_endpoint = e, mat_p256dh = ''p'', mat_auth = ''a''\<rparr>"

lemmas sample_defs = initial_db_def sample_row_def sample_db_def sample_material_def
  store_ok_def gate_ok_def keys_ok_def caps_ok_def unique_subs_def unique_pendings_def
  is_revoked_def

lemma store_ok_initial: "store_ok initial_db"
  by (simp add: sample_defs)

lemma store_ok_sample: "store_ok sample_db"
  by (simp add: sample_defs)

section \<open>Revocation is permanent\<close>

lemma revoked_upsert: "upsert_sub p now db = Inr db' \<Longrightarrow> revoked db' = revoked db"
  by (auto simp: upsert_sub_def update_subs_def insert_sub_def count_insert_def Let_def split: if_splits)

lemma revoked_begin:
  "begin_registration d m s ch now expires ms mp db = Inr (out, db') \<Longrightarrow> revoked db' = revoked db"
  by (auto simp: begin_registration_def begin_existing_def begin_new_def Let_def sum_bind_Inr_iff
      insert_pending_def update_subs_def split: option.splits if_splits)

lemma revoked_confirm:
  "confirm_subscription ch now ms db = Inr (out, db') \<Longrightarrow> revoked db' = revoked db"
  by (auto simp: confirm_subscription_def Let_def sum_bind_Inr_iff dest!: revoked_upsert
      split: option.splits if_splits)

lemma revoked_delete:
  "delete_subscription m now mr db = Inr (out, db') \<Longrightarrow> set (revoked db) \<subseteq> set (revoked db')"
  by (auto simp: delete_subscription_def Let_def sum_bind_Inr_iff insert_revoked_def
      split: option.splits if_splits)

lemma revoked_delete_legacy:
  "delete_subscription_legacy m now db = Inr (out, db') \<Longrightarrow> set (revoked db) \<subseteq> set (revoked db')"
  by (auto simp: delete_subscription_legacy_def Let_def sum_bind_Inr_iff insert_revoked_def
      split: option.splits if_splits)

lemma revoked_apply_op: "set (revoked db) \<subseteq> set (revoked (apply_op op db))"
  by (cases op)
    (auto simp: committed_def cancel_pending_def delete_if_current_snapshot_def delete_if_current_def
      consume_rate_limit_def consume_global_rate_limit_def claim_insert_def claim_reclaim_def
      mark_delivered_def mark_delivery_def release_delivery_def cleanup_subscriptions_def
      cleanup_deliveries_def Let_def split: sum.split
      dest: revoked_begin revoked_confirm revoked_delete [THEN subsetD] revoked_delete_legacy [THEN subsetD])

lemma revoked_apply_ops: "set (revoked db) \<subseteq> set (revoked (apply_ops ops db))"
proof (induction ops arbitrary: db)
  case (Cons op ops)
  then show ?case using revoked_apply_op [of db op] by (simp, blast)
qed simp

definition dead_key :: "string \<Rightarrow> push_db \<Rightarrow> bool" where
  "dead_key m db \<longleftrightarrow>
     is_revoked m db \<and> list_all (\<lambda>r. sub_manage r \<noteq> Some m) (subs db) \<and>
     list_all (\<lambda>r. pend_manage r \<noteq> m) (pendings db)"

lemma revoked_dead: "store_ok db \<Longrightarrow> is_revoked m db \<Longrightarrow> dead_key m db"
  by (auto simp: dead_key_def list_all_iff store_ok_def caps_ok_def table_simps)

lemma delete_revokes:
  assumes "store_ok db" and "delete_subscription m now mr db = Inr (out, db')" and "out \<noteq> DeletionCapacity"
  shows "is_revoked m db'"
proof -
  obtain g where g: "gateway db = Some g" using assms(1) by (rule gate_okE)
  have pos: "0 < mr" using assms(2) by (auto simp: delete_subscription_def split: if_splits)
  show ?thesis
    using assms(2,3) revoke_and_remove_result [of m now]
    unfolding delete_subscription_cases [OF g pos] by (auto split: if_splits)
qed

text \<open>C16: whatever the server processes do next, in any order, a management key whose deletion was
  accepted never again owns a subscription or a pending challenge.\<close>

theorem revocation_permanent:
  assumes "store_ok db" and "delete_subscription m now mr db = Inr (out, db')"
    and "out \<noteq> DeletionCapacity"
  shows "dead_key m (apply_ops ops db')"
proof -
  have ok: "store_ok (apply_ops ops db')"
    using store_ok_apply_ops store_ok_delete_subscription [OF assms(1,2)] by blast
  have "is_revoked m (apply_ops ops db')"
    using delete_revokes [OF assms] revoked_apply_ops [of db' ops] by (auto simp: is_revoked_iff)
  with ok show ?thesis by (rule revoked_dead)
qed

theorem revocation_permanent_witness:
  "\<exists>db'. delete_subscription ''m'' 9 100000 sample_db = Inr (Removed, db') \<and>
     dead_key ''m'' (apply_ops [OpBegin ''d'' ''m'' (sample_material ''e'') ''c'' 10 20 5 5] db')"
proof -
  obtain db' where d: "delete_subscription ''m'' 9 100000 sample_db = Inr (Removed, db')"
    by (simp add: delete_subscription_def sample_db_def initial_db_def sample_row_def is_revoked_def
        insert_revoked_def has_managed_def select_sub_def Let_def)
  have "dead_key ''m'' (apply_ops [OpBegin ''d'' ''m'' (sample_material ''e'') ''c'' 10 20 5 5] db')"
    by (rule revocation_permanent [OF store_ok_sample d]) simp
  with d show ?thesis by blast
qed

section \<open>Capacity\<close>

fun capped :: "int \<Rightarrow> push_op \<Rightarrow> bool" where
  "capped M (OpConfirm ch now ms) = (ms \<le> M)"
| "capped M op = True"

lemma length_upsert: "upsert_sub p now db = Inr db' \<Longrightarrow> length (subs db') \<le> Suc (length (subs db))"
  by (auto simp: upsert_sub_def update_subs_def insert_sub_def count_insert_def Let_def split: if_splits)

lemma length_confirm:
  assumes ok: "store_ok db" and r: "confirm_subscription ch now ms db = Inr (out, db')"
  shows "int (length (subs db')) \<le> max (int (length (subs db))) ms"
proof -
  obtain g where g: "gateway db = Some g" "gate_subs g = int (length (subs db))"
    using ok by (auto elim: gate_okE)
  have drop: "length (subs db2) \<le> length (subs db)"
    if "upsert_sub p now (drop_sub_key (sub_key q) db) = Inr db2" "q \<in> set (subs db)" for p q db2
  proof -
    have "length (filter (\<lambda>r. sub_key r \<noteq> sub_key q) (subs db)) < length (subs db)"
      using that(2) by (intro length_filter_less) auto
    then show ?thesis using length_upsert [OF that(1)] by simp
  qed
  have keep: "int (length (subs db2)) \<le> ms"
    if "upsert_sub p now db = Inr db2" "\<not> ms \<le> int (length (subs db))" for p db2
    using length_upsert [OF that(1)] that(2) by linarith
  show ?thesis using r g drop keep
    by (auto simp: confirm_subscription_def Let_def sum_bind_Inr_iff select_sub_def find_Some_iff
        le_max_iff_disj split: option.splits if_splits)
qed

lemma length_begin:
  assumes "begin_registration d m s ch now expires ms mp db = Inr (out, db')"
  shows "length (subs db') \<le> length (subs db)"
proof -
  have ex: "length (subs db2) \<le> length (subs db1)"
    if r: "begin_existing d m s now r db1 = Inr (out, db2)" for r db1 db2
  proof -
    have "length (subs (case select_sub P db1 of None \<Rightarrow> db1 | Some q \<Rightarrow> drop_sub_key (sub_key q) db1))
        \<le> length (subs db1)" for P
      by (auto split: option.split)
    then show ?thesis using r
      by (auto simp: begin_existing_def Let_def sum_bind_Inr_iff dest!: update_subs_tables(5)
          split: if_splits)
  qed
  have nw: "length (subs db2) \<le> length (subs db1)"
    if "begin_new d m s ch now expires ms mp g db1 = Inr (out, db2)" for g db1 db2
    using that by (auto simp: begin_new_def Let_def sum_bind_Inr_iff insert_pending_def split: if_splits)
  show ?thesis using assms ex [of _ "delete_pendings (\<lambda>r. pend_expires r \<le> now) db"]
      nw [of _ "delete_pendings (\<lambda>r. pend_expires r \<le> now) db"]
    by (auto simp: begin_registration_def Let_def split: option.splits if_splits)
qed

lemma length_delete:
  assumes ok: "store_ok db" and r: "delete_subscription m now mr db = Inr (out, db')"
  shows "length (subs db') \<le> length (subs db)"
proof -
  obtain g where g: "gateway db = Some g" using ok by (rule gate_okE)
  have pos: "0 < mr" using r by (auto simp: delete_subscription_def split: if_splits)
  show ?thesis using r revoke_and_remove_result [of m now]
    unfolding delete_subscription_cases [OF g pos] by (auto split: if_splits)
qed

lemma length_delete_legacy:
  assumes ok: "store_ok db" and r: "delete_subscription_legacy m now db = Inr (out, db')"
  shows "length (subs db') \<le> length (subs db)"
proof -
  obtain g where g: "gateway db = Some g" using ok by (rule gate_okE)
  have "db' = revoke_and_remove m now db"
    using r g by (auto simp: delete_subscription_legacy_def revoke_and_remove_def Let_def
        insert_revoked_alt split: if_splits)
  then show ?thesis using revoke_and_remove_result [of m now db] by simp
qed

lemma capacity_apply_op:
  assumes ok: "store_ok db" and c: "capped M op" and l: "int (length (subs db)) \<le> M"
  shows "int (length (subs (apply_op op db))) \<le> M"
proof (cases op)
  case (OpBegin d m s ch now expires ms mp)
  then show ?thesis using l
    by (auto simp: committed_def split: sum.split dest!: length_begin)
next
  case (OpConfirm ch now ms)
  then show ?thesis using l c
    by (auto simp: committed_def split: sum.split dest!: length_confirm [OF ok])
next
  case (OpDelete m now mr)
  then show ?thesis using l
    by (auto simp: committed_def split: sum.split dest!: length_delete [OF ok])
next
  case (OpDeleteLegacy m now)
  then show ?thesis using l
    by (auto simp: committed_def split: sum.split dest!: length_delete_legacy [OF ok])
qed (use l in \<open>auto simp: cancel_pending_def delete_if_current_snapshot_def delete_if_current_def
      consume_rate_limit_def consume_global_rate_limit_def claim_insert_def claim_reclaim_def
      mark_delivered_def mark_delivery_def release_delivery_def cleanup_subscriptions_def
      cleanup_deliveries_def Let_def intro: order_trans [OF of_nat_mono [OF length_filter_le]]\<close>)

text \<open>when every confirmation uses a maximum of at most M, the number of active subscriptions
  never passes M, and the counter the triggers maintain stays equal to it, whatever the order of
  the calls.\<close>

theorem subscription_capacity:
  assumes "store_ok db" and "int (length (subs db)) \<le> M" and "\<forall>op \<in> set ops. capped M op"
  shows "int (length (subs (apply_ops ops db))) \<le> M \<and>
    (\<exists>g. gateway (apply_ops ops db) = Some g \<and> gate_subs g = int (length (subs (apply_ops ops db))))"
proof -
  have len: "int (length (subs (apply_ops ops db))) \<le> M"
    using assms
  proof (induction ops arbitrary: db)
    case (Cons op ops)
    then show ?case by (simp add: capacity_apply_op store_ok_apply_op)
  qed simp
  have "store_ok (apply_ops ops db)" using assms(1) by (rule store_ok_apply_ops)
  then show ?thesis using len by (auto elim: gate_okE)
qed

theorem subscription_capacity_witness:
  "int (length (subs (apply_ops [OpConfirm ''c'' 4 1, OpBegin ''x'' ''y'' (sample_material ''z'') ''w'' 5 9 1 1] sample_db))) \<le> 1"
proof -
  have h: "int (length (subs sample_db)) \<le> 1" by (simp add: sample_db_def)
  have c: "\<forall>op \<in> set [OpConfirm ''c'' 4 1, OpBegin ''x'' ''y'' (sample_material ''z'') ''w'' 5 9 1 1]. capped 1 op"
    by simp
  from subscription_capacity [OF store_ok_sample h c] show ?thesis by blast
qed

section \<open>Confirmation\<close>

definition confirmed_row :: "pending_row \<Rightarrow> int \<Rightarrow> subscription_row" where
  "confirmed_row p now =
     \<lparr>sub_key = pend_delivery p, sub_manage = Some (pend_manage p), sub_endpoint = pend_endpoint p,
      sub_p256dh = pend_p256dh p, sub_auth = pend_auth p, sub_created = now, sub_updated = now,
      sub_success = None, sub_window = now, sub_count = 0\<rparr>"

lemma upsert_fresh:
  assumes "store_ok db" and "p \<in> set (pendings db)"
    and "\<forall>r \<in> set (subs db). sub_endpoint r \<noteq> pend_endpoint p"
  shows "upsert_sub p now db = Inr (count_insert (db\<lparr>subs := subs db @ [confirmed_row p now]\<rparr>))"
proof -
  note caps = store_okD(3) [OF assms(1), unfolded caps_ok_def]
  have d: "\<forall>r \<in> set (subs db). sub_key r \<noteq> pend_delivery p"
    and m: "pend_manage p \<notin> set (manage_keys (subs db))" using caps assms(2) by simp_all
  have u: "unique_subs (subs db @ [confirmed_row p now])"
    using assms(1,3) d m by (simp add: unique_subs_append_one store_ok_def keys_ok_def confirmed_row_def)
  have "\<not> list_ex (\<lambda>r. sub_key r = pend_delivery p) (subs db)"
    using d by (simp add: list_ex_iff)
  then show ?thesis using u by (simp add: upsert_sub_def insert_sub_def confirmed_row_def)
qed

text \<open>a live challenge activates exactly its own registration. The subscription it names
  replaces whatever subscription held the endpoint (with that one's delivery records), the pending
  row is consumed, and every other row of both tables is untouched.\<close>

theorem confirm_activates:
  assumes ok: "store_ok db" and p: "find (\<lambda>r. pend_challenge r = ch) (pendings db) = Some p"
    and live: "now < pend_expires p"
    and room: "list_ex (\<lambda>r. sub_endpoint r = pend_endpoint p) (subs db) \<or> int (length (subs db)) < ms"
  shows "\<exists>db'. confirm_subscription ch now ms db =
            Inr (if list_ex (\<lambda>r. sub_endpoint r = pend_endpoint p) (subs db) then Reassigned else Created, db') \<and>
          subs db' = filter (\<lambda>r. sub_endpoint r \<noteq> pend_endpoint p) (subs db) @ [confirmed_row p now] \<and>
          pendings db' = filter (\<lambda>r. pend_manage r \<noteq> pend_manage p) (pendings db)"
proof -
  obtain g where g: "gateway db = Some g" "gate_subs g = int (length (subs db))"
    using ok by (auto elim: gate_okE)
  have pin: "p \<in> set (pendings db)" using p by (simp add: find_pending_Some)
  have nrev: "\<not> is_revoked (pend_manage p) db"
    and ne: "\<forall>r \<in> set (subs db). sub_key r \<noteq> pend_delivery p"
    using store_okD(3) [OF ok] pin by (simp_all add: caps_ok_def)
  show ?thesis
  proof (cases "select_sub (\<lambda>r. sub_endpoint r = pend_endpoint p) db")
    case None
    then have free: "\<forall>r \<in> set (subs db). sub_endpoint r \<noteq> pend_endpoint p" by (simp add: select_sub_None)
    then have nex: "\<not> list_ex (\<lambda>r. sub_endpoint r = pend_endpoint p) (subs db)"
      by (simp add: list_ex_iff)
    have f: "filter (\<lambda>r. sub_endpoint r \<noteq> pend_endpoint p) (subs db) = subs db"
      using free by (simp add: filter_id_conv)
    show ?thesis
      using p live nrev None g room nex f upsert_fresh [OF ok pin free, of now]
      by (simp add: confirm_subscription_def Let_def count_insert_def)
  next
    case (Some r)
    then have r: "r \<in> set (subs db)" "sub_endpoint r = pend_endpoint p" by (auto dest: select_sub_Some)
    have ex: "list_ex (\<lambda>r. sub_endpoint r = pend_endpoint p) (subs db)"
      using r by (auto simp: list_ex_iff)
    have same: "sub_key q \<noteq> sub_key r \<longleftrightarrow> sub_endpoint q \<noteq> pend_endpoint p" if "q \<in> set (subs db)" for q
      using ok r that by (auto simp: store_ok_def keys_ok_def dest: unique_subs_key unique_subs_endpoint)
    let ?db1 = "drop_sub_key (sub_key r) db"
    have s1: "subs ?db1 = filter (\<lambda>q. sub_endpoint q \<noteq> pend_endpoint p) (subs db)"
      using same by (auto intro: filter_cong)
    have ok1: "store_ok ?db1" using ok by (rule inv_intros)
    have free: "\<forall>q \<in> set (subs ?db1). sub_endpoint q \<noteq> pend_endpoint p" using s1 by simp
    show ?thesis
      using p live nrev Some ne r ex s1 g upsert_fresh [OF ok1 _ free, of now] pin
      by (simp add: confirm_subscription_def Let_def count_insert_def)
  qed
qed

definition challenge_db :: push_db where
  "challenge_db =
     sample_db\<lparr>pendings := [\<lparr>pend_manage = ''m2'', pend_delivery = ''d2'', pend_challenge = ''c'',
        pend_endpoint = ''e'', pend_p256dh = ''p'', pend_auth = ''a'', pend_created = 5,
        pend_expires = 605\<rparr>]\<rparr>"

lemma store_ok_challenge: "store_ok challenge_db"
  by (simp add: challenge_db_def sample_defs)

theorem confirm_activates_witness:
  "\<exists>db'. confirm_subscription ''c'' 10 1 challenge_db = Inr (Reassigned, db') \<and>
     map sub_key (subs db') = [''d2''] \<and> pendings db' = []"
proof -
  obtain p where p: "find (\<lambda>r. pend_challenge r = ''c'') (pendings challenge_db) = Some p"
    and v: "10 < pend_expires p" "pend_endpoint p = ''e''" "pend_manage p = ''m2''" "pend_delivery p = ''d2''"
    by (simp add: challenge_db_def)
  have e: "list_ex (\<lambda>r. sub_endpoint r = pend_endpoint p) (subs challenge_db)"
    using v by (simp add: challenge_db_def sample_db_def sample_row_def)
  from confirm_activates [OF store_ok_challenge p v(1), of 1] e
  obtain db' where "confirm_subscription ''c'' 10 1 challenge_db = Inr (Reassigned, db')"
    and "subs db' = filter (\<lambda>r. sub_endpoint r \<noteq> pend_endpoint p) (subs challenge_db) @ [confirmed_row p 10]"
    and "pendings db' = filter (\<lambda>r. pend_manage r \<noteq> pend_manage p) (pendings challenge_db)" by auto
  then show ?thesis
    using v by (simp add: challenge_db_def sample_db_def sample_row_def confirmed_row_def)
qed

section \<open>Registration\<close>

definition without_rival :: "string \<Rightarrow> material \<Rightarrow> push_db \<Rightarrow> push_db" where
  "without_rival d s db =
     (case select_sub (\<lambda>q. sub_endpoint q = mat_endpoint s \<and> sub_key q \<noteq> d) db of
        None \<Rightarrow> db | Some q \<Rightarrow> drop_sub_key (sub_key q) db)"

lemma without_rival_subs:
  assumes ok: "store_ok db"
  shows "subs (without_rival d s db) =
           filter (\<lambda>q. sub_key q = d \<or> sub_endpoint q \<noteq> mat_endpoint s) (subs db)"
proof (cases "select_sub (\<lambda>q. sub_endpoint q = mat_endpoint s \<and> sub_key q \<noteq> d) db")
  case None
  then have "filter (\<lambda>q. sub_key q = d \<or> sub_endpoint q \<noteq> mat_endpoint s) (subs db) = subs db"
    by (auto simp: select_sub_None filter_id_conv)
  then show ?thesis using None by (simp add: without_rival_def)
next
  case (Some r)
  then have r: "r \<in> set (subs db)" "sub_endpoint r = mat_endpoint s" "sub_key r \<noteq> d"
    by (auto dest: select_sub_Some)
  have "sub_key q \<noteq> sub_key r \<longleftrightarrow> sub_key q = d \<or> sub_endpoint q \<noteq> mat_endpoint s"
    if "q \<in> set (subs db)" for q
    using ok r that by (auto simp: store_ok_def keys_ok_def dest: unique_subs_key unique_subs_endpoint)
  then show ?thesis using Some by (auto simp: without_rival_def intro: filter_cong)
qed

definition moved_row :: "string \<Rightarrow> material \<Rightarrow> int \<Rightarrow> subscription_row \<Rightarrow> subscription_row" where
  "moved_row m s now q =
     q\<lparr>sub_manage := Some m, sub_endpoint := mat_endpoint s, sub_p256dh := mat_p256dh s,
       sub_auth := mat_auth s, sub_updated := now\<rparr>"

lemma begin_existing_alt:
  "begin_existing d m s now r db =
     (if sub_manage r \<noteq> None \<and> sub_manage r \<noteq> Some m then Inr (ManagementConflict, db)
      else if sub_manage r = None \<and> \<not> same_material s r then Inr (ManagementConflict, db)
      else sum_bind (update_subs (\<lambda>q. sub_key q = d) (moved_row m s now) (without_rival d s db))
             (\<lambda>db2. Inr (Active, delete_pendings (claims_pending d m (mat_endpoint s)) db2)))"
  by (simp add: begin_existing_def without_rival_def moved_row_def [abs_def] Let_def)

lemma begin_existing_keeps:
  assumes ok: "store_ok db" and r: "begin_existing d m s now x db = Inr (out, db')"
    and q: "q \<in> set (subs db)" "sub_endpoint q \<noteq> mat_endpoint s" "sub_key q \<noteq> d"
  shows "q \<in> set (subs db')"
  using r q
  by (auto simp: begin_existing_alt sum_bind_Inr_iff without_rival_subs [OF ok]
      dest!: update_subs_tables(5) split: if_splits)

lemma begin_new_keeps:
  "begin_new d m s ch now expires ms mp g db = Inr (out, db') \<Longrightarrow> subs db' = subs db"
  by (auto simp: begin_new_def Let_def sum_bind_Inr_iff insert_pending_def split: if_splits)

lemma begin_cases:
  assumes "gateway db = Some g"
  shows "begin_registration d m s ch now expires ms mp db =
    (let db1 = delete_pendings (\<lambda>r. pend_expires r \<le> now) db
     in if is_revoked m db then Inr (RevokedStart, db1)
        else case select_sub (\<lambda>r. sub_key r = d) db of
               Some r \<Rightarrow> begin_existing d m s now r db1
             | None \<Rightarrow> begin_new d m s ch now expires ms mp g db1)"
  using assms by (simp add: begin_registration_def Let_def select_sub_def)

definition two_db :: push_db where
  "two_db =
     initial_db\<lparr>subs := [sample_row ''d'' ''m'' ''e'', sample_row ''d2'' ''m2'' ''e2''],
        gateway := Some \<lparr>gate_subs = 2, gate_revoked = 0, gate_limit = Some 100000\<rparr>\<rparr>"

lemma store_ok_two: "store_ok two_db"
  by (simp add: two_db_def sample_defs)

lemma distinct_after_move:
  fixes key :: "'r \<Rightarrow> 'k" and ep :: "'r \<Rightarrow> 'e"
  assumes "distinct (map key rs)" and "distinct (map ep rs)"
    and "\<forall>q \<in> set rs. key q \<noteq> d \<longrightarrow> ep q \<noteq> e" and f: "\<And>q. ep (f q) = e"
  shows "distinct (map ep (map (\<lambda>q. if key q = d then f q else q) rs))"
proof -
  define h where "h = (\<lambda>q. if key q = d then f q else q)"
  have h: "key q = d \<Longrightarrow> ep (h q) = e" "key q \<noteq> d \<Longrightarrow> h q = q" for q by (simp_all add: h_def f)
  from assms(1-3) have "distinct (map ep (map h rs))"
  proof (induction rs)
    case (Cons a rs)
    then have IH: "distinct (map ep (map h rs))" by simp
    have "ep (h a) \<noteq> ep (h q)" if "q \<in> set rs" for q
    proof -
      have "key q \<noteq> key a" "ep q \<noteq> ep a" using Cons.prems(1,2) that by (auto simp: image_iff)
      then show ?thesis using Cons.prems(3) that h [of a] h [of q]
        by (cases "key a = d"; cases "key q = d") auto
    qed
    then have "ep (h a) \<notin> set (map ep (map h rs))" by auto
    then show ?case using IH by simp
  qed simp
  then show ?thesis by (simp only: h_def)
qed

lemma owner_move_result:
  assumes ok: "store_ok db" and own: "r \<in> set (subs db)" "sub_key r = d" "sub_manage r = Some m"
  shows "\<exists>db'. begin_registration d m s ch now expires ms mp db = Inr (Active, db') \<and>
     subs db' = map (\<lambda>q. if sub_key q = d then moved_row m s now q else q)
       (filter (\<lambda>q. sub_key q = d \<or> sub_endpoint q \<noteq> mat_endpoint s) (subs db))"
proof -
  obtain g where g: "gateway db = Some g" using ok by (rule gate_okE)
  let ?db1 = "delete_pendings (\<lambda>r. pend_expires r \<le> now) db"
  let ?db2 = "without_rival d s ?db1"
  let ?rs = "filter (\<lambda>q. sub_key q = d \<or> sub_endpoint q \<noteq> mat_endpoint s) (subs db)"
  let ?f = "\<lambda>q. if sub_key q = d then moved_row m s now q else q"
  have ok1: "store_ok ?db1" using ok by (rule inv_intros)
  have s2: "subs ?db2 = ?rs" using without_rival_subs [OF ok1] by simp
  have free: "\<not> is_revoked m db"
    using ok own by (auto simp: store_ok_def caps_ok_def table_simps)
  have sel: "select_sub (\<lambda>r. sub_key r = d) db = Some r"
  proof (cases "select_sub (\<lambda>r. sub_key r = d) db")
    case None
    then show ?thesis using own by (simp add: select_sub_None)
  next
    case (Some x)
    then show ?thesis using ok own by (auto simp: store_ok_def keys_ok_def dest!: select_sub_Some dest: unique_subs_key)
  qed
  have u: "unique_subs ?rs" using ok by (simp add: store_ok_def keys_ok_def unique_subs_filter)
  have one: "q = r" if "q \<in> set ?rs" "sub_key q = d" for q
    using ok own that by (auto simp: store_ok_def keys_ok_def dest: unique_subs_key)
  have man: "sub_manage (?f q) = sub_manage q" if "q \<in> set ?rs" for q
    using one [OF that] own(3) by (cases "sub_key q = d") (simp_all add: moved_row_def)
  have same_m: "manage_keys (map ?f ?rs) = manage_keys ?rs"
    unfolding map_map [symmetric]
  proof (rule manage_keys_eq)
    show "map sub_manage (map ?f ?rs) = map sub_manage ?rs"
      unfolding map_map by (rule map_cong [OF refl]) (simp only: o_apply man)
  qed
  have "distinct (map sub_endpoint (map ?f ?rs))"
  proof (rule distinct_after_move)
    show "distinct (map sub_key ?rs)" "distinct (map sub_endpoint ?rs)" using u by (simp_all only: unique_subs_def)
    show "\<forall>q \<in> set ?rs. sub_key q \<noteq> d \<longrightarrow> sub_endpoint q \<noteq> mat_endpoint s" by auto
  qed (simp add: moved_row_def)
  moreover have "map sub_key (map ?f ?rs) = map sub_key ?rs" by (simp add: moved_row_def)
  ultimately have "unique_subs (map ?f ?rs)" using u same_m by (simp only: unique_subs_def)
  then have "update_subs (\<lambda>q. sub_key q = d) (moved_row m s now) ?db2 = Inr (?db2\<lparr>subs := map ?f ?rs\<rparr>)"
    by (simp add: update_subs_def s2 Let_def)
  then show ?thesis using begin_cases [OF g] free sel own by (simp add: Let_def begin_existing_alt)
qed

lemma two_move:
  "\<exists>db'. begin_registration ''d'' ''m'' (sample_material ''e2'') ''c'' 10 20 5 5 two_db = Inr (Active, db') \<and>
     map sub_key (subs db') = [''d''] \<and> map sub_endpoint (subs db') = [''e2'']"
proof -
  have r: "sample_row ''d'' ''m'' ''e'' \<in> set (subs two_db)" "sub_key (sample_row ''d'' ''m'' ''e'') = ''d''"
    "sub_manage (sample_row ''d'' ''m'' ''e'') = Some ''m''" by (simp_all add: two_db_def sample_row_def)
  from owner_move_result [OF store_ok_two r, of "sample_material ''e2''" "''c''" 10 20 5 5]
  show ?thesis
    by (auto simp: two_db_def sample_row_def sample_material_def moved_row_def)
qed

text \<open>a registration request changes or drops no subscription but its own. A row that is gone
  or different afterwards either held the endpoint the request brings, or has the request's delivery
  key together with its management key, or is an unmanaged row with exactly the request's
  material.\<close>

theorem registration_touches_only_own:
  assumes ok: "store_ok db"
    and r: "begin_registration d m s ch now expires ms mp db = Inr (out, db')"
    and q: "q \<in> set (subs db)" "q \<notin> set (subs db')"
  shows "sub_endpoint q = mat_endpoint s \<or>
    (sub_key q = d \<and> (sub_manage q = Some m \<or> (sub_manage q = None \<and> same_material s q)))"
proof (rule ccontr)
  assume n: "\<not> ?thesis"
  obtain g where g: "gateway db = Some g" using ok by (rule gate_okE)
  let ?db1 = "delete_pendings (\<lambda>r. pend_expires r \<le> now) db"
  have ok1: "store_ok ?db1" using ok by (rule inv_intros)
  show False
  proof (cases "is_revoked m db")
    case True
    then show False using r q begin_cases [OF g, of d m s ch now expires ms mp] by (auto simp: Let_def)
  next
    case free: False
    show False
    proof (cases "select_sub (\<lambda>r. sub_key r = d) db")
      case None
      then have "begin_new d m s ch now expires ms mp g ?db1 = Inr (out, db')"
        using r begin_cases [OF g] free by (simp add: Let_def)
      then show False using begin_new_keeps q by fastforce
    next
      case (Some x)
      then have x: "x \<in> set (subs db)" "sub_key x = d" by (auto dest: select_sub_Some)
      have e: "begin_existing d m s now x ?db1 = Inr (out, db')"
        using r begin_cases [OF g] free Some by (simp add: Let_def)
      show False
      proof (cases "sub_key q = d")
        case True
        then have "q = x" using ok q(1) x by (auto simp: store_ok_def keys_ok_def dest: unique_subs_key)
        then have "db' = ?db1" using e n True by (auto simp: begin_existing_alt split: if_splits)
        then show False using q by simp
      next
        case False
        then show False using begin_existing_keeps [OF ok1 e] n q by auto
      qed
    qed
  qed
qed

theorem registration_touches_only_own_witness:
  "\<exists>db'. begin_registration ''d'' ''m'' (sample_material ''e2'') ''c'' 10 20 5 5 two_db = Inr (Active, db') \<and>
     sample_row ''d2'' ''m2'' ''e2'' \<notin> set (subs db') \<and>
     (sub_endpoint (sample_row ''d2'' ''m2'' ''e2'') = mat_endpoint (sample_material ''e2'') \<or>
      sub_key (sample_row ''d2'' ''m2'' ''e2'') = ''d'')"
proof -
  obtain db' where b: "begin_registration ''d'' ''m'' (sample_material ''e2'') ''c'' 10 20 5 5 two_db = Inr (Active, db')"
    and k: "map sub_key (subs db') = [''d'']" and "map sub_endpoint (subs db') = [''e2'']"
    using two_move by (elim exE conjE)
  have n: "sample_row ''d2'' ''m2'' ''e2'' \<notin> set (subs db')"
  proof
    assume "sample_row ''d2'' ''m2'' ''e2'' \<in> set (subs db')"
    then have "sub_key (sample_row ''d2'' ''m2'' ''e2'') \<in> set (map sub_key (subs db'))" by simp
    then show False using k by (simp add: sample_row_def)
  qed
  have in2: "sample_row ''d2'' ''m2'' ''e2'' \<in> set (subs two_db)" by (simp add: two_db_def)
  have "sub_endpoint (sample_row ''d2'' ''m2'' ''e2'') = mat_endpoint (sample_material ''e2'') \<or>
      sub_key (sample_row ''d2'' ''m2'' ''e2'') = ''d''"
    using registration_touches_only_own [OF store_ok_two b in2 n] by (elim disjE conjE) simp_all
  then show ?thesis using b n by (intro exI [of _ db'] conjI)
qed

text \<open>C36: the owner of a subscription can move it to any endpoint at once: the outcome is
  \<open>Active\<close>, no challenge is issued, and the subscription that held the endpoint is dropped.\<close>

theorem owner_moves_without_challenge:
  assumes "store_ok db" and "r \<in> set (subs db)" "sub_key r = d" "sub_manage r = Some m"
  shows "\<exists>db'. begin_registration d m s ch now expires ms mp db = Inr (Active, db') \<and>
     subs db' = map (\<lambda>q. if sub_key q = d then moved_row m s now q else q)
       (filter (\<lambda>q. sub_key q = d \<or> sub_endpoint q \<noteq> mat_endpoint s) (subs db))"
  using assms by (rule owner_move_result)

theorem owner_moves_without_challenge_witness:
  "\<exists>db'. begin_registration ''d'' ''m'' (sample_material ''e2'') ''c'' 10 20 5 5 two_db = Inr (Active, db') \<and>
     map sub_key (subs db') = [''d''] \<and> map sub_endpoint (subs db') = [''e2'']"
proof -
  have r: "sample_row ''d'' ''m'' ''e'' \<in> set (subs two_db)" "sub_key (sample_row ''d'' ''m'' ''e'') = ''d''"
    "sub_manage (sample_row ''d'' ''m'' ''e'') = Some ''m''" by (simp_all add: two_db_def sample_row_def)
  from owner_moves_without_challenge [OF store_ok_two r, of "sample_material ''e2''" "''c''" 10 20 5 5]
  obtain db' where "begin_registration ''d'' ''m'' (sample_material ''e2'') ''c'' 10 20 5 5 two_db = Inr (Active, db')"
    and "subs db' = map (\<lambda>q. if sub_key q = ''d'' then moved_row ''m'' (sample_material ''e2'') 10 q else q)
       (filter (\<lambda>q. sub_key q = ''d'' \<or> sub_endpoint q \<noteq> mat_endpoint (sample_material ''e2'')) (subs two_db))"
    by blast
  then show ?thesis
    by (simp add: two_db_def sample_row_def sample_material_def moved_row_def)
qed

section \<open>Deduplication\<close>

fun claim_time :: "push_op \<Rightarrow> int" where
  "claim_time (OpClaimInsert k e now) = now"
| "claim_time (OpReclaim k e now stale) = now"
| "claim_time op = 0"

lemma claim_holds:
  assumes "claim_succeeds k e op db"
  shows "held False k e (claim_time op) (apply_op op db)"
proof (cases op)
  case (OpClaimInsert k' e' now)
  then show ?thesis using assms claim_held by auto
next
  case (OpReclaim k' e' now stale)
  then show ?thesis using assms reclaim_held by auto
qed (use assms in simp_all)

text \<open>C18: a claim is exclusive. After one call has claimed an event for a device, no other claim of
  that event succeeds, in any order of calls, while the claim is not released, not yet stale and
  the device keeps its subscription.\<close>

theorem claim_exclusive:
  assumes "store_ok db" and "claim_succeeds k e op db"
    and "undisturbed False k e (claim_time op) ops (apply_op op db)"
  shows "claims_won k e ops (apply_op op db) = 0"
  using no_second_claim [OF store_ok_apply_op [OF assms(1)] claim_holds [OF assms(2)] assms(3)] by simp

theorem claim_exclusive_witness:
  "claims_won ''d'' ''$1'' [OpClaimInsert ''d'' ''$1'' 101, OpReclaim ''d'' ''$1'' 219 120]
     (apply_op (OpClaimInsert ''d'' ''$1'' 100) sample_db) = 0"
proof -
  have s: "claim_succeeds ''d'' ''$1'' (OpClaimInsert ''d'' ''$1'' 100) sample_db"
    by (simp add: claim_insert_def sample_db_def initial_db_def)
  have u: "undisturbed False ''d'' ''$1'' (claim_time (OpClaimInsert ''d'' ''$1'' 100))
      [OpClaimInsert ''d'' ''$1'' 101, OpReclaim ''d'' ''$1'' 219 120]
      (apply_op (OpClaimInsert ''d'' ''$1'' 100) sample_db)"
    by (simp add: claim_insert_def claim_reclaim_def sample_db_def initial_db_def sample_row_def
        row_of_def same_delivery_def)
  from claim_exclusive [OF store_ok_sample s u] show ?thesis .
qed

text \<open>an event marked delivered is never claimed again, not even as a stale claim and not after a
  release, until the retention cleanup reaches its record or the subscription is dropped.\<close>

theorem delivered_once:
  assumes "store_ok db" and "held False (snap_key s) e t' db"
    and "fst (mark_delivered s (Some e) t db)"
    and "undisturbed True (snap_key s) e (min t t') ops (snd (mark_delivered s (Some e) t db))"
  shows "claims_won (snap_key s) e ops (snd (mark_delivered s (Some e) t db)) = 0"
proof -
  have "store_ok (snd (mark_delivered s (Some e) t db))"
    using assms(1) by (simp add: mark_delivered_def inv_intros)
  then show ?thesis using no_second_claim mark_held [OF assms(3,2)] assms(4) by blast
qed

definition sample_snapshot :: snapshot where
  "sample_snapshot = \<lparr>snap_key = ''d'', snap_material = sample_material ''e''\<rparr>"

definition claimed_db :: push_db where
  "claimed_db = snd (claim_insert ''d'' ''$1'' 100 sample_db)"

theorem delivered_once_witness:
  "claims_won ''d'' ''$1'' [OpRelease ''d'' ''$1'', OpReclaim ''d'' ''$1'' 900 120]
     (snd (mark_delivered sample_snapshot (Some ''$1'') 101 claimed_db)) = 0"
proof -
  have ok: "store_ok claimed_db" by (simp add: claimed_db_def store_ok_claim_insert store_ok_sample)
  have h: "held False (snap_key sample_snapshot) ''$1'' 100 claimed_db"
    by (simp add: claimed_db_def claim_insert_def sample_snapshot_def held_def same_delivery_def
        sample_db_def initial_db_def)
  have m: "fst (mark_delivered sample_snapshot (Some ''$1'') 101 claimed_db)"
    by (simp add: claimed_db_def claim_insert_def sample_snapshot_def mark_delivered_def
        mark_delivery_def is_current_def same_material_def sample_material_def sample_db_def
        initial_db_def sample_row_def)
  have u: "undisturbed True (snap_key sample_snapshot) ''$1'' (min 101 100)
      [OpRelease ''d'' ''$1'', OpReclaim ''d'' ''$1'' 900 120]
      (snd (mark_delivered sample_snapshot (Some ''$1'') 101 claimed_db))"
    by (simp add: claimed_db_def claim_insert_def claim_reclaim_def release_delivery_def
        delete_deliveries_def sample_snapshot_def mark_delivered_def mark_delivery_def
        is_current_def same_material_def sample_material_def sample_db_def initial_db_def
        sample_row_def row_of_def same_delivery_def)
  from delivered_once [OF ok h m u] show ?thesis by (simp add: sample_snapshot_def)
qed

section \<open>Budgets\<close>

text \<open>a global budget of k per window lets at most (n + 1) k requests through in any span of n window
  lengths, however the requests interleave with other calls; and at most k when the window in force
  covers the whole span.\<close>

theorem global_budget_bound:
  assumes "budget_of b db = Some r" and "0 \<le> bud_count r"
    and "\<forall>op \<in> set ops. budget_call b win lim a (a + int n * win) op"
  shows "budget_granted b ops db \<le> Suc n * nat lim \<and>
    (a + int n * win \<le> bud_window r + win \<longrightarrow> budget_granted b ops db \<le> nat lim)"
  using budget_bound [OF assms] by blast

theorem global_budget_bound_witness:
  "budget_granted ''test-sends''
     [OpGlobalRate ''test-sends'' 100 60 1, OpCancel ''c'', OpGlobalRate ''test-sends'' 101 60 1] initial_db \<le> 2"
proof -
  have r: "budget_of ''test-sends'' initial_db = Some \<lparr>bud_name = ''test-sends'', bud_window = 0, bud_count = 0\<rparr>"
    by (simp add: budget_of_def initial_db_def)
  have c: "\<forall>op \<in> set [OpGlobalRate ''test-sends'' 100 60 1, OpCancel ''c'', OpGlobalRate ''test-sends'' 101 60 1].
      budget_call ''test-sends'' 60 1 100 (100 + int 1 * 60) op" by simp
  from global_budget_bound [OF r _ c] show ?thesis by simp
qed

text \<open>one device never gets more than twice its per-minute allowance of deliveries in any
  span of a minute, and a span that opens a new window gets exactly the allowance or all its
  requests, whichever is less.\<close>

theorem device_rate_bound:
  assumes "row_of k db = Some r" and "0 \<le> sub_count r" and "0 \<le> lim"
    and "\<forall>u \<in> set ts. t \<le> u \<and> u < t + win" and "0 < win"
  shows "grants (\<lambda>t db. consume_rate_limit k t win lim db) (t # ts) db \<le> 2 * nat lim \<and>
    (sub_window r \<le> t - win \<longrightarrow>
       grants (\<lambda>t db. consume_rate_limit k t win lim db) (t # ts) db = min (Suc (length ts)) (nat lim))"
  using device.grants_twice_limit [of k db "t # ts" t win lim]
    device.grants_fresh_window [of k db t win ts lim] assms by auto

theorem device_rate_bound_witness:
  "grants (\<lambda>t db. consume_rate_limit ''d'' t 60 1 db) [100, 101, 102] sample_db = 1"
proof -
  let ?r = "sample_row ''d'' ''m'' ''e''"
  have r: "row_of ''d'' sample_db = Some ?r" "0 \<le> sub_count ?r" "sub_window ?r = 5"
    by (simp_all add: row_of_def sample_db_def sample_row_def)
  have c: "\<forall>u \<in> set [101, 102]. (100::int) \<le> u \<and> u < 100 + 60" by simp
  from device_rate_bound [OF r(1,2) _ c, of 1] r(3) show ?thesis by simp
qed

end
