(* ===== verification/Push_Safety.thy ===== *)
theory Push_Safety
  imports Push_Licence Push_Claims
begin

text \<open>
  The global guarantees of the push gateway: they hold after every schedule of every pool of
  requests, for any behaviour of the clocks, the database connection and the push services.
\<close>

section \<open>A server and its requests\<close>

definition idle_world :: "push_db \<Rightarrow> world" where
  "idle_world db =
     \<lparr>w_db = db, w_tick = 0, w_out = [], w_log = [], w_trace = [], w_cells = []\<rparr>"

text \<open>The world after the requests \<open>qs\<close> have made the moves of the schedule.\<close>

definition serve :: "server \<Rightarrow> route list \<Rightarrow> nat list \<Rightarrow> push_db \<Rightarrow> world" where
  "serve E qs schedule db = snd (pool_run schedule (map (handle E) qs, idle_world db))"

lemmas world_steps = set_tick_def append_log_def post_message_def commit_op_def set_cells_def

lemma apply_ops_append [simp]: "apply_ops (ops @ ops') db = apply_ops ops' (apply_ops ops db)"
  by (simp add: apply_ops_def)

interpretation tables: server_actions E "keeps (\<lambda>w. store_ok (w_db w))" for E
  by unfold_locales (auto simp: keeps_def world_steps store_ok_apply_op)

interpretation letters: server_actions E "keeps (\<lambda>w. \<forall>m \<in> set (w_out w). message_ok E m)" for E
  by unfold_locales (auto simp: keeps_def world_steps)

interpretation journal: server_actions E "keeps (\<lambda>w. \<forall>e \<in> set (w_log w). log_ok e)" for E
  by unfold_locales (auto simp: keeps_def world_steps)

interpretation history: server_actions E
  "keeps (\<lambda>w. w_db w = apply_ops (w_trace w) db \<and> (\<forall>op \<in> set (w_trace w). op_ok E op))" for E db
proof (unfold_locales, goal_cases)
  case (3 op w n)
  then show ?case by (simp add: keeps_def world_steps)
qed (simp_all add: keeps_def world_steps)

lemma serve_keeps:
  assumes "\<And>q. acts_in (keeps I) (handle E q)" and "I (idle_world db)"
  shows "I (serve E qs schedule db)"
  unfolding serve_def
proof (rule pool_run_keeps)
  show "\<forall>p \<in> set (map (handle E) qs). acts_in (keeps I) p" using assms(1) by simp
qed (rule assms(2))

lemma serve_history:
  "w_db (serve E qs schedule db) = apply_ops (w_trace (serve E qs schedule db)) db \<and>
   (\<forall>op \<in> set (w_trace (serve E qs schedule db)). op_ok E op)"
  by (rule serve_keeps [where I = "\<lambda>w. w_db w = apply_ops (w_trace w) db \<and> (\<forall>op \<in> set (w_trace w). op_ok E op)"])
    (use history.handle_acts in \<open>simp_all add: idle_world_def\<close>)

section \<open>Licences\<close>

fun earned :: "(push_op \<Rightarrow> push_db \<Rightarrow> bool) \<Rightarrow> push_op list \<Rightarrow> push_db \<Rightarrow> nat" where
  "earned earns [] db = 0"
| "earned earns (op # ops) db = (if earns op db then 1 else 0) + earned earns ops (apply_op op db)"

lemma earned_append [simp]:
  "earned earns (ops @ ops') db = earned earns ops db + earned earns ops' (apply_ops ops db)"
  by (induction ops arbitrary: db) simp_all

definition paid_up :: "(push_op \<Rightarrow> push_db \<Rightarrow> bool) \<Rightarrow> (message \<Rightarrow> bool) \<Rightarrow> push_db \<Rightarrow> world \<Rightarrow> bool" where
  "paid_up earns cost db w \<longleftrightarrow>
     w_db w = apply_ops (w_trace w) db \<and> length (filter cost (w_out w)) \<le> earned earns (w_trace w) db"

definition credit :: "(push_op \<Rightarrow> push_db \<Rightarrow> bool) \<Rightarrow> (message \<Rightarrow> bool) \<Rightarrow> push_db \<Rightarrow> world \<Rightarrow> unit multiset" where
  "credit earns cost db w =
     replicate_mset (earned earns (w_trace w) db - length (filter cost (w_out w))) ()"

lemma unit_multiset: "N = replicate_mset (size N) ()" for N :: "unit multiset"
  by (induction N) auto

lemma unit_multiset_eq: "N = M \<longleftrightarrow> size N = size M" for N M :: "unit multiset"
  using unit_multiset by metis

lemma unit_subset: "N \<subseteq># M \<longleftrightarrow> size N \<le> size M" for N M :: "unit multiset"
proof
  assume "size N \<le> size M"
  then have "M = N + replicate_mset (size M - size N) ()" by (intro iffD2 [OF unit_multiset_eq]) simp
  then show "N \<subseteq># M" by (metis mset_subset_eq_add_left)
qed (rule size_mset_mono)

text \<open>With unit tokens only their number matters.\<close>

lemma unit_step:
  fixes N M M' :: "unit multiset"
  assumes "size N \<le> size M" and "size M + n \<le> size M' + size N"
  shows "\<exists>N'. M' = M - N + N' \<and> n \<le> size N'"
proof -
  let ?N' = "replicate_mset (size M' + size N - size M) ()"
  have "size (M - N) = size M - size N" using assms(1) by (simp add: unit_subset size_Diff_submset)
  then have "M' = M - N + ?N'" using assms by (intro iffD2 [OF unit_multiset_eq]) simp
  moreover have "n \<le> size ?N'" using assms by simp
  ultimately show ?thesis by blast
qed

interpretation wallet: server_base E
  "\<lambda>w w'. paid_up earns cost db w \<longrightarrow> paid_up earns cost db w' \<and> credit earns cost db w \<subseteq># credit earns cost db w'"
  for E earns cost db
  by unfold_locales (auto simp: paid_up_def credit_def world_steps unit_subset)

lemma size_credit:
  "size (credit earns cost db w) = earned earns (w_trace w) db - length (filter cost (w_out w))"
  by (simp add: credit_def)

lemma earn_owns:
  assumes "\<And>d. committed d (g d) = apply_op op d"
    and "\<And>d a d'. g d = Inr (a, d') \<Longrightarrow> P a \<Longrightarrow> earns op d"
  shows "owns (paid_up earns cost db) (credit earns cost db) (\<lambda>a N. P a \<longrightarrow> 1 \<le> size N) (db_call E op g) {#}"
  unfolding db_call_def tick_act_def
proof (rule owns_atom)
  fix w :: world
  let ?I = "paid_up earns cost db" and ?m = "credit earns cost db"
  let ?w = "w\<lparr>w_tick := Suc (w_tick w)\<rparr>"
  let ?c = "?w\<lparr>w_db := apply_op op (w_db w), w_trace := w_trace w @ [op]\<rparr>"
  let ?r = "let w' = ?w\<lparr>w_db := committed (w_db ?w) (g (w_db ?w)), w_trace := w_trace ?w @ [op]\<rparr> in
      case srv_fault E (w_tick w) of
        FailsBefore \<Rightarrow> (Inl (Failure 0), ?w)
      | FailsAfter \<Rightarrow> (Inl (Failure 0), w')
      | NoFault \<Rightarrow> (case g (w_db ?w) of Inl e \<Rightarrow> Inl (Failure 0) | Inr (a, db) \<Rightarrow> Inr a, w')"
  assume I: "?I w"
  have r: "?r = (Inl (Failure 0), ?w) \<or> ?r = (Inl (Failure 0), ?c) \<or>
      (\<exists>a d'. g (w_db w) = Inr (a, d') \<and> ?r = (Inr a, ?c))"
    by (simp add: assms(1) Let_def split: db_fault.split sum.split)
  have keep: "?I ?w" "?I ?c" "size (?m w) \<le> size (?m ?w)" "size (?m w) \<le> size (?m ?c)"
    using I by (simp_all add: paid_up_def size_credit)
  have gain: "size (?m w) + 1 \<le> size (?m ?c)" if "earns op (w_db w)"
    using I that by (simp add: paid_up_def size_credit Suc_diff_le)
  have tok: "\<exists>N'. ?m v = ?m w - {#} + N' \<and> n \<le> size N'" if "size (?m w) + n \<le> size (?m v)" for v n
    using unit_step [of "{#}" "?m w" n "?m v"] that by simp
  show "?I (snd ?r) \<and> (\<exists>N'. ?m (snd ?r) = ?m w - {#} + N' \<and>
      (\<forall>a. fst ?r = Inr a \<longrightarrow> P a \<longrightarrow> 1 \<le> size N'))"
    using r
  proof (elim disjE exE conjE)
    assume "?r = (Inl (Failure 0), ?w)"
    then show ?thesis using keep tok [of 0 ?w] by simp
  next
    assume "?r = (Inl (Failure 0), ?c)"
    then show ?thesis using keep tok [of 0 ?c] by simp
  next
    fix a d'
    assume g: "g (w_db w) = Inr (a, d')" and eq: "?r = (Inr a, ?c)"
    show ?thesis
    proof (cases "P a")
      case True
      then show ?thesis using keep(2) tok [OF gain] assms(2) [OF g] unfolding eq by simp
    next
      case False
      then show ?thesis using keep tok [of 0 ?c] unfolding eq by simp
    qed
  qed
qed

lemma spend_owns:
  assumes "1 \<le> size N"
  shows "owns (paid_up earns cost db) (credit earns cost db) any_tokens (send_notification E m p) N"
  unfolding send_notification_def tick_act_def Let_def
proof (rule owns_atom)
  fix w :: world
  let ?m = "credit earns cost db"
  assume I: "paid_up earns cost db w" and sub: "N \<subseteq># ?m w"
  let ?w = "w\<lparr>w_tick := Suc (w_tick w), w_out := w_out w @ [\<lparr>msg_target = m, msg_payload = p\<rparr>]\<rparr>"
  have n: "1 \<le> size (?m w)" "size N \<le> size (?m w)" using sub assms by (auto simp: unit_subset)
  have "size (?m w) + 0 \<le> size (?m ?w) + size N"
    using n assms by (auto simp: size_credit)
  then have "\<exists>N'. ?m ?w = ?m w - N + N'" using unit_step [OF n(2)] by blast
  moreover have "paid_up earns cost db ?w" using I n by (auto simp: paid_up_def size_credit)
  ultimately show "paid_up earns cost db
       (snd (case srv_send E (w_tick w) \<lparr>msg_target = m, msg_payload = p\<rparr> of None \<Rightarrow> Inr ()
           | Some status \<Rightarrow> Inl (Failure status),
          w\<lparr>w_tick := Suc (w_tick w),
            w_out := w_out (w\<lparr>w_tick := Suc (w_tick w)\<rparr>) @ [\<lparr>msg_target = m, msg_payload = p\<rparr>]\<rparr>)) \<and>
      (\<exists>N'. ?m
       (snd (case srv_send E (w_tick w) \<lparr>msg_target = m, msg_payload = p\<rparr> of None \<Rightarrow> Inr ()
           | Some status \<Rightarrow> Inl (Failure status),
          w\<lparr>w_tick := Suc (w_tick w),
            w_out := w_out (w\<lparr>w_tick := Suc (w_tick w)\<rparr>) @ [\<lparr>msg_target = m, msg_payload = p\<rparr>]\<rparr>)) =
          ?m w - N + N' \<and>
       (\<forall>a. fst (case srv_send E (w_tick w) \<lparr>msg_target = m, msg_payload = p\<rparr> of None \<Rightarrow> Inr ()
           | Some status \<Rightarrow> Inl (Failure status),
          w\<lparr>w_tick := Suc (w_tick w),
            w_out := w_out (w\<lparr>w_tick := Suc (w_tick w)\<rparr>) @ [\<lparr>msg_target = m, msg_payload = p\<rparr>]\<rparr>) = Inr a \<longrightarrow> True))"
    by simp
qed

lemma free_send:
  assumes "\<not> cost \<lparr>msg_target = m, msg_payload = p\<rparr>"
  shows "self_reliant (paid_up earns cost db) (credit earns cost db) (send_notification E m p)"
  using assms unfolding send_notification_def Let_def tick_act_def
  by (intro self_reliant_acts) (simp add: paid_up_def unit_subset size_credit)

lemma earn_owns_any:
  assumes "\<And>d. committed d (g d) = apply_op op d"
    and "\<And>d a d'. g d = Inr (a, d') \<Longrightarrow> P a \<Longrightarrow> earns op d"
  shows "owns (paid_up earns cost db) (credit earns cost db) (\<lambda>a N. P a \<longrightarrow> 1 \<le> size N) (db_call E op g) N"
proof (rule owns_mono)
  show "owns (paid_up earns cost db) (credit earns cost db)
      (\<lambda>a K. \<exists>N'. K = N' + N \<and> (P a \<longrightarrow> 1 \<le> size N')) (db_call E op g) N"
    using owns_frame [OF earn_owns [where g = g and op = op and P = P and earns = earns], where F = N]
      assms by simp
qed auto

section \<open>A granted outbound budget pays for each message\<close>

fun outbound_grant :: "push_op \<Rightarrow> push_db \<Rightarrow> bool" where
  "outbound_grant (OpGlobalRate b t win l) db =
     (b = budget_outbound \<and> fst (consume_global_rate_limit b t win l db))"
| "outbound_grant op db = False"

definition any_message :: "message \<Rightarrow> bool" where
  "any_message m = True"

lemma earned_outbound: "earned outbound_grant ops db = budget_granted budget_outbound ops db"
proof (induction ops arbitrary: db)
  case (Cons op ops)
  then show ?case by (cases op) auto
qed simp

lemma outbound_owns:
  "owns (paid_up outbound_grant c db) (credit outbound_grant c db) (\<lambda>ok N. ok \<longrightarrow> 1 \<le> size N)
     (consume_budget E budget_outbound w l) N"
  unfolding consume_budget_def
proof (rule owns_bindP)
  show "owns (paid_up outbound_grant c db) (credit outbound_grant c db) any_tokens (read_now E) N"
    by (intro self_reliant_any self_reliant_acts wallet.read_now_acts)
next
  fix t and N :: "unit multiset"
  show "owns (paid_up outbound_grant c db) (credit outbound_grant c db) (\<lambda>ok N. ok \<longrightarrow> 1 \<le> size N)
      (bindP (repo_global_rate E budget_outbound t w l) (\<lambda>allowed. if allowed then Ret True
         else bindP (write_log [(''route'', JStr ''push-budget''), (''status'', js_int 429),
                  (''budgetCategory'', JStr budget_outbound), (''allowed'', JBool False)])
                (\<lambda>_. Ret False))) N"
  proof (rule owns_bindP)
    show "owns (paid_up outbound_grant c db) (credit outbound_grant c db) (\<lambda>ok N. ok \<longrightarrow> 1 \<le> size N)
       (repo_global_rate E budget_outbound t w l) N"
      unfolding repo_global_rate_def
      by (rule earn_owns_any) (auto simp: committed_def split: prod.splits)
  next
    fix ok and N :: "unit multiset"
    assume n: "ok \<longrightarrow> 1 \<le> size N"
    have "self_reliant (paid_up outbound_grant c db) (credit outbound_grant c db)
       (write_log [(''route'', JStr ''push-budget''), (''status'', js_int 429),
                  (''budgetCategory'', JStr budget_outbound), (''allowed'', JBool False)])"
      by (intro self_reliant_acts wallet.write_log_acts)
        (simp add: log_ok_def log_words_def budget_outbound_def)
    then show "owns (paid_up outbound_grant c db) (credit outbound_grant c db) (\<lambda>ok N. ok \<longrightarrow> 1 \<le> size N)
       (if ok then Ret True else bindP (write_log [(''route'', JStr ''push-budget''),
          (''status'', js_int 429), (''budgetCategory'', JStr budget_outbound),
          (''allowed'', JBool False)]) (\<lambda>_. Ret False)) N"
      using n by (auto intro: owns_bindP [OF self_reliant_any])
  qed
qed

text \<open>Whoever has paid may send; what follows needs no tokens.\<close>

lemma paid_send:
  assumes "1 \<le> size N" and "\<And>a. self_reliant (paid_up e c db) (credit e c db) (k a)"
    and "\<And>x. self_reliant (paid_up e c db) (credit e c db) (h x)"
  shows "owns (paid_up e c db) (credit e c db) any_tokens
     (catchP (bindP (send_notification E m p) k) h) N"
  using assms
  by (intro owns_catchP owns_bindP [OF spend_owns]) (auto intro: self_reliant_any)

lemma paid_gate:
  assumes "self_reliant (paid_up outbound_grant c db) (credit outbound_grant c db) p"
    and "\<And>N. 1 \<le> size N \<Longrightarrow> owns (paid_up outbound_grant c db) (credit outbound_grant c db) any_tokens q N"
  shows "self_reliant (paid_up outbound_grant c db) (credit outbound_grant c db)
     (bindP (consume_budget E budget_outbound w l) (\<lambda>ok. if \<not> ok then p else q))"
  unfolding self_reliant_def
  by (rule owns_bindP [OF outbound_owns]) (use assms in \<open>auto intro: self_reliant_any\<close>)

lemma release_free:
  "self_reliant (paid_up e c db) (credit e c db) (bindP (repo_release E k ev) (\<lambda>_. Ret x))"
  by (intro self_reliant_acts wallet.release_acts)

text \<open>What follows a delivery attempt touches only the tables.\<close>

lemma marked_free:
  assumes "clock_of E t"
  shows "self_reliant (paid_up e c db) (credit e c db)
     (bindP (repo_mark E sn (Some ev) t) (\<lambda>marked.
        if \<not> marked then bindP (repo_release E k ev) (\<lambda>_. Ret DTransient) else Ret DSent))"
  using assms
  by (auto intro!: self_reliant_bindP self_reliant_acts [OF wallet.repo_acts(8)] release_free)

lemma failed_free:
  "self_reliant (paid_up e c db) (credit e c db)
     (if st = 404 \<or> st = 410
      then bindP (repo_delete_if_current E sn) (\<lambda>removed.
             if \<not> removed then bindP (repo_release E k ev) (\<lambda>_. Ret (gone_or_transient removed))
             else Ret (gone_or_transient removed))
      else bindP (repo_release E k ev) (\<lambda>_. Ret DTransient))" for st :: int
  by (auto intro!: self_reliant_bindP self_reliant_acts [OF wallet.repo_acts(5)] release_free)

lemma deliver_claimed_paid:
  assumes "clock_of E t"
  shows "self_reliant (paid_up outbound_grant c db) (credit outbound_grant c db)
     (deliver_claimed E k sn n ev t)"
  unfolding deliver_claimed_def Let_def
  using marked_free [OF assms] failed_free
  by (intro paid_gate release_free paid_send) auto

lemma send_challenge_paid:
  "self_reliant (paid_up outbound_grant c db) (credit outbound_grant c db) (send_challenge E g ch)"
proof -
  have "self_reliant (paid_up outbound_grant c db) (credit outbound_grant c db)
     (bindP (repo_cancel E x) (\<lambda>_. Ret y))" for x and y :: response
    by (intro self_reliant_bindP self_reliant_acts [OF wallet.repo_acts(3)]) simp
  then show ?thesis
    unfolding send_challenge_def Let_def
    by (intro paid_gate paid_send) auto
qed

lemma send_test_paid:
  assumes "clock_of E t" and "1 \<le> size N"
  shows "owns (paid_up e c db) (credit e c db) any_tokens (send_test E sn t) N"
proof -
  have "self_reliant (paid_up e c db) (credit e c db)
      (bindP (repo_mark E sn None t) (\<lambda>marked. if \<not> marked then Ret (test_changed ''tested.'')
         else Ret (flag_response ''sent'' 200)))"
    using assms(1) by (intro self_reliant_bindP self_reliant_acts [OF wallet.repo_acts(8)]) auto
  moreover have "self_reliant (paid_up e c db) (credit e c db)
      (if st = 404 \<or> st = 410
       then bindP (repo_delete_if_current E sn) (\<lambda>removed.
              if \<not> removed then Ret (test_changed ''tested.'')
              else Ret (error_response ''Push subscription expired.'' 410))
       else Ret (error_response ''The test notification could not be sent.'' 502))" for st :: int
    by (auto intro!: self_reliant_bindP self_reliant_acts [OF wallet.repo_acts(5)])
  ultimately show ?thesis
    unfolding send_test_def Let_def using assms(2) by (intro paid_send) auto
qed

text \<open>A clock reading is a value of the clock, with tokens.\<close>

lemma now_reliant:
  assumes "\<And>t. clock_of E t \<Longrightarrow> self_reliant (paid_up e c db) (credit e c db) (k t)"
  shows "self_reliant (paid_up e c db) (credit e c db) (bindP (read_now E) k)"
  unfolding self_reliant_def
proof (rule owns_bindP)
  have "yields (clock_of E) (read_now E)"
    by (auto simp: read_now_def tick_act_def clock_of_def)
  from owns_free [OF wallet.read_now_acts this]
  show "owns (paid_up e c db) (credit e c db) (\<lambda>t N. {#} \<subseteq># N \<and> clock_of E t) (read_now E) {#}" .
qed (use assms in \<open>auto intro: self_reliant_any\<close>)

lemma test_checked_paid:
  "self_reliant (paid_up outbound_grant c db) (credit outbound_grant c db) (test_checked E sn)"
proof -
  have gate: "self_reliant (paid_up outbound_grant c db) (credit outbound_grant c db)
      (bindP (consume_budget E budget_outbound w l) (\<lambda>ok.
         if \<not> ok then Ret y else send_test E sn t))" if "clock_of E t" for w l y t
    using that by (intro paid_gate send_test_paid) auto
  show ?thesis
    unfolding test_checked_def rate_window_seconds_def rate_limit_def
    by (auto intro!: self_reliant_bindP self_reliant_acts [OF wallet.tests_acts] now_reliant
        self_reliant_acts [OF wallet.repo_acts(6)] gate)
qed

lemma deliver_paid:
  "self_reliant (paid_up outbound_grant c db) (credit outbound_grant c db) (deliver E n rd)"
proof -
  have event: "self_reliant (paid_up outbound_grant c db) (credit outbound_grant c db)
      (bindP (read_now E) (\<lambda>t. bindP (repo_rate E k t rate_window_seconds rate_limit) (\<lambda>in_rate.
        if \<not> in_rate then Ret DSuppressed
        else bindP (repo_claim E k ev t pending_delivery_timeout_seconds) (\<lambda>claimed.
          if \<not> claimed then Ret DSuppressed else deliver_claimed E k sn n ev t))))" for k ev sn
    unfolding pending_delivery_timeout_seconds_def rate_window_seconds_def rate_limit_def
    by (auto intro!: now_reliant self_reliant_bindP self_reliant_acts [OF wallet.repo_acts(6)]
        self_reliant_acts [OF wallet.claim_acts] deliver_claimed_paid)
  show ?thesis
    unfolding deliver_def
    by (auto intro!: event self_reliant_bindP self_reliant_acts [OF wallet.repo_acts(5)]
        split: option.split)
qed

interpretation postage: licensed E "paid_up outbound_grant any_message db"
  "credit outbound_grant any_message db" for E db
  by unfold_locales (rule deliver_paid send_challenge_paid test_checked_paid)+

section \<open>A successful claim pays for each message of an event\<close>

definition event_message :: "string \<Rightarrow> string \<Rightarrow> message \<Rightarrow> bool" where
  "event_message k e m \<longleftrightarrow>
     js_opt ''kind'' (msg_payload m) = JStr ''matrix'' \<and>
     js_opt ''owner'' (msg_payload m) = JStr k \<and> js_opt ''eventId'' (msg_payload m) = JStr e"

abbreviation claim_paid :: "string \<Rightarrow> string \<Rightarrow> push_db \<Rightarrow> world \<Rightarrow> bool" where
  "claim_paid k e \<equiv> paid_up (claim_succeeds k e) (event_message k e)"

abbreviation claim_credit :: "string \<Rightarrow> string \<Rightarrow> push_db \<Rightarrow> world \<Rightarrow> unit multiset" where
  "claim_credit k e \<equiv> credit (claim_succeeds k e) (event_message k e)"

lemma earned_claims: "earned (claim_succeeds k e) ops db = claims_won k e ops db"
  by (induction ops arbitrary: db) simp_all

lemma keep_tokens:
  assumes "acts_in (\<lambda>w w'. paid_up e c db w \<longrightarrow> paid_up e c db w' \<and> credit e c db w \<subseteq># credit e c db w') p"
    and "1 \<le> size N"
  shows "owns (paid_up e c db) (credit e c db) (\<lambda>a N. 1 \<le> size N) p N"
proof (rule owns_mono)
  have "yields (\<lambda>_. True) p" by (induction p rule: prog_induct) simp_all
  from owns_free [OF assms(1) this]
  show "owns (paid_up e c db) (credit e c db) (\<lambda>a N'. N \<subseteq># N' \<and> True) p N" .
qed (use assms(2) in \<open>auto dest: size_mset_mono\<close>)

lemma claim_owns:
  assumes "k' = k" and "ev = e"
  shows "owns (claim_paid k e db) (claim_credit k e db) (\<lambda>ok N. ok \<longrightarrow> 1 \<le> size N)
     (repo_claim E k' ev t stale) N"
  unfolding repo_claim_def assms
proof (rule owns_bindP)
  show "owns (claim_paid k e db) (claim_credit k e db) (\<lambda>ok N. ok \<longrightarrow> 1 \<le> size N)
     (db_call E (OpClaimInsert k e t) (\<lambda>db. Inr (claim_insert k e t db))) N"
    by (rule earn_owns_any) (auto simp: committed_def split: prod.splits)
next
  fix inserted and N :: "unit multiset"
  assume n: "inserted \<longrightarrow> 1 \<le> size N"
  have "owns (claim_paid k e db) (claim_credit k e db) (\<lambda>ok N. ok \<longrightarrow> 1 \<le> size N)
     (db_call E (OpReclaim k e t stale) (\<lambda>db. Inr (claim_reclaim k e t stale db))) N"
    by (rule earn_owns_any) (auto simp: committed_def split: prod.splits)
  with n show "owns (claim_paid k e db) (claim_credit k e db) (\<lambda>ok N. ok \<longrightarrow> 1 \<le> size N)
     (if inserted then Ret True
      else db_call E (OpReclaim k e t stale) (\<lambda>db. Inr (claim_reclaim k e t stale db))) N"
    by simp
qed

lemma matrix_payload_message:
  assumes "event_message k e \<lparr>msg_target = m, msg_payload = generic_notification_payload n kind (Some own)\<rparr>"
    and "event_id_of n = Some ev"
  shows "kind = ''matrix'' \<and> own = k \<and> ev = e"
  using assms
  by (auto simp: event_message_def generic_notification_payload_def event_id_of_def nullish_null_def
      split: list.splits jsval.splits if_splits)

lemma test_payload_message:
  "\<not> event_message k e \<lparr>msg_target = m, msg_payload = generic_notification_payload n ''test'' ow\<rparr>"
  by (simp add: event_message_def generic_notification_payload_def)

lemma challenge_payload_message:
  "\<not> event_message k e \<lparr>msg_target = m, msg_payload = challenge_payload ch g\<rparr>"
  by (simp add: event_message_def challenge_payload_def)

lemma deliver_claimed_own:
  assumes "clock_of E t" and "1 \<le> size N"
  shows "owns (claim_paid k e db) (claim_credit k e db) any_tokens (deliver_claimed E k sn n e t) N"
  unfolding deliver_claimed_def Let_def
proof (rule owns_bindP)
  show "owns (claim_paid k e db) (claim_credit k e db) (\<lambda>a N. 1 \<le> size N)
     (consume_budget E budget_outbound one_minute_seconds (delivery_limit (srv_limits E))) N"
    using assms(2) by (intro keep_tokens wallet.outbound_acts)
next
  fix ok and N :: "unit multiset"
  assume "1 \<le> size N"
  moreover note self_reliant_any [OF release_free] marked_free [OF assms(1)] failed_free
  ultimately show "owns (claim_paid k e db) (claim_credit k e db) any_tokens
     (if \<not> ok then bindP (repo_release E k e) (\<lambda>_. Ret DTransient)
      else catchP (bindP (send_notification E (snap_material sn)
              (generic_notification_payload n ''matrix'' (Some (snap_key sn))))
            (\<lambda>_. bindP (repo_mark E sn (Some e) t) (\<lambda>marked.
               if \<not> marked then bindP (repo_release E k e) (\<lambda>_. Ret DTransient) else Ret DSent)))
         (\<lambda>x. if status_code x = 404 \<or>
                 status_code x = 410
              then bindP (repo_delete_if_current E sn) (\<lambda>removed.
                     if \<not> removed then bindP (repo_release E k e) (\<lambda>_. Ret (gone_or_transient removed))
                     else Ret (gone_or_transient removed))
              else bindP (repo_release E k e) (\<lambda>_. Ret DTransient))) N"
    by (cases ok) (auto intro!: paid_send)
qed

text \<open>A message the licence is not about needs no token.\<close>

lemma free_gate:
  assumes "self_reliant (paid_up e c db) (credit e c db) p" and "self_reliant (paid_up e c db) (credit e c db) q"
  shows "self_reliant (paid_up e c db) (credit e c db)
     (bindP (consume_budget E budget_outbound one_minute_seconds (delivery_limit (srv_limits E)))
        (\<lambda>ok. if \<not> ok then p else q))"
  using assms by (auto intro!: self_reliant_bindP self_reliant_acts [OF wallet.outbound_acts])

lemma free_attempt:
  assumes "\<not> c \<lparr>msg_target = m, msg_payload = p\<rparr>"
    and "\<And>a. self_reliant (paid_up e c db) (credit e c db) (k a)"
    and "\<And>x. self_reliant (paid_up e c db) (credit e c db) (h x)"
  shows "self_reliant (paid_up e c db) (credit e c db) (catchP (bindP (send_notification E m p) k) h)"
  using assms by (intro self_reliant_catchP self_reliant_bindP free_send)

lemma deliver_claimed_other:
  assumes "clock_of E t" and "\<not> event_message k e
     \<lparr>msg_target = snap_material sn, msg_payload = generic_notification_payload n ''matrix'' (Some (snap_key sn))\<rparr>"
  shows "self_reliant (claim_paid k e db) (claim_credit k e db) (deliver_claimed E k' sn n ev t)"
  unfolding deliver_claimed_def Let_def
  using assms(2) marked_free [OF assms(1)] failed_free
  by (intro free_gate free_attempt release_free)

lemma snapshot_by_hash_key: "snapshot_by_hash snaps h = Some sn \<Longrightarrow> snap_key sn = h"
  by (auto simp: snapshot_by_hash_def dest!: map_of_SomeD)

lemma deliver_event:
  assumes "event_id_of n = Some ev"
  shows "self_reliant (claim_paid k e db) (claim_credit k e db)
      (bindP (read_now E) (\<lambda>t. bindP (repo_rate E (snap_key sn) t rate_window_seconds rate_limit) (\<lambda>in_rate.
        if \<not> in_rate then Ret DSuppressed
        else bindP (repo_claim E (snap_key sn) ev t pending_delivery_timeout_seconds) (\<lambda>claimed.
          if \<not> claimed then Ret DSuppressed
          else deliver_claimed E (snap_key sn) sn n ev t))))"
proof -
  have claimed: "self_reliant (claim_paid k e db) (claim_credit k e db)
      (bindP (repo_claim E (snap_key sn) ev t 120) (\<lambda>claimed.
          if \<not> claimed then Ret DSuppressed else deliver_claimed E (snap_key sn) sn n ev t))"
    if t: "clock_of E t" for t
  proof (cases "event_message k e \<lparr>msg_target = snap_material sn,
      msg_payload = generic_notification_payload n ''matrix'' (Some (snap_key sn))\<rparr>")
    case True
    then have eq: "snap_key sn = k" "ev = e" using matrix_payload_message assms by blast+
    show ?thesis
      unfolding self_reliant_def
    proof (rule owns_bindP [OF claim_owns [OF eq]])
      fix ok and N :: "unit multiset"
      assume "ok \<longrightarrow> 1 \<le> size N"
      then show "owns (claim_paid k e db) (claim_credit k e db) any_tokens
          (if \<not> ok then Ret DSuppressed else deliver_claimed E (snap_key sn) sn n ev t) N"
        using deliver_claimed_own [OF t] by (simp add: eq)
    qed
  next
    case False
    then show ?thesis
      using t deliver_claimed_other [OF t False]
      by (auto intro!: self_reliant_bindP self_reliant_acts [OF wallet.claim_acts])
  qed
  show ?thesis
    unfolding pending_delivery_timeout_seconds_def rate_window_seconds_def rate_limit_def
    by (auto intro!: now_reliant self_reliant_bindP self_reliant_acts [OF wallet.repo_acts(6)] claimed)
qed

lemma nonempty_simps: "nonempty (Some []) = None" "k \<noteq> [] \<Longrightarrow> nonempty (Some k) = Some k"
  by (auto simp: nonempty_def split: list.split)

lemma deliver_claims:
  "self_reliant (claim_paid k e db) (claim_credit k e db) (deliver E n (resolve_device E snaps d))"
proof (cases "own_device d")
  case True
  show ?thesis
  proof (cases "snapshot_by_hash snaps (the (device_hash E d))")
    case None
    then show ?thesis using True
      by (simp add: deliver_def resolve_device_def device_hash_def split: option.split)
  next
    case (Some sn)
    from snapshot_by_hash_key [OF this] have key: "device_hash E d = Some (snap_key sn)"
      using True by (simp add: device_hash_def)
    have "self_reliant (claim_paid k e db) (claim_credit k e db)
        (if \<not> valid_endpoint E (JStr (mat_endpoint (snap_material sn)))
         then bindP (repo_delete_if_current E sn) (\<lambda>removed. Ret (gone_or_transient removed))
         else case event_id_of n of
            None \<Rightarrow> Ret DSuppressed
          | Some event \<Rightarrow> bindP (read_now E) (\<lambda>t.
              bindP (repo_rate E (snap_key sn) t rate_window_seconds rate_limit) (\<lambda>in_rate.
                if \<not> in_rate then Ret DSuppressed
                else bindP (repo_claim E (snap_key sn) event t pending_delivery_timeout_seconds)
                  (\<lambda>claimed. if \<not> claimed then Ret DSuppressed
                     else deliver_claimed E (snap_key sn) sn n event t))))"
      by (auto intro!: self_reliant_bindP self_reliant_acts [OF wallet.repo_acts(5)] deliver_event
          split: option.split)
    then show ?thesis
      using True Some key
      by (cases "snap_key sn = []") (simp_all add: deliver_def resolve_device_def nonempty_simps)
  qed
qed (simp add: deliver_def resolve_device_def)

lemma challenge_claims: "self_reliant (claim_paid k e db) (claim_credit k e db) (send_challenge E g ch)"
proof -
  have "self_reliant (claim_paid k e db) (claim_credit k e db)
     (bindP (repo_cancel E x) (\<lambda>_. Ret y))" for x and y :: response
    by (intro self_reliant_bindP self_reliant_acts [OF wallet.repo_acts(3)]) simp
  then show ?thesis
    unfolding send_challenge_def Let_def
    by (intro free_gate free_attempt) (auto simp: challenge_payload_message)
qed

lemma test_claims: "self_reliant (claim_paid k e db) (claim_credit k e db) (test_checked E sn)"
proof -
  have "self_reliant (claim_paid k e db) (claim_credit k e db) (send_test E sn t)" if "clock_of E t" for t
    unfolding send_test_def Let_def using that
    by (intro free_attempt)
      (auto intro!: self_reliant_bindP self_reliant_acts [OF wallet.repo_acts(8)]
        self_reliant_acts [OF wallet.repo_acts(5)] simp: test_payload_message)
  then have gate: "self_reliant (claim_paid k e db) (claim_credit k e db)
      (bindP (consume_budget E budget_outbound one_minute_seconds (delivery_limit (srv_limits E)))
         (\<lambda>ok. if \<not> ok then Ret y else send_test E sn t))" if "clock_of E t" for y t
    using that by (intro free_gate) auto
  show ?thesis
    unfolding test_checked_def rate_window_seconds_def rate_limit_def
    by (auto intro!: self_reliant_bindP self_reliant_acts [OF wallet.tests_acts] now_reliant
        self_reliant_acts [OF wallet.repo_acts(6)] gate)
qed

interpretation claims: licensed E "claim_paid k e db" "claim_credit k e db" for E k e db
  by unfold_locales (rule deliver_claims challenge_claims test_claims)+

end
