(* ===== verification/Push_Service.thy ===== *)
theory Push_Service
  imports Push_Safety
begin

text \<open>
  What the push gateway promises its users: the global guarantees over every schedule of every
  pool of requests, and the behaviour of the single handlers.
\<close>

section \<open>A concrete server\<close>

definition sample_limits :: push_limits where
  "sample_limits = push_limits_from_environment (\<lambda>_. None)"

definition sample_url :: url where
  "sample_url =
     \<lparr>url_protocol = ''https:'', url_username = [], url_password = [],
      url_hostname = ''fcm.googleapis.com'', url_port = [], url_pathname = ''/'', url_search = [],
      url_hash = [], url_origin = ''https://sub'', url_href = ''https://fcm.googleapis.com/''\<rparr>"

definition sample_key :: string where
  "sample_key = replicate 43 (CHR ''k'')"

definition sample_notification :: jsval where
  "sample_notification =
     JObj [(''event_id'', JStr ''$1''), (''room_id'', JStr ''!r''),
           (''devices'', js_array [JObj [(''app_id'', JStr app_id), (''pushkey'', JStr sample_key)]])]"

definition sample_body :: jsval where
  "sample_body = JObj [(''notification'', sample_notification), (''managementKey'', JStr sample_key)]"

text \<open>Every capability hashes to the key of the sample subscription; every push is accepted.\<close>

definition sample_server :: "jsval option \<Rightarrow> server" where
  "sample_server parsed =
     \<lparr>srv_now = (\<lambda>n. 100), srv_ms = (\<lambda>n. 100000), srv_send = (\<lambda>n m. None),
      srv_fault = (\<lambda>n. NoFault), srv_random = (\<lambda>n. sample_key), srv_locked = (\<lambda>n k. False),
      srv_left = (\<lambda>n. True), srv_hash = (\<lambda>s. ''d''), srv_json = (\<lambda>b. parsed),
      srv_url = (\<lambda>s. Some sample_url), srv_ip = (\<lambda>s. False), srv_hosts = [],
      srv_config = Some \<lparr>vapid_public = ''P'', vapid_private = ''K'', vapid_subject = ''S''\<rparr>,
      srv_limits = sample_limits\<rparr>"

definition sample_request :: "string \<Rightarrow> request" where
  "sample_request meth =
     \<lparr>req_method = meth, req_url = ''https://sub/api'', req_origin = Some ''https://sub'',
      req_length = None, req_body = None, req_broken = False\<rparr>"

text \<open>The device keeps a subscription during a sequence of calls.\<close>

fun stays_subscribed :: "string \<Rightarrow> push_op list \<Rightarrow> push_db \<Rightarrow> bool" where
  "stays_subscribed k [] db = True"
| "stays_subscribed k (op # ops) db =
     (row_of k (apply_op op db) \<noteq> None \<and> stays_subscribed k ops (apply_op op db))"

definition never_releases :: "string \<Rightarrow> string \<Rightarrow> push_op list \<Rightarrow> bool" where
  "never_releases k e ops \<longleftrightarrow>
     list_all (\<lambda>op. case op of OpRelease k' e' \<Rightarrow> \<not> (k' = k \<and> e' = e) | _ \<Rightarrow> True) ops"

section \<open>A request evaluated\<close>

text \<open>The sample notification, alone and to its end; the witnesses are about this run.\<close>

definition sample_end :: world where
  "sample_end =
     snd (run (handle (sample_server (Some sample_body)) (MatrixNotify (sample_request ''POST'')))
            (idle_world sample_db))"

definition world_facts :: "world \<Rightarrow> bool" where
  "world_facts w \<longleftrightarrow>
     length (w_out w) = 1 \<and> length (w_log w) = 2 \<and>
     length (filter (event_message ''d'' ''$1'') (w_out w)) = 1 \<and>
     never_releases ''d'' ''$1'' (w_trace w) \<and> stays_subscribed ''d'' (w_trace w) sample_db"

lemma run_tick_act [simp]: "run (tick_act f) w = f (w_tick w) (w\<lparr>w_tick := Suc (w_tick w)\<rparr>)"
  by (simp add: tick_act_def)

lemma par2_last: "par2 c (bindP (tick_act f) k) (Ret b) = bindP (bindP (tick_act f) k) (\<lambda>a. Ret (a, b))"
  by (simp add: tick_act_def atom_def)

lemma cleanup_none:
  assumes "\<forall>r \<in> set (subs db). cutoff < sub_updated r"
  shows "cleanup_subscriptions locked cutoff n db = (0, db)"
proof -
  have "filter (\<lambda>r. sub_updated r \<le> cutoff \<and> \<not> locked (sub_key r)) (subs db) = []"
    using assms by (auto simp: filter_empty_conv)
  then show ?thesis
    by (simp add: cleanup_subscriptions_def Let_def delete_subs_def delete_deliveries_def)
qed

lemma sample_reads: "read_json (sample_server (Some sample_body)) (sample_request m) = Inr sample_body"
  by (simp add: read_json_def sample_server_def sample_request_def)

lemma sample_endpoint: "valid_endpoint (sample_server j) (JStr ''e'')"
  by code_simp

lemma sample_server_simps:
  "srv_now (sample_server j) n = 100" "srv_ms (sample_server j) n = 100000"
  "srv_send (sample_server j) n m = None" "srv_fault (sample_server j) n = NoFault"
  "srv_hash (sample_server j) k = ''d''" "srv_left (sample_server j) n"
  "srv_config (sample_server j) =
     Some \<lparr>vapid_public = ''P'', vapid_private = ''K'', vapid_subject = ''S''\<rparr>"
  by (simp_all add: sample_server_def)

lemma sample_limit_simps:
  "delivery_limit (srv_limits (sample_server j)) = 3000"
  "notify_limit (srv_limits (sample_server j)) = 600"
  by code_simp+

lemma sample_notification_simps:
  "js_prop ''notification'' sample_body = Some sample_notification"
  "bad_notification sample_notification = False" "event_id_of sample_notification = Some ''$1''"
  "array_items (js_opt ''devices'' sample_notification) =
     [JObj [(''app_id'', JStr app_id), (''pushkey'', JStr sample_key)]]"
  "own_device (JObj [(''app_id'', JStr app_id), (''pushkey'', JStr sample_key)])"
  by code_simp+

lemmas sample_simps = sample_server_simps sample_limit_simps sample_notification_simps

lemmas constant_defs = budget_notify_def budget_outbound_def one_minute_seconds_def
  rate_window_seconds_def rate_limit_def delivery_concurrency_def
  pending_delivery_timeout_seconds_def delivery_retention_seconds_def
  stale_subscription_seconds_def stale_cleanup_batch_def

lemmas table_defs = sample_db_def sample_row_def idle_world_def initial_db_def row_snapshot_def
  row_material_def consume_global_rate_limit_def touch_budget_def window_start_def
  window_count_def consume_rate_limit_def touch_row_def claim_insert_def mark_delivered_def
  mark_delivery_def is_current_def same_material_def cleanup_deliveries_def
  delete_deliveries_def committed_def same_delivery_def

lemma sample_end_facts: "world_facts sample_end"
  apply (simp add: sample_end_def notify_def guarded_def read_ms_def sample_reads lift_result_def get_prop_def sample_simps cong: step_congs)
  apply (simp add: repo_get_subscriptions_def db_read_def device_hash_def sample_simps unique_hashes_def js_unique_def get_subscriptions_def sample_db_def sample_row_def idle_world_def row_snapshot_def row_material_def cong: step_congs)
  apply (simp add: notify_resolved_def with_configuration_def resolve_device_def device_hash_def sample_simps snapshot_by_hash_def cong: step_congs)
  apply (simp add: notify_devices_def consume_budget_def read_now_def sample_simps repo_global_rate_def db_call_def table_defs constant_defs cong: step_congs)
  apply (simp add: map_with_concurrency_def new_cell_def delivery_concurrency_def take_index_def par2_last cong: step_congs)
  apply (simp add: deliver_def sample_simps sample_endpoint nonempty_simps read_now_def repo_rate_def db_call_def table_defs constant_defs cong: step_congs)
  apply (simp add: repo_claim_def db_call_def sample_simps table_defs cong: step_congs)
  apply (simp add: deliver_claimed_def consume_budget_def read_now_def sample_simps repo_global_rate_def db_call_def table_defs constant_defs cong: step_congs)
  apply (simp add: send_notification_def sample_simps repo_mark_def db_call_def table_defs cong: step_congs)
  apply (simp add: store_result_def take_index_def read_results_def cong: step_congs)
  apply (simp add: summarize_def write_log_def result_count_def rejected_keys_def cong: step_congs)
  apply (simp add: read_now_def sample_simps cong: step_congs)
  apply (simp add: ignoring_def repo_cleanup_deliveries_def db_call_def sample_simps constant_defs cleanup_deliveries_def delete_deliveries_def committed_def cong: step_congs)
  apply (simp add: cleanup_stale_subscriptions_def read_now_def sample_simps repo_cleanup_subscriptions_def cong: step_congs)
  apply (simp add: db_call_def sample_simps constant_defs cleanup_none committed_def cong: step_congs)
  apply (simp add: write_log_def read_ms_def sample_simps rejected_response_def json_response_def cong: step_congs)
  apply (simp add: world_facts_def event_message_def generic_notification_payload_def sample_notification_def nullish_null_def never_releases_def)
  apply (simp add: table_defs row_of_def cleanup_none)
  done

lemma serve_single: "\<exists>schedule. serve E [q] schedule db = snd (run (handle E q) (idle_world db))"
  using pool_run_single [of "handle E q" "idle_world db"] by (auto simp: serve_def)

lemma sample_schedule:
  "\<exists>schedule. serve (sample_server (Some sample_body)) [MatrixNotify (sample_request ''POST'')] schedule
     sample_db = sample_end"
  unfolding sample_end_def by (rule serve_single)

section \<open>Global guarantees\<close>

text \<open>C4: whatever requests arrive and however they interleave, fail or time out, the push tables
  stay consistent: unique keys, endpoints and management keys, capacities respected, no revoked key
  in use, and the counters equal to the tables they count.\<close>

theorem tables_stay_consistent:
  assumes "store_ok db"
  shows "store_ok (w_db (serve E qs schedule db))"
  by (rule serve_keeps [where I = "\<lambda>w. store_ok (w_db w)"])
    (use assms tables.handle_acts in \<open>simp_all add: idle_world_def\<close>)

theorem tables_stay_consistent_witness:
  "store_ok (w_db (serve (sample_server (Some sample_body)) [MatrixNotify (sample_request ''POST'')]
     [0, 0, 0] sample_db))"
  using tables_stay_consistent [OF store_ok_sample] .

text \<open>C3: the gateway contacts nobody but trusted push services: every message any request ever sends
  goes to an https URL without credentials, port or fragment, whose host is no IP address and is a
  known push service or a configured name, and its payload has no fields but the documented ones.\<close>

theorem only_trusted_endpoints:
  assumes "m \<in> set (w_out (serve E qs schedule db))"
  shows "\<exists>u. srv_url E (mat_endpoint (msg_target m)) = Some u \<and> url_protocol u = ''https:'' \<and>
      url_username u = [] \<and> url_password u = [] \<and> url_port u = [] \<and> url_hash u = [] \<and>
      \<not> srv_ip E (to_lower (url_hostname u)) \<and>
      trusted_host (configured_push_hosts (srv_hosts E)) (to_lower (url_hostname u)) \<and>
      payload_ok (msg_payload m)"
proof -
  have "\<forall>m \<in> set (w_out (serve E qs schedule db)). message_ok E m"
    by (rule serve_keeps [where I = "\<lambda>w. \<forall>m \<in> set (w_out w). message_ok E m"])
      (use letters.handle_acts in \<open>simp_all add: idle_world_def\<close>)
  then have "message_ok E m" using assms by blast
  then show ?thesis
    by (auto simp: message_ok_def valid_endpoint_def elim: valid_push_endpointE)
qed

theorem only_trusted_endpoints_witness:
  "\<exists>m u. m \<in> set (w_out sample_end) \<and>
     srv_url (sample_server (Some sample_body)) (mat_endpoint (msg_target m)) = Some u \<and>
     url_protocol u = ''https:''"
proof -
  obtain m where m: "m \<in> set (w_out sample_end)"
    using sample_end_facts [unfolded world_facts_def] by (cases "w_out sample_end") auto
  moreover obtain schedule where "serve (sample_server (Some sample_body))
      [MatrixNotify (sample_request ''POST'')] schedule sample_db = sample_end"
    using sample_schedule by blast
  ultimately have "m \<in> set (w_out (serve (sample_server (Some sample_body))
      [MatrixNotify (sample_request ''POST'')] schedule sample_db))" by simp
  from only_trusted_endpoints [OF this] m show ?thesis by blast
qed



lemma serve_paid:
  assumes "licensed E (paid_up e c db) (credit e c db)"
  shows "length (filter c (w_out (serve E qs schedule db))) \<le> earned e (w_trace (serve E qs schedule db)) db"
proof -
  have "paid_up e c db (serve E qs schedule db)"
    unfolding serve_def by (rule licensed.pool_licensed [OF assms]) (simp add: paid_up_def idle_world_def)
  then show ?thesis by (simp add: paid_up_def)
qed

lemma outbound_bound:
  assumes "budget_of budget_outbound db = Some r" and "0 \<le> bud_count r"
    and clock: "\<And>k. a \<le> srv_now E k \<and> srv_now E k < a + int n * 60"
  shows "length (w_out (serve E qs schedule db)) \<le> Suc n * nat (delivery_limit (srv_limits E))"
proof -
  let ?w = "serve E qs schedule db"
  have "\<forall>op \<in> set (w_trace ?w). op_ok E op" using serve_history by blast
  moreover have "budget_call budget_outbound 60 (delivery_limit (srv_limits E)) a (a + int n * 60) op" if "op_ok E op" for op
    using that clock
    by (cases op) (auto simp: clock_of_def budget_mutations_def budget_tests_def budget_notify_def
        budget_outbound_def)
  ultimately have "budget_granted budget_outbound (w_trace ?w) db \<le> Suc n * nat (delivery_limit (srv_limits E))"
    using budget_bound(1) [OF assms(1,2)] by blast
  moreover have "length (filter any_message (w_out ?w)) \<le> earned outbound_grant (w_trace ?w) db"
    by (rule serve_paid) (rule postage.licensed_axioms)
  moreover have "filter any_message (w_out ?w) = w_out ?w" by (simp add: any_message_def)
  ultimately show ?thesis by (simp add: earned_outbound)
qed

text \<open>C2: the outbound budget bounds the traffic to push services. Counted from an idle gateway, whatever
  is left of the window in force then, a run of n minutes (every reading of the clock lies within
  them) sends at most n + 1 times the configured number of messages, however many requests of
  whatever kind are served concurrently and however they interleave. This bounds the rate of any run,
  however long; what it does not bound is one minute cut out of a run, since a message may leave
  long after its budget was granted.\<close>

theorem outbound_traffic_bounded:
  assumes "budget_of budget_outbound db = Some r" and "0 \<le> bud_count r"
    and "\<And>k. a \<le> srv_now E k \<and> srv_now E k < a + int n * 60"
  shows "length (w_out (serve E qs schedule db)) \<le> Suc n * nat (delivery_limit (srv_limits E))"
  using assms by (rule outbound_bound)

theorem outbound_traffic_bounded_witness: "length (w_out sample_end) \<le> 6000"
proof -
  have b: "budget_of budget_outbound sample_db =
      Some \<lparr>bud_name = budget_outbound, bud_window = 0, bud_count = 0\<rparr>"
    by code_simp
  have c: "\<And>n. 100 \<le> srv_now (sample_server (Some sample_body)) n \<and>
      srv_now (sample_server (Some sample_body)) n < 100 + int 1 * 60"
    by (simp add: sample_server_def)
  have l: "delivery_limit (srv_limits (sample_server (Some sample_body))) = 3000"
    by code_simp
  obtain schedule where "serve (sample_server (Some sample_body))
      [MatrixNotify (sample_request ''POST'')] schedule sample_db = sample_end"
    using sample_schedule by blast
  with outbound_traffic_bounded [OF b _ c, of "[MatrixNotify (sample_request ''POST'')]" schedule]
  show ?thesis by (simp add: l)
qed

lemma undisturbed_iff:
  "undisturbed strict k e a ops db \<longleftrightarrow> (\<forall>op \<in> set ops. spares strict k e a op) \<and> stays_subscribed k ops db"
  by (induction ops arbitrary: db) auto

lemma held_earlier: "held strict k e t db \<Longrightarrow> a \<le> t \<Longrightarrow> held strict k e a db"
  by (auto simp: held_iff)

lemma one_claim:
  assumes "store_ok db" and "stays_subscribed k ops db"
    and "\<forall>op \<in> set ops. spares False k e a op"
    and "\<forall>op \<in> set ops. a \<le> claim_time op \<or> (\<forall>db. \<not> claim_succeeds k e op db)"
  shows "claims_won k e ops db \<le> 1"
  using assms
proof (induction ops arbitrary: db)
  case (Cons op ops)
  have ok: "store_ok (apply_op op db)" using Cons.prems(1) by (rule store_ok_apply_op)
  show ?case
  proof (cases "claim_succeeds k e op db")
    case True
    have "a \<le> claim_time op" using Cons.prems(4) True by auto
    with claim_holds [OF True] have "held False k e a (apply_op op db)" by (rule held_earlier)
    moreover have "undisturbed False k e a ops (apply_op op db)"
      using Cons.prems(2,3) by (simp add: undisturbed_iff)
    ultimately have "claims_won k e ops (apply_op op db) = 0" using no_second_claim ok by blast
    then show ?thesis by simp
  next
    case False
    then show ?thesis using Cons.IH [OF ok] Cons.prems by simp
  qed
qed simp

lemma event_bound:
  assumes "store_ok db" and clock: "\<And>n. a \<le> srv_now E n \<and> srv_now E n < a + 120"
    and "never_releases k e (w_trace (serve E qs schedule db))"
    and "stays_subscribed k (w_trace (serve E qs schedule db)) db"
  shows "length (filter (event_message k e) (w_out (serve E qs schedule db))) \<le> 1"
proof -
  let ?w = "serve E qs schedule db"
  have t: "\<forall>op \<in> set (w_trace ?w). op_ok E op \<and>
      (case op of OpRelease k' e' \<Rightarrow> \<not> (k' = k \<and> e' = e) | _ \<Rightarrow> True)"
    using serve_history assms(3) by (auto simp: never_releases_def list_all_iff)
  have ck: "a \<le> t \<and> t < a + 120" if "clock_of E t" for t
    using that clock by (auto simp: clock_of_def)
  have "spares False k e a op \<and> (a \<le> claim_time op \<or> (\<forall>db. \<not> claim_succeeds k e op db))"
    if "op_ok E op" "case op of OpRelease k' e' \<Rightarrow> \<not> (k' = k \<and> e' = e) | _ \<Rightarrow> True" for op
    using that by (cases op) (auto dest: ck)
  with t have "claims_won k e (w_trace ?w) db \<le> 1"
    using one_claim [OF assms(1,4)] by blast
  moreover have "length (filter (event_message k e) (w_out ?w)) \<le> earned (claim_succeeds k e) (w_trace ?w) db"
    by (rule serve_paid) (rule claims.licensed_axioms)
  ultimately show ?thesis by (simp add: earned_claims)
qed

text \<open>C1: no duplicate notifications. However often homeservers repeat the callback of one event for
  one device, concurrently or not, the gateway sends at most one message for it within two minutes,
  unless an attempt failed and released its claim, or the device was unsubscribed.\<close>

theorem event_sent_once:
  assumes "store_ok db" and "\<And>n. a \<le> srv_now E n \<and> srv_now E n < a + 120"
    and "never_releases k e (w_trace (serve E qs schedule db))"
    and "stays_subscribed k (w_trace (serve E qs schedule db)) db"
  shows "length (filter (event_message k e) (w_out (serve E qs schedule db))) \<le> 1"
  using assms by (rule event_bound)

theorem event_sent_once_witness:
  "length (filter (event_message ''d'' ''$1'') (w_out sample_end)) \<le> 1 \<and>
   length (filter (event_message ''d'' ''$1'') (w_out sample_end)) \<noteq> 0"
proof -
  have c: "\<And>n. 100 \<le> srv_now (sample_server (Some sample_body)) n \<and>
      srv_now (sample_server (Some sample_body)) n < 100 + 120"
    by (simp add: sample_server_def)
  obtain schedule where s: "serve (sample_server (Some sample_body))
      [MatrixNotify (sample_request ''POST'')] schedule sample_db = sample_end"
    using sample_schedule by blast
  have "never_releases ''d'' ''$1'' (w_trace sample_end)"
    and "stays_subscribed ''d'' (w_trace sample_end) sample_db"
    and "length (filter (event_message ''d'' ''$1'') (w_out sample_end)) \<noteq> 0"
    using sample_end_facts by (simp_all add: world_facts_def)
  with event_sent_once [OF store_ok_sample c, of "''d''" "''$1''" "[MatrixNotify (sample_request ''POST'')]" schedule]
  show ?thesis unfolding s by blast
qed

end
