(* ===== verification/Base64.thy ===== *)
theory Base64
  imports JsValue
begin

text \<open>
  Base64: \<^verbatim>\<open>btoa\<close> and \<^verbatim>\<open>atob\<close> of the platform, and the two URL-safe codecs the
  program builds on them: \<open>encodeBase64Url\<close> and the decoder of \<open>decodeCanonicalBase64Url\<close>
  (lib/security/session-vault-format.ts). A binary string is a list of bytes.
\<close>

section \<open>Groups of six bits\<close>

fun sextets :: "nat list \<Rightarrow> nat list" where
  "sextets [] = []"
| "sextets [a] = [a div 4, a mod 4 * 16]"
| "sextets [a, b] = [a div 4, a mod 4 * 16 + b div 16, b mod 16 * 4]"
| "sextets (a # b # c # r) =
     a div 4 # (a mod 4 * 16 + b div 16) # (b mod 16 * 4 + c div 64) # c mod 64 # sextets r"

text \<open>The bits of an incomplete last byte are dropped, as \<^verbatim>\<open>atob\<close> does.\<close>

fun unsextets :: "nat list \<Rightarrow> nat list" where
  "unsextets (x # y # z # w # r) =
     (x * 4 + y div 16) # (y mod 16 * 16 + z div 4) # (z mod 4 * 64 + w) # unsextets r"
| "unsextets [x, y, z] = [x * 4 + y div 16, y mod 16 * 16 + z div 4]"
| "unsextets [x, y] = [x * 4 + y div 16]"
| "unsextets xs = []"

definition sextet_char :: "nat \<Rightarrow> char" where
  "sextet_char n =
     (if n < 26 then char_of (65 + n)
      else if n < 52 then char_of (71 + n)
      else if n < 62 then char_of (n - 4)
      else if n = 62 then CHR ''+'' else CHR ''/'')"

definition char_sextet :: "char \<Rightarrow> nat option" where
  "char_sextet c =
     (let n = code_of c in
      if 65 \<le> n \<and> n \<le> 90 then Some (n - 65)
      else if 97 \<le> n \<and> n \<le> 122 then Some (n - 71)
      else if 48 \<le> n \<and> n \<le> 57 then Some (n + 4)
      else if n = 43 then Some 62
      else if n = 47 then Some 63
      else None)"

section \<open>btoa and atob\<close>

definition btoa :: "8 word list \<Rightarrow> string" where
  "btoa bs =
     map sextet_char (sextets (map unat bs)) @
     replicate ((3 - length bs mod 3) mod 3) (CHR ''='')"

fun strip_pad :: "nat \<Rightarrow> string \<Rightarrow> string" where
  "strip_pad 0 s = s"
| "strip_pad (Suc n) s = (if s \<noteq> [] \<and> last s = CHR ''='' then strip_pad n (butlast s) else s)"

text \<open>\<open>None\<close> is the exception of \<^verbatim>\<open>atob\<close>. Its input here never holds white space.\<close>

definition atob :: "string \<Rightarrow> 8 word list option" where
  "atob s =
     (let t = (if length s mod 4 = 0 then strip_pad 2 s else s);
          xs = map char_sextet t
      in if length t mod 4 = 1 \<or> None \<in> set xs then None
         else Some (map word_of_nat (unsextets (map the xs))))"

section \<open>The URL-safe codec\<close>

text \<open>\<^verbatim>\<open>replace(/\+/g, "-").replace(/\//g, "_")\<close> and its inverse\<close>

definition to_url_char :: "char \<Rightarrow> char" where
  "to_url_char c = (if c = CHR ''+'' then CHR ''-'' else if c = CHR ''/'' then CHR ''_'' else c)"

definition from_url_char :: "char \<Rightarrow> char" where
  "from_url_char c = (if c = CHR ''-'' then CHR ''+'' else if c = CHR ''_'' then CHR ''/'' else c)"

definition encode_base64url :: "8 word list \<Rightarrow> string" where
  "encode_base64url bytes =
     rev (dropWhile (\<lambda>c. c = CHR ''='') (rev (map to_url_char (btoa bytes))))"

definition padded :: "string \<Rightarrow> string" where
  "padded value = map from_url_char value @ replicate ((4 - length value mod 4) mod 4) (CHR ''='')"

section \<open>The errors of the session vault\<close>

datatype vault_error_code = Authentication | Conflict | Corrupt | Disposed | InvalidInput | Unavailable

text \<open>
  \<open>SessionVaultError\<close> with its code and message; \<open>PlatformError\<close> is any exception the code does not
  translate. The \<^verbatim>\<open>cause\<close> of an error is not modelled.
\<close>

datatype vault_error =
    VaultError vault_error_code string
  | PlatformError

section \<open>The decoder\<close>

text \<open>
  \<open>decodeCanonicalBase64Url\<close>; the bounds are \<open>exactBytes\<close>, \<open>minimumBytes\<close> and \<open>maximumBytes\<close>,
  and \<open>4 * n / 3\<close> is rounded up.
\<close>

definition not_canonical :: "string \<Rightarrow> vault_error" where
  "not_canonical field = VaultError Corrupt (''The stored '' @ field @ '' is not canonical Base64URL.'')"

definition stored_invalid :: "string \<Rightarrow> vault_error" where
  "stored_invalid field = VaultError Corrupt (''The stored '' @ field @ '' is invalid.'')"

definition decode_canonical ::
  "jsval \<Rightarrow> string \<Rightarrow> nat option \<Rightarrow> nat option \<Rightarrow> nat \<Rightarrow> vault_error + 8 word list" where
  "decode_canonical v field exact minimum maximum =
     (case v of
        JStr value \<Rightarrow>
          if value = [] \<or> length value > (maximum * 4 + 2) div 3 + 2
             \<or> \<not> list_all is_token_char value \<or> length value mod 4 = 1 then Inl (not_canonical field)
          else (case atob (padded value) of
             None \<Rightarrow> Inl (not_canonical field)
           | Some bytes \<Rightarrow>
               let least = (case exact of Some n \<Rightarrow> n
                            | None \<Rightarrow> (case minimum of Some n \<Rightarrow> n | None \<Rightarrow> 0));
                   most = (case exact of Some n \<Rightarrow> n | None \<Rightarrow> maximum)
               in if length bytes < least \<or> length bytes > most \<or> encode_base64url bytes \<noteq> value
                  then Inl (stored_invalid field) else Inr bytes)
      | _ \<Rightarrow> Inl (not_canonical field))"

section \<open>Six-bit groups round trip\<close>

lemma byte_split:
  assumes "(a::nat) < 256"
  shows "a div 4 * 4 + a mod 4 * 16 div 16 = a" and "a div 4 < 64" and "a mod 4 * 16 < 64"
  using assms by (simp_all add: mult.commute)

lemma group_one: "(a div 4) * 4 + (a mod 4 * 16 + b div 16) div 16 = a" if "b < 256" for a b :: nat
proof -
  have "b div 16 < 16" using that by (simp add: div_less_iff_less_mult)
  then have "(a mod 4 * 16 + b div 16) div 16 = a mod 4" by simp
  then show ?thesis by simp
qed

lemma group_two: "(a mod 4 * 16 + b div 16) mod 16 * 16 + (b mod 16 * 4 + c div 64) div 4 = b"
  if "b < 256" "c < 256" for a b c :: nat
proof -
  have "b div 16 < 16" "c div 64 < 4" using that by (simp_all add: div_less_iff_less_mult)
  then have "(a mod 4 * 16 + b div 16) mod 16 = b div 16" "(b mod 16 * 4 + c div 64) div 4 = b mod 16"
    by simp_all
  then show ?thesis by simp
qed

lemma group_three: "(b mod 16 * 4 + c div 64) mod 4 * 64 + c mod 64 = c" if "c < 256" for b c :: nat
proof -
  have "c div 64 < 4" using that by (simp add: div_less_iff_less_mult)
  then have "(b mod 16 * 4 + c div 64) mod 4 = c div 64" by simp
  then show ?thesis by simp
qed

lemma unsextets_sextets: "\<forall>a \<in> set bs. a < 256 \<Longrightarrow> unsextets (sextets bs) = bs"
proof (induction bs rule: sextets.induct)
  case (2 a)
  then show ?case using group_one [of 0 a] by simp
next
  case (3 a b)
  then show ?case using group_one [of b a] group_two [of b 0 a] by simp
next
  case (4 a b c r)
  then show ?case using group_one [of b a] group_two [of b c a] group_three [of c b] by simp
qed simp

lemma sextets_small: "\<forall>a \<in> set bs. a < 256 \<Longrightarrow> \<forall>x \<in> set (sextets bs). x < 64"
proof (induction bs rule: sextets.induct)
  case (2 a)
  then show ?case by (auto simp: div_less_iff_less_mult)
next
  case (3 a b)
  have "a mod 4 * 16 + b div 16 < 64" if "b < 256" for a b :: nat
  proof -
    have "a mod 4 \<le> 3" "b div 16 \<le> 15" using that by auto
    then show ?thesis by linarith
  qed
  with 3 show ?case by (auto simp: div_less_iff_less_mult)
next
  case (4 a b c r)
  have m: "x mod 4 * 16 + y div 16 < 64" "x mod 16 * 4 + y div 64 < 64" if "y < 256" for x y :: nat
  proof -
    have "x mod 4 \<le> 3" "y div 16 \<le> 15" "x mod 16 \<le> 15" "y div 64 \<le> 3" using that by auto
    then show "x mod 4 * 16 + y div 16 < 64" "x mod 16 * 4 + y div 64 < 64" by linarith+
  qed
  with 4 show ?case by (auto simp: div_less_iff_less_mult)
qed simp

lemma suc3_div: "Suc (Suc (Suc n)) div 3 = Suc (n div 3)" and suc3_mod: "Suc (Suc (Suc n)) mod 3 = n mod 3"
  by presburger+

lemma length_sextets:
  "length (sextets bs) = 4 * (length bs div 3) + (if length bs mod 3 = 0 then 0 else length bs mod 3 + 1)"
proof (induction bs rule: sextets.induct)
  case (4 a b c r)
  then show ?case by (simp only: sextets.simps list.size suc3_div suc3_mod add_0_right add_Suc_right) simp
qed simp_all

text \<open>The alphabet, by the code of each character.\<close>

lemma code_of_CHR:
  "code_of (CHR ''+'') = 43" "code_of (CHR ''/'') = 47" "code_of (CHR ''-'') = 45"
  "code_of (CHR ''_'') = 95" "code_of (CHR ''='') = 61"
  by (simp_all add: code_of_def)

lemma code_of_sextet:
  assumes "n < 64"
  shows "code_of (sextet_char n) =
     (if n < 26 then 65 + n else if n < 52 then 71 + n else if n < 62 then n - 4
      else if n = 62 then 43 else 47)"
  using assms by (simp add: sextet_char_def code_of_def)

lemma code_of_to_url:
  "code_of (to_url_char c) = (if code_of c = 43 then 45 else if code_of c = 47 then 95 else code_of c)"
  by (simp add: to_url_char_def code_of_CHR code_of_inject [symmetric])

lemma code_of_from_url:
  "code_of (from_url_char c) = (if code_of c = 45 then 43 else if code_of c = 95 then 47 else code_of c)"
  by (simp add: from_url_char_def code_of_CHR code_of_inject [symmetric])

lemma alphabet:
  assumes "n < 64"
  shows "char_sextet (sextet_char n) = Some n"
    and "from_url_char (to_url_char (sextet_char n)) = sextet_char n"
    and "is_token_char (to_url_char (sextet_char n))"
    and "sextet_char n \<noteq> CHR ''=''" and "to_url_char (sextet_char n) \<noteq> CHR ''=''"
  using assms
  by (auto simp: char_sextet_def code_of_sextet Let_def code_of_to_url code_of_from_url
      is_token_char_def is_alnum_def is_upper_def is_lower_def is_digit_def code_of_CHR
      code_of_inject [symmetric])

section \<open>The codec round trips\<close>

lemma byte_less: "unat b < 256" for b :: "8 word"
  using unsigned_less [of b, where 'a = nat] by simp

lemma dropWhile_replicate_rev:
  assumes "c \<notin> set t"
  shows "dropWhile (\<lambda>x. x = c) (replicate n c @ rev t) = rev t"
proof (induction n)
  case 0
  show ?case using assms by (cases t rule: rev_cases) auto
qed simp

lemma encode_base64url_sextets:
  "encode_base64url bs = map (\<lambda>n. to_url_char (sextet_char n)) (sextets (map unat bs))"
proof -
  let ?xs = "sextets (map unat bs)"
  have small: "\<forall>x \<in> set ?xs. x < 64"
    by (rule sextets_small) (simp add: byte_less)
  let ?f = "\<lambda>n. to_url_char (sextet_char n)"
  let ?m = "(3 - length bs mod 3) mod 3"
  have m: "map to_url_char (btoa bs) = map ?f ?xs @ replicate ?m (CHR ''='')"
    by (simp add: btoa_def to_url_char_def)
  have "CHR ''='' \<notin> set (map ?f ?xs)" using small alphabet(5) by force
  then have "dropWhile (\<lambda>x. x = CHR ''='') (replicate ?m (CHR ''='') @ rev (map ?f ?xs)) = rev (map ?f ?xs)"
    by (rule dropWhile_replicate_rev)
  then show ?thesis
    unfolding encode_base64url_def m by (simp only: rev_append rev_replicate rev_rev_ident)
qed

lemma strip_pad_replicate:
  assumes "s = [] \<or> last s \<noteq> CHR ''=''" and "k \<le> n"
  shows "strip_pad n (s @ replicate k (CHR ''='')) = s"
  using assms
proof (induction n arbitrary: k)
  case (Suc n)
  show ?case
  proof (cases k)
    case 0
    then show ?thesis using Suc.prems by auto
  next
    case (Suc j)
    have r: "s @ replicate (Suc j) (CHR ''='') = (s @ replicate j (CHR ''='')) @ [CHR ''='']"
      by (simp only: append_assoc replicate_append_same replicate_Suc)
    have "strip_pad (Suc n) ((s @ replicate j (CHR ''='')) @ [CHR ''='']) = strip_pad n (s @ replicate j (CHR ''=''))"
      by (simp only: strip_pad.simps butlast_snoc last_snoc snoc_eq_iff_butlast) simp
    then show ?thesis using Suc.IH [of j] Suc.prems Suc unfolding \<open>k = Suc j\<close> r by simp
  qed
qed simp

lemma atob_padded:
  assumes "\<forall>x \<in> set xs. x < 64" and "length xs mod 4 \<noteq> 1"
  shows "atob (padded (map (\<lambda>n. to_url_char (sextet_char n)) xs)) = Some (map word_of_nat (unsextets xs))"
proof -
  let ?k = "(4 - length xs mod 4) mod 4"
  let ?s = "map sextet_char xs"
  have p: "padded (map (\<lambda>n. to_url_char (sextet_char n)) xs) = ?s @ replicate ?k (CHR ''='')"
    using assms(1) by (simp add: padded_def alphabet comp_def cong: map_cong)
  have "length xs mod 4 = 0 \<or> length xs mod 4 = 1 \<or> length xs mod 4 = 2 \<or> length xs mod 4 = 3"
    using mod_less_divisor [of 4 "length xs"] by linarith
  then have len: "(length xs + ?k) mod 4 = 0" and k: "?k \<le> 2"
    using assms(2) mod_add_left_eq [of "length xs" 4 ?k, symmetric] by auto
  have "?s = [] \<or> last ?s \<noteq> CHR ''=''"
    using assms(1) by (cases xs rule: rev_cases) (auto simp: alphabet)
  then have st: "strip_pad 2 (?s @ replicate ?k (CHR ''='')) = ?s" using k by (rule strip_pad_replicate)
  have cs: "map char_sextet ?s = map Some xs"
    using assms(1) by (simp add: alphabet comp_def)
  have t: "(if length (?s @ replicate ?k (CHR ''='')) mod 4 = 0
      then strip_pad 2 (?s @ replicate ?k (CHR ''='')) else ?s @ replicate ?k (CHR ''='')) = ?s"
    using len st by simp
  have "None \<notin> set (map Some xs)" by auto
  moreover have "map the (map Some xs) = xs" by (simp add: comp_def)
  ultimately show ?thesis
    unfolding p atob_def Let_def t cs using assms(2) by (simp only: length_map) simp
qed

lemma encode_token: "list_all is_token_char (encode_base64url bs)"
proof -
  have "\<forall>x \<in> set (sextets (map unat bs)). x < 64"
    by (rule sextets_small) (simp add: byte_less)
  then show ?thesis by (simp add: encode_base64url_sextets list_all_iff alphabet)
qed

lemma length_encode:
  "length (encode_base64url bs) = (length bs * 4 + 2) div 3" "length (encode_base64url bs) mod 4 \<noteq> 1"
proof -
  have l: "length (encode_base64url bs) =
      4 * (length bs div 3) + (if length bs mod 3 = 0 then 0 else length bs mod 3 + 1)"
    by (simp add: encode_base64url_sextets length_sextets)
  have c: "n mod 3 = 0 \<or> n mod 3 = 1 \<or> n mod 3 = 2" for n :: nat
    using mod_less_divisor [of 3 n] by linarith
  have "4 * (n div 3) + (if n mod 3 = 0 then 0 else n mod 3 + 1) = (n * 4 + 2) div 3" for n :: nat
  proof -
    define q r where "q = n div 3" and "r = n mod 3"
    then have n: "n = q * 3 + r" by simp
    have "(n * 4 + 2) div 3 = 4 * q + (r * 4 + 2) div 3"
      unfolding n by (simp add: algebra_simps div_add1_eq)
    then show ?thesis using c [of n] by (auto simp: q_def [symmetric] r_def [symmetric])
  qed
  with l show "length (encode_base64url bs) = (length bs * 4 + 2) div 3" by simp
  have "(4 * (n div 3) + (if n mod 3 = 0 then 0 else n mod 3 + 1)) mod 4 \<noteq> 1" for n :: nat
    using c [of n] by auto
  with l show "length (encode_base64url bs) mod 4 \<noteq> 1" by simp
qed

lemma atob_encode: "atob (padded (encode_base64url bs)) = Some bs"
proof -
  let ?ns = "map unat bs"
  have b: "\<forall>a \<in> set ?ns. a < 256" by (simp add: byte_less)
  have "atob (padded (encode_base64url bs)) = Some (map word_of_nat (unsextets (sextets ?ns)))"
    using length_encode(2) [of bs] unfolding encode_base64url_sextets
    by (intro atob_padded sextets_small b) simp
  then show ?thesis by (simp add: unsextets_sextets [OF b] comp_def)
qed

text \<open>The decoder accepts exactly the encodings of byte strings within its bounds: every byte string
  has one accepted spelling.
\<close>

lemma decode_canonical_iff:
  "decode_canonical v field exact minimum maximum = Inr bs \<longleftrightarrow>
     v = JStr (encode_base64url bs) \<and> bs \<noteq> [] \<and>
     (length bs * 4 + 2) div 3 \<le> (maximum * 4 + 2) div 3 + 2 \<and>
     (case exact of Some n \<Rightarrow> length bs = n
      | None \<Rightarrow> (case minimum of Some n \<Rightarrow> n | None \<Rightarrow> 0) \<le> length bs \<and> length bs \<le> maximum)"
    (is "?l \<longleftrightarrow> ?r")
proof
  assume ?l
  then obtain t where v: "v = JStr t" and ok: "t \<noteq> []"
      "\<not> length t > (maximum * 4 + 2) div 3 + 2"
    and d: "atob (padded t) = Some bs" "encode_base64url bs = t"
    and b: "\<not> length bs < (case exact of Some n \<Rightarrow> n | None \<Rightarrow> (case minimum of Some n \<Rightarrow> n | None \<Rightarrow> 0))"
      "\<not> length bs > (case exact of Some n \<Rightarrow> n | None \<Rightarrow> maximum)"
    by (auto simp: decode_canonical_def Let_def split: jsval.splits if_splits option.splits)
  have "bs \<noteq> []" using d ok(1) by (auto simp: encode_base64url_sextets)
  then show ?r using v ok d b length_encode(1) [of bs] by (auto split: option.splits)
next
  assume r: ?r
  then have "encode_base64url bs \<noteq> []"
    using length_encode(1) [of bs] by (cases bs) auto
  moreover have "list_all is_token_char (encode_base64url bs)" by (rule encode_token)
  ultimately show ?l
    using r length_encode [of bs] atob_encode [of bs]
    by (auto simp: decode_canonical_def Let_def split: option.splits)
qed

lemma encode_base64url_inj: "encode_base64url bs = encode_base64url cs \<Longrightarrow> bs = cs"
  using atob_encode by (metis option.inject)

lemma decode_canonical_error:
  "decode_canonical v field exact minimum maximum = Inl e \<Longrightarrow> \<exists>m. e = VaultError Corrupt m"
  by (auto simp: decode_canonical_def not_canonical_def stored_invalid_def Let_def
      split: jsval.splits if_splits option.splits)

end
