(* ===== verification/Vault_Format.thy ===== *)
theory Vault_Format
  imports Base64 Url_Policy
begin

text \<open>
  lib/security/session-vault-format.ts, the records of the locked session vault: the validators
  of everything read back from IndexedDB. A stored value is a \<open>jsval\<close>; each validator returns the
  record the code returns, or the \<open>SessionVaultError\<close> it throws. The encoders
  (\<open>storage_js\<close>, \<open>locked_js\<close>, \<open>tombstone_js\<close>) give back the object a record is in the store.
\<close>

section \<open>Constants and records\<close>

definition recovery_iterations :: int where
  "recovery_iterations = 500000"

definition max_payload_bytes :: nat where
  "max_payload_bytes = 256 * 1024"

definition max_recovery_input_bytes :: nat where
  "max_recovery_input_bytes = 1024"

definition max_unlock_slots :: nat where
  "max_unlock_slots = 8"

definition vault_schema_version :: int where
  "vault_schema_version = 1"

record aes_gcm_box =
  box_algorithm :: string
  box_iv :: string
  box_ciphertext :: string

record recovery_key_slot =
  rk_slot_id :: string
  rk_salt :: string
  rk_iterations :: int
  rk_wrapped_dek :: aes_gcm_box

record webauthn_prf_slot =
  wa_slot_id :: string
  wa_credential_id :: string
  wa_transports :: "string list"
  wa_rp_id :: string
  wa_prf_input :: string
  wa_hkdf_salt :: string
  wa_wrapped_dek :: aes_gcm_box

datatype unlock_slot =
    RecoverySlot recovery_key_slot
  | PrfSlot webauthn_prf_slot

record vault_storage =
  crypto_database_prefix :: string
  legacy_sync_database :: "string option"

record locked_record =
  locked_record_id :: string
  locked_revision :: int
  locked_storage :: vault_storage
  locked_payload :: aes_gcm_box
  locked_slots :: "unlock_slot list"

datatype cleanup_scope =
    ExactCleanup vault_storage
  | AllOwned

record tombstone =
  tomb_record_id :: string
  tomb_revision :: int
  tomb_cleanup :: "cleanup_scope option"

definition slot_id :: "unlock_slot \<Rightarrow> string" where
  "slot_id s = (case s of RecoverySlot r \<Rightarrow> rk_slot_id r | PrfSlot w \<Rightarrow> wa_slot_id w)"

definition is_recovery_slot :: "unlock_slot \<Rightarrow> bool" where
  "is_recovery_slot s = (case s of RecoverySlot r \<Rightarrow> True | PrfSlot w \<Rightarrow> False)"

section \<open>Shape checks\<close>

definition corrupt :: "string \<Rightarrow> vault_error + 'a" where
  "corrupt message = Inl (VaultError Corrupt message)"

definition check :: "bool \<Rightarrow> string \<Rightarrow> (vault_error + 'a) \<Rightarrow> vault_error + 'a" where
  "check ok message k = (if ok then k else corrupt message)"

text \<open>\<^verbatim>\<open>Object.keys\<close> of an array: the indices that are not holes, then the named properties.\<close>

definition array_keys :: "jsval option list \<Rightarrow> (string \<times> jsval) list \<Rightarrow> string list" where
  "array_keys xs ps =
     map (\<lambda>(i, x). nat_digits i) (filter (\<lambda>(i, x). x \<noteq> None) (enumerate 0 xs)) @ map fst ps"

definition is_dense_array :: "jsval \<Rightarrow> bool" where
  "is_dense_array v =
     (case v of
        JArr xs ps \<Rightarrow>
          length (array_keys xs ps) = length xs \<and>
          array_keys xs ps = map nat_digits [0..<length (array_keys xs ps)]
      | _ \<Rightarrow> False)"

definition object_keys :: "jsval \<Rightarrow> string list" where
  "object_keys v = map fst (own_props v)"

definition exact_keys ::
  "jsval \<Rightarrow> string list \<Rightarrow> string list \<Rightarrow> (vault_error + 'a) \<Rightarrow> vault_error + 'a" where
  "exact_keys v required optional =
     check (\<not> (list_ex (\<lambda>k. k \<notin> set (object_keys v)) required \<or>
               list_ex (\<lambda>k. k \<notin> set (required @ optional)) (object_keys v)))
       ''A stored session-vault object has invalid fields.''"

definition required_string :: "jsval \<Rightarrow> string \<Rightarrow> nat \<Rightarrow> vault_error + string" where
  "required_string v field maximum =
     (case v of
        JStr s \<Rightarrow> if s = [] \<or> length s > maximum then Inl (stored_invalid field) else Inr s
      | _ \<Rightarrow> Inl (stored_invalid field))"

definition optional_string :: "jsval \<Rightarrow> string \<Rightarrow> nat \<Rightarrow> vault_error + string option" where
  "optional_string v field maximum =
     (if v = JUndef then Inr None
      else sum_bind (required_string v field maximum) (\<lambda>s. Inr (Some s)))"

text \<open>\<^verbatim>\<open>value as string\<close>, \<^verbatim>\<open>Number(value)\<close> where a check has passed\<close>

definition as_string :: "jsval \<Rightarrow> string" where
  "as_string v = (case v of JStr s \<Rightarrow> s | _ \<Rightarrow> [])"

definition as_int :: "jsval \<Rightarrow> int" where
  "as_int v = (case v of JNum (Fin q) \<Rightarrow> \<lfloor>q\<rfloor> | _ \<Rightarrow> 0)"

definition is_safe_int_value :: "jsval \<Rightarrow> bool" where
  "is_safe_int_value v = (case v of JNum n \<Rightarrow> is_safe_integer n | _ \<Rightarrow> False)"

definition validate_identifier :: "jsval \<Rightarrow> string \<Rightarrow> nat \<Rightarrow> vault_error + string" where
  "validate_identifier v field bytes =
     sum_bind (decode_canonical v field (Some bytes) None bytes) (\<lambda>_. Inr (as_string v))"

definition validate_aes_box ::
  "jsval \<Rightarrow> string \<Rightarrow> nat \<Rightarrow> nat option \<Rightarrow> vault_error + aes_gcm_box" where
  "validate_aes_box v field ciphertext_maximum ciphertext_exact =
     check (is_object v) (''The stored '' @ field @ '' is malformed.'')
       (exact_keys v [''algorithm'', ''iv'', ''ciphertext''] []
         (check (js_opt ''algorithm'' v = JStr ''AES-256-GCM'')
           (''The stored '' @ field @ '' algorithm is invalid.'')
           (sum_bind (decode_canonical (js_opt ''iv'' v) (field @ '' IV'') (Some 12) None 12) (\<lambda>_.
            sum_bind (decode_canonical (js_opt ''ciphertext'' v) (field @ '' ciphertext'') ciphertext_exact
                        (Some (case ciphertext_exact of Some n \<Rightarrow> n | None \<Rightarrow> 16)) ciphertext_maximum) (\<lambda>_.
            Inr \<lparr>box_algorithm = ''AES-256-GCM'', box_iv = as_string (js_opt ''iv'' v),
                 box_ciphertext = as_string (js_opt ''ciphertext'' v)\<rparr>)))))"

section \<open>Storage names\<close>

text \<open>\<^verbatim>\<open>/^<prefix>[A-Za-z0-9_-]{1,n}$/\<close>\<close>

definition name_pattern :: "string \<Rightarrow> nat \<Rightarrow> string \<Rightarrow> bool" where
  "name_pattern p n s \<longleftrightarrow>
     prefix p s \<and> 1 \<le> length s - length p \<and> length s - length p \<le> n \<and>
     list_all is_token_char (drop (length p) s)"

definition crypto_prefix_pattern :: "string \<Rightarrow> bool" where
  "crypto_prefix_pattern = name_pattern ''sub-etha-crypto-'' 160"

definition legacy_sync_pattern :: "string \<Rightarrow> bool" where
  "legacy_sync_pattern = name_pattern ''matrix-js-sdk:sub-etha-sync-'' 120"

definition validate_storage :: "jsval \<Rightarrow> vault_error + vault_storage" where
  "validate_storage v =
     check (is_object v) ''The stored vault metadata is malformed.''
       (exact_keys v [''cryptoDatabasePrefix''] [''legacySyncDatabase'']
         (sum_bind (required_string (js_opt ''cryptoDatabasePrefix'' v) ''Rust crypto database prefix'' 192) (\<lambda>p.
          check (crypto_prefix_pattern p) ''The stored Rust crypto database prefix is invalid.''
         (sum_bind (optional_string (js_opt ''legacySyncDatabase'' v) ''legacy sync database name'' 180) (\<lambda>l.
          check (case l of Some d \<Rightarrow> legacy_sync_pattern d | None \<Rightarrow> True)
            ''The stored legacy sync database name is invalid.''
            (Inr \<lparr>crypto_database_prefix = p, legacy_sync_database = l\<rparr>))))))"

section \<open>Unlock slots\<close>

definition authenticator_transports :: "string list" where
  "authenticator_transports = [''ble'', ''hybrid'', ''internal'', ''nfc'', ''usb'']"

definition validate_transports :: "jsval \<Rightarrow> vault_error + string list" where
  "validate_transports v =
     check (\<not> (\<not> is_array v \<or> \<not> is_dense_array v
               \<or> length (array_items v) > length authenticator_transports
               \<or> list_ex (\<lambda>e. case e of JStr s \<Rightarrow> s \<notin> set authenticator_transports | _ \<Rightarrow> True) (array_items v)
               \<or> \<not> distinct (array_items v)))
       ''The stored authenticator transports are invalid.''
       (Inr (map as_string (array_items v)))"

text \<open>\<^verbatim>\<open>/^[a-z0-9.-]+$/\<close>\<close>

definition is_rp_char :: "char \<Rightarrow> bool" where
  "is_rp_char c \<longleftrightarrow> is_lower c \<or> is_digit c \<or> c = CHR ''.'' \<or> c = CHR ''-''"

definition validate_rp_id :: "jsval \<Rightarrow> vault_error + string" where
  "validate_rp_id v =
     sum_bind (required_string v ''WebAuthn RP ID'' 253) (\<lambda>s.
     check (\<not> (s \<noteq> to_lower s \<or> prefix ''.'' s \<or> suffix ''.'' s \<or> s = [] \<or> \<not> list_all is_rp_char s))
       ''The stored WebAuthn RP ID is invalid.'' (Inr s))"

definition validate_recovery_slot :: "jsval \<Rightarrow> vault_error + unlock_slot" where
  "validate_recovery_slot v =
     exact_keys v [''kind'', ''slotId'', ''salt'', ''iterations'', ''wrappedDek''] []
       (check (js_opt ''iterations'' v = js_int recovery_iterations) ''The recovery-key work factor is invalid.''
         (sum_bind (decode_canonical (js_opt ''salt'' v) ''recovery-key salt'' (Some 32) None 32) (\<lambda>_.
          sum_bind (validate_identifier (js_opt ''slotId'' v) ''recovery slot ID'' 16) (\<lambda>sid.
          sum_bind (validate_aes_box (js_opt ''wrappedDek'' v) ''wrapped payload key'' 48 (Some 48)) (\<lambda>dek.
          Inr (RecoverySlot \<lparr>rk_slot_id = sid, rk_salt = as_string (js_opt ''salt'' v),
                 rk_iterations = recovery_iterations, rk_wrapped_dek = dek\<rparr>))))))"

definition prf_slot_keys :: "string list" where
  "prf_slot_keys = [''kind'', ''slotId'', ''credentialId'', ''transports'', ''rpId'', ''prfInput'',
     ''hkdfSalt'', ''wrappedDek'']"

definition validate_prf_slot :: "jsval \<Rightarrow> vault_error + unlock_slot" where
  "validate_prf_slot v =
     exact_keys v prf_slot_keys []
       (sum_bind (decode_canonical (js_opt ''credentialId'' v) ''credential ID'' None (Some 1) 1024) (\<lambda>_.
        sum_bind (decode_canonical (js_opt ''prfInput'' v) ''WebAuthn PRF input'' (Some 32) None 32) (\<lambda>_.
        sum_bind (decode_canonical (js_opt ''hkdfSalt'' v) ''WebAuthn HKDF salt'' (Some 32) None 32) (\<lambda>_.
        sum_bind (validate_identifier (js_opt ''slotId'' v) ''WebAuthn slot ID'' 16) (\<lambda>sid.
        sum_bind (validate_transports (js_opt ''transports'' v)) (\<lambda>ts.
        sum_bind (validate_rp_id (js_opt ''rpId'' v)) (\<lambda>rp.
        sum_bind (validate_aes_box (js_opt ''wrappedDek'' v) ''wrapped payload key'' 48 (Some 48)) (\<lambda>dek.
        Inr (PrfSlot \<lparr>wa_slot_id = sid, wa_credential_id = as_string (js_opt ''credentialId'' v),
               wa_transports = ts, wa_rp_id = rp, wa_prf_input = as_string (js_opt ''prfInput'' v),
               wa_hkdf_salt = as_string (js_opt ''hkdfSalt'' v), wa_wrapped_dek = dek\<rparr>)))))))))"

definition validate_unlock_slot :: "jsval \<Rightarrow> vault_error + unlock_slot" where
  "validate_unlock_slot v =
     check (is_object v) ''A stored unlock slot is malformed.''
       (if js_opt ''kind'' v = JStr ''recovery-key-pbkdf2'' then validate_recovery_slot v
        else if js_opt ''kind'' v = JStr ''webauthn-prf'' then validate_prf_slot v
        else corrupt ''The stored unlock-slot kind is invalid.'')"

section \<open>Records\<close>

text \<open>\<^verbatim>\<open>xs.map(f)\<close> with an \<open>f\<close> that may throw: the first exception wins.\<close>

fun map_sum :: "('a \<Rightarrow> 'e + 'b) \<Rightarrow> 'a list \<Rightarrow> 'e + 'b list" where
  "map_sum f [] = Inr []"
| "map_sum f (x # xs) = sum_bind (f x) (\<lambda>y. sum_bind (map_sum f xs) (\<lambda>ys. Inr (y # ys)))"

definition locked_keys :: "string list" where
  "locked_keys = [''kind'', ''schemaVersion'', ''recordId'', ''revision'', ''storage'', ''payload'', ''unlockSlots'']"

definition validate_locked_record :: "jsval \<Rightarrow> vault_error + locked_record" where
  "validate_locked_record v =
     check (is_object v) ''The stored Matrix session vault is malformed.''
       (exact_keys v locked_keys []
         (check (js_opt ''kind'' v = JStr ''locked-matrix-session''
                 \<and> js_opt ''schemaVersion'' v = js_int vault_schema_version)
            ''The stored Matrix session vault version is invalid.''
         (check (is_safe_int_value (js_opt ''revision'' v) \<and> 1 \<le> as_int (js_opt ''revision'' v))
            ''The stored Matrix session revision is invalid.''
         (let slots = js_opt ''unlockSlots'' v in
          check (is_array slots \<and> is_dense_array slots \<and> 1 \<le> length (array_items slots)
                 \<and> length (array_items slots) \<le> max_unlock_slots)
            ''The stored unlock-slot list is invalid.''
         (sum_bind (map_sum validate_unlock_slot (array_items slots)) (\<lambda>unlock_slots.
          check (distinct (map slot_id unlock_slots) \<and> length (filter is_recovery_slot unlock_slots) = 1)
            ''The stored unlock-slot set is invalid.''
         (sum_bind (validate_identifier (js_opt ''recordId'' v) ''record ID'' 16) (\<lambda>rid.
          sum_bind (validate_storage (js_opt ''storage'' v)) (\<lambda>storage.
          sum_bind (validate_aes_box (js_opt ''payload'' v) ''encrypted session payload''
                      (max_payload_bytes + 16) None) (\<lambda>payload.
          Inr \<lparr>locked_record_id = rid, locked_revision = as_int (js_opt ''revision'' v),
               locked_storage = storage, locked_payload = payload, locked_slots = unlock_slots\<rparr>))))))))))"

definition validate_cleanup :: "jsval \<Rightarrow> vault_error + cleanup_scope option" where
  "validate_cleanup c =
     (if c = JUndef then Inr None
      else check (is_object c) ''The stored cleanup scope is malformed.''
        (if js_opt ''scope'' c = JStr ''all-owned'' then exact_keys c [''scope''] [] (Inr (Some AllOwned))
         else if js_opt ''scope'' c = JStr ''exact'' then
           exact_keys c [''scope'', ''storage''] []
             (sum_bind (validate_storage (js_opt ''storage'' c)) (\<lambda>s. Inr (Some (ExactCleanup s))))
         else corrupt ''The stored cleanup scope is invalid.''))"

definition validate_tombstone :: "jsval \<Rightarrow> vault_error + tombstone" where
  "validate_tombstone v =
     check (is_object v) ''The stored session tombstone is malformed.''
       (exact_keys v [''kind'', ''schemaVersion'', ''recordId'', ''revision''] [''pendingCleanup'']
         (check (js_opt ''kind'' v = JStr ''matrix-session-tombstone''
                 \<and> js_opt ''schemaVersion'' v = js_int vault_schema_version
                 \<and> is_safe_int_value (js_opt ''revision'' v) \<and> 1 \<le> as_int (js_opt ''revision'' v))
            ''The stored session tombstone is invalid.''
         (sum_bind (validate_cleanup (js_opt ''pendingCleanup'' v)) (\<lambda>cleanup.
          sum_bind (validate_identifier (js_opt ''recordId'' v) ''tombstone record ID'' 16) (\<lambda>rid.
          Inr \<lparr>tomb_record_id = rid, tomb_revision = as_int (js_opt ''revision'' v), tomb_cleanup = cleanup\<rparr>)))))"

end
