(* ===== verification/Vault_Records.thy ===== *)
theory Vault_Records
  imports Vault_Format
begin

text \<open>
  What the validators of \<open>Vault_Format\<close> accept: well-formed records, described without reference
  to the validators, and the objects they are stored as. Every accepted value yields a well-formed
  record, and every well-formed record is read back unchanged from its stored object.
\<close>

section \<open>Results of checks\<close>

lemma check_Inr [simp]: "check ok m k = Inr x \<longleftrightarrow> ok \<and> k = Inr x"
  by (simp add: check_def corrupt_def)

lemma corrupt_Inr [simp]: "corrupt m \<noteq> Inr x"
  by (simp add: corrupt_def)

lemma exact_keys_Inr [simp]:
  "exact_keys v req opt k = Inr x \<longleftrightarrow>
     set req \<subseteq> set (object_keys v) \<and> set (object_keys v) \<subseteq> set req \<union> set opt \<and> k = Inr x"
  by (auto simp: exact_keys_def list_ex_iff)

lemma required_string_Inr [simp]:
  "required_string v f n = Inr s \<longleftrightarrow> v = JStr s \<and> s \<noteq> [] \<and> length s \<le> n"
  by (auto simp: required_string_def split: jsval.splits)

lemma optional_string_Inr [simp]:
  "optional_string v f n = Inr r \<longleftrightarrow>
     (case r of None \<Rightarrow> v = JUndef | Some s \<Rightarrow> v = JStr s \<and> s \<noteq> [] \<and> length s \<le> n)"
  by (auto simp: optional_string_def sum_bind_Inr_iff split: option.splits)

lemma decode_exact_Inr:
  "decode_canonical v f (Some n) m n = Inr bs \<longleftrightarrow> v = JStr (encode_base64url bs) \<and> bs \<noteq> [] \<and> length bs = n"
  by (auto simp: decode_canonical_iff)

lemma decode_exact_sound:
  "decode_canonical v f (Some n) m hi = Inr bs \<Longrightarrow> v = JStr (encode_base64url bs) \<and> bs \<noteq> [] \<and> length bs = n"
  by (auto simp: decode_canonical_iff)

lemma decode_range_Inr:
  "decode_canonical v f None (Some lo) hi = Inr bs \<longleftrightarrow>
     v = JStr (encode_base64url bs) \<and> bs \<noteq> [] \<and> lo \<le> length bs \<and> length bs \<le> hi"
proof -
  have "(length bs * 4 + 2) div 3 \<le> (hi * 4 + 2) div 3 + 2" if "length bs \<le> hi"
    using div_le_mono [of "length bs * 4 + 2" "hi * 4 + 2" 3] that by simp
  then show ?thesis by (auto simp: decode_canonical_iff)
qed

section \<open>Well-formed records\<close>

text \<open>The text is the canonical spelling of between \<open>lo\<close> and \<open>hi\<close> bytes.\<close>

definition spells :: "nat \<Rightarrow> nat \<Rightarrow> string \<Rightarrow> bool" where
  "spells lo hi s \<longleftrightarrow> (\<exists>bs. s = encode_base64url bs \<and> bs \<noteq> [] \<and> lo \<le> length bs \<and> length bs \<le> hi)"

definition wf_box :: "nat \<Rightarrow> nat \<Rightarrow> aes_gcm_box \<Rightarrow> bool" where
  "wf_box lo hi b \<longleftrightarrow>
     box_algorithm b = ''AES-256-GCM'' \<and> spells 12 12 (box_iv b) \<and> spells lo hi (box_ciphertext b)"

definition wf_storage :: "vault_storage \<Rightarrow> bool" where
  "wf_storage s \<longleftrightarrow> crypto_prefix_pattern (crypto_database_prefix s) \<and>
     (case legacy_sync_database s of None \<Rightarrow> True | Some d \<Rightarrow> legacy_sync_pattern d)"

definition wf_slot :: "unlock_slot \<Rightarrow> bool" where
  "wf_slot s =
     (case s of
        RecoverySlot r \<Rightarrow>
          spells 16 16 (rk_slot_id r) \<and> spells 32 32 (rk_salt r) \<and>
          rk_iterations r = recovery_iterations \<and> wf_box 48 48 (rk_wrapped_dek r)
      | PrfSlot w \<Rightarrow>
          spells 16 16 (wa_slot_id w) \<and> spells 1 1024 (wa_credential_id w) \<and>
          set (wa_transports w) \<subseteq> set authenticator_transports \<and> distinct (wa_transports w) \<and>
          wa_rp_id w \<noteq> [] \<and> length (wa_rp_id w) \<le> 253 \<and> list_all is_rp_char (wa_rp_id w) \<and>
          hd (wa_rp_id w) \<noteq> CHR ''.'' \<and> last (wa_rp_id w) \<noteq> CHR ''.'' \<and>
          spells 32 32 (wa_prf_input w) \<and> spells 32 32 (wa_hkdf_salt w) \<and>
          wf_box 48 48 (wa_wrapped_dek w))"

definition wf_locked :: "locked_record \<Rightarrow> bool" where
  "wf_locked r \<longleftrightarrow>
     spells 16 16 (locked_record_id r) \<and> 1 \<le> locked_revision r \<and> locked_revision r \<le> max_safe \<and>
     wf_storage (locked_storage r) \<and> wf_box 16 (max_payload_bytes + 16) (locked_payload r) \<and>
     list_all wf_slot (locked_slots r) \<and> distinct (map slot_id (locked_slots r)) \<and>
     length (filter is_recovery_slot (locked_slots r)) = 1 \<and> length (locked_slots r) \<le> max_unlock_slots"

definition wf_tombstone :: "tombstone \<Rightarrow> bool" where
  "wf_tombstone t \<longleftrightarrow>
     spells 16 16 (tomb_record_id t) \<and> 1 \<le> tomb_revision t \<and> tomb_revision t \<le> max_safe \<and>
     (case tomb_cleanup t of Some (ExactCleanup s) \<Rightarrow> wf_storage s | _ \<Rightarrow> True)"

lemma spells_encode [simp]:
  "spells lo hi (encode_base64url bs) \<longleftrightarrow> bs \<noteq> [] \<and> lo \<le> length bs \<and> length bs \<le> hi"
  by (auto simp: spells_def dest: encode_base64url_inj)

lemma spellsE:
  assumes "spells lo hi s"
  obtains bs where "s = encode_base64url bs" "bs \<noteq> []" "lo \<le> length bs" "length bs \<le> hi"
  using assms by (auto simp: spells_def)

section \<open>Stored objects\<close>

definition box_js :: "aes_gcm_box \<Rightarrow> jsval" where
  "box_js b = JObj [(''algorithm'', JStr (box_algorithm b)), (''iv'', JStr (box_iv b)),
     (''ciphertext'', JStr (box_ciphertext b))]"

definition storage_js :: "vault_storage \<Rightarrow> jsval" where
  "storage_js s = JObj ((''cryptoDatabasePrefix'', JStr (crypto_database_prefix s)) #
     (case legacy_sync_database s of None \<Rightarrow> [] | Some d \<Rightarrow> [(''legacySyncDatabase'', JStr d)]))"

definition slot_js :: "unlock_slot \<Rightarrow> jsval" where
  "slot_js s =
     (case s of
        RecoverySlot r \<Rightarrow>
          JObj [(''kind'', JStr ''recovery-key-pbkdf2''), (''slotId'', JStr (rk_slot_id r)),
            (''salt'', JStr (rk_salt r)), (''iterations'', js_int (rk_iterations r)),
            (''wrappedDek'', box_js (rk_wrapped_dek r))]
      | PrfSlot w \<Rightarrow>
          JObj [(''kind'', JStr ''webauthn-prf''), (''slotId'', JStr (wa_slot_id w)),
            (''credentialId'', JStr (wa_credential_id w)),
            (''transports'', js_array (map JStr (wa_transports w))), (''rpId'', JStr (wa_rp_id w)),
            (''prfInput'', JStr (wa_prf_input w)), (''hkdfSalt'', JStr (wa_hkdf_salt w)),
            (''wrappedDek'', box_js (wa_wrapped_dek w))])"

definition locked_js :: "locked_record \<Rightarrow> jsval" where
  "locked_js r = JObj [(''kind'', JStr ''locked-matrix-session''), (''schemaVersion'', js_int vault_schema_version),
     (''recordId'', JStr (locked_record_id r)), (''revision'', js_int (locked_revision r)),
     (''storage'', storage_js (locked_storage r)), (''payload'', box_js (locked_payload r)),
     (''unlockSlots'', js_array (map slot_js (locked_slots r)))]"

definition cleanup_js :: "cleanup_scope option \<Rightarrow> jsval" where
  "cleanup_js c =
     (case c of
        None \<Rightarrow> JUndef
      | Some AllOwned \<Rightarrow> JObj [(''scope'', JStr ''all-owned'')]
      | Some (ExactCleanup s) \<Rightarrow> JObj [(''scope'', JStr ''exact''), (''storage'', storage_js s)])"

definition tombstone_js :: "tombstone \<Rightarrow> jsval" where
  "tombstone_js t = JObj [(''kind'', JStr ''matrix-session-tombstone''),
     (''schemaVersion'', js_int vault_schema_version), (''recordId'', JStr (tomb_record_id t)),
     (''revision'', js_int (tomb_revision t)), (''pendingCleanup'', cleanup_js (tomb_cleanup t))]"

lemma object_keys_JObj [simp]: "object_keys (JObj ps) = map fst ps"
  by (simp add: object_keys_def own_props_def)

lemma is_object_JObj [simp]: "is_object (JObj ps)"
  by (simp add: is_object_def)

lemma js_int_simps [simp]: "js_int i = js_int j \<longleftrightarrow> i = j" "as_int (js_int i) = i"
  "is_safe_int_value (js_int i) \<longleftrightarrow> \<bar>i\<bar> \<le> max_safe" "js_int i \<noteq> JUndef" "js_int i \<noteq> JStr s"
  by (simp_all add: js_int_def as_int_def is_safe_int_value_def)

lemma as_string_JStr [simp]: "as_string (JStr s) = s"
  by (simp add: as_string_def)

lemma safe_int_valueE:
  assumes "is_safe_int_value v"
  obtains i where "v = js_int i" "\<bar>i\<bar> \<le> max_safe"
  using assms by (auto simp: is_safe_int_value_def js_int_def is_safe_integer_Fin split: jsval.splits)

lemma array_indices_Some:
  "map (\<lambda>(i, x). g i) (filter (\<lambda>(i, x). x \<noteq> None) (enumerate k (map Some xs))) = map g [k..<k + length xs]"
proof (induction xs arbitrary: k)
  case (Cons x xs)
  have "[k..<k + length (x # xs)] = k # [Suc k..<Suc k + length xs]"
    using upt_conv_Cons [of k "k + length (x # xs)"] by simp
  then show ?case using Cons.IH [of "Suc k"] by simp
qed simp

lemma dense_js_array [simp]: "is_dense_array (js_array xs)"
  by (simp add: is_dense_array_def js_array_def array_keys_def array_indices_Some [where k = 0, simplified])

section \<open>Accepted parts\<close>

lemma identifier_Inr:
  "0 < n \<Longrightarrow> validate_identifier v f n = Inr s \<longleftrightarrow> v = JStr s \<and> spells n n s"
  by (auto simp: validate_identifier_def sum_bind_Inr_iff decode_exact_Inr spells_def)

lemma box_sound:
  assumes "validate_aes_box v f hi ex = Inr b"
  shows "case ex of None \<Rightarrow> wf_box 16 hi b | Some n \<Rightarrow> wf_box n n b"
  using assms
  by (cases ex) (auto simp: validate_aes_box_def wf_box_def sum_bind_Inr_iff decode_range_Inr dest!: decode_exact_sound)

lemma decode_known:
  "bs \<noteq> [] \<Longrightarrow> length bs = n \<Longrightarrow> decode_canonical (JStr (encode_base64url bs)) f (Some n) m n = Inr bs"
  "bs \<noteq> [] \<Longrightarrow> lo \<le> length bs \<Longrightarrow> length bs \<le> hi \<Longrightarrow>
     decode_canonical (JStr (encode_base64url bs)) f None (Some lo) hi = Inr bs"
  by (simp_all add: decode_exact_Inr decode_range_Inr)

lemma box_complete:
  "wf_box 16 hi b \<Longrightarrow> validate_aes_box (box_js b) f hi None = Inr b"
  "wf_box n n b \<Longrightarrow> validate_aes_box (box_js b) f n (Some n) = Inr b"
  by (auto simp: validate_aes_box_def box_js_def wf_box_def spells_def decode_known check_def exact_keys_def)

lemma storage_sound: "validate_storage v = Inr s \<Longrightarrow> wf_storage s"
  by (auto simp: validate_storage_def wf_storage_def sum_bind_Inr_iff split: option.splits)

lemma name_pattern_length: "name_pattern p n s \<Longrightarrow> s \<noteq> [] \<and> length s \<le> length p + n"
  by (auto simp: name_pattern_def)

lemma storage_complete:
  assumes "wf_storage s"
  shows "validate_storage (storage_js s) = Inr s"
proof -
  have "crypto_database_prefix s \<noteq> []" "length (crypto_database_prefix s) \<le> 192"
    "legacy_sync_database s = Some d \<Longrightarrow> d \<noteq> [] \<and> length d \<le> 180" for d
    using assms name_pattern_length [of "''sub-etha-crypto-''" 160 "crypto_database_prefix s"]
      name_pattern_length [of "''matrix-js-sdk:sub-etha-sync-''" 120 d]
    by (auto simp: wf_storage_def crypto_prefix_pattern_def legacy_sync_pattern_def)
  moreover have "s = \<lparr>crypto_database_prefix = crypto_database_prefix s, legacy_sync_database = legacy_sync_database s\<rparr>"
    by simp
  ultimately show ?thesis using assms
    by (cases "legacy_sync_database s")
      (auto simp: validate_storage_def storage_js_def wf_storage_def optional_string_def
         sum_bind_def required_string_def check_def exact_keys_def)
qed

lemma transports_sound:
  assumes "validate_transports v = Inr ts"
  shows "set ts \<subseteq> set authenticator_transports \<and> distinct ts"
proof -
  let ?xs = "array_items v"
  let ?bad = "\<lambda>e. case e of JStr s \<Rightarrow> s \<notin> set authenticator_transports | _ \<Rightarrow> True"
  have ok: "\<not> list_ex ?bad ?xs" and d: "distinct ?xs" and ts: "ts = map as_string ?xs"
    using assms by (simp_all add: validate_transports_def)
  have s: "as_string x \<in> set authenticator_transports \<and> JStr (as_string x) = x" if "x \<in> set ?xs" for x
  proof -
    have "\<not> ?bad x" using ok that by (auto simp: list_ex_iff)
    then show ?thesis by (cases x) simp_all
  qed
  then have "inj_on as_string (set ?xs)" by (metis inj_onI)
  then show ?thesis using s d by (auto simp: ts distinct_map)
qed

lemma transports_complete:
  assumes "set ts \<subseteq> set authenticator_transports" and "distinct ts"
  shows "validate_transports (js_array (map JStr ts)) = Inr ts"
proof -
  have "length ts \<le> length authenticator_transports"
    using assms card_mono [of "set authenticator_transports" "set ts"]
      card_length [of authenticator_transports] by (simp add: distinct_card)
  then show ?thesis
    using assms by (auto simp: validate_transports_def list_ex_iff distinct_map inj_on_def comp_def)
qed

lemma rp_char_lower: "is_rp_char c \<Longrightarrow> lower_char c = c"
  by (auto simp: is_rp_char_def lower_char_def is_lower_def is_digit_def code_of_def)

lemma rp_id_Inr:
  "validate_rp_id v = Inr s \<longleftrightarrow>
     v = JStr s \<and> s \<noteq> [] \<and> length s \<le> 253 \<and> list_all is_rp_char s \<and> hd s \<noteq> CHR ''.'' \<and> last s \<noteq> CHR ''.''"
proof -
  have low: "to_lower s = s" if "list_all is_rp_char s"
    using that by (auto simp: to_lower_def list_all_iff rp_char_lower map_idI)
  have ends: "prefix ''.'' s \<longleftrightarrow> hd s = CHR ''.''" "suffix ''.'' s \<longleftrightarrow> last s = CHR ''.''" if "s \<noteq> []"
  proof -
    show "prefix ''.'' s \<longleftrightarrow> hd s = CHR ''.''" using that by (cases s) auto
    show "suffix ''.'' s \<longleftrightarrow> last s = CHR ''.''" using that by (cases s rule: rev_cases) (auto simp: suffix_def)
  qed
  show ?thesis
    using low ends by (cases "s = []") (auto simp: validate_rp_id_def sum_bind_Inr_iff)
qed

section \<open>Accepted unlock slots\<close>

lemma slot_sound:
  assumes "validate_unlock_slot v = Inr s"
  shows "wf_slot s"
proof -
  have "wf_slot s" if "validate_recovery_slot v = Inr s"
    using that box_sound [of _ _ _ "Some 48"]
    by (auto simp: validate_recovery_slot_def sum_bind_Inr_iff wf_slot_def identifier_Inr decode_exact_Inr)
  moreover have "wf_slot s" if "validate_prf_slot v = Inr s"
    using that box_sound [of _ _ _ "Some 48"] transports_sound
    by (auto simp: validate_prf_slot_def sum_bind_Inr_iff wf_slot_def identifier_Inr decode_exact_Inr
        decode_range_Inr rp_id_Inr)
  ultimately show ?thesis
    using assms by (simp add: validate_unlock_slot_def split: if_splits)
qed

lemma identifier_known: "spells n n s \<Longrightarrow> validate_identifier (JStr s) f n = Inr s"
  by (auto simp: validate_identifier_def decode_known elim!: spellsE)

lemma rp_id_known:
  "s \<noteq> [] \<Longrightarrow> length s \<le> 253 \<Longrightarrow> list_all is_rp_char s \<Longrightarrow> hd s \<noteq> CHR ''.'' \<Longrightarrow> last s \<noteq> CHR ''.'' \<Longrightarrow>
     validate_rp_id (JStr s) = Inr s"
  by (simp add: rp_id_Inr)

lemmas accepted_parts = decode_known identifier_known rp_id_known transports_complete box_complete

lemma slot_complete:
  assumes "wf_slot s"
  shows "validate_unlock_slot (slot_js s) = Inr s"
proof (cases s)
  case (RecoverySlot r)
  have "validate_recovery_slot (slot_js s) = Inr s"
    using assms unfolding RecoverySlot
    by (auto simp: slot_js_def validate_recovery_slot_def wf_slot_def check_def exact_keys_def accepted_parts
        elim!: spellsE [of 32 32])
  then show ?thesis by (simp add: validate_unlock_slot_def RecoverySlot slot_js_def check_def)
next
  case (PrfSlot w)
  have "validate_prf_slot (slot_js s) = Inr s"
    using assms unfolding PrfSlot
    by (auto simp: slot_js_def validate_prf_slot_def prf_slot_keys_def wf_slot_def check_def exact_keys_def
        accepted_parts elim!: spellsE [of 32 32] spellsE [of "Suc 0" 1024])
  then show ?thesis by (simp add: validate_unlock_slot_def PrfSlot slot_js_def check_def)
qed

section \<open>Accepted records\<close>

lemma map_sum_Inr: "map_sum f xs = Inr ys \<longleftrightarrow> list_all2 (\<lambda>x y. f x = Inr y) xs ys"
  by (induction xs arbitrary: ys) (auto simp: sum_bind_Inr_iff list_all2_Cons1)

lemma map_sum_known: "(\<And>y. y \<in> set ys \<Longrightarrow> f (g y) = Inr y) \<Longrightarrow> map_sum f (map g ys) = Inr ys"
  by (induction ys) auto

lemma locked_sound:
  assumes "validate_locked_record v = Inr r"
  shows "wf_locked r"
proof -
  have slots: "list_all wf_slot ss \<and> length ss = length xs" if "map_sum validate_unlock_slot xs = Inr ss" for xs ss
    using that slot_sound by (fastforce simp: map_sum_Inr list_all2_conv_all_nth list_all_length)
  show ?thesis
    using assms slots storage_sound box_sound [of _ _ _ None]
    by (auto simp: validate_locked_record_def Let_def sum_bind_Inr_iff wf_locked_def identifier_Inr
        elim!: safe_int_valueE)
qed

lemma locked_complete:
  assumes "wf_locked r"
  shows "validate_locked_record (locked_js r) = Inr r"
proof -
  have m: "map_sum validate_unlock_slot (map slot_js (locked_slots r)) = Inr (locked_slots r)"
    using assms by (intro map_sum_known slot_complete) (auto simp: wf_locked_def list_all_iff)
  have "locked_slots r \<noteq> []" using assms by (auto simp: wf_locked_def)
  then show ?thesis
    using assms m
    by (auto simp: validate_locked_record_def locked_js_def locked_keys_def Let_def wf_locked_def check_def
        exact_keys_def accepted_parts storage_complete Suc_le_eq)
qed

lemma tombstone_sound:
  assumes "validate_tombstone v = Inr t"
  shows "wf_tombstone t"
proof -
  have "case c of Some (ExactCleanup s) \<Rightarrow> wf_storage s | _ \<Rightarrow> True" if "validate_cleanup w = Inr c" for w c
    using that storage_sound by (auto simp: validate_cleanup_def sum_bind_Inr_iff split: if_splits)
  then show ?thesis
    using assms
    by (auto simp: validate_tombstone_def sum_bind_Inr_iff wf_tombstone_def identifier_Inr elim!: safe_int_valueE)
qed

lemma tombstone_complete:
  assumes "wf_tombstone t"
  shows "validate_tombstone (tombstone_js t) = Inr t"
proof -
  have "validate_cleanup (cleanup_js (tomb_cleanup t)) = Inr (tomb_cleanup t)"
    using assms
    by (auto simp: validate_cleanup_def cleanup_js_def wf_tombstone_def check_def exact_keys_def storage_complete
        split: option.splits cleanup_scope.splits)
  then show ?thesis
    using assms
    by (auto simp: validate_tombstone_def tombstone_js_def wf_tombstone_def check_def exact_keys_def accepted_parts)
qed

end
