(* ===== verification/Session_Format.thy ===== *)
theory Session_Format
  imports Vault_Records
begin

text \<open>
  lib/security/session-vault-format.ts, the plaintext Matrix session: \<open>normalizePersistedSession\<close>
  and the OAuth context it carries, the storage names derived from a session, and the comparison of
  its immutable fields. The URL parser and the homeserver policy's build mode and page origin are
  parameters.
\<close>

section \<open>The session\<close>

record oauth_metadata =
  authorization_endpoint :: string
  issuer :: string
  registration_endpoint :: string
  revocation_endpoint :: string
  token_endpoint :: string
  account_management_uri :: "string option"
  device_authorization_endpoint :: "string option"
  code_challenge_methods_supported :: "string list"
  grant_types_supported :: "string list"
  response_modes_supported :: "string list"
  response_types_supported :: "string list"
  account_management_actions_supported :: "string list option"
  prompt_values_supported :: "string list option"

record oauth_context =
  oauth_client_id :: string
  oauth_device_id :: string
  oauth_redirect_uri :: string
  oauth_meta :: oauth_metadata

record persisted_session =
  ses_base_url :: string
  ses_user_id :: string
  ses_device_id :: string
  ses_access_token :: string
  ses_refresh_token :: "string option"
  ses_expires_at :: "int option"
  ses_auth_kind :: string
  ses_crypto_storage_key :: string
  ses_crypto_database_prefix :: string
  ses_oauth :: "oauth_context option"

definition auth_kinds :: "string list" where
  "auth_kinds = [''password'', ''sso'', ''token'', ''oauth'']"

section \<open>OAuth context\<close>

definition safe_https_url :: "(string \<Rightarrow> url option) \<Rightarrow> jsval \<Rightarrow> string \<Rightarrow> vault_error + string" where
  "safe_https_url parse_url v field =
     sum_bind (required_string v field 4096) (\<lambda>candidate.
       case parse_url candidate of
         None \<Rightarrow> Inl (stored_invalid field)
       | Some u \<Rightarrow>
           check (\<not> (url_protocol u \<noteq> ''https:'' \<or> url_username u \<noteq> [] \<or> url_password u \<noteq> [] \<or> url_hash u \<noteq> []))
             (''The stored '' @ field @ '' is unsafe.'') (Inr candidate))"

definition string_array :: "jsval \<Rightarrow> string \<Rightarrow> vault_error + string list" where
  "string_array v field =
     check (\<not> (\<not> is_array v \<or> \<not> is_dense_array v \<or> length (array_items v) > 64
               \<or> list_ex (\<lambda>e. case e of JStr s \<Rightarrow> s = [] \<or> length s > 256 | _ \<Rightarrow> True) (array_items v)))
       (''The stored '' @ field @ '' is invalid.'')
       (Inr (map as_string (array_items v)))"

text \<open>\<^verbatim>\<open>if (metadata[key] !== undefined) ...\<close>\<close>

definition when_defined :: "jsval \<Rightarrow> (jsval \<Rightarrow> vault_error + 'a) \<Rightarrow> vault_error + 'a option" where
  "when_defined v f = (if v = JUndef then Inr None else sum_bind (f v) (\<lambda>x. Inr (Some x)))"

definition complete_metadata :: "oauth_metadata \<Rightarrow> bool" where
  "complete_metadata m \<longleftrightarrow>
     ''S256'' \<in> set (code_challenge_methods_supported m) \<and>
     ''authorization_code'' \<in> set (grant_types_supported m) \<and>
     ''refresh_token'' \<in> set (grant_types_supported m) \<and>
     ''query'' \<in> set (response_modes_supported m) \<and>
     ''fragment'' \<in> set (response_modes_supported m) \<and>
     ''code'' \<in> set (response_types_supported m)"

definition normalize_metadata :: "(string \<Rightarrow> url option) \<Rightarrow> jsval \<Rightarrow> vault_error + oauth_metadata" where
  "normalize_metadata parse_url md =
     sum_bind (safe_https_url parse_url (js_opt ''authorization_endpoint'' md) ''OAuth authorization_endpoint'') (\<lambda>ae.
     sum_bind (safe_https_url parse_url (js_opt ''issuer'' md) ''OAuth issuer'') (\<lambda>iss.
     sum_bind (safe_https_url parse_url (js_opt ''registration_endpoint'' md) ''OAuth registration_endpoint'') (\<lambda>reg.
     sum_bind (safe_https_url parse_url (js_opt ''revocation_endpoint'' md) ''OAuth revocation_endpoint'') (\<lambda>rev.
     sum_bind (safe_https_url parse_url (js_opt ''token_endpoint'' md) ''OAuth token_endpoint'') (\<lambda>tok.
     case parse_url iss of
       None \<Rightarrow> Inl PlatformError
     | Some u \<Rightarrow>
     check (url_search u = []) ''The stored OAuth issuer is unsafe.''
    (sum_bind (when_defined (js_opt ''account_management_uri'' md)
                (\<lambda>v. safe_https_url parse_url v ''OAuth account_management_uri'')) (\<lambda>am.
     sum_bind (when_defined (js_opt ''device_authorization_endpoint'' md)
                (\<lambda>v. safe_https_url parse_url v ''OAuth device_authorization_endpoint'')) (\<lambda>da.
     sum_bind (string_array (js_opt ''code_challenge_methods_supported'' md) ''OAuth code_challenge_methods_supported'') (\<lambda>cc.
     sum_bind (string_array (js_opt ''grant_types_supported'' md) ''OAuth grant_types_supported'') (\<lambda>gt.
     sum_bind (string_array (js_opt ''response_modes_supported'' md) ''OAuth response_modes_supported'') (\<lambda>rm.
     sum_bind (string_array (js_opt ''response_types_supported'' md) ''OAuth response_types_supported'') (\<lambda>rt.
     sum_bind (when_defined (js_opt ''account_management_actions_supported'' md)
                (\<lambda>v. string_array v ''OAuth account_management_actions_supported'')) (\<lambda>aa.
     sum_bind (when_defined (js_opt ''prompt_values_supported'' md)
                (\<lambda>v. string_array v ''OAuth prompt_values_supported'')) (\<lambda>pv.
     let m = \<lparr>authorization_endpoint = ae, issuer = iss, registration_endpoint = reg, revocation_endpoint = rev,
              token_endpoint = tok, account_management_uri = am, device_authorization_endpoint = da,
              code_challenge_methods_supported = cc, grant_types_supported = gt, response_modes_supported = rm,
              response_types_supported = rt, account_management_actions_supported = aa,
              prompt_values_supported = pv\<rparr>
     in check (complete_metadata m) ''The stored OAuth metadata is incomplete.'' (Inr m)))))))))))))))"

definition safe_redirect :: "url \<Rightarrow> bool" where
  "safe_redirect u \<longleftrightarrow>
     \<not> (\<not> (url_protocol u = ''https:'' \<or> url_protocol u = ''http:'')
        \<or> (url_protocol u = ''http:'' \<and> \<not> is_loopback_hostname (url_hostname u))
        \<or> url_username u \<noteq> [] \<or> url_password u \<noteq> [] \<or> url_hash u \<noteq> [])"

definition normalize_oauth :: "(string \<Rightarrow> url option) \<Rightarrow> jsval \<Rightarrow> vault_error + oauth_context" where
  "normalize_oauth parse_url v =
     check (is_object v) ''The stored OAuth context is invalid.''
       (exact_keys v [''clientId'', ''deviceId'', ''redirectUri'', ''metadata''] []
         (check (is_object (js_opt ''metadata'' v)) ''The stored OAuth metadata is invalid.''
           (sum_bind (normalize_metadata parse_url (js_opt ''metadata'' v)) (\<lambda>m.
            sum_bind (required_string (js_opt ''redirectUri'' v) ''OAuth redirect URI'' 4096) (\<lambda>redirect_uri.
            case parse_url redirect_uri of
              None \<Rightarrow> corrupt ''The stored OAuth redirect URI is invalid.''
            | Some u \<Rightarrow>
                check (safe_redirect u) ''The stored OAuth redirect URI is unsafe.''
               (sum_bind (required_string (js_opt ''clientId'' v) ''OAuth client ID'' 4096) (\<lambda>cid.
                sum_bind (required_string (js_opt ''deviceId'' v) ''OAuth device ID'' 1024) (\<lambda>did.
                Inr \<lparr>oauth_client_id = cid, oauth_device_id = did, oauth_redirect_uri = redirect_uri,
                     oauth_meta = m\<rparr>))))))))"

section \<open>normalizePersistedSession\<close>

definition session_required :: "string list" where
  "session_required = [''baseUrl'', ''userId'', ''deviceId'', ''accessToken'', ''authKind'', ''cryptoStorageKey'']"

definition session_optional :: "string list" where
  "session_optional = [''refreshToken'', ''expiresAt'', ''oauth'', ''cryptoDatabasePrefix'']"

text \<open>The stored prefix, checked against the one derived from the session, or the derived one.\<close>

definition session_prefix :: "bool \<Rightarrow> string option \<Rightarrow> jsval \<Rightarrow> vault_error + string" where
  "session_prefix require derived v =
     sum_bind
       (if v = JUndef then Inr derived
        else sum_bind (required_string v ''Rust crypto database prefix'' 192) (\<lambda>p.
          check (crypto_prefix_pattern p) ''The stored Rust crypto database prefix is invalid.''
         (check (\<not> (case derived of Some d \<Rightarrow> d \<noteq> [] \<and> p \<noteq> d | None \<Rightarrow> False))
            ''The stored Rust crypto database identity changed.'' (Inr (Some p))))) (\<lambda>prefix.
      check (\<not> (require \<and> (prefix = None \<or> prefix = Some [])))
        ''The stored Rust crypto database prefix is missing.''
     (case prefix of
        None \<Rightarrow> corrupt ''The Rust crypto database prefix is invalid.''
      | Some p \<Rightarrow> check (p \<noteq> [] \<and> crypto_prefix_pattern p) ''The Rust crypto database prefix is invalid.'' (Inr p)))"

definition session_expiry :: "jsval \<Rightarrow> vault_error + int option" where
  "session_expiry v =
     check (\<not> (v \<noteq> JUndef \<and>
               (\<not> (case v of JNum n \<Rightarrow> is_finite_num n | _ \<Rightarrow> False) \<or> as_int v \<le> 0 \<or> \<not> is_safe_int_value v)))
       ''The stored token expiry is invalid.''
       (Inr (if v = JUndef then None else Some (as_int v)))"

definition stored_base_url ::
  "(string \<Rightarrow> url option) \<Rightarrow> bool \<Rightarrow> string option \<Rightarrow> jsval \<Rightarrow> vault_error + string" where
  "stored_base_url parse_url production app_origin v =
     (case sum_bind (required_string v ''homeserver URL'' 4096) (\<lambda>raw.
        case assert_allowed_homeserver_url parse_url production app_origin raw of
          Inl m \<Rightarrow> Inl PlatformError | Inr base \<Rightarrow> Inr base) of
        Inl e \<Rightarrow> corrupt ''The stored homeserver URL is unsafe.''
      | Inr base \<Rightarrow> Inr base)"

definition normalize_persisted_session ::
  "(string \<Rightarrow> url option) \<Rightarrow> bool \<Rightarrow> string option \<Rightarrow> bool \<Rightarrow> string option \<Rightarrow> jsval \<Rightarrow>
     vault_error + persisted_session" where
  "normalize_persisted_session parse_url production app_origin require derived v =
     check (is_object v) ''The stored Matrix session is invalid.''
       (exact_keys v session_required session_optional
         (check (case js_opt ''authKind'' v of JStr k \<Rightarrow> k \<in> set auth_kinds | _ \<Rightarrow> False)
            ''The stored authentication kind is invalid.''
         (sum_bind (required_string (js_opt ''cryptoStorageKey'' v) ''Rust crypto storage key'' 128) (\<lambda>key.
          sum_bind (decode_canonical (JStr key) ''Rust crypto storage key'' (Some 32) None 32) (\<lambda>_.
          sum_bind (session_prefix require derived (js_opt ''cryptoDatabasePrefix'' v)) (\<lambda>prefix.
          sum_bind (session_expiry (js_opt ''expiresAt'' v)) (\<lambda>expires.
          sum_bind (when_defined (js_opt ''oauth'' v) (normalize_oauth parse_url)) (\<lambda>oauth.
          check ((as_string (js_opt ''authKind'' v) = ''oauth'') = (oauth \<noteq> None))
            ''The stored OAuth session context is inconsistent.''
         (sum_bind (stored_base_url parse_url production app_origin (js_opt ''baseUrl'' v)) (\<lambda>base.
          sum_bind (required_string (js_opt ''userId'' v) ''Matrix user ID'' 1024) (\<lambda>uid.
          sum_bind (required_string (js_opt ''deviceId'' v) ''Matrix device ID'' 1024) (\<lambda>did.
          sum_bind (required_string (js_opt ''accessToken'' v) ''access token'' 16384) (\<lambda>tok.
          sum_bind (optional_string (js_opt ''refreshToken'' v) ''refresh token'' 16384) (\<lambda>ref.
          Inr \<lparr>ses_base_url = base, ses_user_id = uid, ses_device_id = did, ses_access_token = tok,
               ses_refresh_token = ref, ses_expires_at = expires,
               ses_auth_kind = as_string (js_opt ''authKind'' v), ses_crypto_storage_key = key,
               ses_crypto_database_prefix = prefix, ses_oauth = oauth\<rparr>))))))))))))))"

section \<open>Storage names\<close>

text \<open>\<^verbatim>\<open>replace(/[^a-zA-Z0-9_-]/g, "_")\<close>\<close>

definition safe_name_char :: "char \<Rightarrow> char" where
  "safe_name_char c = (if is_token_char c then c else CHR ''_'')"

definition stable_store_name :: "string \<Rightarrow> string \<Rightarrow> string" where
  "stable_store_name user_id device_id = take 120 (map safe_name_char (user_id @ ''-'' @ device_id))"

definition legacy_storage_metadata :: "string \<Rightarrow> string \<Rightarrow> vault_storage" where
  "legacy_storage_metadata user_id device_id =
     (let name = stable_store_name user_id device_id
      in \<lparr>crypto_database_prefix = ''sub-etha-crypto-'' @ name,
          legacy_sync_database = Some (''matrix-js-sdk:sub-etha-sync-'' @ name)\<rparr>)"

end
