(* ===== verification/Vault_Binding.thy ===== *)
theory Vault_Binding
  imports Session_Format
begin

text \<open>
  lib/security/session-vault-format.ts, the byte strings the vault's encryption binds: the
  canonical JSON of the slot and payload metadata. \<^verbatim>\<open>JSON.stringify\<close> is modelled on the
  four shapes the code gives it, \<^verbatim>\<open>TextEncoder\<close> on code units below 256. The facts show
  that the bytes determine what they were made from.
\<close>

section \<open>JSON.stringify and TextEncoder\<close>

datatype json =
    JsonNull
  | JsonInt int
  | JsonText string
  | JsonList "json list"

definition hex_digit :: "nat \<Rightarrow> char" where
  "hex_digit n = (if n < 10 then char_of (48 + n) else char_of (87 + n))"

definition escape_char :: "char \<Rightarrow> string" where
  "escape_char c =
     (let n = code_of c in
      if n = 34 then [CHR 0x5C, CHR 0x22]
      else if n = 92 then [CHR 0x5C, CHR 0x5C]
      else if n = 8 then [CHR 0x5C, CHR ''b'']
      else if n = 9 then [CHR 0x5C, CHR ''t'']
      else if n = 10 then [CHR 0x5C, CHR ''n'']
      else if n = 12 then [CHR 0x5C, CHR ''f'']
      else if n = 13 then [CHR 0x5C, CHR ''r'']
      else if n < 32 then [CHR 0x5C, CHR ''u'', CHR ''0'', CHR ''0'', hex_digit (n div 16), hex_digit (n mod 16)]
      else [c])"

fun comma_join :: "string list \<Rightarrow> string" where
  "comma_join [] = []"
| "comma_join [x] = x"
| "comma_join (x # y # ys) = x @ CHR '','' # comma_join (y # ys)"

fun json_text :: "json \<Rightarrow> string" where
  "json_text JsonNull = ''null''"
| "json_text (JsonInt i) = int_digits i"
| "json_text (JsonText s) = CHR 0x22 # concat (map escape_char s) @ [CHR 0x22]"
| "json_text (JsonList vs) = CHR ''['' # comma_join (map json_text vs) @ [CHR '']'']"

definition canonical_json :: "json \<Rightarrow> 8 word list" where
  "canonical_json v = utf8 (json_text v)"

section \<open>Additional data\<close>

definition canonical_box :: "aes_gcm_box \<Rightarrow> json" where
  "canonical_box b = JsonList [JsonText (box_algorithm b), JsonText (box_iv b), JsonText (box_ciphertext b)]"

text \<open>The metadata of a slot without its wrapped key: what \<open>slotAdditionalData\<close> binds.\<close>

definition slot_fields :: "unlock_slot \<Rightarrow> json list" where
  "slot_fields s =
     (case s of
        RecoverySlot r \<Rightarrow>
          [JsonText ''recovery-key-pbkdf2'', JsonText (rk_slot_id r), JsonText (rk_salt r), JsonInt (rk_iterations r)]
      | PrfSlot w \<Rightarrow>
          [JsonText ''webauthn-prf'', JsonText (wa_slot_id w), JsonText (wa_credential_id w),
           JsonList (map JsonText (wa_transports w)), JsonText (wa_rp_id w), JsonText (wa_prf_input w),
           JsonText (wa_hkdf_salt w)])"

definition slot_dek :: "unlock_slot \<Rightarrow> aes_gcm_box" where
  "slot_dek s = (case s of RecoverySlot r \<Rightarrow> rk_wrapped_dek r | PrfSlot w \<Rightarrow> wa_wrapped_dek w)"

definition canonical_slot_metadata :: "unlock_slot \<Rightarrow> json" where
  "canonical_slot_metadata s = JsonList (slot_fields s @ [canonical_box (slot_dek s)])"

definition slot_additional_data :: "string \<Rightarrow> unlock_slot \<Rightarrow> 8 word list" where
  "slot_additional_data record_id s =
     canonical_json (JsonList [JsonText ''sub-etha/session-vault/slot/v1'', JsonInt vault_schema_version,
       JsonText record_id, JsonList (slot_fields s)])"

definition payload_additional_data ::
  "string \<Rightarrow> int \<Rightarrow> vault_storage \<Rightarrow> unlock_slot list \<Rightarrow> 8 word list" where
  "payload_additional_data record_id revision storage slots =
     canonical_json (JsonList [JsonText ''sub-etha/session-vault/payload/v1'', JsonInt vault_schema_version,
       JsonText record_id, JsonInt revision,
       JsonList [JsonText (crypto_database_prefix storage),
         (case legacy_sync_database storage of None \<Rightarrow> JsonNull | Some d \<Rightarrow> JsonText d)],
       JsonList (map canonical_slot_metadata slots)])"

definition webauthn_hkdf_info :: "string \<Rightarrow> string \<Rightarrow> 8 word list" where
  "webauthn_hkdf_info record_id sid =
     canonical_json (JsonList [JsonText ''sub-etha/session-vault/webauthn-prf-kek/v1'',
       JsonInt vault_schema_version, JsonText record_id, JsonText sid])"

section \<open>Decimal numerals\<close>

lemma digit_char: "n < 10 \<Longrightarrow> digit_val (char_of (48 + n)) = n \<and> is_digit (char_of (48 + n))"
  by (simp add: digit_val_def is_digit_def code_of_def)

lemma digits_value_snoc: "digits_value b (ds @ [c]) = digits_value b ds * b + digit_val c"
  by (simp add: digits_value_def)

lemma nat_digits_value: "digits_value 10 (nat_digits n) = n \<and> list_all is_digit (nat_digits n) \<and> nat_digits n \<noteq> []"
proof (induction n rule: nat_digits.induct)
  case (1 n)
  show ?case
  proof (cases "n < 10")
    case True
    then show ?thesis using digit_char by (subst (1 2 3) nat_digits.simps) (simp add: digits_value_def)
  next
    case False
    then have "digits_value 10 (nat_digits (n div 10)) = n div 10 \<and> list_all is_digit (nat_digits (n div 10))"
      using 1 by simp
    moreover have "nat_digits n = nat_digits (n div 10) @ [char_of (48 + n mod 10)]"
      using False by (subst nat_digits.simps) simp
    ultimately show ?thesis using digit_char [of "n mod 10"] by (simp add: digits_value_snoc)
  qed
qed

lemma nat_digits_inject: "nat_digits m = nat_digits n \<Longrightarrow> m = n"
  using nat_digits_value by metis

definition is_number_char :: "char \<Rightarrow> bool" where
  "is_number_char c \<longleftrightarrow> is_digit c \<or> c = CHR ''-''"

lemma int_digits_chars: "list_all is_number_char (int_digits i) \<and> int_digits i \<noteq> []"
  using nat_digits_value [of "nat i"] nat_digits_value [of "nat (- i)"]
  by (auto simp: int_digits_def is_number_char_def list_all_iff)

lemma int_digits_inject: "int_digits i = int_digits j \<Longrightarrow> i = j"
proof -
  have m: "CHR ''-'' # ds \<noteq> nat_digits n" for ds n
    using nat_digits_value [of n] by (metis letter_not_digit(8) list.pred_inject(2))
  assume "int_digits i = int_digits j"
  then show ?thesis
    using m [of _ "nat i"] m [of _ "nat j"] nat_digits_inject
    by (auto simp: int_digits_def split: if_splits dest: nat_digits_inject)
qed

section \<open>The text of a value determines it\<close>

text \<open>What may follow a value inside a list or at the end of the text.\<close>

definition delimited :: "string \<Rightarrow> bool" where
  "delimited r \<longleftrightarrow> r = [] \<or> hd r = CHR '','' \<or> hd r = CHR '']''"

lemma takeWhile_delimited:
  assumes "list_all P ds" and "r = [] \<or> \<not> P (hd r)"
  shows "takeWhile P (ds @ r) = ds" and "dropWhile P (ds @ r) = r"
  using assms by (induction ds) (auto simp: takeWhile_eq_Nil_iff, cases r, auto)

lemma number_cut:
  assumes "int_digits i @ r = int_digits j @ s" and "delimited r" and "delimited s"
  shows "i = j \<and> r = s"
proof -
  have "\<not> is_number_char (CHR '','')" "\<not> is_number_char (CHR '']'')"
    by (simp_all add: is_number_char_def is_digit_def code_of_def)
  then have "r = [] \<or> \<not> is_number_char (hd r)" "s = [] \<or> \<not> is_number_char (hd s)"
    using assms(2,3) by (auto simp: delimited_def)
  then have "takeWhile is_number_char (int_digits i @ r) = int_digits i"
    "takeWhile is_number_char (int_digits j @ s) = int_digits j"
    by (simp_all add: takeWhile_delimited(1) int_digits_chars)
  then show ?thesis using assms(1) int_digits_inject by (metis same_append_eq)
qed

fun hex_value :: "char \<Rightarrow> nat" where
  "hex_value c = (if code_of c < 58 then code_of c - 48 else code_of c - 87)"

lemma hex_value_digit: "n < 16 \<Longrightarrow> hex_value (hex_digit n) = n"
  by (simp add: hex_digit_def code_of_def)

text \<open>The first code unit of an escaped text, and the rest.\<close>

definition unescape :: "string \<Rightarrow> nat \<times> string" where
  "unescape s =
     (if code_of (hd s) \<noteq> 92 then (code_of (hd s), tl s)
      else let e = code_of (s ! 1) in
        if e = 117 then (hex_value (s ! 4) * 16 + hex_value (s ! 5), drop 6 s)
        else (if e = 98 then 8 else if e = 116 then 9 else if e = 110 then 10 else if e = 102 then 12
              else if e = 114 then 13 else e, drop 2 s))"

lemma unescape_escape: "unescape (escape_char c @ x) = (code_of c, x)"
proof -
  define n where "n = code_of c"
  have code: "code_of (CHR 0x5C) = 92" "code_of (CHR 0x22) = 34" "code_of (CHR ''u'') = 117"
    "code_of (CHR ''b'') = 98" "code_of (CHR ''t'') = 116" "code_of (CHR ''n'') = 110"
    "code_of (CHR ''f'') = 102" "code_of (CHR ''r'') = 114"
    by (simp_all add: code_of_def)
  have h: "code_of c = n" by (simp add: n_def)
  consider "n = 34" | "n = 92" | "n = 8" | "n = 9" | "n = 10" | "n = 12" | "n = 13"
    | "n < 32" "n \<notin> {34, 92, 8, 9, 10, 12, 13}" | "\<not> n < 32" "n \<notin> {34, 92}" by blast
  then show ?thesis
  proof cases
    case 8
    then have "hex_value (hex_digit (n div 16)) * 16 + hex_value (hex_digit (n mod 16)) = n"
      by (subst (1 2) hex_value_digit) auto
    then show ?thesis
      using 8 by (simp add: unescape_def escape_char_def Let_def h code del: hex_value.simps)
  qed (simp_all add: unescape_def escape_char_def Let_def h code)
qed

lemma escape_cut: "escape_char c @ x = escape_char d @ y \<Longrightarrow> c = d \<and> x = y"
  using unescape_escape code_of_inject by (metis prod.inject)

lemma escape_no_quote: "escape_char c @ x \<noteq> CHR 0x22 # y"
proof
  assume "escape_char c @ x = CHR 0x22 # y"
  then have "hd (escape_char c) = CHR 0x22" by (cases "escape_char c") (auto simp: escape_char_def Let_def split: if_splits)
  then show False by (auto simp: escape_char_def Let_def code_of_def split: if_splits)
qed

lemma text_cut:
  "concat (map escape_char a) @ CHR 0x22 # x = concat (map escape_char b) @ CHR 0x22 # y \<Longrightarrow> a = b \<and> x = y"
proof (induction a arbitrary: b)
  case Nil
  then show ?case using escape_no_quote by (cases b) (auto, metis)
next
  case (Cons c a)
  then show ?case
  proof (cases b)
    case Nil
    then show ?thesis using Cons.prems escape_no_quote by auto
  next
    case (Cons d b')
    then have "escape_char c @ (concat (map escape_char a) @ CHR 0x22 # x) =
        escape_char d @ (concat (map escape_char b') @ CHR 0x22 # y)"
      using Cons.prems by simp
    then show ?thesis using escape_cut Cons.IH Cons by blast
  qed
qed

text \<open>The first character of a text tells the kind of value it is.\<close>

lemma json_text_hd:
  "json_text v \<noteq> []" "hd (json_text JsonNull) = CHR ''n''" "is_number_char (hd (json_text (JsonInt i)))"
  "hd (json_text (JsonText t)) = CHR 0x22" "hd (json_text (JsonList vs)) = CHR ''[''"
proof -
  show "json_text v \<noteq> []" using int_digits_chars by (cases v) auto
  show "is_number_char (hd (json_text (JsonInt i)))"
    using int_digits_chars [of i] by (cases "int_digits i") auto
qed simp_all

lemma int_head: "hd (int_digits i) = c \<Longrightarrow> is_number_char c"
  using json_text_hd(3) [of i] by simp

lemma number_heads:
  "\<not> is_number_char (CHR ''n'')" "\<not> is_number_char (CHR 0x22)" "\<not> is_number_char (CHR ''['')"
  "\<not> is_number_char (CHR '']'')"
  by (simp_all add: is_number_char_def is_digit_def code_of_def)

lemma json_text_no_bracket: "hd (json_text v) \<noteq> CHR '']''"
  using number_heads by (cases v) (auto dest!: int_head)

lemma comma_join_Cons:
  "comma_join (x # xs) @ r = x @ (case xs of [] \<Rightarrow> r | _ \<Rightarrow> CHR '','' # comma_join xs @ r)"
  by (cases xs) auto

lemma list_cut:
  assumes IH: "\<And>v w r s. v \<in> set vs \<Longrightarrow> json_text v @ r = json_text w @ s \<Longrightarrow> delimited r \<Longrightarrow> delimited s \<Longrightarrow>
      v = w \<and> r = s"
    and eq: "comma_join (map json_text vs) @ CHR '']'' # r = comma_join (map json_text ws) @ CHR '']'' # s"
  shows "vs = ws \<and> r = s"
  using assms
proof (induction vs arbitrary: ws)
  case Nil
  show ?case
  proof (cases ws)
    case (Cons w ws')
    then have "CHR '']'' # r = json_text w @ (case map json_text ws' of [] \<Rightarrow> CHR '']'' # s
        | _ \<Rightarrow> CHR '','' # comma_join (map json_text ws') @ CHR '']'' # s)"
      using Nil.prems(2) by (simp add: comma_join_Cons)
    then have "hd (json_text w) = CHR '']''" using json_text_hd(1) [of w] by (cases "json_text w") auto
    then show ?thesis using json_text_no_bracket by blast
  qed (use Nil in simp)
next
  case (Cons v vs)
  show ?case
  proof (cases ws)
    case Nil
    then have "CHR '']'' # s = json_text v @ (case map json_text vs of [] \<Rightarrow> CHR '']'' # r
        | _ \<Rightarrow> CHR '','' # comma_join (map json_text vs) @ CHR '']'' # r)"
      using Cons.prems(2) by (simp add: comma_join_Cons)
    then have "hd (json_text v) = CHR '']''" using json_text_hd(1) [of v] by (cases "json_text v") auto
    then show ?thesis using json_text_no_bracket by blast
  next
    case (Cons w ws')
    define tail where "tail xs t = (case map json_text xs of [] \<Rightarrow> CHR '']'' # t
        | _ \<Rightarrow> CHR '','' # comma_join (map json_text xs) @ CHR '']'' # t)" for xs t
    have d: "delimited (tail xs t)" for xs t by (auto simp: delimited_def tail_def split: list.split)
    have "json_text v @ tail vs r = json_text w @ tail ws' s"
      using Cons.prems(2) Cons by (simp add: comma_join_Cons tail_def)
    then have "v = w" and t: "tail vs r = tail ws' s" 
      using Cons.prems(1) [of v "tail vs r" w "tail ws' s"] d by auto
    have "vs = ws' \<and> r = s"
    proof (cases "vs = [] \<or> ws' = []")
      case True
      then show ?thesis using t by (auto simp: tail_def split: list.splits)
    next
      case False
      then have "comma_join (map json_text vs) @ CHR '']'' # r = comma_join (map json_text ws') @ CHR '']'' # s"
        using t by (auto simp: tail_def split: list.splits)
      then show ?thesis using Cons.IH Cons.prems(1) by (metis list.set_intros(2))
    qed
    then show ?thesis using \<open>v = w\<close> Cons by simp
  qed
qed

lemma json_cut:
  "json_text v @ r = json_text w @ s \<Longrightarrow> delimited r \<Longrightarrow> delimited s \<Longrightarrow> v = w \<and> r = s"
proof (induction v arbitrary: w r s)
  case JsonNull
  have "hd (json_text w) = CHR ''n''" using JsonNull.prems(1) json_text_hd(1) [of w] by (cases "json_text w") auto
  then have "w = JsonNull" using number_heads by (cases w) (auto dest!: int_head)
  then show ?case using JsonNull by simp
next
  case (JsonInt i)
  have "hd (json_text w) = hd (json_text (JsonInt i))"
    using JsonInt.prems(1) json_text_hd(1) by (metis hd_append2)
  then have "is_number_char (hd (json_text w))" using json_text_hd(3) [of i] by metis
  then obtain j where "w = JsonInt j" using number_heads by (cases w) simp_all
  then show ?case using JsonInt.prems number_cut [of i r j s] by simp
next
  case (JsonText t)
  have "hd (json_text w) = CHR 0x22" using JsonText.prems(1) json_text_hd(1) [of w] by (cases "json_text w") auto
  then obtain u where u: "w = JsonText u" using number_heads by (cases w) (auto dest!: int_head)
  then have "concat (map escape_char t) @ CHR 0x22 # r = concat (map escape_char u) @ CHR 0x22 # s"
    using JsonText.prems(1) by simp
  then show ?case unfolding u by (blast dest: text_cut)
next
  case (JsonList vs)
  have "hd (json_text w) = CHR ''[''" using JsonList.prems(1) json_text_hd(1) [of w] by (cases "json_text w") auto
  then obtain ws where w: "w = JsonList ws" using number_heads by (cases w) (auto dest!: int_head)
  have "vs = ws \<and> r = s"
    using JsonList.prems(1) w by (intro list_cut [OF JsonList.IH]) auto
  then show ?case using w by simp
qed

lemma json_text_inject: "json_text v = json_text w \<longleftrightarrow> v = w"
  using json_cut [of v "[]" w "[]"] by (auto simp: delimited_def)

section \<open>The bytes determine the text\<close>

lemma unat_byte: "n < 256 \<Longrightarrow> unat (word_of_nat n :: 8 word) = n"
  by (simp add: unat_of_nat)

text \<open>The first code unit encoded in a byte string, and the rest.\<close>

definition utf8_first :: "8 word list \<Rightarrow> nat \<times> 8 word list" where
  "utf8_first bs =
     (if unat (hd bs) < 128 then (unat (hd bs), tl bs)
      else ((unat (hd bs) - 192) * 64 + (unat (bs ! 1) - 128), drop 2 bs))"

lemma utf8_first_char: "utf8_first (utf8_char c @ x) = (code_of c, x)"
proof (cases "code_of c < 128")
  case False
  have "code_of c < 256" by (rule code_of_less)
  then have "code_of c div 64 < 4" by (simp add: div_less_iff_less_mult)
  then have "192 + code_of c div 64 < 256" "128 + code_of c mod 64 < 256"
    using mod_less_divisor [of 64 "code_of c"] by linarith+
  then have "unat (word_of_nat (192 + code_of c div 64) :: 8 word) = 192 + code_of c div 64"
    "unat (word_of_nat (128 + code_of c mod 64) :: 8 word) = 128 + code_of c mod 64"
    by (simp_all only: unat_byte)
  then show ?thesis using False by (simp add: utf8_first_def utf8_char_def Let_def del: of_nat_add)
qed (simp add: utf8_first_def utf8_char_def Let_def unat_byte)

lemma utf8_inject: "utf8 s = utf8 t \<longleftrightarrow> s = t"
proof
  show "utf8 s = utf8 t \<Longrightarrow> s = t"
  proof (induction s arbitrary: t)
    case Nil
    then show ?case by (cases t) (auto simp: utf8_def utf8_char_def Let_def split: if_splits)
  next
    case (Cons c s)
    then obtain d t' where t: "t = d # t'"
      by (cases t) (auto simp: utf8_def utf8_char_def Let_def split: if_splits)
    have "utf8_first (utf8_char c @ utf8 s) = utf8_first (utf8_char d @ utf8 t')"
      using Cons.prems t by (simp add: utf8_def)
    then have "c = d" "utf8 s = utf8 t'" by (simp_all add: utf8_first_char code_of_inject)
    then show ?case using Cons.IH t by simp
  qed
qed simp

lemma canonical_json_inject: "canonical_json v = canonical_json w \<longleftrightarrow> v = w"
  by (simp add: canonical_json_def utf8_inject json_text_inject)

section \<open>What the additional data binds\<close>

lemma inj_JsonText [simp]: "map JsonText xs = map JsonText ys \<longleftrightarrow> xs = ys"
  by (simp add: inj_def)

lemma canonical_box_inject [simp]: "canonical_box a = canonical_box b \<longleftrightarrow> a = b"
  by (auto simp: canonical_box_def)

lemma slot_fields_dek: "slot_fields s = slot_fields t \<and> slot_dek s = slot_dek t \<longleftrightarrow> s = t"
  by (cases s; cases t) (auto simp: slot_fields_def slot_dek_def)

lemma canonical_slot_inject: "canonical_slot_metadata s = canonical_slot_metadata t \<longleftrightarrow> s = t"
  by (simp add: canonical_slot_metadata_def slot_fields_dek)

lemma storage_inject:
  "JsonList [JsonText (crypto_database_prefix a), (case legacy_sync_database a of None \<Rightarrow> JsonNull | Some d \<Rightarrow> JsonText d)]
   = JsonList [JsonText (crypto_database_prefix b), (case legacy_sync_database b of None \<Rightarrow> JsonNull | Some d \<Rightarrow> JsonText d)]
     \<longleftrightarrow> a = b" for a b :: vault_storage
  by (cases a; cases b) (auto split: option.splits)

lemma slots_inject: "map canonical_slot_metadata ss = map canonical_slot_metadata ts \<longleftrightarrow> ss = ts"
  by (simp add: inj_def canonical_slot_inject)

text \<open>The additional data of the payload determines the record it belongs to: the record id, the
  revision, the storage names and every field of every unlock slot, wrapped keys included. A
  payload sealed for one record never opens under another.
\<close>

theorem payload_data_binds:
  "payload_additional_data rid revision storage slots = payload_additional_data rid' revision' storage' slots' \<longleftrightarrow>
     rid = rid' \<and> revision = revision' \<and> storage = storage' \<and> slots = slots'"
  using storage_inject [of storage storage'] slots_inject [of slots slots']
  by (auto simp: payload_additional_data_def canonical_json_inject)

text \<open>The additional data of a slot determines the record and every field of the slot but the
  wrapped key it protects, and the three kinds of derived bytes never coincide.
\<close>

theorem slot_data_binds:
  "(slot_additional_data rid s = slot_additional_data rid' t \<longleftrightarrow> rid = rid' \<and> slot_fields s = slot_fields t) \<and>
   (webauthn_hkdf_info rid sid = webauthn_hkdf_info rid' sid' \<longleftrightarrow> rid = rid' \<and> sid = sid') \<and>
   slot_additional_data rid s \<noteq> payload_additional_data rid' revision storage slots \<and>
   slot_additional_data rid s \<noteq> webauthn_hkdf_info rid' sid' \<and>
   payload_additional_data rid revision storage slots \<noteq> webauthn_hkdf_info rid' sid'"
  by (simp add: slot_additional_data_def payload_additional_data_def webauthn_hkdf_info_def canonical_json_inject)

end
