(* ===== verification/Session_Records.thy ===== *)
theory Session_Records
  imports Session_Format
begin

text \<open>
  What \<open>normalizePersistedSession\<close> of \<open>Session_Format\<close> accepts: safe sessions, described without
  reference to the normaliser, and the object a session is stored as.
\<close>

section \<open>Safe sessions\<close>

definition https_url :: "(string \<Rightarrow> url option) \<Rightarrow> string \<Rightarrow> bool" where
  "https_url parse_url s \<longleftrightarrow> s \<noteq> [] \<and> length s \<le> 4096 \<and>
     (case parse_url s of None \<Rightarrow> False
      | Some u \<Rightarrow> url_protocol u = ''https:'' \<and> url_username u = [] \<and> url_password u = [] \<and> url_hash u = [])"

definition short_strings :: "string list \<Rightarrow> bool" where
  "short_strings xs \<longleftrightarrow> length xs \<le> 64 \<and> list_all (\<lambda>s. s \<noteq> [] \<and> length s \<le> 256) xs"

definition if_some :: "('a \<Rightarrow> bool) \<Rightarrow> 'a option \<Rightarrow> bool" where
  "if_some P r = (case r of None \<Rightarrow> True | Some x \<Rightarrow> P x)"

definition safe_metadata :: "(string \<Rightarrow> url option) \<Rightarrow> oauth_metadata \<Rightarrow> bool" where
  "safe_metadata parse_url m \<longleftrightarrow>
     https_url parse_url (authorization_endpoint m) \<and> https_url parse_url (issuer m) \<and>
     https_url parse_url (registration_endpoint m) \<and> https_url parse_url (revocation_endpoint m) \<and>
     https_url parse_url (token_endpoint m) \<and>
     if_some (\<lambda>u. url_search u = []) (parse_url (issuer m)) \<and>
     if_some (https_url parse_url) (account_management_uri m) \<and>
     if_some (https_url parse_url) (device_authorization_endpoint m) \<and>
     short_strings (code_challenge_methods_supported m) \<and> short_strings (grant_types_supported m) \<and>
     short_strings (response_modes_supported m) \<and> short_strings (response_types_supported m) \<and>
     if_some short_strings (account_management_actions_supported m) \<and>
     if_some short_strings (prompt_values_supported m) \<and> complete_metadata m"

definition text_upto :: "nat \<Rightarrow> string \<Rightarrow> bool" where
  "text_upto n s \<longleftrightarrow> s \<noteq> [] \<and> length s \<le> n"

definition safe_oauth :: "(string \<Rightarrow> url option) \<Rightarrow> oauth_context \<Rightarrow> bool" where
  "safe_oauth parse_url c \<longleftrightarrow>
     text_upto 4096 (oauth_client_id c) \<and> text_upto 1024 (oauth_device_id c) \<and>
     text_upto 4096 (oauth_redirect_uri c) \<and>
     (case parse_url (oauth_redirect_uri c) of None \<Rightarrow> False | Some u \<Rightarrow> safe_redirect u) \<and>
     safe_metadata parse_url (oauth_meta c)"

text \<open>Everything but the homeserver address.\<close>

definition safe_session :: "(string \<Rightarrow> url option) \<Rightarrow> persisted_session \<Rightarrow> bool" where
  "safe_session parse_url s \<longleftrightarrow>
     ses_auth_kind s \<in> set auth_kinds \<and> (ses_auth_kind s = ''oauth'' \<longleftrightarrow> ses_oauth s \<noteq> None) \<and>
     if_some (safe_oauth parse_url) (ses_oauth s) \<and>
     spells 32 32 (ses_crypto_storage_key s) \<and> crypto_prefix_pattern (ses_crypto_database_prefix s) \<and>
     if_some (\<lambda>e. 0 < e \<and> e \<le> max_safe) (ses_expires_at s) \<and>
     text_upto 1024 (ses_user_id s) \<and> text_upto 1024 (ses_device_id s) \<and>
     text_upto 16384 (ses_access_token s) \<and> if_some (text_upto 16384) (ses_refresh_token s)"

section \<open>Stored objects\<close>

definition or_undefined :: "('a \<Rightarrow> jsval) \<Rightarrow> 'a option \<Rightarrow> jsval" where
  "or_undefined f r = (case r of None \<Rightarrow> JUndef | Some x \<Rightarrow> f x)"

definition strings_js :: "string list \<Rightarrow> jsval" where
  "strings_js xs = js_array (map JStr xs)"

text \<open>The metadata object gets a key only for what was present.\<close>

definition present :: "string \<Rightarrow> ('a \<Rightarrow> jsval) \<Rightarrow> 'a option \<Rightarrow> (string \<times> jsval) list" where
  "present k f r = (case r of None \<Rightarrow> [] | Some x \<Rightarrow> [(k, f x)])"

definition metadata_js :: "oauth_metadata \<Rightarrow> jsval" where
  "metadata_js m = JObj
     ([(''authorization_endpoint'', JStr (authorization_endpoint m)), (''issuer'', JStr (issuer m)),
       (''registration_endpoint'', JStr (registration_endpoint m)),
       (''revocation_endpoint'', JStr (revocation_endpoint m)), (''token_endpoint'', JStr (token_endpoint m))]
      @ present ''account_management_uri'' JStr (account_management_uri m)
      @ present ''device_authorization_endpoint'' JStr (device_authorization_endpoint m)
      @ [(''code_challenge_methods_supported'', strings_js (code_challenge_methods_supported m)),
         (''grant_types_supported'', strings_js (grant_types_supported m)),
         (''response_modes_supported'', strings_js (response_modes_supported m)),
         (''response_types_supported'', strings_js (response_types_supported m))]
      @ present ''account_management_actions_supported'' strings_js (account_management_actions_supported m)
      @ present ''prompt_values_supported'' strings_js (prompt_values_supported m))"

definition oauth_js :: "oauth_context \<Rightarrow> jsval" where
  "oauth_js c = JObj [(''clientId'', JStr (oauth_client_id c)), (''deviceId'', JStr (oauth_device_id c)),
     (''redirectUri'', JStr (oauth_redirect_uri c)), (''metadata'', metadata_js (oauth_meta c))]"

definition session_js :: "persisted_session \<Rightarrow> jsval" where
  "session_js s = JObj [(''baseUrl'', JStr (ses_base_url s)), (''userId'', JStr (ses_user_id s)),
     (''deviceId'', JStr (ses_device_id s)), (''accessToken'', JStr (ses_access_token s)),
     (''refreshToken'', or_undefined JStr (ses_refresh_token s)),
     (''expiresAt'', or_undefined js_int (ses_expires_at s)), (''authKind'', JStr (ses_auth_kind s)),
     (''cryptoStorageKey'', JStr (ses_crypto_storage_key s)),
     (''cryptoDatabasePrefix'', JStr (ses_crypto_database_prefix s)),
     (''oauth'', or_undefined oauth_js (ses_oauth s))]"

section \<open>Accepted parts\<close>

lemma if_some_simps [simp]: "if_some P None" "if_some P (Some x) = P x"
  by (simp_all add: if_some_def)

lemma case_option_Inr:
  "(case r of None \<Rightarrow> Inl e | Some x \<Rightarrow> f x) = Inr y \<longleftrightarrow> (\<exists>x. r = Some x \<and> f x = Inr y)"
  by (cases r) auto

lemma https_Inr:
  "safe_https_url p v f = Inr s \<longleftrightarrow> v = JStr s \<and> https_url p s"
  by (auto simp: safe_https_url_def sum_bind_Inr_iff https_url_def split: option.splits)

lemma string_array_sound:
  assumes "string_array v f = Inr ss"
  shows "short_strings ss"
proof -
  let ?bad = "\<lambda>e. case e of JStr s \<Rightarrow> s = [] \<or> length s > 256 | _ \<Rightarrow> True"
  have ok: "\<not> list_ex ?bad (array_items v)" and l: "length (array_items v) \<le> 64"
    and ss: "ss = map as_string (array_items v)"
    using assms by (simp_all add: string_array_def)
  have "as_string x \<noteq> [] \<and> length (as_string x) \<le> 256" if "x \<in> set (array_items v)" for x
  proof -
    have "\<not> ?bad x" using ok that by (auto simp: list_ex_iff)
    then show ?thesis by (cases x) simp_all
  qed
  then show ?thesis using l by (simp add: short_strings_def ss list_all_iff)
qed

lemma string_array_complete: "short_strings ss \<Longrightarrow> string_array (strings_js ss) f = Inr ss"
  by (auto simp: string_array_def strings_js_def short_strings_def list_all_iff list_ex_iff check_def comp_def)

lemma when_defined_sound:
  assumes "when_defined v f = Inr r" and "\<And>x. f v = Inr x \<Longrightarrow> P x"
  shows "if_some P r"
  using assms by (auto simp: when_defined_def if_some_def sum_bind_Inr_iff split: if_splits)

lemma metadata_sound:
  assumes "normalize_metadata p v = Inr m"
  shows "safe_metadata p m"
proof -
  have w1: "if_some (https_url p) r" if "when_defined x (\<lambda>v. safe_https_url p v f) = Inr r" for x f r
    using that by (rule when_defined_sound) (simp add: https_Inr)
  have w2: "if_some short_strings r" if "when_defined x (\<lambda>v. string_array v f) = Inr r" for x f r
    using that by (rule when_defined_sound) (rule string_array_sound)
  show ?thesis
    using assms
    unfolding normalize_metadata_def sum_bind_Inr_iff https_Inr Let_def case_option_Inr check_Inr
    apply (elim exE conjE)
    apply (drule w1 w2 string_array_sound)+
    apply (drule Inr_inject)
    apply (simp add: safe_metadata_def)
    apply hypsubst
    apply simp
    done
qed

lemma oauth_sound:
  assumes "normalize_oauth p v = Inr c"
  shows "safe_oauth p c"
  using assms metadata_sound
  by (auto simp: normalize_oauth_def sum_bind_Inr_iff safe_oauth_def text_upto_def split: option.splits)

lemma prefix_sound: "session_prefix r d v = Inr p \<Longrightarrow> crypto_prefix_pattern p"
  by (auto simp: session_prefix_def sum_bind_Inr_iff split: option.splits)

lemma expiry_sound: "session_expiry v = Inr r \<Longrightarrow> if_some (\<lambda>e. 0 < e \<and> e \<le> max_safe) r"
  by (auto simp: session_expiry_def if_some_def elim!: safe_int_valueE)

lemma base_url_Inr:
  "stored_base_url p production origin v = Inr b \<longleftrightarrow>
     (\<exists>raw. v = JStr raw \<and> text_upto 4096 raw \<and> assert_allowed_homeserver_url p production origin raw = Inr b)"
  by (auto simp: stored_base_url_def sum_bind_def text_upto_def required_string_def split: sum.splits jsval.splits if_splits)

lemma refresh_sound: "optional_string x f n = Inr r \<Longrightarrow> if_some (text_upto n) r"
  by (cases r) (auto simp: text_upto_def)

lemma oauth_option_sound: "when_defined x (normalize_oauth p) = Inr r \<Longrightarrow> if_some (safe_oauth p) r"
  by (erule when_defined_sound) (rule oauth_sound)

lemma session_sound:
  assumes "normalize_persisted_session p production origin require derived v = Inr s"
  shows "safe_session p s \<and>
    (\<exists>raw. text_upto 4096 raw \<and> assert_allowed_homeserver_url p production origin raw = Inr (ses_base_url s))"
proof -
  have k: "case js_opt ''authKind'' v of JStr k \<Rightarrow> k \<in> set auth_kinds | _ \<Rightarrow> False"
    using assms by (simp add: normalize_persisted_session_def)
  then have kind: "as_string (js_opt ''authKind'' v) \<in> set auth_kinds"
    by (cases "js_opt ''authKind'' v") simp_all
  show ?thesis
    using assms
    unfolding normalize_persisted_session_def sum_bind_Inr_iff check_Inr exact_keys_Inr base_url_Inr
      decode_exact_Inr required_string_Inr
    apply (elim exE conjE)
    apply (drule prefix_sound expiry_sound oauth_option_sound refresh_sound)+
    apply (drule Inr_inject)
    apply hypsubst
    using kind
    apply (simp add: safe_session_def text_upto_def)
    apply blast
    done
qed

section \<open>Reading a stored session back\<close>

lemma present_map_of:
  "map_of (present k f r @ ps) k' = (if k' = k \<and> r \<noteq> None then Some (f (the r)) else map_of ps k')"
  by (cases r) (auto simp: present_def)

lemma when_defined_present:
  assumes "if_some P r" and "\<And>x. P x \<Longrightarrow> g (f x) = Inr x" and "\<And>x. f x \<noteq> JUndef"
  shows "when_defined (or_undefined f r) g = Inr r"
  using assms by (cases r) (auto simp: when_defined_def or_undefined_def)

lemma metadata_optional:
  "js_opt ''account_management_uri'' (metadata_js m) = or_undefined JStr (account_management_uri m)"
  "js_opt ''device_authorization_endpoint'' (metadata_js m) = or_undefined JStr (device_authorization_endpoint m)"
  "js_opt ''account_management_actions_supported'' (metadata_js m) =
     or_undefined strings_js (account_management_actions_supported m)"
  "js_opt ''prompt_values_supported'' (metadata_js m) = or_undefined strings_js (prompt_values_supported m)"
  by (auto simp: metadata_js_def present_map_of present_def or_undefined_def split: option.split)

lemma metadata_required:
  "js_opt ''authorization_endpoint'' (metadata_js m) = JStr (authorization_endpoint m)"
  "js_opt ''issuer'' (metadata_js m) = JStr (issuer m)"
  "js_opt ''registration_endpoint'' (metadata_js m) = JStr (registration_endpoint m)"
  "js_opt ''revocation_endpoint'' (metadata_js m) = JStr (revocation_endpoint m)"
  "js_opt ''token_endpoint'' (metadata_js m) = JStr (token_endpoint m)"
  "js_opt ''code_challenge_methods_supported'' (metadata_js m) = strings_js (code_challenge_methods_supported m)"
  "js_opt ''grant_types_supported'' (metadata_js m) = strings_js (grant_types_supported m)"
  "js_opt ''response_modes_supported'' (metadata_js m) = strings_js (response_modes_supported m)"
  "js_opt ''response_types_supported'' (metadata_js m) = strings_js (response_types_supported m)"
  by (simp_all add: metadata_js_def present_map_of del: map_of_append)

lemma https_known: "https_url p s \<Longrightarrow> safe_https_url p (JStr s) f = Inr s"
  by (simp add: https_Inr)

lemma strings_js_defined: "strings_js xs \<noteq> JUndef"
  by (simp add: strings_js_def js_array_def)

lemma metadata_complete:
  assumes "safe_metadata p m"
  shows "normalize_metadata p (metadata_js m) = Inr m"
proof -
  have u: "when_defined (or_undefined JStr r) (\<lambda>v. safe_https_url p v f) = Inr r" if "if_some (https_url p) r" for r f
    using that by (rule when_defined_present) (simp_all add: https_known)
  have a: "when_defined (or_undefined strings_js r) (\<lambda>v. string_array v f) = Inr r" if "if_some short_strings r" for r f
    using that by (rule when_defined_present) (simp_all add: string_array_complete strings_js_defined)
  have "https_url p (issuer m)" using assms by (simp add: safe_metadata_def)
  then obtain u0 where i: "p (issuer m) = Some u0" by (auto simp: https_url_def split: option.splits)
  then have "url_search u0 = []" using assms by (simp add: safe_metadata_def)
  then show ?thesis
    using assms unfolding safe_metadata_def normalize_metadata_def metadata_required metadata_optional
    by (simp add: https_known u a string_array_complete i check_def Let_def complete_metadata_def)
qed

lemma oauth_complete:
  assumes "safe_oauth p c"
  shows "normalize_oauth p (oauth_js c) = Inr c"
proof -
  have m: "normalize_metadata p (metadata_js (oauth_meta c)) = Inr (oauth_meta c)"
    using assms by (intro metadata_complete) (simp add: safe_oauth_def)
  have o: "is_object (metadata_js (oauth_meta c))" by (simp add: metadata_js_def)
  show ?thesis
    using assms m o
    by (auto simp: safe_oauth_def text_upto_def normalize_oauth_def oauth_js_def check_def exact_keys_def
        required_string_def split: option.splits)
qed

lemma expiry_complete:
  "if_some (\<lambda>e. 0 < e \<and> e \<le> max_safe) r \<Longrightarrow> session_expiry (or_undefined js_int r) = Inr r"
  by (cases r) (auto simp: session_expiry_def or_undefined_def check_def js_int_def as_int_def
      is_safe_int_value_def is_finite_num_def)

lemma prefix_complete:
  assumes "crypto_prefix_pattern p" and "derived \<in> {None, Some p}"
  shows "session_prefix require derived (JStr p) = Inr p"
  using assms name_pattern_length [of "''sub-etha-crypto-''" 160 p]
  by (auto simp: session_prefix_def check_def required_string_def crypto_prefix_pattern_def)

lemma session_view_complete:
  assumes s: "safe_session p s"
    and base: "text_upto 4096 (ses_base_url s)"
      "assert_allowed_homeserver_url p production origin (ses_base_url s) = Inr (ses_base_url s)"
    and derived: "derived \<in> {None, Some (ses_crypto_database_prefix s)}"
    and view: "is_object v" "\<And>k. js_opt k v = js_opt k (session_js s)"
      "set session_required \<subseteq> set (object_keys v)" "set (object_keys v) \<subseteq> set (object_keys (session_js s))"
  shows "normalize_persisted_session p production origin require derived v = Inr s"
proof -
  have key: "spells 32 32 (ses_crypto_storage_key s)" using s by (simp add: safe_session_def)
  then obtain bs where bs: "ses_crypto_storage_key s = encode_base64url bs" "bs \<noteq> []" "length bs = 32"
    by (auto elim: spellsE)
  then have key': "required_string (JStr (ses_crypto_storage_key s)) f 128 = Inr (ses_crypto_storage_key s)"
    "decode_canonical (JStr (ses_crypto_storage_key s)) f (Some 32) None 32 = Inr bs" for f
    using length_encode(1) [of bs] by (auto simp: decode_known required_string_def)
  have prefix: "session_prefix require derived (JStr (ses_crypto_database_prefix s)) =
      Inr (ses_crypto_database_prefix s)"
    using s derived by (intro prefix_complete) (simp_all add: safe_session_def)
  have expiry: "session_expiry (or_undefined js_int (ses_expires_at s)) = Inr (ses_expires_at s)"
    using s by (intro expiry_complete) (simp add: safe_session_def)
  have oauth: "when_defined (or_undefined oauth_js (ses_oauth s)) (normalize_oauth p) = Inr (ses_oauth s)"
  proof (rule when_defined_present [where P = "safe_oauth p"])
    show "if_some (safe_oauth p) (ses_oauth s)" using s by (simp add: safe_session_def)
    show "oauth_js c \<noteq> JUndef" for c by (simp add: oauth_js_def)
  qed (rule oauth_complete)
  have b: "stored_base_url p production origin (JStr (ses_base_url s)) = Inr (ses_base_url s)"
    using base by (auto simp: base_url_Inr)
  have refresh: "optional_string (or_undefined JStr (ses_refresh_token s)) f 16384 = Inr (ses_refresh_token s)" for f
    using s by (cases "ses_refresh_token s")
      (auto simp: safe_session_def optional_string_def or_undefined_def text_upto_def required_string_def)
  have known: "required_string (JStr t) f n = Inr t" if "text_upto n t" for t f n
    using that by (simp add: required_string_def text_upto_def)
  have "set (object_keys (session_js s)) \<subseteq> set session_required \<union> set session_optional"
    by (auto simp: session_js_def session_required_def session_optional_def)
  then have keys: "set session_required \<subseteq> set (object_keys v)"
    "set (object_keys v) \<subseteq> set session_required \<union> set session_optional"
    using view by auto
  have props: "js_opt ''authKind'' (session_js s) = JStr (ses_auth_kind s)"
    "js_opt ''cryptoStorageKey'' (session_js s) = JStr (ses_crypto_storage_key s)"
    "js_opt ''cryptoDatabasePrefix'' (session_js s) = JStr (ses_crypto_database_prefix s)"
    "js_opt ''expiresAt'' (session_js s) = or_undefined js_int (ses_expires_at s)"
    "js_opt ''oauth'' (session_js s) = or_undefined oauth_js (ses_oauth s)"
    "js_opt ''baseUrl'' (session_js s) = JStr (ses_base_url s)"
    "js_opt ''userId'' (session_js s) = JStr (ses_user_id s)"
    "js_opt ''deviceId'' (session_js s) = JStr (ses_device_id s)"
    "js_opt ''accessToken'' (session_js s) = JStr (ses_access_token s)"
    "js_opt ''refreshToken'' (session_js s) = or_undefined JStr (ses_refresh_token s)"
    "is_object (session_js s)"
    by (simp_all add: session_js_def)
  have "\<not> (list_ex (\<lambda>k. k \<notin> set (object_keys v)) session_required \<or>
      list_ex (\<lambda>k. k \<notin> set (session_required @ session_optional)) (object_keys v))"
    using keys by (auto simp: list_ex_iff)
  moreover have "ses_auth_kind s \<in> set auth_kinds" "(ses_auth_kind s = ''oauth'') = (ses_oauth s \<noteq> None)"
    "text_upto 1024 (ses_user_id s)" "text_upto 1024 (ses_device_id s)" "text_upto 16384 (ses_access_token s)"
    using s by (simp_all add: safe_session_def)
  ultimately show ?thesis
    by (simp add: normalize_persisted_session_def exact_keys_def view(1,2) props key' prefix expiry oauth b refresh known
        check_def del: not_None_eq)
qed

lemma session_complete:
  assumes "safe_session p s" and "text_upto 4096 (ses_base_url s)"
    and "assert_allowed_homeserver_url p production origin (ses_base_url s) = Inr (ses_base_url s)"
    and "derived \<in> {None, Some (ses_crypto_database_prefix s)}"
  shows "normalize_persisted_session p production origin require derived (session_js s) = Inr s"
  using assms by (rule session_view_complete)
    (auto simp: session_js_def session_required_def)

section \<open>Derived storage names\<close>

lemma safe_name_char_token: "is_token_char (safe_name_char c)"
  by (simp add: safe_name_char_def is_token_char_def code_of_def)

lemma stable_store_name_shape:
  "1 \<le> length (stable_store_name u d) \<and> length (stable_store_name u d) \<le> 120 \<and>
     list_all is_token_char (stable_store_name u d)"
proof -
  have "is_token_char c" if "c \<in> set (stable_store_name u d)" for c
    using in_set_takeD [OF that [unfolded stable_store_name_def]] safe_name_char_token by auto
  then show ?thesis by (auto simp: stable_store_name_def list_all_iff)
qed

lemma legacy_storage_wf: "wf_storage (legacy_storage_metadata u d)"
  using stable_store_name_shape [of u d]
  by (auto simp: legacy_storage_metadata_def wf_storage_def crypto_prefix_pattern_def legacy_sync_pattern_def
      name_pattern_def Let_def)

end
