(* ===== verification/Stored_Equality.thy ===== *)
theory Stored_Equality
  imports Session_Records
begin

text \<open>
  lib/security/session-vault-format.ts: \<open>exactStoredValueEqual\<close>, the comparison behind every
  compare-and-swap of the session store, and \<open>immutableSessionFieldsEqual\<close>. Two values read from
  the store share no object, so \<^verbatim>\<open>Object.is\<close> holds for equal primitives only; the model
  has no negative zero.
\<close>

definition object_is :: "jsval \<Rightarrow> jsval \<Rightarrow> bool" where
  "object_is v w =
     (case v of
        JArr xs ps \<Rightarrow> False
      | JObj ps \<Rightarrow> False
      | JBuf bs \<Rightarrow> False
      | _ \<Rightarrow> v = w)"

function exact_stored_equal :: "jsval \<Rightarrow> jsval \<Rightarrow> bool" where
  "exact_stored_equal v w =
     (if object_is v w then True
      else case (v, w) of
        (JBuf a, JBuf b) \<Rightarrow> a = b
      | (JArr xs ps, JArr ys qs) \<Rightarrow>
          is_dense_array v \<and> is_dense_array w \<and> length xs = length ys \<and>
          list_all (\<lambda>(x, y). exact_stored_equal x y) (zip (array_items v) (array_items w))
      | _ \<Rightarrow>
          if is_object v \<and> is_object w then
            (let ks = sort (object_keys v); ls = sort (object_keys w)
             in length ks = length ls \<and>
                list_all (\<lambda>(k, l). k = l \<and> exact_stored_equal (js_opt k v) (js_opt k w)) (zip ks ls))
          else False)"
  by pat_completeness auto

lemma is_object_simps [simp]:
  "\<not> is_object JUndef" "\<not> is_object JNull" "\<not> is_object (JBool b)" "\<not> is_object (JNum n)" "\<not> is_object (JStr s)"
  "\<not> is_object (JArr xs ps)" "is_object (JBuf bs)"
  by (simp_all add: is_object_def)

lemma size_array_item:
  assumes "(x, y) \<in> set (zip (array_items (JArr xs ps)) zs)"
  shows "size x < size (JArr xs ps)"
proof -
  obtain r where r: "r \<in> set xs" "x = case_option JUndef id r"
    using set_zip_leftD [OF assms] by (auto simp: array_items_def)
  have "size_option size r \<le> size_list (size_option size) xs"
    using r(1) by (induction xs) auto
  then show ?thesis using r(2) by (cases r) auto
qed

lemma size_object_property: "is_object v \<Longrightarrow> k \<in> set (object_keys v) \<Longrightarrow> size (js_opt k v) < size v"
proof -
  assume "is_object v" "k \<in> set (object_keys v)"
  then obtain ps x where v: "v = JObj ps" and x: "map_of ps k = Some x"
    by (cases v) (auto simp: is_object_def object_keys_def own_props_def dest: weak_map_of_SomeI)
  have "size_prod (\<lambda>_. 0) size (k, x) \<le> size_list (size_prod (\<lambda>_. 0) size) ps"
    using map_of_SomeD [OF x] by (induction ps) auto
  then show ?thesis using v x by simp
qed

termination exact_stored_equal
proof (relation "measure (size \<circ> fst)", goal_cases)
  case 1
  show ?case by simp
qed (auto dest: size_array_item set_zip_leftD intro!: size_object_property simp: object_keys_def)

declare exact_stored_equal.simps [simp del]

section \<open>Comparison by shape\<close>

lemma stored_equal_prim:
  "v \<in> {JUndef, JNull} \<or> (\<exists>b. v = JBool b) \<or> (\<exists>n. v = JNum n) \<or> (\<exists>s. v = JStr s) \<Longrightarrow>
     exact_stored_equal v w \<longleftrightarrow> v = w"
  by (subst exact_stored_equal.simps) (auto simp: object_is_def)

lemma stored_equal_JStr [simp]: "exact_stored_equal (JStr s) w \<longleftrightarrow> w = JStr s"
  using stored_equal_prim [of "JStr s" w] by auto

lemma stored_equal_int [simp]: "exact_stored_equal (js_int i) w \<longleftrightarrow> w = js_int i"
  using stored_equal_prim [of "js_int i" w] by (auto simp: js_int_def)

lemma stored_equal_undef [simp]: "exact_stored_equal JUndef w \<longleftrightarrow> w = JUndef"
  using stored_equal_prim [of JUndef w] by auto

lemma stored_equal_array:
  "exact_stored_equal (js_array xs) (js_array ys) \<longleftrightarrow> list_all2 exact_stored_equal xs ys"
  using dense_js_array [of xs] dense_js_array [of ys] array_items_array(1) [of xs] array_items_array(1) [of ys]
  by (subst exact_stored_equal.simps)
    (simp add: js_array_def object_is_def list_all2_iff list_all_iff case_prod_unfold)

lemma zip_equal:
  "length ks = length ls \<and> list_all (\<lambda>(k, l). k = l \<and> P k) (zip ks ls) \<longleftrightarrow> ks = ls \<and> (\<forall>k \<in> set ks. P k)"
  by (induction ks arbitrary: ls) (case_tac ls; auto)+

lemma sort_distinct_eq:
  assumes "distinct ks" and "distinct ls"
  shows "sort ks = sort ls \<longleftrightarrow> set ks = set (ls :: string list)"
proof
  assume "sort ks = sort ls"
  then have "set (sort ks) = set (sort ls)" by (rule arg_cong)
  then show "set ks = set ls" by (simp only: set_sort)
next
  assume e: "set ks = set ls"
  show "sort ks = sort ls"
  proof (rule sorted_distinct_set_unique)
    show "sorted (sort ks)" "sorted (sort ls)" by (rule sorted_sort)+
    show "distinct (sort ks)" "distinct (sort ls)" using assms by (simp_all only: distinct_sort)
    show "set (sort ks) = set (sort ls)" using e by (simp only: set_sort)
  qed
qed

lemma stored_equal_object:
  assumes "distinct (map fst ps)" and "distinct (map fst qs)"
  shows "exact_stored_equal (JObj ps) (JObj qs) \<longleftrightarrow>
     set (map fst ps) = set (map fst qs) \<and>
     (\<forall>k \<in> set (map fst ps). exact_stored_equal (js_opt k (JObj ps)) (js_opt k (JObj qs)))"
  using sort_distinct_eq [OF assms]
  by (subst exact_stored_equal.simps)
    (simp add: object_is_def Let_def zip_equal del: js_opt_obj)

text \<open>Every object without own enumerable properties compares equal to every other, so the
  contents of a buffer are not compared with an empty object.\<close>

lemma buffer_equals_empty_object: "exact_stored_equal (JBuf bs) (JObj [])"
  by (subst exact_stored_equal.simps) (simp add: object_is_def object_keys_def own_props_def)

section \<open>Records compare exactly\<close>

lemma box_equal: "exact_stored_equal (box_js a) (box_js b) \<longleftrightarrow> a = b"
  unfolding box_js_def by (subst stored_equal_object) auto

lemma storage_equal: "exact_stored_equal (storage_js a) (storage_js b) \<longleftrightarrow> a = b"
proof -
  obtain p l q m where a: "a = \<lparr>crypto_database_prefix = p, legacy_sync_database = l\<rparr>"
    and b: "b = \<lparr>crypto_database_prefix = q, legacy_sync_database = m\<rparr>"
    by (metis vault_storage.cases)
  show ?thesis
    unfolding storage_js_def a b
    by (subst stored_equal_object; cases l; cases m) auto
qed

lemma strings_equal: "list_all2 exact_stored_equal (map JStr xs) (map JStr ys) \<longleftrightarrow> xs = ys"
  by (induction xs arbitrary: ys) (auto simp: list_all2_Cons1)

lemma slot_equal: "exact_stored_equal (slot_js a) (slot_js b) \<longleftrightarrow> a = b"
  unfolding slot_js_def
  by (cases a; cases b; simp; subst stored_equal_object)
    (auto simp: box_equal stored_equal_array strings_equal)

lemma locked_equal:
  "exact_stored_equal (locked_js r) (locked_js s) \<longleftrightarrow> r = s"
proof -
  have l: "list_all2 exact_stored_equal (map slot_js xs) (map slot_js ys) \<longleftrightarrow> xs = ys" for xs ys
    by (simp add: list_all2_map1 list_all2_map2 slot_equal list_all2_eq)
  show ?thesis
    unfolding locked_js_def
    by (subst stored_equal_object) (auto simp: box_equal storage_equal stored_equal_array l)
qed

text \<open>Comparing stored vault records compares everything: two well-formed records, as the store
  holds them, are equal exactly when they are the same record. A compare-and-swap that succeeds has
  seen the expected record itself.
\<close>

theorem locked_records_compare_exactly:
  "exact_stored_equal (locked_js r) (locked_js s) \<longleftrightarrow> r = s"
  by (rule locked_equal)

section \<open>immutableSessionFieldsEqual\<close>

definition immutable_session_fields_equal :: "persisted_session \<Rightarrow> persisted_session \<Rightarrow> bool" where
  "immutable_session_fields_equal a b \<longleftrightarrow>
     ses_base_url a = ses_base_url b \<and> ses_user_id a = ses_user_id b \<and> ses_device_id a = ses_device_id b \<and>
     ses_auth_kind a = ses_auth_kind b \<and> ses_crypto_storage_key a = ses_crypto_storage_key b \<and>
     ses_crypto_database_prefix a = ses_crypto_database_prefix b \<and>
     exact_stored_equal (or_undefined oauth_js (ses_oauth a)) (or_undefined oauth_js (ses_oauth b))"

lemma absent_undefined: "k \<notin> set (map fst ps) \<Longrightarrow> js_opt k (JObj ps) = JUndef"
  by (simp add: map_of_eq_None_iff [symmetric] image_iff split: option.split) (metis map_of_SomeD fst_conv)

lemma stored_equal_properties:
  assumes "exact_stored_equal (JObj ps) (JObj qs)" and "distinct (map fst ps)" and "distinct (map fst qs)"
  shows "exact_stored_equal (js_opt k (JObj ps)) (js_opt k (JObj qs))"
proof (cases "k \<in> set (map fst ps)")
  case True
  then show ?thesis using assms stored_equal_object by blast
next
  case False
  then have q: "k \<notin> set (map fst qs)" using assms stored_equal_object by blast
  have "js_opt k (JObj ps) = JUndef" using False by (rule absent_undefined)
  moreover have "js_opt k (JObj qs) = JUndef" using q by (rule absent_undefined)
  ultimately have "js_opt k (JObj ps) = JUndef" "js_opt k (JObj qs) = JUndef" .
  then show ?thesis by (simp only: stored_equal_undef)
qed

lemma strings_js_equal: "exact_stored_equal (strings_js xs) (strings_js ys) \<longleftrightarrow> xs = ys"
  by (simp add: strings_js_def stored_equal_array strings_equal)

lemma or_undefined_equal:
  assumes "\<And>x y. exact_stored_equal (f x) (f y) \<longleftrightarrow> x = y" and "\<And>x. f x \<noteq> JUndef"
    and "\<And>x. \<not> exact_stored_equal (f x) JUndef"
  shows "exact_stored_equal (or_undefined f r) (or_undefined f s) \<longleftrightarrow> r = s"
  using assms by (cases r; cases s) (auto simp: or_undefined_def)

lemma strings_not_undefined: "\<not> exact_stored_equal (strings_js xs) JUndef"
  by (subst exact_stored_equal.simps) (simp add: strings_js_def js_array_def object_is_def)

lemma object_not_undefined: "\<not> exact_stored_equal (JObj ps) JUndef"
  by (subst exact_stored_equal.simps) (simp add: object_is_def)

lemma metadata_distinct: "\<exists>ps. metadata_js m = JObj ps \<and> distinct (map fst ps)"
  by (cases "account_management_uri m"; cases "device_authorization_endpoint m";
      cases "account_management_actions_supported m"; cases "prompt_values_supported m")
    (simp_all add: metadata_js_def present_def)

lemma metadata_equal: "exact_stored_equal (metadata_js a) (metadata_js b) \<longleftrightarrow> a = b"
proof
  assume e: "exact_stored_equal (metadata_js a) (metadata_js b)"
  obtain ps qs where "metadata_js a = JObj ps" "metadata_js b = JObj qs" "distinct (map fst ps)" "distinct (map fst qs)"
    using metadata_distinct by metis
  then have p: "exact_stored_equal (js_opt k (metadata_js a)) (js_opt k (metadata_js b))" for k
    using e stored_equal_properties by simp
  have s: "exact_stored_equal (or_undefined JStr r) (or_undefined JStr t) \<longleftrightarrow> r = t" for r t
    by (rule or_undefined_equal) auto
  have l: "exact_stored_equal (or_undefined strings_js r) (or_undefined strings_js t) \<longleftrightarrow> r = t" for r t
    by (rule or_undefined_equal) (simp_all add: strings_js_equal strings_not_undefined strings_js_defined)
  note fields = p [of "''authorization_endpoint''"] p [of "''issuer''"] p [of "''registration_endpoint''"]
    p [of "''revocation_endpoint''"] p [of "''token_endpoint''"] p [of "''account_management_uri''"]
    p [of "''device_authorization_endpoint''"] p [of "''code_challenge_methods_supported''"]
    p [of "''grant_types_supported''"] p [of "''response_modes_supported''"] p [of "''response_types_supported''"]
    p [of "''account_management_actions_supported''"] p [of "''prompt_values_supported''"]
  show "a = b"
    using fields unfolding metadata_required metadata_optional stored_equal_JStr s l strings_js_equal
    by (intro oauth_metadata.equality) simp_all
next
  assume "a = b"
  moreover have "exact_stored_equal (JObj ps) (JObj ps)"
    if "distinct (map fst ps)" "\<And>k x. (k, x) \<in> set ps \<Longrightarrow> exact_stored_equal x x" for ps
    using that by (auto simp: stored_equal_object)
  moreover have "exact_stored_equal x x" if "metadata_js a = JObj ps" "(k, x) \<in> set ps" for ps k x
    using that by (auto simp: metadata_js_def present_def strings_js_equal split: option.splits)
  ultimately show "exact_stored_equal (metadata_js a) (metadata_js b)" using metadata_distinct [of a] by auto
qed

lemma oauth_equal: "exact_stored_equal (oauth_js a) (oauth_js b) \<longleftrightarrow> a = b"
  unfolding oauth_js_def by (subst stored_equal_object) (auto simp: metadata_equal)

text \<open>Two sessions agree on the immutable fields exactly when the second is the first with other
  tokens: only the access token, the refresh token and the expiry may differ.
\<close>

theorem immutable_fields_leave_tokens:
  "immutable_session_fields_equal a b \<longleftrightarrow>
     b = a\<lparr>ses_access_token := ses_access_token b, ses_refresh_token := ses_refresh_token b,
           ses_expires_at := ses_expires_at b\<rparr>"
proof -
  have o: "exact_stored_equal (or_undefined oauth_js r) (or_undefined oauth_js s) \<longleftrightarrow> r = s" for r s
    by (rule or_undefined_equal) (simp_all add: oauth_equal, simp_all add: oauth_js_def object_not_undefined)
  show ?thesis
    by (cases a; cases b) (auto simp: immutable_session_fields_equal_def o)
qed

end
