(* ===== verification/Vault_Contracts.thy ===== *)
theory Vault_Contracts
  imports Vault_Binding Stored_Equality
begin

text \<open>
  The contracts of the vault formats. A stored format is a validator, the object a record is stored
  as, and a description of the well-formed records; the locale \<open>stored_format\<close> states the laws
  between them and is interpreted on slots, storage names, locked records, tombstones and sessions.
\<close>

section \<open>Stored formats\<close>

locale stored_format =
  fixes accept :: "jsval \<Rightarrow> vault_error + 'r"
    and stored :: "'r \<Rightarrow> jsval"
    and well_formed :: "'r \<Rightarrow> bool"
  assumes accept_sound: "accept v = Inr r \<Longrightarrow> well_formed r"
    and accept_stored: "well_formed r \<Longrightarrow> accept (stored r) = Inr r"
begin

lemma accepted_iff: "(\<exists>v. accept v = Inr r) \<longleftrightarrow> well_formed r"
  using accept_sound accept_stored by blast

lemma stored_accepted_iff: "accept (stored r) = Inr r \<longleftrightarrow> well_formed r"
  using accept_sound accept_stored by blast

lemma reread: "accept v = Inr r \<Longrightarrow> accept (stored r) = Inr r"
  using accept_sound accept_stored by blast

lemma stored_inject: "well_formed r \<Longrightarrow> well_formed s \<Longrightarrow> stored r = stored s \<Longrightarrow> r = s"
  using accept_stored by (metis sum.inject(2))

end

interpretation storage: stored_format validate_storage storage_js wf_storage
  by unfold_locales (auto intro: storage_sound storage_complete)

interpretation slot: stored_format validate_unlock_slot slot_js wf_slot
  by unfold_locales (auto intro: slot_sound slot_complete)

interpretation locked: stored_format validate_locked_record locked_js wf_locked
  by unfold_locales (auto intro: locked_sound locked_complete)

interpretation tomb: stored_format validate_tombstone tombstone_js wf_tombstone
  by unfold_locales (auto intro: tombstone_sound tombstone_complete)

interpretation oauth: stored_format "normalize_oauth p" oauth_js "safe_oauth p" for p
  by unfold_locales (auto intro: oauth_sound oauth_complete)

section \<open>Failures\<close>

text \<open>A computation that fails only with a \<open>corrupt\<close> error.\<close>

definition corrupt_only :: "vault_error + 'a \<Rightarrow> bool" where
  "corrupt_only r \<longleftrightarrow> (case r of Inl e \<Rightarrow> (\<exists>m. e = VaultError Corrupt m) | Inr x \<Rightarrow> True)"

named_theorems corrupt_intros "computations that fail only with a corrupt error"

lemma corrupt_only_Inr [corrupt_intros, simp]: "corrupt_only (Inr x)"
  by (simp add: corrupt_only_def)

lemma corrupt_only_corrupt [corrupt_intros, simp]: "corrupt_only (corrupt m)"
  by (simp add: corrupt_only_def corrupt_def)

lemma corrupt_only_invalid [corrupt_intros, simp]: "corrupt_only (Inl (stored_invalid f))"
  by (simp add: corrupt_only_def stored_invalid_def)

lemma corrupt_only_check [corrupt_intros]: "(ok \<Longrightarrow> corrupt_only k) \<Longrightarrow> corrupt_only (check ok m k)"
  by (simp add: check_def)

lemma corrupt_only_keys [corrupt_intros]: "corrupt_only k \<Longrightarrow> corrupt_only (exact_keys v req opt k)"
  unfolding exact_keys_def by (rule corrupt_only_check)

lemma corrupt_only_bind [corrupt_intros]:
  "corrupt_only r \<Longrightarrow> (\<And>x. r = Inr x \<Longrightarrow> corrupt_only (k x)) \<Longrightarrow> corrupt_only (sum_bind r k)"
  by (cases r) (auto simp: corrupt_only_def)

lemma corrupt_only_if [corrupt_intros]:
  "(b \<Longrightarrow> corrupt_only r) \<Longrightarrow> (\<not> b \<Longrightarrow> corrupt_only s) \<Longrightarrow> corrupt_only (if b then r else s)"
  by simp

lemma corrupt_only_decode [corrupt_intros]: "corrupt_only (decode_canonical v f ex mn mx)"
  using decode_canonical_error by (auto simp: corrupt_only_def split: sum.split)

lemma corrupt_only_required [corrupt_intros]: "corrupt_only (required_string v f n)"
  by (auto simp: required_string_def split: jsval.split)

lemma corrupt_only_optional [corrupt_intros]: "corrupt_only (optional_string v f n)"
  unfolding optional_string_def by (intro corrupt_intros)

lemma corrupt_only_identifier [corrupt_intros]: "corrupt_only (validate_identifier v f n)"
  unfolding validate_identifier_def by (intro corrupt_intros)

lemma corrupt_only_box [corrupt_intros]: "corrupt_only (validate_aes_box v f n ex)"
  unfolding validate_aes_box_def by (intro corrupt_intros)

lemma corrupt_only_storage [corrupt_intros]: "corrupt_only (validate_storage v)"
  unfolding validate_storage_def by (intro corrupt_intros)

lemma corrupt_only_slot [corrupt_intros]: "corrupt_only (validate_unlock_slot v)"
  unfolding validate_unlock_slot_def validate_recovery_slot_def validate_prf_slot_def validate_transports_def
    validate_rp_id_def
  by (intro corrupt_intros)

lemma corrupt_only_map_sum [corrupt_intros]: "(\<And>x. corrupt_only (f x)) \<Longrightarrow> corrupt_only (map_sum f xs)"
  by (induction xs) (auto intro!: corrupt_intros)

lemma corrupt_only_locked [corrupt_intros]: "corrupt_only (validate_locked_record v)"
  unfolding validate_locked_record_def Let_def by (intro corrupt_intros)

lemma corrupt_only_tombstone [corrupt_intros]: "corrupt_only (validate_tombstone v)"
  unfolding validate_tombstone_def validate_cleanup_def by (intro corrupt_intros)

lemma corrupt_only_https [corrupt_intros]: "corrupt_only (safe_https_url p v f)"
  unfolding safe_https_url_def
  by (intro corrupt_only_bind corrupt_only_required) (auto intro: corrupt_only_check split: option.split)

lemma corrupt_only_strings [corrupt_intros]: "corrupt_only (string_array v f)"
  unfolding string_array_def by (intro corrupt_intros)

lemma corrupt_only_when [corrupt_intros]: "(\<And>x. corrupt_only (f x)) \<Longrightarrow> corrupt_only (when_defined v f)"
  unfolding when_defined_def by (intro corrupt_intros)

lemma corrupt_only_metadata [corrupt_intros]: "corrupt_only (normalize_metadata p v)"
proof -
  have P: "corrupt_only (case p s of None \<Rightarrow> Inl PlatformError | Some u \<Rightarrow> k u)"
    if "safe_https_url p w f = Inr s" and "\<And>u. corrupt_only (k u)" for w f s and k :: "url \<Rightarrow> vault_error + oauth_metadata"
    using that by (auto simp: https_Inr https_url_def split: option.splits)
  show ?thesis
    unfolding normalize_metadata_def Let_def by (intro corrupt_intros P; assumption)
qed

lemma corrupt_only_oauth [corrupt_intros]: "corrupt_only (normalize_oauth p v)"
proof -
  have P: "corrupt_only (case p s of None \<Rightarrow> corrupt m | Some u \<Rightarrow> k u)"
    if "\<And>u. corrupt_only (k u)" for s m and k :: "url \<Rightarrow> vault_error + oauth_context"
    using that by (simp split: option.split)
  show ?thesis
    unfolding normalize_oauth_def by (intro corrupt_intros P)
qed

lemma corrupt_only_session: "corrupt_only (normalize_persisted_session p production origin require derived v)"
proof -
  have B: "corrupt_only (stored_base_url p production origin w)" for w
    unfolding stored_base_url_def by (simp split: sum.split)
  have E: "corrupt_only (session_expiry w)" for w
    unfolding session_expiry_def by (intro corrupt_intros)
  have P: "corrupt_only (session_prefix require derived w)" for w
    unfolding session_prefix_def by (intro corrupt_intros) (auto intro: corrupt_intros split: option.split)
  show ?thesis
    unfolding normalize_persisted_session_def by (intro corrupt_intros B E P)
qed

section \<open>Properties\<close>

text \<open>The canonical Base64URL decoder accepts exactly the encodings of the byte strings within its
  bounds: every accepted text has one value, and every byte string one accepted spelling.
\<close>

theorem canonical_base64url:
  "(decode_canonical v field (Some n) m n = Inr bs \<longleftrightarrow> v = JStr (encode_base64url bs) \<and> bs \<noteq> [] \<and> length bs = n) \<and>
   (decode_canonical v field None (Some lo) hi = Inr bs \<longleftrightarrow>
      v = JStr (encode_base64url bs) \<and> bs \<noteq> [] \<and> lo \<le> length bs \<and> length bs \<le> hi) \<and>
   (encode_base64url bs = encode_base64url cs \<longleftrightarrow> bs = cs)"
  by (intro conjI decode_exact_Inr decode_range_Inr) (auto dest: encode_base64url_inj)

text \<open>C33: The records read from the store are exactly the well-formed ones, and a record written back is
  read again unchanged: locked records (distinct slot ids, one recovery slot, at most eight slots,
  canonical keys and nonces of the right sizes) and tombstones.
\<close>

theorem vault_records_reread:
  "((\<exists>v. validate_locked_record v = Inr r) \<longleftrightarrow> wf_locked r) \<and>
   (validate_locked_record (locked_js r) = Inr r \<longleftrightarrow> wf_locked r) \<and>
   ((\<exists>v. validate_tombstone v = Inr t) \<longleftrightarrow> wf_tombstone t) \<and>
   (validate_tombstone (tombstone_js t) = Inr t \<longleftrightarrow> wf_tombstone t)"
  using locked.accepted_iff locked.stored_accepted_iff tomb.accepted_iff tomb.stored_accepted_iff by blast

text \<open>Whatever is stored, reading it fails only with a \<open>corrupt\<close> error; no other exception leaves
  the validators, the URL parser included.
\<close>

theorem vault_errors_are_corrupt:
  "corrupt_only (validate_locked_record v) \<and> corrupt_only (validate_tombstone v) \<and>
   corrupt_only (validate_storage v) \<and>
   corrupt_only (normalize_persisted_session p production origin require derived v)"
  by (intro conjI corrupt_only_locked corrupt_only_tombstone corrupt_only_storage corrupt_only_session)

text \<open>The storage names derived from a legacy session are accepted by the checks every stored name
  passes, whatever the user and device ids.
\<close>

theorem legacy_names_accepted:
  "validate_storage (storage_js (legacy_storage_metadata user_id device_id)) =
     Inr (legacy_storage_metadata user_id device_id) \<and>
   session_prefix True (Some (crypto_database_prefix (legacy_storage_metadata user_id device_id))) JUndef =
     Inr (crypto_database_prefix (legacy_storage_metadata user_id device_id))"
proof
  show "validate_storage (storage_js (legacy_storage_metadata user_id device_id)) =
     Inr (legacy_storage_metadata user_id device_id)"
    by (rule storage.accept_stored) (rule legacy_storage_wf)
  have "crypto_prefix_pattern (crypto_database_prefix (legacy_storage_metadata user_id device_id))"
    using legacy_storage_wf by (simp add: wf_storage_def)
  then show "session_prefix True (Some (crypto_database_prefix (legacy_storage_metadata user_id device_id))) JUndef =
     Inr (crypto_database_prefix (legacy_storage_metadata user_id device_id))"
    by (auto simp: session_prefix_def check_def crypto_prefix_pattern_def dest: name_pattern_length)
qed

text \<open>An accepted homeserver address has no credentials, query or fragment, and is HTTPS unless the
  build is not for production and both the page and the homeserver are on loopback hosts.
\<close>

theorem homeserver_address_safe:
  "assert_allowed_homeserver_url parse_url production app_origin raw = Inr base \<Longrightarrow>
     \<exists>u. parse_url raw = Some u \<and> base = strip_slash (url_href u) \<and>
       url_username u = [] \<and> url_password u = [] \<and> url_search u = [] \<and> url_hash u = [] \<and>
       (url_protocol u = ''https:'' \<or>
        url_protocol u = ''http:'' \<and> \<not> production \<and> is_loopback_hostname (url_hostname u) \<and>
        (\<exists>a. map_option parse_url app_origin = Some (Some a) \<and> is_loopback_hostname (url_hostname a)))"
  by (erule allowed_homeserver_cases) auto

text \<open>A session read from the store is safe: its homeserver passed the address policy, its OAuth
  context is present exactly for OAuth sessions and names HTTPS endpoints only, its storage key is
  32 bytes, its expiry positive.
\<close>

theorem session_read_is_safe:
  "normalize_persisted_session p production origin require derived v = Inr s \<Longrightarrow>
     safe_session p s \<and>
     (\<exists>raw. assert_allowed_homeserver_url p production origin raw = Inr (ses_base_url s))"
  using session_sound by blast

text \<open>A safe session whose homeserver address is in normal form is read back from the store
  unchanged.
\<close>

theorem session_reread:
  "safe_session p s \<Longrightarrow> text_upto 4096 (ses_base_url s) \<Longrightarrow>
   assert_allowed_homeserver_url p production origin (ses_base_url s) = Inr (ses_base_url s) \<Longrightarrow>
   normalize_persisted_session p production origin require None (session_js s) = Inr s"
  by (rule session_complete) simp_all

section \<open>A session for the witnesses\<close>

definition sample_parse :: "string \<Rightarrow> url option" where
  "sample_parse s =
     (if s = ''https://chat.example'' then
        Some \<lparr>url_protocol = ''https:'', url_username = [], url_password = [], url_hostname = ''chat.example'',
          url_port = [], url_pathname = ''/'', url_search = [], url_hash = [],
          url_origin = ''https://chat.example'', url_href = ''https://chat.example/''\<rparr>
      else if s = ''http://127.0.0.1:8008'' then
        Some \<lparr>url_protocol = ''http:'', url_username = [], url_password = [], url_hostname = ''127.0.0.1'',
          url_port = ''8008'', url_pathname = ''/'', url_search = [], url_hash = [],
          url_origin = ''http://127.0.0.1:8008'', url_href = ''http://127.0.0.1:8008/''\<rparr>
      else None)"

definition sample_session :: persisted_session where
  "sample_session = \<lparr>ses_base_url = ''https://chat.example'', ses_user_id = ''@arthur:chat.example'',
     ses_device_id = ''HEARTOFGOLD'', ses_access_token = ''token'', ses_refresh_token = None,
     ses_expires_at = Some 1700000000000, ses_auth_kind = ''password'',
     ses_crypto_storage_key = encode_base64url (replicate 32 7),
     ses_crypto_database_prefix = ''sub-etha-crypto-arthur'', ses_oauth = None\<rparr>"

lemma sample_session_facts:
  "safe_session sample_parse sample_session" "text_upto 4096 (ses_base_url sample_session)"
  "assert_allowed_homeserver_url sample_parse True None (ses_base_url sample_session) =
     Inr (ses_base_url sample_session)"
proof -
  have "crypto_prefix_pattern ''sub-etha-crypto-arthur''" by code_simp
  then show "safe_session sample_parse sample_session"
    by (simp add: safe_session_def sample_session_def auth_kinds_def max_safe_def text_upto_def)
qed (simp_all add: sample_session_def text_upto_def assert_allowed_homeserver_url_def sample_parse_def
      strip_slash_def)

theorem session_reread_witness:
  "normalize_persisted_session sample_parse True None True None (session_js sample_session) = Inr sample_session"
  by (rule session_reread [OF sample_session_facts])

theorem session_read_is_safe_witness:
  "safe_session sample_parse sample_session \<and>
   (\<exists>raw. assert_allowed_homeserver_url sample_parse True None raw = Inr (ses_base_url sample_session))"
  using session_complete [OF sample_session_facts, where derived = None and require = True]
  by (intro session_read_is_safe [of sample_parse True None True None "session_js sample_session"]) simp

theorem homeserver_address_safe_witness:
  "\<exists>u. sample_parse ''http://127.0.0.1:8008'' = Some u \<and> is_loopback_hostname (url_hostname u)"
proof -
  have "is_loopback_hostname ''127.0.0.1''" by code_simp
  then have "assert_allowed_homeserver_url sample_parse False (Some ''http://127.0.0.1:8008'')
      ''http://127.0.0.1:8008'' = Inr ''http://127.0.0.1:8008''"
    by (simp add: assert_allowed_homeserver_url_def sample_parse_def strip_slash_def Let_def)
  from homeserver_address_safe [OF this] show ?thesis by (auto simp: sample_parse_def)
qed

end
