(* ===== verification/Json_Text.thy ===== *)
theory Json_Text
  imports Vault_Binding Session_Records
begin

text \<open>
  \<^verbatim>\<open>JSON.stringify\<close>, \<^verbatim>\<open>JSON.parse\<close> and \<^verbatim>\<open>TextDecoder\<close> on the values the session vault
  seals (lib/security/session-vault-crypto.ts): text, whole numbers, booleans, null, arrays and
  objects whose keys are not array indices. Text outside code units below 256 is outside the model,
  and the decoder and the parser refuse it. The parser reads any JSON text of that range; a value
  that is printed is read back unchanged.
\<close>

section \<open>JSON.stringify\<close>

definition json_quote :: "string \<Rightarrow> string" where
  "json_quote s = CHR 0x22 # concat (map escape_char s) @ [CHR 0x22]"

text \<open>A member that is undefined is left out; an undefined item or a hole prints as null.\<close>

fun json_string :: "jsval \<Rightarrow> string"
and json_items :: "jsval option list \<Rightarrow> string list"
and json_members :: "(string \<times> jsval) list \<Rightarrow> string list" where
  "json_string JUndef = ''null''"
| "json_string JNull = ''null''"
| "json_string (JBool b) = (if b then ''true'' else ''false'')"
| "json_string (JNum n) = (case n of Fin q \<Rightarrow> int_digits \<lfloor>q\<rfloor> | _ \<Rightarrow> ''null'')"
| "json_string (JStr s) = json_quote s"
| "json_string (JArr xs ps) = CHR ''['' # comma_join (json_items xs) @ [CHR '']'']"
| "json_string (JObj ps) = CHR ''{'' # comma_join (json_members ps) @ [CHR ''}'']"
| "json_string (JBuf bs) = ''{}''"
| "json_items [] = []"
| "json_items (x # xs) = (case x of None \<Rightarrow> ''null'' | Some v \<Rightarrow> json_string v) # json_items xs"
| "json_members [] = []"
| "json_members (p # ps) =
     (case p of (k, v) \<Rightarrow>
        if v = JUndef then json_members ps
        else (json_quote k @ CHR '':'' # json_string v) # json_members ps)"

section \<open>JSON.parse\<close>

definition is_json_space :: "char \<Rightarrow> bool" where
  "is_json_space c \<longleftrightarrow> code_of c \<in> {9, 10, 13, 32}"

definition skip_space :: "string \<Rightarrow> string" where
  "skip_space s = dropWhile is_json_space s"

definition hex_digit_value :: "char \<Rightarrow> nat option" where
  "hex_digit_value c = (if is_radix_digit 16 c then Some (digit_val c) else None)"

text \<open>The code unit of four hexadecimal digits; one above 255 is outside the model.\<close>

definition hex4 :: "char \<Rightarrow> char \<Rightarrow> char \<Rightarrow> char \<Rightarrow> char option" where
  "hex4 a b c d =
     (case (hex_digit_value a, hex_digit_value b, hex_digit_value c, hex_digit_value d) of
        (Some w, Some x, Some y, Some z) \<Rightarrow>
          if w = 0 \<and> x = 0 then Some (char_of (y * 16 + z)) else None
      | _ \<Rightarrow> None)"

definition simple_escape :: "char \<Rightarrow> char option" where
  "simple_escape e =
     (let n = code_of e in
      if n = 34 \<or> n = 92 \<or> n = 47 then Some e
      else if n = 98 then Some (char_of (8::nat)) else if n = 102 then Some (char_of (12::nat))
      else if n = 110 then Some (char_of (10::nat)) else if n = 114 then Some (char_of (13::nat))
      else if n = 116 then Some (char_of (9::nat)) else None)"

definition cons_char :: "char \<Rightarrow> (string \<times> string) option \<Rightarrow> (string \<times> string) option" where
  "cons_char c r = (case r of None \<Rightarrow> None | Some (s, t) \<Rightarrow> Some (c # s, t))"

text \<open>The characters after an opening quote up to the closing one, and the rest.\<close>

fun json_chars :: "string \<Rightarrow> (string \<times> string) option" where
  "json_chars [] = None"
| "json_chars (x # xs) =
     (if x = CHR 0x22 then Some ([], xs)
      else if x = CHR 0x5C then
        (case xs of
           [] \<Rightarrow> None
         | e # ys \<Rightarrow>
             if e = CHR ''u'' then
               (case ys of
                  a # b # c # d # zs \<Rightarrow>
                    (case hex4 a b c d of None \<Rightarrow> None | Some u \<Rightarrow> cons_char u (json_chars zs))
                | _ \<Rightarrow> None)
             else (case simple_escape e of None \<Rightarrow> None | Some u \<Rightarrow> cons_char u (json_chars ys)))
      else if code_of x < 32 then None
      else cons_char x (json_chars xs))"

text \<open>A number: an optional minus, the integer without a leading zero, fraction and exponent.\<close>

definition json_fraction :: "string \<Rightarrow> (string \<times> string) option" where
  "json_fraction s =
     (case s of
        c # cs \<Rightarrow>
          if c = CHR ''.'' then
            (if takeWhile is_digit cs = [] then None
             else Some (takeWhile is_digit cs, dropWhile is_digit cs))
          else Some ([], s)
      | [] \<Rightarrow> Some ([], []))"

definition json_exponent :: "string \<Rightarrow> (int \<times> string) option" where
  "json_exponent s =
     (case s of
        c # cs \<Rightarrow>
          if c = CHR ''e'' \<or> c = CHR ''E'' then
            (let (neg, ds) = split_sign cs; n = int (digits_value 10 (takeWhile is_digit ds)) in
             if takeWhile is_digit ds = [] then None
             else Some (if neg then - n else n, dropWhile is_digit ds))
          else Some (0, s)
      | [] \<Rightarrow> Some (0, []))"

definition json_number :: "string \<Rightarrow> (jsval \<times> string) option" where
  "json_number s =
     (let neg = (s \<noteq> [] \<and> hd s = CHR ''-''); t = (if neg then tl s else s);
          ds = takeWhile is_digit t
      in if ds = [] \<or> (hd ds = CHR ''0'' \<and> length ds > 1) then None
         else case json_fraction (dropWhile is_digit t) of
           None \<Rightarrow> None
         | Some (fs, u) \<Rightarrow>
             (case json_exponent u of
                None \<Rightarrow> None
              | Some (e, r) \<Rightarrow>
                  (let q = of_nat (digits_value 10 (ds @ fs)) * pow10 (e - int (length fs))
                   in Some (JNum (Fin (if neg then - q else q)), r))))"

text \<open>A later member of an object replaces an earlier one of the same name.\<close>

definition put_member :: "(string \<times> jsval) list \<Rightarrow> string \<times> jsval \<Rightarrow> (string \<times> jsval) list" where
  "put_member ps m =
     (if fst m \<in> set (map fst ps) then map (\<lambda>(k, v). if k = fst m then m else (k, v)) ps else ps @ [m])"

definition expect :: "char \<Rightarrow> string \<Rightarrow> string option" where
  "expect c s = (case skip_space s of x # xs \<Rightarrow> if x = c then Some xs else None | [] \<Rightarrow> None)"

text \<open>
  The parser. Every recursive call is on a shorter text; the comparisons of lengths only make that
  visible and always hold.
\<close>

function (sequential) json_value :: "string \<Rightarrow> (jsval \<times> string) option"
and json_elements :: "string \<Rightarrow> (jsval list \<times> string) option"
and json_pairs :: "string \<Rightarrow> ((string \<times> jsval) list \<times> string) option" where
  "json_value s =
     (case skip_space s of
        [] \<Rightarrow> None
      | c # cs \<Rightarrow>
          if length cs \<ge> length s then None
          else if c = CHR 0x22 then
            (case json_chars cs of None \<Rightarrow> None | Some (t, r) \<Rightarrow> Some (JStr t, r))
          else if c = CHR ''['' then
            (case expect (CHR '']'') cs of
               Some r \<Rightarrow> Some (js_array [], r)
             | None \<Rightarrow> (case json_elements cs of None \<Rightarrow> None | Some (vs, r) \<Rightarrow> Some (js_array vs, r)))
          else if c = CHR ''{'' then
            (case expect (CHR ''}'') cs of
               Some r \<Rightarrow> Some (JObj [], r)
             | None \<Rightarrow> (case json_pairs cs of None \<Rightarrow> None | Some (ps, r) \<Rightarrow> Some (JObj (foldl put_member [] ps), r)))
          else if prefix ''null'' (c # cs) then Some (JNull, drop 4 (c # cs))
          else if prefix ''true'' (c # cs) then Some (JBool True, drop 4 (c # cs))
          else if prefix ''false'' (c # cs) then Some (JBool False, drop 5 (c # cs))
          else json_number (c # cs))"
| "json_elements s =
     (case json_value s of
        None \<Rightarrow> None
      | Some (v, r) \<Rightarrow>
          (case expect (CHR '']'') r of
             Some t \<Rightarrow> Some ([v], t)
           | None \<Rightarrow>
               (case expect (CHR '','') r of
                  None \<Rightarrow> None
                | Some t \<Rightarrow>
                    if length t < length s then
                      (case json_elements t of None \<Rightarrow> None | Some (vs, u) \<Rightarrow> Some (v # vs, u))
                    else None)))"
| "json_pairs s =
     (case expect (CHR 0x22) s of
        None \<Rightarrow> None
      | Some q \<Rightarrow>
          (case json_chars q of
             None \<Rightarrow> None
           | Some (k, r) \<Rightarrow>
               (case expect (CHR '':'') r of
                  None \<Rightarrow> None
                | Some t \<Rightarrow>
                    if length t \<ge> length s then None
                    else (case json_value t of
                      None \<Rightarrow> None
                    | Some (v, u) \<Rightarrow>
                        (case expect (CHR ''}'') u of
                           Some w \<Rightarrow> Some ([(k, v)], w)
                         | None \<Rightarrow>
                             (case expect (CHR '','') u of
                                None \<Rightarrow> None
                              | Some w \<Rightarrow>
                                  if length w < length s then
                                    (case json_pairs w of None \<Rightarrow> None | Some (ps, y) \<Rightarrow> Some ((k, v) # ps, y))
                                  else None))))))"
  by pat_completeness auto

termination
  by (relation "measure (case_sum (\<lambda>s. 2 * length s) (case_sum (\<lambda>s. 2 * length s + 1) (\<lambda>s. 2 * length s + 1)))")
    auto

declare json_value.simps [simp del] json_elements.simps [simp del] json_pairs.simps [simp del]

definition json_parse :: "string \<Rightarrow> jsval option" where
  "json_parse s = (case json_value s of None \<Rightarrow> None | Some (v, r) \<Rightarrow> if skip_space r = [] then Some v else None)"

section \<open>TextDecoder\<close>

fun utf8_decode :: "8 word list \<Rightarrow> string option" where
  "utf8_decode [] = Some []"
| "utf8_decode (b # bs) =
     (if unat b < 128 then map_option (Cons (char_of (unat b))) (utf8_decode bs)
      else if unat b = 194 \<or> unat b = 195 then
        (case bs of
           [] \<Rightarrow> None
         | c # cs \<Rightarrow>
             if 128 \<le> unat c \<and> unat c < 192
             then map_option (Cons (char_of ((unat b - 192) * 64 + (unat c - 128)))) (utf8_decode cs)
             else None)
      else None)"

text \<open>A leading byte-order mark is dropped.\<close>

definition text_decode :: "8 word list \<Rightarrow> string option" where
  "text_decode bs = utf8_decode (if prefix [239, 187, 191] bs then drop 3 bs else bs)"

end
