(* ===== verification/Vault_Crypto.thy ===== *)
theory Vault_Crypto
  imports Json_Text "HOL-Library.Stream"
begin

text \<open>
  lib/security/session-vault-crypto.ts: sealing a session under a fresh data key, wrapping that key
  for each unlock slot, and opening the slots and the payload again. The ciphers and key derivations
  of Web Crypto are parameters; a key is its raw bytes, and \<^verbatim>\<open>getRandomValues\<close> reads the bytes
  of a stream. Overwriting buffers after use has no effect on values and is left out.
\<close>

section \<open>Web Crypto\<close>

type_synonym bytes = "8 word list"

record web_crypto =
  wc_available :: bool
  wc_encrypt :: "bytes \<Rightarrow> bytes \<Rightarrow> bytes \<Rightarrow> bytes \<Rightarrow> bytes"
  wc_decrypt :: "bytes \<Rightarrow> bytes \<Rightarrow> bytes \<Rightarrow> bytes \<Rightarrow> bytes option"
  wc_pbkdf2 :: "bytes \<Rightarrow> bytes \<Rightarrow> int \<Rightarrow> bytes"
  wc_hkdf :: "bytes \<Rightarrow> bytes \<Rightarrow> bytes \<Rightarrow> bytes"

text \<open>
  The arguments are key, nonce, additional data and text of AES-GCM with a 128-bit tag; password,
  salt and iterations of PBKDF2 with SHA-512; input key, salt and info of HKDF with SHA-256. Both
  derivations give a 256-bit key.
\<close>

definition dek_bytes :: nat where "dek_bytes = 32"

definition iv_bytes :: nat where "iv_bytes = 12"

definition salt_bytes :: nat where "salt_bytes = 32"

definition require_web_crypto :: "web_crypto \<Rightarrow> vault_error + unit" where
  "require_web_crypto cr =
     (if wc_available cr then Inr ()
      else Inl (VaultError Unavailable ''Secure browser cryptography is unavailable.''))"

type_synonym entropy = "8 word stream"

definition random_bytes :: "web_crypto \<Rightarrow> nat \<Rightarrow> entropy \<Rightarrow> vault_error + bytes \<times> entropy" where
  "random_bytes cr n g = sum_bind (require_web_crypto cr) (\<lambda>_. Inr (stake n g, sdrop n g))"

definition random_base64url_bytes :: "web_crypto \<Rightarrow> nat \<Rightarrow> entropy \<Rightarrow> vault_error + string \<times> entropy" where
  "random_base64url_bytes cr n g =
     sum_bind (random_bytes cr n g) (\<lambda>(bs, g). Inr (encode_base64url bs, g))"

definition import_aes_key :: "web_crypto \<Rightarrow> bytes \<Rightarrow> vault_error + bytes" where
  "import_aes_key cr raw = sum_bind (require_web_crypto cr) (\<lambda>_. Inr raw)"

section \<open>AES-GCM boxes\<close>

definition aes_encrypt ::
  "web_crypto \<Rightarrow> bytes \<Rightarrow> bytes \<Rightarrow> bytes \<Rightarrow> entropy \<Rightarrow> vault_error + aes_gcm_box \<times> entropy" where
  "aes_encrypt cr key plaintext aad g =
     sum_bind (random_bytes cr iv_bytes g) (\<lambda>(iv, g).
     sum_bind (require_web_crypto cr) (\<lambda>_.
     Inr (\<lparr>box_algorithm = ''AES-256-GCM'', box_iv = encode_base64url iv,
           box_ciphertext = encode_base64url (wc_encrypt cr key iv aad plaintext)\<rparr>, g)))"

definition aes_decrypt ::
  "web_crypto \<Rightarrow> bytes \<Rightarrow> aes_gcm_box \<Rightarrow> bytes \<Rightarrow> nat \<Rightarrow> vault_error + bytes" where
  "aes_decrypt cr key box aad limit =
     sum_bind (decode_canonical (JStr (box_iv box)) ''AES-GCM IV'' (Some iv_bytes) None iv_bytes) (\<lambda>iv.
     sum_bind (decode_canonical (JStr (box_ciphertext box)) ''AES-GCM ciphertext'' None (Some 16) (limit + 16))
       (\<lambda>ciphertext.
     sum_bind (require_web_crypto cr) (\<lambda>_.
     case wc_decrypt cr key iv aad ciphertext of
       None \<Rightarrow> Inl (VaultError Authentication ''The encrypted session vault could not be authenticated.'')
     | Some plaintext \<Rightarrow>
         if length plaintext > limit
         then Inl (VaultError Corrupt ''The decrypted vault value exceeds its limit.'')
         else Inr plaintext)))"

section \<open>Keys that wrap the data key\<close>

definition recovery_bytes :: "jsval \<Rightarrow> vault_error + bytes" where
  "recovery_bytes recovery_key =
     (case recovery_key of
        JStr s \<Rightarrow>
          if s = [] \<or> length s > max_recovery_input_bytes
          then Inl (VaultError InvalidInput ''A recovery key is required.'')
          else if utf8 s = [] \<or> length (utf8 s) > max_recovery_input_bytes
          then Inl (VaultError InvalidInput ''The recovery key has an invalid length.'')
          else Inr (utf8 s)
      | _ \<Rightarrow> Inl (VaultError InvalidInput ''A recovery key is required.''))"

definition derive_recovery_kek :: "web_crypto \<Rightarrow> jsval \<Rightarrow> string \<Rightarrow> vault_error + bytes" where
  "derive_recovery_kek cr recovery_key salt_value =
     sum_bind (decode_canonical (JStr salt_value) ''recovery-key salt'' (Some salt_bytes) None salt_bytes) (\<lambda>salt.
     sum_bind (recovery_bytes recovery_key) (\<lambda>input.
     sum_bind (require_web_crypto cr) (\<lambda>_. Inr (wc_pbkdf2 cr input salt recovery_iterations))))"

definition derive_webauthn_kek ::
  "web_crypto \<Rightarrow> string \<Rightarrow> string \<Rightarrow> bytes \<Rightarrow> string \<Rightarrow> vault_error + bytes" where
  "derive_webauthn_kek cr record_id slot_id' prf_output hkdf_salt =
     (if length prf_output \<noteq> dek_bytes
      then Inl (VaultError InvalidInput ''The WebAuthn PRF output is invalid.'')
      else sum_bind (decode_canonical (JStr hkdf_salt) ''WebAuthn HKDF salt'' (Some salt_bytes) None salt_bytes)
        (\<lambda>salt. sum_bind (require_web_crypto cr)
          (\<lambda>_. Inr (wc_hkdf cr prf_output salt (webauthn_hkdf_info record_id slot_id')))))"

definition wrap_dek ::
  "web_crypto \<Rightarrow> bytes \<Rightarrow> bytes \<Rightarrow> bytes \<Rightarrow> entropy \<Rightarrow> vault_error + aes_gcm_box \<times> entropy" where
  "wrap_dek cr kek raw_dek aad g = aes_encrypt cr kek raw_dek aad g"

definition unwrap_dek :: "web_crypto \<Rightarrow> bytes \<Rightarrow> aes_gcm_box \<Rightarrow> bytes \<Rightarrow> vault_error + bytes" where
  "unwrap_dek cr kek box aad =
     sum_bind (aes_decrypt cr kek box aad dek_bytes) (\<lambda>raw_dek.
       if length raw_dek \<noteq> dek_bytes
       then Inl (VaultError Authentication ''The wrapped payload key is invalid.'')
       else Inr raw_dek)"

section \<open>Sealing\<close>

text \<open>A finished WebAuthn enrolment, and the slot input given to the authenticator.\<close>

record prf_slot_input =
  prf_credential_id :: string
  prf_transports :: "string list"
  prf_rp_id :: string
  prf_input :: string

record ready_enrollment = prf_slot_input +
  enrolled_prf_output :: bytes

text \<open>The plaintext of the payload: the printed session, at most 256 KiB long.\<close>

definition session_plaintext :: "persisted_session \<Rightarrow> vault_error + bytes" where
  "session_plaintext session =
     (let plaintext = utf8 (json_string (session_js session)) in
      if length plaintext > max_payload_bytes
      then Inl (VaultError InvalidInput ''The Matrix session exceeds its vault limit.'')
      else Inr plaintext)"

text \<open>The box that stands for the missing wrapped key of a slot whose additional data is computed.\<close>

definition no_box :: aes_gcm_box where
  "no_box = \<lparr>box_algorithm = [], box_iv = [], box_ciphertext = []\<rparr>"

definition with_wrapped_dek :: "unlock_slot \<Rightarrow> aes_gcm_box \<Rightarrow> unlock_slot" where
  "with_wrapped_dek s box =
     (case s of RecoverySlot r \<Rightarrow> RecoverySlot (r\<lparr>rk_wrapped_dek := box\<rparr>)
              | PrfSlot w \<Rightarrow> PrfSlot (w\<lparr>wa_wrapped_dek := box\<rparr>))"

definition seal_prf_slot ::
  "web_crypto \<Rightarrow> string \<Rightarrow> bytes \<Rightarrow> ready_enrollment \<Rightarrow> entropy \<Rightarrow> vault_error + unlock_slot \<times> entropy" where
  "seal_prf_slot cr record_id raw_dek enrolled g =
     sum_bind (random_base64url_bytes cr 16 g) (\<lambda>(sid, g).
     sum_bind (random_base64url_bytes cr salt_bytes g) (\<lambda>(salt, g).
     let base = PrfSlot \<lparr>wa_slot_id = sid, wa_credential_id = prf_credential_id enrolled,
                  wa_transports = prf_transports enrolled, wa_rp_id = prf_rp_id enrolled,
                  wa_prf_input = prf_input enrolled, wa_hkdf_salt = salt, wa_wrapped_dek = no_box\<rparr>
     in sum_bind (derive_webauthn_kek cr record_id sid (enrolled_prf_output enrolled) salt) (\<lambda>kek.
        sum_bind (wrap_dek cr kek raw_dek (slot_additional_data record_id base) g) (\<lambda>(box, g).
        Inr (with_wrapped_dek base box, g)))))"

definition create_sealed_record ::
  "web_crypto \<Rightarrow> persisted_session \<Rightarrow> vault_storage \<Rightarrow> jsval \<Rightarrow> ready_enrollment option \<Rightarrow> entropy \<Rightarrow>
     vault_error + locked_record \<times> bytes" where
  "create_sealed_record cr session storage recovery_key webauthn g =
     sum_bind (random_bytes cr dek_bytes g) (\<lambda>(raw_dek, g).
     sum_bind (random_base64url_bytes cr 16 g) (\<lambda>(record_id, g).
     sum_bind (random_base64url_bytes cr 16 g) (\<lambda>(sid, g).
     sum_bind (random_base64url_bytes cr salt_bytes g) (\<lambda>(salt, g).
     sum_bind (import_aes_key cr raw_dek) (\<lambda>dek.
     sum_bind (derive_recovery_kek cr recovery_key salt) (\<lambda>kek.
     let base = RecoverySlot \<lparr>rk_slot_id = sid, rk_salt = salt, rk_iterations = recovery_iterations,
                  rk_wrapped_dek = no_box\<rparr>
     in sum_bind (wrap_dek cr kek raw_dek (slot_additional_data record_id base) g) (\<lambda>(box, g).
        sum_bind
          (case webauthn of
             None \<Rightarrow> Inr ([with_wrapped_dek base box], g)
           | Some enrolled \<Rightarrow>
               sum_bind (seal_prf_slot cr record_id raw_dek enrolled g) (\<lambda>(s, g).
               Inr ([with_wrapped_dek base box, s], g))) (\<lambda>(slots, g).
        sum_bind (session_plaintext session) (\<lambda>plaintext.
        sum_bind (aes_encrypt cr dek plaintext (payload_additional_data record_id 1 storage slots) g) (\<lambda>(payload, g).
        Inr (\<lparr>locked_record_id = record_id, locked_revision = 1, locked_storage = storage,
              locked_payload = payload, locked_slots = slots\<rparr>, dek)))))))))))"

section \<open>Opening\<close>

definition recovery_matches :: "string option \<Rightarrow> unlock_slot \<Rightarrow> bool" where
  "recovery_matches slot_id' s \<longleftrightarrow>
     is_recovery_slot s \<and> (slot_id' = None \<or> slot_id' = Some [] \<or> slot_id' = Some (slot_id s))"

definition unlock_dek_with_recovery_key ::
  "web_crypto \<Rightarrow> locked_record \<Rightarrow> jsval \<Rightarrow> string option \<Rightarrow> vault_error + bytes" where
  "unlock_dek_with_recovery_key cr record recovery_key slot_id' =
     (case filter (recovery_matches slot_id') (locked_slots record) of
        [RecoverySlot slot] \<Rightarrow>
          sum_bind (derive_recovery_kek cr recovery_key (rk_salt slot)) (\<lambda>kek.
          sum_bind (unwrap_dek cr kek (rk_wrapped_dek slot)
                     (slot_additional_data (locked_record_id record) (RecoverySlot slot))) (\<lambda>raw_dek.
          import_aes_key cr raw_dek))
      | _ \<Rightarrow> Inl (VaultError InvalidInput ''The recovery-key unlock slot was not found.''))"

fun find_prf_slot :: "string \<Rightarrow> unlock_slot list \<Rightarrow> webauthn_prf_slot option" where
  "find_prf_slot sid [] = None"
| "find_prf_slot sid (PrfSlot w # ss) = (if wa_slot_id w = sid then Some w else find_prf_slot sid ss)"
| "find_prf_slot sid (RecoverySlot r # ss) = find_prf_slot sid ss"

definition slot_input :: "webauthn_prf_slot \<Rightarrow> prf_slot_input" where
  "slot_input w = \<lparr>prf_credential_id = wa_credential_id w, prf_transports = wa_transports w,
     prf_rp_id = wa_rp_id w, prf_input = wa_prf_input w\<rparr>"

text \<open>The authenticator that evaluates a slot's PRF is a parameter.\<close>

definition unlock_dek_with_webauthn_prf ::
  "web_crypto \<Rightarrow> locked_record \<Rightarrow> string \<Rightarrow> (prf_slot_input \<Rightarrow> vault_error + bytes) \<Rightarrow> vault_error + bytes" where
  "unlock_dek_with_webauthn_prf cr record sid evaluate =
     (case find_prf_slot sid (locked_slots record) of
        None \<Rightarrow> Inl (VaultError InvalidInput ''The WebAuthn unlock slot was not found.'')
      | Some slot \<Rightarrow>
          sum_bind (evaluate (slot_input slot)) (\<lambda>output.
          sum_bind (derive_webauthn_kek cr (locked_record_id record) (wa_slot_id slot) output (wa_hkdf_salt slot)) (\<lambda>kek.
          sum_bind (unwrap_dek cr kek (wa_wrapped_dek slot)
                     (slot_additional_data (locked_record_id record) (PrfSlot slot))) (\<lambda>raw_dek.
          import_aes_key cr raw_dek))))"

definition decrypt_session_payload :: "web_crypto \<Rightarrow> locked_record \<Rightarrow> bytes \<Rightarrow> vault_error + jsval" where
  "decrypt_session_payload cr record dek =
     sum_bind (aes_decrypt cr dek (locked_payload record)
        (payload_additional_data (locked_record_id record) (locked_revision record) (locked_storage record)
           (locked_slots record)) max_payload_bytes) (\<lambda>plaintext.
     case text_decode plaintext of
       None \<Rightarrow> corrupt ''The encrypted Matrix session is invalid JSON.''
     | Some text' \<Rightarrow>
         (case json_parse text' of
            None \<Rightarrow> corrupt ''The encrypted Matrix session is invalid JSON.''
          | Some v \<Rightarrow> Inr v))"

definition encrypt_session_payload ::
  "web_crypto \<Rightarrow> locked_record \<Rightarrow> int \<Rightarrow> persisted_session \<Rightarrow> bytes \<Rightarrow> entropy \<Rightarrow> vault_error + aes_gcm_box" where
  "encrypt_session_payload cr record revision session dek g =
     sum_bind (session_plaintext session) (\<lambda>plaintext.
     sum_bind (aes_encrypt cr dek plaintext
        (payload_additional_data (locked_record_id record) revision (locked_storage record) (locked_slots record)) g)
       (\<lambda>(payload, g). Inr payload))"

end
