(* ===== verification/Session_Store.thy ===== *)
theory Session_Store
  imports Vault_Crypto Stored_Equality
begin

text \<open>
  lib/matrix/session-store.ts: the locked session in IndexedDB and the leases that own it. The store
  holds at most one value, under one key; every read-and-write of the code is one transaction and
  therefore one atomic function here, and the asynchronous operations are given as the phases between
  their transactions (\<open>Store_Steps\<close> interleaves them). Web Locks, database deletion and
  cancellation are parameters whose outcome the environment chooses.
\<close>

section \<open>Environment, store and errors\<close>

datatype delete_outcome = Deleted | DeleteThrows | DeleteFails | DeleteBlocked | DeleteTimesOut

datatype enumeration = Enumerates | CannotEnumerate | EnumerationFails

record store_env =
  se_parse_url :: "string \<Rightarrow> url option"
  se_production :: bool
  se_origin :: "string option"
  se_crypto :: web_crypto
  se_evaluate_prf :: "prf_slot_input \<Rightarrow> vault_error + bytes"
  se_has_locks :: bool
  se_delete :: "string \<Rightarrow> delete_outcome"
  se_enumeration :: enumeration

text \<open>The value under the session key, and the names of the other databases of the origin.\<close>

record vault =
  va_stored :: "jsval option"
  va_databases :: "string list"

text \<open>\<open>OperationAborted\<close> is \<open>SessionVaultOperationAbortedError\<close>.\<close>

datatype store_error = VaultFailure vault_error | OperationAborted

definition from_vault :: "vault_error + 'a \<Rightarrow> store_error + 'a" where
  "from_vault r = (case r of Inl e \<Rightarrow> Inl (VaultFailure e) | Inr x \<Rightarrow> Inr x)"

definition store_fail :: "vault_error_code \<Rightarrow> string \<Rightarrow> store_error + 'a" where
  "store_fail code message = Inl (VaultFailure (VaultError code message))"

lemma from_vault_Inr [simp]: "from_vault r = Inr x \<longleftrightarrow> r = Inr x"
  by (simp add: from_vault_def split: sum.split)

lemma from_vault_simps [simp]: "from_vault (Inr x) = Inr x" "from_vault (Inl e) = Inl (VaultFailure e)"
  by (simp_all add: from_vault_def)

lemma store_fail_Inr [simp]: "store_fail c m \<noteq> Inr x"
  by (simp add: store_fail_def)

definition assert_operation_active :: "bool \<Rightarrow> store_error + unit" where
  "assert_operation_active aborted = (if aborted then Inl OperationAborted else Inr ())"

section \<open>Transactions\<close>

text \<open>
  When the signal of an operation aborts, relative to its transaction: not at all, before it starts,
  while its requests run, or when it is already committing. In the last case
  \<^verbatim>\<open>transaction.abort()\<close> throws, the write stays, and \<open>transact\<close> throws the recorded error.
\<close>

datatype abort_time = NoAbort | AbortBefore | AbortInFlight | AbortCommitting

definition transact ::
  "abort_time \<Rightarrow> (jsval option \<Rightarrow> store_error + jsval \<times> 'a) \<Rightarrow> vault \<Rightarrow> (store_error + 'a) \<times> vault" where
  "transact abort action v =
     (if abort = AbortBefore then (Inl OperationAborted, v)
      else case action (va_stored v) of
        Inl e \<Rightarrow> (Inl (if abort = AbortInFlight then OperationAborted else e), v)
      | Inr (written, x) \<Rightarrow>
          if abort = AbortInFlight then (Inl OperationAborted, v)
          else (if abort = AbortCommitting then Inl OperationAborted else Inr x, v\<lparr>va_stored := Some written\<rparr>))"

section \<open>Inspection\<close>

datatype slot_descriptor =
    RecoveryDescriptor string
  | PrfDescriptor string string "string list" string

record locked_descriptor =
  ld_record_id :: string
  ld_revision :: int
  ld_prefix :: string
  ld_slots :: "slot_descriptor list"

record legacy_candidate =
  lc_session :: persisted_session
  lc_prefix :: string
  lc_sync :: string
  lc_expected :: jsval

datatype descriptor_scope = ScopeExact | ScopeAllOwned

record cleanup_descriptor =
  cd_record_id :: string
  cd_revision :: int
  cd_scope :: descriptor_scope
  cd_prefix :: "string option"
  cd_sync :: "string option"

datatype inspection =
    VaultEmpty
  | VaultLocked locked_descriptor
  | VaultLegacy legacy_candidate
  | VaultCleanup cleanup_descriptor
  | VaultCorrupt string

definition slot_description :: "unlock_slot \<Rightarrow> slot_descriptor" where
  "slot_description s =
     (case s of
        RecoverySlot r \<Rightarrow> RecoveryDescriptor (rk_slot_id r)
      | PrfSlot w \<Rightarrow> PrfDescriptor (wa_slot_id w) (wa_credential_id w) (wa_transports w) (wa_rp_id w))"

definition descriptor_from_record :: "locked_record \<Rightarrow> locked_descriptor" where
  "descriptor_from_record r = \<lparr>ld_record_id = locked_record_id r, ld_revision = locked_revision r,
     ld_prefix = crypto_database_prefix (locked_storage r), ld_slots = map slot_description (locked_slots r)\<rparr>"

definition normalize_new_session :: "store_env \<Rightarrow> jsval \<Rightarrow> vault_error + persisted_session" where
  "normalize_new_session E v =
     normalize_persisted_session (se_parse_url E) (se_production E) (se_origin E) True None v"

definition text_of :: "jsval \<Rightarrow> string" where
  "text_of v = (case v of JStr s \<Rightarrow> s | _ \<Rightarrow> [])"

definition normalize_legacy_candidate :: "store_env \<Rightarrow> jsval \<Rightarrow> vault_error + legacy_candidate" where
  "normalize_legacy_candidate E v =
     check (is_object v) ''The legacy Matrix session is invalid.''
       (let storage = legacy_storage_metadata (text_of (js_opt ''userId'' v)) (text_of (js_opt ''deviceId'' v))
        in sum_bind (normalize_persisted_session (se_parse_url E) (se_production E) (se_origin E) False
                       (Some (crypto_database_prefix storage)) v) (\<lambda>session.
           Inr \<lparr>lc_session = session, lc_prefix = crypto_database_prefix storage,
                lc_sync = the (legacy_sync_database storage), lc_expected = v\<rparr>))"

definition is_known_kind :: "jsval \<Rightarrow> string \<Rightarrow> bool" where
  "is_known_kind v kind \<longleftrightarrow> is_object v \<and> js_opt ''kind'' v = JStr kind"

definition cleanup_description :: "tombstone \<Rightarrow> cleanup_scope \<Rightarrow> cleanup_descriptor" where
  "cleanup_description t c = \<lparr>cd_record_id = tomb_record_id t, cd_revision = tomb_revision t,
     cd_scope = (case c of ExactCleanup s \<Rightarrow> ScopeExact | AllOwned \<Rightarrow> ScopeAllOwned),
     cd_prefix = (case c of ExactCleanup s \<Rightarrow> Some (crypto_database_prefix s) | AllOwned \<Rightarrow> None),
     cd_sync = (case c of ExactCleanup s \<Rightarrow> legacy_sync_database s | AllOwned \<Rightarrow> None)\<rparr>"

definition inspect_session :: "store_env \<Rightarrow> jsval option \<Rightarrow> vault_error + inspection" where
  "inspect_session E stored =
     (let result =
        (case stored of
           None \<Rightarrow> Inr VaultEmpty
         | Some v \<Rightarrow>
             if is_known_kind v ''locked-matrix-session''
             then sum_bind (validate_locked_record v) (\<lambda>r. Inr (VaultLocked (descriptor_from_record r)))
             else if is_known_kind v ''matrix-session-tombstone''
             then sum_bind (validate_tombstone v) (\<lambda>t.
               Inr (case tomb_cleanup t of None \<Rightarrow> VaultEmpty | Some c \<Rightarrow> VaultCleanup (cleanup_description t c)))
             else sum_bind (normalize_legacy_candidate E v) (\<lambda>c. Inr (VaultLegacy c)))
      in case result of
           Inl (VaultError Corrupt message) \<Rightarrow> Inr (VaultCorrupt message)
         | _ \<Rightarrow> result)"

section \<open>Commits\<close>

definition record_matches_descriptor :: "locked_record \<Rightarrow> locked_descriptor \<Rightarrow> bool" where
  "record_matches_descriptor r d \<longleftrightarrow>
     locked_record_id r = ld_record_id d \<and> locked_revision r = ld_revision d \<and>
     crypto_database_prefix (locked_storage r) = ld_prefix d"

definition read_locked_record :: "locked_descriptor \<Rightarrow> jsval option \<Rightarrow> store_error + locked_record" where
  "read_locked_record d stored =
     (case stored of
        None \<Rightarrow> store_fail Conflict ''The locked Matrix session no longer exists.''
      | Some v \<Rightarrow>
          sum_bind (from_vault (validate_locked_record v)) (\<lambda>r.
            if record_matches_descriptor r d then Inr r
            else store_fail Conflict ''The locked Matrix session changed before unlock.''))"

text \<open>What a new session may replace: nothing, or exactly the finished tombstone that was read.\<close>

type_synonym starting_state = "jsval option"

definition read_available_vault_starting_state :: "jsval option \<Rightarrow> store_error + starting_state" where
  "read_available_vault_starting_state stored =
     (case stored of
        None \<Rightarrow> Inr None
      | Some v \<Rightarrow>
          (case validate_tombstone v of
             Inl e \<Rightarrow> store_fail Conflict ''A persisted Matrix session already occupies this vault.''
           | Inr t \<Rightarrow>
               if tomb_cleanup t \<noteq> None
               then store_fail Conflict ''Local-session cleanup must finish before another login is stored.''
               else Inr (Some v)))"

definition commit_new_record ::
  "starting_state \<Rightarrow> locked_record \<Rightarrow> abort_time \<Rightarrow> vault \<Rightarrow> (store_error + unit) \<times> vault" where
  "commit_new_record starting record abort =
     transact abort (\<lambda>stored.
       if (case starting of
             Some expected \<Rightarrow> (case stored of Some v \<Rightarrow> exact_stored_equal v expected | None \<Rightarrow> False)
           | None \<Rightarrow> stored = None)
       then Inr (locked_js record, ())
       else store_fail Conflict ''The session vault changed while the new session was being encrypted.'')"

definition commit_migrated_record ::
  "legacy_candidate \<Rightarrow> locked_record \<Rightarrow> abort_time \<Rightarrow> vault \<Rightarrow> (store_error + unit) \<times> vault" where
  "commit_migrated_record candidate record abort =
     transact abort (\<lambda>stored.
       if (case stored of Some v \<Rightarrow> exact_stored_equal v (lc_expected candidate) | None \<Rightarrow> False)
       then Inr (locked_js record, ())
       else store_fail Conflict ''The legacy Matrix session changed before migration committed.'')"

text \<open>The stored record, which must still be the one the lease was given.\<close>

definition expect_current ::
  "string \<Rightarrow> string \<Rightarrow> locked_record \<Rightarrow> jsval option \<Rightarrow> store_error + unit" where
  "expect_current missing stale expected stored =
     (case stored of
        None \<Rightarrow> store_fail Conflict missing
      | Some v \<Rightarrow>
          sum_bind (from_vault (validate_locked_record v)) (\<lambda>current.
            if locked_record_id current \<noteq> locked_record_id expected \<or> locked_revision current \<noteq> locked_revision expected
            then store_fail Conflict stale else Inr ()))"

definition commit_reseal :: "locked_record \<Rightarrow> locked_record \<Rightarrow> vault \<Rightarrow> (store_error + unit) \<times> vault" where
  "commit_reseal expected next_record =
     transact NoAbort (\<lambda>stored.
       sum_bind (expect_current ''The locked Matrix session was removed before reseal.''
                   ''A stale session lease cannot overwrite a newer vault revision.'' expected stored) (\<lambda>_.
       Inr (locked_js next_record, ())))"

definition commit_tombstone :: "locked_record \<Rightarrow> vault \<Rightarrow> (store_error + cleanup_descriptor) \<times> vault" where
  "commit_tombstone record =
     (let t = \<lparr>tomb_record_id = locked_record_id record, tomb_revision = locked_revision record + 1,
               tomb_cleanup = Some (ExactCleanup (locked_storage record))\<rparr>
      in transact NoAbort (\<lambda>stored.
           sum_bind (expect_current ''The locked Matrix session was already removed.''
                       ''A stale session lease cannot delete a newer vault revision.'' record stored) (\<lambda>_.
           Inr (tombstone_js t, cleanup_description t (ExactCleanup (locked_storage record))))))"

section \<open>Leases\<close>

text \<open>A disposed lease has neither key nor session.\<close>

record lease =
  ls_record :: locked_record
  ls_session :: "persisted_session option"
  ls_dek :: "bytes option"

definition new_lease :: "locked_record \<Rightarrow> persisted_session \<Rightarrow> bytes \<Rightarrow> lease" where
  "new_lease record session dek = \<lparr>ls_record = record, ls_session = Some session, ls_dek = Some dek\<rparr>"

definition assert_active :: "lease \<Rightarrow> store_error + bytes" where
  "assert_active l =
     (case ls_dek l of
        None \<Rightarrow> store_fail Disposed ''This session lease has been disposed.''
      | Some dek \<Rightarrow> Inr dek)"

definition lease_session :: "lease \<Rightarrow> store_error + persisted_session option" where
  "lease_session l = sum_bind (assert_active l) (\<lambda>_. Inr (ls_session l))"

definition lease_record_id :: "lease \<Rightarrow> store_error + string" where
  "lease_record_id l = sum_bind (assert_active l) (\<lambda>_. Inr (locked_record_id (ls_record l)))"

definition lease_revision :: "lease \<Rightarrow> store_error + int" where
  "lease_revision l = sum_bind (assert_active l) (\<lambda>_. Inr (locked_revision (ls_record l)))"

definition lease_crypto_prefix :: "lease \<Rightarrow> store_error + string" where
  "lease_crypto_prefix l =
     sum_bind (assert_active l) (\<lambda>_. Inr (crypto_database_prefix (locked_storage (ls_record l))))"

definition authenticated_storage :: "bool \<Rightarrow> lease \<Rightarrow> store_error + vault_storage" where
  "authenticated_storage authority l =
     (if \<not> authority then store_fail InvalidInput ''Authenticated storage authority is required.''
      else sum_bind (assert_active l) (\<lambda>_. Inr (locked_storage (ls_record l))))"

definition dispose :: "lease \<Rightarrow> lease" where
  "dispose l = l\<lparr>ls_dek := None, ls_session := None\<rparr>"

definition assert_current :: "lease \<Rightarrow> jsval option \<Rightarrow> store_error + unit" where
  "assert_current l stored =
     sum_bind (assert_active l) (\<lambda>_.
     case stored of
       None \<Rightarrow> store_fail Conflict ''The unlocked Matrix session no longer exists.''
     | Some v \<Rightarrow>
         (case validate_locked_record v of
            Inl e \<Rightarrow> store_fail Conflict ''The unlocked Matrix session is no longer current.''
          | Inr current \<Rightarrow>
              if exact_stored_equal (locked_js current) (locked_js (ls_record l)) then Inr ()
              else store_fail Conflict ''The unlocked Matrix session is no longer current.''))"

text \<open>\<open>reseal\<close> up to its commit: the next record and the session it holds.\<close>

definition reseal_prepare ::
  "store_env \<Rightarrow> lease \<Rightarrow> jsval \<Rightarrow> string \<Rightarrow> entropy \<Rightarrow> store_error + locked_record \<times> persisted_session" where
  "reseal_prepare E l next_session reason g =
     sum_bind (assert_active l) (\<lambda>dek.
     if reason \<noteq> ''token-refresh'' then store_fail InvalidInput ''The session reseal reason is invalid.''
     else sum_bind (from_vault (normalize_new_session E next_session)) (\<lambda>normalized.
     if (case ls_session l of Some s \<Rightarrow> \<not> immutable_session_fields_equal s normalized | None \<Rightarrow> True)
     then store_fail InvalidInput ''A session reseal cannot change immutable account or crypto identity.''
     else let expected = ls_record l; revision = locked_revision expected + 1 in
     sum_bind (from_vault (encrypt_session_payload (se_crypto E) expected revision normalized dek g)) (\<lambda>payload.
     Inr (expected\<lparr>locked_revision := revision, locked_payload := payload\<rparr>, normalized))))"

text \<open>After the commit: a lease disposed in the meantime stays disposed.\<close>

definition reseal_finish :: "locked_record \<Rightarrow> persisted_session \<Rightarrow> lease \<Rightarrow> lease" where
  "reseal_finish next_record normalized l =
     (if ls_dek l = None then l else l\<lparr>ls_record := next_record, ls_session := Some normalized\<rparr>)"

definition delete_record ::
  "lease \<Rightarrow> vault \<Rightarrow> ((store_error + cleanup_descriptor \<times> persisted_session option) \<times> lease) \<times> vault" where
  "delete_record l v =
     (case assert_active l of
        Inl e \<Rightarrow> ((Inl e, l), v)
      | Inr dek \<Rightarrow>
          (case commit_tombstone (ls_record l) v of
             (Inl e, v') \<Rightarrow> ((Inl e, l), v')
           | (Inr c, v') \<Rightarrow> ((Inr (c, ls_session l), dispose l), v')))"

end
