(* ===== verification/Session_Operations.thy ===== *)
theory Session_Operations
  imports Session_Store
begin

text \<open>
  lib/matrix/session-store.ts, the exported operations: creating, migrating, unlocking and forgetting
  a session under the vault lock, the cleanup of its databases, and the tokens it generates. Each
  checkpoint of an operation's signal has a number; \<open>aborted i\<close> says that the signal has aborted by
  then. \<open>granted\<close> says whether the lock manager hands out the vault lock.
\<close>

section \<open>Operations on the vault\<close>

type_synonym 'a vault_op = "vault \<Rightarrow> (store_error + 'a) \<times> vault"

definition result_op :: "store_error + 'a \<Rightarrow> 'a vault_op" where
  "result_op r = (\<lambda>v. (r, v))"

definition then_op :: "'a vault_op \<Rightarrow> ('a \<Rightarrow> 'b vault_op) \<Rightarrow> 'b vault_op" where
  "then_op m k = (\<lambda>v. case m v of (Inl e, v') \<Rightarrow> (Inl e, v') | (Inr x, v') \<Rightarrow> k x v')"

definition stored_op :: "(jsval option \<Rightarrow> store_error + 'a) \<Rightarrow> 'a vault_op" where
  "stored_op f = (\<lambda>v. (f (va_stored v), v))"

definition with_available_vault_ownership ::
  "store_env \<Rightarrow> bool \<Rightarrow> (nat \<Rightarrow> bool) \<Rightarrow> nat \<Rightarrow> 'a vault_op \<Rightarrow> 'a vault_op" where
  "with_available_vault_ownership E granted aborted i operation v =
     (if aborted i then (Inl OperationAborted, v)
      else if \<not> se_has_locks E
      then (store_fail Unavailable ''This browser cannot safely modify the local Matrix session.'', v)
      else if aborted (Suc i) then (Inl OperationAborted, v)
      else if \<not> granted
      then (store_fail Conflict ''Another Sub-Etha window currently owns the local Matrix session.'', v)
      else case operation v of
        (Inl (VaultFailure PlatformError), v') \<Rightarrow>
          (store_fail Unavailable ''Safe ownership of the local Matrix session could not be acquired.'', v')
      | r \<Rightarrow> r)"

definition delete_database_strict :: "store_env \<Rightarrow> string \<Rightarrow> unit vault_op" where
  "delete_database_strict E name v =
     (case se_delete E name of
        Deleted \<Rightarrow> (Inr (), v\<lparr>va_databases := removeAll name (va_databases v)\<rparr>)
      | DeleteBlocked \<Rightarrow>
          (store_fail Unavailable (''Another app window is blocking removal of the local database '' @ name @ ''.''), v)
      | DeleteTimesOut \<Rightarrow>
          (store_fail Unavailable (''Timed out removing the local database '' @ name @ ''.''), v)
      | _ \<Rightarrow> (store_fail Unavailable (''The local database '' @ name @ '' could not be removed.''), v))"

section \<open>Creating a session\<close>

text \<open>Everything between taking the lock and the commit.\<close>

definition create_prepare ::
  "store_env \<Rightarrow> (nat \<Rightarrow> bool) \<Rightarrow> persisted_session \<Rightarrow> jsval \<Rightarrow> ready_enrollment option \<Rightarrow> entropy \<Rightarrow>
     jsval option \<Rightarrow> store_error + starting_state \<times> locked_record \<times> bytes" where
  "create_prepare E aborted normalized recovery_key webauthn g stored =
     sum_bind (assert_operation_active (aborted 3)) (\<lambda>_.
     sum_bind (read_available_vault_starting_state stored) (\<lambda>starting.
     sum_bind (assert_operation_active (aborted 4)) (\<lambda>_.
     sum_bind (from_vault (create_sealed_record (se_crypto E) normalized
                 \<lparr>crypto_database_prefix = ses_crypto_database_prefix normalized, legacy_sync_database = None\<rparr>
                 recovery_key webauthn g)) (\<lambda>(sealed, dek).
     sum_bind (assert_operation_active (aborted 5)) (\<lambda>_.
     sum_bind (from_vault (validate_locked_record (locked_js sealed))) (\<lambda>record.
     sum_bind (assert_operation_active (aborted 6)) (\<lambda>_.
     Inr (starting, record, dek))))))))"

definition create_locked_session ::
  "store_env \<Rightarrow> bool \<Rightarrow> (nat \<Rightarrow> bool) \<Rightarrow> abort_time \<Rightarrow> jsval \<Rightarrow> jsval \<Rightarrow> ready_enrollment option \<Rightarrow> entropy \<Rightarrow>
     lease vault_op" where
  "create_locked_session E granted aborted abort session recovery_key webauthn g =
     then_op (result_op (assert_operation_active (aborted 0))) (\<lambda>_.
     then_op (result_op (from_vault (normalize_new_session E session))) (\<lambda>normalized.
     with_available_vault_ownership E granted aborted 1
       (then_op (stored_op (create_prepare E aborted normalized recovery_key webauthn g)) (\<lambda>(starting, record, dek).
        then_op (commit_new_record starting record abort) (\<lambda>_.
        result_op (Inr (new_lease record normalized dek)))))))"

section \<open>Migrating a legacy session\<close>

definition migrate_check ::
  "store_env \<Rightarrow> legacy_candidate \<Rightarrow> store_error + legacy_candidate \<times> persisted_session" where
  "migrate_check E candidate =
     sum_bind (from_vault (normalize_legacy_candidate E (lc_expected candidate))) (\<lambda>inspected.
     sum_bind (from_vault (normalize_new_session E (session_js (lc_session candidate)))) (\<lambda>normalized.
     if lc_prefix candidate \<noteq> lc_prefix inspected \<or> lc_sync candidate \<noteq> lc_sync inspected
        \<or> \<not> exact_stored_equal (session_js normalized) (session_js (lc_session inspected))
     then store_fail InvalidInput ''The legacy session candidate does not match its inspected record.''
     else Inr (inspected, normalized)))"

definition migrate_prepare ::
  "store_env \<Rightarrow> (nat \<Rightarrow> bool) \<Rightarrow> legacy_candidate \<Rightarrow> legacy_candidate \<Rightarrow> persisted_session \<Rightarrow> jsval \<Rightarrow>
     ready_enrollment option \<Rightarrow> entropy \<Rightarrow> jsval option \<Rightarrow> store_error + locked_record \<times> bytes" where
  "migrate_prepare E aborted candidate inspected normalized recovery_key webauthn g stored =
     sum_bind (assert_operation_active (aborted 3)) (\<lambda>_.
     sum_bind (assert_operation_active (aborted 4)) (\<lambda>_.
     if (case stored of None \<Rightarrow> True | Some v \<Rightarrow> \<not> exact_stored_equal v (lc_expected candidate))
     then store_fail Conflict ''The legacy Matrix session changed before migration began.''
     else
     sum_bind (from_vault (create_sealed_record (se_crypto E) normalized
                 \<lparr>crypto_database_prefix = lc_prefix inspected, legacy_sync_database = Some (lc_sync inspected)\<rparr>
                 recovery_key webauthn g)) (\<lambda>(sealed, dek).
     sum_bind (assert_operation_active (aborted 5)) (\<lambda>_.
     sum_bind (from_vault (validate_locked_record (locked_js sealed))) (\<lambda>record.
     sum_bind (assert_operation_active (aborted 6)) (\<lambda>_.
     Inr (record, dek)))))))"

text \<open>The legacy cache is deleted before the commit, so a failed migration can be tried again.\<close>

definition migrate_legacy_session ::
  "store_env \<Rightarrow> bool \<Rightarrow> (nat \<Rightarrow> bool) \<Rightarrow> abort_time \<Rightarrow> legacy_candidate \<Rightarrow> jsval \<Rightarrow> ready_enrollment option \<Rightarrow>
     entropy \<Rightarrow> lease vault_op" where
  "migrate_legacy_session E granted aborted abort candidate recovery_key webauthn g =
     then_op (result_op (assert_operation_active (aborted 0))) (\<lambda>_.
     then_op (result_op (migrate_check E candidate)) (\<lambda>(inspected, normalized).
     with_available_vault_ownership E granted aborted 1
       (then_op (stored_op (migrate_prepare E aborted candidate inspected normalized recovery_key webauthn g))
          (\<lambda>(record, dek).
        then_op (delete_database_strict E (lc_sync inspected)) (\<lambda>_.
        then_op (result_op (assert_operation_active (aborted 7))) (\<lambda>_.
        then_op (commit_migrated_record candidate record abort) (\<lambda>_.
        result_op (Inr (new_lease record normalized dek)))))))))"

section \<open>Unlocking\<close>

datatype session_unlock =
    UnlockRecovery jsval "string option"
  | UnlockPrf string
  | UnlockOther

definition unlock_dek :: "store_env \<Rightarrow> locked_record \<Rightarrow> session_unlock \<Rightarrow> store_error + bytes" where
  "unlock_dek E record unlock =
     (case unlock of
        UnlockRecovery key sid \<Rightarrow> from_vault (unlock_dek_with_recovery_key (se_crypto E) record key sid)
      | UnlockPrf sid \<Rightarrow> from_vault (unlock_dek_with_webauthn_prf (se_crypto E) record sid (se_evaluate_prf E))
      | UnlockOther \<Rightarrow> store_fail InvalidInput ''The session unlock method is invalid.'')"

definition unlock_prepare ::
  "store_env \<Rightarrow> (nat \<Rightarrow> bool) \<Rightarrow> locked_descriptor \<Rightarrow> session_unlock \<Rightarrow> jsval option \<Rightarrow> store_error + lease" where
  "unlock_prepare E aborted d unlock stored =
     sum_bind (assert_operation_active (aborted 3)) (\<lambda>_.
     sum_bind (read_locked_record d stored) (\<lambda>record.
     sum_bind (assert_operation_active (aborted 4)) (\<lambda>_.
     sum_bind (unlock_dek E record unlock) (\<lambda>dek.
     sum_bind (assert_operation_active (aborted 5)) (\<lambda>_.
     sum_bind (from_vault (decrypt_session_payload (se_crypto E) record dek)) (\<lambda>plaintext.
     sum_bind (assert_operation_active (aborted 6)) (\<lambda>_.
     sum_bind (from_vault (normalize_new_session E plaintext)) (\<lambda>session.
     if ses_crypto_database_prefix session \<noteq> crypto_database_prefix (locked_storage record)
     then store_fail Authentication ''The encrypted session and authenticated storage identity disagree.''
     else Inr (new_lease record session dek)))))))))"

definition delete_authenticated_legacy_sync_database :: "store_env \<Rightarrow> lease \<Rightarrow> unit vault_op" where
  "delete_authenticated_legacy_sync_database E l =
     then_op (stored_op (assert_current l)) (\<lambda>_.
     then_op (result_op (authenticated_storage True l)) (\<lambda>storage.
     case legacy_sync_database storage of
       None \<Rightarrow> result_op (Inr ())
     | Some name \<Rightarrow> if name = [] then result_op (Inr ()) else delete_database_strict E name))"

definition unlock_finish :: "store_env \<Rightarrow> (nat \<Rightarrow> bool) \<Rightarrow> lease \<Rightarrow> lease vault_op" where
  "unlock_finish E aborted l =
     then_op (result_op (assert_operation_active (aborted 7))) (\<lambda>_.
     then_op (delete_authenticated_legacy_sync_database E l) (\<lambda>_.
     then_op (result_op (assert_operation_active (aborted 8))) (\<lambda>_.
     result_op (Inr l))))"

definition unlock_session ::
  "store_env \<Rightarrow> bool \<Rightarrow> (nat \<Rightarrow> bool) \<Rightarrow> locked_descriptor \<Rightarrow> session_unlock \<Rightarrow> lease vault_op" where
  "unlock_session E granted aborted d unlock =
     then_op (result_op (assert_operation_active (aborted 0))) (\<lambda>_.
     with_available_vault_ownership E granted aborted 1
       (then_op (stored_op (unlock_prepare E aborted d unlock)) (unlock_finish E aborted)))"

section \<open>Forgetting the local session\<close>

text \<open>The id, revision and scope of the tombstone that replaces whatever is stored.\<close>

definition forget_scope :: "store_env \<Rightarrow> string \<Rightarrow> jsval option \<Rightarrow> string \<times> int \<times> cleanup_scope" where
  "forget_scope E fresh_id stored =
     (case stored of
        None \<Rightarrow> (fresh_id, 1, AllOwned)
      | Some v \<Rightarrow>
          if is_known_kind v ''locked-matrix-session'' then
            (case validate_locked_record v of
               Inl e \<Rightarrow> (fresh_id, 1, AllOwned)
             | Inr r \<Rightarrow> (locked_record_id r, locked_revision r + 1, AllOwned))
          else if is_known_kind v ''matrix-session-tombstone'' then
            (case validate_tombstone v of
               Inl e \<Rightarrow> (fresh_id, 1, AllOwned)
             | Inr t \<Rightarrow> (tomb_record_id t, tomb_revision t + 1,
                 (case tomb_cleanup t of Some c \<Rightarrow> c | None \<Rightarrow> AllOwned)))
          else
            (case normalize_legacy_candidate E v of
               Inl e \<Rightarrow> (fresh_id, 1, AllOwned)
             | Inr c \<Rightarrow> (fresh_id, 1, ExactCleanup \<lparr>crypto_database_prefix = lc_prefix c,
                 legacy_sync_database = Some (lc_sync c)\<rparr>)))"

definition forget_action ::
  "store_env \<Rightarrow> entropy \<Rightarrow> jsval option \<Rightarrow> store_error + jsval \<times> cleanup_descriptor" where
  "forget_action E g stored =
     (case random_base64url_bytes (se_crypto E) 16 g of
        Inl e \<Rightarrow> store_fail Conflict ''The session-vault transaction was aborted.''
      | Inr (fresh_id, g') \<Rightarrow>
          (case forget_scope E fresh_id stored of (rid, revision, scope) \<Rightarrow>
             let t = \<lparr>tomb_record_id = rid, tomb_revision = revision, tomb_cleanup = Some scope\<rparr>
             in Inr (tombstone_js t, cleanup_description t scope)))"

definition forget_local_session :: "store_env \<Rightarrow> bool \<Rightarrow> entropy \<Rightarrow> cleanup_descriptor vault_op" where
  "forget_local_session E granted g =
     with_available_vault_ownership E granted (\<lambda>_. False) 0 (transact NoAbort (forget_action E g))"

section \<open>Cleanup\<close>

definition cleanup_scope_matches_descriptor :: "cleanup_scope option \<Rightarrow> cleanup_descriptor \<Rightarrow> bool" where
  "cleanup_scope_matches_descriptor pending d \<longleftrightarrow>
     (case pending of
        None \<Rightarrow> False
      | Some AllOwned \<Rightarrow> cd_scope d = ScopeAllOwned \<and> cd_prefix d = None \<and> cd_sync d = None
      | Some (ExactCleanup s) \<Rightarrow>
          cd_scope d = ScopeExact \<and> cd_prefix d = Some (crypto_database_prefix s) \<and>
          cd_sync d = legacy_sync_database s)"

definition finished_tombstone_js :: "string \<Rightarrow> int \<Rightarrow> jsval" where
  "finished_tombstone_js rid revision =
     JObj [(''kind'', JStr ''matrix-session-tombstone''), (''schemaVersion'', js_int vault_schema_version),
       (''recordId'', JStr rid), (''revision'', js_int revision)]"

definition marker_matches :: "tombstone \<Rightarrow> cleanup_descriptor \<Rightarrow> bool" where
  "marker_matches t d \<longleftrightarrow>
     tomb_record_id t = cd_record_id d \<and> tomb_revision t = cd_revision d \<and>
     cleanup_scope_matches_descriptor (tomb_cleanup t) d"

definition complete_local_session_cleanup :: "cleanup_descriptor \<Rightarrow> unit vault_op" where
  "complete_local_session_cleanup d =
     transact NoAbort (\<lambda>stored.
       case stored of
         None \<Rightarrow> store_fail Conflict ''The cleanup marker no longer exists.''
       | Some v \<Rightarrow>
           sum_bind (from_vault (validate_tombstone v)) (\<lambda>t.
             if \<not> marker_matches t d
             then store_fail Conflict ''The local-session cleanup marker changed before completion.''
             else Inr (finished_tombstone_js (tomb_record_id t) (tomb_revision t + 1), ())))"

definition owned_legacy_sync_database :: "string \<Rightarrow> bool" where
  "owned_legacy_sync_database name \<longleftrightarrow> legacy_sync_pattern name"

definition crypto_suffixes :: "string list" where
  "crypto_suffixes = [''::matrix-sdk-crypto'', ''::matrix-sdk-crypto-meta'']"

definition owned_rust_crypto_database :: "string \<Rightarrow> bool" where
  "owned_rust_crypto_database name \<longleftrightarrow>
     list_ex (\<lambda>s. suffix s name \<and> crypto_prefix_pattern (take (length name - length s) name)) crypto_suffixes"

definition owned_database :: "string \<Rightarrow> bool" where
  "owned_database name \<longleftrightarrow> owned_legacy_sync_database name \<or> owned_rust_crypto_database name"

definition enumerate_owned_matrix_databases :: "store_env \<Rightarrow> vault \<Rightarrow> store_error + string list" where
  "enumerate_owned_matrix_databases E v =
     (case se_enumeration E of
        CannotEnumerate \<Rightarrow> store_fail Unavailable
          ''This browser cannot enumerate Sub-Etha databases for a safe reset. Clear this site's data in browser settings.''
      | EnumerationFails \<Rightarrow> store_fail Unavailable
          ''Sub-Etha databases could not be enumerated for reset. Clear this site's data in browser settings.''
      | Enumerates \<Rightarrow> Inr (filter owned_database (va_databases v)))"

text \<open>The names a pending cleanup covers; \<open>filter(Boolean)\<close> drops a missing or empty one.\<close>

definition exact_cleanup_names :: "vault_storage \<Rightarrow> string list" where
  "exact_cleanup_names s =
     filter (\<lambda>n. n \<noteq> [])
       ((case legacy_sync_database s of None \<Rightarrow> [] | Some n \<Rightarrow> [n]) @
        map (\<lambda>x. crypto_database_prefix s @ x) crypto_suffixes)"

definition cleanup_names :: "store_env \<Rightarrow> cleanup_descriptor \<Rightarrow> vault \<Rightarrow> store_error + string list" where
  "cleanup_names E d v =
     (case va_stored v of
        None \<Rightarrow> store_fail Conflict ''The cleanup marker no longer exists.''
      | Some x \<Rightarrow>
          sum_bind (from_vault (validate_tombstone x)) (\<lambda>t.
            if \<not> marker_matches t d
            then store_fail Conflict ''The local-session cleanup marker changed before database cleanup.''
            else case tomb_cleanup t of
              None \<Rightarrow> store_fail Corrupt ''The cleanup marker has no pending cleanup scope.''
            | Some AllOwned \<Rightarrow> enumerate_owned_matrix_databases E v
            | Some (ExactCleanup s) \<Rightarrow> Inr (exact_cleanup_names s)))"

text \<open>\<^verbatim>\<open>Promise.allSettled\<close>: every deletion is tried, and whether one failed is remembered.\<close>

fun delete_all :: "store_env \<Rightarrow> string list \<Rightarrow> vault \<Rightarrow> bool \<times> vault" where
  "delete_all E [] v = (False, v)"
| "delete_all E (n # ns) v =
     (case delete_database_strict E n v of
        (r, v') \<Rightarrow> (case delete_all E ns v' of
          (failed, v'') \<Rightarrow> (failed \<or> (case r of Inl e \<Rightarrow> True | Inr _ \<Rightarrow> False), v'')))"

definition cleanup_session_databases_with_ownership :: "store_env \<Rightarrow> cleanup_descriptor \<Rightarrow> unit vault_op" where
  "cleanup_session_databases_with_ownership E d v =
     (case cleanup_names E d v of
        Inl e \<Rightarrow> (Inl e, v)
      | Inr names \<Rightarrow>
          (case delete_all E names v of
             (failed, v') \<Rightarrow>
               (if failed then store_fail Unavailable ''One or more local session databases could not be removed.''
                else Inr (), v')))"

definition cleanup_session_databases :: "store_env \<Rightarrow> bool \<Rightarrow> cleanup_descriptor \<Rightarrow> unit vault_op" where
  "cleanup_session_databases E granted d =
     with_available_vault_ownership E granted (\<lambda>_. False) 0 (cleanup_session_databases_with_ownership E d)"

definition cleanup_exact_session_databases_while_holding_vault_lock ::
  "store_env \<Rightarrow> cleanup_descriptor \<Rightarrow> unit vault_op" where
  "cleanup_exact_session_databases_while_holding_vault_lock E d =
     (if cd_scope d \<noteq> ScopeExact
      then result_op (store_fail InvalidInput ''Held-lock cleanup is limited to an authenticated exact session.'')
      else cleanup_session_databases_with_ownership E d)"

section \<open>Tokens and new sessions\<close>

definition generate_recovery_key :: "web_crypto \<Rightarrow> entropy \<Rightarrow> vault_error + string \<times> entropy" where
  "generate_recovery_key cr g = random_base64url_bytes cr 32 g"

definition random_base64url :: "web_crypto \<Rightarrow> jsnum \<Rightarrow> entropy \<Rightarrow> vault_error + string \<times> entropy" where
  "random_base64url cr byte_length g =
     (case byte_length of
        Fin q \<Rightarrow>
          if \<not> is_safe_integer byte_length \<or> q < 1 \<or> q > 65536
          then Inl (VaultError InvalidInput ''The random-byte length is invalid.'')
          else random_base64url_bytes cr (nat \<lfloor>q\<rfloor>) g
      | _ \<Rightarrow> Inl (VaultError InvalidInput ''The random-byte length is invalid.''))"

definition base64url_to_bytes :: "jsval \<Rightarrow> vault_error + bytes" where
  "base64url_to_bytes v = decode_canonical v ''Base64URL value'' None None 65536"

text \<open>\<open>createSession\<close> adds a fresh storage key and database prefix to the input.\<close>

definition create_session ::
  "web_crypto \<Rightarrow> persisted_session \<Rightarrow> entropy \<Rightarrow> vault_error + persisted_session \<times> entropy" where
  "create_session cr input g =
     sum_bind (random_base64url cr (Fin 32) g) (\<lambda>(key, g).
     sum_bind (random_base64url cr (Fin 16) g) (\<lambda>(name, g).
     Inr (input\<lparr>ses_crypto_storage_key := key, ses_crypto_database_prefix := ''sub-etha-crypto-'' @ name\<rparr>, g)))"

end
