(* ===== verification/Json_Roundtrip.thy ===== *)
theory Json_Roundtrip
  imports Json_Text
begin

text \<open>
  Printed JSON is parsed back: the parser of \<open>Json_Text\<close> returns every plain value from the text
  \<open>json_string\<close> prints for it, whatever delimiter follows, and the UTF-8 decoder returns every
  text from its encoding.
\<close>

section \<open>Plain values\<close>

text \<open>Values that JSON can carry without loss: no undefined, no holes, whole numbers, unique keys.\<close>

fun plain :: "jsval \<Rightarrow> bool"
and plain_items :: "jsval option list \<Rightarrow> bool"
and plain_members :: "(string \<times> jsval) list \<Rightarrow> bool" where
  "plain JUndef = False"
| "plain JNull = True"
| "plain (JBool b) = True"
| "plain (JNum n) = (case n of Fin q \<Rightarrow> q = of_int \<lfloor>q\<rfloor> | _ \<Rightarrow> False)"
| "plain (JStr s) = True"
| "plain (JArr xs ps) = (ps = [] \<and> plain_items xs)"
| "plain (JObj ps) = (distinct (map fst ps) \<and> plain_members ps)"
| "plain (JBuf bs) = False"
| "plain_items [] = True"
| "plain_items (x # xs) = ((case x of None \<Rightarrow> False | Some v \<Rightarrow> plain v) \<and> plain_items xs)"
| "plain_members [] = True"
| "plain_members (p # ps) = ((case p of (k, v) \<Rightarrow> plain v) \<and> plain_members ps)"

definition follow :: "string \<Rightarrow> bool" where
  "follow r \<longleftrightarrow> r = [] \<or> hd r = CHR '','' \<or> hd r = CHR '']'' \<or> hd r = CHR ''}''"

lemma follow_simps [simp]: "follow []" "follow (CHR '','' # r)" "follow (CHR '']'' # r)" "follow (CHR ''}'' # r)"
  by (simp_all add: follow_def)

section \<open>Characters and tokens\<close>

lemma skip_space_Cons [simp]: "\<not> is_json_space c \<Longrightarrow> skip_space (c # cs) = c # cs"
  by (simp add: skip_space_def)

lemma not_space [simp]:
  "\<not> is_json_space (CHR 0x22)" "\<not> is_json_space (CHR ''['')" "\<not> is_json_space (CHR '']'')"
  "\<not> is_json_space (CHR ''{'')" "\<not> is_json_space (CHR ''}'')" "\<not> is_json_space (CHR '','')"
  "\<not> is_json_space (CHR '':'')" "\<not> is_json_space (CHR ''n'')" "\<not> is_json_space (CHR ''t'')"
  "\<not> is_json_space (CHR ''f'')" "\<not> is_json_space (CHR ''-'')" "is_digit d \<Longrightarrow> \<not> is_json_space d"
  by (auto simp: is_json_space_def code_of_def is_digit_def)

lemma expect_Cons [simp]: "\<not> is_json_space d \<Longrightarrow> expect c (d # r) = (if d = c then Some r else None)"
  by (simp add: expect_def)

lemma hex_digit_value_digit: "n < 16 \<Longrightarrow> hex_digit_value (hex_digit n) = Some n"
  by (auto simp: hex_digit_value_def hex_digit_def is_radix_digit_def digit_val_def is_digit_def is_lower_def
      code_of_def)

lemma hex_zero: "hex_digit_value (CHR ''0'') = Some 0"
  by (simp add: hex_digit_value_def is_radix_digit_def digit_val_def is_digit_def code_of_def)

lemma json_chars_escape: "json_chars (escape_char c @ x) = cons_char c (json_chars x)"
proof -
  define n where "n = code_of c"
  have h: "code_of c = n" by (simp add: n_def)
  have code: "code_of (CHR 0x5C) = 92" "code_of (CHR 0x22) = 34" "code_of (CHR ''u'') = 117"
    "code_of (CHR ''b'') = 98" "code_of (CHR ''t'') = 116" "code_of (CHR ''n'') = 110"
    "code_of (CHR ''f'') = 102" "code_of (CHR ''r'') = 114"
    by (simp_all add: code_of_def)
  have char: "char_of n = c" unfolding n_def code_of_def by simp
  have c: "c = CHR 0x22 \<longleftrightarrow> n = 34" "c = CHR 0x5C \<longleftrightarrow> n = 92"
    unfolding code_of_inject [symmetric] h by (simp_all add: code_of_def)
  consider "n = 34" | "n = 92" | "n = 8" | "n = 9" | "n = 10" | "n = 12" | "n = 13"
    | "n < 32" "n \<notin> {34, 92, 8, 9, 10, 12, 13}" | "\<not> n < 32" "n \<notin> {34, 92}" by blast
  then show ?thesis
  proof cases
    case 8
    then have "n div 16 < 16" "n mod 16 < 16" by auto
    then have "hex4 (CHR ''0'') (CHR ''0'') (hex_digit (n div 16)) (hex_digit (n mod 16)) = Some c"
      by (simp add: hex4_def hex_zero hex_digit_value_digit char)
    then show ?thesis using 8 by (simp add: escape_char_def Let_def h)
  qed (use char c in \<open>auto simp: escape_char_def Let_def h simple_escape_def code\<close>)
qed

lemma json_chars_quoted: "json_chars (concat (map escape_char s) @ CHR 0x22 # r) = Some (s, r)"
  by (induction s) (simp_all add: json_chars_escape cons_char_def)

lemma json_quote_append: "json_quote s @ r = CHR 0x22 # (concat (map escape_char s) @ CHR 0x22 # r)"
  by (simp add: json_quote_def)

lemma json_value_quote: "json_value (json_quote s @ r) = Some (JStr s, r)"
  unfolding json_quote_append by (subst json_value.simps) (simp add: json_chars_quoted)

section \<open>Numbers\<close>

lemma digits_then:
  assumes "follow r"
  shows "takeWhile is_digit (nat_digits n @ r) = nat_digits n" "dropWhile is_digit (nat_digits n @ r) = r"
proof -
  have "r = [] \<or> \<not> is_digit (hd r)" using assms by (auto simp: follow_def is_digit_def code_of_def)
  then show "takeWhile is_digit (nat_digits n @ r) = nat_digits n" "dropWhile is_digit (nat_digits n @ r) = r"
    using takeWhile_delimited [of is_digit "nat_digits n" r] nat_digits_value by blast+
qed

lemma leading_zero: "hd (nat_digits n) = CHR ''0'' \<Longrightarrow> length (nat_digits n) \<le> 1"
proof (induction n rule: nat_digits.induct)
  case (1 n)
  show ?case
  proof (cases "n < 10")
    case True
    then show ?thesis by (subst nat_digits.simps) simp
  next
    case False
    then have eq: "nat_digits n = nat_digits (n div 10) @ [char_of (48 + n mod 10)]"
      by (subst nat_digits.simps) simp
    have ne: "nat_digits (n div 10) \<noteq> []" using nat_digits_value by blast
    then have "hd (nat_digits (n div 10)) = CHR ''0''" using 1 eq by simp
    then have "length (nat_digits (n div 10)) \<le> 1" using 1 False by blast
    then have "nat_digits (n div 10) = ''0''" using \<open>hd (nat_digits (n div 10)) = CHR ''0''\<close> ne
      by (cases "nat_digits (n div 10)") auto
    then have "n div 10 = 0" using nat_digits_value [of "n div 10"] by (simp add: digits_value_def digit_val_def is_digit_def code_of_def)
    then show ?thesis using False by simp
  qed
qed

lemma fraction_follow: "follow r \<Longrightarrow> json_fraction r = Some ([], r)"
  and exponent_follow: "follow r \<Longrightarrow> json_exponent r = Some (0, r)"
  by (auto simp: follow_def json_fraction_def json_exponent_def split: list.splits)

lemma not_minus: "hd (nat_digits n @ r) \<noteq> CHR ''-''"
proof -
  have "is_digit (hd (nat_digits n))" using nat_digits_value [of n] by (cases "nat_digits n") auto
  then show ?thesis using nat_digits_value [of n] by (auto simp: is_digit_def code_of_def)
qed

lemma json_number_digits:
  assumes "follow r"
  shows "json_number (nat_digits n @ r) = Some (JNum (Fin (of_nat n)), r)"
    and "json_number (CHR ''-'' # nat_digits n @ r) = Some (JNum (Fin (- of_nat n)), r)"
proof -
  have lead: "\<not> (hd (nat_digits n) = CHR ''0'' \<and> Suc 0 < length (nat_digits n))"
    using leading_zero [of n] by auto
  have d: "digits_value 10 (nat_digits n) = n" "nat_digits n \<noteq> []" using nat_digits_value by blast+
  note facts = digits_then [OF assms] fraction_follow [OF assms] exponent_follow [OF assms]
  show "json_number (nat_digits n @ r) = Some (JNum (Fin (of_nat n)), r)"
    using not_minus [of n r] lead by (auto simp: json_number_def facts d Let_def pow10_def)
  show "json_number (CHR ''-'' # nat_digits n @ r) = Some (JNum (Fin (- of_nat n)), r)"
    using lead by (auto simp: json_number_def facts d Let_def pow10_def)
qed

lemma json_number_int:
  assumes "follow r"
  shows "json_number (int_digits i @ r) = Some (js_int i, r)"
proof (cases "i < 0")
  case True
  then have "- (of_nat (nat (- i)) :: rat) = of_int i" by (simp add: of_nat_nat)
  then show ?thesis using True json_number_digits(2) [OF assms, of "nat (- i)"] by (simp add: int_digits_def js_int_def)
next
  case False
  then have "(of_nat (nat i) :: rat) = of_int i" by (simp add: of_nat_nat)
  then show ?thesis using False json_number_digits(1) [OF assms, of "nat i"] by (simp add: int_digits_def js_int_def)
qed

lemma json_value_int:
  assumes "follow r"
  shows "json_value (int_digits i @ r) = Some (js_int i, r)"
proof -
  obtain c cs where s: "int_digits i @ r = c # cs" and n: "is_number_char c"
    using int_digits_chars [of i] by (cases "int_digits i") auto
  then have "\<not> is_json_space c" "c \<notin> {CHR 0x22, CHR ''['', CHR ''{'', CHR ''n'', CHR ''t'', CHR ''f''}"
    by (auto simp: is_number_char_def is_json_space_def is_digit_def code_of_def)
  then have "json_value (c # cs) = json_number (c # cs)"
    by (subst json_value.simps) (simp add: prefix_def)
  then show ?thesis using json_number_int [OF assms, of i] s by simp
qed

section \<open>Values\<close>

lemma json_value_word:
  "json_value (''null'' @ r) = Some (JNull, r)" "json_value (''true'' @ r) = Some (JBool True, r)"
  "json_value (''false'' @ r) = Some (JBool False, r)"
  by (subst json_value.simps, simp)+

lemma int_no_bracket:
  "hd (int_digits i @ r) \<noteq> CHR '']''" "hd (int_digits i @ r) \<noteq> CHR ''}''" "\<not> is_json_space (hd (int_digits i @ r))"
proof -
  have "is_number_char (hd (int_digits i @ r))" using int_digits_chars [of i] by (cases "int_digits i") auto
  then show "hd (int_digits i @ r) \<noteq> CHR '']''" "hd (int_digits i @ r) \<noteq> CHR ''}''" "\<not> is_json_space (hd (int_digits i @ r))"
    by (auto simp: is_number_char_def is_digit_def is_json_space_def code_of_def)
qed

lemma plain_starts:
  assumes "plain v"
  shows "\<exists>c cs. json_string v = c # cs \<and> c \<noteq> CHR '']'' \<and> \<not> is_json_space c"
proof (cases v)
  case (JNum n)
  then obtain q where "n = Fin q" using assms by (cases n) auto
  then show ?thesis using int_no_bracket [of "\<lfloor>q\<rfloor>" "[]"] int_digits_chars [of "\<lfloor>q\<rfloor>"] JNum
    by (cases "int_digits \<lfloor>q\<rfloor>") auto
qed (use assms in \<open>auto simp: json_quote_def\<close>)

lemma put_member_fresh: "k \<notin> set (map fst ps) \<Longrightarrow> put_member ps (k, v) = ps @ [(k, v)]"
  by (simp add: put_member_def)

lemma put_members_distinct:
  "distinct (map fst (qs @ ps)) \<Longrightarrow> foldl put_member qs ps = qs @ ps"
proof (induction ps arbitrary: qs)
  case (Cons p ps)
  obtain k v where p: "p = (k, v)" by (cases p)
  have "put_member qs p = qs @ [p]" using Cons.prems p by (simp add: put_member_fresh)
  then show ?case using Cons.IH [of "qs @ [p]"] Cons.prems by simp
qed simp

lemma expect_no_bracket:
  assumes "plain v"
  shows "expect (CHR '']'') (json_string v @ r) = None"
  using plain_starts [OF assms] by auto

lemma plain_not_undef: "plain v \<Longrightarrow> v \<noteq> JUndef"
  by auto

lemma json_value_printed:
  "plain v \<Longrightarrow> follow r \<Longrightarrow> json_value (json_string v @ r) = Some (v, r)"
  "plain_items xs \<Longrightarrow> xs \<noteq> [] \<Longrightarrow>
     json_elements (comma_join (json_items xs) @ CHR '']'' # r) = Some (map the xs, r)"
  "plain_members ps \<Longrightarrow> ps \<noteq> [] \<Longrightarrow>
     json_pairs (comma_join (json_members ps) @ CHR ''}'' # r) = Some (ps, r)"
proof (induction v and xs and ps arbitrary: r and r and r rule: json_string_json_items_json_members.induct)
  case 1
  then show ?case by simp
next
  case (4 n)
  then obtain q where "n = Fin q" "q = of_int \<lfloor>q\<rfloor>" by (cases n) auto
  then show ?case using json_value_int [OF 4(2), of "\<lfloor>q\<rfloor>"] by (simp add: js_int_def)
next
  case (5 s)
  then show ?case by (simp add: json_value_quote)
next
  case (6 xs ps)
  show ?case
  proof (cases xs)
    case Nil
    then show ?thesis using 6(2) by (subst json_value.simps) (simp add: js_array_def)
  next
    case (Cons x ys)
    then obtain v where x: "x = Some v" "plain v" using 6(2) by (cases x) auto
    have no: "expect (CHR '']'') (comma_join (json_items xs) @ CHR '']'' # r) = None"
      using expect_no_bracket [OF x(2)] Cons x(1) by (simp add: comma_join_Cons)
    have some: "map Some (map the xs) = xs"
    proof -
      have "plain_items zs \<Longrightarrow> map Some (map the zs) = zs" for zs
        by (induction zs) (auto split: option.splits)
      then show ?thesis using 6(2) by simp
    qed
    have "json_elements (comma_join (json_items xs) @ CHR '']'' # r) = Some (map the xs, r)"
      using 6(1) 6(2) Cons by simp
    then show ?thesis using no some 6(2) by (subst json_value.simps) (simp add: js_array_def)
  qed
next
  case (7 ps)
  show ?case
  proof (cases ps)
    case Nil
    then show ?thesis by (subst json_value.simps) simp
  next
    case (Cons p qs)
    obtain k v where p: "p = (k, v)" by (cases p)
    have "v \<noteq> JUndef" using 7(2) Cons p by (auto dest: plain_not_undef)
    then have no: "expect (CHR ''}'') (comma_join (json_members ps) @ CHR ''}'' # r) = None"
      using Cons p by (simp add: comma_join_Cons json_quote_def)
    have "json_pairs (comma_join (json_members ps) @ CHR ''}'' # r) = Some (ps, r)"
      using 7(1) 7(2) Cons by simp
    moreover have "foldl put_member [] ps = ps" using put_members_distinct [of "[]" ps] 7(2) by simp
    ultimately show ?thesis using no by (subst json_value.simps) simp
  qed
next
  case (10 x xs)
  obtain v where x: "x = Some v" "plain v" using 10(3) by (cases x) auto
  show ?case
  proof (cases xs)
    case Nil
    have "json_value (json_string v @ CHR '']'' # r) = Some (v, CHR '']'' # r)"
      using 10(1) [of v "CHR '']'' # r"] x by simp
    then show ?thesis using x Nil by (subst json_elements.simps) simp
  next
    case (Cons y ys)
    let ?t = "comma_join (json_items xs) @ CHR '']'' # r"
    have v: "json_value (json_string v @ CHR '','' # ?t) = Some (v, CHR '','' # ?t)"
      using 10(1) [of v "CHR '','' # ?t"] x by simp
    have t: "json_elements ?t = Some (map the xs, r)" using 10(2) 10(3) Cons by simp
    have eq: "comma_join (json_items (x # xs)) @ CHR '']'' # r = json_string v @ CHR '','' # ?t"
      using x Cons by (simp add: comma_join_Cons)
    have "length ?t < length (json_string v @ CHR '','' # ?t)" by simp
    then show ?thesis unfolding eq using v t x(1) by (subst json_elements.simps) simp
  qed
next
  case (12 p ps)
  obtain k v where p: "p = (k, v)" by (cases p)
  have pl: "plain v" "plain_members ps" using "12.prems" p by simp_all
  then have v: "v \<noteq> JUndef" by (auto dest: plain_not_undef)
  have val: "json_value (json_string v @ t) = Some (v, t)" if "follow t" for t
    by (rule "12.IH"(2) [OF p [symmetric] v pl(1) that])
  show ?case
  proof (cases ps)
    case Nil
    have eq: "comma_join (json_members (p # ps)) @ CHR ''}'' # r =
        CHR 0x22 # concat (map escape_char k) @ CHR 0x22 # CHR '':'' # json_string v @ CHR ''}'' # r"
      using p v Nil by (simp add: json_quote_def)
    show ?thesis unfolding eq using p Nil by (subst json_pairs.simps) (simp add: json_chars_quoted val)
  next
    case (Cons q qs)
    let ?t = "comma_join (json_members ps) @ CHR ''}'' # r"
    have "\<exists>m ms. json_members ps = m # ms"
    proof -
      have "snd q \<noteq> JUndef" using pl(2) Cons by (cases q) (auto dest: plain_not_undef)
      then show ?thesis using Cons by (cases q) simp
    qed
    then have eq: "comma_join (json_members (p # ps)) @ CHR ''}'' # r =
        CHR 0x22 # concat (map escape_char k) @ CHR 0x22 # CHR '':'' # json_string v @ CHR '','' # ?t"
      using p v by (auto simp: json_quote_def)
    have t: "json_pairs ?t = Some (ps, r)"
      by (rule "12.IH"(3) [OF p [symmetric] v pl(2)]) (simp add: Cons)
    show ?thesis unfolding eq using p by (subst json_pairs.simps) (simp add: json_chars_quoted val t)
  qed
qed (use json_value_word in simp_all)

theorem json_parse_printed: "plain v \<Longrightarrow> json_parse (json_string v) = Some v"
  using json_value_printed(1) [of v "[]"] by (simp add: json_parse_def skip_space_def)

section \<open>Bytes\<close>

lemma utf8_decode_char: "utf8_decode (utf8_char c @ x) = map_option (Cons c) (utf8_decode x)"
proof -
  have code: "char_of (code_of c) = c" by (simp add: code_of_def)
  show ?thesis
  proof (cases "code_of c < 128")
    case True
    then show ?thesis using code by (simp add: utf8_char_def Let_def unat_byte)
  next
    case False
    have l: "code_of c < 256" by (rule code_of_less)
    then have d: "code_of c div 64 = 2 \<or> code_of c div 64 = 3" using False by auto
    have m: "code_of c mod 64 < 64" by simp
    have u: "unat (word_of_nat (192 + code_of c div 64) :: 8 word) = 192 + code_of c div 64"
      "unat (word_of_nat (128 + code_of c mod 64) :: 8 word) = 128 + code_of c mod 64"
      using d m by (auto simp only: intro!: unat_byte)
    have "code_of c div 64 * 64 + code_of c mod 64 = code_of c" by simp
    then show ?thesis
      using False d m code
      by (simp add: utf8_char_def Let_def u del: of_nat_add)
  qed
qed

lemma utf8_decode_utf8: "utf8_decode (utf8 s) = Some s"
  by (induction s) (simp_all add: utf8_def utf8_decode_char)

lemma no_byte_order_mark: "\<not> prefix [239, 187, 191] (utf8 s)"
proof
  assume p: "prefix [239, 187, 191] (utf8 s)"
  then obtain c t where s: "s = c # t" by (cases s) (auto simp: utf8_def)
  then have "hd (utf8_char c) = 239" using p by (cases "utf8_char c") (auto simp: utf8_def utf8_char_def Let_def split: if_splits)
  then have "unat (hd (utf8_char c)) = 239" by simp
  moreover have "unat (hd (utf8_char c)) < 196"
  proof (cases "code_of c < 128")
    case False
    have "code_of c div 64 < 4" using code_of_less [of c] by (simp add: div_less_iff_less_mult)
    moreover from this have "unat (word_of_nat (192 + code_of c div 64) :: 8 word) = 192 + code_of c div 64"
      by (intro unat_byte) linarith
    ultimately show ?thesis using False by (simp add: utf8_char_def Let_def del: of_nat_add)
  qed (simp add: utf8_char_def Let_def unat_byte)
  ultimately show False by simp
qed

lemma text_decode_utf8: "text_decode (utf8 s) = Some s"
  by (simp add: text_decode_def no_byte_order_mark utf8_decode_utf8)

end
