(* ===== verification/Vault_Sealing.thy ===== *)
theory Vault_Sealing
  imports Vault_Crypto Json_Roundtrip Vault_Contracts
begin

text \<open>
  What sealing promises, under the documented behaviour of AES-GCM: whoever holds the recovery key,
  or the authenticator of the enrolled slot, gets the data key back, and the data key opens the
  payload to the session that was sealed.
\<close>

section \<open>Laws of the cipher\<close>

text \<open>Decryption inverts encryption, and the ciphertext is the text and a tag of sixteen bytes.\<close>

definition aead_laws :: "web_crypto \<Rightarrow> bool" where
  "aead_laws cr \<longleftrightarrow>
     wc_available cr \<and>
     (\<forall>key iv aad p. wc_decrypt cr key iv aad (wc_encrypt cr key iv aad p) = Some p \<and>
        length (wc_encrypt cr key iv aad p) = length p + 16)"

lemma aead_lawsD:
  assumes "aead_laws cr"
  shows "require_web_crypto cr = Inr ()" "wc_decrypt cr key iv aad (wc_encrypt cr key iv aad p) = Some p"
    "length (wc_encrypt cr key iv aad p) = length p + 16"
  using assms by (auto simp: aead_laws_def require_web_crypto_def)

lemma random_Inr: "random_bytes cr n g = Inr (bs, g') \<Longrightarrow> length bs = n"
  by (auto simp: random_bytes_def sum_bind_Inr_iff)

lemma random64_Inr:
  "random_base64url_bytes cr n g = Inr (s, g') \<Longrightarrow> \<exists>bs. s = encode_base64url bs \<and> length bs = n"
  by (auto simp: random_base64url_bytes_def sum_bind_Inr_iff dest!: random_Inr)

lemma pair_bind_Inr:
  "sum_bind m (\<lambda>(x, y). f x y) = Inr z \<longleftrightarrow> (\<exists>x y. m = Inr (x, y) \<and> f x y = Inr z)"
  by (auto simp: sum_bind_Inr_iff)

lemma box_opens:
  assumes laws: "aead_laws cr" and box: "aes_encrypt cr key p aad g = Inr (box, g')" and limit: "length p \<le> limit"
  shows "aes_decrypt cr key box aad limit = Inr p"
proof -
  obtain iv where iv: "length iv = iv_bytes"
    and b: "box = \<lparr>box_algorithm = ''AES-256-GCM'', box_iv = encode_base64url iv,
      box_ciphertext = encode_base64url (wc_encrypt cr key iv aad p)\<rparr>"
    using box by (auto simp: aes_encrypt_def pair_bind_Inr sum_bind_Inr_iff dest!: random_Inr)
  have "decode_canonical (JStr (encode_base64url iv)) f (Some iv_bytes) None iv_bytes = Inr iv" for f
    using iv by (subst decode_exact_Inr) (auto simp: iv_bytes_def)
  moreover have "decode_canonical (JStr (encode_base64url (wc_encrypt cr key iv aad p))) f None (Some 16) (limit + 16) =
      Inr (wc_encrypt cr key iv aad p)" for f
    using aead_lawsD(3) [OF laws, of key iv aad p] limit by (subst decode_range_Inr) auto
  ultimately show ?thesis
    using limit by (simp add: aes_decrypt_def b aead_lawsD [OF laws])
qed

section \<open>The sealed session\<close>

definition defined_members :: "jsval \<Rightarrow> jsval" where
  "defined_members v = (case v of JObj ps \<Rightarrow> JObj (filter (\<lambda>p. snd p \<noteq> JUndef) ps) | _ \<Rightarrow> v)"

lemma json_members_defined: "json_members (filter (\<lambda>p. snd p \<noteq> JUndef) ps) = json_members ps"
  by (induction ps) (auto split: prod.splits)

lemma json_string_defined: "json_string (defined_members v) = json_string v"
  by (cases v) (simp_all add: defined_members_def json_members_defined)

lemma plain_members_append [simp]: "plain_members (ps @ qs) = (plain_members ps \<and> plain_members qs)"
  by (induction ps) auto

lemma plain_js_int [simp]: "plain (js_int i)"
  by (simp add: js_int_def)

lemma plain_strings [simp]: "plain (strings_js xs)"
proof -
  have "plain_items (map Some (map JStr xs))" by (induction xs) simp_all
  then show ?thesis by (simp add: strings_js_def js_array_def)
qed

lemma plain_present: "(\<And>x. plain (f x)) \<Longrightarrow> plain_members (present k f r)"
  by (cases r) (simp_all add: present_def)

lemma plain_metadata: "plain (metadata_js m)"
proof -
  have "\<exists>ps. metadata_js m = JObj ps \<and> distinct (map fst ps)"
    by (auto simp: metadata_js_def present_def split: option.splits)
  moreover have "\<And>ps. metadata_js m = JObj ps \<Longrightarrow> plain_members ps"
    by (auto simp: metadata_js_def intro!: plain_present)
  ultimately show ?thesis by auto
qed

lemma plain_session: "plain (defined_members (session_js s))"
proof -
  have o: "plain (oauth_js c)" for c by (simp add: oauth_js_def plain_metadata)
  have u: "oauth_js c \<noteq> JUndef" "js_int i \<noteq> JUndef" for c i by (simp_all add: oauth_js_def js_int_def)
  show ?thesis
    by (auto simp: defined_members_def session_js_def or_undefined_def o u split: option.split)
qed

text \<open>What is read back from the plaintext of a session.\<close>

definition reparsed :: "persisted_session \<Rightarrow> jsval" where
  "reparsed s = defined_members (session_js s)"

lemma session_text_reparsed: "json_parse (json_string (session_js s)) = Some (reparsed s)"
  using json_parse_printed [OF plain_session [of s]] by (simp add: json_string_defined reparsed_def)

lemma map_of_defined:
  "distinct (map fst ps) \<Longrightarrow>
     (case map_of (filter (\<lambda>p. snd p \<noteq> JUndef) ps) k of None \<Rightarrow> JUndef | Some x \<Rightarrow> x) =
     (case map_of ps k of None \<Rightarrow> JUndef | Some x \<Rightarrow> x)"
proof (induction ps)
  case (Cons p ps)
  have "map_of (filter (\<lambda>p. snd p \<noteq> JUndef) ps) k = None" if "k \<notin> set (map fst ps)"
    using that by (auto simp: map_of_eq_None_iff)
  moreover have "map_of ps k = None" if "k \<notin> set (map fst ps)" using that by (auto simp: map_of_eq_None_iff)
  ultimately show ?case using Cons by (cases p) auto
qed simp

lemma session_normalized_again:
  assumes "safe_session p s" and "text_upto 4096 (ses_base_url s)"
    and "assert_allowed_homeserver_url p production origin (ses_base_url s) = Inr (ses_base_url s)"
    and "derived \<in> {None, Some (ses_crypto_database_prefix s)}"
  shows "normalize_persisted_session p production origin require derived (reparsed s) = Inr s"
proof -
  obtain ps where ps: "session_js s = JObj ps" by (simp add: session_js_def)
  then have d: "distinct (map fst ps)" by (auto simp: session_js_def)
  have sub: "set (object_keys (reparsed s)) \<subseteq> set (object_keys (session_js s))"
    by (auto simp: reparsed_def defined_members_def ps)
  have req: "set session_required \<subseteq> set (object_keys (reparsed s))"
    by (simp add: reparsed_def defined_members_def session_js_def session_required_def)
  show ?thesis
    using assms by (rule session_view_complete)
      (use sub req map_of_defined [OF d] in \<open>simp_all add: reparsed_def defined_members_def ps\<close>)
qed

section \<open>Opening what was sealed\<close>

lemma slot_data_without_dek [simp]:
  "slot_additional_data rid (with_wrapped_dek s box) = slot_additional_data rid s"
  by (cases s) (simp_all add: slot_additional_data_def slot_fields_def with_wrapped_dek_def)

lemma wrapped_opens:
  assumes "aead_laws cr" and "wrap_dek cr kek dek aad g = Inr (box, g')" and "length dek = dek_bytes"
  shows "unwrap_dek cr kek box aad = Inr dek"
  using box_opens [OF assms(1) assms(2) [unfolded wrap_dek_def], of dek_bytes] assms(3)
  by (simp add: unwrap_dek_def)

lemma payload_opens:
  assumes laws: "aead_laws cr" and text': "session_plaintext s = Inr p"
    and box: "aes_encrypt cr dek p
      (payload_additional_data (locked_record_id r) (locked_revision r) (locked_storage r) (locked_slots r)) g =
        Inr (locked_payload r, g')"
  shows "decrypt_session_payload cr r dek = Inr (reparsed s)"
proof -
  have p: "p = utf8 (json_string (session_js s))" "length p \<le> max_payload_bytes"
    using text' by (auto simp: session_plaintext_def Let_def split: if_splits)
  show ?thesis
    using box_opens [OF laws box p(2)]
    by (simp add: decrypt_session_payload_def p(1) text_decode_utf8 session_text_reparsed)
qed

lemma seal_prf_slot_Inr:
  assumes "seal_prf_slot cr rid dek en g = Inr (s, g')"
  shows "\<exists>w kek h h'. s = PrfSlot w \<and> prf_input en = wa_prf_input w \<and>
     derive_webauthn_kek cr rid (wa_slot_id w) (enrolled_prf_output en) (wa_hkdf_salt w) = Inr kek \<and>
     wrap_dek cr kek dek (slot_additional_data rid s) h = Inr (wa_wrapped_dek w, h') \<and>
     slot_input w = prf_slot_input.truncate en"
  using assms
  by (auto simp: seal_prf_slot_def pair_bind_Inr sum_bind_Inr_iff Let_def with_wrapped_dek_def slot_input_def
      prf_slot_input.defs slot_additional_data_def slot_fields_def) blast

lemma sealed_parts:
  assumes "create_sealed_record cr session storage key en g = Inr (r, dek)"
  shows "\<exists>slot kek h h' rest p h1 h2. locked_slots r = RecoverySlot slot # rest \<and> length dek = dek_bytes \<and>
     derive_recovery_kek cr key (rk_salt slot) = Inr kek \<and>
     wrap_dek cr kek dek (slot_additional_data (locked_record_id r) (RecoverySlot slot)) h = Inr (rk_wrapped_dek slot, h') \<and>
     session_plaintext session = Inr p \<and>
     aes_encrypt cr dek p
       (payload_additional_data (locked_record_id r) (locked_revision r) (locked_storage r) (locked_slots r)) h1 =
         Inr (locked_payload r, h2) \<and>
     locked_storage r = storage \<and> locked_revision r = 1 \<and>
     (case en of None \<Rightarrow> rest = []
      | Some e \<Rightarrow> \<exists>s h3 h4. rest = [s] \<and> seal_prf_slot cr (locked_record_id r) dek e h3 = Inr (s, h4))"
proof (cases en)
  case None
  show ?thesis
    using assms unfolding create_sealed_record_def None
    by (auto simp: pair_bind_Inr sum_bind_Inr_iff Let_def with_wrapped_dek_def import_aes_key_def
        slot_additional_data_def slot_fields_def dest!: random_Inr) blast+
next
  case (Some e)
  show ?thesis
    using assms unfolding create_sealed_record_def Some
    by (auto simp: pair_bind_Inr sum_bind_Inr_iff Let_def with_wrapped_dek_def import_aes_key_def
        slot_additional_data_def slot_fields_def dest!: random_Inr) blast+
qed

lemma sealed_recovery_opens:
  assumes laws: "aead_laws cr" and sealed: "create_sealed_record cr session storage key en g = Inr (r, dek)"
  shows "unlock_dek_with_recovery_key cr r key None = Inr dek"
proof -
  obtain slot kek h h' rest where parts: "locked_slots r = RecoverySlot slot # rest" "length dek = dek_bytes"
      "derive_recovery_kek cr key (rk_salt slot) = Inr kek"
      "wrap_dek cr kek dek (slot_additional_data (locked_record_id r) (RecoverySlot slot)) h = Inr (rk_wrapped_dek slot, h')"
    and rest: "case en of None \<Rightarrow> rest = []
      | Some e \<Rightarrow> \<exists>s h3 h4. rest = [s] \<and> seal_prf_slot cr (locked_record_id r) dek e h3 = Inr (s, h4)"
    using sealed_parts [OF sealed] by blast
  have "filter (recovery_matches None) rest = []"
    using rest by (cases en) (auto simp: recovery_matches_def is_recovery_slot_def dest!: seal_prf_slot_Inr)
  then have one: "filter (recovery_matches None) (locked_slots r) = [RecoverySlot slot]"
    by (simp add: parts(1) recovery_matches_def is_recovery_slot_def)
  have un: "unwrap_dek cr kek (rk_wrapped_dek slot) (slot_additional_data (locked_record_id r) (RecoverySlot slot)) = Inr dek"
    by (rule wrapped_opens [OF laws parts(4) parts(2)])
  show ?thesis
    by (simp add: unlock_dek_with_recovery_key_def one parts(3) un import_aes_key_def aead_lawsD(1) [OF laws])
qed

lemma sealed_prf_opens:
  assumes laws: "aead_laws cr" and sealed: "create_sealed_record cr session storage key (Some e) g = Inr (r, dek)"
    and auth: "evaluate (prf_slot_input.truncate e) = Inr (enrolled_prf_output e)"
  shows "\<exists>sid. unlock_dek_with_webauthn_prf cr r sid evaluate = Inr dek"
proof -
  obtain slot rest where parts: "locked_slots r = RecoverySlot slot # rest" "length dek = dek_bytes"
    and rest: "\<exists>s h3 h4. rest = [s] \<and> seal_prf_slot cr (locked_record_id r) dek e h3 = Inr (s, h4)"
    using sealed_parts [OF sealed] unfolding option.case by blast
  then obtain w kek h h' where w: "rest = [PrfSlot w]"
      "derive_webauthn_kek cr (locked_record_id r) (wa_slot_id w) (enrolled_prf_output e) (wa_hkdf_salt w) = Inr kek"
      "wrap_dek cr kek dek (slot_additional_data (locked_record_id r) (PrfSlot w)) h = Inr (wa_wrapped_dek w, h')"
      "slot_input w = prf_slot_input.truncate e"
    by (auto dest!: seal_prf_slot_Inr)
  have un: "unwrap_dek cr kek (wa_wrapped_dek w) (slot_additional_data (locked_record_id r) (PrfSlot w)) = Inr dek"
    by (rule wrapped_opens [OF laws w(3) parts(2)])
  have "unlock_dek_with_webauthn_prf cr r (wa_slot_id w) evaluate = Inr dek"
    by (simp add: unlock_dek_with_webauthn_prf_def parts(1) w(1,2,4) auth un import_aes_key_def aead_lawsD(1) [OF laws])
  then show ?thesis by blast
qed

lemma sealed_payload_opens:
  assumes laws: "aead_laws cr" and sealed: "create_sealed_record cr session storage key en g = Inr (r, dek)"
  shows "decrypt_session_payload cr r dek = Inr (reparsed session)"
  using sealed_parts [OF sealed] payload_opens [OF laws] by blast

lemma resealed_payload_opens:
  assumes laws: "aead_laws cr" and sealed: "encrypt_session_payload cr r revision session dek g = Inr payload"
  shows "decrypt_session_payload cr (r\<lparr>locked_revision := revision, locked_payload := payload\<rparr>) dek = Inr (reparsed session)"
proof -
  obtain p g' where "session_plaintext session = Inr p"
    "aes_encrypt cr dek p (payload_additional_data (locked_record_id r) revision (locked_storage r) (locked_slots r)) g =
       Inr (payload, g')"
    using sealed by (auto simp: encrypt_session_payload_def pair_bind_Inr sum_bind_Inr_iff)
  then show ?thesis by (intro payload_opens [OF laws, where g = g and g' = g']) simp_all
qed

lemma unlock_ignores_payload:
  "unlock_dek_with_recovery_key cr (r\<lparr>locked_revision := n, locked_payload := b\<rparr>) key sid =
     unlock_dek_with_recovery_key cr r key sid"
  "unlock_dek_with_webauthn_prf cr (r\<lparr>locked_revision := n, locked_payload := b\<rparr>) sid' evaluate =
     unlock_dek_with_webauthn_prf cr r sid' evaluate"
  by (simp_all add: unlock_dek_with_recovery_key_def unlock_dek_with_webauthn_prf_def
      split: list.split unlock_slot.split option.split)

section \<open>Sealing succeeds\<close>

lemma bind_pair_ok:
  "\<exists>x y. m = Inr (x, y) \<Longrightarrow> (\<And>x y. \<exists>z w. f x y = Inr (z, w)) \<Longrightarrow>
     \<exists>z w. sum_bind m (\<lambda>(x, y). f x y) = Inr (z, w)"
  by force

lemma seal_succeeds:
  assumes "wc_available cr" and "recovery_bytes key = Inr input" and "session_plaintext session = Inr p"
    and "if_some (\<lambda>e. length (enrolled_prf_output e) = dek_bytes) en"
  shows "\<exists>r dek. create_sealed_record cr session storage key en g = Inr (r, dek)"
proof -
  have req: "require_web_crypto cr = Inr ()" using assms(1) by (simp add: require_web_crypto_def)
  have rnd: "random_bytes cr n h = Inr (stake n h, sdrop n h)" for n h by (simp add: random_bytes_def req)
  have r64: "random_base64url_bytes cr n h = Inr (encode_base64url (stake n h), sdrop n h)" for n h
    by (simp add: random_base64url_bytes_def rnd)
  have salt: "decode_canonical (JStr (encode_base64url (stake salt_bytes h))) f (Some salt_bytes) None salt_bytes =
      Inr (stake salt_bytes h)" for h f
    by (subst decode_exact_Inr) (simp add: salt_bytes_def)
  have enc: "\<exists>b h'. aes_encrypt cr k t a h = Inr (b, h')" for k t a h
    by (simp add: aes_encrypt_def rnd req)
  have rk: "derive_recovery_kek cr key (encode_base64url (stake salt_bytes h)) =
      Inr (wc_pbkdf2 cr input (stake salt_bytes h) recovery_iterations)" for h
    by (simp add: derive_recovery_kek_def salt assms(2) req)
  have prf_slot: "\<exists>s h'. seal_prf_slot cr rid d e h = Inr (s, h')" if e: "length (enrolled_prf_output e) = dek_bytes" for rid d e h
    unfolding seal_prf_slot_def r64 sum_bind_simps prod.case Let_def derive_webauthn_kek_def salt req wrap_dek_def
    using e by (simp, intro bind_pair_ok enc) simp
  define rid where "rid = encode_base64url (stake 16 (sdrop dek_bytes g))"
  have slots: "\<exists>slots h'. (case en of None \<Rightarrow> Inr ([s], h) | Some enrolled \<Rightarrow>
      sum_bind (seal_prf_slot cr rid d enrolled h) (\<lambda>(t, h). Inr ([s, t], h))) = Inr (slots, h')" for s h d
  proof (cases en)
    case (Some e)
    then obtain t h' where "seal_prf_slot cr rid d e h = Inr (t, h')" using prf_slot assms(4) by fastforce
    then show ?thesis by (simp add: Some)
  qed simp
  show ?thesis
    unfolding create_sealed_record_def rnd r64 sum_bind_simps prod.case import_aes_key_def req rk assms(3) Let_def
      wrap_dek_def rid_def [symmetric]
    by (intro bind_pair_ok enc slots) simp
qed

text \<open>C10: A sealed record opens: the recovery key gives the data key back, so does the authenticator of the
  enrolled slot, and the data key decrypts the payload to the session that was sealed.
\<close>

theorem sealed_session_opens:
  "aead_laws cr \<Longrightarrow> create_sealed_record cr session storage key en g = Inr (r, dek) \<Longrightarrow>
     unlock_dek_with_recovery_key cr r key None = Inr dek \<and>
     decrypt_session_payload cr r dek = Inr (reparsed session) \<and>
     (\<forall>e evaluate. en = Some e \<longrightarrow> evaluate (prf_slot_input.truncate e) = Inr (enrolled_prf_output e) \<longrightarrow>
        (\<exists>sid. unlock_dek_with_webauthn_prf cr r sid evaluate = Inr dek))"
  by (intro conjI allI impI sealed_recovery_opens sealed_payload_opens, assumption+)
    (simp add: sealed_prf_opens)

section \<open>A cipher for the witnesses\<close>

text \<open>The identity with a constant tag obeys the laws; the sample session fits the payload limit.\<close>

definition plain_crypto :: web_crypto where
  "plain_crypto = \<lparr>wc_available = True, wc_encrypt = (\<lambda>key iv aad p. p @ replicate 16 0),
     wc_decrypt = (\<lambda>key iv aad c. Some (take (length c - 16) c)),
     wc_pbkdf2 = (\<lambda>password salt n. replicate 32 1), wc_hkdf = (\<lambda>key salt info. replicate 32 2)\<rparr>"

lemma plain_crypto_laws: "aead_laws plain_crypto"
  by (simp add: aead_laws_def plain_crypto_def)

lemma length_utf8: "length s \<le> length (utf8 s) \<and> length (utf8 s) \<le> 2 * length s"
  by (induction s) (auto simp: utf8_def utf8_char_def Let_def)

lemma json_quote_clean:
  "list_all (\<lambda>c. 32 \<le> code_of c \<and> code_of c \<noteq> 34 \<and> code_of c \<noteq> 92) s \<Longrightarrow> json_quote s = CHR 0x22 # s @ [CHR 0x22]"
proof -
  assume "list_all (\<lambda>c. 32 \<le> code_of c \<and> code_of c \<noteq> 34 \<and> code_of c \<noteq> 92) s"
  then have "concat (map escape_char s) = s" by (induction s) (auto simp: escape_char_def Let_def)
  then show ?thesis by (simp add: json_quote_def)
qed

lemma length_json_quote: "length (json_quote s) \<le> 6 * length s + 2"
proof -
  have "length (concat (map escape_char s)) \<le> 6 * length s"
    by (induction s) (auto simp: escape_char_def Let_def)
  then show ?thesis by (simp add: json_quote_def)
qed

lemma sample_session_fits: "\<exists>p. session_plaintext sample_session = Inr p"
proof -
  have "length (json_quote (encode_base64url (replicate 32 7))) < 771"
    using length_json_quote [of "encode_base64url (replicate 32 7)"] length_encode(1) [of "replicate 32 7"] by simp
  then have "length (json_string (session_js sample_session)) < 1000"
    by (simp add: session_js_def sample_session_def or_undefined_def js_int_def json_quote_clean code_of_def
        int_digits_def nat_digits.simps)
  then have "length (utf8 (json_string (session_js sample_session))) \<le> max_payload_bytes"
    using length_utf8 [of "json_string (session_js sample_session)"] by (simp add: max_payload_bytes_def)
  then show ?thesis by (simp add: session_plaintext_def Let_def)
qed

lemma short_key_bytes:
  "s \<noteq> [] \<Longrightarrow> length s \<le> 512 \<Longrightarrow> recovery_bytes (JStr s) = Inr (utf8 s)"
  using length_utf8 [of s] by (auto simp: recovery_bytes_def max_recovery_input_bytes_def)

lemma sample_sealed:
  "\<exists>r dek. create_sealed_record plain_crypto sample_session \<lparr>crypto_database_prefix = p, legacy_sync_database = None\<rparr>
     (JStr ''towel'') None g = Inr (r, dek)"
proof -
  have "recovery_bytes (JStr ''towel'') = Inr (utf8 ''towel'')" by (rule short_key_bytes) simp_all
  then show ?thesis
    using sample_session_fits by (auto intro!: seal_succeeds simp: plain_crypto_def)
qed

theorem sealed_session_opens_witness:
  "\<exists>r dek. create_sealed_record plain_crypto sample_session
       \<lparr>crypto_database_prefix = ''sub-etha-crypto-x'', legacy_sync_database = None\<rparr> (JStr ''towel'') None (sconst 7) = Inr (r, dek) \<and>
     unlock_dek_with_recovery_key plain_crypto r (JStr ''towel'') None = Inr dek \<and>
     decrypt_session_payload plain_crypto r dek = Inr (reparsed sample_session)"
  using sample_sealed [of "''sub-etha-crypto-x''" "sconst 7"] sealed_session_opens [OF plain_crypto_laws] by blast

end
