(* ===== verification/Store_Steps.thy ===== *)
theory Store_Steps
  imports Session_Operations Vault_Sealing
begin

text \<open>
  Any number of windows working on one vault. A world is the vault, the leases handed out, the
  operations in flight with what they captured, and the history of everything the vault has held.
  One step is one transaction or one phase between transactions; cancelled and crashed operations
  drop out at any point. The world refines a versioned register (\<open>reg_step\<close>): its content moves to
  the next revision of the same record or to a record with a new id, and never back.
\<close>

section \<open>What the vault holds\<close>

datatype content = LockedContent locked_record | DeadContent tombstone

definition content_id :: "content \<Rightarrow> string" where
  "content_id c = (case c of LockedContent r \<Rightarrow> locked_record_id r | DeadContent t \<Rightarrow> tomb_record_id t)"

definition content_revision :: "content \<Rightarrow> int" where
  "content_revision c = (case c of LockedContent r \<Rightarrow> locked_revision r | DeadContent t \<Rightarrow> tomb_revision t)"

lemma content_simps [simp]:
  "content_id (LockedContent r) = locked_record_id r" "content_id (DeadContent t) = tomb_record_id t"
  "content_revision (LockedContent r) = locked_revision r" "content_revision (DeadContent t) = tomb_revision t"
  by (simp_all add: content_id_def content_revision_def)

definition stored_content :: "jsval option \<Rightarrow> content option" where
  "stored_content stored =
     (case stored of
        None \<Rightarrow> None
      | Some v \<Rightarrow>
          (case validate_locked_record v of
             Inr r \<Rightarrow> Some (LockedContent r)
           | Inl _ \<Rightarrow> (case validate_tombstone v of Inr t \<Rightarrow> Some (DeadContent t) | Inl _ \<Rightarrow> None)))"

section \<open>The versioned register\<close>

type_synonym register = "content option \<times> content set"

inductive reg_step :: "register \<Rightarrow> register \<Rightarrow> bool" where
  reg_stutter: "reg_step s s"
| reg_advance: "content_id y = content_id x \<Longrightarrow> content_revision y = content_revision x + 1 \<Longrightarrow>
    reg_step (Some x, H) (Some y, insert y H)"
| reg_fresh: "content_id y \<notin> content_id ` H \<Longrightarrow> reg_step (c, H) (Some y, insert y H)"
| reg_lose: "reg_step (c, H) (None, H)"

text \<open>The content is the newest of its record, and a version names one content.\<close>

definition reg_inv :: "register \<Rightarrow> bool" where
  "reg_inv s \<longleftrightarrow>
     (case fst s of None \<Rightarrow> True
      | Some x \<Rightarrow> x \<in> snd s \<and> (\<forall>y \<in> snd s. content_id y = content_id x \<longrightarrow> content_revision y \<le> content_revision x)) \<and>
     (\<forall>x \<in> snd s. \<forall>y \<in> snd s. content_id x = content_id y \<longrightarrow> content_revision x = content_revision y \<longrightarrow> x = y)"

lemma reg_step_inv: "reg_step s t \<Longrightarrow> reg_inv s \<Longrightarrow> reg_inv t"
proof (induction rule: reg_step.induct)
  case (reg_advance y x H)
  then have "content_revision z < content_revision y" if "z \<in> H" "content_id z = content_id y" for z
    using that by (force simp: reg_inv_def)
  then show ?case using reg_advance by (fastforce simp: reg_inv_def)
next
  case (reg_fresh y H c)
  then have "content_id z \<noteq> content_id y" if "z \<in> H" for z using that by (metis imageI)
  then show ?case using reg_fresh by (fastforce simp: reg_inv_def)
qed (auto simp: reg_inv_def)

text \<open>A version that has been superseded does not come back.\<close>

definition superseded :: "content \<Rightarrow> register \<Rightarrow> bool" where
  "superseded x s \<longleftrightarrow> x \<in> snd s \<and>
     (case fst s of None \<Rightarrow> True
      | Some y \<Rightarrow> content_id y \<noteq> content_id x \<or> content_revision x < content_revision y)"

lemma superseded_step: "reg_step s t \<Longrightarrow> superseded x s \<Longrightarrow> superseded x t"
  by (induction rule: reg_step.induct) (auto simp: superseded_def)

lemma superseded_steps: "reg_step\<^sup>*\<^sup>* s t \<Longrightarrow> superseded x s \<Longrightarrow> superseded x t"
  by (induction rule: rtranclp_induct) (auto intro: superseded_step)

lemma reg_order:
  assumes "reg_step\<^sup>*\<^sup>* s t" and "fst s = Some x" and "x \<in> snd s" and "fst t = Some y" and "content_id y = content_id x"
  shows "y = x \<or> content_revision x < content_revision y"
proof -
  have "superseded x t \<or> fst t = Some x"
    using assms(1)
  proof (induction rule: rtranclp_induct)
    case (step u w)
    from step.IH show ?case
    proof
      assume "fst u = Some x"
      moreover have "x \<in> snd u"
        using step.hyps(1) assms(3) by (induction rule: rtranclp_induct) (auto elim!: reg_step.cases)
      ultimately show ?thesis
        using step.hyps(2) by (auto simp: superseded_def elim!: reg_step.cases)
    qed (use step.hyps(2) superseded_step in blast)
  qed (simp add: assms(2))
  then show ?thesis using assms(4,5) by (auto simp: superseded_def)
qed

section \<open>Worlds\<close>

text \<open>
  Operations in flight. \<open>ResealedOp\<close> has committed and has yet to update its lease. The first four
  run under the vault lock.
\<close>

datatype pending =
    CreateOp starting_state locked_record persisted_session bytes
  | MigrateOp legacy_candidate locked_record persisted_session bytes
  | UnlockOp lease
  | CleanupOp cleanup_descriptor "string list"
  | ResealOp nat locked_record locked_record persisted_session
  | ResealedOp nat locked_record persisted_session

definition holds_lock :: "pending \<Rightarrow> bool" where
  "holds_lock p = (case p of ResealOp i e r s \<Rightarrow> False | ResealedOp i r s \<Rightarrow> False | _ \<Rightarrow> True)"

definition serves_lease :: "nat \<Rightarrow> pending \<Rightarrow> bool" where
  "serves_lease i p = (case p of ResealOp j e r s \<Rightarrow> j = i | ResealedOp j r s \<Rightarrow> j = i | _ \<Rightarrow> False)"

record world =
  w_vault :: vault
  w_leases :: "lease list"
  w_ops :: "pending list"
  w_history :: "content list"

text \<open>The value written by a transaction joins the history when it can be read back.\<close>

definition record_write :: "vault \<Rightarrow> world \<Rightarrow> world" where
  "record_write v w = w\<lparr>w_vault := v, w_history :=
     (case stored_content (va_stored v) of None \<Rightarrow> [] | Some c \<Rightarrow> if c \<in> set (w_history w) then [] else [c]) @ w_history w\<rparr>"

definition finish_op :: "nat \<Rightarrow> pending list \<Rightarrow> world \<Rightarrow> world" where
  "finish_op k ps w = w\<lparr>w_ops := take k (w_ops w) @ ps @ drop (Suc k) (w_ops w)\<rparr>"

definition grant :: "store_error + 'a \<Rightarrow> lease \<Rightarrow> world \<Rightarrow> world" where
  "grant res l w = (case res of Inl e \<Rightarrow> w | Inr _ \<Rightarrow> w\<lparr>w_leases := w_leases w @ [l]\<rparr>)"

definition set_lease :: "nat \<Rightarrow> lease \<Rightarrow> world \<Rightarrow> world" where
  "set_lease i l w = w\<lparr>w_leases := (w_leases w)[i := l]\<rparr>"

definition lock_free :: "world \<Rightarrow> bool" where
  "lock_free w \<longleftrightarrow> \<not> list_ex holds_lock (w_ops w)"

definition id_unused :: "string \<Rightarrow> world \<Rightarrow> bool" where
  "id_unused rid w \<longleftrightarrow> rid \<notin> content_id ` set (w_history w)"

text \<open>A fresh record id is sixteen random bytes; that it was never used before is assumed of them.\<close>

inductive vault_step :: "store_env \<Rightarrow> world \<Rightarrow> world \<Rightarrow> bool" for E where
  begin_create: "lock_free w \<Longrightarrow>
    normalize_new_session E input = Inr s \<Longrightarrow>
    create_prepare E (\<lambda>_. False) s key enrolled g (va_stored (w_vault w)) = Inr (start, r, dek) \<Longrightarrow>
    vault_step E w (w\<lparr>w_ops := CreateOp start r s dek # w_ops w\<rparr>)"
| commit_create: "k < length (w_ops w) \<Longrightarrow> w_ops w ! k = CreateOp start r s dek \<Longrightarrow>
    id_unused (locked_record_id r) w \<Longrightarrow>
    commit_new_record start r abort (w_vault w) = (res, v) \<Longrightarrow>
    vault_step E w (grant res (new_lease r s dek) (record_write v (finish_op k [] w)))"
| begin_migrate: "lock_free w \<Longrightarrow> migrate_check E c = Inr (inspected, s) \<Longrightarrow>
    migrate_prepare E (\<lambda>_. False) c inspected s key enrolled g (va_stored (w_vault w)) = Inr (r, dek) \<Longrightarrow>
    delete_database_strict E (lc_sync inspected) (w_vault w) = (Inr (), v) \<Longrightarrow>
    vault_step E w (w\<lparr>w_vault := v, w_ops := MigrateOp c r s dek # w_ops w\<rparr>)"
| commit_migrate: "k < length (w_ops w) \<Longrightarrow> w_ops w ! k = MigrateOp c r s dek \<Longrightarrow>
    id_unused (locked_record_id r) w \<Longrightarrow>
    commit_migrated_record c r abort (w_vault w) = (res, v) \<Longrightarrow>
    vault_step E w (grant res (new_lease r s dek) (record_write v (finish_op k [] w)))"
| begin_unlock: "lock_free w \<Longrightarrow>
    unlock_prepare E (\<lambda>_. False) d unlock (va_stored (w_vault w)) = Inr l \<Longrightarrow>
    vault_step E w (w\<lparr>w_ops := UnlockOp l # w_ops w\<rparr>)"
| finish_unlock: "k < length (w_ops w) \<Longrightarrow> w_ops w ! k = UnlockOp l \<Longrightarrow>
    unlock_finish E aborted l (w_vault w) = (res, v) \<Longrightarrow>
    vault_step E w (grant res l ((finish_op k [] w)\<lparr>w_vault := v\<rparr>))"
| begin_reseal: "i < length (w_leases w) \<Longrightarrow> \<not> list_ex (serves_lease i) (w_ops w) \<Longrightarrow>
    reseal_prepare E (w_leases w ! i) next_session reason g = Inr (r, s) \<Longrightarrow>
    vault_step E w (w\<lparr>w_ops := ResealOp i (ls_record (w_leases w ! i)) r s # w_ops w\<rparr>)"
| commit_reseal: "k < length (w_ops w) \<Longrightarrow> w_ops w ! k = ResealOp i expected r s \<Longrightarrow>
    ls_dek (w_leases w ! i) \<noteq> None \<Longrightarrow>
    commit_reseal expected r (w_vault w) = (res, v) \<Longrightarrow>
    vault_step E w (record_write v (finish_op k (case res of Inl e \<Rightarrow> [] | Inr _ \<Rightarrow> [ResealedOp i r s]) w))"
| finish_reseal: "k < length (w_ops w) \<Longrightarrow> w_ops w ! k = ResealedOp i r s \<Longrightarrow>
    vault_step E w (set_lease i (reseal_finish r s (w_leases w ! i)) (finish_op k [] w))"
| delete_lease: "i < length (w_leases w) \<Longrightarrow> \<not> list_ex (serves_lease i) (w_ops w) \<Longrightarrow>
    delete_record (w_leases w ! i) (w_vault w) = ((res, l), v) \<Longrightarrow>
    vault_step E w (set_lease i l (record_write v w))"
| dispose_lease: "i < length (w_leases w) \<Longrightarrow>
    vault_step E w (set_lease i (dispose (w_leases w ! i)) w)"
| forget: "(\<And>rid g'. random_base64url_bytes (se_crypto E) 16 g = Inr (rid, g') \<Longrightarrow> id_unused rid w) \<Longrightarrow>
    forget_local_session E (granted \<and> lock_free w) g (w_vault w) = (res, v) \<Longrightarrow>
    vault_step E w (record_write v w)"
| begin_cleanup: "lock_free w \<or> cd_scope d = ScopeExact \<Longrightarrow> cleanup_names E d (w_vault w) = Inr names \<Longrightarrow>
    vault_step E w (w\<lparr>w_ops := CleanupOp d names # w_ops w\<rparr>)"
| delete_database: "k < length (w_ops w) \<Longrightarrow> w_ops w ! k = CleanupOp d (name # names) \<Longrightarrow>
    delete_database_strict E name (w_vault w) = (res, v) \<Longrightarrow>
    vault_step E w ((finish_op k [CleanupOp d names] w)\<lparr>w_vault := v\<rparr>)"
| complete_cleanup: "complete_local_session_cleanup d (w_vault w) = (res, v) \<Longrightarrow>
    vault_step E w (record_write v w)"
| drop_op: "k < length (w_ops w) \<Longrightarrow> vault_step E w (finish_op k [] w)"
| new_database: "vault_step E w (w\<lparr>w_vault := (w_vault w)\<lparr>va_databases := name # va_databases (w_vault w)\<rparr>\<rparr>)"

inductive vault_reachable :: "store_env \<Rightarrow> world \<Rightarrow> bool" for E where
  start: "vault_reachable E \<lparr>w_vault = v, w_leases = [], w_ops = [],
    w_history = (case stored_content (va_stored v) of None \<Rightarrow> [] | Some c \<Rightarrow> [c])\<rparr>"
| step: "vault_reachable E w \<Longrightarrow> vault_step E w w' \<Longrightarrow> vault_reachable E w'"

section \<open>Refinement of the register\<close>

definition register_of :: "world \<Rightarrow> register" where
  "register_of w = (stored_content (va_stored (w_vault w)), set (w_history w))"

text \<open>What an operation captured has the revision its commit will write.\<close>

definition op_ok :: "pending \<Rightarrow> bool" where
  "op_ok p = (case p of
      ResealOp i e r s \<Rightarrow> locked_record_id r = locked_record_id e \<and> locked_revision r = locked_revision e + 1
    | CreateOp start r s dek \<Rightarrow> wf_locked r
    | MigrateOp c r s dek \<Rightarrow> wf_locked r
    | _ \<Rightarrow> True)"

lemma reseal_prepare_Inr:
  assumes "reseal_prepare E l input reason g = Inr (r, s)"
  shows "\<exists>dek payload. ls_dek l = Some dek \<and> normalize_new_session E input = Inr s \<and>
     encrypt_session_payload (se_crypto E) (ls_record l) (locked_revision (ls_record l) + 1) s dek g = Inr payload \<and>
     r = (ls_record l)\<lparr>locked_revision := locked_revision (ls_record l) + 1, locked_payload := payload\<rparr> \<and>
     (\<exists>old. ls_session l = Some old \<and> immutable_session_fields_equal old s)"
  using assms
  by (auto simp: reseal_prepare_def assert_active_def sum_bind_Inr_iff from_vault_def store_fail_def Let_def
      split: option.splits sum.splits if_splits)

lemma create_prepare_wf: "create_prepare E ab s key en g stored = Inr (start, r, dek) \<Longrightarrow> wf_locked r"
  by (auto simp: create_prepare_def pair_bind_Inr sum_bind_Inr_iff intro: locked_sound)

lemma migrate_prepare_wf: "migrate_prepare E ab c i s key en g stored = Inr (r, dek) \<Longrightarrow> wf_locked r"
  by (auto simp: migrate_prepare_def pair_bind_Inr sum_bind_Inr_iff split: if_splits intro: locked_sound)

lemma ops_ok_step:
  "vault_step E w w' \<Longrightarrow> list_all op_ok (w_ops w) \<Longrightarrow> list_all op_ok (w_ops w')"
proof (induction rule: vault_step.induct)
  case (commit_reseal k w i expected r s res v)
  then show ?case
    by (auto simp: record_write_def finish_op_def op_ok_def list_all_iff split: sum.splits dest: in_set_takeD in_set_dropD)
next
  case (begin_reseal i w next_session reason g r s)
  then show ?case by (auto simp: op_ok_def dest!: reseal_prepare_Inr)
next
  case (begin_create w input s key enrolled g start r dek)
  then show ?case using create_prepare_wf by (auto simp: op_ok_def)
next
  case (begin_migrate w c inspected s key enrolled g r dek v)
  then show ?case using migrate_prepare_wf by (auto simp: op_ok_def)
qed (auto simp: grant_def record_write_def finish_op_def set_lease_def op_ok_def list_all_iff
      split: sum.splits dest: in_set_takeD in_set_dropD)

lemma locked_fields:
  assumes "validate_locked_record v = Inr r"
  shows "js_opt ''kind'' v = JStr ''locked-matrix-session''" "js_opt ''recordId'' v = JStr (locked_record_id r)"
    "as_int (js_opt ''revision'' v) = locked_revision r"
  using assms by (auto simp: validate_locked_record_def Let_def sum_bind_Inr_iff identifier_Inr)

lemma tombstone_fields:
  assumes "validate_tombstone v = Inr t"
  shows "js_opt ''kind'' v = JStr ''matrix-session-tombstone''" "js_opt ''recordId'' v = JStr (tomb_record_id t)"
    "as_int (js_opt ''revision'' v) = tomb_revision t"
  using assms by (auto simp: validate_tombstone_def Let_def sum_bind_Inr_iff identifier_Inr)

lemma stored_locked: "validate_locked_record v = Inr r \<Longrightarrow> stored_content (Some v) = Some (LockedContent r)"
  by (simp add: stored_content_def)

lemma stored_dead:
  assumes "validate_tombstone v = Inr t"
  shows "stored_content (Some v) = Some (DeadContent t)"
  using assms locked_fields(1) [of v] tombstone_fields(1) [OF assms]
  by (auto simp: stored_content_def split: sum.split)

text \<open>A written value reads back with the id and revision it was written with, or not at all.\<close>

lemma stored_fields:
  assumes "stored_content (Some v) = Some c"
  shows "js_opt ''recordId'' v = JStr (content_id c)" "as_int (js_opt ''revision'' v) = content_revision c"
  using assms locked_fields [of v] tombstone_fields [of v]
  by (auto simp: stored_content_def split: sum.splits)

lemma written_locked:
  "stored_content (Some (locked_js r)) = Some c \<Longrightarrow> content_id c = locked_record_id r \<and> content_revision c = locked_revision r"
  using stored_fields [of "locked_js r" c] by (simp add: locked_js_def)

lemma written_tombstone:
  "stored_content (Some (tombstone_js t)) = Some c \<Longrightarrow> content_id c = tomb_record_id t \<and> content_revision c = tomb_revision t"
  using stored_fields [of "tombstone_js t" c] by (simp add: tombstone_js_def)

lemma written_finished:
  "stored_content (Some (finished_tombstone_js rid n)) = Some c \<Longrightarrow> content_id c = rid \<and> content_revision c = n"
  using stored_fields [of "finished_tombstone_js rid n" c] by (simp add: finished_tombstone_js_def)

text \<open>The ways a transaction may change the content.\<close>

definition may_follow :: "content option \<Rightarrow> content set \<Rightarrow> content option \<Rightarrow> bool" where
  "may_follow c H c' \<longleftrightarrow> (case c' of None \<Rightarrow> True
     | Some y \<Rightarrow> c' = c \<or> content_id y \<notin> content_id ` H \<or>
         (\<exists>x. c = Some x \<and> content_id y = content_id x \<and> content_revision y = content_revision x + 1))"

lemma may_follow_refines:
  assumes "reg_inv (c, H)" and "may_follow c H c'"
  shows "reg_step (c, H) (c', (case c' of None \<Rightarrow> {} | Some y \<Rightarrow> {y}) \<union> H)"
proof (cases c')
  case None
  then show ?thesis by (simp add: reg_lose)
next
  case (Some y)
  show ?thesis
  proof (cases "c' = c")
    case True
    then have "y \<in> H" using assms(1) Some by (auto simp: reg_inv_def)
    then have "(case c' of None \<Rightarrow> {} | Some y \<Rightarrow> {y}) \<union> H = H" using Some by auto
    then show ?thesis using True reg_stutter by simp
  qed (use assms(2) Some in \<open>auto simp: may_follow_def intro: reg_fresh reg_advance\<close>)
qed

lemma register_of_write:
  "register_of (record_write v w) =
     (stored_content (va_stored v), (case stored_content (va_stored v) of None \<Rightarrow> {} | Some y \<Rightarrow> {y}) \<union> set (w_history w))"
  by (auto simp: register_of_def record_write_def split: option.split)

lemma transact_stored:
  assumes "transact abort action v = (res, v')"
  shows "va_stored v' = va_stored v \<or> (\<exists>x y. action (va_stored v) = Inr (x, y) \<and> va_stored v' = Some x)"
  using assms by (auto simp: transact_def split: if_splits sum.splits)

lemma same_follows: "va_stored v' = va_stored v \<Longrightarrow>
    may_follow (stored_content (va_stored v)) H (stored_content (va_stored v'))"
  by (simp add: may_follow_def split: option.split)

lemma fresh_locked_follows: "locked_record_id r \<notin> content_id ` H \<Longrightarrow>
    may_follow c H (stored_content (Some (locked_js r)))"
  using written_locked by (auto simp: may_follow_def split: option.split)

lemma expect_current_Inr:
  assumes "expect_current m1 m2 expected stored = Inr ()"
  shows "\<exists>v current. stored = Some v \<and> validate_locked_record v = Inr current \<and>
     locked_record_id current = locked_record_id expected \<and> locked_revision current = locked_revision expected"
  using assms
  by (auto simp: expect_current_def sum_bind_Inr_iff from_vault_def store_fail_def split: option.splits sum.splits if_splits)

lemma reseal_follows:
  assumes "commit_reseal expected r v = (res, v')" and "locked_record_id r = locked_record_id expected"
    and "locked_revision r = locked_revision expected + 1"
  shows "may_follow (stored_content (va_stored v)) H (stored_content (va_stored v'))"
  using transact_stored [OF assms(1) [unfolded commit_reseal_def]]
proof
  assume "\<exists>x y. sum_bind (expect_current ''The locked Matrix session was removed before reseal.''
      ''A stale session lease cannot overwrite a newer vault revision.'' expected (va_stored v))
      (\<lambda>_. Inr (locked_js r, ())) = Inr (x, y) \<and> va_stored v' = Some x"
  then show ?thesis
    using assms(2,3) written_locked [of r]
    by (auto simp: sum_bind_Inr_iff may_follow_def stored_locked dest!: expect_current_Inr split: option.split)
qed (rule same_follows)

lemma tombstone_follows:
  assumes "commit_tombstone r v = (res, v')"
  shows "may_follow (stored_content (va_stored v)) H (stored_content (va_stored v'))"
proof -
  define t where "t = \<lparr>tomb_record_id = locked_record_id r, tomb_revision = locked_revision r + 1,
      tomb_cleanup = Some (ExactCleanup (locked_storage r))\<rparr>"
  have "va_stored v' = va_stored v \<or>
      (expect_current ''The locked Matrix session was already removed.''
         ''A stale session lease cannot delete a newer vault revision.'' r (va_stored v) = Inr () \<and>
       va_stored v' = Some (tombstone_js t))"
    using transact_stored [OF assms [unfolded commit_tombstone_def Let_def]] by (auto simp: sum_bind_Inr_iff t_def)
  then show ?thesis
  proof
    assume a: "expect_current ''The locked Matrix session was already removed.''
         ''A stale session lease cannot delete a newer vault revision.'' r (va_stored v) = Inr () \<and>
       va_stored v' = Some (tombstone_js t)"
    then obtain x current where x: "va_stored v = Some x" "validate_locked_record x = Inr current"
        "locked_record_id current = locked_record_id r" "locked_revision current = locked_revision r"
      using expect_current_Inr by blast
    have t: "tomb_record_id t = locked_record_id r" "tomb_revision t = locked_revision r + 1"
      by (simp_all add: t_def)
    show ?thesis
      using a x t written_tombstone [of t]
      by (cases "stored_content (Some (tombstone_js t))") (simp_all add: may_follow_def stored_locked)
  qed (rule same_follows)
qed

lemma forget_follows:
  assumes "forget_scope E rid stored = (rid', n, scope)" and "rid \<notin> content_id ` H"
  shows "may_follow (stored_content stored) H
    (stored_content (Some (tombstone_js \<lparr>tomb_record_id = rid', tomb_revision = n, tomb_cleanup = Some scope\<rparr>)))"
proof -
  have "rid' = rid \<or> (\<exists>x. stored_content stored = Some x \<and> rid' = content_id x \<and> n = content_revision x + 1)"
    using assms(1)
    by (auto simp: forget_scope_def stored_locked stored_dead split: option.splits if_splits sum.splits)
  then show ?thesis
    using assms(2) written_tombstone [of "\<lparr>tomb_record_id = rid', tomb_revision = n, tomb_cleanup = Some scope\<rparr>"]
    by (auto simp: may_follow_def split: option.split)
qed

lemma complete_follows:
  assumes "complete_local_session_cleanup d v = (res, v')"
  shows "may_follow (stored_content (va_stored v)) H (stored_content (va_stored v'))"
proof -
  have "va_stored v' = va_stored v \<or>
      (\<exists>x t. va_stored v = Some x \<and> validate_tombstone x = Inr t \<and>
         va_stored v' = Some (finished_tombstone_js (tomb_record_id t) (tomb_revision t + 1)))"
    using transact_stored [OF assms [unfolded complete_local_session_cleanup_def]]
    by (auto simp: sum_bind_Inr_iff from_vault_def store_fail_def split: option.splits if_splits sum.splits)
  then show ?thesis
  proof
    assume "\<exists>x t. va_stored v = Some x \<and> validate_tombstone x = Inr t \<and>
         va_stored v' = Some (finished_tombstone_js (tomb_record_id t) (tomb_revision t + 1))"
    then obtain x t where x: "va_stored v = Some x" "validate_tombstone x = Inr t"
        "va_stored v' = Some (finished_tombstone_js (tomb_record_id t) (tomb_revision t + 1))" by blast
    show ?thesis
      using x written_finished [of "tomb_record_id t" "tomb_revision t + 1"]
      by (cases "stored_content (va_stored v')") (simp_all add: may_follow_def stored_dead)
  qed (rule same_follows)
qed

lemma ownership_state:
  assumes "with_available_vault_ownership E granted aborted i operation v = (res, v')"
  shows "v' = v \<or> granted \<and> (\<exists>r. operation v = (r, v'))"
  using assms
  by (auto simp: with_available_vault_ownership_def split: if_splits prod.splits sum.splits store_error.splits vault_error.splits)

lemma forget_local_follows:
  assumes "forget_local_session E granted g v = (res, v')"
    and "\<And>rid g'. random_base64url_bytes (se_crypto E) 16 g = Inr (rid, g') \<Longrightarrow> rid \<notin> content_id ` H"
  shows "may_follow (stored_content (va_stored v)) H (stored_content (va_stored v'))"
proof -
  consider "v' = v" | r where "transact NoAbort (forget_action E g) v = (r, v')"
    using ownership_state [OF assms(1) [unfolded forget_local_session_def]] by blast
  then show ?thesis
  proof cases
    case 2
    from transact_stored [OF 2] show ?thesis
    proof
      assume "\<exists>x y. forget_action E g (va_stored v) = Inr (x, y) \<and> va_stored v' = Some x"
      then obtain rid g' rid' n scope where "random_base64url_bytes (se_crypto E) 16 g = Inr (rid, g')"
          "forget_scope E rid (va_stored v) = (rid', n, scope)"
          "va_stored v' = Some (tombstone_js \<lparr>tomb_record_id = rid', tomb_revision = n, tomb_cleanup = Some scope\<rparr>)"
        by (auto simp: forget_action_def store_fail_def Let_def split: sum.splits prod.splits)
      then show ?thesis using forget_follows assms(2) by auto
    qed (rule same_follows)
  qed (simp add: same_follows)
qed

lemma commit_new_follows:
  assumes "commit_new_record st r abort v = (res, v')" and "locked_record_id r \<notin> content_id ` H"
  shows "may_follow (stored_content (va_stored v)) H (stored_content (va_stored v'))"
  using transact_stored [OF assms(1) [unfolded commit_new_record_def]] fresh_locked_follows [OF assms(2)]
  by (auto simp: store_fail_def split: if_splits intro: same_follows)

lemma commit_migrated_follows:
  assumes "commit_migrated_record c r abort v = (res, v')" and "locked_record_id r \<notin> content_id ` H"
  shows "may_follow (stored_content (va_stored v)) H (stored_content (va_stored v'))"
  using transact_stored [OF assms(1) [unfolded commit_migrated_record_def]] fresh_locked_follows [OF assms(2)]
  by (auto simp: store_fail_def split: if_splits intro: same_follows)

lemma delete_record_follows:
  assumes "delete_record l v = ((res, l'), v')"
  shows "may_follow (stored_content (va_stored v)) H (stored_content (va_stored v'))"
proof -
  consider "v' = v" | r where "commit_tombstone (ls_record l) v = (r, v')"
    using assms by (auto simp: delete_record_def split: sum.splits prod.splits)
  then show ?thesis by cases (auto intro: same_follows tombstone_follows)
qed

lemma delete_database_stored [simp]: "va_stored (snd (delete_database_strict E name v)) = va_stored v"
  by (auto simp: delete_database_strict_def split: delete_outcome.split)

lemma delete_database_keeps: "delete_database_strict E name v = (r, v') \<Longrightarrow> va_stored v' = va_stored v"
  using delete_database_stored [of E name v] by simp

lemma unlock_finish_stored: "unlock_finish E aborted l v = (res, v') \<Longrightarrow> va_stored v' = va_stored v"
  by (auto simp: unlock_finish_def delete_authenticated_legacy_sync_database_def then_op_def result_op_def stored_op_def
      split: prod.splits sum.splits option.splits if_splits dest: delete_database_keeps)

lemma register_of_simps [simp]:
  "register_of (w\<lparr>w_ops := ps\<rparr>) = register_of w" "register_of (set_lease i l w) = register_of w"
  "register_of (finish_op k ps w) = register_of w" "register_of (grant res' l w) = register_of w"
  by (simp_all add: register_of_def set_lease_def finish_op_def grant_def split: sum.split)

lemma kept_parts [simp]:
  "w_vault (finish_op k ps w) = w_vault w" "w_history (finish_op k ps w) = w_history w"
  by (simp_all add: finish_op_def)

lemma write_refines:
  assumes "reg_inv (register_of w)" and "w_vault w2 = w_vault w" and "w_history w2 = w_history w"
    and "may_follow (stored_content (va_stored (w_vault w))) (set (w_history w)) (stored_content (va_stored v))"
  shows "reg_step (register_of w) (register_of (record_write v w2))"
  using may_follow_refines [OF assms(1) [unfolded register_of_def] assms(4)]
  by (simp add: register_of_write assms(2,3)) (simp add: register_of_def)

lemma databases_only: "va_stored v = va_stored (w_vault w) \<Longrightarrow> register_of (w\<lparr>w_vault := v\<rparr>) = register_of w"
  by (simp add: register_of_def)

lemma vault_step_refines:
  "vault_step E w w' \<Longrightarrow> list_all op_ok (w_ops w) \<Longrightarrow> reg_inv (register_of w) \<Longrightarrow>
     reg_step (register_of w) (register_of w')"
proof (induction rule: vault_step.induct)
  case (commit_create k w start r s dek abort res v)
  then show ?case
    by (simp add: write_refines commit_new_follows id_unused_def)
next
  case (commit_migrate k w c r s dek abort res v)
  then show ?case by (simp add: write_refines commit_migrated_follows id_unused_def)
next
  case (commit_reseal k w i expected r s res v)
  then have "op_ok (ResealOp i expected r s)" by (metis list_all_length)
  then have "locked_record_id r = locked_record_id expected" "locked_revision r = locked_revision expected + 1"
    by (simp_all add: op_ok_def)
  then have "may_follow (stored_content (va_stored (w_vault w))) (set (w_history w)) (stored_content (va_stored v))"
    by (rule reseal_follows [OF commit_reseal(4)])
  then show ?case by (intro write_refines commit_reseal) simp_all
next
  case (delete_lease i w res l v)
  then show ?case by (auto intro!: write_refines delete_record_follows)
next
  case (forget g w granted res v)
  then show ?case by (auto intro!: write_refines forget_local_follows simp: id_unused_def)
next
  case (complete_cleanup d w res v)
  then show ?case by (auto intro!: write_refines complete_follows)
next
  case (begin_migrate w c inspected s key enrolled g r dek v)
  have "va_stored v = va_stored (w_vault w)" by (rule delete_database_keeps [OF begin_migrate(4)])
  then have "register_of (w\<lparr>w_vault := v, w_ops := MigrateOp c r s dek # w_ops w\<rparr>) = register_of w"
    by (simp add: register_of_def)
  then show ?case by (simp add: reg_stutter)
next
  case (finish_unlock k w l aborted res v)
  then have "va_stored v = va_stored (w_vault w)" by (intro unlock_finish_stored)
  then show ?case using databases_only [of v "finish_op k [] w"] by (simp add: reg_stutter)
next
  case (delete_database k w d name names res v)
  have "va_stored v = va_stored (w_vault w)" by (rule delete_database_keeps [OF delete_database(3)])
  then show ?case using databases_only [of v "finish_op k [CleanupOp d names] w"] by (simp add: reg_stutter)
next
  case (new_database w name)
  then show ?case by (simp add: databases_only reg_stutter)
qed (simp_all add: reg_stutter)

lemma vault_reachable_inv: "vault_reachable E w \<Longrightarrow> list_all op_ok (w_ops w) \<and> reg_inv (register_of w)"
proof (induction rule: vault_reachable.induct)
  case (start v)
  show ?case by (auto simp: register_of_def reg_inv_def split: option.split)
next
  case (step w w')
  then show ?case using vault_step_refines reg_step_inv ops_ok_step by blast
qed

end
