(* ===== verification/Store_Safety.thy ===== *)
theory Store_Safety
  imports Store_Steps
begin

text \<open>
  What holds in every world of \<open>Store_Steps\<close>, whatever the windows do and however their operations
  interleave: versions only move forward, a stale lease cannot write, a lease that is still current
  is exactly what is stored, a disposed lease stays disposed, and only the databases of the program
  are deleted, under a marker.
\<close>

section \<open>Leases and the history\<close>

definition known :: "world \<Rightarrow> locked_record \<Rightarrow> bool" where
  "known w r \<longleftrightarrow> wf_locked r \<longrightarrow> LockedContent r \<in> set (w_history w)"

definition op_known :: "world \<Rightarrow> pending \<Rightarrow> bool" where
  "op_known w p = (case p of
      UnlockOp l \<Rightarrow> known w (ls_record l)
    | ResealedOp i r s \<Rightarrow> known w r
    | _ \<Rightarrow> True)"

definition leases_known :: "world \<Rightarrow> bool" where
  "leases_known w \<longleftrightarrow> list_all (\<lambda>l. known w (ls_record l)) (w_leases w) \<and> list_all (op_known w) (w_ops w)"

lemma known_mono: "known w r \<Longrightarrow> set (w_history w) \<subseteq> set (w_history w') \<Longrightarrow> known w' r"
  by (auto simp: known_def)

lemma op_known_mono: "op_known w p \<Longrightarrow> set (w_history w) \<subseteq> set (w_history w') \<Longrightarrow> op_known w' p"
  by (auto simp: op_known_def split: pending.splits intro: known_mono)

lemma history_write: "set (w_history w) \<subseteq> set (w_history (record_write v w))"
  by (auto simp: record_write_def)

lemma write_known:
  assumes "va_stored v = Some (locked_js r)"
  shows "known (record_write v w) r"
  using assms by (auto simp: known_def record_write_def stored_locked locked_complete)

lemma kept_fields [simp]:
  "w_leases (record_write v w) = w_leases w" "w_ops (record_write v w) = w_ops w"
  "w_leases (finish_op k ps w) = w_leases w"
  "w_history (grant res l w) = w_history w" "w_ops (grant res l w) = w_ops w"
  "w_history (set_lease i l w) = w_history w" "w_ops (set_lease i l w) = w_ops w"
  by (simp_all add: record_write_def finish_op_def grant_def set_lease_def split: sum.split)

lemma leases_known_later:
  assumes "leases_known w" and "set (w_history w) \<subseteq> set (w_history w')"
    and "\<And>l. l \<in> set (w_leases w') \<Longrightarrow> l \<in> set (w_leases w) \<or> known w' (ls_record l)"
    and "\<And>p. p \<in> set (w_ops w') \<Longrightarrow> p \<in> set (w_ops w) \<or> op_known w' p"
  shows "leases_known w'"
  using assms known_mono op_known_mono unfolding leases_known_def list_all_iff by blast

lemma finish_op_set: "p \<in> set (w_ops (finish_op k ps w)) \<Longrightarrow> p \<in> set (w_ops w) \<or> p \<in> set ps"
  by (auto simp: finish_op_def dest: in_set_takeD in_set_dropD)

lemma known_updates [simp]:
  "known (w\<lparr>w_ops := ps\<rparr>) r = known w r" "known (w\<lparr>w_vault := v\<rparr>) r = known w r"
  "op_known (w\<lparr>w_ops := ps\<rparr>) p = op_known w p" "op_known (w\<lparr>w_vault := v\<rparr>) p = op_known w p"
  by (auto simp: known_def op_known_def split: pending.split)

lemma known_grant [simp]: "known (grant res l w) r = known w r" "op_known (grant res l w) p = op_known w p"
  by (auto simp: known_def op_known_def split: pending.split)

lemma leases_known_updates:
  "leases_known (w\<lparr>w_vault := v\<rparr>) = leases_known w"
  "leases_known (w\<lparr>w_vault := v, w_ops := p # w_ops w\<rparr>) = (op_known w p \<and> leases_known w)"
  "leases_known (w\<lparr>w_ops := p # w_ops w\<rparr>) = (op_known w p \<and> leases_known w)"
  by (auto simp: leases_known_def list_all_iff)

lemma leases_known_finish: "leases_known w \<Longrightarrow> list_all (op_known w) ps \<Longrightarrow> leases_known (finish_op k ps w)"
  by (auto simp: leases_known_def list_all_iff finish_op_def dest: in_set_takeD in_set_dropD)

lemma leases_known_write: "leases_known w \<Longrightarrow> leases_known (record_write v w)"
  by (rule leases_known_later) (auto intro: history_write [THEN subsetD])

lemma grant_leases: "l' \<in> set (w_leases (grant res l w)) \<Longrightarrow> l' \<in> set (w_leases w) \<or> (l' = l \<and> (\<exists>x. res = Inr x))"
  by (auto simp: grant_def split: sum.splits)

lemma granted_known:
  assumes "leases_known w" and "\<And>x. res = Inr x \<Longrightarrow> known (record_write v (finish_op k [] w)) (ls_record l)"
  shows "leases_known (grant res l (record_write v (finish_op k [] w)))"
proof (rule leases_known_later [OF assms(1)])
  show "set (w_history w) \<subseteq> set (w_history (grant res l (record_write v (finish_op k [] w))))"
    using history_write [of "finish_op k [] w" v] by simp
qed (use assms(2) in \<open>auto dest!: grant_leases dest: finish_op_set\<close>)

lemma commit_new_written:
  "commit_new_record start r abort v = (Inr (), v') \<Longrightarrow> va_stored v' = Some (locked_js r)"
  by (auto simp: commit_new_record_def transact_def store_fail_def split: if_splits sum.splits)

lemma commit_migrated_written:
  "commit_migrated_record c r abort v = (Inr (), v') \<Longrightarrow> va_stored v' = Some (locked_js r)"
  by (auto simp: commit_migrated_record_def transact_def store_fail_def split: if_splits sum.splits)

lemma commit_reseal_written:
  "commit_reseal expected r v = (Inr (), v') \<Longrightarrow> va_stored v' = Some (locked_js r)"
  by (auto simp: commit_reseal_def transact_def split: if_splits sum.splits dest!: sum_bind_Inr_iff [THEN iffD1])

lemma unlock_prepare_known:
  assumes "unlock_prepare E ab d unlock (va_stored (w_vault w)) = Inr l" and "reg_inv (register_of w)"
  shows "known w (ls_record l)"
proof -
  obtain v where "va_stored (w_vault w) = Some v" "validate_locked_record v = Inr (ls_record l)"
    using assms(1)
    by (auto simp: unlock_prepare_def sum_bind_Inr_iff read_locked_record_def new_lease_def
        split: option.splits if_splits)
  then have "stored_content (va_stored (w_vault w)) = Some (LockedContent (ls_record l))"
    by (simp add: stored_locked)
  then show ?thesis using assms(2) by (auto simp: known_def reg_inv_def register_of_def)
qed

lemma leases_known_step:
  "vault_step E w w' \<Longrightarrow> leases_known w \<Longrightarrow> reg_inv (register_of w) \<Longrightarrow> leases_known w'"
proof (induction rule: vault_step.induct)
  case (commit_create k w start r s dek abort res v)
  show ?case
    by (rule granted_known [OF commit_create(5)], simp add: new_lease_def)
      (use commit_new_written commit_create(4) in \<open>auto intro: write_known\<close>)
next
  case (commit_migrate k w c r s dek abort res v)
  show ?case
    by (rule granted_known [OF commit_migrate(5)], simp add: new_lease_def)
      (use commit_migrated_written commit_migrate(4) in \<open>auto intro: write_known\<close>)
next
  case (begin_unlock w d unlock l)
  then have "known w (ls_record l)" by (intro unlock_prepare_known)
  then show ?case
    by (intro leases_known_later [OF begin_unlock(3)]) (auto simp: op_known_def known_def)
next
  case (finish_unlock k w l aborted res v)
  then have "op_known w (UnlockOp l)" by (metis leases_known_def list_all_length)
  then show ?case
    by (intro leases_known_later [OF finish_unlock(4)])
      (auto simp: op_known_def known_def dest: finish_op_set dest!: grant_leases)
next
  case (commit_reseal k w i expected r s res v)
  have "known (record_write v (finish_op k ps w)) r" if "res = Inr ()" for ps
    using commit_reseal_written commit_reseal(4) that by (intro write_known) simp
  then show ?case
    by (intro leases_known_later [OF commit_reseal(5)] ; cases res)
      (auto simp: op_known_def dest: finish_op_set intro: history_write [THEN subsetD])
next
  case (finish_reseal k w i r s)
  then have "op_known w (ResealedOp i r s)" by (metis leases_known_def list_all_length)
  then have "known w r" by (simp add: op_known_def)
  then show ?case
    by (intro leases_known_later [OF finish_reseal(3)])
      (auto simp: known_def set_lease_def reseal_finish_def finish_op_def dest: in_set_takeD in_set_dropD
        dest!: set_update_subset_insert [THEN subsetD] split: if_splits)
next
  case (delete_lease i w res l v)
  then have "ls_record l = ls_record (w_leases w ! i)"
    by (auto simp: delete_record_def dispose_def split: sum.splits prod.splits)
  then have "known w (ls_record l)" using delete_lease by (auto simp: leases_known_def list_all_length)
  then have "known (set_lease i l (record_write v w)) (ls_record l)"
    using history_write [of w v] by (auto simp: known_def)
  then show ?case
    by (intro leases_known_later [OF delete_lease(4)])
      (auto simp: set_lease_def intro: known_mono op_known_mono history_write [THEN subsetD]
        dest!: set_update_subset_insert [THEN subsetD])
next
  case (dispose_lease i w)
  then have "known w (ls_record (w_leases w ! i))" by (auto simp: leases_known_def list_all_length)
  then show ?case
    by (intro leases_known_later [OF dispose_lease(2)])
      (auto simp: set_lease_def dispose_def known_def dest!: set_update_subset_insert [THEN subsetD])
qed (simp_all add: leases_known_updates leases_known_finish leases_known_write op_known_def)

section \<open>Reachable worlds\<close>

lemma reachable_facts:
  "vault_reachable E w \<Longrightarrow> list_all op_ok (w_ops w) \<and> reg_inv (register_of w) \<and> leases_known w"
proof (induction rule: vault_reachable.induct)
  case (start v)
  show ?case using vault_reachable_inv [OF vault_reachable.start [of E v]] by (simp add: leases_known_def)
next
  case (step w w')
  then show ?case
    using vault_reachable_inv [OF vault_reachable.step [OF step.hyps]] leases_known_step by blast
qed

lemma steps_refine:
  assumes "(vault_step E)\<^sup>*\<^sup>* w w'" and "vault_reachable E w"
  shows "vault_reachable E w' \<and> reg_step\<^sup>*\<^sup>* (register_of w) (register_of w')"
  using assms
proof (induction rule: rtranclp_induct)
  case (step u v)
  then have r: "vault_reachable E u" "reg_step\<^sup>*\<^sup>* (register_of w) (register_of u)" by blast+
  moreover have "reg_step (register_of u) (register_of v)"
    using vault_step_refines [OF step.hyps(2)] vault_reachable_inv [OF r(1)] by blast
  ultimately show ?case
    using vault_reachable.step [OF _ step.hyps(2)] by (auto intro: rtranclp.rtrancl_into_rtrancl)
qed simp

text \<open>C6: Every step of every window is a step of the versioned register, from the start on.\<close>

theorem vault_refines_register:
  "vault_reachable E w \<Longrightarrow> vault_step E w w' \<Longrightarrow>
     reg_inv (register_of w) \<and> reg_step (register_of w) (register_of w')"
  using vault_step_refines vault_reachable_inv by blast

text \<open>C8: Versions only move forward: when the vault holds a record again under the same id, it is the same
  content or a later revision.
\<close>

theorem versions_move_forward:
  "vault_reachable E w \<Longrightarrow> (vault_step E)\<^sup>*\<^sup>* w w' \<Longrightarrow>
   stored_content (va_stored (w_vault w)) = Some x \<Longrightarrow> stored_content (va_stored (w_vault w')) = Some y \<Longrightarrow>
   content_id y = content_id x \<Longrightarrow> y = x \<or> content_revision x < content_revision y"
proof -
  assume a: "vault_reachable E w" "(vault_step E)\<^sup>*\<^sup>* w w'"
    "stored_content (va_stored (w_vault w)) = Some x" "stored_content (va_stored (w_vault w')) = Some y"
    "content_id y = content_id x"
  have "x \<in> snd (register_of w)"
    using vault_reachable_inv [OF a(1)] a(3) by (auto simp: reg_inv_def register_of_def)
  then show ?thesis
    using reg_order [of "register_of w" "register_of w'" x y] steps_refine [OF a(2,1)] a(3-5)
    by (simp add: register_of_def)
qed

lemma superseded_content:
  assumes "reg_inv (register_of w)" and "LockedContent r \<in> set (w_history w)"
    and "stored_content (va_stored (w_vault w)) \<noteq> Some (LockedContent r)"
  shows "superseded (LockedContent r) (register_of w)"
  using assms by (fastforce simp: superseded_def reg_inv_def register_of_def split: option.splits)

lemma superseded_refused:
  assumes "superseded (LockedContent r) (register_of w)" and "expect_current m1 m2 r (va_stored (w_vault w)) = Inr ()"
  shows False
  using assms(1) expect_current_Inr [OF assms(2)]
  by (auto simp: superseded_def register_of_def stored_locked)

text \<open>C7: A lease whose record the vault no longer holds never writes again, however the other windows go
  on: resealing and deleting are refused and leave the vault as it is.
\<close>

theorem stale_lease_never_writes:
  "vault_reachable E w \<Longrightarrow> LockedContent r \<in> set (w_history w) \<Longrightarrow>
   stored_content (va_stored (w_vault w)) \<noteq> Some (LockedContent r) \<Longrightarrow> (vault_step E)\<^sup>*\<^sup>* w w' \<Longrightarrow>
   (\<exists>e. commit_reseal r r' (w_vault w') = (Inl e, w_vault w')) \<and>
   (\<exists>e. commit_tombstone r (w_vault w') = (Inl e, w_vault w'))"
proof -
  assume a: "vault_reachable E w" "LockedContent r \<in> set (w_history w)"
    "stored_content (va_stored (w_vault w)) \<noteq> Some (LockedContent r)" "(vault_step E)\<^sup>*\<^sup>* w w'"
  have "superseded (LockedContent r) (register_of w')"
    using superseded_content [OF _ a(2,3)] vault_reachable_inv [OF a(1)] steps_refine [OF a(4,1)] superseded_steps
    by blast
  then have no: "expect_current m1 m2 r (va_stored (w_vault w')) \<noteq> Inr ()" for m1 m2
    using superseded_refused by blast
  have refused: "\<exists>e. expect_current m1 m2 r (va_stored (w_vault w')) = Inl e" for m1 m2
    using no [of m1 m2] by (cases "expect_current m1 m2 r (va_stored (w_vault w'))") auto
  show ?thesis
    using refused [of "''The locked Matrix session was removed before reseal.''"
        "''A stale session lease cannot overwrite a newer vault revision.''"]
      refused [of "''The locked Matrix session was already removed.''"
        "''A stale session lease cannot delete a newer vault revision.''"]
    by (auto simp: commit_reseal_def commit_tombstone_def transact_def Let_def)
qed

text \<open>Comparing id and revision is enough: a lease whose version the vault holds is the record in the
  vault, bit for bit, so a commit never overwrites another window's content.
\<close>

theorem current_lease_is_stored:
  "vault_reachable E w \<Longrightarrow> l \<in> set (w_leases w) \<Longrightarrow> wf_locked (ls_record l) \<Longrightarrow>
   stored_content (va_stored (w_vault w)) = Some x \<Longrightarrow>
   content_id x = locked_record_id (ls_record l) \<Longrightarrow> content_revision x = locked_revision (ls_record l) \<Longrightarrow>
   x = LockedContent (ls_record l)"
proof -
  assume a: "vault_reachable E w" "l \<in> set (w_leases w)" "wf_locked (ls_record l)"
    "stored_content (va_stored (w_vault w)) = Some x"
    "content_id x = locked_record_id (ls_record l)" "content_revision x = locked_revision (ls_record l)"
  have "LockedContent (ls_record l) \<in> set (w_history w)" "reg_inv (register_of w)"
    using reachable_facts [OF a(1)] a(2,3) by (auto simp: leases_known_def known_def list_all_iff)
  then show ?thesis using a(4-6) by (auto simp: reg_inv_def register_of_def)
qed

text \<open>A disposed lease stays as it is: no step gives it a key, a session or another record.\<close>

theorem disposed_lease_stays:
  "vault_step E w w' \<Longrightarrow> i < length (w_leases w) \<Longrightarrow> ls_dek (w_leases w ! i) = None \<Longrightarrow>
     ls_session (w_leases w ! i) = None \<Longrightarrow> w_leases w' ! i = w_leases w ! i"
proof (induction rule: vault_step.induct)
  case (delete_lease j w res l v)
  then show ?case
    by (cases "j = i") (auto simp: set_lease_def delete_record_def assert_active_def store_fail_def)
next
  case (dispose_lease j w)
  then show ?case by (cases "j = i") (auto simp: set_lease_def dispose_def)
next
  case (finish_reseal k w j r s)
  then show ?case by (cases "j = i") (auto simp: set_lease_def reseal_finish_def finish_op_def)
qed (auto simp: grant_def finish_op_def nth_append split: sum.split)

end
