(* ===== verification/Store_Lifecycle.thy ===== *)
theory Store_Lifecycle
  imports Store_Safety
begin

text \<open>
  The life of a session in the vault when no other window intervenes: what is created is found by
  inspection and opens to the same lease, a resealed session opens to its new tokens, deleting and
  forgetting lead to a cleanup marker, the cleanup removes the session's databases and no others,
  and completing it frees the vault.
\<close>

section \<open>Written records are read back\<close>

lemma box_read: "validate_aes_box (box_js a) f hi ex = Inr b \<Longrightarrow> b = a"
  by (auto simp: validate_aes_box_def box_js_def sum_bind_Inr_iff)

lemma storage_read:
  assumes "validate_storage (storage_js a) = Inr b"
  shows "b = a"
proof -
  obtain p l where p: "js_opt ''cryptoDatabasePrefix'' (storage_js a) = JStr p"
      and l: "optional_string (js_opt ''legacySyncDatabase'' (storage_js a)) ''legacy sync database name'' 180 = Inr l"
      and b: "b = \<lparr>crypto_database_prefix = p, legacy_sync_database = l\<rparr>"
    using assms by (simp add: validate_storage_def sum_bind_Inr_iff del: optional_string_Inr) blast
  have "l = legacy_sync_database a"
    using l by (cases "legacy_sync_database a"; cases l) (simp_all add: storage_js_def)
  moreover have "p = crypto_database_prefix a" using p by (simp add: storage_js_def)
  ultimately show ?thesis using b by simp
qed

lemma transports_read: "validate_transports (js_array (map JStr ts)) = Inr us \<Longrightarrow> us = ts"
  by (auto simp: validate_transports_def comp_def)

lemma slot_read: "validate_unlock_slot (slot_js a) = Inr b \<Longrightarrow> b = a"
proof (cases a)
  case (RecoverySlot r)
  assume "validate_unlock_slot (slot_js a) = Inr b"
  then show ?thesis
    by (auto simp: RecoverySlot validate_unlock_slot_def slot_js_def validate_recovery_slot_def sum_bind_Inr_iff
        identifier_Inr dest!: box_read)
next
  case (PrfSlot w)
  assume "validate_unlock_slot (slot_js a) = Inr b"
  then show ?thesis
    by (auto simp: PrfSlot validate_unlock_slot_def slot_js_def validate_prf_slot_def sum_bind_Inr_iff
        identifier_Inr rp_id_Inr dest!: box_read transports_read)
qed

lemma slots_read: "map_sum validate_unlock_slot (map slot_js ss) = Inr ts \<Longrightarrow> ts = ss"
  by (induction ss arbitrary: ts) (auto simp: sum_bind_Inr_iff dest: slot_read)

lemma locked_read: "validate_locked_record (locked_js a) = Inr b \<Longrightarrow> b = a"
  by (auto simp: validate_locked_record_def locked_js_def Let_def sum_bind_Inr_iff identifier_Inr
      dest!: slots_read storage_read box_read)

section \<open>Creating and unlocking\<close>

lemma then_op_Inr:
  "then_op m k v = (Inr x, v') \<longleftrightarrow> (\<exists>y u. m v = (Inr y, u) \<and> k y u = (Inr x, v'))"
  by (auto simp: then_op_def split: prod.splits sum.splits)

lemma op_Inr [simp]:
  "result_op r v = (Inr x, v') \<longleftrightarrow> r = Inr x \<and> v' = v"
  "stored_op f v = (Inr x, v') \<longleftrightarrow> f (va_stored v) = Inr x \<and> v' = v"
  by (auto simp: result_op_def stored_op_def)

lemma ownership_Inr:
  "with_available_vault_ownership E granted aborted i operation v = (Inr x, v') \<longleftrightarrow>
     \<not> aborted i \<and> se_has_locks E \<and> \<not> aborted (Suc i) \<and> granted \<and> operation v = (Inr x, v')"
  by (auto simp: with_available_vault_ownership_def split: prod.splits sum.splits store_error.splits vault_error.splits)

lemma create_effect:
  assumes "create_locked_session E granted ab NoAbort input key en g v = (Inr l, v')"
  shows "\<exists>s r dek. normalize_new_session E input = Inr s \<and> l = new_lease r s dek \<and> wf_locked r \<and>
     v' = v\<lparr>va_stored := Some (locked_js r)\<rparr> \<and> se_has_locks E \<and>
     create_sealed_record (se_crypto E) s
       \<lparr>crypto_database_prefix = ses_crypto_database_prefix s, legacy_sync_database = None\<rparr> key en g = Inr (r, dek)"
proof -
  obtain s start r dek where s: "normalize_new_session E input = Inr s" "se_has_locks E"
      and p: "create_prepare E ab s key en g (va_stored v) = Inr (start, r, dek)"
      and c: "commit_new_record start r NoAbort v = (Inr (), v')" and l: "l = new_lease r s dek"
    using assms by (auto simp: create_locked_session_def then_op_Inr ownership_Inr)
  obtain sealed where sealed: "create_sealed_record (se_crypto E) s
       \<lparr>crypto_database_prefix = ses_crypto_database_prefix s, legacy_sync_database = None\<rparr> key en g = Inr (sealed, dek)"
      "validate_locked_record (locked_js sealed) = Inr r"
    using p by (auto simp: create_prepare_def pair_bind_Inr sum_bind_Inr_iff)
  then have "r = sealed" "wf_locked r" by (auto dest: locked_read locked_sound)
  moreover have "v' = v\<lparr>va_stored := Some (locked_js r)\<rparr>"
    using c by (auto simp: commit_new_record_def transact_def store_fail_def split: if_splits sum.splits)
  ultimately show ?thesis using s l sealed(1) by blast
qed

text \<open>Homeserver addresses that the policy leaves as they are.\<close>

definition address_normal :: "store_env \<Rightarrow> persisted_session \<Rightarrow> bool" where
  "address_normal E s \<longleftrightarrow> text_upto 4096 (ses_base_url s) \<and>
     assert_allowed_homeserver_url (se_parse_url E) (se_production E) (se_origin E) (ses_base_url s) = Inr (ses_base_url s)"

lemma normalized_again:
  assumes "normalize_new_session E input = Inr s" and "address_normal E s"
  shows "normalize_new_session E (reparsed s) = Inr s"
  using session_sound [OF assms(1) [unfolded normalize_new_session_def]] assms(2)
  by (auto simp: normalize_new_session_def address_normal_def intro!: session_normalized_again)

lemma locked_kind: "is_known_kind (locked_js r) ''locked-matrix-session''"
  by (simp add: is_known_kind_def locked_js_def)

lemma inspect_locked:
  "wf_locked r \<Longrightarrow> inspect_session E (Some (locked_js r)) = Inr (VaultLocked (descriptor_from_record r))"
  by (simp add: inspect_session_def locked_kind locked_complete Let_def)

lemma matches_own_descriptor: "record_matches_descriptor r (descriptor_from_record r)"
  by (simp add: record_matches_descriptor_def descriptor_from_record_def)

text \<open>What unlocking a stored record needs, and that it then gives exactly this lease.\<close>

lemma unlock_stored:
  assumes wf: "wf_locked r" and locks: "se_has_locks E" and stored: "va_stored v = Some (locked_js r)"
    and legacy: "legacy_sync_database (locked_storage r) = None"
    and dek: "unlock_dek E r unlock = Inr dek"
    and payload: "decrypt_session_payload (se_crypto E) r dek = Inr (reparsed s)"
    and session: "normalize_new_session E (reparsed s) = Inr s"
    and same: "ses_crypto_database_prefix s = crypto_database_prefix (locked_storage r)"
  shows "unlock_session E True (\<lambda>_. False) (descriptor_from_record r) unlock v = (Inr (new_lease r s dek), v)"
proof -
  have prep: "unlock_prepare E (\<lambda>_. False) (descriptor_from_record r) unlock (va_stored v) = Inr (new_lease r s dek)"
    by (simp add: unlock_prepare_def assert_operation_active_def read_locked_record_def stored locked_complete [OF wf]
        matches_own_descriptor dek payload session same)
  have cur: "assert_current (new_lease r s dek) (va_stored v) = Inr ()"
    by (simp add: assert_current_def assert_active_def new_lease_def stored locked_complete [OF wf]
        locked_equal)
  have fin: "unlock_finish E (\<lambda>_. False) (new_lease r s dek) v = (Inr (new_lease r s dek), v)"
    using cur legacy
    by (simp add: unlock_finish_def then_op_def result_op_def stored_op_def assert_operation_active_def
        delete_authenticated_legacy_sync_database_def authenticated_storage_def assert_active_def new_lease_def)
  show ?thesis
    using prep fin locks
    by (simp add: unlock_session_def then_op_def result_op_def stored_op_def assert_operation_active_def
        with_available_vault_ownership_def)
qed

text \<open>C9: A created session is found by inspection, and the recovery key it was created with opens it to the
  same lease: same record, same session, same key.
\<close>

theorem create_then_unlock:
  "aead_laws (se_crypto E) \<Longrightarrow>
   create_locked_session E granted ab NoAbort input key en g v = (Inr l, v') \<Longrightarrow>
   if_some (address_normal E) (ls_session l) \<Longrightarrow>
   inspect_session E (va_stored v') = Inr (VaultLocked (descriptor_from_record (ls_record l))) \<and>
   unlock_session E True (\<lambda>_. False) (descriptor_from_record (ls_record l)) (UnlockRecovery key None) v' = (Inr l, v')"
proof -
  assume laws: "aead_laws (se_crypto E)"
    and cr: "create_locked_session E granted ab NoAbort input key en g v = (Inr l, v')"
    and url: "if_some (address_normal E) (ls_session l)"
  obtain s r dek where e: "normalize_new_session E input = Inr s" "l = new_lease r s dek" "wf_locked r"
      "v' = v\<lparr>va_stored := Some (locked_js r)\<rparr>" "se_has_locks E"
    and sealed: "create_sealed_record (se_crypto E) s
       \<lparr>crypto_database_prefix = ses_crypto_database_prefix s, legacy_sync_database = None\<rparr> key en g = Inr (r, dek)"
    using create_effect [OF cr] by blast
  have lease: "ls_record l = r" "ls_session l = Some s" by (simp_all add: e(2) new_lease_def)
  have st: "locked_storage r = \<lparr>crypto_database_prefix = ses_crypto_database_prefix s, legacy_sync_database = None\<rparr>"
    using sealed_parts [OF sealed] by blast
  have "unlock_session E True (\<lambda>_. False) (descriptor_from_record r) (UnlockRecovery key None) v' = (Inr (new_lease r s dek), v')"
  proof (rule unlock_stored [OF e(3,5)])
    show "unlock_dek E r (UnlockRecovery key None) = Inr dek"
      using sealed_recovery_opens [OF laws sealed] by (simp add: unlock_dek_def)
    show "normalize_new_session E (reparsed s) = Inr s"
      using normalized_again [OF e(1)] url lease(2) by simp
  qed (simp_all add: e(4) st sealed_payload_opens [OF laws sealed])
  then show ?thesis by (simp add: inspect_locked e(3,4) lease(1) e(2) [symmetric])
qed

text \<open>C11: After a token refresh the new session is what every unlock method of the record opens, and the
  lease that resealed it is the one the unlock gives.
\<close>

theorem reseal_then_unlock:
  "aead_laws (se_crypto E) \<Longrightarrow> se_has_locks E \<Longrightarrow>
   reseal_prepare E l input reason g = Inr (r, s) \<Longrightarrow> address_normal E s \<Longrightarrow> wf_locked r \<Longrightarrow>
   commit_reseal (ls_record l) r v = (Inr (), v') \<Longrightarrow>
   ls_dek l = Some dek \<Longrightarrow> unlock_dek E (ls_record l) unlock = Inr dek \<Longrightarrow>
   legacy_sync_database (locked_storage (ls_record l)) = None \<Longrightarrow>
   ses_crypto_database_prefix s = crypto_database_prefix (locked_storage (ls_record l)) \<Longrightarrow>
   locked_revision r = locked_revision (ls_record l) + 1 \<and>
   unlock_session E True (\<lambda>_. False) (descriptor_from_record r) unlock v' = (Inr (reseal_finish r s l), v')"
proof -
  assume laws: "aead_laws (se_crypto E)" and locks: "se_has_locks E"
    and prep: "reseal_prepare E l input reason g = Inr (r, s)" and url: "address_normal E s"
    and wf: "wf_locked r" and commit: "commit_reseal (ls_record l) r v = (Inr (), v')"
    and dek: "ls_dek l = Some dek" "unlock_dek E (ls_record l) unlock = Inr dek"
    and legacy: "legacy_sync_database (locked_storage (ls_record l)) = None"
    and pre: "ses_crypto_database_prefix s = crypto_database_prefix (locked_storage (ls_record l))"
  obtain payload where p: "normalize_new_session E input = Inr s"
      "encrypt_session_payload (se_crypto E) (ls_record l) (locked_revision (ls_record l) + 1) s dek g = Inr payload"
    and r: "r = (ls_record l)\<lparr>locked_revision := locked_revision (ls_record l) + 1, locked_payload := payload\<rparr>"
    using reseal_prepare_Inr [OF prep] dek(1) by auto
  have "unlock_session E True (\<lambda>_. False) (descriptor_from_record r) unlock v' = (Inr (new_lease r s dek), v')"
  proof (rule unlock_stored [OF wf locks commit_reseal_written [OF commit]])
    show "unlock_dek E r unlock = Inr dek"
      using dek(2) by (cases unlock) (simp_all add: unlock_dek_def r unlock_ignores_payload)
    show "decrypt_session_payload (se_crypto E) r dek = Inr (reparsed s)"
      unfolding r by (rule resealed_payload_opens [OF laws p(2)])
    show "normalize_new_session E (reparsed s) = Inr s" by (rule normalized_again [OF p(1) url])
  qed (use legacy pre in \<open>simp_all add: r\<close>)
  moreover have "reseal_finish r s l = new_lease r s dek" by (simp add: reseal_finish_def dek(1) new_lease_def)
  ultimately show ?thesis by (simp add: r)
qed

section \<open>Deleting, forgetting and cleaning up\<close>

lemma tombstone_kind:
  "is_known_kind (tombstone_js t) ''matrix-session-tombstone''" "\<not> is_known_kind (tombstone_js t) ''locked-matrix-session''"
  "is_known_kind (finished_tombstone_js rid n) ''matrix-session-tombstone''"
  "\<not> is_known_kind (finished_tombstone_js rid n) ''locked-matrix-session''"
  by (simp_all add: is_known_kind_def tombstone_js_def finished_tombstone_js_def)

lemma inspect_marker:
  "wf_tombstone t \<Longrightarrow> tomb_cleanup t = Some c \<Longrightarrow>
     inspect_session E (Some (tombstone_js t)) = Inr (VaultCleanup (cleanup_description t c))"
  by (simp add: inspect_session_def tombstone_kind tombstone_complete Let_def)

lemma finished_complete:
  assumes "wf_tombstone \<lparr>tomb_record_id = rid, tomb_revision = n, tomb_cleanup = None\<rparr>"
  shows "validate_tombstone (finished_tombstone_js rid n) =
    Inr \<lparr>tomb_record_id = rid, tomb_revision = n, tomb_cleanup = None\<rparr>"
  using assms
  by (auto simp: validate_tombstone_def finished_tombstone_js_def wf_tombstone_def check_def exact_keys_def
      accepted_parts validate_cleanup_def)

lemma marker_of_description: "tomb_cleanup t = Some c \<Longrightarrow> marker_matches t (cleanup_description t c)"
  by (auto simp: marker_matches_def cleanup_description_def cleanup_scope_matches_descriptor_def
      split: cleanup_scope.split)

lemma complete_marker:
  assumes "wf_tombstone t" and "tomb_cleanup t = Some c" and "va_stored v = Some (tombstone_js t)"
  shows "complete_local_session_cleanup (cleanup_description t c) v =
    (Inr (), v\<lparr>va_stored := Some (finished_tombstone_js (tomb_record_id t) (tomb_revision t + 1))\<rparr>)"
  by (simp add: complete_local_session_cleanup_def transact_def assms tombstone_complete marker_of_description)

text \<open>The owned namespaces.\<close>

lemma take_append_suffix: "suffix s name \<Longrightarrow> take (length name - length s) name @ s = name"
  by (auto simp: suffix_def)

lemma exact_names_owned:
  assumes "wf_storage s" and "n \<in> set (exact_cleanup_names s)"
  shows "owned_database n"
proof -
  consider "legacy_sync_database s = Some n" | x where "x \<in> set crypto_suffixes" "n = crypto_database_prefix s @ x"
    using assms(2) by (auto simp: exact_cleanup_names_def split: option.splits)
  then show ?thesis
  proof cases
    case 1
    then show ?thesis using assms(1) by (simp add: wf_storage_def owned_database_def owned_legacy_sync_database_def)
  next
    case 2
    then have "suffix x n \<and> crypto_prefix_pattern (take (length n - length x) n)"
      using assms(1) by (simp add: wf_storage_def suffix_def)
    then show ?thesis
      using 2(1) by (auto simp: owned_database_def owned_rust_crypto_database_def list_ex_iff)
  qed
qed

lemma cleanup_names_owned:
  assumes "cleanup_names E d v = Inr names"
  shows "list_all owned_database names \<and>
    (\<exists>x t. va_stored v = Some x \<and> validate_tombstone x = Inr t \<and> marker_matches t d \<and> tomb_cleanup t \<noteq> None)"
proof -
  obtain x t c where x: "va_stored v = Some x" "validate_tombstone x = Inr t" "marker_matches t d" "tomb_cleanup t = Some c"
    and n: "(case c of AllOwned \<Rightarrow> enumerate_owned_matrix_databases E v
      | ExactCleanup s \<Rightarrow> Inr (exact_cleanup_names s)) = Inr names"
    using assms by (auto simp: cleanup_names_def sum_bind_Inr_iff split: option.splits if_splits)
  have "list_all owned_database names"
  proof (cases c)
    case (ExactCleanup s)
    have "wf_storage s" using tombstone_sound [OF x(2)] x(4) ExactCleanup by (simp add: wf_tombstone_def)
    then show ?thesis using n ExactCleanup exact_names_owned by (auto simp: list_all_iff)
  qed (use n in \<open>auto simp: enumerate_owned_matrix_databases_def list_all_iff split: enumeration.splits\<close>)
  then show ?thesis using x by auto
qed

lemma delete_one:
  assumes "delete_database_strict E n v = (r, v')"
  shows "va_stored v' = va_stored v" "set (va_databases v') \<subseteq> set (va_databases v)"
    "set (va_databases v) - set (va_databases v') \<subseteq> {n}"
    "r = Inr () \<Longrightarrow> n \<notin> set (va_databases v')"
  using assms by (auto simp: delete_database_strict_def split: delete_outcome.splits)

lemma delete_all_effect:
  "delete_all E names v = (failed, v') \<Longrightarrow>
     va_stored v' = va_stored v \<and> set (va_databases v') \<subseteq> set (va_databases v) \<and>
     set (va_databases v) - set (va_databases v') \<subseteq> set names \<and>
     (\<not> failed \<longrightarrow> set names \<inter> set (va_databases v') = {})"
proof (induction names arbitrary: v failed v')
  case (Cons n ns)
  obtain r u where u: "delete_database_strict E n v = (r, u)" by fastforce
  obtain f where f: "delete_all E ns u = (f, v')" and failed: "failed = (f \<or> (case r of Inl e \<Rightarrow> True | Inr _ \<Rightarrow> False))"
    using Cons.prems u by (auto split: prod.splits)
  have r: "\<not> failed \<Longrightarrow> r = Inr ()" using failed by (cases r) auto
  show ?case using delete_one [OF u] Cons.IH [OF f] r failed by auto
qed simp

text \<open>C12: Cleanup never touches the vault entry, deletes only databases in the program's own namespaces,
  and those only under a stored marker that matches the descriptor; when it reports success, every
  database the marker covers is gone.
\<close>

theorem cleanup_deletes_only_owned:
  "cleanup_session_databases_with_ownership E d v = (res, v') \<Longrightarrow>
     va_stored v' = va_stored v \<and>
     (\<forall>n \<in> set (va_databases v) - set (va_databases v'). owned_database n) \<and>
     (v' \<noteq> v \<longrightarrow> (\<exists>x t. va_stored v = Some x \<and> validate_tombstone x = Inr t \<and> marker_matches t d)) \<and>
     (res = Inr () \<longrightarrow> (\<exists>names. cleanup_names E d v = Inr names \<and> set names \<inter> set (va_databases v') = {}))"
proof -
  assume a: "cleanup_session_databases_with_ownership E d v = (res, v')"
  show ?thesis
  proof (cases "cleanup_names E d v")
    case (Inl e)
    then show ?thesis using a by (auto simp: cleanup_session_databases_with_ownership_def)
  next
    case (Inr names)
    obtain failed u where u: "delete_all E names v = (failed, u)" by fastforce
    then have v: "v' = u" "res = (if failed then store_fail Unavailable
        ''One or more local session databases could not be removed.'' else Inr ())"
      using a Inr by (auto simp: cleanup_session_databases_with_ownership_def)
    show ?thesis
      using delete_all_effect [OF u] cleanup_names_owned [OF Inr] Inr v by (auto simp: list_all_iff)
  qed
qed

text \<open>C14: Logging out: deleting the record leaves a marker that inspection reports, whatever databases are
  left; completing it leaves an empty vault that accepts a new session.
\<close>

theorem logout_frees_vault:
  "wf_locked (ls_record l) \<Longrightarrow> locked_revision (ls_record l) + 2 \<le> max_safe \<Longrightarrow>
   delete_record l v = ((Inr (c, s), l'), v1) \<Longrightarrow> va_stored v2 = va_stored v1 \<Longrightarrow>
   l' = dispose l \<and> s = ls_session l \<and> inspect_session E (va_stored v2) = Inr (VaultCleanup c) \<and>
   (\<exists>v3 x. complete_local_session_cleanup c v2 = (Inr (), v3) \<and>
      inspect_session E (va_stored v3) = Inr VaultEmpty \<and>
      read_available_vault_starting_state (va_stored v3) = Inr (Some x))"
proof -
  assume wf: "wf_locked (ls_record l)" and rev: "locked_revision (ls_record l) + 2 \<le> max_safe"
    and d: "delete_record l v = ((Inr (c, s), l'), v1)" and same: "va_stored v2 = va_stored v1"
  define t where "t = \<lparr>tomb_record_id = locked_record_id (ls_record l), tomb_revision = locked_revision (ls_record l) + 1,
      tomb_cleanup = Some (ExactCleanup (locked_storage (ls_record l)))\<rparr>"
  obtain e where commit: "commit_tombstone (ls_record l) v = (Inr c, v1)" and l: "l' = dispose l" "s = ls_session l"
    using d by (auto simp: delete_record_def split: sum.splits prod.splits)
  then have v1: "va_stored v1 = Some (tombstone_js t)" and c: "c = cleanup_description t (ExactCleanup (locked_storage (ls_record l)))"
    by (auto simp: commit_tombstone_def transact_def Let_def t_def split: sum.splits
        dest!: sum_bind_Inr_iff [THEN iffD1])
  have wft: "wf_tombstone t" "wf_tombstone \<lparr>tomb_record_id = tomb_record_id t, tomb_revision = tomb_revision t + 1, tomb_cleanup = None\<rparr>"
    using wf rev by (auto simp: wf_locked_def wf_tombstone_def t_def)
  have cl: "tomb_cleanup t = Some (ExactCleanup (locked_storage (ls_record l)))" by (simp add: t_def)
  have v2: "va_stored v2 = Some (tombstone_js t)" using same v1 by simp
  let ?v3 = "v2\<lparr>va_stored := Some (finished_tombstone_js (tomb_record_id t) (tomb_revision t + 1))\<rparr>"
  have "complete_local_session_cleanup c v2 = (Inr (), ?v3)"
    unfolding c by (rule complete_marker [OF wft(1) cl v2])
  moreover have "inspect_session E (va_stored ?v3) = Inr VaultEmpty"
    by (simp add: inspect_session_def tombstone_kind finished_complete [OF wft(2)] Let_def)
  moreover have "\<exists>x. read_available_vault_starting_state (va_stored ?v3) = Inr (Some x)"
    by (simp add: read_available_vault_starting_state_def finished_complete [OF wft(2)])
  ultimately show ?thesis
    using l inspect_marker [OF wft(1) cl, of E] v2 c by auto
qed

lemma legacy_candidate_names:
  assumes "normalize_legacy_candidate E v = Inr c"
  shows "wf_storage \<lparr>crypto_database_prefix = lc_prefix c, legacy_sync_database = Some (lc_sync c)\<rparr>"
proof -
  obtain u d where "lc_prefix c = crypto_database_prefix (legacy_storage_metadata u d)"
      "lc_sync c = the (legacy_sync_database (legacy_storage_metadata u d))"
    using assms by (auto simp: normalize_legacy_candidate_def Let_def sum_bind_Inr_iff)
  moreover have "\<exists>n. legacy_sync_database (legacy_storage_metadata u d) = Some n"
    by (simp add: legacy_storage_metadata_def Let_def)
  ultimately show ?thesis using legacy_storage_wf [of u d] by (auto simp: wf_storage_def)
qed

lemma forget_scope_wf:
  assumes "forget_scope E rid stored = (rid', n, scope)" and "spells 16 16 rid"
    and "\<And>x. stored_content stored = Some x \<Longrightarrow> content_revision x < max_safe"
  shows "wf_tombstone \<lparr>tomb_record_id = rid', tomb_revision = n, tomb_cleanup = Some scope\<rparr>"
proof -
  have one: "1 \<le> max_safe" by (simp add: max_safe_def)
  show ?thesis
  proof (cases stored)
    case (Some v)
    consider (locked) r where "is_known_kind v ''locked-matrix-session''" "validate_locked_record v = Inr r"
      | (dead) t where "\<not> is_known_kind v ''locked-matrix-session''" "is_known_kind v ''matrix-session-tombstone''"
          "validate_tombstone v = Inr t"
      | (legacy) c where "normalize_legacy_candidate E v = Inr c" "rid' = rid" "n = 1"
          "scope = ExactCleanup \<lparr>crypto_database_prefix = lc_prefix c, legacy_sync_database = Some (lc_sync c)\<rparr>"
      | (unreadable) "rid' = rid" "n = 1" "scope = AllOwned"
      using assms(1) Some by (auto simp: forget_scope_def split: if_splits sum.splits)
    then show ?thesis
    proof cases
      case (locked r)
      have "wf_locked r" by (rule locked_sound [OF locked(2)])
      then show ?thesis
        using assms(1,3) Some locked by (auto simp: forget_scope_def stored_locked wf_tombstone_def wf_locked_def)
    next
      case (dead t)
      have "wf_tombstone t" by (rule tombstone_sound [OF dead(3)])
      then show ?thesis
        using assms(1,3) Some dead
        by (auto simp: forget_scope_def stored_dead wf_tombstone_def split: option.splits)
    next
      case (legacy c)
      then show ?thesis using legacy_candidate_names one assms(2) by (simp add: wf_tombstone_def)
    qed (use one assms(2) in \<open>simp add: wf_tombstone_def\<close>)
  qed (use assms one in \<open>auto simp: forget_scope_def wf_tombstone_def\<close>)
qed

lemma forget_scope_revision:
  assumes "forget_scope E rid stored = (rid', n, scope)"
  shows "n = 1 \<or> (\<exists>x. stored_content stored = Some x \<and> n = content_revision x + 1)"
  using assms stored_locked stored_dead
  by (fastforce simp: forget_scope_def split: option.splits if_splits sum.splits)

lemma finished_accepts:
  assumes "wf_tombstone \<lparr>tomb_record_id = rid, tomb_revision = n, tomb_cleanup = None\<rparr>"
  shows "inspect_session E (Some (finished_tombstone_js rid n)) = Inr VaultEmpty"
    and "\<exists>x. read_available_vault_starting_state (Some (finished_tombstone_js rid n)) = Inr (Some x)"
  by (simp_all add: inspect_session_def tombstone_kind finished_complete [OF assms] Let_def
      read_available_vault_starting_state_def)

lemma forget_recovers:
  "se_has_locks E \<Longrightarrow> wc_available (se_crypto E) \<Longrightarrow>
   (\<forall>x. stored_content (va_stored v) = Some x \<longrightarrow> content_revision x < max_safe) \<Longrightarrow>
   \<exists>c v'. forget_local_session E True g v = (Inr c, v') \<and>
     inspect_session E (va_stored v') = Inr (VaultCleanup c) \<and>
     (\<exists>v''. complete_local_session_cleanup c v' = (Inr (), v'') \<and>
        ((\<forall>x. stored_content (va_stored v) = Some x \<longrightarrow> content_revision x + 1 < max_safe) \<longrightarrow>
           inspect_session E (va_stored v'') = Inr VaultEmpty \<and>
           (\<exists>x. read_available_vault_starting_state (va_stored v'') = Inr (Some x))))"
proof -
  assume a: "se_has_locks E" "wc_available (se_crypto E)"
    "\<forall>x. stored_content (va_stored v) = Some x \<longrightarrow> content_revision x < max_safe"
  define rid where "rid = encode_base64url (stake 16 g)"
  have rnd: "random_base64url_bytes (se_crypto E) 16 g = Inr (rid, sdrop 16 g)"
    using a(2) by (simp add: random_base64url_bytes_def random_bytes_def require_web_crypto_def rid_def)
  obtain rid' n scope where sc: "forget_scope E rid (va_stored v) = (rid', n, scope)" by (cases "forget_scope E rid (va_stored v)")
  define t where "t = \<lparr>tomb_record_id = rid', tomb_revision = n, tomb_cleanup = Some scope\<rparr>"
  have "spells 16 16 rid" by (simp add: rid_def)
  then have wf: "wf_tombstone t" unfolding t_def using forget_scope_wf [OF sc] a(3) by blast
  have cl: "tomb_cleanup t = Some scope" by (simp add: t_def)
  let ?v = "v\<lparr>va_stored := Some (tombstone_js t)\<rparr>"
  have "forget_local_session E True g v = (Inr (cleanup_description t scope), ?v)"
    using a(1) by (simp add: forget_local_session_def with_available_vault_ownership_def transact_def forget_action_def
        rnd sc Let_def t_def)
  moreover have "inspect_session E (va_stored ?v) = Inr (VaultCleanup (cleanup_description t scope))"
    using inspect_marker [OF wf cl] by simp
  moreover have "wf_tombstone \<lparr>tomb_record_id = rid', tomb_revision = n + 1, tomb_cleanup = None\<rparr>"
    if "\<forall>x. stored_content (va_stored v) = Some x \<longrightarrow> content_revision x + 1 < max_safe"
    using wf forget_scope_revision [OF sc] that by (auto simp: wf_tombstone_def t_def max_safe_def)
  ultimately show ?thesis using complete_marker [OF wf cl, of ?v] finished_accepts by (auto simp: t_def)
qed

text \<open>C13: Forgetting works whether the stored value is readable or not, provided that the vault's lock is
  free, that Web Crypto is there and that a readable record or marker is below the largest revision:
  the vault then holds a marker that inspection reports and that completion replaces. Below the
  largest revision but one, what completion leaves is an empty vault that takes a new session.
\<close>

theorem forget_always_recovers:
  "se_has_locks E \<Longrightarrow> wc_available (se_crypto E) \<Longrightarrow>
   (\<forall>x. stored_content (va_stored v) = Some x \<longrightarrow> content_revision x < max_safe) \<Longrightarrow>
   \<exists>c v'. forget_local_session E True g v = (Inr c, v') \<and>
     inspect_session E (va_stored v') = Inr (VaultCleanup c) \<and>
     (\<exists>v''. complete_local_session_cleanup c v' = (Inr (), v'') \<and>
        ((\<forall>x. stored_content (va_stored v) = Some x \<longrightarrow> content_revision x + 1 < max_safe) \<longrightarrow>
           inspect_session E (va_stored v'') = Inr VaultEmpty \<and>
           (\<exists>x. read_available_vault_starting_state (va_stored v'') = Inr (Some x))))"
  by (rule forget_recovers)

lemma marker_past_the_end:
  assumes "max_safe < tomb_revision t"
  shows "validate_tombstone (tombstone_js t) = corrupt ''The stored session tombstone is invalid.''"
  using assms
  by (auto simp: validate_tombstone_def tombstone_js_def check_def exact_keys_def)

lemma forget_locked:
  assumes "se_has_locks E" and "wc_available (se_crypto E)" and "wf_locked r" and "va_stored v = Some (locked_js r)"
  defines "t \<equiv> \<lparr>tomb_record_id = locked_record_id r, tomb_revision = locked_revision r + 1,
      tomb_cleanup = Some AllOwned\<rparr>"
  shows "forget_local_session E True g v =
     (Inr (cleanup_description t AllOwned), v\<lparr>va_stored := Some (tombstone_js t)\<rparr>)"
  using assms
  by (simp add: forget_local_session_def with_available_vault_ownership_def transact_def forget_action_def
      random_base64url_bytes_def random_bytes_def require_web_crypto_def forget_scope_def locked_kind
      locked_complete Let_def)

text \<open>C24: What forgetting does at the largest revision a record can have: the marker it writes is refused
  by inspection as corrupt, and the cleanup it describes cannot be completed. Forgetting once more
  starts over, with a fresh marker that covers every owned database.
\<close>

theorem last_revision_wedges:
  "se_has_locks E \<Longrightarrow> wc_available (se_crypto E) \<Longrightarrow> wf_locked r \<Longrightarrow> locked_revision r = max_safe \<Longrightarrow>
   va_stored v = Some (locked_js r) \<Longrightarrow>
   \<exists>c v'. forget_local_session E True g v = (Inr c, v') \<and>
     inspect_session E (va_stored v') = Inr (VaultCorrupt ''The stored session tombstone is invalid.'') \<and>
     (\<exists>e. complete_local_session_cleanup c v' = (Inl e, v')) \<and>
     (\<exists>c2 v2. forget_local_session E True g2 v' = (Inr c2, v2) \<and>
        inspect_session E (va_stored v2) = Inr (VaultCleanup c2))"
proof -
  assume a: "se_has_locks E" "wc_available (se_crypto E)" "wf_locked r" "locked_revision r = max_safe"
    "va_stored v = Some (locked_js r)"
  define t where "t = \<lparr>tomb_record_id = locked_record_id r, tomb_revision = locked_revision r + 1,
      tomb_cleanup = Some AllOwned\<rparr>"
  let ?c = "cleanup_description t AllOwned" and ?v = "v\<lparr>va_stored := Some (tombstone_js t)\<rparr>"
  have f: "forget_local_session E True g v = (Inr ?c, ?v)"
    unfolding t_def using a by (intro forget_locked)
  have bad: "validate_tombstone (tombstone_js t) = corrupt ''The stored session tombstone is invalid.''"
    by (rule marker_past_the_end) (simp add: t_def a(4))
  have i: "inspect_session E (va_stored ?v) = Inr (VaultCorrupt ''The stored session tombstone is invalid.'')"
    using bad by (simp add: inspect_session_def tombstone_kind Let_def corrupt_def)
  have c: "\<exists>e. complete_local_session_cleanup ?c ?v = (Inl e, ?v)"
    using bad by (simp add: complete_local_session_cleanup_def transact_def from_vault_def corrupt_def)
  have "stored_content (va_stored ?v) = None"
    using bad locked_fields(1) [of "tombstone_js t"] tombstone_kind(2) [of t]
    by (auto simp: stored_content_def corrupt_def is_known_kind_def tombstone_js_def split: sum.splits)
  then have "\<exists>c2 v2. forget_local_session E True g2 ?v = (Inr c2, v2) \<and>
      inspect_session E (va_stored v2) = Inr (VaultCleanup c2)"
    using forget_recovers [OF a(1,2), of ?v g2] by fastforce
  with f i c show ?thesis by blast
qed

section \<open>Cancellation\<close>

text \<open>C15: A cancellation that comes while the transaction's requests run leaves the vault untouched. One
  that comes while the transaction is committing does not: the record stays in the vault, but the
  operation fails and no lease owns it.
\<close>

theorem cancelled_commit_keeps_record:
  "create_locked_session E granted ab NoAbort input key en g v = (Inr l, v') \<Longrightarrow>
     create_locked_session E granted ab AbortInFlight input key en g v = (Inl OperationAborted, v) \<and>
     create_locked_session E granted ab AbortCommitting input key en g v = (Inl OperationAborted, v') \<and>
     va_stored v' = Some (locked_js (ls_record l))"
proof -
  assume a: "create_locked_session E granted ab NoAbort input key en g v = (Inr l, v')"
  obtain s start r dek where
      s: "assert_operation_active (ab 0) = Inr ()" "normalize_new_session E input = Inr s" "se_has_locks E"
        "\<not> ab 1" "\<not> ab 2" granted
      and p: "create_prepare E ab s key en g (va_stored v) = Inr (start, r, dek)"
      and c: "commit_new_record start r NoAbort v = (Inr (), v')" and l: "l = new_lease r s dek"
    using a by (auto simp: create_locked_session_def then_op_Inr ownership_Inr numeral_2_eq_2)
  have f: "commit_new_record start r AbortInFlight v = (Inl OperationAborted, v)"
      "commit_new_record start r AbortCommitting v = (Inl OperationAborted, v')"
    using c by (auto simp: commit_new_record_def transact_def split: if_splits sum.splits)
  show ?thesis
    using s p f commit_new_written [OF c]
    by (simp add: create_locked_session_def then_op_def result_op_def stored_op_def
        with_available_vault_ownership_def l new_lease_def numeral_2_eq_2)
qed

end
