(* ===== verification/Store_Examples.thy ===== *)
theory Store_Examples
  imports Store_Lifecycle
begin

text \<open>
  Creating a session succeeds on a free vault; a concrete environment and a world with a lease, in
  which the theorems about the vault apply.
\<close>

section \<open>Sealed records are well-formed\<close>

lemma sealed_ids:
  assumes "create_sealed_record cr s storage key None g = Inr (r, dek)"
  shows "\<exists>slot. locked_slots r = [RecoverySlot slot] \<and> spells 16 16 (locked_record_id r) \<and>
     spells 16 16 (rk_slot_id slot) \<and> spells 32 32 (rk_salt slot) \<and> rk_iterations slot = recovery_iterations"
  using assms
  by (auto simp: create_sealed_record_def pair_bind_Inr sum_bind_Inr_iff Let_def with_wrapped_dek_def salt_bytes_def
      dest!: random64_Inr)

lemma box_wf:
  assumes "aead_laws cr" and "aes_encrypt cr k p aad g = Inr (b, g')" and "lo \<le> length p + 16" and "length p + 16 \<le> hi"
  shows "wf_box lo hi b"
proof -
  obtain iv where "length iv = iv_bytes"
    and b: "b = \<lparr>box_algorithm = ''AES-256-GCM'', box_iv = encode_base64url iv,
      box_ciphertext = encode_base64url (wc_encrypt cr k iv aad p)\<rparr>"
    using assms(2) by (auto simp: aes_encrypt_def pair_bind_Inr sum_bind_Inr_iff dest!: random_Inr)
  moreover have "length (wc_encrypt cr k iv aad p) = length p + 16" by (rule aead_lawsD(3) [OF assms(1)])
  ultimately show ?thesis using assms(3,4) by (auto simp: wf_box_def iv_bytes_def)
qed

lemma sealed_wf:
  assumes laws: "aead_laws cr" and storage: "wf_storage storage"
    and sealed: "create_sealed_record cr s storage key None g = Inr (r, dek)"
  shows "wf_locked r"
proof -
  obtain slot where ids: "locked_slots r = [RecoverySlot slot]" "spells 16 16 (locked_record_id r)"
      "spells 16 16 (rk_slot_id slot)" "spells 32 32 (rk_salt slot)" "rk_iterations slot = recovery_iterations"
    using sealed_ids [OF sealed] by blast
  obtain kek h h' p h1 h2 where dek: "length dek = dek_bytes"
      and w: "wrap_dek cr kek dek (slot_additional_data (locked_record_id r) (RecoverySlot slot)) h = Inr (rk_wrapped_dek slot, h')"
      and p: "session_plaintext s = Inr p" and pay: "aes_encrypt cr dek p
       (payload_additional_data (locked_record_id r) (locked_revision r) (locked_storage r) (locked_slots r)) h1 =
         Inr (locked_payload r, h2)"
      and st: "locked_storage r = storage" "locked_revision r = 1"
    using sealed_parts [OF sealed] ids(1) by auto
  have "length p \<le> max_payload_bytes" using p by (auto simp: session_plaintext_def Let_def split: if_splits)
  then have "wf_box 16 (max_payload_bytes + 16) (locked_payload r)" by (intro box_wf [OF laws pay]) simp_all
  moreover have "wf_box 48 48 (rk_wrapped_dek slot)"
    by (rule box_wf [OF laws w [unfolded wrap_dek_def]]) (simp_all add: dek dek_bytes_def)
  ultimately show ?thesis
    by (simp add: wf_locked_def wf_slot_def ids st storage max_safe_def is_recovery_slot_def max_unlock_slots_def)
qed

section \<open>Creating a session succeeds\<close>

lemma create_works:
  "aead_laws (se_crypto E) \<Longrightarrow> se_has_locks E \<Longrightarrow> va_stored v = None \<Longrightarrow>
   normalize_new_session E input = Inr s \<Longrightarrow> recovery_bytes key = Inr k \<Longrightarrow> session_plaintext s = Inr p \<Longrightarrow>
   \<exists>l v'. create_locked_session E True (\<lambda>_. False) NoAbort input key None g v = (Inr l, v') \<and>
     ls_session l = Some s \<and> va_stored v' = Some (locked_js (ls_record l)) \<and> va_databases v' = va_databases v"
proof -
  assume a: "aead_laws (se_crypto E)" "se_has_locks E" "va_stored v = None"
   "normalize_new_session E input = Inr s" "recovery_bytes key = Inr k" "session_plaintext s = Inr p"
  let ?st = "\<lparr>crypto_database_prefix = ses_crypto_database_prefix s, legacy_sync_database = None\<rparr>"
  obtain r dek where sealed: "create_sealed_record (se_crypto E) s ?st key None g = Inr (r, dek)"
    using seal_succeeds [of "se_crypto E" key k s p None ?st g] a by (auto simp: aead_laws_def)
  have "crypto_prefix_pattern (ses_crypto_database_prefix s)"
    using session_sound [OF a(4) [unfolded normalize_new_session_def]] by (simp add: safe_session_def)
  then have wf: "wf_locked r" by (intro sealed_wf [OF a(1) _ sealed]) (simp add: wf_storage_def)
  have "create_prepare E (\<lambda>_. False) s key None g (va_stored v) = Inr (None, r, dek)"
    by (simp add: create_prepare_def assert_operation_active_def read_available_vault_starting_state_def a(3)
        sealed locked_complete [OF wf])
  moreover have "commit_new_record None r NoAbort v = (Inr (), v\<lparr>va_stored := Some (locked_js r)\<rparr>)"
    by (simp add: commit_new_record_def transact_def a(3))
  ultimately show ?thesis
    by (simp add: create_locked_session_def then_op_def result_op_def stored_op_def assert_operation_active_def a(4)
        with_available_vault_ownership_def a(2) new_lease_def)
qed

text \<open>On an empty vault, with the lock free and no cancellation, creating a session always succeeds for a
  session that normalises and fits, and a recovery key of legal length.
\<close>

theorem create_succeeds:
  "aead_laws (se_crypto E) \<Longrightarrow> se_has_locks E \<Longrightarrow> va_stored v = None \<Longrightarrow>
   normalize_new_session E input = Inr s \<Longrightarrow> recovery_bytes key = Inr k \<Longrightarrow> session_plaintext s = Inr p \<Longrightarrow>
   \<exists>l v'. create_locked_session E True (\<lambda>_. False) NoAbort input key None g v = (Inr l, v') \<and>
     ls_session l = Some s \<and> va_stored v' = Some (locked_js (ls_record l)) \<and> va_databases v' = va_databases v"
  by (rule create_works)

section \<open>A concrete environment\<close>

definition sample_env :: store_env where
  "sample_env = \<lparr>se_parse_url = sample_parse, se_production = True, se_origin = None, se_crypto = plain_crypto,
     se_evaluate_prf = (\<lambda>_. Inl PlatformError), se_has_locks = True, se_delete = (\<lambda>_. Deleted),
     se_enumeration = Enumerates\<rparr>"

definition free_vault :: vault where
  "free_vault = \<lparr>va_stored = None, va_databases = [''notes'']\<rparr>"

lemma sample_env_facts:
  "aead_laws (se_crypto sample_env)" "se_has_locks sample_env" "va_stored free_vault = None"
  "normalize_new_session sample_env (session_js sample_session) = Inr sample_session"
  "recovery_bytes (JStr ''towel'') = Inr (utf8 ''towel'')" "address_normal sample_env sample_session"
  using session_complete [OF sample_session_facts, of None True] sample_session_facts
  by (simp_all add: sample_env_def plain_crypto_laws free_vault_def normalize_new_session_def short_key_bytes address_normal_def)

lemma sample_created:
  "\<exists>l v'. create_locked_session sample_env True (\<lambda>_. False) NoAbort (session_js sample_session) (JStr ''towel'') None
      (sconst 7) free_vault = (Inr l, v') \<and> ls_session l = Some sample_session"
proof -
  obtain p where "session_plaintext sample_session = Inr p" using sample_session_fits by blast
  then show ?thesis
    using create_works [OF sample_env_facts(1-5), of p "sconst 7"] by blast
qed

text \<open>A world in which one window has created a session and holds its lease.\<close>

lemma sample_world:
  "\<exists>w l dek. vault_reachable sample_env w \<and> w_leases w = [l] \<and> w_ops w = [] \<and> wf_locked (ls_record l) \<and>
     va_stored (w_vault w) = Some (locked_js (ls_record l)) \<and> ls_dek l = Some dek \<and>
     ls_session l = Some sample_session \<and> LockedContent (ls_record l) \<in> set (w_history w) \<and>
     locked_revision (ls_record l) = 1 \<and> legacy_sync_database (locked_storage (ls_record l)) = None \<and>
     crypto_database_prefix (locked_storage (ls_record l)) = ses_crypto_database_prefix sample_session \<and>
     unlock_dek sample_env (ls_record l) (UnlockRecovery (JStr ''towel'') None) = Inr dek"
proof -
  obtain l v' where c: "create_locked_session sample_env True (\<lambda>_. False) NoAbort (session_js sample_session)
      (JStr ''towel'') None (sconst 7) free_vault = (Inr l, v')" using sample_created by blast
  let ?w0 = "\<lparr>w_vault = free_vault, w_leases = [], w_ops = [], w_history = []\<rparr>"
  let ?st = "\<lparr>crypto_database_prefix = ses_crypto_database_prefix sample_session, legacy_sync_database = None\<rparr>"
  obtain start r dek where p: "create_prepare sample_env (\<lambda>_. False) sample_session (JStr ''towel'') None (sconst 7)
        (va_stored free_vault) = Inr (start, r, dek)"
      and commit: "commit_new_record start r NoAbort free_vault = (Inr (), v')" and l: "l = new_lease r sample_session dek"
    using c by (auto simp: create_locked_session_def then_op_Inr ownership_Inr sample_env_facts(4))
  obtain r' dek' where sealed: "create_sealed_record (se_crypto sample_env) sample_session ?st (JStr ''towel'') None
        (sconst 7) = Inr (r', dek')" and rl: "new_lease r' sample_session dek' = l" and wf: "wf_locked r'"
    using create_effect [OF c] sample_env_facts(4) by auto
  have r: "r = r'" "dek = dek'" using rl l by (simp_all add: new_lease_def)
  have v': "va_stored v' = Some (locked_js r)" by (rule commit_new_written [OF commit])
  have "vault_reachable sample_env ?w0"
    using vault_reachable.start [of sample_env free_vault] by (simp add: sample_env_facts(3) stored_content_def)
  moreover have "vault_step sample_env ?w0 (?w0\<lparr>w_ops := [CreateOp start r sample_session dek]\<rparr>)"
    using vault_step.begin_create [OF _ sample_env_facts(4), of ?w0 "JStr ''towel''" None "sconst 7" start r dek] p
    by (simp add: lock_free_def)
  moreover have "vault_step sample_env (?w0\<lparr>w_ops := [CreateOp start r sample_session dek]\<rparr>)
      (grant (Inr () :: store_error + unit) l (record_write v' (finish_op 0 [] (?w0\<lparr>w_ops := [CreateOp start r sample_session dek]\<rparr>))))"
    using vault_step.commit_create [of 0 "?w0\<lparr>w_ops := [CreateOp start r sample_session dek]\<rparr>" start r sample_session dek NoAbort
        "Inr ()" v' sample_env] commit l
    by (simp add: id_unused_def)
  ultimately have reach: "vault_reachable sample_env
      (grant (Inr () :: store_error + unit) l (record_write v' (finish_op 0 [] (?w0\<lparr>w_ops := [CreateOp start r sample_session dek]\<rparr>))))"
    (is "vault_reachable _ ?w")
    using vault_reachable.step by blast
  have "stored_content (va_stored v') = Some (LockedContent r)"
    using v' wf r(1) by (simp add: stored_locked locked_complete)
  then have parts: "w_leases ?w = [l]" "w_ops ?w = []" "w_vault ?w = v'" "LockedContent r \<in> set (w_history ?w)"
    by (simp_all add: grant_def record_write_def finish_op_def)
  have st: "locked_revision r = 1" "locked_storage r = ?st" using sealed_parts [OF sealed] r(1) by auto
  have dek: "unlock_dek sample_env r (UnlockRecovery (JStr ''towel'') None) = Inr dek"
    using sealed_recovery_opens [OF sample_env_facts(1) sealed] r by (simp add: unlock_dek_def)
  have lease: "ls_record l = r" "ls_session l = Some sample_session" "ls_dek l = Some dek" by (simp_all add: l new_lease_def)
  show ?thesis
    by (rule exI [of _ ?w], rule exI [of _ l], rule exI [of _ dek])
      (use reach parts lease st dek v' wf r(1) in simp)
qed

text \<open>The same world after its lease has been deleted.\<close>

lemma deleted_world:
  assumes "w_leases w = [l]" and "w_ops w = []" and "wf_locked (ls_record l)" and "ls_dek l = Some dek"
    and "va_stored (w_vault w) = Some (locked_js (ls_record l))" and "locked_revision (ls_record l) = 1"
  shows "\<exists>w' t c s l' v1. vault_step E w w' \<and> stored_content (va_stored (w_vault w')) = Some (DeadContent t) \<and>
    tomb_record_id t = locked_record_id (ls_record l) \<and> tomb_revision t = 2 \<and> w_vault w' = v1 \<and>
    delete_record l (w_vault w) = ((Inr (c, s), l'), v1)"
proof -
  define t where "t = \<lparr>tomb_record_id = locked_record_id (ls_record l), tomb_revision = locked_revision (ls_record l) + 1,
      tomb_cleanup = Some (ExactCleanup (locked_storage (ls_record l)))\<rparr>"
  let ?c = "cleanup_description t (ExactCleanup (locked_storage (ls_record l)))"
  let ?v = "(w_vault w)\<lparr>va_stored := Some (tombstone_js t)\<rparr>"
  have d: "delete_record l (w_vault w) = ((Inr (?c, ls_session l), dispose l), ?v)"
    using assms(4,5) locked_complete [OF assms(3)]
    by (simp add: delete_record_def assert_active_def commit_tombstone_def transact_def expect_current_def Let_def t_def)
  have wf: "wf_tombstone t" using assms(3,6) by (auto simp: wf_locked_def wf_tombstone_def t_def max_safe_def)
  have "vault_step E w (set_lease 0 (dispose l) (record_write ?v w))"
    using vault_step.delete_lease [of 0 w "Inr (?c, ls_session l)" "dispose l" ?v E] assms(1,2) d by simp
  moreover have "w_vault (set_lease 0 (dispose l) (record_write ?v w)) = ?v" by (simp add: set_lease_def record_write_def)
  moreover have "stored_content (va_stored ?v) = Some (DeadContent t)"
    by (simp add: stored_dead tombstone_complete [OF wf])
  moreover have "tomb_record_id t = locked_record_id (ls_record l)" "tomb_revision t = 2" using assms(6) by (simp_all add: t_def)
  ultimately show ?thesis using d by metis
qed

lemma history_step: "vault_step E w w' \<Longrightarrow> set (w_history w) \<subseteq> set (w_history w')"
  by (induction rule: vault_step.induct)
    (auto simp: record_write_def grant_def finish_op_def set_lease_def split: sum.splits)

section \<open>Witnesses\<close>

theorem vault_refines_register_witness:
  "\<exists>w w'. vault_step sample_env w w' \<and> register_of w \<noteq> register_of w' \<and> reg_step (register_of w) (register_of w')"
proof -
  obtain w l dek where w: "vault_reachable sample_env w" "w_leases w = [l]" "w_ops w = []" "wf_locked (ls_record l)"
      "va_stored (w_vault w) = Some (locked_js (ls_record l))" "ls_dek l = Some dek" "locked_revision (ls_record l) = 1"
    using sample_world by blast
  obtain w' t where s: "vault_step sample_env w w'" "stored_content (va_stored (w_vault w')) = Some (DeadContent t)"
    using deleted_world [OF w(2,3,4,6,5,7)] by blast
  have "register_of w \<noteq> register_of w'"
    using s(2) w(5) by (simp add: register_of_def stored_locked locked_complete [OF w(4)])
  then show ?thesis using vault_refines_register [OF w(1) s(1)] s(1) by blast
qed

theorem versions_move_forward_witness:
  "\<exists>w w' x y. vault_reachable sample_env w \<and> (vault_step sample_env)\<^sup>*\<^sup>* w w' \<and>
     stored_content (va_stored (w_vault w)) = Some x \<and> stored_content (va_stored (w_vault w')) = Some y \<and>
     content_revision x < content_revision y"
proof -
  obtain w l dek where w: "vault_reachable sample_env w" "w_leases w = [l]" "w_ops w = []" "wf_locked (ls_record l)"
      "va_stored (w_vault w) = Some (locked_js (ls_record l))" "ls_dek l = Some dek" "locked_revision (ls_record l) = 1"
    using sample_world by blast
  have x: "stored_content (va_stored (w_vault w)) = Some (LockedContent (ls_record l))"
    by (simp add: w(5) stored_locked locked_complete [OF w(4)])
  obtain w' t where s: "vault_step sample_env w w'" and y: "stored_content (va_stored (w_vault w')) = Some (DeadContent t)"
      and id: "tomb_record_id t = locked_record_id (ls_record l)"
    using deleted_world [OF w(2,3,4,6,5,7)] by blast
  have st: "(vault_step sample_env)\<^sup>*\<^sup>* w w'" using s by blast
  have "content_revision (LockedContent (ls_record l)) < content_revision (DeadContent t)"
    using versions_move_forward [OF w(1) st x y] id by simp
  then show ?thesis using w(1) st x y by blast
qed

theorem stale_lease_never_writes_witness:
  "\<exists>w r e. vault_reachable sample_env w \<and> wf_locked r \<and> LockedContent r \<in> set (w_history w) \<and>
     commit_reseal r r (w_vault w) = (Inl e, w_vault w)"
proof -
  obtain w l dek where w: "vault_reachable sample_env w" "w_leases w = [l]" "w_ops w = []" "wf_locked (ls_record l)"
      "va_stored (w_vault w) = Some (locked_js (ls_record l))" "ls_dek l = Some dek" "locked_revision (ls_record l) = 1"
      "LockedContent (ls_record l) \<in> set (w_history w)"
    using sample_world by blast
  obtain w' t where s: "vault_step sample_env w w'" and y: "stored_content (va_stored (w_vault w')) = Some (DeadContent t)"
    using deleted_world [OF w(2,3,4,6,5,7)] by blast
  have r: "vault_reachable sample_env w'" by (rule vault_reachable.step [OF w(1) s])
  have "(vault_step sample_env)\<^sup>*\<^sup>* w w'" using s by blast
  then have "LockedContent (ls_record l) \<in> set (w_history w')"
    using w(8) history_step [OF s] by blast
  then show ?thesis
    using stale_lease_never_writes [OF r, of "ls_record l" w' "ls_record l"] y r w(4) by auto
qed

theorem current_lease_is_stored_witness:
  "\<exists>w l x. vault_reachable sample_env w \<and> l \<in> set (w_leases w) \<and>
     stored_content (va_stored (w_vault w)) = Some x \<and> x = LockedContent (ls_record l)"
proof -
  obtain w l dek where w: "vault_reachable sample_env w" "w_leases w = [l]" "wf_locked (ls_record l)"
      "va_stored (w_vault w) = Some (locked_js (ls_record l))"
    using sample_world by blast
  have x: "stored_content (va_stored (w_vault w)) = Some (LockedContent (ls_record l))"
    by (simp add: w(4) stored_locked locked_complete [OF w(3)])
  show ?thesis using current_lease_is_stored [OF w(1) _ w(3) x] w(1,2) x by auto
qed

theorem disposed_lease_stays_witness:
  "\<exists>w w' :: world. w_leases w \<noteq> [] \<and> ls_dek (w_leases w ! 0) = None \<and> vault_step sample_env w w' \<and>
     w_leases w' ! 0 = w_leases w ! 0"
proof -
  obtain w :: world and l where w: "w_leases w = [l]" using sample_world by blast
  define u where "u = set_lease 0 (dispose l) w"
  have u: "0 < length (w_leases u)" "ls_dek (w_leases u ! 0) = None" "ls_session (w_leases u ! 0) = None"
    by (simp_all add: u_def set_lease_def w dispose_def)
  have s: "vault_step sample_env u (set_lease 0 (dispose (w_leases u ! 0)) u)"
    by (rule vault_step.dispose_lease [OF u(1)])
  show ?thesis using disposed_lease_stays [OF s u] s u by auto
qed

theorem create_then_unlock_witness:
  "\<exists>l v'. inspect_session sample_env (va_stored v') = Inr (VaultLocked (descriptor_from_record (ls_record l))) \<and>
     unlock_session sample_env True (\<lambda>_. False) (descriptor_from_record (ls_record l))
       (UnlockRecovery (JStr ''towel'') None) v' = (Inr l, v') \<and> ls_session l = Some sample_session"
proof -
  obtain l v' where c: "create_locked_session sample_env True (\<lambda>_. False) NoAbort (session_js sample_session)
      (JStr ''towel'') None (sconst 7) free_vault = (Inr l, v')" "ls_session l = Some sample_session"
    using sample_created by blast
  have "if_some (address_normal sample_env) (ls_session l)" using c(2) sample_env_facts(6) by simp
  then show ?thesis using create_then_unlock [OF sample_env_facts(1) c(1)] c(2) by blast
qed

theorem create_succeeds_witness:
  "\<exists>l v'. create_locked_session sample_env True (\<lambda>_. False) NoAbort (session_js sample_session) (JStr ''towel'') None
      (sconst 9) free_vault = (Inr l, v') \<and> va_databases v' = [''notes'']"
proof -
  obtain p where "session_plaintext sample_session = Inr p" using sample_session_fits by blast
  then show ?thesis
    using create_succeeds [OF sample_env_facts(1-5), of p "sconst 9"] by (auto simp: free_vault_def)
qed

theorem cancelled_commit_keeps_record_witness:
  "\<exists>(l :: lease) v'. create_locked_session sample_env True (\<lambda>_. False) AbortCommitting (session_js sample_session)
      (JStr ''towel'') None (sconst 7) free_vault = (Inl OperationAborted, v') \<and>
     va_stored v' = Some (locked_js (ls_record l))"
proof -
  obtain l v' where c: "create_locked_session sample_env True (\<lambda>_. False) NoAbort (session_js sample_session)
      (JStr ''towel'') None (sconst 7) free_vault = (Inr l, v')"
    using sample_created by blast
  show ?thesis using cancelled_commit_keeps_record [OF c] by blast
qed

theorem forget_always_recovers_witness:
  "\<exists>c v'. forget_local_session sample_env True (sconst 3) \<lparr>va_stored = Some (JStr ''garbage''), va_databases = []\<rparr> = (Inr c, v') \<and>
     inspect_session sample_env (va_stored v') = Inr (VaultCleanup c)"
proof -
  have none: "stored_content (Some (JStr ''garbage'')) = None"
    using stored_fields(1) [of "JStr ''garbage''"] by (cases "stored_content (Some (JStr ''garbage''))") (auto simp: js_opt_def js_prop_def own_props_def)
  show ?thesis
    using forget_always_recovers [of sample_env "\<lparr>va_stored = Some (JStr ''garbage''), va_databases = []\<rparr>" "sconst 3"]
    by (auto simp: none sample_env_def plain_crypto_def)
qed

theorem last_revision_wedges_witness:
  "\<exists>r c v'. locked_revision r = max_safe \<and>
     forget_local_session sample_env True (sconst 3) \<lparr>va_stored = Some (locked_js r), va_databases = []\<rparr> = (Inr c, v') \<and>
     inspect_session sample_env (va_stored v') = Inr (VaultCorrupt ''The stored session tombstone is invalid.'')"
proof -
  obtain l :: lease where "wf_locked (ls_record l)"
    using sample_world by blast
  then have "wf_locked (ls_record l\<lparr>locked_revision := max_safe\<rparr>)" by (simp add: wf_locked_def max_safe_def)
  from last_revision_wedges [OF _ _ this, where E = sample_env and g = "sconst 3" and ?g2.0 = "sconst 3" and
      v = "\<lparr>va_stored = Some (locked_js
      (ls_record l\<lparr>locked_revision := max_safe\<rparr>)), va_databases = []\<rparr>"]
  obtain c v' where f: "forget_local_session sample_env True (sconst 3)
      \<lparr>va_stored = Some (locked_js (ls_record l\<lparr>locked_revision := max_safe\<rparr>)), va_databases = []\<rparr> = (Inr c, v')"
      "inspect_session sample_env (va_stored v') = Inr (VaultCorrupt ''The stored session tombstone is invalid.'')"
    by (auto simp: sample_env_def plain_crypto_def)
  show ?thesis
    by (rule exI [of _ "ls_record l\<lparr>locked_revision := max_safe\<rparr>"], rule exI [of _ c], rule exI [of _ v'])
      (simp add: f)
qed

definition sample_marker :: tombstone where
  "sample_marker = \<lparr>tomb_record_id = encode_base64url (replicate 16 0), tomb_revision = 2, tomb_cleanup = Some AllOwned\<rparr>"

definition marked_vault :: vault where
  "marked_vault = \<lparr>va_stored = Some (tombstone_js sample_marker),
     va_databases = [''notes'', ''sub-etha-crypto-x::matrix-sdk-crypto'']\<rparr>"

lemma owned_samples: "\<not> owned_database ''notes''" "owned_database ''sub-etha-crypto-x::matrix-sdk-crypto''"
  by (simp_all add: owned_database_def owned_legacy_sync_database_def legacy_sync_pattern_def name_pattern_def
      crypto_prefix_pattern_def owned_rust_crypto_database_def crypto_suffixes_def suffix_def is_token_char_def
      is_alnum_def is_lower_def code_of_def)

lemma marked_cleanup:
  "cleanup_session_databases_with_ownership sample_env (cleanup_description sample_marker AllOwned) marked_vault =
     (Inr (), marked_vault\<lparr>va_databases := [''notes'']\<rparr>)"
proof -
  have "wf_tombstone sample_marker" by (simp add: sample_marker_def wf_tombstone_def max_safe_def)
  then have names: "cleanup_names sample_env (cleanup_description sample_marker AllOwned) marked_vault =
      Inr [''sub-etha-crypto-x::matrix-sdk-crypto'']"
    by (simp add: cleanup_names_def marked_vault_def tombstone_complete marker_of_description sample_marker_def
        enumerate_owned_matrix_databases_def sample_env_def owned_samples)
  have "se_delete sample_env n = Deleted" for n by (simp add: sample_env_def)
  then have "delete_all sample_env [''sub-etha-crypto-x::matrix-sdk-crypto''] marked_vault =
      (False, marked_vault\<lparr>va_databases := [''notes'']\<rparr>)"
    by (simp add: delete_database_strict_def marked_vault_def)
  then show ?thesis by (simp add: cleanup_session_databases_with_ownership_def names)
qed

theorem cleanup_deletes_only_owned_witness:
  "\<exists>v' n. cleanup_session_databases_with_ownership sample_env (cleanup_description sample_marker AllOwned) marked_vault =
       (Inr (), v') \<and> n \<in> set (va_databases marked_vault) - set (va_databases v') \<and> owned_database n"
proof -
  have "''sub-etha-crypto-x::matrix-sdk-crypto'' \<in> set (va_databases marked_vault) - set (va_databases (marked_vault\<lparr>va_databases := [''notes'']\<rparr>))"
    by (simp add: marked_vault_def)
  then show ?thesis using cleanup_deletes_only_owned [OF marked_cleanup] marked_cleanup by blast
qed

theorem logout_frees_vault_witness:
  "\<exists>l v c s l' v1 v3. delete_record l v = ((Inr (c, s), l'), v1) \<and>
     complete_local_session_cleanup c v1 = (Inr (), v3) \<and> inspect_session sample_env (va_stored v3) = Inr VaultEmpty"
proof -
  obtain w l dek where w: "vault_reachable sample_env w" "w_leases w = [l]" "w_ops w = []" "wf_locked (ls_record l)"
      "va_stored (w_vault w) = Some (locked_js (ls_record l))" "ls_dek l = Some dek" "locked_revision (ls_record l) = 1"
    using sample_world by blast
  obtain c s l' v1 where d: "delete_record l (w_vault w) = ((Inr (c, s), l'), v1)"
    using deleted_world [OF w(2,3,4,6,5,7)] by blast
  have "locked_revision (ls_record l) + 2 \<le> max_safe" using w(7) by (simp add: max_safe_def)
  then show ?thesis using logout_frees_vault [OF w(4) _ d refl, of sample_env] d by blast
qed

theorem reseal_then_unlock_witness:
  "\<exists>(l :: lease) r v'. locked_revision r = 2 \<and>
     unlock_session sample_env True (\<lambda>_. False) (descriptor_from_record r) (UnlockRecovery (JStr ''towel'') None) v' =
       (Inr (reseal_finish r sample_session l), v')"
proof -
  obtain w :: world and l :: lease and dek where w: "wf_locked (ls_record l)"
      "va_stored (w_vault w) = Some (locked_js (ls_record l))" "ls_dek l = Some dek" "ls_session l = Some sample_session"
      "locked_revision (ls_record l) = 1" "legacy_sync_database (locked_storage (ls_record l)) = None"
      "crypto_database_prefix (locked_storage (ls_record l)) = ses_crypto_database_prefix sample_session"
      "unlock_dek sample_env (ls_record l) (UnlockRecovery (JStr ''towel'') None) = Inr dek"
    using sample_world by blast
  obtain p where p: "session_plaintext sample_session = Inr p" using sample_session_fits by blast
  then have len: "length p \<le> max_payload_bytes" by (auto simp: session_plaintext_def Let_def split: if_splits)
  let ?aad = "payload_additional_data (locked_record_id (ls_record l)) 2 (locked_storage (ls_record l)) (locked_slots (ls_record l))"
  obtain payload g' where box: "aes_encrypt plain_crypto dek p ?aad (sconst 5) = Inr (payload, g')"
    by (simp add: aes_encrypt_def random_bytes_def require_web_crypto_def plain_crypto_def)
  define r where "r = (ls_record l)\<lparr>locked_revision := 2, locked_payload := payload\<rparr>"
  have same: "immutable_session_fields_equal sample_session sample_session"
    by (simp add: immutable_session_fields_equal_def sample_session_def or_undefined_def)
  have "encrypt_session_payload (se_crypto sample_env) (ls_record l) 2 sample_session dek (sconst 5) = Inr payload"
    using box p by (simp add: encrypt_session_payload_def sample_env_def)
  then have prep: "reseal_prepare sample_env l (session_js sample_session) ''token-refresh'' (sconst 5) = Inr (r, sample_session)"
    using w same by (simp add: reseal_prepare_def assert_active_def sample_env_facts(4) Let_def r_def)
  have "wf_box 16 (max_payload_bytes + 16) payload"
    by (rule box_wf [OF plain_crypto_laws box]) (use len in simp_all)
  then have wf: "wf_locked r" using w(1) by (simp add: wf_locked_def r_def max_safe_def)
  have commit: "commit_reseal (ls_record l) r (w_vault w) = (Inr (), (w_vault w)\<lparr>va_stored := Some (locked_js r)\<rparr>)"
    using locked_complete [OF w(1)] by (simp add: commit_reseal_def transact_def expect_current_def w(2))
  show ?thesis
    using reseal_then_unlock [OF sample_env_facts(1,2) prep sample_env_facts(6) wf commit w(3) w(8) w(6)] w(5,7) by auto
qed

end
