(* ===== verification/YouTube_Preview.thy ===== *)
theory YouTube_Preview
  imports JsValue
begin

text \<open>
  lib/youtube-preview.ts: which YouTube links of a message are previewed, the layout of the cards
  and the bounded record of failed thumbnails. Widths are exact rationals.
\<close>

section \<open>Scanning a message body\<close>

definition scan_limit :: nat where
  "scan_limit = 16384"

definition raw_token_limit :: nat where
  "raw_token_limit = 32"

definition token_limit :: nat where
  "token_limit = 2048"

definition max_previews :: nat where
  "max_previews = 3"

definition is_ascii_whitespace :: "char \<Rightarrow> bool" where
  "is_ascii_whitespace c \<longleftrightarrow> code_of c \<in> {9, 10, 11, 12, 13, 32}"

definition explicit_delimiters :: "char list" where
  "explicit_delimiters = [CHR 0x22, CHR 0x27, CHR 0x60, CHR ''<'', CHR ''>'', CHR ''('', CHR '')'',
     CHR ''['', CHR '']'', CHR ''{'', CHR ''}'', CHR '','', CHR '';'', CHR ''!'']"

definition is_explicit_delimiter :: "char \<Rightarrow> bool" where
  "is_explicit_delimiter c \<longleftrightarrow> c \<in> set explicit_delimiters"

definition is_boundary :: "char \<Rightarrow> bool" where
  "is_boundary c \<longleftrightarrow> is_ascii_whitespace c \<or> is_explicit_delimiter c"

text \<open>The text before the last ASCII white space, or nothing.\<close>

definition cut_at_whitespace :: "string \<Rightarrow> string" where
  "cut_at_whitespace s = rev (tl (dropWhile (\<lambda>c. \<not> is_ascii_whitespace c) (rev s)))"

definition bounded_body :: "string \<Rightarrow> string" where
  "bounded_body body =
     (if length body \<le> scan_limit then body
      else let slice = take scan_limit body in
        if is_boundary (last slice) \<or> is_boundary (body ! scan_limit) then slice
        else cut_at_whitespace slice)"

definition https_prefix :: string where
  "https_prefix = ''https://''"

definition token_end :: "string \<Rightarrow> nat \<Rightarrow> nat" where
  "token_end s e = e + length (takeWhile (\<lambda>c. \<not> is_boundary c) (drop e s))"

lemma index_from_ge: "index_from p a s = Some i \<Longrightarrow> a \<le> i"
  by (auto simp: index_from_def)

text \<open>The scanning loop: \<open>cursor\<close> and the number of tokens found so far.\<close>

function scan_tokens :: "string \<Rightarrow> nat \<Rightarrow> nat \<Rightarrow> string list" where
  "scan_tokens s cursor count =
     (if \<not> (cursor < length s \<and> count < raw_token_limit) then []
      else case index_from https_prefix cursor s of
        None \<Rightarrow> []
      | Some start \<Rightarrow>
          if 0 < start \<and> \<not> is_boundary (s ! (start - 1)) then scan_tokens s (start + length https_prefix) count
          else let e = token_end s (start + length https_prefix)
               in js_slice start e s # scan_tokens s (max e (start + length https_prefix)) (Suc count))"
  by pat_completeness auto

termination scan_tokens
  by (relation "measure (\<lambda>(s, cursor, count). length s - cursor)")
    (auto dest!: index_from_ge simp: https_prefix_def)

declare scan_tokens.simps [simp del]

definition scan_raw_tokens :: "string \<Rightarrow> string list" where
  "scan_raw_tokens body = scan_tokens (bounded_body body) 0 0"

section \<open>Parsing one link\<close>

text \<open>\<^verbatim>\<open>/\s/u\<close> above 0x7f and below 256: the no-break space.\<close>

definition forbidden_char :: "char \<Rightarrow> bool" where
  "forbidden_char c \<longleftrightarrow>
     code_of c < 32 \<or> code_of c = 127 \<or> c = CHR 0x5C \<or> c = CHR ''%'' \<or> c = CHR ''#'' \<or> code_of c = 160"

definition is_video_id :: "string \<Rightarrow> bool" where
  "is_video_id s \<longleftrightarrow> length s = 11 \<and> list_all is_token_char s"

definition query_keys :: "string list" where
  "query_keys = [''v'', ''t'', ''start'', ''list'', ''index'', ''si'', ''feature'']"

text \<open>\<^verbatim>\<open>/^[A-Za-z0-9_.:-]{1,128}$/\<close>\<close>

definition is_query_value :: "string \<Rightarrow> bool" where
  "is_query_value s \<longleftrightarrow>
     1 \<le> length s \<and> length s \<le> 128 \<and> list_all (\<lambda>c. is_token_char c \<or> c = CHR ''.'' \<or> c = CHR '':'') s"

fun watch_fields :: "string list \<Rightarrow> (string \<times> string) list \<Rightarrow> (string \<times> string) list option" where
  "watch_fields [] values = Some values"
| "watch_fields (field # fields) values =
     (case index_char (CHR ''='') field of
        None \<Rightarrow> None
      | Some e \<Rightarrow>
          if e = 0 \<or> CHR ''='' \<in> set (drop (Suc e) field) then None
          else let key = take e field; val = drop (Suc e) field in
            if key \<notin> set query_keys \<or> \<not> is_query_value val \<or> key \<in> set (map fst values) then None
            else watch_fields fields (values @ [(key, val)]))"

definition parse_watch_query :: "string \<Rightarrow> string option" where
  "parse_watch_query query =
     (if query = [] then None
      else case watch_fields (split_on (CHR ''&'') query) [] of
        None \<Rightarrow> None
      | Some values \<Rightarrow>
          (case map_of values ''v'' of
             None \<Rightarrow> None
           | Some vid \<Rightarrow> if is_video_id vid then Some vid else None))"

definition youtube_hosts :: "string list" where
  "youtube_hosts = [''youtu.be'', ''youtube.com'', ''www.youtube.com'', ''m.youtube.com'']"

text \<open>The end of the authority: the first slash or question mark after the scheme, or the end.\<close>

definition authority_end :: "string \<Rightarrow> nat" where
  "authority_end token =
     (case (index_from ''/'' 8 token, index_from ''?'' 8 token) of
        (None, None) \<Rightarrow> length token
      | (None, Some q) \<Rightarrow> q
      | (Some s, None) \<Rightarrow> s
      | (Some s, Some q) \<Rightarrow> min s q)"

definition bad_segment :: "string \<Rightarrow> bool" where
  "bad_segment s \<longleftrightarrow> s = [] \<or> s = ''.'' \<or> s = ''..''"

definition parse_youtube_token :: "string \<Rightarrow> string option" where
  "parse_youtube_token token =
     (if length token > token_limit \<or> \<not> prefix https_prefix token \<or> list_ex forbidden_char token then None
      else
        let ae = authority_end token; host = js_slice 8 ae token in
        if host \<notin> set youtube_hosts \<or> CHR '':'' \<in> set host \<or> CHR ''@'' \<in> set host then None
        else
          let qi = index_from ''?'' ae token;
              path_end = (case qi of None \<Rightarrow> length token | Some q \<Rightarrow> q);
              path = js_slice ae path_end token;
              query = (case qi of None \<Rightarrow> None | Some q \<Rightarrow> Some (drop (Suc q) token));
              segments = split_on (CHR ''/'') path
          in if \<not> prefix ''/'' path \<or> list_ex bad_segment (tl segments) then None
             else if host = ''youtu.be'' then
               (if query \<noteq> None \<or> length segments \<noteq> 2 \<or> \<not> is_video_id (segments ! 1) then None
                else Some (segments ! 1))
             else case query of
               None \<Rightarrow>
                 if length segments \<noteq> 3 \<or> segments ! 1 \<notin> {''shorts'', ''embed'', ''live''} then None
                 else if is_video_id (segments ! 2) then Some (segments ! 2) else None
             | Some q \<Rightarrow> if path \<noteq> ''/watch'' then None else parse_watch_query q)"

section \<open>Previews\<close>

text \<open>The collecting loop over the tokens, with the ids found so far.\<close>

fun collect_ids :: "string list \<Rightarrow> string list \<Rightarrow> string list" where
  "collect_ids ids [] = ids"
| "collect_ids ids (token # tokens) =
     (case parse_youtube_token token of
        None \<Rightarrow> collect_ids ids tokens
      | Some vid \<Rightarrow>
          if vid = [] \<or> vid \<in> set ids then collect_ids ids tokens
          else if length (ids @ [vid]) \<ge> max_previews then ids @ [vid]
          else collect_ids (ids @ [vid]) tokens)"

definition parse_youtube_video_ids :: "jsval \<Rightarrow> string list" where
  "parse_youtube_video_ids body =
     (case body of JStr s \<Rightarrow> collect_ids [] (scan_raw_tokens s) | _ \<Rightarrow> [])"

definition youtube_thumbnail_url :: "string \<Rightarrow> string" where
  "youtube_thumbnail_url vid = ''https://i.ytimg.com/vi/'' @ vid @ ''/hqdefault.jpg''"

definition youtube_watch_url :: "string \<Rightarrow> string" where
  "youtube_watch_url vid = ''https://www.youtube.com/watch?v='' @ vid"

record timeline_item_view =
  tiv_body :: jsval
  tiv_type :: jsval
  tiv_decryption_state :: jsval
  tiv_redacted :: jsval
  tiv_media :: jsval
  tiv_sending_status :: jsval

definition nullish :: "jsval \<Rightarrow> bool" where
  "nullish v \<longleftrightarrow> v = JUndef \<or> v = JNull"

definition preview_eligible :: "timeline_item_view option \<Rightarrow> bool" where
  "preview_eligible item =
     (case item of
        None \<Rightarrow> False
      | Some i \<Rightarrow>
          \<not> ((case tiv_body i of JStr s \<Rightarrow> False | _ \<Rightarrow> True)
             \<or> tiv_decryption_state i \<noteq> JStr ''ready''
             \<or> tiv_redacted i = JBool True
             \<or> \<not> nullish (tiv_sending_status i)
             \<or> \<not> nullish (tiv_media i)
             \<or> (tiv_type i \<noteq> JStr ''message'' \<and> tiv_type i \<noteq> JStr ''notice'')))"

record youtube_preview =
  yp_id :: string
  yp_src :: string
  yp_href :: string

definition timeline_youtube_previews :: "timeline_item_view option \<Rightarrow> youtube_preview list" where
  "timeline_youtube_previews item =
     (if \<not> preview_eligible item then []
      else map (\<lambda>vid. \<lparr>yp_id = vid, yp_src = youtube_thumbnail_url vid, yp_href = youtube_watch_url vid\<rparr>)
             (parse_youtube_video_ids (tiv_body (the item))))"

section \<open>Layout\<close>

record preview_layout =
  pl_width :: rat
  pl_image_height :: rat
  pl_card_height :: rat
  pl_total_height :: rat
  pl_count :: int

definition youtube_preview_layout :: "rat \<Rightarrow> rat \<Rightarrow> preview_layout" where
  "youtube_preview_layout available count =
     (let bounded = max 0 (min (int max_previews) \<lfloor>count\<rfloor>);
          width = min 480 (max 0 available);
          image = width / (4 / 3);
          card = image + 44;
          total = (if bounded = 0 then 0 else 8 + of_int bounded * card + of_int (bounded - 1) * 8)
      in \<lparr>pl_width = width, pl_image_height = image, pl_card_height = card, pl_total_height = total,
          pl_count = bounded\<rparr>)"

section \<open>Failed thumbnails\<close>

text \<open>The insertion-ordered set of the store, and its capacity.\<close>

record failure_store =
  fs_failed :: "string list"
  fs_capacity :: nat

definition failure_capacity :: nat where
  "failure_capacity = 256"

definition new_failure_store :: "nat \<Rightarrow> failure_store" where
  "new_failure_store capacity = \<lparr>fs_failed = [], fs_capacity = capacity\<rparr>"

definition has_failed :: "failure_store \<Rightarrow> string \<Rightarrow> bool" where
  "has_failed st vid \<longleftrightarrow> vid \<in> set (fs_failed st)"

text \<open>\<^verbatim>\<open>while (this.failed.size > this.capacity) ...\<close>\<close>

fun evict_oldest :: "nat \<Rightarrow> string list \<Rightarrow> string list" where
  "evict_oldest capacity [] = []"
| "evict_oldest capacity (x # xs) =
     (if length (x # xs) > capacity then evict_oldest capacity xs else x # xs)"

definition mark_failed :: "failure_store \<Rightarrow> string \<Rightarrow> failure_store" where
  "mark_failed st vid =
     (if has_failed st vid then st
      else st\<lparr>fs_failed := evict_oldest (fs_capacity st) (fs_failed st @ [vid])\<rparr>)"

definition failed_ids :: "failure_store \<Rightarrow> string list" where
  "failed_ids st = fs_failed st"

end
