(* ===== verification/YouTube_Links.thy ===== *)
theory YouTube_Links
  imports YouTube_Preview
begin

text \<open>
  Which links \<open>YouTube_Preview\<close> previews: the parser of one token against the grammar of accepted
  links, the bounds of the scan, and the first-in first-out record of failures.
\<close>

section \<open>Cutting strings\<close>

lemma index_str_char: "index_str [c] s = index_char c s"
  by (induction s) (auto simp: prefix_def)

lemma index_char_takeWhile:
  "index_char c s = (if c \<in> set s then Some (length (takeWhile (\<lambda>x. x \<noteq> c) s)) else None)"
  by (induction s) auto

lemma drop_takeWhile: "drop (length (takeWhile P s)) s = dropWhile P s"
  by (induction s) auto

lemma take_takeWhile: "take (length (takeWhile P s)) s = takeWhile P s"
  by (induction s) auto

fun join_on :: "char \<Rightarrow> string list \<Rightarrow> string" where
  "join_on c [] = []"
| "join_on c [x] = x"
| "join_on c (x # y # ys) = x @ c # join_on c (y # ys)"

lemma join_split: "join_on c (split_on c s) = s"
proof (induction s)
  case (Cons x s)
  obtain y ys where s: "split_on c s = y # ys" using split_on_nonempty [of c s] by (cases "split_on c s") auto
  then show ?case using Cons by (cases ys) auto
qed simp

lemma split_free: "p \<in> set (split_on c s) \<Longrightarrow> c \<notin> set p"
proof (induction s arbitrary: p)
  case (Cons x s)
  obtain y ys where s: "split_on c s = y # ys" using split_on_nonempty [of c s] by (cases "split_on c s") auto
  then show ?case using Cons by (auto split: if_splits)
qed simp

lemma split_on_two: "length (split_on c s) = 2 \<Longrightarrow> s = split_on c s ! 0 @ c # split_on c s ! 1"
  using join_split [of c s] by (auto simp: numeral_2_eq_2 length_Suc_conv)

lemma split_on_three:
  "length (split_on c s) = 3 \<Longrightarrow> s = split_on c s ! 0 @ c # split_on c s ! 1 @ c # split_on c s ! 2"
  using join_split [of c s] by (auto simp: numeral_3_eq_3 length_Suc_conv)

section \<open>The parts of a link\<close>

definition authority_char :: "char \<Rightarrow> bool" where
  "authority_char c \<longleftrightarrow> c \<noteq> CHR ''/'' \<and> c \<noteq> CHR ''?''"

lemma drop_https: "drop 8 (https_prefix @ r) = r" "drop (8 + k) (https_prefix @ r) = drop k r"
proof -
  show d: "drop 8 (https_prefix @ r) = r" by (simp add: https_prefix_def)
  have "drop (8 + k) (https_prefix @ r) = drop k (drop 8 (https_prefix @ r))"
    by (simp only: drop_drop add.commute)
  then show "drop (8 + k) (https_prefix @ r) = drop k r" by (simp only: d)
qed

lemma authority_min:
  "length (takeWhile authority_char r) =
     min (length (takeWhile (\<lambda>x. x \<noteq> CHR ''/'') r)) (length (takeWhile (\<lambda>x. x \<noteq> CHR ''?'') r))"
  by (induction r) (auto simp: authority_char_def)

lemma authority_end_https:
  "authority_end (https_prefix @ rest) = 8 + length (takeWhile authority_char rest)"
proof -
  have free: "length (takeWhile (\<lambda>x. x \<noteq> c) rest) = length rest" if "c \<notin> set rest" for c
    using that by (metis (mono_tags, lifting) takeWhile_eq_all_conv)
  have le: "length (takeWhile (\<lambda>x. x \<noteq> c) rest) \<le> length rest" for c
    by (rule length_takeWhile_le)
  have len: "length (https_prefix @ rest) = 8 + length rest" by (simp add: https_prefix_def)
  have idx: "index_from [c] 8 (https_prefix @ rest) =
      (if c \<in> set rest then Some (length (takeWhile (\<lambda>x. x \<noteq> c) rest) + 8) else None)" for c
    by (simp add: index_from_def drop_https index_str_char index_char_takeWhile del: drop_append)
  show ?thesis
    unfolding authority_end_def idx len authority_min
    using free [of "CHR ''/''"] free [of "CHR ''?''"] le [of "CHR ''/''"] le [of "CHR ''?''"]
    by (cases "CHR ''/'' \<in> set rest"; cases "CHR ''?'' \<in> set rest") (simp_all add: min_def)
qed

text \<open>The parser on what follows the scheme: host, path and query.\<close>

definition link_parts :: "string \<Rightarrow> string \<times> string \<times> string option" where
  "link_parts rest =
     (let after = dropWhile authority_char rest
      in (takeWhile authority_char rest, takeWhile (\<lambda>c. c \<noteq> CHR ''?'') after,
          if CHR ''?'' \<in> set after then Some (tl (dropWhile (\<lambda>c. c \<noteq> CHR ''?'') after)) else None))"

definition parse_parts :: "string \<times> string \<times> string option \<Rightarrow> string option" where
  "parse_parts parts =
     (case parts of (host, path, query) \<Rightarrow>
        let segments = split_on (CHR ''/'') path in
        if host \<notin> set youtube_hosts then None
        else if \<not> prefix ''/'' path \<or> list_ex bad_segment (tl segments) then None
        else if host = ''youtu.be'' then
          (if query \<noteq> None \<or> length segments \<noteq> 2 \<or> \<not> is_video_id (segments ! 1) then None
           else Some (segments ! 1))
        else case query of
          None \<Rightarrow>
            if length segments \<noteq> 3 \<or> segments ! 1 \<notin> {''shorts'', ''embed'', ''live''} then None
            else if is_video_id (segments ! 2) then Some (segments ! 2) else None
        | Some q \<Rightarrow> if path \<noteq> ''/watch'' then None else parse_watch_query q)"

lemma drop_past: "drop (Suc (m + a)) xs = tl (drop m (drop a xs))"
  by (simp add: drop_Suc drop_tl)

lemma link_cuts:
  assumes "token = https_prefix @ rest"
  defines "ae \<equiv> 8 + length (takeWhile authority_char rest)"
  shows "authority_end token = ae" and "js_slice 8 ae token = fst (link_parts rest)"
    and "js_slice ae (case index_from ''?'' ae token of None \<Rightarrow> length token | Some q \<Rightarrow> q) token =
      fst (snd (link_parts rest))"
    and "(case index_from ''?'' ae token of None \<Rightarrow> None | Some q \<Rightarrow> Some (drop (Suc q) token)) =
      snd (snd (link_parts rest))"
proof -
  let ?n = "length (takeWhile authority_char rest)"
  let ?after = "dropWhile authority_char rest"
  let ?m = "length (takeWhile (\<lambda>c. c \<noteq> CHR ''?'') ?after)"
  have d: "drop 8 token = rest" "drop (8 + k) token = drop k rest" for k
    by (simp_all only: assms(1) drop_https)
  have da: "drop ae token = ?after" by (simp only: ae_def d drop_takeWhile)
  have qi: "index_from ''?'' ae token = (if CHR ''?'' \<in> set ?after then Some (?m + ae) else None)"
    by (simp add: index_from_def da index_str_char index_char_takeWhile)
  show "authority_end token = ae" by (simp only: assms(1) ae_def authority_end_https)
  show "js_slice 8 ae token = fst (link_parts rest)"
    by (simp add: js_slice_def ae_def d take_takeWhile link_parts_def Let_def)
  have len: "length token - ae = length ?after" using da by (metis length_drop)
  show "js_slice ae (case index_from ''?'' ae token of None \<Rightarrow> length token | Some q \<Rightarrow> q) token =
      fst (snd (link_parts rest))"
  proof (cases "CHR ''?'' \<in> set ?after")
    case False
    then have "\<forall>x \<in> set ?after. x \<noteq> CHR ''?''" by auto
    then have nq: "takeWhile (\<lambda>c. c \<noteq> CHR ''?'') ?after = ?after" by (rule takeWhile_eq_all_conv [THEN iffD2])
    show ?thesis using False by (simp add: qi js_slice_def da len link_parts_def Let_def nq)
  qed (simp add: qi js_slice_def da take_takeWhile link_parts_def Let_def)
  have "drop (Suc (?m + ae)) token = tl (drop ?m (drop ae token))"
    by (rule drop_past)
  then show "(case index_from ''?'' ae token of None \<Rightarrow> None | Some q \<Rightarrow> Some (drop (Suc q) token)) =
      snd (snd (link_parts rest))"
    by (simp add: qi da drop_takeWhile link_parts_def Let_def)
qed

lemma parse_token_parts:
  "parse_youtube_token token =
     (if length token > token_limit \<or> \<not> prefix https_prefix token \<or> list_ex forbidden_char token then None
      else parse_parts (link_parts (drop 8 token)))"
proof (cases "prefix https_prefix token")
  case True
  then obtain rest where t: "token = https_prefix @ rest" by (auto simp: prefix_def)
  obtain host path query where p: "link_parts rest = (host, path, query)" by (cases "link_parts rest") auto
  note cuts = link_cuts [OF t, unfolded p fst_conv snd_conv]
  have d: "drop 8 token = rest" by (simp only: t drop_https)
  have "\<not> (CHR '':'' \<in> set host \<or> CHR ''@'' \<in> set host)" if "host \<in> set youtube_hosts"
    using that by (auto simp: youtube_hosts_def)
  then have h: "(host \<notin> set youtube_hosts \<or> CHR '':'' \<in> set host \<or> CHR ''@'' \<in> set host) \<longleftrightarrow> host \<notin> set youtube_hosts"
    by blast
  show ?thesis
    unfolding parse_youtube_token_def Let_def cuts h parse_parts_def d p prod.case by (rule refl)
qed (simp add: parse_youtube_token_def)

section \<open>The grammar of accepted links\<close>

lemma link_parts_path:
  assumes "list_all authority_char host" and "CHR ''?'' \<notin> set path"
  shows "link_parts (host @ CHR ''/'' # path) = (host, CHR ''/'' # path, None)"
    and "link_parts (host @ CHR ''/'' # path @ CHR ''?'' # q) = (host, CHR ''/'' # path, Some q)"
proof -
  have t: "takeWhile authority_char (host @ CHR ''/'' # r) = host"
    "dropWhile authority_char (host @ CHR ''/'' # r) = CHR ''/'' # r" for r
    using assms(1) by (induction host) (auto simp: authority_char_def)
  have p: "takeWhile (\<lambda>c. c \<noteq> CHR ''?'') (path @ CHR ''?'' # q) = path"
    "dropWhile (\<lambda>c. c \<noteq> CHR ''?'') (path @ CHR ''?'' # q) = CHR ''?'' # q"
    "takeWhile (\<lambda>c. c \<noteq> CHR ''?'') path = path"
    using assms(2) by (induction path) auto
  show "link_parts (host @ CHR ''/'' # path) = (host, CHR ''/'' # path, None)"
    using assms(2) by (simp add: link_parts_def t p)
  show "link_parts (host @ CHR ''/'' # path @ CHR ''?'' # q) = (host, CHR ''/'' # path, Some q)"
    by (simp add: link_parts_def t p)
qed

lemma link_parts_inverse:
  assumes "link_parts rest = (host, path, query)"
  shows "rest = host @ path @ (case query of None \<Rightarrow> [] | Some q \<Rightarrow> CHR ''?'' # q)"
proof -
  let ?after = "dropWhile authority_char rest"
  have h: "host = takeWhile authority_char rest" and p: "path = takeWhile (\<lambda>c. c \<noteq> CHR ''?'') ?after"
    and q: "query = (if CHR ''?'' \<in> set ?after then Some (tl (dropWhile (\<lambda>c. c \<noteq> CHR ''?'') ?after)) else None)"
    using assms by (auto simp: link_parts_def Let_def)
  have after: "?after = path @ dropWhile (\<lambda>c. c \<noteq> CHR ''?'') ?after" by (simp add: p)
  have tail: "dropWhile (\<lambda>c. c \<noteq> CHR ''?'') xs = CHR ''?'' # tl (dropWhile (\<lambda>c. c \<noteq> CHR ''?'') xs)"
    if "CHR ''?'' \<in> set xs" for xs
    using that by (induction xs) auto
  have none: "dropWhile (\<lambda>c. c \<noteq> CHR ''?'') xs = []" if "CHR ''?'' \<notin> set xs" for xs
    using that by (induction xs) auto
  have "?after = path @ (case query of None \<Rightarrow> [] | Some q \<Rightarrow> CHR ''?'' # q)"
  proof (cases "CHR ''?'' \<in> set ?after")
    case True
    then show ?thesis using after tail [OF True] by (simp add: q)
  next
    case False
    have "?after = path" using after unfolding none [OF False] by simp
    then show ?thesis using False by (simp add: q)
  qed
  then show ?thesis by (metis h append.assoc takeWhile_dropWhile_id)
qed

lemma video_id_chars: "is_video_id v \<Longrightarrow> v \<noteq> [] \<and> CHR ''/'' \<notin> set v \<and> CHR ''?'' \<notin> set v \<and> \<not> bad_segment v"
  by (auto simp: is_video_id_def list_all_iff bad_segment_def is_token_char_def is_alnum_def is_upper_def
      is_lower_def is_digit_def code_of_def)

lemma watch_query_id: "parse_watch_query q = Some v \<Longrightarrow> is_video_id v"
  by (auto simp: parse_watch_query_def split: if_splits option.splits)

definition site_hosts :: "string list" where
  "site_hosts = [''youtube.com'', ''www.youtube.com'', ''m.youtube.com'']"

definition video_paths :: "string list" where
  "video_paths = [''shorts'', ''embed'', ''live'']"

text \<open>What may follow the scheme.\<close>

definition accepted_link :: "string \<Rightarrow> string \<Rightarrow> bool" where
  "accepted_link rest v \<longleftrightarrow>
     is_video_id v \<and>
     (rest = ''youtu.be/'' @ v \<or>
      (\<exists>h \<in> set site_hosts.
         (\<exists>k \<in> set video_paths. rest = h @ ''/'' @ k @ ''/'' @ v) \<or>
         (\<exists>q. rest = h @ ''/watch?'' @ q \<and> parse_watch_query q = Some v)))"

lemma parse_parts_sound:
  assumes "parse_parts (link_parts rest) = Some v"
  shows "accepted_link rest v"
proof -
  obtain host path query where p: "link_parts rest = (host, path, query)" by (cases "link_parts rest") auto
  have r: "rest = host @ path @ (case query of None \<Rightarrow> [] | Some q \<Rightarrow> CHR ''?'' # q)"
    by (rule link_parts_inverse [OF p])
  let ?s = "split_on (CHR ''/'') path"
  have ok: "host \<in> set youtube_hosts" "prefix ''/'' path"
    using assms by (auto simp: parse_parts_def p Let_def split: if_splits)
  then obtain path' where path: "path = CHR ''/'' # path'" by (auto simp: prefix_def)
  then have s0: "?s ! 0 = []" by simp
  show ?thesis
  proof (cases "host = ''youtu.be''")
    case True
    then have "query = None" "length ?s = 2" "is_video_id (?s ! 1)" "v = ?s ! 1"
      using assms by (auto simp: parse_parts_def p Let_def split: if_splits)
    then show ?thesis using r split_on_two [of "CHR ''/''" path] s0 True by (simp add: accepted_link_def)
  next
    case False
    then have h: "host \<in> set site_hosts" using ok(1) by (auto simp: youtube_hosts_def site_hosts_def)
    show ?thesis
    proof (cases query)
      case None
      then have s: "length ?s = 3" "?s ! 1 \<in> set video_paths" "is_video_id (?s ! 2)" "v = ?s ! 2"
        using assms False by (auto simp: parse_parts_def p Let_def video_paths_def split: if_splits)
      have "rest = host @ ''/'' @ ?s ! 1 @ ''/'' @ v"
        using r None split_on_three [OF s(1)] s0 s(4) by simp
      then show ?thesis using h s unfolding accepted_link_def by blast
    next
      case (Some q)
      then have "path = ''/watch''" "parse_watch_query q = Some v"
        using assms False by (auto simp: parse_parts_def p Let_def split: if_splits)
      then have "rest = host @ ''/watch?'' @ q" "parse_watch_query q = Some v" using r Some by simp_all
      then show ?thesis using h watch_query_id unfolding accepted_link_def by blast
    qed
  qed
qed

lemma parse_parts_complete:
  assumes "accepted_link rest v"
  shows "parse_parts (link_parts rest) = Some v"
proof -
  have v: "v \<noteq> []" "CHR ''/'' \<notin> set v" "CHR ''?'' \<notin> set v" "\<not> bad_segment v" "is_video_id v"
    using assms video_id_chars by (auto simp: accepted_link_def)
  have auth: "list_all authority_char h" if "h \<in> set site_hosts" for h
    using that by (auto simp: site_hosts_def authority_char_def)
  have short: "list_all authority_char ''youtu.be''" by (simp add: authority_char_def)
  have site: "h \<in> set youtube_hosts \<and> h \<noteq> ''youtu.be''" if "h \<in> set site_hosts" for h
    using that by (auto simp: site_hosts_def youtube_hosts_def)
  consider "rest = ''youtu.be/'' @ v"
    | h k where "h \<in> set site_hosts" "k \<in> set video_paths" "rest = h @ ''/'' @ k @ ''/'' @ v"
    | h q where "h \<in> set site_hosts" "rest = h @ ''/watch?'' @ q" "parse_watch_query q = Some v"
    using assms by (auto simp: accepted_link_def)
  then show ?thesis
  proof cases
    case 1
    have "link_parts (''youtu.be'' @ CHR ''/'' # v) = (''youtu.be'', CHR ''/'' # v, None)"
      by (rule link_parts_path(1) [OF short v(3)])
    then show ?thesis using v 1 by (simp add: parse_parts_def youtube_hosts_def split_on_free)
  next
    case 2
    have k: "CHR ''/'' \<notin> set k \<and> CHR ''?'' \<notin> set k \<and> \<not> bad_segment k"
      using 2(2) by (auto simp: video_paths_def bad_segment_def)
    have "link_parts (h @ CHR ''/'' # k @ CHR ''/'' # v) = (h, CHR ''/'' # k @ CHR ''/'' # v, None)"
      by (rule link_parts_path(1) [OF auth [OF 2(1)]]) (use v k in simp)
    moreover have "split_on (CHR ''/'') (k @ CHR ''/'' # v) = [k, v]"
      using k v by (simp add: split_on_append split_on_free)
    ultimately show ?thesis
      using v k 2 site [OF 2(1)] by (simp add: parse_parts_def Let_def video_paths_def)
  next
    case 3
    have "link_parts (h @ CHR ''/'' # ''watch'' @ CHR ''?'' # q) = (h, CHR ''/'' # ''watch'', Some q)"
      by (rule link_parts_path(2) [OF auth [OF 3(1)]]) simp
    moreover have "\<not> bad_segment ''watch''" by (simp add: bad_segment_def)
    ultimately show ?thesis
      using 3 site [OF 3(1)] by (simp add: parse_parts_def Let_def)
  qed
qed

text \<open>The link parser accepts exactly the documented links: \<^verbatim>\<open>https://youtu.be/<id>\<close>,
  the shorts, embed and live pages and the watch page of the three site hosts, with an id of eleven
  token characters, no forbidden character and at most 2048 code units; and it returns their id.
\<close>

theorem youtube_links_accepted:
  "parse_youtube_token token = Some v \<longleftrightarrow>
     length token \<le> token_limit \<and> \<not> list_ex forbidden_char token \<and>
     (\<exists>rest. token = https_prefix @ rest \<and> accepted_link rest v)"
proof
  assume a: "parse_youtube_token token = Some v"
  then have "prefix https_prefix token" by (auto simp: parse_token_parts split: if_splits)
  then obtain rest where t: "token = https_prefix @ rest" by (auto simp: prefix_def)
  have "parse_parts (link_parts (drop 8 token)) = Some v" using a by (auto simp: parse_token_parts split: if_splits)
  then have "accepted_link rest v" unfolding t drop_https by (rule parse_parts_sound)
  moreover have "length token \<le> token_limit" "\<not> list_ex forbidden_char token"
    using a by (auto simp: parse_token_parts not_less split: if_splits)
  ultimately show "length token \<le> token_limit \<and> \<not> list_ex forbidden_char token \<and>
     (\<exists>rest. token = https_prefix @ rest \<and> accepted_link rest v)"
    using t by blast
next
  assume "length token \<le> token_limit \<and> \<not> list_ex forbidden_char token \<and>
     (\<exists>rest. token = https_prefix @ rest \<and> accepted_link rest v)"
  then obtain rest where t: "token = https_prefix @ rest" "accepted_link rest v"
    and ok: "length token \<le> token_limit" "\<not> list_ex forbidden_char token" by blast
  have "parse_parts (link_parts (drop 8 token)) = Some v"
    unfolding t(1) drop_https using t(2) by (rule parse_parts_complete)
  then show "parse_youtube_token token = Some v"
    using ok t(1) unfolding parse_token_parts by simp
qed

lemma youtube_token_id: "parse_youtube_token token = Some v \<Longrightarrow> is_video_id v"
  using parse_parts_sound by (auto simp: parse_token_parts accepted_link_def split: if_splits)

section \<open>The scan is bounded\<close>

lemma scan_tokens_length: "count \<le> raw_token_limit \<Longrightarrow> count + length (scan_tokens s cursor count) \<le> raw_token_limit"
proof (induction s cursor count rule: scan_tokens.induct)
  case (1 s cursor count)
  show ?case
  proof (cases "cursor < length s \<and> count < raw_token_limit")
    case True
    then show ?thesis
      using 1 by (subst scan_tokens.simps) (auto simp: Let_def split: option.split)
  qed (use 1(3) in \<open>subst scan_tokens.simps, simp\<close>)
qed

lemma sublist_slice: "sublist (js_slice a b s) s"
  unfolding js_slice_def by (meson sublist_take sublist_drop sublist_order.order_trans)

lemma scan_tokens_sublist: "set (scan_tokens s cursor count) \<subseteq> {t. sublist t s}"
proof (induction s cursor count rule: scan_tokens.induct)
  case (1 s cursor count)
  show ?case
  proof (cases "cursor < length s \<and> count < raw_token_limit")
    case True
    show ?thesis
    proof (cases "index_from https_prefix cursor s")
      case (Some start)
      show ?thesis
      proof (cases "0 < start \<and> \<not> is_boundary (s ! (start - 1))")
        case skip: True
        then show ?thesis
          using 1(1) [OF _ Some skip] True by (subst scan_tokens.simps) (simp add: Some)
      next
        case token: False
        then show ?thesis
          using 1(2) [OF _ Some token refl] token True
          by (subst scan_tokens.simps, simp add: Some Let_def sublist_slice) auto
      qed
    qed (subst scan_tokens.simps, simp)
  qed (subst scan_tokens.simps, simp)
qed

lemma bounded_body_prefix: "prefix (bounded_body body) (take scan_limit body)"
proof -
  have "prefix (cut_at_whitespace s) s" for s
  proof -
    have "suffix (tl (dropWhile (\<lambda>c. \<not> is_ascii_whitespace c) (rev s))) (rev s)"
      by (meson suffix_dropWhile suffix_tl suffix_order.order_trans)
    then show ?thesis by (simp add: cut_at_whitespace_def suffix_to_prefix)
  qed
  then show ?thesis by (auto simp: bounded_body_def Let_def)
qed

lemma scan_raw_sublist:
  assumes "t \<in> set (scan_raw_tokens body)"
  shows "sublist t (take scan_limit body)"
proof -
  have "sublist t (bounded_body body)"
    using assms scan_tokens_sublist unfolding scan_raw_tokens_def by blast
  then show ?thesis
    using prefix_imp_sublist [OF bounded_body_prefix] by (rule sublist_order.order_trans)
qed

lemma collect_ids_inv:
  assumes "distinct ids" and "length ids < max_previews"
  shows "distinct (collect_ids ids ts) \<and> length (collect_ids ids ts) \<le> max_previews \<and>
    set (collect_ids ids ts) \<subseteq> set ids \<union> {v. \<exists>t \<in> set ts. parse_youtube_token t = Some v}"
  using assms
proof (induction ts arbitrary: ids)
  case (Cons t ts)
  show ?case
  proof (cases "parse_youtube_token t")
    case None
    then show ?thesis using Cons.IH [OF Cons.prems] by auto
  next
    case (Some v)
    show ?thesis
    proof (cases "v = [] \<or> v \<in> set ids")
      case True
      then show ?thesis using Cons.IH [OF Cons.prems] Some by auto
    next
      case False
      then have d: "distinct (ids @ [v])" using Cons.prems by simp
      show ?thesis
      proof (cases "length (ids @ [v]) \<ge> max_previews")
        case True
        then show ?thesis using Some False Cons.prems by auto
      next
        case len: False
        then have "length (ids @ [v]) < max_previews" by simp
        from Cons.IH [OF d this] show ?thesis using Some False len by auto
      qed
    qed
  qed
qed simp

text \<open>A message gets at most three previews, of distinct videos, each with an id of eleven token
  characters that comes from an accepted link within the first 16384 code units of a decrypted,
  unredacted, sent text message; its image comes from the thumbnail host and its link leads to the
  watch page of that id.
\<close>

theorem youtube_previews_safe:
  "length (timeline_youtube_previews item) \<le> 3 \<and> distinct (map yp_id (timeline_youtube_previews item)) \<and>
   list_all (\<lambda>p. is_video_id (yp_id p) \<and>
       yp_src p = ''https://i.ytimg.com/vi/'' @ yp_id p @ ''/hqdefault.jpg'' \<and>
       yp_href p = ''https://www.youtube.com/watch?v='' @ yp_id p \<and>
       preview_eligible item \<and>
       (\<exists>body t. tiv_body (the item) = JStr body \<and> sublist t (take 16384 body) \<and>
          parse_youtube_token t = Some (yp_id p)))
     (timeline_youtube_previews item)"
proof (cases "preview_eligible item")
  case True
  then obtain i body where i: "item = Some i" and b: "tiv_body i = JStr body"
    by (auto simp: preview_eligible_def split: option.splits jsval.splits)
  define ids where "ids = parse_youtube_video_ids (JStr body)"
  have inv: "distinct ids" "length ids \<le> 3"
    "v \<in> set ids \<Longrightarrow> \<exists>t \<in> set (scan_raw_tokens body). parse_youtube_token t = Some v" for v
    using collect_ids_inv [of "[]" "scan_raw_tokens body"]
    by (auto simp: ids_def parse_youtube_video_ids_def max_previews_def)
  have "is_video_id v \<and> (\<exists>t. sublist t (take 16384 body) \<and> parse_youtube_token t = Some v)" if "v \<in> set ids" for v
    using inv(3) [OF that] youtube_token_id scan_raw_sublist [unfolded scan_limit_def] by blast
  moreover have "timeline_youtube_previews item =
      map (\<lambda>v. \<lparr>yp_id = v, yp_src = youtube_thumbnail_url v, yp_href = youtube_watch_url v\<rparr>) ids"
    using True by (simp add: timeline_youtube_previews_def i b ids_def)
  ultimately show ?thesis
    using inv(1,2) True
    by (simp add: list_all_iff comp_def i b youtube_thumbnail_url_def youtube_watch_url_def)
qed (simp add: timeline_youtube_previews_def)

section \<open>The record of failures\<close>

lemma evict_oldest_drop: "evict_oldest n xs = drop (length xs - n) xs"
  by (induction xs) (auto simp: Suc_diff_le)

definition store_ok :: "failure_store \<Rightarrow> bool" where
  "store_ok st \<longleftrightarrow> distinct (fs_failed st) \<and> length (fs_failed st) \<le> fs_capacity st"

lemma mark_failed_cases:
  "fs_failed (mark_failed st v) =
     (if v \<in> set (fs_failed st) then fs_failed st
      else drop (Suc (length (fs_failed st)) - fs_capacity st) (fs_failed st @ [v]))"
  "fs_capacity (mark_failed st v) = fs_capacity st"
  by (simp_all add: mark_failed_def has_failed_def evict_oldest_drop)

lemma mark_failed_ok: "store_ok st \<Longrightarrow> store_ok (mark_failed st v)"
  unfolding store_ok_def mark_failed_cases by (auto intro: distinct_drop simp del: drop_append)

text \<open>However many thumbnails fail, the store holds distinct ids and never more than its capacity;
  a new failure is recorded, and only the oldest one gives way to it.
\<close>

theorem failure_store_bounded:
  "(let st = foldl mark_failed (new_failure_store capacity) ids in
      distinct (failed_ids st) \<and> length (failed_ids st) \<le> capacity \<and>
      (let st' = mark_failed st v in
         (0 < capacity \<longrightarrow> has_failed st' v) \<and>
         (\<forall>w \<in> set (failed_ids st). has_failed st' w \<or>
            length (failed_ids st) = capacity \<and> w = hd (failed_ids st))))"
proof -
  define st where "st = foldl mark_failed (new_failure_store capacity) ids"
  have "store_ok st \<and> fs_capacity st = capacity"
    unfolding st_def
  proof (induction ids rule: rev_induct)
    case (snoc x xs)
    then show ?case using mark_failed_ok by (simp add: mark_failed_cases)
  qed (simp add: new_failure_store_def store_ok_def)
  then have ok: "distinct (fs_failed st)" "length (fs_failed st) \<le> capacity" "fs_capacity st = capacity"
    by (simp_all add: store_ok_def)
  have new: "0 < capacity \<Longrightarrow> v \<in> set (fs_failed (mark_failed st v))"
    using ok by (auto simp: mark_failed_cases drop_Cons' split: if_splits)
  have "w \<in> set (fs_failed (mark_failed st v)) \<or> length (fs_failed st) = capacity \<and> w = hd (fs_failed st)"
    if w: "w \<in> set (fs_failed st)" for w
  proof (cases "length (fs_failed st) = capacity")
    case True
    have "Suc (length (fs_failed st)) - capacity = Suc 0" using True by simp
    then show ?thesis using w True ok(3)
      by (cases "fs_failed st") (auto simp: mark_failed_cases)
  next
    case False
    then show ?thesis using w ok by (simp add: mark_failed_cases)
  qed
  then show ?thesis
    using ok new by (simp add: Let_def st_def [symmetric] failed_ids_def has_failed_def)
qed

theorem failure_store_bounded_witness:
  "failed_ids (foldl mark_failed (new_failure_store 2) [''a'', ''b'', ''c'']) = [''b'', ''c''] \<and>
   has_failed (mark_failed (foldl mark_failed (new_failure_store 2) [''a'', ''b'', ''c'']) ''d'') ''d''"
  using failure_store_bounded [of 2 "[''a'', ''b'', ''c'']" "''d''"]
  by (simp add: Let_def) code_simp

end
