(* ===== verification/Timeline_Policy.thy ===== *)
theory Timeline_Policy
  imports Prelude
begin

text \<open>
  lib/timeline-scroll.ts and lib/timeline-window.ts: how a change of the timeline's items is
  classified, the index of its first item after older items arrive, and when the view follows the
  end. Indices are integers; an item is its id and whether it is a local echo.
\<close>

record timeline_identity =
  tid_id :: string
  tid_local :: bool

datatype change_kind = Initial | Append | Prepend | ItemsChange | WindowShift | Replace

record timeline_change =
  tc_kind :: change_kind
  tc_appended_local :: bool

datatype scroll_mode = Initializing | Attached | Detached | RestoringHistory

datatype scroll_event =
    RoomChange
  | InitialPositioned
  | BottomState bool
  | UserDetach
  | HistoryStart
  | HistoryComplete
  | LocalAppend

section \<open>Classification\<close>

text \<open>The comparison loop, at one index after the other.\<close>

fun same_ids_from :: "timeline_identity list \<Rightarrow> timeline_identity list \<Rightarrow> nat \<Rightarrow> nat \<Rightarrow> nat \<Rightarrow> bool" where
  "same_ids_from prev nxt offset index 0 = True"
| "same_ids_from prev nxt offset index (Suc n) =
     (if tid_id (prev ! index) \<noteq> tid_id (nxt ! (offset + index)) then False
      else same_ids_from prev nxt offset (Suc index) n)"

definition same_ids_at_offset :: "timeline_identity list \<Rightarrow> timeline_identity list \<Rightarrow> int \<Rightarrow> bool" where
  "same_ids_at_offset prev nxt offset =
     (if offset < 0 \<or> offset + int (length prev) > int (length nxt) then False
      else same_ids_from prev nxt (nat offset) 0 (length prev))"

text \<open>\<^verbatim>\<open>findIndex\<close>, \<open>-1\<close> when there is none.\<close>

fun find_index :: "('a \<Rightarrow> bool) \<Rightarrow> 'a list \<Rightarrow> int" where
  "find_index P [] = -1"
| "find_index P (x # xs) = (if P x then 0 else (let i = find_index P xs in if i < 0 then -1 else i + 1))"

definition change :: "change_kind \<Rightarrow> bool \<Rightarrow> timeline_change" where
  "change k l = \<lparr>tc_kind = k, tc_appended_local = l\<rparr>"

definition classify_timeline_change ::
  "timeline_identity list \<Rightarrow> timeline_identity list \<Rightarrow> int \<Rightarrow> int \<Rightarrow> timeline_change" where
  "classify_timeline_change prev nxt prev_first next_first =
     (if prev = [] then change Initial (list_ex tid_local nxt)
      else if nxt = [] then change Replace False
      else
        let first_id = tid_id (prev ! 0);
            offset = find_index (\<lambda>i. tid_id i = first_id) nxt;
            prepended = prev_first - next_first
        in if prepended > 0 \<and> offset = prepended \<and> same_ids_at_offset prev nxt offset
           then change Prepend False
           else if same_ids_at_offset prev nxt 0 then
             (let appended = drop (length prev) nxt
              in if appended \<noteq> [] then change Append (list_ex tid_local appended)
                 else change ItemsChange False)
           else
             let ids = set (map tid_id prev)
             in if list_ex (\<lambda>i. tid_id i \<in> ids) nxt
                then change WindowShift (list_ex (\<lambda>i. tid_id i \<notin> ids \<and> tid_local i) nxt)
                else change Replace False)"

section \<open>Following and the scroll mode\<close>

definition should_follow_timeline_change :: "timeline_change \<Rightarrow> scroll_mode \<Rightarrow> bool" where
  "should_follow_timeline_change c mode =
     (if tc_kind c = Prepend then False
      else if tc_appended_local c then True
      else if tc_kind c = Initial then True
      else if tc_kind c = ItemsChange then False
      else mode = Attached)"

fun transition_scroll_mode :: "scroll_mode \<Rightarrow> scroll_event \<Rightarrow> scroll_mode" where
  "transition_scroll_mode mode RoomChange = Initializing"
| "transition_scroll_mode mode InitialPositioned = Attached"
| "transition_scroll_mode mode LocalAppend = Attached"
| "transition_scroll_mode mode (BottomState at_bottom) = (if at_bottom then Attached else Detached)"
| "transition_scroll_mode mode UserDetach = Detached"
| "transition_scroll_mode mode HistoryComplete = Detached"
| "transition_scroll_mode mode HistoryStart = RestoringHistory"

section \<open>The window index\<close>

definition initial_timeline_item_index :: int where
  "initial_timeline_item_index = 1000000"

definition count_prepended_items :: "string option \<Rightarrow> string list \<Rightarrow> int" where
  "count_prepended_items first_id next_ids =
     (case first_id of
        None \<Rightarrow> 0
      | Some i \<Rightarrow> if i = [] then 0 else max 0 (find_index (\<lambda>x. x = i) next_ids))"

definition start_index_after_prepend :: "int \<Rightarrow> string option \<Rightarrow> string list \<Rightarrow> int" where
  "start_index_after_prepend start first_id next_ids =
     max 0 (start - count_prepended_items first_id next_ids)"

section \<open>Facts\<close>

lemma same_ids_from_iff:
  "same_ids_from prev nxt offset index n \<longleftrightarrow>
     (\<forall>k < n. tid_id (prev ! (index + k)) = tid_id (nxt ! (offset + index + k)))"
proof (induction n arbitrary: index)
  case (Suc n)
  have "(\<forall>k < Suc n. P k) \<longleftrightarrow> P 0 \<and> (\<forall>k < n. P (Suc k))" for P :: "nat \<Rightarrow> bool"
    using less_Suc_eq_0_disj by auto
  then show ?case using Suc [of "Suc index"] by simp
qed simp

text \<open>The items of \<open>prev\<close> stand in \<open>nxt\<close> after \<open>offset\<close> others.\<close>

lemma same_ids_at_offset_iff:
  "same_ids_at_offset prev nxt (int k) \<longleftrightarrow>
     k + length prev \<le> length nxt \<and> map tid_id (take (length prev) (drop k nxt)) = map tid_id prev"
proof (cases "k + length prev \<le> length nxt")
  case True
  then have "map tid_id (take (length prev) (drop k nxt)) = map tid_id prev \<longleftrightarrow>
      (\<forall>i < length prev. tid_id (prev ! i) = tid_id (nxt ! (k + i)))"
    by (auto simp: list_eq_iff_nth_eq)
  then show ?thesis using True by (simp add: same_ids_at_offset_def same_ids_from_iff)
qed (simp add: same_ids_at_offset_def)

lemma prefix_take_iff: "prefix xs ys \<longleftrightarrow> take (length xs) ys = xs"
  by (metis append_eq_conv_conj prefix_def take_is_prefix)

lemma same_ids_at_start: "same_ids_at_offset prev nxt 0 \<longleftrightarrow> prefix (map tid_id prev) (map tid_id nxt)"
proof -
  have "length prev \<le> length nxt" if "map tid_id (take (length prev) nxt) = map tid_id prev"
    using arg_cong [OF that, of length] by simp
  then show ?thesis
    using same_ids_at_offset_iff [of prev nxt 0] by (auto simp: prefix_take_iff take_map)
qed

lemma find_index_iff:
  "find_index P xs = int k \<longleftrightarrow> k < length xs \<and> P (xs ! k) \<and> (\<forall>j < k. \<not> P (xs ! j))"
proof (induction xs arbitrary: k)
  case (Cons x xs)
  have neg: "find_index P xs < 0 \<longleftrightarrow> find_index P xs = -1" for xs
    by (induction xs) (auto simp: Let_def)
  show ?case
  proof (cases k)
    case 0
    have "\<not> find_index P xs + 1 = 0 \<or> find_index P xs < 0" by auto
    then show ?thesis using 0 by (auto simp: Let_def)
  next
    case (Suc j)
    then show ?thesis using Cons [of j] by (auto simp: Let_def less_Suc_eq_0_disj)
  qed
qed simp

lemma find_index_append:
  "\<forall>x \<in> set front. \<not> P x \<Longrightarrow> P y \<Longrightarrow> find_index P (front @ y # rest) = int (length front)"
  by (simp add: find_index_iff nth_append)

lemma ids_meet:
  "list_ex (\<lambda>i. tid_id i \<in> set (map tid_id prev)) nxt \<longleftrightarrow> set (map tid_id prev) \<inter> set (map tid_id nxt) \<noteq> {}"
  by (induction nxt) auto

text \<open>What each verdict of the classifier means. A prepend puts exactly the index difference of new
  items before the old ones; an append keeps the old items first; only a change that keeps the same
  ids is an items-change; a window shift keeps some old item but is none of these; and a replacement
  keeps none.
\<close>

theorem classification_meaning:
  "(let c = classify_timeline_change prev nxt p n; ids = map tid_id in
     case tc_kind c of
       Initial \<Rightarrow> prev = []
     | Prepend \<Rightarrow> prev \<noteq> [] \<and> (\<exists>front. front \<noteq> [] \<and> int (length front) = p - n \<and>
           prefix (front @ ids prev) (ids nxt))
     | Append \<Rightarrow> prev \<noteq> [] \<and> (\<exists>new :: timeline_identity list. new \<noteq> [] \<and> ids nxt = ids prev @ map tid_id new \<and>
           (tc_appended_local c \<longleftrightarrow> list_ex tid_local new))
     | ItemsChange \<Rightarrow> prev \<noteq> [] \<and> ids nxt = ids prev
     | WindowShift \<Rightarrow> set (ids prev) \<inter> set (ids nxt) \<noteq> {} \<and> \<not> prefix (ids prev) (ids nxt)
     | Replace \<Rightarrow> prev \<noteq> [] \<and> set (ids prev) \<inter> set (ids nxt) = {})"
proof (cases "prev = [] \<or> nxt = []")
  case True
  then show ?thesis by (auto simp: classify_timeline_change_def change_def Let_def)
next
  case False
  define offset where "offset = find_index (\<lambda>i. tid_id i = tid_id (prev ! 0)) nxt"
  have same0: "same_ids_at_offset prev nxt 0 \<longleftrightarrow> prefix (map tid_id prev) (map tid_id nxt)"
    by (rule same_ids_at_start)
  consider (pre) "p - n > 0 \<and> offset = p - n \<and> same_ids_at_offset prev nxt offset"
    | (app) "\<not> (p - n > 0 \<and> offset = p - n \<and> same_ids_at_offset prev nxt offset)" "same_ids_at_offset prev nxt 0"
    | (other) "\<not> (p - n > 0 \<and> offset = p - n \<and> same_ids_at_offset prev nxt offset)" "\<not> same_ids_at_offset prev nxt 0"
    by blast
  then show ?thesis
  proof cases
    case pre
    define k where "k = nat (p - n)"
    have k: "offset = int k" "0 < k" "int k = p - n" using pre by (auto simp: k_def)
    then have s: "k + length prev \<le> length nxt" "map tid_id (take (length prev) (drop k nxt)) = map tid_id prev"
      using pre same_ids_at_offset_iff [of prev nxt k] by auto
    have "map tid_id nxt = map tid_id (take k nxt) @ map tid_id prev @ map tid_id (drop (length prev) (drop k nxt))"
      using s(2) by (metis append_take_drop_id map_append)
    then have "prefix (map tid_id (take k nxt) @ map tid_id prev) (map tid_id nxt)" by (metis append_assoc prefixI)
    moreover have "length (map tid_id (take k nxt)) = k" using s(1) by simp
    ultimately have "\<exists>front. front \<noteq> [] \<and> int (length front) = p - n \<and> prefix (front @ map tid_id prev) (map tid_id nxt)"
      using k by (intro exI [of _ "map tid_id (take k nxt)"]) auto
    moreover have "n < p" "offset = p - n" "same_ids_at_offset prev nxt (p - n)" using pre by auto
    then have "classify_timeline_change prev nxt p n = change Prepend False"
      using False by (simp add: classify_timeline_change_def offset_def [symmetric] Let_def)
    ultimately show ?thesis using False by (simp add: change_def)
  next
    case app
    obtain t where t: "map tid_id nxt = map tid_id prev @ t" using app(2) same0 by (auto simp: prefix_def)
    have d: "t = map tid_id (drop (length prev) nxt)"
      using t by (metis append_eq_conv_conj drop_map length_map)
    have c: "classify_timeline_change prev nxt p n =
        (if drop (length prev) nxt \<noteq> [] then change Append (list_ex tid_local (drop (length prev) nxt))
         else change ItemsChange False)"
      using False app by (auto simp: classify_timeline_change_def offset_def [symmetric] Let_def)
    show ?thesis
    proof (cases "drop (length prev) nxt = []")
      case True
      then show ?thesis using False t d by (simp add: c change_def)
    next
      case new: False
      define new where "new = drop (length prev) nxt"
      have n: "new \<noteq> []" "map tid_id nxt = map tid_id prev @ map tid_id new" using new t d by (simp_all add: new_def)
      have kind: "tc_kind (classify_timeline_change prev nxt p n) = Append"
        and loc: "tc_appended_local (classify_timeline_change prev nxt p n) = list_ex tid_local new"
        using new by (simp_all add: c change_def new_def)
      have "prev \<noteq> [] \<and> (\<exists>new :: timeline_identity list. new \<noteq> [] \<and> map tid_id nxt = map tid_id prev @ map tid_id new \<and>
          (tc_appended_local (classify_timeline_change prev nxt p n) \<longleftrightarrow> list_ex tid_local new))"
        using n loc False by (intro conjI exI [of _ new]) simp_all
      then show ?thesis unfolding Let_def kind change_kind.case .
    qed
  next
    case other
    have np: "\<not> prefix (map tid_id prev) (map tid_id nxt)" using other(2) same0 by blast
    have c: "classify_timeline_change prev nxt p n =
        (if list_ex (\<lambda>i. tid_id i \<in> set (map tid_id prev)) nxt
         then change WindowShift (list_ex (\<lambda>i. tid_id i \<notin> set (map tid_id prev) \<and> tid_local i) nxt)
         else change Replace False)"
      using False other by (auto simp: classify_timeline_change_def offset_def [symmetric] Let_def)
    have "list_ex (\<lambda>i. tid_id i \<in> set (map tid_id prev)) nxt \<longleftrightarrow> set (map tid_id prev) \<inter> set (map tid_id nxt) \<noteq> {}"
      by (rule ids_meet)
    then show ?thesis using False np by (simp add: c change_def)
  qed
qed

text \<open>Loading history keeps the view in place: when older items with new ids arrive before the
  present ones, the index computed for the window makes the change a prepend, and a prepend is
  never followed, whatever the scroll mode.
\<close>

theorem history_keeps_position:
  "prev \<noteq> [] \<Longrightarrow> front \<noteq> [] \<Longrightarrow> tid_id (hd prev) \<noteq> [] \<Longrightarrow> tid_id (hd prev) \<notin> set (map tid_id front) \<Longrightarrow>
   int (length front) \<le> start \<Longrightarrow>
   let nxt = front @ prev @ rest;
       start' = start_index_after_prepend start (Some (tid_id (hd prev))) (map tid_id nxt);
       c = classify_timeline_change prev nxt start start'
   in tc_kind c = Prepend \<and> start' + int (length front) = start \<and> \<not> should_follow_timeline_change c mode"
proof -
  assume a: "prev \<noteq> []" "front \<noteq> []" "tid_id (hd prev) \<noteq> []" "tid_id (hd prev) \<notin> set (map tid_id front)"
    "int (length front) \<le> start"
  obtain x xs where p: "prev = x # xs" using a(1) by (cases prev) auto
  define nxt where "nxt = front @ prev @ rest"
  have "find_index (\<lambda>i. i = tid_id x) (map tid_id front @ tid_id x # map tid_id (xs @ rest)) = int (length (map tid_id front))"
  proof (rule find_index_append)
    show "\<forall>y \<in> set (map tid_id front). \<not> y = tid_id x" using a(4) unfolding p by (metis list.sel(1))
  qed simp
  then have count: "count_prepended_items (Some (tid_id (hd prev))) (map tid_id nxt) = int (length front)"
    using a(3) p by (simp add: count_prepended_items_def nxt_def)
  have "\<forall>i \<in> set front. tid_id i \<noteq> tid_id x" using a(4) p by (metis image_eqI list.sel(1) set_map)
  then have off: "find_index (\<lambda>i. tid_id i = tid_id (prev ! 0)) nxt = int (length front)"
    unfolding nxt_def p by (simp add: find_index_append)
  have same: "same_ids_at_offset prev nxt (int (length front))"
    unfolding same_ids_at_offset_iff by (simp add: nxt_def)
  have start: "start_index_after_prepend start (Some (tid_id (hd prev))) (map tid_id nxt) = start - int (length front)"
    using a(5) by (simp add: start_index_after_prepend_def count)
  have "classify_timeline_change prev nxt start (start - int (length front)) = change Prepend False"
    using a(1,2) off same by (simp add: classify_timeline_change_def Let_def nxt_def)
  then show ?thesis
    unfolding nxt_def [symmetric] Let_def start by (simp add: change_def should_follow_timeline_change_def)
qed

theorem history_keeps_position_witness:
  "tc_kind (classify_timeline_change [\<lparr>tid_id = ''b'', tid_local = False\<rparr>]
      [\<lparr>tid_id = ''a'', tid_local = False\<rparr>, \<lparr>tid_id = ''b'', tid_local = False\<rparr>] 1000000 999999) = Prepend"
  using history_keeps_position [of "[\<lparr>tid_id = ''b'', tid_local = False\<rparr>]" "[\<lparr>tid_id = ''a'', tid_local = False\<rparr>]"
      1000000 "[]" Detached]
  by (simp add: Let_def start_index_after_prepend_def count_prepended_items_def)

text \<open>After the user scrolls away, or history has been restored, the view follows nothing but a
  local message and a new timeline until it is positioned again: the scroll mode is the one its last
  event sets, and only \<open>Attached\<close> follows appended messages of others.
\<close>

theorem detached_view_stays:
  "should_follow_timeline_change c (foldl transition_scroll_mode mode (events @ [e])) \<longleftrightarrow>
     tc_kind c \<noteq> Prepend \<and>
     (tc_appended_local c \<or> tc_kind c = Initial \<or>
      tc_kind c \<noteq> ItemsChange \<and> e \<in> {InitialPositioned, LocalAppend, BottomState True})"
  by (cases e) (auto simp: should_follow_timeline_change_def)

end
