(* ===== verification/Viewer_Geometry.thy ===== *)
theory Viewer_Geometry
  imports Complex_Main Prelude "HOL-Library.Word"
begin

unbundle bit_operations_syntax

text \<open>
  lib/guide-navigation.ts, lib/composer-size.ts and lib/image-viewer.ts: room guide codes, mobile
  swipes, the height of the composer, and zoom and scrolling of the image viewer. Lengths are exact
  rationals; hash values are 32-bit words.
\<close>

section \<open>Guide codes\<close>

definition fnv_step :: "32 word \<Rightarrow> char \<Rightarrow> 32 word" where
  "fnv_step hash c = (hash XOR word_of_nat (code_of c)) * 16777619"

definition guide_hash :: "string \<Rightarrow> 32 word" where
  "guide_hash room_id = foldl fnv_step 2166136261 room_id"

definition pad_start2 :: "string \<Rightarrow> string" where
  "pad_start2 s = replicate (2 - length s) (CHR ''0'') @ s"

definition guide_entry_code :: "string \<Rightarrow> string" where
  "guide_entry_code room_id =
     (let normalized = unat (guide_hash room_id);
          entry = pad_start2 (nat_digits (normalized mod 89 + 1));
          sector = char_of (65 + (normalized div 89) mod 6)
      in entry @ ''-'' @ [sector])"

section \<open>Mobile swipes\<close>

datatype swipe_action = OpenIndex | CloseIndex

record swipe_gesture =
  sw_start_x :: rat
  sw_end_x :: rat
  sw_start_y :: rat
  sw_end_y :: rat
  sw_elapsed :: rat
  sw_viewport_width :: rat
  sw_index_open :: bool

definition can_start_mobile_swipe :: "rat \<Rightarrow> bool \<Rightarrow> bool" where
  "can_start_mobile_swipe start_x index_open \<longleftrightarrow> index_open \<or> start_x \<le> 32"

definition should_defer_history_seed :: "string \<Rightarrow> string option \<Rightarrow> string list \<Rightarrow> bool" where
  "should_defer_history_seed active routed available =
     (case routed of None \<Rightarrow> False | Some r \<Rightarrow> r \<noteq> [] \<and> r \<noteq> active \<and> r \<in> set available)"

definition swipe_deliberate :: "swipe_gesture \<Rightarrow> bool" where
  "swipe_deliberate g \<longleftrightarrow>
     \<bar>sw_end_x g - sw_start_x g\<bar> \<ge> min 84 (max 58 (sw_viewport_width g * (18 / 100)))"

definition swipe_fling :: "swipe_gesture \<Rightarrow> bool" where
  "swipe_fling g \<longleftrightarrow>
     \<bar>sw_end_x g - sw_start_x g\<bar> \<ge> 34 \<and>
     \<bar>sw_end_x g - sw_start_x g\<bar> / max (sw_elapsed g) 1 \<ge> 45 / 100"

definition resolve_mobile_swipe :: "swipe_gesture \<Rightarrow> swipe_action option" where
  "resolve_mobile_swipe g =
     (let delta_x = sw_end_x g - sw_start_x g; delta_y = sw_end_y g - sw_start_y g in
      if \<bar>delta_x\<bar> < \<bar>delta_y\<bar> * (135 / 100) \<or> (\<not> swipe_deliberate g \<and> \<not> swipe_fling g) then None
      else if \<not> sw_index_open g \<and> delta_x > 0 then Some OpenIndex
      else if sw_index_open g \<and> delta_x < 0 then Some CloseIndex
      else None)"

section \<open>Composer\<close>

record composer_size =
  cs_height :: rat
  cs_overflowing :: bool

definition resolve_composer_size :: "rat \<Rightarrow> rat \<Rightarrow> rat \<Rightarrow> rat \<Rightarrow> composer_size" where
  "resolve_composer_size scroll_height minimum maximum border =
     (let natural = max 0 scroll_height + max 0 border;
          lower = max 0 minimum;
          upper = max lower maximum
      in \<lparr>cs_height = min upper (max lower natural), cs_overflowing = natural > upper + 1 / 2\<rparr>)"

section \<open>Image viewer\<close>

record viewer_size =
  vs_width :: rat
  vs_height :: rat

definition contain_image_size :: "viewer_size \<Rightarrow> viewer_size \<Rightarrow> viewer_size" where
  "contain_image_size img viewport =
     (if vs_width img \<le> 0 \<or> vs_height img \<le> 0 \<or> vs_width viewport \<le> 0 \<or> vs_height viewport \<le> 0
      then \<lparr>vs_width = 0, vs_height = 0\<rparr>
      else
        let scale = min 1 (min (vs_width viewport / vs_width img) (vs_height viewport / vs_height img))
        in \<lparr>vs_width = vs_width img * scale, vs_height = vs_height img * scale\<rparr>)"

definition clamp_viewer_zoom :: "rat \<Rightarrow> rat" where
  "clamp_viewer_zoom zoom = min 4 (max 1 zoom)"

definition step_viewer_zoom :: "rat \<Rightarrow> rat \<Rightarrow> rat" where
  "step_viewer_zoom zoom direction = clamp_viewer_zoom (zoom + 1 / 4 * direction)"

text \<open>A distance is \<open>None\<close> when it is not finite.\<close>

definition pinch_viewer_zoom :: "rat \<Rightarrow> rat option \<Rightarrow> rat option \<Rightarrow> rat" where
  "pinch_viewer_zoom start_zoom start_distance current_distance =
     (case (start_distance, current_distance) of
        (Some s, Some c) \<Rightarrow> if s \<le> 0 then clamp_viewer_zoom start_zoom else clamp_viewer_zoom (start_zoom * (c / s))
      | _ \<Rightarrow> clamp_viewer_zoom start_zoom)"

definition preserve_scroll_center :: "rat \<Rightarrow> rat \<Rightarrow> rat \<Rightarrow> rat \<Rightarrow> rat" where
  "preserve_scroll_center offset viewport previous nxt =
     (if viewport \<le> 0 \<or> previous \<le> 0 \<or> nxt \<le> viewport then 0
      else
        let center = (if previous \<le> viewport then 1 / 2 else (offset + viewport / 2) / previous);
            next_offset = center * nxt - viewport / 2
        in min (nxt - viewport) (max 0 next_offset))"

section \<open>Properties\<close>

lemma nat_digits_two:
  assumes "1 \<le> n" and "n < 90"
  shows "\<exists>a b. pad_start2 (nat_digits n) = [a, b] \<and> is_digit a \<and> is_digit b"
proof -
  have d: "is_digit (char_of (48 + k))" if "k < 10" for k :: nat
    using that by (simp add: is_digit_def code_of_def)
  show ?thesis
  proof (cases "n < 10")
    case True
    then show ?thesis using d [of n] by (subst nat_digits.simps) (simp add: pad_start2_def is_digit_def code_of_def)
  next
    case False
    have "n div 10 < 10" using assms by simp
    then show ?thesis
      using False d [of "n div 10"] d [of "n mod 10"]
      by (subst nat_digits.simps, subst nat_digits.simps) (simp add: pad_start2_def)
  qed
qed

text \<open>Every room id gets a guide code of two digits, a dash and one of the sectors A to F.\<close>

theorem guide_code_shape:
  "\<exists>a b s. guide_entry_code room_id = [a, b, CHR ''-'', s] \<and> is_digit a \<and> is_digit b \<and>
     code_of (CHR ''A'') \<le> code_of s \<and> code_of s \<le> code_of (CHR ''F'')"
proof -
  define n where "n = unat (guide_hash room_id)"
  have "n mod 89 < 89" by simp
  then have "1 \<le> n mod 89 + 1" "n mod 89 + 1 < 90" by simp_all
  from nat_digits_two [OF this] obtain a b
    where ab: "pad_start2 (nat_digits (n mod 89 + 1)) = [a, b]" "is_digit a" "is_digit b" by blast
  have "(n div 89) mod 6 < 6" by simp
  then have "code_of (char_of (65 + (n div 89) mod 6)) = 65 + (n div 89) mod 6" "(n div 89) mod 6 \<le> 5"
    by (simp_all add: code_of_def)
  moreover have "code_of (CHR ''A'') = 65" "code_of (CHR ''F'') = 70" by (simp_all add: code_of_def)
  ultimately show ?thesis
    using ab by (auto simp: guide_entry_code_def Let_def n_def [symmetric])
qed

text \<open>A contained image fits the viewport, is never enlarged, and keeps its aspect ratio.
\<close>

theorem contained_image_fits:
  "(let c = contain_image_size img viewport in
      0 \<le> vs_width c \<and> 0 \<le> vs_height c \<and>
      vs_width c * vs_height img = vs_height c * vs_width img \<and>
      (0 \<le> vs_width viewport \<and> 0 \<le> vs_height viewport \<longrightarrow>
         vs_width c \<le> vs_width viewport \<and> vs_height c \<le> vs_height viewport) \<and>
      (0 \<le> vs_width img \<and> 0 \<le> vs_height img \<longrightarrow>
         vs_width c \<le> vs_width img \<and> vs_height c \<le> vs_height img))"
proof (cases "vs_width img \<le> 0 \<or> vs_height img \<le> 0 \<or> vs_width viewport \<le> 0 \<or> vs_height viewport \<le> 0")
  case True
  then show ?thesis by (auto simp: contain_image_size_def)
next
  case False
  then have pos: "0 < vs_width img" "0 < vs_height img" "0 < vs_width viewport" "0 < vs_height viewport" by auto
  define s where "s = min 1 (min (vs_width viewport / vs_width img) (vs_height viewport / vs_height img))"
  have s: "0 < s" "s \<le> 1" "s \<le> vs_width viewport / vs_width img" "s \<le> vs_height viewport / vs_height img"
    using pos unfolding s_def by (simp, simp, meson min.cobounded1 min.cobounded2 order_trans,
        meson min.cobounded2 order_trans)
  then have "vs_width img * s \<le> vs_width viewport" "vs_height img * s \<le> vs_height viewport"
    "vs_width img * s \<le> vs_width img" "vs_height img * s \<le> vs_height img"
    using pos by (simp_all add: field_simps mult_left_le)
  then show ?thesis
    using False pos s by (simp add: contain_image_size_def Let_def s_def [symmetric] mult.commute mult.left_commute)
qed

theorem contained_image_fits_witness:
  "(let c = contain_image_size \<lparr>vs_width = 800, vs_height = 600\<rparr> \<lparr>vs_width = 400, vs_height = 400\<rparr>
    in c = \<lparr>vs_width = 400, vs_height = 300\<rparr> \<and>
       vs_width c \<le> 400 \<and> vs_height c \<le> 400 \<and> vs_width c \<le> 800 \<and> vs_height c \<le> 600)"
  using contained_image_fits [of "\<lparr>vs_width = 800, vs_height = 600\<rparr>" "\<lparr>vs_width = 400, vs_height = 400\<rparr>"]
  by (simp add: contain_image_size_def Let_def)

text \<open>Whatever the gesture, the zoom stays between 1 and 4, and the scroll offset computed for a
  new zoom lies within the content; when the content fills the viewport before and after and no
  bound intervenes, the same point stays in the centre.
\<close>

theorem viewer_bounds:
  "1 \<le> clamp_viewer_zoom z \<and> clamp_viewer_zoom z \<le> 4 \<and>
   1 \<le> step_viewer_zoom z d \<and> step_viewer_zoom z d \<le> 4 \<and>
   1 \<le> pinch_viewer_zoom z s c \<and> pinch_viewer_zoom z s c \<le> 4 \<and>
   0 \<le> preserve_scroll_center offset viewport previous nxt \<and>
   (preserve_scroll_center offset viewport previous nxt = 0 \<or>
    preserve_scroll_center offset viewport previous nxt = nxt - viewport \<or>
    (previous \<le> viewport \<and> preserve_scroll_center offset viewport previous nxt + viewport / 2 = nxt / 2) \<or>
    (preserve_scroll_center offset viewport previous nxt + viewport / 2) / nxt = (offset + viewport / 2) / previous)"
proof -
  have clamp: "1 \<le> clamp_viewer_zoom x \<and> clamp_viewer_zoom x \<le> 4" for x by (simp add: clamp_viewer_zoom_def)
  let ?p = "preserve_scroll_center offset viewport previous nxt"
  have "0 \<le> ?p \<and> (?p = 0 \<or> ?p = nxt - viewport \<or> (previous \<le> viewport \<and> ?p + viewport / 2 = nxt / 2) \<or>
      (?p + viewport / 2) / nxt = (offset + viewport / 2) / previous)"
  proof (cases "viewport \<le> 0 \<or> previous \<le> 0 \<or> nxt \<le> viewport")
    case True
    then show ?thesis by (simp add: preserve_scroll_center_def)
  next
    case False
    then have pos: "0 < viewport" "0 < previous" "viewport < nxt" by auto
    define center where "center = (if previous \<le> viewport then 1 / 2 else (offset + viewport / 2) / previous)"
    have p: "?p = min (nxt - viewport) (max 0 (center * nxt - viewport / 2))"
      using False by (simp add: preserve_scroll_center_def center_def Let_def)
    have "0 \<le> ?p" using pos by (simp add: p)
    moreover have "?p = 0 \<or> ?p = nxt - viewport \<or> ?p = center * nxt - viewport / 2"
      unfolding p min_def max_def by auto
    moreover have "(?p + viewport / 2) / nxt = center" if "?p = center * nxt - viewport / 2"
      using that pos by simp
    ultimately show ?thesis by (auto simp: center_def split: if_splits)
  qed
  then show ?thesis
    using clamp by (auto simp: step_viewer_zoom_def pinch_viewer_zoom_def split: option.split)
qed

text \<open>The composer's height stays between its bounds, and it scrolls only when it is full.
\<close>

theorem composer_size_bounds:
  "(let r = resolve_composer_size scroll_height minimum maximum border in
      max 0 minimum \<le> cs_height r \<and> cs_height r \<le> max (max 0 minimum) maximum \<and>
      (cs_overflowing r \<longrightarrow> cs_height r = max (max 0 minimum) maximum))"
  by (auto simp: resolve_composer_size_def Let_def min_def max_def)

text \<open>A swipe opens the index only when it is closed and moves right, closes it only when it is open
  and moves left, and acts only when it is mostly horizontal and at least 34 pixels long.
\<close>

theorem swipe_meaning:
  "resolve_mobile_swipe g = Some a \<longleftrightarrow>
     (swipe_deliberate g \<or> swipe_fling g) \<and>
     \<bar>sw_end_y g - sw_start_y g\<bar> * (135 / 100) \<le> \<bar>sw_end_x g - sw_start_x g\<bar> \<and>
     34 \<le> \<bar>sw_end_x g - sw_start_x g\<bar> \<and>
     (case a of OpenIndex \<Rightarrow> \<not> sw_index_open g \<and> sw_start_x g < sw_end_x g
      | CloseIndex \<Rightarrow> sw_index_open g \<and> sw_end_x g < sw_start_x g)"
proof -
  have "34 \<le> \<bar>sw_end_x g - sw_start_x g\<bar>" if "swipe_deliberate g \<or> swipe_fling g"
    using that by (auto simp: swipe_deliberate_def swipe_fling_def min_def max_def split: if_splits)
  then show ?thesis
    by (cases a) (auto simp: resolve_mobile_swipe_def Let_def not_less)
qed

end
