(* ===== verification/Media_Gate.thy ===== *)
theory Media_Gate
  imports JsValue
begin

text \<open>
  lib/matrix/media.ts: \<open>MediaOperationGate\<close>, which serialises memory-heavy work. A node is known by
  the number of its \<open>acquire\<close> call; its promise is settled at most once. The operations are what
  can happen to a gate: a request, the release of a lease, the external signal of a node firing, and
  closing. \<open>gate_reachable\<close> is the state machine they form.
\<close>

definition max_operation_queue :: nat where
  "max_operation_queue = 3"

definition max_operation_capacity :: nat where
  "max_operation_capacity = 4"

definition max_queued_media_bytes :: nat where
  "max_queued_media_bytes = 256 * 1024 * 1024"

section \<open>State\<close>

text \<open>
  The errors of the module: \<open>MediaLimitError\<close>, \<open>MediaBusyError\<close>, \<open>MediaTimeoutError\<close>, the
  \<^verbatim>\<open>AbortError\<close> and the reason a signal carries, and any exception of the platform.
\<close>

datatype media_error =
    LimitError string
  | BusyError string
  | TimeoutError
  | AbortError
  | SignalReason string
  | PlatformException

datatype outcome = Leased | Refused media_error

text \<open>\<open>node_aborted\<close>: the signal of its controller has fired; \<open>node_listening\<close>: \<open>cleanup\<close> has not run.\<close>

record gate_node =
  node_reservation :: nat
  node_queued :: bool
  node_released :: bool
  node_listening :: bool
  node_aborted :: bool
  node_outcome :: "outcome option"

record gate =
  gate_active :: "nat option"
  gate_queue :: "nat list"
  gate_queued_bytes :: nat
  gate_closed :: bool
  gate_nodes :: "gate_node list"
  gate_granted :: "nat list"

definition new_gate :: gate where
  "new_gate = \<lparr>gate_active = None, gate_queue = [], gate_queued_bytes = 0, gate_closed = False,
     gate_nodes = [], gate_granted = []\<rparr>"

definition upd_node :: "nat \<Rightarrow> (gate_node \<Rightarrow> gate_node) \<Rightarrow> gate \<Rightarrow> gate" where
  "upd_node i f g = g\<lparr>gate_nodes := (gate_nodes g)[i := f (gate_nodes g ! i)]\<rparr>"

text \<open>Settling a promise that is settled already has no effect.\<close>

definition settle :: "outcome \<Rightarrow> gate_node \<Rightarrow> gate_node" where
  "settle r n = (if node_outcome n = None then n\<lparr>node_outcome := Some r\<rparr> else n)"

definition cleanup_node :: "gate_node \<Rightarrow> gate_node" where
  "cleanup_node n = n\<lparr>node_listening := False\<rparr>"

section \<open>Operations\<close>

text \<open>\<open>node.start\<close>\<close>

definition start_node :: "nat \<Rightarrow> gate \<Rightarrow> gate" where
  "start_node i g =
     (if gate_closed g \<or> node_released (gate_nodes g ! i) then upd_node i cleanup_node g
      else (upd_node i (\<lambda>n. settle Leased (n\<lparr>node_queued := False\<rparr>)) g)
             \<lparr>gate_active := Some i, gate_granted := gate_granted g @ [i]\<rparr>)"

definition pump :: "gate \<Rightarrow> gate" where
  "pump g =
     (if gate_active g \<noteq> None \<or> gate_closed g then g
      else case gate_queue g of
        [] \<Rightarrow> g
      | i # q \<Rightarrow>
          start_node i (g\<lparr>gate_queue := q,
            gate_queued_bytes := gate_queued_bytes g - node_reservation (gate_nodes g ! i)\<rparr>))"

record signal =
  sig_aborted :: bool
  sig_reason :: "string option"

definition reason_or :: "string option \<Rightarrow> media_error \<Rightarrow> media_error" where
  "reason_or r e = (case r of None \<Rightarrow> e | Some s \<Rightarrow> SignalReason s)"

definition is_safe_non_negative :: "jsnum \<Rightarrow> bool" where
  "is_safe_non_negative n = (case n of Fin q \<Rightarrow> is_safe_integer n \<and> 0 \<le> q | _ \<Rightarrow> False)"

definition num_nat :: "jsnum \<Rightarrow> nat" where
  "num_nat n = (case n of Fin q \<Rightarrow> nat \<lfloor>q\<rfloor> | _ \<Rightarrow> 0)"

definition acquire :: "jsnum \<Rightarrow> signal option \<Rightarrow> gate \<Rightarrow> gate \<times> (media_error + nat)" where
  "acquire reservation external g =
     (if \<not> is_safe_non_negative reservation then (g, Inl (LimitError ''The media reservation is invalid.''))
      else if gate_closed g \<or> (case external of None \<Rightarrow> False | Some s \<Rightarrow> sig_aborted s)
      then (g, Inl (reason_or (case external of None \<Rightarrow> None | Some s \<Rightarrow> sig_reason s)
                      (BusyError ''Media preparation is closed.'')))
      else if length (gate_queue g) + (if gate_active g = None then 0 else 1) \<ge> max_operation_capacity
              \<or> length (gate_queue g) \<ge> max_operation_queue
              \<or> gate_queued_bytes g + num_nat reservation > max_queued_media_bytes
      then (g, Inl (BusyError ''Media preparation is busy. Try again shortly.''))
      else
        let i = length (gate_nodes g);
            node = \<lparr>node_reservation = num_nat reservation, node_queued = True, node_released = False,
                    node_listening = (external \<noteq> None), node_aborted = False, node_outcome = None\<rparr>
        in (pump (g\<lparr>gate_nodes := gate_nodes g @ [node], gate_queue := gate_queue g @ [i],
                    gate_queued_bytes := gate_queued_bytes g + num_nat reservation\<rparr>), Inr i))"

text \<open>\<open>lease.release\<close>\<close>

definition release :: "nat \<Rightarrow> gate \<Rightarrow> gate" where
  "release i g =
     (if node_released (gate_nodes g ! i) then g
      else let g' = upd_node i (\<lambda>n. cleanup_node (n\<lparr>node_released := True\<rparr>)) g
           in if gate_active g' = Some i then pump (g'\<lparr>gate_active := None\<rparr>) else g')"

definition abort_node :: "nat \<Rightarrow> string option \<Rightarrow> gate \<Rightarrow> gate" where
  "abort_node i reason g =
     (if node_released (gate_nodes g ! i) then g
      else if node_queued (gate_nodes g ! i) then
        (let g' = (if i \<in> set (gate_queue g)
                   then g\<lparr>gate_queue := remove1 i (gate_queue g),
                          gate_queued_bytes := gate_queued_bytes g - node_reservation (gate_nodes g ! i)\<rparr>
                   else g)
         in upd_node i (\<lambda>n. settle (Refused (reason_or reason AbortError))
              (cleanup_node (n\<lparr>node_released := True\<rparr>))) g')
      else upd_node i (\<lambda>n. n\<lparr>node_aborted := True\<rparr>) g)"

definition refuse_queued :: "media_error \<Rightarrow> nat \<Rightarrow> gate \<Rightarrow> gate" where
  "refuse_queued e i = upd_node i (\<lambda>n. settle (Refused e) (cleanup_node (n\<lparr>node_released := True\<rparr>)))"

definition close :: "media_error \<Rightarrow> gate \<Rightarrow> gate" where
  "close reason g =
     (if gate_closed g then g
      else
        let g' = fold (refuse_queued reason) (gate_queue g)
                   (g\<lparr>gate_closed := True, gate_queue := [], gate_queued_bytes := 0\<rparr>)
        in case gate_active g' of
             None \<Rightarrow> g'
           | Some i \<Rightarrow> upd_node i (\<lambda>n. n\<lparr>node_aborted := True\<rparr>) g')"

section \<open>The state machine\<close>

text \<open>
  A lease exists once the promise is resolved with it; a signal is heard while its listener is
  registered.
\<close>

inductive gate_step :: "gate \<Rightarrow> gate \<Rightarrow> bool" where
  acquire_step: "gate_step g (fst (acquire reservation external g))"
| release_step: "i < length (gate_nodes g) \<Longrightarrow> node_outcome (gate_nodes g ! i) = Some Leased \<Longrightarrow>
    gate_step g (release i g)"
| abort_step: "i < length (gate_nodes g) \<Longrightarrow> node_listening (gate_nodes g ! i) \<Longrightarrow>
    gate_step g (abort_node i reason g)"
| close_step: "gate_step g (close reason g)"

inductive gate_reachable :: "gate \<Rightarrow> bool" where
  start: "gate_reachable new_gate"
| step: "gate_reachable g \<Longrightarrow> gate_step g h \<Longrightarrow> gate_reachable h"

inductive_cases gate_stepE: "gate_step g h"

section \<open>The invariant\<close>

text \<open>
  Where a node is: waiting in the queue with an open promise, active with a lease, or released with a
  settled promise. The nodes leave the queue in the order they came.
\<close>

definition waiting :: "gate_node \<Rightarrow> bool" where
  "waiting n \<longleftrightarrow> node_queued n \<and> \<not> node_released n \<and> node_outcome n = None"

definition running :: "gate_node \<Rightarrow> bool" where
  "running n \<longleftrightarrow> \<not> node_queued n \<and> \<not> node_released n \<and> node_outcome n = Some Leased"

definition finished :: "gate_node \<Rightarrow> bool" where
  "finished n \<longleftrightarrow> node_released n \<and> \<not> node_listening n \<and> node_outcome n \<noteq> None \<and>
     (node_queued n \<longrightarrow> node_outcome n \<noteq> Some Leased)"

definition placed :: "gate \<Rightarrow> nat \<Rightarrow> bool" where
  "placed g i \<longleftrightarrow>
     (if i \<in> set (gate_queue g) then waiting (gate_nodes g ! i)
      else if gate_active g = Some i then running (gate_nodes g ! i)
      else finished (gate_nodes g ! i))"

definition queue_bytes :: "gate \<Rightarrow> nat" where
  "queue_bytes g = sum_list (map (\<lambda>i. node_reservation (gate_nodes g ! i)) (gate_queue g))"

text \<open>The invariant between the queue operations, before the gate is pumped.\<close>

definition gate_core :: "gate \<Rightarrow> bool" where
  "gate_core g \<longleftrightarrow>
     (\<forall>i < length (gate_nodes g). placed g i) \<and>
     (\<forall>i \<in> set (gate_queue g). i < length (gate_nodes g) \<and> gate_active g \<noteq> Some i) \<and>
     (\<forall>i. gate_active g = Some i \<longrightarrow> i < length (gate_nodes g)) \<and>
     sorted_wrt (<) (gate_granted g @ gate_queue g) \<and>
     (\<forall>i \<in> set (gate_granted g). i < length (gate_nodes g)) \<and>
     gate_queued_bytes g = queue_bytes g \<and>
     (gate_closed g \<longrightarrow> gate_queue g = [])"

definition gate_inv :: "gate \<Rightarrow> bool" where
  "gate_inv g \<longleftrightarrow> gate_core g \<and>
     gate_queued_bytes g \<le> max_queued_media_bytes \<and> length (gate_queue g) \<le> max_operation_queue \<and>
     (gate_active g = None \<longrightarrow> gate_queue g = [])"

section \<open>Updates\<close>

lemma upd_node_simps [simp]:
  "gate_active (upd_node i f g) = gate_active g" "gate_queue (upd_node i f g) = gate_queue g"
  "gate_queued_bytes (upd_node i f g) = gate_queued_bytes g" "gate_closed (upd_node i f g) = gate_closed g"
  "gate_granted (upd_node i f g) = gate_granted g" "length (gate_nodes (upd_node i f g)) = length (gate_nodes g)"
  by (simp_all add: upd_node_def)

lemma upd_node_nth:
  "j < length (gate_nodes g) \<Longrightarrow> gate_nodes (upd_node i f g) ! j = (if i = j then f (gate_nodes g ! j) else gate_nodes g ! j)"
  by (simp add: upd_node_def)

lemma settle_simps [simp]:
  "node_reservation (settle r n) = node_reservation n" "node_queued (settle r n) = node_queued n"
  "node_released (settle r n) = node_released n" "node_listening (settle r n) = node_listening n"
  "node_outcome (settle r n) = (case node_outcome n of None \<Rightarrow> Some r | Some s \<Rightarrow> Some s)"
  by (auto simp: settle_def split: option.split)

lemma cleanup_simps [simp]:
  "node_reservation (cleanup_node n) = node_reservation n" "node_queued (cleanup_node n) = node_queued n"
  "node_released (cleanup_node n) = node_released n" "\<not> node_listening (cleanup_node n)"
  "node_outcome (cleanup_node n) = node_outcome n"
  by (simp_all add: cleanup_node_def)

lemma queue_bytes_upd:
  assumes "\<And>n. node_reservation (f n) = node_reservation n"
    and "\<forall>j \<in> set (gate_queue g). j < length (gate_nodes g)"
  shows "queue_bytes (upd_node i f g) = queue_bytes g"
  unfolding queue_bytes_def
  by (rule arg_cong [where f = sum_list], rule map_cong) (use assms in \<open>auto simp: upd_node_nth\<close>)

lemma core_distinct: "gate_core g \<Longrightarrow> distinct (gate_queue g)"
  unfolding gate_core_def sorted_wrt_append by (auto simp: strict_sorted_iff)

section \<open>Pumping\<close>

lemma pump_core:
  assumes core: "gate_core g" and bounds: "gate_queued_bytes g \<le> max_queued_media_bytes"
    and len: "length (gate_queue g) \<le> max_operation_queue + (if gate_active g = None then 1 else 0)"
  shows "gate_inv (pump g)"
proof (cases "gate_active g = None \<and> \<not> gate_closed g \<and> gate_queue g \<noteq> []")
  case False
  then have "gate_inv g"
    using assms by (auto simp: gate_inv_def gate_core_def split: if_splits)
  moreover have "pump g = g" using False by (auto simp: pump_def split: list.split)
  ultimately show ?thesis by simp
next
  case True
  then obtain i q where q: "gate_queue g = i # q" by (cases "gate_queue g") auto
  have i: "i < length (gate_nodes g)" "i \<notin> set q" "waiting (gate_nodes g ! i)"
    using core q core_distinct [OF core] by (auto simp: gate_core_def placed_def)
  let ?b = "gate_queued_bytes g - node_reservation (gate_nodes g ! i)"
  let ?g = "g\<lparr>gate_queue := q, gate_queued_bytes := ?b\<rparr>"
  let ?h = "(upd_node i (\<lambda>n. settle Leased (n\<lparr>node_queued := False\<rparr>)) ?g)\<lparr>gate_active := Some i, gate_granted := gate_granted g @ [i]\<rparr>"
  have h: "pump g = ?h"
    using True q i(3) by (simp add: pump_def start_node_def waiting_def)
  have nodes: "gate_nodes ?h ! j = (if i = j then settle Leased ((gate_nodes g ! j)\<lparr>node_queued := False\<rparr>) else gate_nodes g ! j)"
    if "j < length (gate_nodes g)" for j
    using that by (simp add: upd_node_def)
  have "placed ?h j" if j: "j < length (gate_nodes g)" for j
  proof -
    have "placed g j" using core j by (simp add: gate_core_def)
    then show ?thesis
      using True q i j unfolding placed_def nodes [OF j]
      by (auto simp: waiting_def running_def)
  qed
  moreover have "queue_bytes ?h = ?b"
  proof -
    have "queue_bytes ?h = sum_list (map (\<lambda>j. node_reservation (gate_nodes g ! j)) q)"
      unfolding queue_bytes_def
      by (rule arg_cong [where f = sum_list], rule map_cong)
        (use core q i in \<open>auto simp: upd_node_nth gate_core_def\<close>)
    moreover have "gate_queued_bytes g = node_reservation (gate_nodes g ! i) + sum_list (map (\<lambda>j. node_reservation (gate_nodes g ! j)) q)"
      using core q by (simp add: gate_core_def queue_bytes_def)
    ultimately show ?thesis by simp
  qed
  moreover have "length (gate_nodes ?h) = length (gate_nodes g)" by (simp add: upd_node_def)
  ultimately have "gate_core ?h"
    using core q i True by (auto simp: gate_core_def)
  then show ?thesis
    using bounds len q True unfolding h by (auto simp: gate_inv_def)
qed

section \<open>Every operation keeps the invariant\<close>

lemma placed_append:
  assumes "gate_core g" and w: "waiting n" and op: "\<not> gate_closed g"
  shows "gate_core (g\<lparr>gate_nodes := gate_nodes g @ [n], gate_queue := gate_queue g @ [length (gate_nodes g)],
           gate_queued_bytes := gate_queued_bytes g + node_reservation n\<rparr>)"
proof -
  let ?k = "length (gate_nodes g)"
  let ?h = "g\<lparr>gate_nodes := gate_nodes g @ [n], gate_queue := gate_queue g @ [?k],
           gate_queued_bytes := gate_queued_bytes g + node_reservation n\<rparr>"
  have new: "?k \<notin> set (gate_queue g)" "gate_active g \<noteq> Some ?k" using assms by (auto simp: gate_core_def)
  have "placed ?h i" if "i < Suc ?k" for i
  proof (cases "i = ?k")
    case True
    then show ?thesis using w by (simp add: placed_def)
  next
    case False
    then have "i < ?k" using that by simp
    then have "placed g i" using assms by (simp add: gate_core_def)
    then show ?thesis using False \<open>i < ?k\<close> by (simp add: placed_def nth_append)
  qed
  moreover have "queue_bytes ?h = queue_bytes g + node_reservation n"
  proof -
    have m: "map (\<lambda>i. node_reservation ((gate_nodes g @ [n]) ! i)) (gate_queue g) =
        map (\<lambda>i. node_reservation (gate_nodes g ! i)) (gate_queue g)"
      using assms by (auto simp: gate_core_def nth_append)
    show ?thesis by (simp add: queue_bytes_def m)
  qed
  moreover have "sorted_wrt (<) (gate_granted g @ gate_queue g @ [?k])"
    using assms by (auto simp: gate_core_def sorted_wrt_append)
  ultimately show ?thesis
    using assms new by (auto simp: gate_core_def less_Suc_eq)
qed

lemma acquire_inv:
  assumes "gate_inv g"
  shows "gate_inv (fst (acquire r external g))"
proof (cases "snd (acquire r external g)")
  case (Inl e)
  then show ?thesis using assms by (auto simp: acquire_def Let_def split: if_splits)
next
  case (Inr k)
  let ?n = "\<lparr>node_reservation = num_nat r, node_queued = True, node_released = False,
      node_listening = (external \<noteq> None), node_aborted = False, node_outcome = None\<rparr>"
  let ?h = "g\<lparr>gate_nodes := gate_nodes g @ [?n], gate_queue := gate_queue g @ [length (gate_nodes g)],
      gate_queued_bytes := gate_queued_bytes g + num_nat r\<rparr>"
  have fst: "fst (acquire r external g) = pump ?h" and op: "\<not> gate_closed g"
    and bound: "gate_queued_bytes g + num_nat r \<le> max_queued_media_bytes"
    and room: "length (gate_queue g) < max_operation_queue"
    using Inr by (auto simp: acquire_def Let_def not_le split: if_splits)
  have "gate_core ?h"
    using placed_append [of g ?n] assms op by (simp add: gate_inv_def waiting_def)
  then show ?thesis
    unfolding fst using bound room by (intro pump_core) auto
qed

lemma release_inv:
  assumes inv: "gate_inv g" and i: "i < length (gate_nodes g)" and leased: "node_outcome (gate_nodes g ! i) = Some Leased"
  shows "gate_inv (release i g)"
proof (cases "node_released (gate_nodes g ! i)")
  case True
  then show ?thesis using inv by (simp add: release_def)
next
  case False
  have p: "placed g i" using inv i by (simp add: gate_inv_def gate_core_def)
  then have act: "gate_active g = Some i" "running (gate_nodes g ! i)" "i \<notin> set (gate_queue g)"
    using False leased by (auto simp: placed_def waiting_def finished_def split: if_splits)
  let ?g = "(upd_node i (\<lambda>n. cleanup_node (n\<lparr>node_released := True\<rparr>)) g)\<lparr>gate_active := None\<rparr>"
  have rel: "release i g = pump ?g" using False act(1) by (simp add: release_def Let_def)
  have qb: "queue_bytes ?g = queue_bytes g"
  proof -
    have "queue_bytes ?g = queue_bytes (upd_node i (\<lambda>n. cleanup_node (n\<lparr>node_released := True\<rparr>)) g)"
      by (simp add: queue_bytes_def)
    also have "\<dots> = queue_bytes g" by (rule queue_bytes_upd) (use inv in \<open>auto simp: gate_inv_def gate_core_def\<close>)
    finally show ?thesis .
  qed
  have "placed ?g j" if j: "j < length (gate_nodes g)" for j
  proof -
    have "placed g j" using inv j by (simp add: gate_inv_def gate_core_def)
    then show ?thesis
      using act j leased by (auto simp: placed_def upd_node_nth running_def finished_def)
  qed
  then have "gate_core ?g"
    using inv qb by (auto simp: gate_inv_def gate_core_def)
  then show ?thesis
    unfolding rel using inv by (intro pump_core) (auto simp: gate_inv_def)
qed

lemma sum_list_remove1:
  "i \<in> set xs \<Longrightarrow> sum_list (map f xs) = f i + (sum_list (map f (remove1 i xs)) :: nat)"
  by (induction xs) auto

lemma abort_inv:
  assumes inv: "gate_inv g" and i: "i < length (gate_nodes g)"
  shows "gate_inv (abort_node i reason g)"
proof -
  have core: "gate_core g" and p: "placed g i" using inv i by (auto simp: gate_inv_def gate_core_def)
  consider (rel) "node_released (gate_nodes g ! i)"
    | (queued) "\<not> node_released (gate_nodes g ! i)" "node_queued (gate_nodes g ! i)"
    | (active) "\<not> node_released (gate_nodes g ! i)" "\<not> node_queued (gate_nodes g ! i)" by blast
  then show ?thesis
  proof cases
    case rel
    then show ?thesis using inv by (simp add: abort_node_def)
  next
    case active
    let ?h = "upd_node i (\<lambda>n. n\<lparr>node_aborted := True\<rparr>) g"
    have "placed ?h j" if "j < length (gate_nodes g)" for j
      using core that by (auto simp: gate_core_def placed_def upd_node_nth waiting_def running_def finished_def)
    moreover have "queue_bytes ?h = queue_bytes g"
      by (rule queue_bytes_upd) (use core in \<open>auto simp: gate_core_def\<close>)
    ultimately have "gate_inv ?h" using inv by (auto simp: gate_inv_def gate_core_def)
    then show ?thesis using active by (simp add: abort_node_def)
  next
    case queued
    have inq: "i \<in> set (gate_queue g)" and w: "waiting (gate_nodes g ! i)"
      using p queued by (auto simp: placed_def running_def finished_def split: if_splits)
    let ?b = "gate_queued_bytes g - node_reservation (gate_nodes g ! i)"
    let ?g = "g\<lparr>gate_queue := remove1 i (gate_queue g), gate_queued_bytes := ?b\<rparr>"
    let ?f = "\<lambda>n. settle (Refused (reason_or reason AbortError)) (cleanup_node (n\<lparr>node_released := True\<rparr>))"
    have h: "abort_node i reason g = upd_node i ?f ?g" using queued inq by (simp add: abort_node_def)
    have d: "distinct (gate_queue g)" by (rule core_distinct [OF core])
    then have f: "remove1 i (gate_queue g) = filter ((\<noteq>) i) (gate_queue g)"
      by (simp add: distinct_remove1_removeAll removeAll_filter_not_eq)
    have "placed (upd_node i ?f ?g) j" if j: "j < length (gate_nodes g)" for j
    proof -
      have "placed g j" using core j by (simp add: gate_core_def)
      then show ?thesis using w j d inq core
        by (auto simp: placed_def upd_node_nth waiting_def running_def finished_def gate_core_def)
    qed
    moreover have "queue_bytes (upd_node i ?f ?g) = ?b"
    proof -
      have "queue_bytes (upd_node i ?f ?g) = queue_bytes ?g"
        by (rule queue_bytes_upd) (use core in \<open>auto simp: gate_core_def f\<close>)
      also have "\<dots> = ?b"
        using sum_list_remove1 [OF inq, of "\<lambda>i. node_reservation (gate_nodes g ! i)"] core
        by (simp add: queue_bytes_def gate_core_def)
      finally show ?thesis .
    qed
    moreover have "sorted_wrt (<) (gate_granted g @ remove1 i (gate_queue g))"
      using core unfolding f by (auto simp: gate_core_def sorted_wrt_append intro: sorted_wrt_filter)
    ultimately have "gate_core (upd_node i ?f ?g)"
      using core by (auto simp: gate_core_def f)
    then show ?thesis
      using inv unfolding h gate_inv_def by (auto simp: length_remove1)
  qed
qed

lemma fold_refuse:
  assumes "distinct q" and "\<forall>i \<in> set q. i < length (gate_nodes g)"
  shows "gate_active (fold (refuse_queued e) q g) = gate_active g \<and>
    gate_queue (fold (refuse_queued e) q g) = gate_queue g \<and>
    gate_queued_bytes (fold (refuse_queued e) q g) = gate_queued_bytes g \<and>
    gate_closed (fold (refuse_queued e) q g) = gate_closed g \<and>
    gate_granted (fold (refuse_queued e) q g) = gate_granted g \<and>
    length (gate_nodes (fold (refuse_queued e) q g)) = length (gate_nodes g) \<and>
    (\<forall>j < length (gate_nodes g). gate_nodes (fold (refuse_queued e) q g) ! j =
       (if j \<in> set q then settle (Refused e) (cleanup_node ((gate_nodes g ! j)\<lparr>node_released := True\<rparr>))
        else gate_nodes g ! j))"
  using assms
proof (induction q arbitrary: g)
  case (Cons x q)
  have "\<forall>i \<in> set q. i < length (gate_nodes (refuse_queued e x g))"
    using Cons.prems by (simp add: refuse_queued_def)
  from Cons.IH [OF _ this] show ?case
    using Cons.prems by (auto simp: refuse_queued_def upd_node_nth)
qed simp

lemma close_inv:
  assumes inv: "gate_inv g"
  shows "gate_inv (close e g)"
proof (cases "gate_closed g")
  case True
  then show ?thesis using inv by (simp add: close_def)
next
  case False
  have core: "gate_core g" using inv by (simp add: gate_inv_def)
  let ?g = "g\<lparr>gate_closed := True, gate_queue := [], gate_queued_bytes := 0\<rparr>"
  define h where "h = fold (refuse_queued e) (gate_queue g) ?g"
  have d: "distinct (gate_queue g)" and l: "\<forall>i \<in> set (gate_queue g). i < length (gate_nodes ?g)"
    using core core_distinct by (auto simp: gate_core_def)
  note hf = fold_refuse [OF d l, of e, folded h_def]
  have "placed h j" if j: "j < length (gate_nodes g)" for j
  proof -
    have "placed g j" using core j by (simp add: gate_core_def)
    then show ?thesis using hf j core
      by (auto simp: placed_def gate_core_def waiting_def running_def finished_def)
  qed
  then have hinv: "gate_inv h"
    using hf core by (auto simp: gate_inv_def gate_core_def queue_bytes_def sorted_wrt_append)
  have c: "close e g = (case gate_active h of None \<Rightarrow> h | Some i \<Rightarrow> upd_node i (\<lambda>n. n\<lparr>node_aborted := True\<rparr>) h)"
    using False unfolding close_def Let_def h_def by simp
  show ?thesis
  proof (cases "gate_active h")
    case None
    then show ?thesis using hinv by (simp add: c)
  next
    case (Some i)
    let ?k = "upd_node i (\<lambda>n. n\<lparr>node_aborted := True\<rparr>) h"
    have "placed ?k j" if "j < length (gate_nodes h)" for j
      using hinv that by (auto simp: gate_inv_def gate_core_def placed_def upd_node_nth waiting_def running_def finished_def)
    moreover have "queue_bytes ?k = queue_bytes h"
      by (rule queue_bytes_upd) (use hinv in \<open>auto simp: gate_inv_def gate_core_def\<close>)
    ultimately have "gate_inv ?k" using hinv by (auto simp: gate_inv_def gate_core_def)
    then show ?thesis by (simp add: c Some)
  qed
qed

lemma new_gate_inv: "gate_inv new_gate"
  by (simp add: new_gate_def gate_inv_def gate_core_def queue_bytes_def)

lemma gate_step_inv: "gate_step g h \<Longrightarrow> gate_inv g \<Longrightarrow> gate_inv h"
  by (induction rule: gate_step.induct) (auto intro: acquire_inv release_inv abort_inv close_inv)

lemma gate_reachable_inv: "gate_reachable g \<Longrightarrow> gate_inv g"
  by (induction rule: gate_reachable.induct) (auto intro: new_gate_inv gate_step_inv)

section \<open>Properties\<close>

lemma running_active: "gate_inv g \<Longrightarrow> i < length (gate_nodes g) \<Longrightarrow> running (gate_nodes g ! i) \<Longrightarrow> gate_active g = Some i"
  by (auto simp: gate_inv_def gate_core_def placed_def waiting_def running_def finished_def split: if_splits)

text \<open>C39: In every reachable state at most one operation runs, at most three wait with at most 256 MiB
  reserved between them, the byte counter is exact, and nothing waits while nothing runs.
\<close>

theorem media_gate_bounded:
  "gate_reachable g \<Longrightarrow>
     card {i. i < length (gate_nodes g) \<and> running (gate_nodes g ! i)} \<le> 1 \<and>
     length (gate_queue g) \<le> 3 \<and>
     gate_queued_bytes g = sum_list (map (\<lambda>i. node_reservation (gate_nodes g ! i)) (gate_queue g)) \<and>
     gate_queued_bytes g \<le> 256 * 1024 * 1024 \<and>
     (gate_active g = None \<longrightarrow> gate_queue g = [])"
proof -
  assume "gate_reachable g"
  then have inv: "gate_inv g" by (rule gate_reachable_inv)
  have "{i. i < length (gate_nodes g) \<and> running (gate_nodes g ! i)} \<subseteq> set_option (gate_active g)"
    using running_active [OF inv] by auto
  then have "card {i. i < length (gate_nodes g) \<and> running (gate_nodes g ! i)} \<le> card (set_option (gate_active g))"
    by (intro card_mono) (cases "gate_active g"; simp)
  also have "\<dots> \<le> 1" by (cases "gate_active g") auto
  finally show ?thesis
    using inv by (auto simp: gate_inv_def gate_core_def queue_bytes_def max_operation_queue_def max_queued_media_bytes_def)
qed

text \<open>C40: No request is lost: in every reachable state each request waits in the queue behind a running
  operation, runs with its lease, or is over with its promise settled; and leases are granted in the
  order of the requests.
\<close>

theorem media_gate_serves_in_order:
  "gate_reachable g \<Longrightarrow>
     (\<forall>i < length (gate_nodes g).
        (i \<in> set (gate_queue g) \<and> gate_active g \<noteq> None \<and> node_outcome (gate_nodes g ! i) = None) \<or>
        (gate_active g = Some i \<and> node_outcome (gate_nodes g ! i) = Some Leased) \<or>
        (i \<notin> set (gate_queue g) \<and> node_released (gate_nodes g ! i) \<and> node_outcome (gate_nodes g ! i) \<noteq> None)) \<and>
     sorted_wrt (<) (gate_granted g @ gate_queue g)"
proof -
  assume "gate_reachable g"
  then have inv: "gate_inv g" by (rule gate_reachable_inv)
  have "(i \<in> set (gate_queue g) \<and> gate_active g \<noteq> None \<and> node_outcome (gate_nodes g ! i) = None) \<or>
        (gate_active g = Some i \<and> node_outcome (gate_nodes g ! i) = Some Leased) \<or>
        (i \<notin> set (gate_queue g) \<and> node_released (gate_nodes g ! i) \<and> node_outcome (gate_nodes g ! i) \<noteq> None)"
    if i: "i < length (gate_nodes g)" for i
  proof -
    have "placed g i" using inv i by (simp add: gate_inv_def gate_core_def)
    moreover have "gate_active g \<noteq> None" if "i \<in> set (gate_queue g)" using inv that by (auto simp: gate_inv_def)
    ultimately show ?thesis by (auto simp: placed_def waiting_def running_def finished_def split: if_splits)
  qed
  then show ?thesis using inv by (simp add: gate_inv_def gate_core_def)
qed

lemma pump_active: "gate_active g = Some i \<Longrightarrow> pump g = g"
  by (simp add: pump_def)

lemma step_active:
  "gate_step g h \<Longrightarrow> gate_inv g \<Longrightarrow> gate_active g = Some i \<Longrightarrow> gate_active h = Some i \<or> h = release i g"
proof (induction rule: gate_step.induct)
  case acquire_step
  then show ?case by (auto simp: acquire_def Let_def pump_active)
next
  case (release_step k g)
  then show ?case by (cases "k = i") (auto simp: release_def Let_def)
next
  case abort_step
  then show ?case by (auto simp: abort_node_def Let_def)
next
  case (close_step g reason)
  have d: "distinct (gate_queue g)"
    and l: "\<forall>i \<in> set (gate_queue g). i < length (gate_nodes (g\<lparr>gate_closed := True, gate_queue := [], gate_queued_bytes := 0\<rparr>))"
    using close_step.prems core_distinct by (auto simp: gate_inv_def gate_core_def)
  show ?case using fold_refuse [OF d l, of reason] close_step.prems by (auto simp: close_def Let_def)
qed

text \<open>A running operation keeps the gate until its own lease is released: no request, abort or
  closing ends it early; and its release hands the gate to the oldest waiting request.
\<close>

theorem media_gate_lease_held:
  "gate_reachable g \<Longrightarrow> gate_active g = Some i \<Longrightarrow>
     (\<forall>h. gate_step g h \<longrightarrow> gate_active h = Some i \<or> h = release i g) \<and>
     (\<forall>j q. gate_queue g = j # q \<longrightarrow> gate_active (release i g) = Some j \<and> gate_queue (release i g) = q)"
proof (intro conjI allI impI)
  fix h
  assume reach: "gate_reachable g" and act: "gate_active g = Some i" and st: "gate_step g h"
  show "gate_active h = Some i \<or> h = release i g"
    by (rule step_active [OF st gate_reachable_inv [OF reach] act])
next
  fix j q
  assume reach: "gate_reachable g" and act: "gate_active g = Some i" and q: "gate_queue g = j # q"
  have inv: "gate_inv g" by (rule gate_reachable_inv [OF reach])
  then have i: "i < length (gate_nodes g)" "placed g i" and j: "j < length (gate_nodes g)" "placed g j" "j \<noteq> i"
    and op: "\<not> gate_closed g"
    using act q by (auto simp: gate_inv_def gate_core_def)
  have "i \<notin> set (gate_queue g)" using inv act by (auto simp: gate_inv_def gate_core_def)
  then have r: "running (gate_nodes g ! i)" "waiting (gate_nodes g ! j)"
    using i j act q by (auto simp: placed_def)
  then show "gate_active (release i g) = Some j" "gate_queue (release i g) = q"
    using act q op j by (simp_all add: release_def Let_def running_def waiting_def pump_def start_node_def upd_node_nth)
qed

section \<open>A gate with a running and a waiting operation\<close>

definition busy_gate :: gate where
  "busy_gate = fst (acquire (Fin 7) None (fst (acquire (Fin 5) None new_gate)))"

lemma busy_gate_reachable: "gate_reachable busy_gate"
  unfolding busy_gate_def
  by (rule gate_reachable.step [OF gate_reachable.step [OF gate_reachable.start acquire_step] acquire_step])

lemma busy_gate_parts: "gate_active busy_gate = Some 0" "gate_queue busy_gate = [1]"
  by (simp_all add: busy_gate_def new_gate_def acquire_def is_safe_non_negative_def is_safe_integer_def
      max_safe_def num_nat_def max_operation_capacity_def max_operation_queue_def max_queued_media_bytes_def
      Let_def pump_def start_node_def upd_node_def)

theorem media_gate_bounded_witness:
  "length (gate_queue busy_gate) \<le> 3 \<and> gate_queued_bytes busy_gate \<le> 256 * 1024 * 1024"
  using media_gate_bounded [OF busy_gate_reachable] by simp

theorem media_gate_serves_in_order_witness: "sorted_wrt (<) (gate_granted busy_gate @ gate_queue busy_gate)"
  using media_gate_serves_in_order [OF busy_gate_reachable] by simp

theorem media_gate_lease_held_witness: "gate_active (release 0 busy_gate) = Some 1"
  using media_gate_lease_held [OF busy_gate_reachable busy_gate_parts(1)] busy_gate_parts(2) by simp

end
