(* ===== verification/Image_Bytes.thy ===== *)
theory Image_Bytes
  imports Media_Gate
begin

unbundle bit_operations_syntax

text \<open>
  lib/matrix/media.ts: the limits on media sizes and the scanners that decide from the bytes alone
  whether an image may be previewed. A byte array is a list of 8-bit words. Reading past its end gives
  \<^verbatim>\<open>undefined\<close>, which the code only uses where it counts as 0, while a
  \<^verbatim>\<open>DataView\<close> throws a RangeError there (\<open>PlatformException\<close>).
\<close>

section \<open>Limits\<close>

definition max_image_bytes :: nat where
  "max_image_bytes = 64 * 1024 * 1024"

definition max_image_pixels :: nat where
  "max_image_pixels = 64 * 1024 * 1024 div 4"

definition max_image_edge :: nat where
  "max_image_edge = 16384"

definition mebibytes_text :: "jsnum \<Rightarrow> string" where
  "mebibytes_text n =
     (case n of
        Fin q \<Rightarrow> int_digits (max 1 \<lfloor>q / (1024 * 1024) + 1 / 2\<rfloor>)
      | PosInf \<Rightarrow> ''Infinity''
      | NegInf \<Rightarrow> ''1''
      | NaN \<Rightarrow> ''NaN'')"

definition oversized_message :: "jsnum \<Rightarrow> string" where
  "oversized_message maximum =
     ''This attachment exceeds Sub-Etha's '' @ mebibytes_text maximum @ '' MiB media limit.''"

definition assert_media_byte_length :: "jsnum \<Rightarrow> jsnum \<Rightarrow> media_error + unit" where
  "assert_media_byte_length byte_length maximum =
     (if \<not> is_safe_non_negative byte_length \<or> \<not> is_safe_non_negative maximum
         \<or> num_nat byte_length > num_nat maximum
      then Inl (LimitError (oversized_message maximum)) else Inr ())"

definition num_of :: "nat \<Rightarrow> jsnum" where
  "num_of n = Fin (of_nat n)"

record declared_media =
  dm_size :: "jsnum option"
  dm_width :: "jsnum option"
  dm_height :: "jsnum option"

definition bad_dimension :: "jsnum option \<Rightarrow> bool" where
  "bad_dimension d =
     (case d of None \<Rightarrow> False
      | Some n \<Rightarrow> \<not> is_safe_non_negative n \<or> num_nat n = 0 \<or> num_nat n > max_image_edge)"

definition assert_declared_media_limits :: "declared_media \<Rightarrow> jsnum \<Rightarrow> media_error + unit" where
  "assert_declared_media_limits m maximum =
     sum_bind (case dm_size m of None \<Rightarrow> Inr () | Some s \<Rightarrow> assert_media_byte_length s maximum) (\<lambda>_.
       if bad_dimension (dm_width m) \<or> bad_dimension (dm_height m)
       then Inl (LimitError ''This image exceeds Sub-Etha's automatic preview dimensions.'')
       else case (dm_width m, dm_height m) of
         (Some w, Some h) \<Rightarrow>
           if num_nat w * num_nat h > max_image_pixels
           then Inl (LimitError ''This image exceeds Sub-Etha's automatic preview pixel limit.'')
           else Inr ()
       | _ \<Rightarrow> Inr ())"

section \<open>Reading bytes\<close>

definition byte :: "8 word list \<Rightarrow> nat \<Rightarrow> nat" where
  "byte bs i = (if i < length bs then unat (bs ! i) else 0)"

definition view_u16_le :: "8 word list \<Rightarrow> nat \<Rightarrow> media_error + nat" where
  "view_u16_le bs i = (if i + 2 \<le> length bs then Inr (byte bs i + 256 * byte bs (i + 1)) else Inl PlatformException)"

definition view_u32_le :: "8 word list \<Rightarrow> nat \<Rightarrow> media_error + nat" where
  "view_u32_le bs i =
     (if i + 4 \<le> length bs
      then Inr (byte bs i + 256 * (byte bs (i + 1) + 256 * (byte bs (i + 2) + 256 * byte bs (i + 3))))
      else Inl PlatformException)"

definition view_u32_be :: "8 word list \<Rightarrow> nat \<Rightarrow> media_error + nat" where
  "view_u32_be bs i =
     (if i + 4 \<le> length bs
      then Inr (((byte bs i * 256 + byte bs (i + 1)) * 256 + byte bs (i + 2)) * 256 + byte bs (i + 3))
      else Inl PlatformException)"

text \<open>\<^verbatim>\<open>String.fromCharCode(...bytes.slice(a, b))\<close>\<close>

definition tag_at :: "8 word list \<Rightarrow> nat \<Rightarrow> nat \<Rightarrow> string" where
  "tag_at bs a b = map (\<lambda>w. char_of (unat w)) (js_slice a b bs)"

definition uint24_le :: "8 word list \<Rightarrow> nat \<Rightarrow> nat" where
  "uint24_le bs i = byte bs i OR push_bit 8 (byte bs (i + 1)) OR push_bit 16 (byte bs (i + 2))"

definition bytes_are_gif :: "8 word list \<Rightarrow> bool" where
  "bytes_are_gif bs \<longleftrightarrow> \<not> length bs < 6 \<and> (tag_at bs 0 6 = ''GIF87a'' \<or> tag_at bs 0 6 = ''GIF89a'')"

definition png_signature :: "8 word list" where
  "png_signature = [137, 80, 78, 71, 13, 10, 26, 10]"

definition bytes_are_png :: "8 word list \<Rightarrow> bool" where
  "bytes_are_png bs \<longleftrightarrow> 8 \<le> length bs \<and> take 8 bs = png_signature"

definition bytes_are_webp :: "8 word list \<Rightarrow> bool" where
  "bytes_are_webp bs \<longleftrightarrow> 12 \<le> length bs \<and> tag_at bs 0 4 = ''RIFF'' \<and> tag_at bs 8 12 = ''WEBP''"

section \<open>Frames\<close>

record frame_rect =
  fr_x :: nat
  fr_y :: nat
  fr_width :: nat
  fr_height :: nat

definition bad_frame :: "nat \<Rightarrow> nat \<Rightarrow> frame_rect \<Rightarrow> bool" where
  "bad_frame canvas_width canvas_height f \<longleftrightarrow>
     \<not> is_safe_non_negative (num_of (fr_x f)) \<or> \<not> is_safe_non_negative (num_of (fr_y f))
     \<or> \<not> is_safe_non_negative (num_of (fr_width f)) \<or> \<not> is_safe_non_negative (num_of (fr_height f))
     \<or> fr_width f = 0 \<or> fr_height f = 0
     \<or> fr_width f > max_image_edge \<or> fr_height f > max_image_edge
     \<or> fr_width f * fr_height f > max_image_pixels
     \<or> fr_x f + fr_width f > canvas_width \<or> fr_y f + fr_height f > canvas_height"

definition validate_frame_rects :: "frame_rect list \<Rightarrow> nat \<Rightarrow> nat \<Rightarrow> media_error + unit" where
  "validate_frame_rects frames w h =
     (if list_ex (bad_frame w h) frames
      then Inl (LimitError ''This animation exceeds Sub-Etha's frame safety limits.'') else Inr ())"

subsection \<open>GIF\<close>

function skip_gif_sub_blocks :: "8 word list \<Rightarrow> nat \<Rightarrow> nat" where
  "skip_gif_sub_blocks bs offset =
     (if offset < length bs then
        (let size = byte bs offset in
         if size = 0 then offset + 1
         else if offset + 1 + size > length bs then length bs
         else skip_gif_sub_blocks bs (offset + 1 + size))
      else offset)"
  by pat_completeness auto

termination skip_gif_sub_blocks
  by (relation "measure (\<lambda>(bs, offset). length bs - offset)") auto

declare skip_gif_sub_blocks.simps [simp del]

lemma skip_gif_ge: "offset \<le> skip_gif_sub_blocks bs offset"
proof (induction bs offset rule: skip_gif_sub_blocks.induct)
  case (1 bs offset)
  then show ?case by (subst skip_gif_sub_blocks.simps) (auto simp: Let_def)
qed

text \<open>The size of a colour table announced by a packed field.\<close>

definition color_table_size :: "nat \<Rightarrow> nat" where
  "color_table_size packed = (if packed AND 128 \<noteq> 0 then 3 * 2 ^ ((packed AND 7) + 1) else 0)"

definition gif_start :: "8 word list \<Rightarrow> nat" where
  "gif_start bs = 13 + color_table_size (byte bs 10)"

function gif_count_loop :: "8 word list \<Rightarrow> nat \<Rightarrow> nat \<Rightarrow> nat" where
  "gif_count_loop bs offset frames =
     (if offset < length bs then
        (let marker = byte bs offset; o1 = offset + 1 in
         if marker = 0x3b then frames
         else if marker = 0x21 then gif_count_loop bs (skip_gif_sub_blocks bs (o1 + 1)) frames
         else if marker \<noteq> 0x2c \<or> o1 + 9 > length bs then frames
         else let o2 = o1 + 9 + color_table_size (byte bs (o1 + 8)) in
           if o2 \<ge> length bs then frames
           else gif_count_loop bs (skip_gif_sub_blocks bs (o2 + 1)) (frames + 1))
      else frames)"
  by pat_completeness auto

lemma skip_gif_less: "offset < length bs \<Longrightarrow> offset < k \<Longrightarrow> length bs - skip_gif_sub_blocks bs k < length bs - offset"
  using skip_gif_ge [of k bs] by linarith

termination gif_count_loop
  by (relation "measure (\<lambda>(bs, offset, frames). length bs - offset)") (auto intro!: skip_gif_less)

definition gif_frame_count :: "8 word list \<Rightarrow> nat" where
  "gif_frame_count bs =
     (if \<not> bytes_are_gif bs \<or> length bs < 13 then 0 else gif_count_loop bs (gif_start bs) 0)"

definition gif_rect_at :: "8 word list \<Rightarrow> nat \<Rightarrow> media_error + frame_rect" where
  "gif_rect_at bs i =
     sum_bind (view_u16_le bs i) (\<lambda>x. sum_bind (view_u16_le bs (i + 2)) (\<lambda>y.
     sum_bind (view_u16_le bs (i + 4)) (\<lambda>w. sum_bind (view_u16_le bs (i + 6)) (\<lambda>h.
     Inr \<lparr>fr_x = x, fr_y = y, fr_width = w, fr_height = h\<rparr>))))"

function gif_rects_loop :: "8 word list \<Rightarrow> nat \<Rightarrow> frame_rect list \<Rightarrow> media_error + frame_rect list" where
  "gif_rects_loop bs offset frames =
     (if offset < length bs then
        (let marker = byte bs offset; o1 = offset + 1 in
         if marker = 0x3b then Inr frames
         else if marker = 0x21 then
           (if o1 \<ge> length bs then Inr frames
            else gif_rects_loop bs (skip_gif_sub_blocks bs (o1 + 1)) frames)
         else if marker \<noteq> 0x2c \<or> o1 + 9 > length bs then Inr frames
         else case gif_rect_at bs o1 of
             Inl e \<Rightarrow> Inl e
           | Inr r \<Rightarrow>
               let o2 = o1 + 9 + color_table_size (byte bs (o1 + 8)) in
               if o2 \<ge> length bs then Inr (frames @ [r])
               else gif_rects_loop bs (skip_gif_sub_blocks bs (o2 + 1)) (frames @ [r]))
      else Inr frames)"
  by pat_completeness auto

termination gif_rects_loop
  by (relation "measure (\<lambda>(bs, offset, frames). length bs - offset)") (auto intro!: skip_gif_less)

declare gif_count_loop.simps [simp del] gif_rects_loop.simps [simp del]

definition gif_frame_rects :: "8 word list \<Rightarrow> media_error + frame_rect list" where
  "gif_frame_rects bs =
     (if \<not> bytes_are_gif bs \<or> length bs < 13 then Inr [] else gif_rects_loop bs (gif_start bs) [])"

subsection \<open>PNG\<close>

function png_count_loop :: "8 word list \<Rightarrow> nat \<Rightarrow> media_error + nat" where
  "png_count_loop bs offset =
     (if offset + 12 \<le> length bs then
        (case view_u32_be bs offset of
           Inl e \<Rightarrow> Inl e
         | Inr len \<Rightarrow>
             if len > length bs - offset - 12 then Inr 1
             else if tag_at bs (offset + 4) (offset + 8) = ''acTL'' \<and> len \<ge> 8 then view_u32_be bs (offset + 8)
             else png_count_loop bs (offset + 12 + len))
      else Inr 1)"
  by pat_completeness auto

termination png_count_loop
  by (relation "measure (\<lambda>(bs, offset). length bs - offset)") auto

definition png_frame_count :: "8 word list \<Rightarrow> media_error + nat" where
  "png_frame_count bs = (if \<not> bytes_are_png bs then Inr 0 else png_count_loop bs 8)"

definition png_rect_at :: "8 word list \<Rightarrow> nat \<Rightarrow> media_error + frame_rect" where
  "png_rect_at bs i =
     sum_bind (view_u32_be bs (i + 20)) (\<lambda>x. sum_bind (view_u32_be bs (i + 24)) (\<lambda>y.
     sum_bind (view_u32_be bs (i + 12)) (\<lambda>w. sum_bind (view_u32_be bs (i + 16)) (\<lambda>h.
     Inr \<lparr>fr_x = x, fr_y = y, fr_width = w, fr_height = h\<rparr>))))"

function png_rects_loop :: "8 word list \<Rightarrow> nat \<Rightarrow> frame_rect list \<Rightarrow> media_error + frame_rect list" where
  "png_rects_loop bs offset frames =
     (if offset + 12 \<le> length bs then
        (case view_u32_be bs offset of
           Inl e \<Rightarrow> Inl e
         | Inr len \<Rightarrow>
             if len > length bs - offset - 12 then Inr frames
             else if tag_at bs (offset + 4) (offset + 8) = ''fcTL'' \<and> len \<ge> 26 then
               (case png_rect_at bs offset of
                  Inl e \<Rightarrow> Inl e
                | Inr r \<Rightarrow> png_rects_loop bs (offset + 12 + len) (frames @ [r]))
             else png_rects_loop bs (offset + 12 + len) frames)
      else Inr frames)"
  by pat_completeness auto

termination png_rects_loop
  by (relation "measure (\<lambda>(bs, offset, frames). length bs - offset)") auto

definition png_frame_rects :: "8 word list \<Rightarrow> media_error + frame_rect list" where
  "png_frame_rects bs = (if \<not> bytes_are_png bs then Inr [] else png_rects_loop bs 8 [])"

subsection \<open>WebP\<close>

function webp_count_loop :: "8 word list \<Rightarrow> nat \<Rightarrow> nat \<Rightarrow> media_error + nat" where
  "webp_count_loop bs offset frames =
     (if offset + 8 \<le> length bs then
        (case view_u32_le bs (offset + 4) of
           Inl e \<Rightarrow> Inl e
         | Inr len \<Rightarrow>
             if len > length bs - offset - 8 then Inr frames
             else webp_count_loop bs (offset + 8 + len + len mod 2)
                    (if tag_at bs offset (offset + 4) = ''ANMF'' then frames + 1 else frames))
      else Inr frames)"
  by pat_completeness auto

termination webp_count_loop
  by (relation "measure (\<lambda>(bs, offset, frames). length bs - offset)") auto

definition webp_frame_count :: "8 word list \<Rightarrow> media_error + nat" where
  "webp_frame_count bs =
     (if \<not> bytes_are_webp bs then Inr 0
      else sum_bind (webp_count_loop bs 12 0) (\<lambda>frames. Inr (max 1 frames)))"

definition webp_rect_at :: "8 word list \<Rightarrow> nat \<Rightarrow> frame_rect" where
  "webp_rect_at bs i =
     \<lparr>fr_x = uint24_le bs i * 2, fr_y = uint24_le bs (i + 3) * 2,
      fr_width = uint24_le bs (i + 6) + 1, fr_height = uint24_le bs (i + 9) + 1\<rparr>"

function webp_rects_loop :: "8 word list \<Rightarrow> nat \<Rightarrow> frame_rect list \<Rightarrow> media_error + frame_rect list" where
  "webp_rects_loop bs offset frames =
     (if offset + 8 \<le> length bs then
        (case view_u32_le bs (offset + 4) of
           Inl e \<Rightarrow> Inl e
         | Inr len \<Rightarrow>
             if len > length bs - offset - 8 then Inr frames
             else let anmf = (tag_at bs offset (offset + 4) = ''ANMF'') in
               if anmf \<and> len < 16 then Inl (LimitError ''This animation has invalid frame metadata.'')
               else webp_rects_loop bs (offset + 8 + len + len mod 2)
                      (if anmf \<and> len \<ge> 16 then frames @ [webp_rect_at bs (offset + 8)] else frames))
      else Inr frames)"
  by pat_completeness auto

termination webp_rects_loop
  by (relation "measure (\<lambda>(bs, offset, frames). length bs - offset)") auto

declare png_count_loop.simps [simp del] png_rects_loop.simps [simp del]
  webp_count_loop.simps [simp del] webp_rects_loop.simps [simp del]

definition webp_frame_rects :: "8 word list \<Rightarrow> media_error + frame_rect list" where
  "webp_frame_rects bs = (if \<not> bytes_are_webp bs then Inr [] else webp_rects_loop bs 12 [])"

definition image_frame_count :: "8 word list \<Rightarrow> media_error + nat" where
  "image_frame_count bs =
     (if bytes_are_gif bs then Inr (max 1 (gif_frame_count bs))
      else sum_bind (png_frame_count bs) (\<lambda>png.
        if png > 0 then Inr png
        else sum_bind (webp_frame_count bs) (\<lambda>webp. Inr (if webp > 0 then webp else 1))))"

section \<open>Formats and dimensions\<close>

datatype raster_mime = Gif | Jpeg | Png | Webp

definition bytes_are_jpeg :: "8 word list \<Rightarrow> bool" where
  "bytes_are_jpeg bs \<longleftrightarrow> 3 \<le> length bs \<and> byte bs 0 = 0xff \<and> byte bs 1 = 0xd8 \<and> byte bs 2 = 0xff"

definition safe_raster_mime_type :: "8 word list \<Rightarrow> media_error + raster_mime" where
  "safe_raster_mime_type bs =
     (if bytes_are_gif bs then Inr Gif
      else if bytes_are_png bs then Inr Png
      else if bytes_are_jpeg bs then Inr Jpeg
      else if bytes_are_webp bs then Inr Webp
      else Inl (LimitError ''This image format cannot be safely previewed.''))"

definition gif_dimensions :: "8 word list \<Rightarrow> media_error + (nat \<times> nat) option" where
  "gif_dimensions bs =
     (if \<not> bytes_are_gif bs \<or> length bs < 13 then Inr None
      else sum_bind (view_u16_le bs 6) (\<lambda>w. sum_bind (view_u16_le bs 8) (\<lambda>h. Inr (Some (w, h)))))"

definition png_dimensions :: "8 word list \<Rightarrow> media_error + (nat \<times> nat) option" where
  "png_dimensions bs =
     (if length bs < 24 then Inr None
      else sum_bind (png_frame_count bs) (\<lambda>n.
        if n = 0 then Inr None
        else sum_bind (view_u32_be bs 8) (\<lambda>len.
          if len \<noteq> 13 \<or> tag_at bs 12 16 \<noteq> ''IHDR'' then Inr None
          else sum_bind (view_u32_be bs 16) (\<lambda>w. sum_bind (view_u32_be bs 20) (\<lambda>h. Inr (Some (w, h)))))))"

definition is_jpeg_start_of_frame :: "nat \<Rightarrow> bool" where
  "is_jpeg_start_of_frame m \<longleftrightarrow> 0xc0 \<le> m \<and> m \<le> 0xcf \<and> m \<notin> {0xc4, 0xc8, 0xcc}"

text \<open>The inner loop over fill bytes.\<close>

function skip_ff :: "8 word list \<Rightarrow> nat \<Rightarrow> nat" where
  "skip_ff bs offset = (if offset < length bs \<and> byte bs offset = 0xff then skip_ff bs (offset + 1) else offset)"
  by pat_completeness auto

termination skip_ff
  by (relation "measure (\<lambda>(bs, offset). length bs - offset)") auto

declare skip_ff.simps [simp del]

lemma skip_ff_ge: "offset \<le> skip_ff bs offset"
proof (induction bs offset rule: skip_ff.induct)
  case (1 bs offset)
  then show ?case by (subst skip_ff.simps) auto
qed

definition u16_be :: "8 word list \<Rightarrow> nat \<Rightarrow> nat" where
  "u16_be bs i = push_bit 8 (byte bs i) OR byte bs (i + 1)"

function jpeg_loop :: "8 word list \<Rightarrow> nat \<Rightarrow> (nat \<times> nat) option" where
  "jpeg_loop bs offset =
     (if offset < length bs then
        if byte bs offset \<noteq> 0xff then None
        else let o1 = skip_ff bs offset in
          if o1 \<ge> length bs then None
          else let marker = byte bs o1; o2 = o1 + 1 in
            if marker = 0xd9 \<or> marker = 0xda then None
            else if marker = 0x01 \<or> marker = 0xd8 \<or> (0xd0 \<le> marker \<and> marker \<le> 0xd7) then jpeg_loop bs o2
            else if o2 + 2 > length bs then None
            else let seg = u16_be bs o2 in
              if seg < 2 \<or> seg > length bs - o2 then None
              else if is_jpeg_start_of_frame marker then
                (if seg < 7 then None else Some (u16_be bs (o2 + 5), u16_be bs (o2 + 3)))
              else jpeg_loop bs (o2 + seg)
      else None)"
  by pat_completeness auto

termination jpeg_loop
proof (relation "measure (\<lambda>(bs, offset). length bs - offset)", goal_cases)
  case (2 bs offset o1 marker o2)
  then show ?case using skip_ff_ge [of offset bs] by simp
next
  case (3 bs offset o1 marker o2 seg)
  then show ?case using skip_ff_ge [of offset bs] by simp
qed simp

declare jpeg_loop.simps [simp del]

definition jpeg_dimensions :: "8 word list \<Rightarrow> (nat \<times> nat) option" where
  "jpeg_dimensions bs =
     (if length bs < 4 \<or> byte bs 0 \<noteq> 0xff \<or> byte bs 1 \<noteq> 0xd8 then None else jpeg_loop bs 2)"

function webp_dims_loop :: "8 word list \<Rightarrow> nat \<Rightarrow> media_error + (nat \<times> nat) option" where
  "webp_dims_loop bs offset =
     (if offset + 8 \<le> length bs then
        (case view_u32_le bs (offset + 4) of
           Inl e \<Rightarrow> Inl e
         | Inr len \<Rightarrow>
             if len > length bs - offset - 8 then Inr None
             else let tag = tag_at bs offset (offset + 4); d = offset + 8 in
               if tag = ''VP8X'' \<and> len \<ge> 10 then Inr (Some (uint24_le bs (d + 4) + 1, uint24_le bs (d + 7) + 1))
               else if tag = ''VP8 '' \<and> len \<ge> 10 \<and> byte bs (d + 3) = 0x9d \<and> byte bs (d + 4) = 0x01
                       \<and> byte bs (d + 5) = 0x2a then
                 sum_bind (view_u16_le bs (d + 6)) (\<lambda>w. sum_bind (view_u16_le bs (d + 8)) (\<lambda>h.
                 Inr (Some (w AND 0x3fff, h AND 0x3fff))))
               else if tag = ''VP8L'' \<and> len \<ge> 5 \<and> byte bs d = 0x2f then
                 Inr (Some (1 + byte bs (d + 1) + push_bit 8 (byte bs (d + 2) AND 0x3f),
                   1 + drop_bit 6 (byte bs (d + 2)) + push_bit 2 (byte bs (d + 3)) + push_bit 10 (byte bs (d + 4) AND 0x0f)))
               else webp_dims_loop bs (offset + 8 + len + len mod 2))
      else Inr None)"
  by pat_completeness auto

termination webp_dims_loop
  by (relation "measure (\<lambda>(bs, offset). length bs - offset)") auto

declare webp_dims_loop.simps [simp del]

definition webp_dimensions :: "8 word list \<Rightarrow> media_error + (nat \<times> nat) option" where
  "webp_dimensions bs = (if length bs < 20 \<or> \<not> bytes_are_webp bs then Inr None else webp_dims_loop bs 12)"

definition raster_dimensions :: "8 word list \<Rightarrow> raster_mime \<Rightarrow> media_error + (nat \<times> nat) option" where
  "raster_dimensions bs mime =
     (case mime of
        Gif \<Rightarrow> gif_dimensions bs
      | Png \<Rightarrow> png_dimensions bs
      | Jpeg \<Rightarrow> Inr (jpeg_dimensions bs)
      | Webp \<Rightarrow> webp_dimensions bs)"

section \<open>assertSafeImageBytes\<close>

record image_safety =
  is_width :: nat
  is_height :: nat
  is_frame_count :: nat
  is_animated :: bool
  is_mime :: raster_mime

definition frame_rects :: "8 word list \<Rightarrow> raster_mime \<Rightarrow> media_error + frame_rect list" where
  "frame_rects bs mime =
     (case mime of
        Gif \<Rightarrow> gif_frame_rects bs
      | Png \<Rightarrow> png_frame_rects bs
      | Webp \<Rightarrow> webp_frame_rects bs
      | Jpeg \<Rightarrow> Inr [])"

definition check_frames ::
  "8 word list \<Rightarrow> raster_mime \<Rightarrow> nat \<Rightarrow> nat \<Rightarrow> media_error + image_safety" where
  "check_frames bs mime width height =
     sum_bind (image_frame_count bs) (\<lambda>count.
     sum_bind (frame_rects bs mime) (\<lambda>rects.
       if (count > 1 \<and> rects = []) \<or> (rects \<noteq> [] \<and> length rects \<noteq> count)
       then Inl (LimitError ''This animation has invalid frame metadata.'')
       else sum_bind (validate_frame_rects rects width height) (\<lambda>_.
         if count > max_image_pixels div (width * height)
         then Inl (LimitError ''This animation exceeds Sub-Etha's automatic preview decode limit.'')
         else Inr \<lparr>is_width = width, is_height = height, is_frame_count = count,
                is_animated = (count > 1), is_mime = mime\<rparr>)))"

definition assert_safe_image_bytes :: "8 word list \<Rightarrow> media_error + image_safety" where
  "assert_safe_image_bytes bs =
     sum_bind (assert_media_byte_length (num_of (length bs)) (num_of max_image_bytes)) (\<lambda>_.
     sum_bind (safe_raster_mime_type bs) (\<lambda>mime.
     sum_bind (raster_dimensions bs mime) (\<lambda>dimensions.
       case dimensions of
         None \<Rightarrow> Inl (LimitError ''This image format cannot be safely previewed.'')
       | Some (width, height) \<Rightarrow>
           if width = 0 \<or> height = 0 \<or> width > max_image_edge \<or> height > max_image_edge
              \<or> width * height > max_image_pixels
           then Inl (LimitError ''This image exceeds Sub-Etha's automatic preview pixel limit.'')
           else check_frames bs mime width height)))"

end
