(* ===== verification/Image_Safety.thy ===== *)
theory Image_Safety
  imports Image_Bytes
begin

text \<open>
  What \<open>assertSafeImageBytes\<close> guarantees of an accepted image, and that it fails with a
  \<open>MediaLimitError\<close> only: no scanner reads a \<^verbatim>\<open>DataView\<close> out of range, and every loop
  ends.
\<close>

section \<open>Failures\<close>

definition limit_only :: "media_error + 'a \<Rightarrow> bool" where
  "limit_only r \<longleftrightarrow> (case r of Inl e \<Rightarrow> (\<exists>m. e = LimitError m) | Inr x \<Rightarrow> True)"

named_theorems limit_intros "computations that fail only with a MediaLimitError"

lemma limit_only_simps [limit_intros, simp]:
  "limit_only (Inr x)" "limit_only (Inl (LimitError m))"
  by (simp_all add: limit_only_def)

lemma limit_only_bind [limit_intros]:
  "limit_only r \<Longrightarrow> (\<And>x. r = Inr x \<Longrightarrow> limit_only (k x)) \<Longrightarrow> limit_only (sum_bind r k)"
  by (cases r) (auto simp: limit_only_def)

lemma limit_only_if [limit_intros]:
  "(b \<Longrightarrow> limit_only r) \<Longrightarrow> (\<not> b \<Longrightarrow> limit_only s) \<Longrightarrow> limit_only (if b then r else s)"
  by simp

lemma limit_only_case:
  "limit_only r \<Longrightarrow> (\<And>x. r = Inr x \<Longrightarrow> limit_only (k x)) \<Longrightarrow> limit_only (case r of Inl e \<Rightarrow> Inl e | Inr x \<Rightarrow> k x)"
  using limit_only_bind [of r k] by (simp add: sum_bind_def)

lemma view_limit [limit_intros]:
  "i + 2 \<le> length bs \<Longrightarrow> limit_only (view_u16_le bs i)"
  "i + 4 \<le> length bs \<Longrightarrow> limit_only (view_u32_le bs i)"
  "i + 4 \<le> length bs \<Longrightarrow> limit_only (view_u32_be bs i)"
  by (simp_all add: view_u16_le_def view_u32_le_def view_u32_be_def)

lemma gif_rect_limit: "i + 9 \<le> length bs \<Longrightarrow> limit_only (gif_rect_at bs i)"
  unfolding gif_rect_at_def by (intro limit_intros) simp_all

lemma gif_rects_limit: "limit_only (gif_rects_loop bs offset frames)"
proof (induction bs offset frames rule: gif_rects_loop.induct)
  case (1 bs offset frames)
  show ?case
    by (subst gif_rects_loop.simps, unfold Let_def,
        intro limit_only_if limit_only_case limit_only_simps gif_rect_limit 1(1) [OF _ refl refl]
          1(2) [OF _ refl refl _ _ _ _ refl]) simp_all
qed

lemma png_rect_limit: "i + 28 \<le> length bs \<Longrightarrow> limit_only (png_rect_at bs i)"
  unfolding png_rect_at_def by (intro limit_intros) simp_all

lemma png_count_limit: "limit_only (png_count_loop bs offset)"
proof (induction bs offset rule: png_count_loop.induct)
  case (1 bs offset)
  show ?case
    by (subst png_count_loop.simps, intro limit_only_if limit_only_case limit_only_simps view_limit)
      (auto intro: 1)
qed

lemma png_rects_limit: "limit_only (png_rects_loop bs offset frames)"
proof (induction bs offset frames rule: png_rects_loop.induct)
  case (1 bs offset frames)
  show ?case
    by (subst png_rects_loop.simps, intro limit_only_if limit_only_case limit_only_simps view_limit png_rect_limit)
      (auto intro: 1)
qed

lemma webp_count_limit: "limit_only (webp_count_loop bs offset frames)"
proof (induction bs offset frames rule: webp_count_loop.induct)
  case (1 bs offset frames)
  show ?case
    by (subst webp_count_loop.simps, intro limit_only_if limit_only_case limit_only_simps view_limit)
      (simp, rule 1, simp_all)
qed

lemma webp_rects_limit: "limit_only (webp_rects_loop bs offset frames)"
proof (induction bs offset frames rule: webp_rects_loop.induct)
  case (1 bs offset frames)
  show ?case
    by (subst webp_rects_loop.simps, unfold Let_def, intro limit_only_if limit_only_case limit_only_simps view_limit)
      (simp, rule 1, simp_all)
qed

lemma webp_dims_limit: "limit_only (webp_dims_loop bs offset)"
proof (induction bs offset rule: webp_dims_loop.induct)
  case (1 bs offset)
  show ?case
    apply (subst webp_dims_loop.simps, unfold Let_def,
        intro limit_only_if limit_only_case limit_only_simps limit_only_bind view_limit)
    subgoal by simp
    subgoal by (elim conjE, arith)
    subgoal by (elim conjE, arith)
    subgoal by (rule 1; simp)
    done
qed

lemma dimensions_limit [limit_intros]: "limit_only (raster_dimensions bs mime)"
proof (cases mime)
  case Gif
  then show ?thesis
    unfolding raster_dimensions_def gif_dimensions_def by (simp, intro conjI impI limit_intros) simp_all
next
  case Png
  then show ?thesis
    unfolding raster_dimensions_def png_dimensions_def png_frame_count_def
    by (simp, intro conjI impI limit_intros png_count_limit) simp_all
next
  case Jpeg
  then show ?thesis by (simp add: raster_dimensions_def)
next
  case Webp
  then show ?thesis by (simp add: raster_dimensions_def webp_dimensions_def webp_dims_limit)
qed

lemma frames_limit [limit_intros]:
  "limit_only (image_frame_count bs)" "limit_only (frame_rects bs mime)"
proof -
  show "limit_only (image_frame_count bs)"
    unfolding image_frame_count_def png_frame_count_def webp_frame_count_def
    by (intro limit_intros png_count_limit webp_count_limit)
  show "limit_only (frame_rects bs mime)"
    by (cases mime) (simp_all add: frame_rects_def gif_frame_rects_def png_frame_rects_def webp_frame_rects_def
        gif_rects_limit png_rects_limit webp_rects_limit)
qed

text \<open>Whatever the bytes, the image check ends with a verdict or a \<open>MediaLimitError\<close>: no scanner
  reads outside the array, and none runs forever.
\<close>

theorem image_check_fails_safely:
  "limit_only (assert_safe_image_bytes bs)"
proof -
  have "limit_only (assert_media_byte_length a b)" for a b by (simp add: assert_media_byte_length_def)
  moreover have "limit_only (safe_raster_mime_type bs)" by (simp add: safe_raster_mime_type_def)
  moreover have "limit_only (check_frames bs mime w h)" for mime w h
    unfolding check_frames_def validate_frame_rects_def by (intro limit_intros)
  ultimately show ?thesis
    unfolding assert_safe_image_bytes_def
    by (intro limit_intros) (auto split: option.split prod.split)
qed

section \<open>Accepted images\<close>

lemma image_frame_count_pos: "image_frame_count bs = Inr n \<Longrightarrow> 0 < n"
  by (auto simp: image_frame_count_def sum_bind_Inr_iff split: if_splits)

text \<open>An accepted image is at most 64 MiB long, at most 16384 pixels in each direction, and all its
  frames decode to at most 64 MiB at four bytes a pixel; the frames its bytes declare are as many as
  reported and lie within the canvas.
\<close>

theorem safe_images_bounded:
  "assert_safe_image_bytes bs = Inr s \<Longrightarrow>
     length bs \<le> 64 * 1024 * 1024 \<and>
     1 \<le> is_width s \<and> is_width s \<le> 16384 \<and> 1 \<le> is_height s \<and> is_height s \<le> 16384 \<and>
     1 \<le> is_frame_count s \<and> (is_animated s \<longleftrightarrow> 1 < is_frame_count s) \<and>
     4 * (is_frame_count s * (is_width s * is_height s)) \<le> 64 * 1024 * 1024 \<and>
     (\<exists>rects. frame_rects bs (is_mime s) = Inr rects \<and>
        (rects = [] \<and> is_frame_count s = 1 \<or> length rects = is_frame_count s) \<and>
        (\<forall>r \<in> set rects. 0 < fr_width r \<and> 0 < fr_height r \<and>
           fr_x r + fr_width r \<le> is_width s \<and> fr_y r + fr_height r \<le> is_height s))"
proof -
  assume ok: "assert_safe_image_bytes bs = Inr s"
  then obtain mime d where len: "assert_media_byte_length (num_of (length bs)) (num_of max_image_bytes) = Inr ()"
    and k: "(case d of None \<Rightarrow> Inl (LimitError ''This image format cannot be safely previewed.'')
       | Some (w, h) \<Rightarrow>
           if w = 0 \<or> h = 0 \<or> w > max_image_edge \<or> h > max_image_edge \<or> w * h > max_image_pixels
           then Inl (LimitError ''This image exceeds Sub-Etha's automatic preview pixel limit.'')
           else check_frames bs mime w h) = Inr s"
    by (auto simp: assert_safe_image_bytes_def sum_bind_Inr_iff)
  obtain w h where d: "d = Some (w, h)" using k by (cases d) auto
  have dims: "w \<noteq> 0" "h \<noteq> 0" "w \<le> max_image_edge" "h \<le> max_image_edge"
    and frames: "check_frames bs mime w h = Inr s"
    using k by (auto simp: d not_less split: if_splits)
  from frames obtain count rects where c: "image_frame_count bs = Inr count" and r: "frame_rects bs mime = Inr rects"
    and agree: "\<not> ((count > 1 \<and> rects = []) \<or> (rects \<noteq> [] \<and> length rects \<noteq> count))"
    and valid: "\<not> list_ex (bad_frame w h) rects" and decode: "count \<le> max_image_pixels div (w * h)"
    and s: "s = \<lparr>is_width = w, is_height = h, is_frame_count = count, is_animated = (count > 1), is_mime = mime\<rparr>"
    by (auto simp: check_frames_def sum_bind_Inr_iff validate_frame_rects_def not_less split: if_splits)
  have pos: "0 < count" by (rule image_frame_count_pos [OF c])
  have "count * (w * h) \<le> max_image_pixels"
    using mult_le_mono1 [OF decode, of "w * h"] div_times_less_eq_dividend [of max_image_pixels "w * h"] by linarith
  moreover have "count * (h * w) \<le> max_image_pixels" using calculation by (simp add: mult.commute)
  moreover have "length bs \<le> max_image_bytes"
    using len by (auto simp: assert_media_byte_length_def num_of_def num_nat_def is_safe_non_negative_def split: if_splits)
  moreover have "\<forall>r \<in> set rects. \<not> bad_frame w h r" using valid by (auto simp: list_ex_iff)
  ultimately show ?thesis
    using dims agree r pos
    by (auto simp: s max_image_pixels_def max_image_bytes_def max_image_edge_def bad_frame_def not_less)
qed

text \<open>A one-pixel GIF without a frame.\<close>

definition tiny_gif :: "8 word list" where
  "tiny_gif = [71, 73, 70, 56, 57, 97, 1, 0, 1, 0, 0, 0, 0, 59]"

lemma byte_length_ok:
  "int n \<le> int m \<Longrightarrow> int m \<le> max_safe \<Longrightarrow> assert_media_byte_length (num_of n) (num_of m) = Inr ()"
proof -
  assume a: "int n \<le> int m" "int m \<le> max_safe"
  have "is_safe_non_negative (num_of k)" if "int k \<le> max_safe" for k
    using that is_safe_integer_int [of "int k"] by (simp add: is_safe_non_negative_def num_of_def)
  then show ?thesis using a by (simp add: assert_media_byte_length_def num_of_def num_nat_def)
qed

lemma tiny_gif_safe: "assert_safe_image_bytes tiny_gif =
    Inr \<lparr>is_width = 1, is_height = 1, is_frame_count = 1, is_animated = False, is_mime = Gif\<rparr>"
proof -
  have gif: "bytes_are_gif tiny_gif"
    by code_simp
  have start: "gif_start tiny_gif = 13"
    by (simp add: gif_start_def color_table_size_def byte_def tiny_gif_def)
  have count: "gif_count_loop tiny_gif 13 0 = 0"
    by (subst gif_count_loop.simps) (simp add: byte_def tiny_gif_def)
  have rects: "gif_rects_loop tiny_gif 13 [] = Inr []"
    by (subst gif_rects_loop.simps) (simp add: byte_def tiny_gif_def)
  have view: "view_u16_le tiny_gif 6 = Inr 1" "view_u16_le tiny_gif 8 = Inr 1"
    by (simp_all add: view_u16_le_def byte_def tiny_gif_def)
  have len: "length tiny_gif = 14" by (simp add: tiny_gif_def)
  have "assert_media_byte_length (num_of (length tiny_gif)) (num_of max_image_bytes) = Inr ()"
    by (rule byte_length_ok) (simp_all add: len max_image_bytes_def max_safe_def)
  then show ?thesis
    by (simp add: assert_safe_image_bytes_def safe_raster_mime_type_def gif raster_dimensions_def
        gif_dimensions_def len view max_image_edge_def max_image_pixels_def check_frames_def
        image_frame_count_def gif_frame_count_def gif_frame_rects_def frame_rects_def start count rects
        validate_frame_rects_def)
qed

theorem safe_images_bounded_witness:
  "4 * (1 * (1 * 1)) \<le> (64 * 1024 * 1024 :: nat) \<and> length tiny_gif \<le> 64 * 1024 * 1024"
  using safe_images_bounded [OF tiny_gif_safe] by simp

section \<open>The two GIF scanners\<close>

text \<open>The GIF scanner that counts frames and the one that lists their rectangles agree, but for one
  rectangle more when the data ends inside the last frame.
\<close>

theorem gif_scanners_agree:
  "\<exists>rects. gif_frame_rects bs = Inr rects \<and>
     (length rects = gif_frame_count bs \<or> length rects = Suc (gif_frame_count bs))"
proof -
  have loop: "\<exists>rects. gif_rects_loop bs offset frames = Inr rects \<and>
      (length rects = gif_count_loop bs offset (length frames) \<or>
       length rects = Suc (gif_count_loop bs offset (length frames)))" for bs offset frames
  proof (induction bs offset frames rule: gif_rects_loop.induct)
    case (1 bs offset frames)
    define marker where "marker = byte bs offset"
    consider "\<not> offset < length bs" | "offset < length bs" "marker = 0x3b" | (ext) "offset < length bs" "marker = 0x21"
      | "offset < length bs" "marker \<noteq> 0x3b" "marker \<noteq> 0x21" "\<not> (marker = 0x2c \<and> offset + 10 \<le> length bs)"
      | (frame) "offset < length bs" "marker = 0x2c" "offset + 10 \<le> length bs" by blast
    then show ?case
    proof cases
      case ext
      show ?thesis
      proof (cases "offset + 1 \<ge> length bs")
        case True
        then have "\<not> skip_gif_sub_blocks bs (offset + 2) < length bs" using skip_gif_ge [of "offset + 2" bs] by simp
        then show ?thesis using ext True
          by (subst gif_rects_loop.simps, subst (1 2) gif_count_loop.simps)
            (simp add: marker_def gif_count_loop.simps)
      next
        case False
        then show ?thesis using ext 1(1) [of marker "offset + 1"]
          by (subst gif_rects_loop.simps, subst (1 2) gif_count_loop.simps) (simp add: marker_def)
      qed
    next
      case frame
      obtain r where r: "gif_rect_at bs (offset + 1) = Inr r"
        using frame(3) by (auto simp: gif_rect_at_def view_u16_le_def)
      show ?thesis
        using frame 1(2) [of marker "offset + 1" r] r
        by (subst gif_rects_loop.simps, subst (1 2) gif_count_loop.simps) (auto simp: marker_def Let_def)
    qed (subst gif_rects_loop.simps, subst (1 2) gif_count_loop.simps, auto simp: marker_def)+
  qed
  show ?thesis
    using loop [of bs "gif_start bs" "[]"] by (simp add: gif_frame_rects_def gif_frame_count_def)
qed

end
