(* ===== verification/Media_Helpers.thy ===== *)
theory Media_Helpers
  imports Image_Bytes
begin

text \<open>
  lib/matrix/media.ts: reading a response within a size and time limit, and the helpers on file
  names, clipboard data and text selections. The clock and what each read of the body gives are the
  environment's: a script of pairs of a time and an outcome.
\<close>

section \<open>readBoundedResponse\<close>

datatype read_outcome =
    ReadChunk "8 word list"
  | ReadDone
  | ReadFailed media_error

text \<open>\<^verbatim>\<open>/^(?:0|[1-9][0-9]*)$/\<close>\<close>

definition is_canonical_length :: "string \<Rightarrow> bool" where
  "is_canonical_length s \<longleftrightarrow> s = ''0'' \<or> (s \<noteq> [] \<and> list_all is_digit s \<and> hd s \<noteq> CHR ''0'')"

text \<open>
  The reading loop. A read that the script leaves open is ended by the idle timer. The left of the
  result is the exception; \<open>received\<close> and \<open>chunks\<close> are the variables of the loop.
\<close>

fun read_loop ::
  "int \<Rightarrow> nat \<Rightarrow> (int \<times> read_outcome) list \<Rightarrow> nat \<Rightarrow> 8 word list list \<Rightarrow> media_error + 8 word list" where
  "read_loop deadline maximum [] received chunks = Inl TimeoutError"
| "read_loop deadline maximum ((now, outcome) # script) received chunks =
     (if deadline - now \<le> 0 then Inl TimeoutError
      else case outcome of
        ReadFailed e \<Rightarrow> Inl e
      | ReadDone \<Rightarrow> Inr (concat chunks)
      | ReadChunk c \<Rightarrow>
          if received + length c > maximum then Inl (LimitError (oversized_message (num_of maximum)))
          else read_loop deadline maximum script (received + length c) (chunks @ [c]))"

text \<open>The body: a stream, or none, and then what \<^verbatim>\<open>arrayBuffer()\<close> gives.\<close>

datatype response_body =
    BodyStream "(int \<times> read_outcome) list"
  | NoBody int "media_error + 8 word list"

definition read_bounded_response ::
  "string option \<Rightarrow> nat \<Rightarrow> int \<Rightarrow> response_body \<Rightarrow> media_error + 8 word list" where
  "read_bounded_response content_length maximum deadline body =
     sum_bind
       (case content_length of
          None \<Rightarrow> Inr ()
        | Some s \<Rightarrow>
            if \<not> is_canonical_length s
            then Inl (LimitError ''The homeserver returned an invalid media length.'')
            else assert_media_byte_length (js_number s) (num_of maximum)) (\<lambda>_.
       case body of
         NoBody now outcome \<Rightarrow>
           if deadline - now \<le> 0 then Inl TimeoutError
           else sum_bind outcome (\<lambda>bytes.
             sum_bind (assert_media_byte_length (num_of (length bytes)) (num_of maximum)) (\<lambda>_. Inr bytes))
       | BodyStream script \<Rightarrow> read_loop deadline maximum script 0 [])"

section \<open>Files\<close>

definition is_mxc_uri :: "jsval \<Rightarrow> bool" where
  "is_mxc_uri v = (case v of JStr s \<Rightarrow> prefix ''mxc://'' s | _ \<Rightarrow> False)"

definition extension_for_mime :: "string \<Rightarrow> string" where
  "extension_for_mime mime =
     (if mime = ''image/gif'' then ''gif''
      else if mime = ''image/png'' then ''png''
      else if mime = ''image/jpeg'' then ''jpg''
      else if mime = ''image/webp'' then ''webp''
      else ''bin'')"

definition image_extensions :: "(string \<times> string) list" where
  "image_extensions = [(''png'', ''image/png''), (''jpg'', ''image/jpeg''), (''jpeg'', ''image/jpeg''),
     (''gif'', ''image/gif''), (''webp'', ''image/webp'')]"

definition image_mime_type_from_name :: "string \<Rightarrow> string option" where
  "image_mime_type_from_name name = map_of image_extensions (last (split_on (CHR ''.'') (to_lower name)))"

record media_file =
  mf_name :: string
  mf_type :: string

definition is_image_upload_candidate :: "media_file \<Rightarrow> bool" where
  "is_image_upload_candidate f \<longleftrightarrow>
     prefix ''image/'' (to_lower (mf_type f)) \<or> image_mime_type_from_name (mf_name f) \<noteq> None"

definition bounded_media_string :: "jsval \<Rightarrow> nat \<Rightarrow> media_error + string" where
  "bounded_media_string v maximum =
     (case v of
        JStr s \<Rightarrow> if length s > maximum then Inl (LimitError ''The attachment metadata is too large.'') else Inr s
      | _ \<Rightarrow> Inl (LimitError ''The attachment metadata is too large.''))"

definition canonical_media_file_name :: "nat \<Rightarrow> media_file \<Rightarrow> string \<Rightarrow> media_error + string" where
  "canonical_media_file_name now f mime =
     (let fallback = ''sub-etha-'' @ nat_digits now @ ''.'' @ extension_for_mime mime;
          name = (if mf_name f \<noteq> [] \<and> \<not> prefix ''image.'' (mf_name f) then mf_name f else fallback)
      in bounded_media_string (JStr name) 255)"

definition normalized_mime :: "media_file \<Rightarrow> string" where
  "normalized_mime f =
     (let m0 = to_lower (mf_type f);
          m1 = (if m0 = [] \<or> m0 = ''application/octet-stream''
                then (case image_mime_type_from_name (mf_name f) of Some m \<Rightarrow> m | None \<Rightarrow> m0) else m0)
      in if m1 = [] then ''application/octet-stream'' else m1)"

text \<open>The name and type of the file the code returns; its content is the given one.\<close>

definition normalize_media_file :: "nat \<Rightarrow> media_file \<Rightarrow> media_error + media_file" where
  "normalize_media_file now f =
     (let mime = normalized_mime f in
      sum_bind (canonical_media_file_name now f mime) (\<lambda>name.
        Inr (if mf_type f = mime \<and> mf_name f = name then f else \<lparr>mf_name = name, mf_type = mime\<rparr>)))"

record transfer_item =
  ti_kind :: string
  ti_type :: string
  ti_file :: "media_file option"

fun first_item_file :: "transfer_item list \<Rightarrow> media_file option" where
  "first_item_file [] = None"
| "first_item_file (i # is) =
     (if ti_kind i \<noteq> ''file'' \<or> (ti_type i \<noteq> [] \<and> \<not> prefix ''image/'' (ti_type i)) then first_item_file is
      else case ti_file i of Some f \<Rightarrow> Some f | None \<Rightarrow> first_item_file is)"

definition first_image_file :: "(transfer_item list \<times> media_file list) option \<Rightarrow> media_file option" where
  "first_image_file data =
     (case data of
        None \<Rightarrow> None
      | Some (items, files) \<Rightarrow>
          (case first_item_file items of
             Some f \<Rightarrow> Some f
           | None \<Rightarrow> find (\<lambda>f. mf_type f = [] \<or> prefix ''image/'' (mf_type f)) files))"

definition insert_at_selection :: "string \<Rightarrow> string \<Rightarrow> int \<Rightarrow> int \<Rightarrow> string \<times> nat" where
  "insert_at_selection val insertion start stop =
     (let safe_start = max 0 (min start (int (length val)));
          safe_end = max safe_start (min stop (int (length val)))
      in (take (nat safe_start) val @ insertion @ drop (nat safe_end) val,
          nat safe_start + length insertion))"

section \<open>Properties\<close>

text \<open>The chunks a script gives before the stream ends.\<close>

fun chunks_before_done :: "(int \<times> read_outcome) list \<Rightarrow> 8 word list list" where
  "chunks_before_done [] = []"
| "chunks_before_done ((now, ReadChunk c) # script) = c # chunks_before_done script"
| "chunks_before_done ((now, ReadDone) # script) = []"
| "chunks_before_done ((now, ReadFailed e) # script) = []"

lemma read_loop_Inr:
  "read_loop deadline maximum script received chunks = Inr bs \<Longrightarrow> received = length (concat chunks) \<Longrightarrow> received \<le> maximum \<Longrightarrow>
     bs = concat (chunks @ chunks_before_done script) \<and> length bs \<le> maximum \<and>
     (\<exists>now. (now, ReadDone) \<in> set script \<and> now < deadline)"
proof (induction deadline maximum script received chunks rule: read_loop.induct)
  case (2 deadline maximum now outcome script received chunks)
  show ?case
  proof (cases outcome)
    case (ReadChunk c)
    then have ok: "now < deadline" "received + length c \<le> maximum"
      and r: "read_loop deadline maximum script (received + length c) (chunks @ [c]) = Inr bs"
      using "2.prems"(1) by (auto split: if_splits)
    have "\<not> deadline - now \<le> 0" using ok(1) by simp
    from "2.IH" [OF this ReadChunk _ r] ok(2) "2.prems"(2)
    show ?thesis by (auto simp: ReadChunk)
  qed (use "2.prems" in \<open>auto split: if_splits\<close>)
qed simp

text \<open>A response that is read successfully is at most the limit long and is exactly what the body
  sent, however it was cut into chunks; and its end came before the deadline.
\<close>

theorem bounded_read_exact:
  "read_bounded_response content_length maximum deadline body = Inr bs \<Longrightarrow>
     length bs \<le> maximum \<and>
     (case body of
        BodyStream script \<Rightarrow> bs = concat (chunks_before_done script) \<and>
          (\<exists>now. (now, ReadDone) \<in> set script \<and> now < deadline)
      | NoBody now outcome \<Rightarrow> outcome = Inr bs \<and> now < deadline)"
proof (cases body)
  case (BodyStream script)
  assume "read_bounded_response content_length maximum deadline body = Inr bs"
  then have "read_loop deadline maximum script 0 [] = Inr bs"
    by (auto simp: read_bounded_response_def sum_bind_Inr_iff BodyStream)
  from read_loop_Inr [OF this] show ?thesis by (auto simp: BodyStream)
next
  case (NoBody now outcome)
  assume "read_bounded_response content_length maximum deadline body = Inr bs"
  then have "\<not> deadline - now \<le> 0" "outcome = Inr bs"
    "assert_media_byte_length (num_of (length bs)) (num_of maximum) = Inr ()"
    by (auto simp: read_bounded_response_def sum_bind_Inr_iff NoBody split: if_splits)
  then show ?thesis
    by (auto simp: NoBody assert_media_byte_length_def num_of_def num_nat_def is_safe_non_negative_def split: if_splits)
qed

theorem bounded_read_exact_witness:
  "length [1, 2, 3 :: 8 word] \<le> 4"
proof -
  have "read_bounded_response None 4 10 (BodyStream [(1, ReadChunk [1, 2]), (2, ReadChunk [3]), (3, ReadDone)]) =
      Inr [1, 2, 3]"
    by (simp add: read_bounded_response_def)
  from bounded_read_exact [OF this] show ?thesis by simp
qed

text \<open>Pasting at a selection keeps the text before and after it, clamped to the text, puts the caret
  after the inserted text, and replaces exactly the selection when it lies within the text.
\<close>

theorem insertion_keeps_text:
  "\<exists>a b. a \<le> b \<and> b \<le> length val \<and>
     insert_at_selection val insertion start stop = (take a val @ insertion @ drop b val, a + length insertion) \<and>
     (0 \<le> start \<and> start \<le> stop \<and> stop \<le> int (length val) \<longrightarrow> int a = start \<and> int b = stop)"
proof -
  define a where "a = nat (max 0 (min start (int (length val))))"
  define b where "b = nat (max (max 0 (min start (int (length val)))) (min stop (int (length val))))"
  have ab: "a \<le> b" "b \<le> length val" by (auto simp: a_def b_def)
  moreover have "insert_at_selection val insertion start stop = (take a val @ insertion @ drop b val, a + length insertion)"
    by (simp add: insert_at_selection_def Let_def a_def b_def)
  moreover have "0 \<le> start \<and> start \<le> stop \<and> stop \<le> int (length val) \<longrightarrow> int a = start \<and> int b = stop"
    by (auto simp: a_def b_def)
  ultimately show ?thesis by blast
qed

theorem insertion_keeps_text_witness: "insert_at_selection ''abcd'' ''X'' 1 2 = (''aXcd'', 2)"
  using insertion_keeps_text [of "''abcd''" "''X''" 1 2] by auto

end
