(* ===== verification/Worker_Tasks.thy ===== *)
theory Worker_Tasks
  imports Effects
begin

text \<open>
  Event handlers that share a promise queue. A handler runs like a program of \<open>Effects\<close>, except
  that it may hand an operation to the queue and wait for its result: queued operations run one at a
  time, in the order they were handed over, whether or not the ones before them failed. Handlers and
  the operation at the head of the queue interleave freely. The lemmas give the discipline of the
  queue, the end of every execution, and two ways to prove something of all interleavings.
\<close>

section \<open>Handlers\<close>

datatype ('w, 'e, 'q, 'x, 'a) task =
    TRet 'a
  | TRaise 'x
  | TAct "'w \<Rightarrow> ('w, 'e, 'q, 'x, 'a) task \<times> 'w"
  | TQueue "('w, 'e, 'q) prog" "'e + 'q \<Rightarrow> ('w, 'e, 'q, 'x, 'a) task"

primrec bindT ::
  "('w, 'e, 'q, 'x, 'a) task \<Rightarrow> ('a \<Rightarrow> ('w, 'e, 'q, 'x, 'b) task) \<Rightarrow> ('w, 'e, 'q, 'x, 'b) task" where
  "bindT (TRet a) k = k a"
| "bindT (TRaise x) k = TRaise x"
| "bindT (TAct f) k = TAct (\<lambda>w. map_prod (\<lambda>t. bindT t k) id (f w))"
| "bindT (TQueue p c) k = TQueue p (\<lambda>r. bindT (c r) k)"

primrec catchT ::
  "('w, 'e, 'q, 'x, 'a) task \<Rightarrow> ('x \<Rightarrow> ('w, 'e, 'q, 'y, 'a) task) \<Rightarrow> ('w, 'e, 'q, 'y, 'a) task" where
  "catchT (TRet a) h = TRet a"
| "catchT (TRaise x) h = h x"
| "catchT (TAct f) h = TAct (\<lambda>w. map_prod (\<lambda>t. catchT t h) id (f w))"
| "catchT (TQueue p c) h = TQueue p (\<lambda>r. catchT (c r) h)"

text \<open>A program as a handler that does not use the queue, and an operation awaited on the queue.\<close>

primrec lift_prog :: "('w, 'x, 'a) prog \<Rightarrow> ('w, 'e, 'q, 'x, 'a) task" where
  "lift_prog (Ret a) = TRet a"
| "lift_prog (Raise x) = TRaise x"
| "lift_prog (Act f) = TAct (\<lambda>w. map_prod lift_prog id (f w))"

definition queued :: "('w, 'e, 'q) prog \<Rightarrow> ('w, 'e, 'q, 'e, 'q) task" where
  "queued p = TQueue p (\<lambda>r. case r of Inl e \<Rightarrow> TRaise e | Inr q \<Rightarrow> TRet q)"

lemma task_induct [case_names TRet TRaise TAct TQueue]:
  assumes "\<And>a. P (TRet a)" and "\<And>x. P (TRaise x)"
    and "\<And>f. (\<And>w. P (fst (f w))) \<Longrightarrow> P (TAct f)"
    and "\<And>p k. (\<And>r. P (k r)) \<Longrightarrow> P (TQueue p k)"
  shows "P t"
proof (induction t)
  case (TAct f)
  then have "P (fst (f w))" for w by (meson fsts.intros rangeI)
  then show ?case by (rule assms(3))
next
  case (TQueue p k)
  then show ?case by (intro assms(4)) blast
qed (use assms in auto)

section \<open>The worker\<close>

text \<open>A handler is running, or waits for an operation that has not finished.\<close>

datatype ('w, 'e, 'q, 'x, 'a) task_state =
    Running "('w, 'e, 'q, 'x, 'a) task"
  | Waiting "('w, 'e, 'q) prog" "'e + 'q \<Rightarrow> ('w, 'e, 'q, 'x, 'a) task"

record ('w, 'e, 'q, 'x, 'a) worker =
  wk_world :: 'w
  wk_tasks :: "('w, 'e, 'q, 'x, 'a) task_state list"
  wk_queue :: "nat list"

inductive work_step ::
  "('w, 'e, 'q, 'x, 'a) worker \<Rightarrow> ('w, 'e, 'q, 'x, 'a) worker \<Rightarrow> bool" where
  act: "i < length (wk_tasks s) \<Longrightarrow> wk_tasks s ! i = Running (TAct f) \<Longrightarrow> f (wk_world s) = (t, w) \<Longrightarrow>
     work_step s (s\<lparr>wk_world := w, wk_tasks := (wk_tasks s)[i := Running t]\<rparr>)"
| enqueue: "i < length (wk_tasks s) \<Longrightarrow> wk_tasks s ! i = Running (TQueue p k) \<Longrightarrow>
     work_step s (s\<lparr>wk_tasks := (wk_tasks s)[i := Waiting p k], wk_queue := wk_queue s @ [i]\<rparr>)"
| operate: "wk_queue s = i # q \<Longrightarrow> i < length (wk_tasks s) \<Longrightarrow> wk_tasks s ! i = Waiting (Act f) k \<Longrightarrow>
     f (wk_world s) = (p, w) \<Longrightarrow>
     work_step s (s\<lparr>wk_world := w, wk_tasks := (wk_tasks s)[i := Waiting p k]\<rparr>)"
| return: "wk_queue s = i # q \<Longrightarrow> i < length (wk_tasks s) \<Longrightarrow> wk_tasks s ! i = Waiting (Ret a) k \<Longrightarrow>
     work_step s (s\<lparr>wk_tasks := (wk_tasks s)[i := Running (k (Inr a))], wk_queue := q\<rparr>)"
| fail: "wk_queue s = i # q \<Longrightarrow> i < length (wk_tasks s) \<Longrightarrow> wk_tasks s ! i = Waiting (Raise e) k \<Longrightarrow>
     work_step s (s\<lparr>wk_tasks := (wk_tasks s)[i := Running (k (Inl e))], wk_queue := q\<rparr>)"

text \<open>
  What can happen to a worker: its own steps, an event that starts a handler, and the effect
  of the world outside, which the predicate \<open>rely\<close> limits.
\<close>

inductive worker_step ::
  "(('w, 'e, 'q, 'x, 'a) task \<Rightarrow> bool) \<Rightarrow> ('w \<Rightarrow> 'w \<Rightarrow> bool) \<Rightarrow>
     ('w, 'e, 'q, 'x, 'a) worker \<Rightarrow> ('w, 'e, 'q, 'x, 'a) worker \<Rightarrow> bool"
  for handler rely where
  work: "work_step s s' \<Longrightarrow> worker_step handler rely s s'"
| arrive: "handler t \<Longrightarrow> worker_step handler rely s (s\<lparr>wk_tasks := wk_tasks s @ [Running t]\<rparr>)"
| outside: "rely (wk_world s) w \<Longrightarrow> worker_step handler rely s (s\<lparr>wk_world := w\<rparr>)"

inductive worker_reachable ::
  "(('w, 'e, 'q, 'x, 'a) task \<Rightarrow> bool) \<Rightarrow> ('w \<Rightarrow> 'w \<Rightarrow> bool) \<Rightarrow> ('w, 'e, 'q, 'x, 'a) worker \<Rightarrow> bool"
  for handler rely where
  start: "worker_reachable handler rely \<lparr>wk_world = w, wk_tasks = [], wk_queue = []\<rparr>"
| step: "worker_reachable handler rely s \<Longrightarrow> worker_step handler rely s s' \<Longrightarrow> worker_reachable handler rely s'"

inductive_cases work_stepE: "work_step s s'"
inductive_cases worker_stepE: "worker_step handler rely s s'"

section \<open>The queue\<close>

definition waiting :: "('w, 'e, 'q, 'x, 'a) task_state \<Rightarrow> bool" where
  "waiting t = (case t of Waiting p k \<Rightarrow> True | Running _ \<Rightarrow> False)"

lemma waiting_simps [simp]: "waiting (Waiting p k)" "\<not> waiting (Running t)"
  by (simp_all add: waiting_def)

definition waiting_set :: "('w, 'e, 'q, 'x, 'a) task_state list \<Rightarrow> nat set" where
  "waiting_set ts = {i. i < length ts \<and> waiting (ts ! i)}"

lemma waiting_set_update:
  "i < length ts \<Longrightarrow> waiting_set (ts[i := t]) = (if waiting t then insert i (waiting_set ts) else waiting_set ts - {i})"
  by (auto simp: waiting_set_def nth_list_update)

lemma waiting_set_same:
  assumes "i < length ts" and "waiting t = waiting (ts ! i)"
  shows "waiting_set (ts[i := t]) = waiting_set ts"
  using assms by (auto simp: waiting_set_def nth_list_update)

lemma waiting_set_append [simp]: "waiting_set (ts @ [Running t]) = waiting_set ts"
  by (auto simp: waiting_set_def nth_append less_Suc_eq)

text \<open>The queue names each waiting handler once.\<close>

definition queue_ok :: "('w, 'e, 'q, 'x, 'a) worker \<Rightarrow> bool" where
  "queue_ok s \<longleftrightarrow> distinct (wk_queue s) \<and> set (wk_queue s) = waiting_set (wk_tasks s)"

lemma queue_waits: "queue_ok s \<Longrightarrow> i \<in> set (wk_queue s) \<Longrightarrow> i < length (wk_tasks s) \<and> waiting (wk_tasks s ! i)"
  by (simp add: queue_ok_def waiting_set_def)

lemma work_step_queue: "work_step s s' \<Longrightarrow> queue_ok s \<Longrightarrow> queue_ok s'"
proof (induction rule: work_step.induct)
  case (enqueue i s p k)
  then have "i \<notin> set (wk_queue s)" using queue_waits by force
  then show ?case using enqueue by (auto simp: queue_ok_def waiting_set_update)
next
  case (return s i q a k)
  then show ?case by (auto simp: queue_ok_def waiting_set_update)
next
  case (fail s i q e k)
  then show ?case by (auto simp: queue_ok_def waiting_set_update)
qed (simp_all add: queue_ok_def waiting_set_same)

lemma worker_step_queue: "worker_step handler rely s s' \<Longrightarrow> queue_ok s \<Longrightarrow> queue_ok s'"
proof (induction rule: worker_step.induct)
  case (work s s')
  then show ?case by (rule work_step_queue)
qed (simp_all add: queue_ok_def)

lemma reachable_queue: "worker_reachable handler rely s \<Longrightarrow> queue_ok s"
proof (induction rule: worker_reachable.induct)
  case (step s s')
  show ?case by (rule worker_step_queue [OF step.hyps(2) step.IH])
qed (simp add: queue_ok_def waiting_set_def)

section \<open>Every execution ends\<close>

definition settled :: "('w, 'e, 'q, 'x, 'a) task_state \<Rightarrow> bool" where
  "settled t = (case t of Running (TRet _) \<Rightarrow> True | Running (TRaise _) \<Rightarrow> True | _ \<Rightarrow> False)"

inductive moves ::
  "('w, 'e, 'q, 'x, 'a) task_state \<Rightarrow> ('w, 'e, 'q, 'x, 'a) task_state \<Rightarrow> bool" where
  "moves (Running (fst (f w))) (Running (TAct f))"
| "moves (Waiting p k) (Running (TQueue p k))"
| "moves (Waiting (fst (f w)) k) (Waiting (Act f) k)"
| "moves (Running (k (Inr a))) (Waiting (Ret a) k)"
| "moves (Running (k (Inl e))) (Waiting (Raise e) k)"

inductive_simps moves_simps:
  "moves x (Running (TRet a))" "moves x (Running (TRaise e))" "moves x (Running (TAct f))"
  "moves x (Running (TQueue p k))" "moves x (Waiting (Act f) k)" "moves x (Waiting (Ret a) k)"
  "moves x (Waiting (Raise e) k)"

lemma moves_Waiting:
  assumes "\<And>r. Wellfounded.accp moves (Running (k r))"
  shows "Wellfounded.accp moves (Waiting p k)"
proof (induction p rule: prog_induct)
  case (Ret a)
  show ?case by (rule accp.accI) (simp add: moves_simps assms)
next
  case (Raise e)
  show ?case by (rule accp.accI) (simp add: moves_simps assms)
next
  case (Act f)
  show ?case
  proof (rule accp.accI)
    fix y assume "moves y (Waiting (Act f) k)"
    then obtain w where "y = Waiting (fst (f w)) k" by (auto simp: moves_simps)
    then show "Wellfounded.accp moves y" using Act by simp
  qed
qed

lemma moves_Running: "Wellfounded.accp moves (Running t)"
proof (induction t rule: task_induct)
  case (TAct f)
  show ?case
  proof (rule accp.accI)
    fix y assume "moves y (Running (TAct f))"
    then obtain w where "y = Running (fst (f w))" by (auto simp: moves_simps)
    then show "Wellfounded.accp moves y" using TAct by simp
  qed
next
  case (TQueue p k)
  show ?case by (rule accp.accI) (simp add: moves_simps moves_Waiting TQueue)
qed (rule accp.accI, simp add: moves_simps)+

lemma wf_moves: "wfp moves"
proof (rule accp_wfpI, rule allI)
  fix x show "Wellfounded.accp moves x"
    by (cases x) (simp_all add: moves_Running moves_Waiting)
qed

lemma moves_update:
  "i < length ts \<Longrightarrow> moves t (ts ! i) \<Longrightarrow> (ts[i := t], ts) \<in> listrel1 {(x, y). moves x y}"
  by (metis (mono_tags, lifting) case_prodI id_take_nth_drop listrel1I mem_Collect_eq upd_conv_take_nth_drop)

lemma work_step_moves:
  "work_step s s' \<Longrightarrow> (wk_tasks s', wk_tasks s) \<in> listrel1 {(x, y). moves x y}"
proof (induction rule: work_step.induct)
  case (act i s f t w)
  then have "moves (Running t) (wk_tasks s ! i)" using moves.intros(1) [of f "wk_world s"] by simp
  then show ?case using act(1) by (simp add: moves_update)
next
  case (operate s i q f k p w)
  then have "moves (Waiting p k) (wk_tasks s ! i)" using moves.intros(3) [of f "wk_world s" k] by simp
  then show ?case using operate(2) by (simp add: moves_update)
qed (simp_all add: moves_update moves.intros)

lemma work_ends: "wfp (\<lambda>s' s. work_step s s')"
proof -
  have "wf (inv_image (listrel1 {(x, y). moves x y}) wk_tasks)"
    using wf_moves by (intro wf_inv_image) (simp add: wfp_def)
  moreover have "{(s', s). work_step s s'} \<subseteq> inv_image (listrel1 {(x, y). moves x y}) wk_tasks"
    using work_step_moves by (auto simp: inv_image_def)
  ultimately show ?thesis by (auto simp: wfp_def intro: wf_subset)
qed

text \<open>A worker that cannot move has settled every handler: nothing blocks the queue.\<close>

lemma work_progress:
  assumes q: "queue_ok s" and stuck: "\<And>s'. \<not> work_step s s'"
  shows "list_all settled (wk_tasks s)"
proof -
  have no_wait: "wk_queue s = []"
  proof (cases "wk_queue s")
    case (Cons j js)
    then have j: "j < length (wk_tasks s)" "waiting (wk_tasks s ! j)" using queue_waits [OF q, of j] by simp_all
    then obtain p k where t: "wk_tasks s ! j = Waiting p k" by (auto simp: waiting_def split: task_state.splits)
    show ?thesis
    proof (cases p)
      case (Ret a)
      then show ?thesis using work_step.return [OF Cons j(1)] t stuck by blast
    next
      case (Raise e)
      then show ?thesis using work_step.fail [OF Cons j(1)] t stuck by blast
    next
      case (Act f)
      then show ?thesis using work_step.operate [OF Cons j(1) _ surjective_pairing] t stuck by blast
    qed
  qed simp
  have "settled (wk_tasks s ! i)" if i: "i < length (wk_tasks s)" for i
  proof (cases "wk_tasks s ! i")
    case (Running t)
    then show ?thesis
    proof (cases t)
      case (TAct f)
      then show ?thesis using work_step.act [OF i _ surjective_pairing] Running stuck by blast
    next
      case (TQueue p k)
      then show ?thesis using work_step.enqueue [OF i] Running stuck by blast
    qed (simp_all add: Running settled_def)
  next
    case (Waiting p k)
    then have "i \<in> set (wk_queue s)" using q i by (simp add: queue_ok_def waiting_set_def)
    then show ?thesis using no_wait by simp
  qed
  then show ?thesis by (simp add: list_all_length)
qed

section \<open>What the operation at the head knows\<close>

text \<open>
  A view is knowledge of the world that only the operation at the head of the queue changes.
  \<open>op_ok sees good p c\<close>: started with the view \<open>c\<close>, every action of \<open>p\<close> is a \<open>good\<close> step and leaves
  some view for the rest. \<open>task_ok\<close>: the handler's own actions are good and disturb no view, and
  every operation it queues is fine whatever the view it finds.
\<close>

primrec op_ok :: "('c \<Rightarrow> 'w \<Rightarrow> bool) \<Rightarrow> ('w \<Rightarrow> 'w \<Rightarrow> bool) \<Rightarrow> ('w, 'e, 'q) prog \<Rightarrow> 'c \<Rightarrow> bool" where
  "op_ok sees good (Ret a) = (\<lambda>c. True)"
| "op_ok sees good (Raise e) = (\<lambda>c. True)"
| "op_ok sees good (Act f) = (\<lambda>c. \<forall>w. sees c w \<longrightarrow> good w (snd (f w)) \<and>
     (\<exists>c'. sees c' (snd (f w)) \<and> fst (map_prod (op_ok sees good) id (f w)) c'))"

lemma op_ok_Act [simp]:
  "op_ok sees good (Act f) c \<longleftrightarrow>
     (\<forall>w. sees c w \<longrightarrow> good w (snd (f w)) \<and> (\<exists>c'. sees c' (snd (f w)) \<and> op_ok sees good (fst (f w)) c'))"
  by simp

declare op_ok.simps(3) [simp del]

primrec task_ok ::
  "('c \<Rightarrow> 'w \<Rightarrow> bool) \<Rightarrow> ('w \<Rightarrow> 'w \<Rightarrow> bool) \<Rightarrow> ('w \<Rightarrow> 'w \<Rightarrow> bool) \<Rightarrow> ('w, 'e, 'q, 'x, 'a) task \<Rightarrow> bool" where
  "task_ok sees good quiet (TRet a) = True"
| "task_ok sees good quiet (TRaise x) = True"
| "task_ok sees good quiet (TAct f) =
     (\<forall>w. good w (snd (f w)) \<and> quiet w (snd (f w)) \<and> fst (map_prod (task_ok sees good quiet) id (f w)))"
| "task_ok sees good quiet (TQueue p k) = ((\<forall>c. op_ok sees good p c) \<and> (\<forall>r. task_ok sees good quiet (k r)))"

lemma task_ok_TAct [simp]:
  "task_ok sees good quiet (TAct f) \<longleftrightarrow>
     (\<forall>w. good w (snd (f w)) \<and> quiet w (snd (f w)) \<and> task_ok sees good quiet (fst (f w)))"
  by simp

declare task_ok.simps(3) [simp del]

lemma task_ok_bindT [intro]:
  "task_ok sees good quiet t \<Longrightarrow> (\<And>a. task_ok sees good quiet (k a)) \<Longrightarrow> task_ok sees good quiet (bindT t k)"
  by (induction t rule: task_induct) simp_all

lemma task_ok_catchT [intro]:
  "task_ok sees good quiet t \<Longrightarrow> (\<And>x. task_ok sees good quiet (h x)) \<Longrightarrow> task_ok sees good quiet (catchT t h)"
  by (induction t rule: task_induct) simp_all

lemma task_ok_lift:
  "acts_in (\<lambda>w w'. good w w' \<and> quiet w w') p \<Longrightarrow> task_ok sees good quiet (lift_prog p)"
  by (induction p rule: prog_induct) simp_all

lemma task_ok_queued: "(\<And>c. op_ok sees good p c) \<Longrightarrow> task_ok sees good quiet (queued p)"
  by (simp add: queued_def split: sum.split)

text \<open>
  The contract of a queue: handlers and the world outside keep every view, and some view always fits.
\<close>

locale queue_views =
  fixes sees :: "'c \<Rightarrow> 'w \<Rightarrow> bool" and good :: "'w \<Rightarrow> 'w \<Rightarrow> bool" and quiet :: "'w \<Rightarrow> 'w \<Rightarrow> bool"
  assumes some_view: "\<exists>c. sees c w"
    and quiet_keeps: "sees c w \<Longrightarrow> quiet w w' \<Longrightarrow> sees c w'"
    and good_refl: "good w w"
begin

definition state_ok :: "'w \<Rightarrow> bool \<Rightarrow> ('w, 'e, 'q, 'x, 'a) task_state \<Rightarrow> bool" where
  "state_ok w front t \<longleftrightarrow>
     (case t of
        Running t \<Rightarrow> task_ok sees good quiet t
      | Waiting p k \<Rightarrow> (\<forall>r. task_ok sees good quiet (k r)) \<and>
          (if front then \<exists>c. sees c w \<and> op_ok sees good p c else \<forall>c. op_ok sees good p c))"

lemma state_ok_simps [simp]:
  "state_ok w front (Running t) = task_ok sees good quiet t"
  "state_ok w front (Waiting p k) \<longleftrightarrow> (\<forall>r. task_ok sees good quiet (k r)) \<and>
     (if front then \<exists>c. sees c w \<and> op_ok sees good p c else \<forall>c. op_ok sees good p c)"
  by (simp_all add: state_ok_def)

lemma state_ok_front: "state_ok w False t \<Longrightarrow> state_ok w b t"
  using some_view [of w] by (cases t; cases b) auto

lemma state_ok_quiet: "state_ok w b t \<Longrightarrow> quiet w w' \<Longrightarrow> state_ok w' b t"
  by (cases t; cases b) (auto intro: quiet_keeps)

lemma state_ok_behind: "state_ok w False t \<Longrightarrow> state_ok w' False t"
  by (cases t) auto

definition front :: "nat list \<Rightarrow> nat \<Rightarrow> bool" where
  "front q i \<longleftrightarrow> q \<noteq> [] \<and> hd q = i"

lemma front_simps [simp]: "\<not> front [] i" "front (j # q) i \<longleftrightarrow> j = i" "q \<noteq> [] \<Longrightarrow> front (q @ r) i = front q i"
  by (simp_all add: front_def)

definition views_ok :: "'w \<Rightarrow> ('w, 'e, 'q, 'x, 'a) task_state list \<Rightarrow> nat list \<Rightarrow> bool" where
  "views_ok w ts q \<longleftrightarrow> (\<forall>i < length ts. state_ok w (front q i) (ts ! i))"

lemma views_state: "views_ok w ts q \<Longrightarrow> i < length ts \<Longrightarrow> state_ok w (front q i) (ts ! i)"
  by (simp add: views_ok_def)

lemma views_update:
  assumes "\<And>j. j < length ts \<Longrightarrow> j \<noteq> i \<Longrightarrow> state_ok w (front q j) (ts ! j)" and "state_ok w (front q i) t"
  shows "views_ok w (ts[i := t]) q"
  unfolding views_ok_def
proof (intro allI impI)
  fix j assume "j < length (ts[i := t])"
  then show "state_ok w (front q j) (ts[i := t] ! j)" using assms by (cases "j = i") simp_all
qed

lemma views_run:
  assumes "views_ok w ts q" and "i < length ts" and "ts ! i = Running t"
  shows "task_ok sees good quiet t"
  using views_state [OF assms(1,2)] assms(3) by simp

lemma views_head:
  assumes "views_ok w ts (i # q)" and "i < length ts" and "ts ! i = Waiting p k"
  shows "(\<forall>r. task_ok sees good quiet (k r)) \<and> (\<exists>c. sees c w \<and> op_ok sees good p c)"
  using views_state [OF assms(1,2)] assms(3) by simp

lemma views_quiet: "views_ok w ts q \<Longrightarrow> quiet w w' \<Longrightarrow> views_ok w' ts q"
  by (auto simp: views_ok_def intro: state_ok_quiet)

lemma views_running: "views_ok w ts q \<Longrightarrow> task_ok sees good quiet t \<Longrightarrow> views_ok w (ts[i := Running t]) q"
  by (intro views_update) (simp_all add: views_state)

lemma views_enqueue:
  assumes v: "views_ok w ts q" and p: "\<And>c. op_ok sees good p c" and k: "\<And>r. task_ok sees good quiet (k r)"
  shows "views_ok w (ts[i := Waiting p k]) (q @ [i])"
proof (rule views_update)
  fix j assume j: "j < length ts" "j \<noteq> i"
  then show "state_ok w (front (q @ [i]) j) (ts ! j)" using views_state [OF v j(1)] by (cases "q = []") simp_all
next
  have "state_ok w False (Waiting p k)" using p k by auto
  then show "state_ok w (front (q @ [i]) i) (Waiting p k)" by (rule state_ok_front)
qed

lemma views_operate:
  assumes v: "views_ok w ts (i # q)" and p: "sees c w'" "op_ok sees good p c" and k: "\<And>r. task_ok sees good quiet (k r)"
  shows "views_ok w' (ts[i := Waiting p k]) (i # q)"
proof (rule views_update)
  fix j assume j: "j < length ts" "j \<noteq> i"
  then have "state_ok w False (ts ! j)" using views_state [OF v j(1)] by simp
  then show "state_ok w' (front (i # q) j) (ts ! j)" using j by (simp add: state_ok_behind)
next
  show "state_ok w' (front (i # q) i) (Waiting p k)" using p k by auto
qed

lemma views_pop:
  assumes v: "views_ok w ts (i # q)" and t: "task_ok sees good quiet t"
  shows "views_ok w (ts[i := Running t]) q"
proof (rule views_update)
  fix j assume j: "j < length ts" "j \<noteq> i"
  then have "state_ok w False (ts ! j)" using views_state [OF v j(1)] by simp
  then show "state_ok w (front q j) (ts ! j)" by (rule state_ok_front)
qed (use t in simp)

lemma views_work:
  "work_step s s' \<Longrightarrow> queue_ok s \<Longrightarrow> views_ok (wk_world s) (wk_tasks s) (wk_queue s) \<Longrightarrow>
     good (wk_world s) (wk_world s') \<and> views_ok (wk_world s') (wk_tasks s') (wk_queue s')"
proof (induction rule: work_step.induct)
  case (act i s f t w)
  then have "task_ok sees good quiet (TAct f)" using views_run by blast
  then have "good (wk_world s) w" "quiet (wk_world s) w" "task_ok sees good quiet t"
    using act(3) by (metis fst_conv snd_conv task_ok_TAct)+
  then show ?case using act by (simp add: views_running views_quiet)
next
  case (enqueue i s p k)
  then have "task_ok sees good quiet (TQueue p k)" using views_run by blast
  then show ?case using enqueue by (simp add: views_enqueue good_refl)
next
  case (operate s i q f k p w)
  then obtain c where c: "\<forall>r. task_ok sees good quiet (k r)" "sees c (wk_world s)" "op_ok sees good (Act f) c"
    using views_head by metis
  then obtain c' where "good (wk_world s) w" "sees c' w" "op_ok sees good p c'"
    using operate(4) by (metis fst_conv snd_conv op_ok_Act)
  then show ?case using operate c(1) by (simp add: views_operate)
next
  case (return s i q a k)
  then have "\<forall>r. task_ok sees good quiet (k r)" using views_head by metis
  then show ?case using return by (simp add: views_pop good_refl)
next
  case (fail s i q e k)
  then have "\<forall>r. task_ok sees good quiet (k r)" using views_head by metis
  then show ?case using fail by (simp add: views_pop good_refl)
qed

lemma views_arrive:
  assumes v: "views_ok w ts q" and t: "task_ok sees good quiet t"
  shows "views_ok w (ts @ [Running t]) q"
  using v t by (simp add: views_ok_def nth_append less_Suc_eq)

lemma views_reachable:
  assumes handlers: "\<And>t. handler t \<Longrightarrow> task_ok sees good quiet t" and rely: "\<And>w w'. rely w w' \<Longrightarrow> quiet w w'"
  shows "worker_reachable handler rely s \<Longrightarrow> queue_ok s \<and> views_ok (wk_world s) (wk_tasks s) (wk_queue s)"
proof (induction rule: worker_reachable.induct)
  case (step s s')
  then have q: "queue_ok s" "queue_ok s'" using worker_step_queue by blast+
  from step(2) have "views_ok (wk_world s') (wk_tasks s') (wk_queue s')"
  proof (cases rule: worker_step.cases)
    case work
    then show ?thesis using views_work q(1) step.IH by blast
  next
    case (arrive t)
    then show ?thesis using arrive handlers step.IH by (simp add: views_arrive)
  next
    case (outside w)
    then show ?thesis using step.IH rely by (auto intro: views_quiet)
  qed
  then show ?case using q(2) by blast
qed (simp add: views_ok_def queue_ok_def waiting_set_def)

lemma good_step:
  assumes "\<And>t. handler t \<Longrightarrow> task_ok sees good quiet t" and "\<And>w w'. rely w w' \<Longrightarrow> quiet w w'"
    and "worker_reachable handler rely s" and "work_step s s'"
  shows "good (wk_world s) (wk_world s')"
  using views_work [OF assms(4)] views_reachable [OF assms(1,2,3)] by blast

end

section \<open>What a handler has done when it ends\<close>

text \<open>
  \<open>calls w w'\<close> lists what a step from \<open>w\<close> to \<open>w'\<close> did, the latest first; steps that only hand over or
  return change no world and do nothing. \<open>op_ends calls Q p cs\<close>: whatever the others do, when \<open>p\<close>
  ends with the outcome \<open>r\<close> then \<open>Q cs' r\<close> holds, where \<open>cs'\<close> is \<open>cs\<close> with what its own actions did
  in front.
\<close>

primrec op_ends ::
  "('w \<Rightarrow> 'w \<Rightarrow> 'c list) \<Rightarrow> ('c list \<Rightarrow> 'e + 'q \<Rightarrow> bool) \<Rightarrow> ('w, 'e, 'q) prog \<Rightarrow> 'c list \<Rightarrow> bool" where
  "op_ends calls Q (Ret a) = (\<lambda>cs. Q cs (Inr a))"
| "op_ends calls Q (Raise e) = (\<lambda>cs. Q cs (Inl e))"
| "op_ends calls Q (Act f) =
     (\<lambda>cs. \<forall>w. fst (map_prod (op_ends calls Q) id (f w)) (calls w (snd (f w)) @ cs))"

lemma op_ends_Act [simp]:
  "op_ends calls Q (Act f) cs \<longleftrightarrow> (\<forall>w. op_ends calls Q (fst (f w)) (calls w (snd (f w)) @ cs))"
  by simp

declare op_ends.simps(3) [simp del]

primrec task_ends ::
  "('w \<Rightarrow> 'w \<Rightarrow> 'c list) \<Rightarrow> ('c list \<Rightarrow> 'x + 'a \<Rightarrow> bool) \<Rightarrow> ('w, 'e, 'q, 'x, 'a) task \<Rightarrow> 'c list \<Rightarrow> bool" where
  "task_ends calls Q (TRet a) = (\<lambda>cs. Q cs (Inr a))"
| "task_ends calls Q (TRaise x) = (\<lambda>cs. Q cs (Inl x))"
| "task_ends calls Q (TAct f) =
     (\<lambda>cs. \<forall>w. fst (map_prod (task_ends calls Q) id (f w)) (calls w (snd (f w)) @ cs))"
| "task_ends calls Q (TQueue p k) = (\<lambda>cs. op_ends calls (\<lambda>cs r. task_ends calls Q (k r) cs) p cs)"

lemma task_ends_TAct [simp]:
  "task_ends calls Q (TAct f) cs \<longleftrightarrow> (\<forall>w. task_ends calls Q (fst (f w)) (calls w (snd (f w)) @ cs))"
  by simp

declare task_ends.simps(3) [simp del]

lemma op_ends_weaken:
  "op_ends calls Q p cs \<Longrightarrow> (\<And>cs r. Q cs r \<Longrightarrow> R cs r) \<Longrightarrow> op_ends calls R p cs"
  by (induction p arbitrary: cs rule: prog_induct) auto

lemma task_ends_weaken:
  "task_ends calls Q t cs \<Longrightarrow> (\<And>cs r. Q cs r \<Longrightarrow> R cs r) \<Longrightarrow> task_ends calls R t cs"
  by (induction t arbitrary: cs rule: task_induct) (auto elim!: op_ends_weaken)

lemma op_ends_bindP:
  "op_ends calls (\<lambda>cs r. case r of Inl e \<Rightarrow> Q cs (Inl e) | Inr a \<Rightarrow> op_ends calls Q (k a) cs) p cs \<Longrightarrow>
     op_ends calls Q (bindP p k) cs"
  by (induction p arbitrary: cs rule: prog_induct) simp_all

lemma task_ends_bindT:
  "task_ends calls (\<lambda>cs r. case r of Inl x \<Rightarrow> Q cs (Inl x) | Inr a \<Rightarrow> task_ends calls Q (k a) cs) t cs \<Longrightarrow>
     task_ends calls Q (bindT t k) cs"
  by (induction t arbitrary: cs rule: task_induct) (auto elim!: op_ends_weaken)

lemma task_ends_catchT:
  "task_ends calls (\<lambda>cs r. case r of Inl x \<Rightarrow> task_ends calls Q (h x) cs | Inr a \<Rightarrow> Q cs (Inr a)) t cs \<Longrightarrow>
     task_ends calls Q (catchT t h) cs"
  by (induction t arbitrary: cs rule: task_induct) (auto elim!: op_ends_weaken)

lemma task_ends_lift: "op_ends calls Q p cs \<Longrightarrow> task_ends calls Q (lift_prog p) cs"
  by (induction p arbitrary: cs rule: prog_induct) simp_all

lemma task_ends_queued: "op_ends calls Q p cs \<Longrightarrow> task_ends calls Q (queued p) cs"
  by (auto simp: queued_def elim!: op_ends_weaken split: sum.split)

text \<open>A program whose actions do nothing that counts.\<close>

lemma op_ends_still:
  "acts_in (\<lambda>w w'. calls w w' = []) p \<Longrightarrow> (\<And>r. Q cs r) \<Longrightarrow> op_ends calls Q p cs"
  by (induction p rule: prog_induct) simp_all

section \<open>Following one handler\<close>

text \<open>
  \<open>follows handler rely calls i s cs s'\<close>: in a run of the worker from \<open>s\<close> to \<open>s'\<close>, the steps of the
  \<open>i\<close>-th handler and of the operation it waits for have done \<open>cs\<close>, the latest first. Its own steps are
  those that change its state; what other handlers and the world outside do is not in the list.
\<close>

inductive follows ::
  "(('w, 'e, 'q, 'x, 'a) task \<Rightarrow> bool) \<Rightarrow> ('w \<Rightarrow> 'w \<Rightarrow> bool) \<Rightarrow> ('w \<Rightarrow> 'w \<Rightarrow> 'c list) \<Rightarrow> nat \<Rightarrow>
     ('w, 'e, 'q, 'x, 'a) worker \<Rightarrow> 'c list \<Rightarrow> ('w, 'e, 'q, 'x, 'a) worker \<Rightarrow> bool"
  for handler rely calls i s where
  here: "follows handler rely calls i s [] s"
| own: "follows handler rely calls i s cs u \<Longrightarrow> work_step u v \<Longrightarrow> wk_tasks v ! i \<noteq> wk_tasks u ! i \<Longrightarrow>
     follows handler rely calls i s (calls (wk_world u) (wk_world v) @ cs) v"
| other: "follows handler rely calls i s cs u \<Longrightarrow> worker_step handler rely u v \<Longrightarrow> wk_tasks v ! i = wk_tasks u ! i \<Longrightarrow>
     follows handler rely calls i s cs v"

text \<open>Every step of the worker changes the state of exactly one handler, so no step is missed.\<close>

lemma work_step_one:
  "work_step s s' \<Longrightarrow> \<exists>i t. i < length (wk_tasks s) \<and> wk_tasks s' = (wk_tasks s)[i := t] \<and> t \<noteq> wk_tasks s ! i"
proof -
  assume "work_step s s'"
  then have "\<exists>i t. i < length (wk_tasks s) \<and> wk_tasks s' = (wk_tasks s)[i := t] \<and> moves t (wk_tasks s ! i)"
  proof (cases rule: work_step.cases)
    case (act i f t w)
    then have "moves (Running t) (wk_tasks s ! i)" using moves.intros(1) [of f "wk_world s"] by simp
    then show ?thesis using act by fastforce
  next
    case (operate i q f k p w)
    then have "moves (Waiting p k) (wk_tasks s ! i)" using moves.intros(3) [of f "wk_world s" k] by simp
    then show ?thesis using operate by fastforce
  qed (fastforce intro: moves.intros)+
  moreover have "\<not> moves t t" for t :: "('a, 'b, 'c, 'd, 'e) task_state"
    using wf_moves wfp_imp_irreflp irreflpD by metis
  ultimately show ?thesis by metis
qed

lemma worker_step_length: "worker_step handler rely s s' \<Longrightarrow> length (wk_tasks s) \<le> length (wk_tasks s')"
  by (auto elim!: worker_stepE work_stepE)

lemma follows_steps:
  assumes "(worker_step handler rely)\<^sup>*\<^sup>* s s'" and "i < length (wk_tasks s)"
  shows "\<exists>cs. follows handler rely calls i s cs s'"
  using assms(1)
proof (induction rule: rtranclp_induct)
  case (step u v)
  then obtain cs where cs: "follows handler rely calls i s cs u" by blast
  have u: "i < length (wk_tasks u)"
    using step.hyps(1) assms(2) by (induction rule: rtranclp_induct) (auto dest: worker_step_length)
  show ?case
  proof (cases "wk_tasks v ! i = wk_tasks u ! i")
    case True
    then show ?thesis using follows.other [OF cs step.hyps(2)] by blast
  next
    case False
    then have "work_step u v" using step.hyps(2) u by (auto elim!: worker_stepE simp: nth_append)
    then show ?thesis using follows.own [OF cs] False by blast
  qed
qed (auto intro: follows.here)

text \<open>The state of one handler along its steps.\<close>

definition state_ends ::
  "('w \<Rightarrow> 'w \<Rightarrow> 'c list) \<Rightarrow> ('c list \<Rightarrow> 'x + 'a \<Rightarrow> bool) \<Rightarrow> ('w, 'e, 'q, 'x, 'a) task_state \<Rightarrow> 'c list \<Rightarrow> bool" where
  "state_ends calls Q t cs =
     (case t of
        Running t \<Rightarrow> task_ends calls Q t cs
      | Waiting p k \<Rightarrow> op_ends calls (\<lambda>cs r. task_ends calls Q (k r) cs) p cs)"

lemma state_ends_simps [simp]:
  "state_ends calls Q (Running t) cs = task_ends calls Q t cs"
  "state_ends calls Q (Waiting p k) cs = op_ends calls (\<lambda>cs r. task_ends calls Q (k r) cs) p cs"
  by (simp_all add: state_ends_def)

lemma state_ends_own:
  assumes "work_step s s'" and "wk_tasks s' ! i \<noteq> wk_tasks s ! i" and still: "\<And>w. calls w w = []"
    and "state_ends calls Q (wk_tasks s ! i) cs"
  shows "state_ends calls Q (wk_tasks s' ! i) (calls (wk_world s) (wk_world s') @ cs)"
  using assms(1,2,4)
proof (induction rule: work_step.induct)
  case (act j s f t w)
  then have "j = i" by (auto simp: nth_list_update split: if_splits)
  then have "task_ends calls Q t (calls (wk_world s) w @ cs)"
    using act by (metis fst_conv snd_conv state_ends_simps(1) task_ends_TAct)
  then show ?case using \<open>j = i\<close> act(1) by simp
next
  case (operate s j q f k p w)
  then have "j = i" by (auto simp: nth_list_update split: if_splits)
  then have "op_ends calls (\<lambda>cs r. task_ends calls Q (k r) cs) p (calls (wk_world s) w @ cs)"
    using operate by (metis fst_conv snd_conv state_ends_simps(2) op_ends_Act)
  then show ?case using \<open>j = i\<close> operate(2) by simp
qed (auto simp: nth_list_update still split: if_splits)

lemma follows_ends:
  assumes "follows handler rely calls i s cs s'" and "state_ends calls Q (wk_tasks s ! i) []" and "\<And>w. calls w w = []"
  shows "state_ends calls Q (wk_tasks s' ! i) cs"
  using assms(1)
proof (induction rule: follows.induct)
  case here
  then show ?case using assms(2) by simp
next
  case (own cs u v)
  show ?case by (rule state_ends_own [OF own.hyps(2,3) assms(3) own.IH])
qed simp

end
