(* ===== verification/Service_Worker.thy ===== *)
theory Service_Worker
  imports Worker_Tasks Url_Policy Base64 "HOL-Library.Stream"
begin

text \<open>
  public/sw.js, the service worker: the push configuration in IndexedDB, the notifications and the
  badge it shows, and its event handlers. A handler is a task of \<open>Worker_Tasks\<close>; the operations of
  \<open>queuePushConfigMutation\<close> go through the queue. The device is what the worker can change; each call
  of a browser API is one action, which succeeds or fails as the next bit of \<open>dv_oracle\<close> says. So every
  call settles; a transaction that is aborted without an error event, for which two functions of the
  worker would wait forever, is left out.
\<close>

section \<open>The device\<close>

text \<open>A notification: its options that vary, and its data as the worker attaches it.\<close>

record notice =
  nt_tag :: string
  nt_body :: string
  nt_renotify :: bool
  nt_data :: jsval

record sw_client =
  cl_type :: string
  cl_url :: jsval

text \<open>What leaves the worker: messages to pages, requests, navigation, and worker control.\<close>

datatype sw_effect =
    ToPort jsval
  | ToClient nat jsval
  | Request string jsval
  | Navigate nat jsval
  | FocusClient nat
  | OpenWindow string
  | SkipWaiting
  | ClaimClients
  | Subscribed "8 word list"
  | Unsubscribed

record device =
  dv_config :: "jsval option"
  dv_lifecycle :: "jsval option"
  dv_notes :: "notice list"
  dv_shown :: "notice list"
  dv_refused :: "notice list"
  dv_badge :: nat
  dv_clients :: "sw_client list"
  dv_caches :: "string list"
  dv_sent :: "sw_effect list"
  dv_oracle :: "bool stream"

text \<open>
  What is fixed while the worker lives: the SHA-256 hex digest of a value's text, the URL parser and
  \<^verbatim>\<open>new URL(hash, origin).href\<close>, the origin, the stamped build id, whether an earlier worker
  was active, the badge functions of the browser, and the subscription it gives out.
\<close>

record sw_env =
  sw_hash :: "jsval \<Rightarrow> string"
  sw_parse_url :: "string \<Rightarrow> url option"
  sw_href :: "string \<Rightarrow> string"
  sw_origin :: string
  sw_build_id :: string
  sw_had_active :: bool
  sw_can_set_badge :: bool
  sw_can_clear_badge :: bool
  sw_subscription :: jsval

datatype sw_error = PlatformFailure | SwError string

type_synonym 'a sw_op = "(device, sw_error, 'a) prog"
type_synonym ('x, 'a) sw_task = "(device, sw_error, jsval, 'x, 'a) task"

definition platform :: "(device \<Rightarrow> 'a \<times> device) \<Rightarrow> 'a sw_op" where
  "platform f = atom (\<lambda>w.
     let w' = w\<lparr>dv_oracle := stl (dv_oracle w)\<rparr>
     in if shd (dv_oracle w) then map_prod Inr id (f w') else (Inl PlatformFailure, w'))"

definition send :: "sw_effect \<Rightarrow> unit sw_op" where
  "send x = atom (\<lambda>w. (Inr (), w\<lparr>dv_sent := x # dv_sent w\<rparr>))"

definition requested :: "sw_effect \<Rightarrow> unit sw_op" where
  "requested x = platform (\<lambda>w. ((), w\<lparr>dv_sent := x # dv_sent w\<rparr>))"

text \<open>\<^verbatim>\<open>fetch\<close>: rejects, or answers with \<^verbatim>\<open>response.ok\<close> true or false.\<close>

definition fetch_ok :: "sw_effect \<Rightarrow> bool sw_op" where
  "fetch_ok x = platform (\<lambda>w. (shd (dv_oracle w), w\<lparr>dv_sent := x # dv_sent w, dv_oracle := stl (dv_oracle w)\<rparr>))"

definition ignoring :: "unit sw_op \<Rightarrow> unit sw_op" where
  "ignoring p = catchP p (\<lambda>_. Ret ())"

section \<open>Constants\<close>

definition cache_prefix :: string where "cache_prefix = ''sub-etha-''"
definition room_notification_prefix :: string where "room_notification_prefix = ''sub-etha-room:''"
definition generic_notification_tag :: string where "generic_notification_tag = ''sub-etha-generic''"
definition test_notification_tag :: string where "test_notification_tag = ''sub-etha-test''"
definition setup_notification_tag :: string where "setup_notification_tag = ''sub-etha-setup''"
definition fallback_notification_tag :: string where "fallback_notification_tag = ''sub-etha-fallback''"
definition push_protocol_version :: int where "push_protocol_version = 2"
definition offline_csp :: string where
  "offline_csp = ''default-src 'none'; base-uri 'none'; form-action 'none'; frame-ancestors 'none'; object-src 'none'' @ [CHR 0x27]"

text \<open>A room id is a string or missing (null in a push, what the page posts in a message).\<close>

definition room_text :: "jsval \<Rightarrow> string" where
  "room_text v = (case v of JStr s \<Rightarrow> s | _ \<Rightarrow> [])"

definition notification_tag :: "jsval \<Rightarrow> string" where
  "notification_tag room_id =
     (if room_text room_id \<noteq> [] then room_notification_prefix @ room_text room_id else generic_notification_tag)"

section \<open>Badge and notifications\<close>

definition badge_count :: "jsnum \<Rightarrow> nat" where
  "badge_count unread = (case unread of Fin q \<Rightarrow> nat (max 0 (if 0 \<le> q then \<lfloor>q\<rfloor> else \<lceil>q\<rceil>)) | _ \<Rightarrow> 0)"

definition sync_badge :: "sw_env \<Rightarrow> jsnum \<Rightarrow> unit sw_op" where
  "sync_badge E unread =
     (let count = badge_count unread in
      ignoring
        (if count > 0 then
           (if sw_can_set_badge E then platform (\<lambda>w. ((), w\<lparr>dv_badge := count\<rparr>)) else Ret ())
         else if sw_can_clear_badge E then platform (\<lambda>w. ((), w\<lparr>dv_badge := 0\<rparr>)) else Ret ()))"

text \<open>\<^verbatim>\<open>getNotifications\<close> and \<^verbatim>\<open>close\<close> of those that satisfy a condition.\<close>

definition close_notes :: "(notice \<Rightarrow> bool) \<Rightarrow> unit sw_op" where
  "close_notes P = platform (\<lambda>w. ((), w\<lparr>dv_notes := filter (\<lambda>n. \<not> P n) (dv_notes w)\<rparr>))"

definition note_generation :: "notice \<Rightarrow> jsval" where
  "note_generation n = js_opt ''generation'' (nt_data n)"

definition dismiss_room_notification :: "jsval \<Rightarrow> unit sw_op" where
  "dismiss_room_notification room_id =
     (if room_text room_id = [] then Ret () else close_notes (\<lambda>n. nt_tag n = notification_tag room_id))"

definition dismiss_all_notifications :: "unit sw_op" where
  "dismiss_all_notifications = close_notes (\<lambda>_. True)"

definition dismiss_notification_tag :: "string \<Rightarrow> jsval \<Rightarrow> unit sw_op" where
  "dismiss_notification_tag tag generation =
     close_notes (\<lambda>n. nt_tag n = tag \<and> js_same (note_generation n) generation)"

definition dismiss_notifications_for_generation :: "jsval \<Rightarrow> unit sw_op" where
  "dismiss_notifications_for_generation generation =
     (if \<not> is_str generation then Ret () else close_notes (\<lambda>n. js_same (note_generation n) generation))"

text \<open>\<^verbatim>\<open>showNotification\<close>: a notification replaces those with its tag. Two lists of the model keep
  track of the calls, the latest first: \<open>dv_shown\<close> of what was shown, \<open>dv_refused\<close> of what the
  browser refused to show.\<close>

definition show_notification :: "notice \<Rightarrow> unit sw_op" where
  "show_notification n = atom (\<lambda>w.
     let w' = w\<lparr>dv_oracle := stl (dv_oracle w)\<rparr>
     in if shd (dv_oracle w)
        then (Inr (), w'\<lparr>dv_notes := n # filter (\<lambda>m. nt_tag m \<noteq> nt_tag n) (dv_notes w'), dv_shown := n # dv_shown w'\<rparr>)
        else (Inl PlatformFailure, w'\<lparr>dv_refused := n # dv_refused w'\<rparr>))"

definition fallback_note :: notice where
  "fallback_note = \<lparr>nt_tag = fallback_notification_tag, nt_body = ''A new transmission has arrived.'',
     nt_renotify = False, nt_data = JObj [(''kind'', JStr ''fallback'')]\<rparr>"

definition setup_note :: notice where
  "setup_note = \<lparr>nt_tag = setup_notification_tag, nt_body = ''Notifications are ready to receive transmissions.'',
     nt_renotify = False, nt_data = JObj [(''kind'', JStr ''setup'')]\<rparr>"

definition show_fallback_notification :: "unit sw_op" where
  "show_fallback_notification = show_notification fallback_note"

section \<open>The push configuration\<close>

definition write_push_config :: "jsval \<Rightarrow> unit sw_op" where
  "write_push_config v = platform (\<lambda>w. ((), w\<lparr>dv_config := (if truthy v then Some v else None)\<rparr>))"

definition stored_config :: "device \<Rightarrow> jsval" where
  "stored_config w = (case dv_config w of Some v \<Rightarrow> if truthy v then v else JNull | None \<Rightarrow> JNull)"

definition read_push_config :: "jsval sw_op" where
  "read_push_config = platform (\<lambda>w. (stored_config w, w))"

definition clears_config :: "jsval \<Rightarrow> jsval \<Rightarrow> jsval \<Rightarrow> bool" where
  "clears_config expected_generation expected_delivery current \<longleftrightarrow>
     \<not> truthy current
     \<or> (is_str expected_generation \<and> js_same (js_opt ''generation'' current) expected_generation)
     \<or> (\<not> truthy (js_opt ''generation'' current) \<and> is_str expected_delivery
        \<and> js_same (js_opt ''deliveryKey'' current) expected_delivery)"

definition clear_push_config :: "jsval \<Rightarrow> jsval \<Rightarrow> bool sw_op" where
  "clear_push_config expected_generation expected_delivery =
     platform (\<lambda>w. let current = (case dv_config w of Some v \<Rightarrow> v | None \<Rightarrow> JUndef);
                       matched = clears_config expected_generation expected_delivery current
                   in (matched, if matched \<and> truthy current then w\<lparr>dv_config := None\<rparr> else w))"

definition decode_application_server_key :: "jsval \<Rightarrow> 8 word list sw_op" where
  "decode_application_server_key v =
     (case v of
        JStr s \<Rightarrow> (case atob (padded s) of None \<Rightarrow> Raise PlatformFailure | Some bs \<Rightarrow> Ret bs)
      | _ \<Rightarrow> Raise PlatformFailure)"

definition same_push_config :: "jsval \<Rightarrow> jsval \<Rightarrow> bool" where
  "same_push_config left right \<longleftrightarrow>
     truthy left \<and> truthy right
     \<and> js_same (js_opt ''generation'' left) (js_opt ''generation'' right)
     \<and> js_same (js_opt ''deliveryKey'' left) (js_opt ''deliveryKey'' right)
     \<and> js_same (js_opt ''managementKey'' left) (js_opt ''managementKey'' right)"

definition set_push_config :: "sw_env \<Rightarrow> jsval \<Rightarrow> jsval sw_op" where
  "set_push_config E config =
     bindP read_push_config (\<lambda>previous.
     bindP (write_push_config config) (\<lambda>_.
     if truthy previous \<and> \<not> same_push_config previous config then
       bindP (dismiss_notifications_for_generation (js_opt ''generation'' previous)) (\<lambda>_.
       bindP (sync_badge E (Fin 0)) (\<lambda>_. Ret JUndef))
     else Ret JUndef))"

definition hash_push_identifier :: "sw_env \<Rightarrow> jsval \<Rightarrow> string sw_op" where
  "hash_push_identifier E v = platform (\<lambda>w. (sw_hash E v, w))"

definition canonical_generation :: "sw_env \<Rightarrow> jsval \<Rightarrow> string sw_op" where
  "canonical_generation E management_key = hash_push_identifier E management_key"

text \<open>A configuration that already has a generation of its own.\<close>

definition modern_config :: "jsval \<Rightarrow> bool" where
  "modern_config c \<longleftrightarrow>
     is_str (js_opt ''generation'' c) \<and> \<not> js_same (js_opt ''generation'' c) (js_opt ''managementKey'' c)
     \<and> js_opt ''legacyGeneration'' c \<noteq> JBool True"

definition migrate_push_config_in_queue :: "sw_env \<Rightarrow> jsval \<Rightarrow> jsval \<Rightarrow> jsval sw_op" where
  "migrate_push_config_in_queue E generation management_key =
     bindP read_push_config (\<lambda>current.
     if \<not> truthy current \<or> \<not> js_same (js_opt ''managementKey'' current) management_key
     then Raise (SwError ''The legacy push configuration no longer matches this account.'')
     else if modern_config current then Ret current
     else bindP (canonical_generation E management_key) (\<lambda>canonical.
       if generation \<noteq> JStr canonical
       then Raise (SwError ''The legacy push configuration generation is invalid.'')
       else if js_same (js_opt ''generation'' current) generation \<and> js_opt ''legacyGeneration'' current = JBool True
       then Ret current
       else let migrated = with_props current [(''generation'', generation), (''legacyGeneration'', JBool True)]
         in bindP (write_push_config migrated) (\<lambda>_. Ret migrated)))"

definition clear_push_config_for_generation :: "sw_env \<Rightarrow> jsval \<Rightarrow> jsval \<Rightarrow> jsval sw_op" where
  "clear_push_config_for_generation E expected_generation expected_delivery =
     bindP (clear_push_config expected_generation expected_delivery) (\<lambda>cleared.
     if cleared then
       bindP dismiss_all_notifications (\<lambda>_. bindP (sync_badge E (Fin 0)) (\<lambda>_. Ret (JBool cleared)))
     else Ret (JBool cleared))"

definition sync_badge_for_generation :: "sw_env \<Rightarrow> jsval \<Rightarrow> jsnum \<Rightarrow> jsval sw_op" where
  "sync_badge_for_generation E config unread =
     bindP read_push_config (\<lambda>current.
     if \<not> same_push_config config current then Ret JUndef
     else bindP (sync_badge E unread) (\<lambda>_.
       bindP read_push_config (\<lambda>final_config.
       if \<not> same_push_config config final_config \<and> \<not> truthy final_config
       then bindP (sync_badge E (Fin 0)) (\<lambda>_. Ret JUndef)
       else Ret JUndef)))"

definition show_notification_for_generation :: "jsval \<Rightarrow> notice \<Rightarrow> jsval sw_op" where
  "show_notification_for_generation config n =
     bindP read_push_config (\<lambda>current.
     if \<not> same_push_config config current then Ret (JBool False)
     else bindP (show_notification n) (\<lambda>_. Ret (JBool True)))"

definition dismiss_stale_notification :: "jsval \<Rightarrow> string \<Rightarrow> jsval sw_op" where
  "dismiss_stale_notification config tag =
     bindP read_push_config (\<lambda>current.
     if \<not> same_push_config config current
     then bindP (dismiss_notification_tag tag (js_opt ''generation'' config)) (\<lambda>_. Ret JUndef)
     else Ret JUndef)"

end
