(* ===== verification/Worker_Handlers.thy ===== *)
theory Worker_Handlers
  imports Service_Worker
begin

text \<open>
  public/sw.js, the event handlers: installation and activation, the messages of the page, pushes,
  renewal of the subscription, clicks on notifications, and the answers to navigations.
\<close>

section \<open>Lifecycle\<close>

definition write_lifecycle_record :: "jsval \<Rightarrow> unit sw_op" where
  "write_lifecycle_record r = platform (\<lambda>w. ((), w\<lparr>dv_lifecycle := Some r\<rparr>))"

definition read_lifecycle_record :: "jsval sw_op" where
  "read_lifecycle_record = platform (\<lambda>w.
     (case dv_lifecycle w of Some v \<Rightarrow> if truthy v then v else JNull | None \<Rightarrow> JNull, w))"

definition clear_lifecycle_record :: "unit sw_op" where
  "clear_lifecycle_record = platform (\<lambda>w. ((), w\<lparr>dv_lifecycle := None\<rparr>))"

definition same_origin_window_client :: "sw_env \<Rightarrow> sw_client \<Rightarrow> bool" where
  "same_origin_window_client E c \<longleftrightarrow>
     cl_type c = ''window'' \<and>
     (case cl_url c of
        JStr s \<Rightarrow> (case sw_parse_url E s of Some u \<Rightarrow> url_origin u = sw_origin E | None \<Rightarrow> False)
      | _ \<Rightarrow> False)"

text \<open>\<^verbatim>\<open>clients.matchAll({ type: "window" })\<close>, each client with its number.\<close>

definition match_windows :: "(nat \<times> sw_client) list sw_op" where
  "match_windows = platform (\<lambda>w. (filter (\<lambda>(i, c). cl_type c = ''window'') (enumerate 0 (dv_clients w)), w))"

definition lifecycle_valid :: "sw_env \<Rightarrow> jsval \<Rightarrow> bool" where
  "lifecycle_valid E r \<longleftrightarrow>
     truthy r \<and> js_opt ''buildId'' r = JStr (sw_build_id E) \<and>
     (case js_opt ''hadPreviousActiveWorker'' r of JBool b \<Rightarrow> True | _ \<Rightarrow> False)"

definition delete_cache :: "string \<Rightarrow> unit sw_op" where
  "delete_cache key = platform (\<lambda>w. ((), w\<lparr>dv_caches := filter (\<lambda>k. k \<noteq> key) (dv_caches w)\<rparr>))"

definition delete_old_caches :: "unit sw_op" where
  "delete_old_caches =
     ignoring (bindP (platform (\<lambda>w. (dv_caches w, w))) (\<lambda>keys.
       bindP (seqP (map (\<lambda>k. ignoring (delete_cache k)) (filter (prefix cache_prefix) keys))) (\<lambda>_. Ret ())))"

definition activate_service_worker :: "sw_env \<Rightarrow> unit sw_op" where
  "activate_service_worker E =
     bindP read_lifecycle_record (\<lambda>r.
     if \<not> lifecycle_valid E r then Raise (SwError ''The service-worker lifecycle record is missing or invalid.'')
     else bindP
       (if js_opt ''hadPreviousActiveWorker'' r = JBool True
        then bindP match_windows (\<lambda>cs. Ret (filter (\<lambda>(i, c). same_origin_window_client E c) cs))
        else Ret []) (\<lambda>eligible.
       bindP delete_old_caches (\<lambda>_.
       bindP (requested ClaimClients) (\<lambda>_.
       bindP (seqP (map (\<lambda>(i, c). ignoring (requested (Navigate i (cl_url c)))) eligible)) (\<lambda>_.
       ignoring clear_lifecycle_record)))))"

definition install_worker :: "sw_env \<Rightarrow> unit sw_op" where
  "install_worker E =
     bindP (write_lifecycle_record (JObj [(''buildId'', JStr (sw_build_id E)),
       (''hadPreviousActiveWorker'', JBool (sw_had_active E))])) (\<lambda>_. requested SkipWaiting)"

section \<open>Messages of the page\<close>

definition nullish_or :: "jsval \<Rightarrow> jsval \<Rightarrow> jsval" where
  "nullish_or a b = (if a = JUndef \<or> a = JNull then b else a)"

text \<open>The configuration as a page gets to see it, without the public key.\<close>

definition visible_config :: "jsval \<Rightarrow> jsval" where
  "visible_config c = JObj [(''deliveryKey'', js_opt ''deliveryKey'' c), (''managementKey'', js_opt ''managementKey'' c),
     (''generation'', nullish_or (js_opt ''generation'' c) JNull),
     (''legacyGeneration'', JBool (js_opt ''legacyGeneration'' c = JBool True))]"

definition reply :: "bool \<Rightarrow> bool \<Rightarrow> (string \<times> jsval) list \<Rightarrow> unit sw_op" where
  "reply port ok extra =
     (if port then send (ToPort (JObj ((''ok'', JBool ok) # (''protocolVersion'', js_int push_protocol_version) # extra)))
      else Ret ())"

text \<open>\<^verbatim>\<open>operation.then(answer).catch(failure)\<close>\<close>

definition answering ::
  "bool \<Rightarrow> (sw_error, jsval) sw_task \<Rightarrow> (jsval \<Rightarrow> (string \<times> jsval) list) \<Rightarrow> (sw_error, unit) sw_task" where
  "answering port t extra =
     catchT (bindT t (\<lambda>v. lift_prog (reply port True (extra v)))) (\<lambda>_. lift_prog (reply port False []))"

definition config_of_message :: "jsval \<Rightarrow> jsval" where
  "config_of_message d = JObj
     ([(''deliveryKey'', js_opt ''deliveryKey'' d), (''managementKey'', js_opt ''managementKey'' d),
       (''publicKey'', js_opt ''publicKey'' d)] @
      (if is_str (js_opt ''generation'' d) then [(''generation'', js_opt ''generation'' d)]
       else [(''legacyGeneration'', JBool True)]))"

definition message_handler :: "sw_env \<Rightarrow> jsval \<Rightarrow> bool \<Rightarrow> (sw_error, unit) sw_task" where
  "message_handler E d port =
     (let type = js_opt ''type'' d in
      if type = JStr ''SKIP_WAITING'' then lift_prog (ignoring (requested SkipWaiting))
      else if type = JStr ''SET_PUSH_CONFIG''
      then answering port (queued (set_push_config E (config_of_message d))) (\<lambda>_. [])
      else if type = JStr ''READ_PUSH_CONFIG''
      then answering port (lift_prog read_push_config)
             (\<lambda>c. [(''config'', if truthy c then visible_config c else JNull)])
      else if type = JStr ''MIGRATE_PUSH_CONFIG''
      then answering port (queued (migrate_push_config_in_queue E (js_opt ''generation'' d) (js_opt ''managementKey'' d)))
             (\<lambda>c. [(''config'', visible_config c)])
      else if type = JStr ''CLEAR_PUSH_CONFIG''
      then answering port (queued (clear_push_config_for_generation E (js_opt ''generation'' d) (js_opt ''deliveryKey'' d)))
             (\<lambda>cleared. [(''cleared'', cleared)])
      else if type = JStr ''DISMISS_ROOM_NOTIFICATION''
      then bindT (queued (bindP (dismiss_room_notification (js_opt ''roomId'' d)) (\<lambda>_. Ret JUndef))) (\<lambda>_. TRet ())
      else TRet ())"

section \<open>Pushes\<close>

text \<open>
  The flag \<^verbatim>\<open>displayed\<close> of a push: where a call throws, its value travels with the error to the
  \<^verbatim>\<open>catch\<close> at the end.
\<close>

definition flagged :: "bool \<Rightarrow> (sw_error, 'a) sw_task \<Rightarrow> (bool, 'a) sw_task" where
  "flagged displayed t = catchT t (\<lambda>_. TRaise displayed)"

definition notify_clients :: "(nat \<times> sw_client) list \<Rightarrow> unit sw_op" where
  "notify_clients cs =
     bindP (seqP (map (\<lambda>(i, c). send (ToClient i (JObj [(''type'', JStr ''PUSH_SUBSCRIPTION_CONFIRMED'')]))) cs))
       (\<lambda>_. Ret ())"

text \<open>A payload of the challenge kind; \<open>None\<close> where reading the kind throws.\<close>

definition is_challenge :: "jsval \<Rightarrow> bool option" where
  "is_challenge payload = map_option (\<lambda>kind.
     kind = JStr ''subscription-challenge'' \<and> is_str (js_opt ''challenge'' payload) \<and>
     (is_str (js_opt ''generation'' payload) \<or> js_opt ''generation'' payload = JUndef)) (js_prop ''kind'' payload)"

definition challenge_matches :: "jsval \<Rightarrow> jsval \<Rightarrow> bool" where
  "challenge_matches payload config =
     (if is_str (js_opt ''generation'' payload)
      then js_same (js_opt ''generation'' config) (js_opt ''generation'' payload)
      else js_opt ''legacyGeneration'' config = JBool True)"

definition confirm_challenge :: "jsval \<Rightarrow> unit sw_op" where
  "confirm_challenge payload =
     bindP read_push_config (\<lambda>config.
     if \<not> challenge_matches payload config then Ret ()
     else bindP (fetch_ok (Request ''PATCH'' (JObj [(''challenge'', js_opt ''challenge'' payload)]))) (\<lambda>ok.
       if \<not> ok then Raise (SwError ''Push subscription confirmation failed.'')
       else bindP match_windows notify_clients))"

definition display_fallback :: "(bool, unit) sw_task" where
  "display_fallback = flagged False (lift_prog show_fallback_notification)"

definition push_note :: "bool \<Rightarrow> jsval \<Rightarrow> jsval \<Rightarrow> jsval \<Rightarrow> string \<Rightarrow> notice" where
  "push_note test room_id event_id generation owner =
     \<lparr>nt_tag = (if test then test_notification_tag else notification_tag room_id),
      nt_body = (if test then ''The test transmission arrived successfully.'' else ''A new transmission has arrived.''),
      nt_renotify = test,
      nt_data = JObj [(''kind'', JStr (if test then ''test'' else ''matrix'')), (''roomId'', room_id), (''eventId'', event_id),
        (''generation'', generation), (''owner'', JStr owner)]\<rparr>"

text \<open>A push that is no challenge, once the configuration is known to be complete.\<close>

definition push_message :: "sw_env \<Rightarrow> jsval \<Rightarrow> jsval \<Rightarrow> (bool, unit) sw_task" where
  "push_message E payload config =
     (let test = (js_opt ''kind'' payload = JStr ''test'');
          matrix = (js_opt ''kind'' payload = JStr ''matrix'');
          room_id = (if matrix \<and> is_str (js_opt ''roomId'' payload) then js_opt ''roomId'' payload else JNull);
          event_id = (if matrix \<and> is_str (js_opt ''eventId'' payload) \<and> js_opt ''eventId'' payload \<noteq> JStr []
                      then js_opt ''eventId'' payload else JNull);
          unread = to_number (if truthy (js_opt ''unread'' payload) then js_opt ''unread'' payload else js_int 0)
      in
      bindT (flagged False (lift_prog read_push_config)) (\<lambda>current.
      bindT (flagged False (lift_prog (hash_push_identifier E (js_opt ''deliveryKey'' config)))) (\<lambda>owner.
      if \<not> same_push_config config current \<or> js_opt ''owner'' payload \<noteq> JStr owner then display_fallback
      else if \<not> test \<and> event_id = JNull then
        bindT display_fallback (\<lambda>_.
        bindT (flagged True (queued (sync_badge_for_generation E config unread))) (\<lambda>_. TRet ()))
      else
        let n = push_note test room_id event_id (js_opt ''generation'' config) owner in
        bindT (flagged False (queued (show_notification_for_generation config n))) (\<lambda>displayed.
        if displayed \<noteq> JBool True then display_fallback
        else bindT (if test then TRet JUndef else flagged True (queued (sync_badge_for_generation E config unread))) (\<lambda>_.
          bindT (flagged True (lift_prog read_push_config)) (\<lambda>final_config.
          if \<not> same_push_config config final_config
          then bindT (flagged True (queued (dismiss_stale_notification config (nt_tag n)))) (\<lambda>_. TRet ())
          else TRet ()))))))"

definition push_body :: "sw_env \<Rightarrow> jsval \<Rightarrow> (bool, unit) sw_task" where
  "push_body E payload =
     (case is_challenge payload of
        None \<Rightarrow> TRaise False
      | Some True \<Rightarrow>
          bindT (flagged False (lift_prog (show_notification setup_note))) (\<lambda>_.
          flagged True (lift_prog (confirm_challenge payload)))
      | Some False \<Rightarrow>
          bindT (flagged False (lift_prog read_push_config)) (\<lambda>config.
          if \<not> truthy (js_opt ''deliveryKey'' config) \<or> \<not> truthy (js_opt ''managementKey'' config)
             \<or> \<not> truthy (js_opt ''generation'' config)
          then display_fallback
          else push_message E payload config))"

text \<open>The data of a push event, if it has any that parses.\<close>

definition push_handler :: "sw_env \<Rightarrow> jsval option \<Rightarrow> (sw_error, unit) sw_task" where
  "push_handler E data =
     catchT (push_body E (case data of Some v \<Rightarrow> v | None \<Rightarrow> JObj []))
       (\<lambda>displayed. if displayed then TRet () else lift_prog show_fallback_notification)"

section \<open>Renewal of the subscription\<close>

definition renewal_request :: "sw_env \<Rightarrow> jsval \<Rightarrow> sw_effect" where
  "renewal_request E c = Request ''POST'' (JObj [(''deliveryKey'', js_opt ''deliveryKey'' c),
     (''managementKey'', js_opt ''managementKey'' c), (''generation'', js_opt ''generation'' c),
     (''subscription'', sw_subscription E)])"

definition renew_subscription :: "sw_env \<Rightarrow> jsval sw_op" where
  "renew_subscription E =
     bindP read_push_config (\<lambda>config.
     if \<not> truthy (js_opt ''deliveryKey'' config) \<or> \<not> truthy (js_opt ''managementKey'' config)
        \<or> \<not> truthy (js_opt ''publicKey'' config)
     then Ret JUndef
     else bindP
       (if modern_config config then Ret config
        else bindP (canonical_generation E (js_opt ''managementKey'' config)) (\<lambda>g.
          migrate_push_config_in_queue E (JStr g) (js_opt ''managementKey'' config))) (\<lambda>current.
       bindP (decode_application_server_key (js_opt ''publicKey'' current)) (\<lambda>key.
       bindP (requested (Subscribed key)) (\<lambda>_.
       bindP read_push_config (\<lambda>confirmed_config.
       if \<not> same_push_config current confirmed_config
       then bindP (requested Unsubscribed) (\<lambda>_. Ret JUndef)
       else bindP (fetch_ok (renewal_request E current)) (\<lambda>ok.
         if \<not> ok then Raise (SwError ''Push subscription renewal failed.'')
         else bindP read_push_config (\<lambda>confirmed.
           if \<not> same_push_config current confirmed then
             bindP (requested Unsubscribed) (\<lambda>_.
             bindP (fetch_ok (Request ''DELETE'' (JObj [(''managementKey'', js_opt ''managementKey'' current)])))
               (\<lambda>_. Ret JUndef))
           else Ret JUndef)))))))"

section \<open>Clicks\<close>

text \<open>\<^verbatim>\<open>encodeURIComponent\<close>\<close>

definition hex_digit :: "nat \<Rightarrow> char" where
  "hex_digit n = char_of (if n < 10 then 48 + n else 55 + n)"

definition uri_unreserved :: "char \<Rightarrow> bool" where
  "uri_unreserved c \<longleftrightarrow> is_alnum c \<or> c \<in> set ''-_.!~*'' \<or> code_of c \<in> {39, 40, 41}"

definition percent_byte :: "8 word \<Rightarrow> string" where
  "percent_byte b = [CHR ''%'', hex_digit (unat b div 16), hex_digit (unat b mod 16)]"

definition encode_uri_component :: "string \<Rightarrow> string" where
  "encode_uri_component s =
     concat (map (\<lambda>c. if uri_unreserved c then [c] else concat (map percent_byte (utf8_char c))) s)"

definition event_suffix :: "jsval \<Rightarrow> string" where
  "event_suffix event_id = (if truthy event_id then ''/event/'' @ encode_uri_component (room_text event_id) else [])"

text \<open>The hash a click leads to: the room only for the account that got the notification.\<close>

definition click_hash :: "sw_env \<Rightarrow> jsval \<Rightarrow> string sw_op" where
  "click_hash E data =
     (if js_opt ''kind'' data = JStr ''matrix'' \<and> is_str (js_opt ''generation'' data) \<and> is_str (js_opt ''owner'' data)
         \<and> is_str (js_opt ''roomId'' data)
      then bindP (catchP read_push_config (\<lambda>_. Ret JNull)) (\<lambda>config.
        bindP
          (if truthy config
           then catchP (bindP (hash_push_identifier E (js_opt ''deliveryKey'' config)) (\<lambda>h. Ret (JStr h))) (\<lambda>_. Ret JNull)
           else Ret JNull) (\<lambda>current_owner.
          if js_same (js_opt ''generation'' config) (js_opt ''generation'' data) \<and> current_owner \<noteq> JNull
             \<and> js_same current_owner (js_opt ''owner'' data)
          then Ret (''#/room/'' @ encode_uri_component (room_text (js_opt ''roomId'' data)) @ event_suffix (js_opt ''eventId'' data))
          else Ret ''#/''))
      else Ret ''#/'')"

definition close_clicked :: "notice \<Rightarrow> unit sw_op" where
  "close_clicked n = atom (\<lambda>w. (Inr (), w\<lparr>dv_notes := filter (\<lambda>m. nt_tag m \<noteq> nt_tag n) (dv_notes w)\<rparr>))"

definition click_handler :: "sw_env \<Rightarrow> notice \<Rightarrow> unit sw_op" where
  "click_handler E n =
     bindP (close_clicked n) (\<lambda>_.
     bindP (click_hash E (if truthy (nt_data n) then nt_data n else JObj [])) (\<lambda>hash.
     let target = sw_href E hash in
     bindP match_windows (\<lambda>clients.
     case clients of
       (i, c) # cs \<Rightarrow> bindP (send (Navigate i (JStr target))) (\<lambda>_. requested (FocusClient i))
     | [] \<Rightarrow> requested (OpenWindow target))))"

section \<open>Requests\<close>

text \<open>
  The fetch event: requests for other origins and for assets are left to the browser; a navigation
  is answered by the network, never from a cache, and offline by a fixed page.
\<close>

record fetch_request =
  rq_url :: string
  rq_mode :: string
  rq_destination :: string

record offline_response =
  or_status :: int
  or_headers :: "(string \<times> string) list"

datatype fetch_outcome = NotHandled | FromNetwork | OfflinePage offline_response | FetchThrows

definition offline_navigation_response :: offline_response where
  "offline_navigation_response = \<lparr>or_status = 503,
     or_headers = [(''Cache-Control'', ''no-store''), (''Content-Security-Policy'', offline_csp),
       (''Content-Type'', ''text/html; charset=utf-8''), (''X-Content-Type-Options'', ''nosniff'')]\<rparr>"

definition fetch_handler :: "sw_env \<Rightarrow> fetch_request \<Rightarrow> bool \<Rightarrow> fetch_outcome" where
  "fetch_handler E r network =
     (case sw_parse_url E (rq_url r) of
        None \<Rightarrow> FetchThrows
      | Some u \<Rightarrow>
          if url_origin u \<noteq> sw_origin E then NotHandled
          else if rq_mode r = ''navigate'' \<or> rq_destination r = ''document''
          then if network then FromNetwork else OfflinePage offline_navigation_response
          else NotHandled)"

section \<open>The worker's events\<close>

datatype sw_event =
    InstallEvent
  | ActivateEvent
  | MessageEvent jsval bool
  | PushEvent "jsval option"
  | SubscriptionChange
  | ClickEvent notice

definition handle_event :: "sw_env \<Rightarrow> sw_event \<Rightarrow> (sw_error, unit) sw_task" where
  "handle_event E ev =
     (case ev of
        InstallEvent \<Rightarrow> lift_prog (install_worker E)
      | ActivateEvent \<Rightarrow> lift_prog (activate_service_worker E)
      | MessageEvent d port \<Rightarrow> message_handler E d port
      | PushEvent data \<Rightarrow> push_handler E data
      | SubscriptionChange \<Rightarrow> bindT (queued (renew_subscription E)) (\<lambda>_. TRet ())
      | ClickEvent n \<Rightarrow> lift_prog (click_handler E n))"

text \<open>
  Beside the worker, pages of the origin may delete the database of the configuration, and windows
  open, close and navigate.
\<close>

definition outside_step :: "device \<Rightarrow> device \<Rightarrow> bool" where
  "outside_step w w' \<longleftrightarrow>
     (\<exists>cs. w' = w\<lparr>dv_clients := cs\<rparr>) \<or> w' = w\<lparr>dv_config := None\<rparr> \<or>
     (\<exists>P. w' = w\<lparr>dv_notes := filter P (dv_notes w)\<rparr>)"

abbreviation sw_handler :: "sw_env \<Rightarrow> (sw_error, unit) sw_task \<Rightarrow> bool" where
  "sw_handler E t \<equiv> t \<in> range (handle_event E)"

abbreviation sw_reachable :: "sw_env \<Rightarrow> (device, sw_error, jsval, sw_error, unit) worker \<Rightarrow> bool" where
  "sw_reachable E \<equiv> worker_reachable (sw_handler E) outside_step"

end
