(* ===== verification/Worker_Safety.thy ===== *)
theory Worker_Safety
  imports Worker_Handlers
begin

text \<open>
  What the service worker guarantees over every interleaving of its handlers, whatever calls of the
  browser fail, whatever pages do to the configuration database and to the windows: no notification
  for an account other than the installed one, no navigation off the origin, every push answered
  visibly, and an end to all work.
\<close>

section \<open>Good steps\<close>

definition own_address :: "sw_env \<Rightarrow> jsval \<Rightarrow> bool" where
  "own_address E v \<longleftrightarrow> (\<exists>h. v = JStr (sw_href E h)) \<or>
     (\<exists>s u. v = JStr s \<and> sw_parse_url E s = Some u \<and> url_origin u = sw_origin E)"

definition effect_ok :: "sw_env \<Rightarrow> sw_effect \<Rightarrow> bool" where
  "effect_ok E x \<longleftrightarrow>
     (case x of Navigate i v \<Rightarrow> own_address E v | OpenWindow s \<Rightarrow> own_address E (JStr s) | _ \<Rightarrow> True)"

definition shows_ok :: "device \<Rightarrow> notice \<Rightarrow> bool" where
  "shows_ok w n \<longleftrightarrow> note_generation n = JUndef \<or> \<not> truthy (stored_config w) \<or>
     note_generation n = js_opt ''generation'' (stored_config w)"

definition sw_good :: "sw_env \<Rightarrow> device \<Rightarrow> device \<Rightarrow> bool" where
  "sw_good E w w' \<longleftrightarrow>
     (dv_shown w' = dv_shown w \<or> (\<exists>n. dv_shown w' = n # dv_shown w \<and> shows_ok w n)) \<and>
     (dv_sent w' = dv_sent w \<or> (\<exists>x. dv_sent w' = x # dv_sent w \<and> effect_ok E x))"

text \<open>The view of the queue: the configuration, unless it has been removed.\<close>

definition sees_config :: "jsval \<Rightarrow> device \<Rightarrow> bool" where
  "sees_config c w \<longleftrightarrow> stored_config w = c \<or> \<not> truthy (stored_config w)"

definition sw_quiet :: "device \<Rightarrow> device \<Rightarrow> bool" where
  "sw_quiet w w' \<longleftrightarrow> dv_config w' = dv_config w \<or> dv_config w' = None"

definition calm :: "sw_env \<Rightarrow> device \<Rightarrow> device \<Rightarrow> bool" where
  "calm E w w' \<longleftrightarrow> sw_good E w w' \<and> sw_quiet w w'"

lemma stored_config_cong: "dv_config w' = dv_config w \<Longrightarrow> stored_config w' = stored_config w"
  by (simp add: stored_config_def)

lemma stored_config_none [simp]: "dv_config w = None \<Longrightarrow> stored_config w = JNull"
  by (simp add: stored_config_def)

interpretation sw: queue_views sees_config "sw_good E" sw_quiet for E
proof
  show "\<exists>c. sees_config c w" for w by (auto simp: sees_config_def)
  show "sees_config c w \<Longrightarrow> sw_quiet w w' \<Longrightarrow> sees_config c w'" for c w w'
    by (auto simp: sees_config_def sw_quiet_def truthy_def dest: stored_config_cong)
  show "sw_good E w w" for w by (simp add: sw_good_def)
qed

section \<open>Calm programs\<close>

lemma calm_platform:
  assumes "\<And>w. calm E w (snd (f w))"
  shows "acts_in (calm E) (platform f)"
proof -
  have "calm E w (snd (f (w\<lparr>dv_oracle := stl (dv_oracle w)\<rparr>)))" for w
    using assms [of "w\<lparr>dv_oracle := stl (dv_oracle w)\<rparr>"]
    by (simp add: calm_def sw_good_def sw_quiet_def shows_ok_def stored_config_def)
  moreover have "calm E w (w\<lparr>dv_oracle := stl (dv_oracle w)\<rparr>)" for w
    by (simp add: calm_def sw_good_def sw_quiet_def)
  ultimately show ?thesis by (simp add: platform_def Let_def)
qed

lemmas calm_defs = calm_def sw_good_def sw_quiet_def

lemma calm_read [intro, simp]: "acts_in (calm E) read_push_config"
  unfolding read_push_config_def by (rule calm_platform) (simp add: calm_defs)

lemma calm_hash [intro, simp]: "acts_in (calm E) (hash_push_identifier E' v)"
  unfolding hash_push_identifier_def by (rule calm_platform) (simp add: calm_defs)

lemma calm_close [intro, simp]: "acts_in (calm E) (close_notes P)"
  unfolding close_notes_def by (rule calm_platform) (simp add: calm_defs)

lemma calm_send [intro, simp]: "effect_ok E x \<Longrightarrow> acts_in (calm E) (send x)"
  by (simp add: send_def calm_defs)

lemma calm_requested [intro, simp]: "effect_ok E x \<Longrightarrow> acts_in (calm E) (requested x)"
  unfolding requested_def by (rule calm_platform) (simp add: calm_defs)

lemma calm_fetch [intro, simp]: "effect_ok E x \<Longrightarrow> acts_in (calm E) (fetch_ok x)"
  unfolding fetch_ok_def by (rule calm_platform) (simp add: calm_defs)

lemma calm_windows [intro, simp]: "acts_in (calm E) match_windows"
  unfolding match_windows_def by (rule calm_platform) (simp add: calm_defs)

lemma calm_ignoring [intro, simp]: "acts_in (calm E) p \<Longrightarrow> acts_in (calm E) (ignoring p)"
  unfolding ignoring_def by (rule acts_in_catchP) simp_all

lemma calm_badge [intro, simp]: "acts_in (calm E) (sync_badge E' unread)"
  unfolding sync_badge_def Let_def
  by (intro calm_ignoring) (auto intro!: calm_platform simp: calm_defs)

lemma calm_dismiss [intro, simp]:
  "acts_in (calm E) (dismiss_room_notification r)" "acts_in (calm E) dismiss_all_notifications"
  "acts_in (calm E) (dismiss_notification_tag tag g)" "acts_in (calm E) (dismiss_notifications_for_generation g)"
  by (auto simp: dismiss_room_notification_def dismiss_all_notifications_def dismiss_notification_tag_def
      dismiss_notifications_for_generation_def)

lemma calm_clear_config [intro, simp]: "acts_in (calm E) (clear_push_config g d)"
  unfolding clear_push_config_def by (rule calm_platform) (auto simp: calm_defs Let_def)

lemma calm_show: "note_generation n = JUndef \<Longrightarrow> acts_in (calm E) (show_notification n)"
  by (simp add: show_notification_def Let_def calm_defs shows_ok_def)

lemma plain_notes [simp]: "note_generation fallback_note = JUndef" "note_generation setup_note = JUndef"
  by (simp_all add: note_generation_def fallback_note_def setup_note_def)

lemma calm_fallback [intro, simp]: "acts_in (calm E) show_fallback_notification"
  unfolding show_fallback_notification_def by (rule calm_show) simp

lemma calm_decode [intro, simp]: "acts_in (calm E) (decode_application_server_key v)"
  by (auto simp: decode_application_server_key_def split: jsval.split option.split)

section \<open>The queued operations\<close>

lemma op_ok_calm: "acts_in (calm E) p \<Longrightarrow> (\<And>a. op_ok sees_config (sw_good E) (k a) c) \<Longrightarrow> op_ok sees_config (sw_good E) (bindP p k) c"
proof (induction p rule: prog_induct)
  case (Act f)
  then have "\<And>w. op_ok sees_config (sw_good E) (bindP (fst (f w)) k) c" by simp
  moreover have "\<And>w. sees_config c w \<Longrightarrow> sw_good E w (snd (f w)) \<and> sees_config c (snd (f w))"
    using Act.prems(1) sw.quiet_keeps by (auto simp: calm_def)
  ultimately show ?case by auto
qed simp_all

lemma op_ok_calm_all: "acts_in (calm E) p \<Longrightarrow> op_ok sees_config (sw_good E) p c"
proof (induction p rule: prog_induct)
  case (Act f)
  then have "\<And>w. op_ok sees_config (sw_good E) (fst (f w)) c" by simp
  moreover have "\<And>w. sees_config c w \<Longrightarrow> sw_good E w (snd (f w)) \<and> sees_config c (snd (f w))"
    using Act.prems sw.quiet_keeps by (auto simp: calm_def)
  ultimately show ?case by auto
qed simp_all

lemma oracle_simps [simp]:
  "stored_config (w\<lparr>dv_oracle := os\<rparr>) = stored_config w" "sees_config c (w\<lparr>dv_oracle := os\<rparr>) = sees_config c w"
  "sw_good E (w\<lparr>dv_oracle := os\<rparr>) w' = sw_good E w w'" "sw_good E w (w\<lparr>dv_oracle := os\<rparr>)"
  by (simp_all add: stored_config_def sees_config_def sw_good_def shows_ok_def)

lemma op_ok_platform:
  assumes "\<And>w. sees_config c w \<Longrightarrow> sw_good E w (snd (f w)) \<and>
     (\<exists>c'. sees_config c' (snd (f w)) \<and> op_ok sees_config (sw_good E) (k (fst (f w))) c')"
  shows "op_ok sees_config (sw_good E) (bindP (platform f) k) c"
proof -
  let ?F = "\<lambda>w. map_prod (\<lambda>p. bindP p k) id (map_prod (case_sum Raise Ret) id
      (if shd (dv_oracle w) then map_prod Inr id (f (w\<lparr>dv_oracle := stl (dv_oracle w)\<rparr>))
       else (Inl PlatformFailure, w\<lparr>dv_oracle := stl (dv_oracle w)\<rparr>)))"
  have "sw_good E w (snd (?F w)) \<and> (\<exists>c'. sees_config c' (snd (?F w)) \<and> op_ok sees_config (sw_good E) (fst (?F w)) c')"
    if w: "sees_config c w" for w
  proof (cases "shd (dv_oracle w)")
    case True
    then show ?thesis using assms [of "w\<lparr>dv_oracle := stl (dv_oracle w)\<rparr>"] w by simp
  next
    case False
    then show ?thesis using w by auto
  qed
  then show ?thesis by (simp add: platform_def atom_def Let_def)
qed

text \<open>Writing the configuration gives the operation a new view.\<close>

lemma op_ok_write:
  assumes "\<And>c. op_ok sees_config (sw_good E) (k ()) c"
  shows "op_ok sees_config (sw_good E) (bindP (write_push_config v) k) c"
  unfolding write_push_config_def
  by (rule op_ok_platform) (use assms sw.some_view in \<open>auto simp: sw_good_def\<close>)

lemma op_ok_Ret [simp]: "op_ok sees_config (sw_good E) (Ret a) c" "op_ok sees_config (sw_good E) (Raise e) c"
  by simp_all

lemma set_ok: "op_ok sees_config (sw_good E) (set_push_config E' v) c"
  unfolding set_push_config_def
  by (rule op_ok_calm, blast, rule op_ok_write) (auto intro!: op_ok_calm)

lemma clear_ok: "op_ok sees_config (sw_good E) (clear_push_config_for_generation E' g d) c"
  unfolding clear_push_config_for_generation_def by (rule op_ok_calm) (auto intro!: op_ok_calm)

lemma migrate_ok: "op_ok sees_config (sw_good E) (migrate_push_config_in_queue E' g m) c"
  unfolding migrate_push_config_in_queue_def canonical_generation_def Let_def
  by (rule op_ok_calm) (auto intro!: op_ok_calm op_ok_write)

lemma badge_ok: "op_ok sees_config (sw_good E) (sync_badge_for_generation E' v u) c"
  unfolding sync_badge_for_generation_def by (rule op_ok_calm) (auto intro!: op_ok_calm)

lemma dismiss_stale_ok: "op_ok sees_config (sw_good E) (dismiss_stale_notification v tag) c"
  unfolding dismiss_stale_notification_def by (rule op_ok_calm) (auto intro!: op_ok_calm)

lemma op_ok_show:
  assumes "\<And>w. sees_config c w \<Longrightarrow> shows_ok w n"
  shows "op_ok sees_config (sw_good E) (bindP (show_notification n) (\<lambda>_. Ret v)) c"
  using assms sw.some_view by (auto simp: show_notification_def atom_def Let_def sw_good_def)

text \<open>Showing for a generation: the configuration it has read is still there when it shows, or was
  removed from outside.
\<close>

lemma show_ok:
  assumes "note_generation n = js_opt ''generation'' config"
  shows "op_ok sees_config (sw_good E) (show_notification_for_generation config n) c"
proof -
  have shown: "op_ok sees_config (sw_good E) (bindP (show_notification n) (\<lambda>_. Ret (JBool True))) c"
    if same: "same_push_config config c"
  proof (rule op_ok_show)
    fix w assume w: "sees_config c w"
    have "note_generation n = js_opt ''generation'' c"
      using same assms by (auto simp: same_push_config_def dest: js_same_eq)
    then show "shows_ok w n" using w by (auto simp: shows_ok_def sees_config_def)
  qed
  show ?thesis
    unfolding show_notification_for_generation_def read_push_config_def
  proof (rule op_ok_platform)
    fix w assume w: "sees_config c w"
    have "op_ok sees_config (sw_good E)
       (if \<not> same_push_config config (stored_config w) then Ret (JBool False)
        else bindP (show_notification n) (\<lambda>_. Ret (JBool True))) c"
      using w shown by (auto simp: sees_config_def same_push_config_def)
    then show "sw_good E w (snd (stored_config w, w)) \<and> (\<exists>c'. sees_config c' (snd (stored_config w, w)) \<and>
       op_ok sees_config (sw_good E)
       (if \<not> same_push_config config (fst (stored_config w, w)) then Ret (JBool False)
        else bindP (show_notification n) (\<lambda>_. Ret (JBool True))) c')"
      using w by (auto simp: sw_good_def)
  qed
qed

lemma dismiss_room_ok: "op_ok sees_config (sw_good E) (bindP (dismiss_room_notification r) (\<lambda>_. Ret v)) c"
  by (rule op_ok_calm) auto

lemma own_addresses [simp]:
  "effect_ok E (Request m v)" "effect_ok E Unsubscribed" "effect_ok E (Subscribed k)" "effect_ok E SkipWaiting"
  "effect_ok E ClaimClients" "effect_ok E (ToPort v)" "effect_ok E (ToClient i v)" "effect_ok E (FocusClient i)"
  "effect_ok E (Navigate i (JStr (sw_href E h)))" "effect_ok E (OpenWindow (sw_href E h))"
  by (auto simp: effect_ok_def own_address_def)

lemma op_ok_bind:
  "op_ok sees_config (sw_good E) p c \<Longrightarrow> (\<And>a c. op_ok sees_config (sw_good E) (k a) c) \<Longrightarrow>
     op_ok sees_config (sw_good E) (bindP p k) c"
proof (induction p arbitrary: c rule: prog_induct)
  case (Act f)
  then show ?case by simp blast
qed simp_all

lemma renew_migrated_ok:
  "op_ok sees_config (sw_good E) (bindP (canonical_generation E v) (\<lambda>g. migrate_push_config_in_queue E (JStr g) v)) c"
  unfolding canonical_generation_def by (rule op_ok_calm) (auto intro: migrate_ok)

lemma renew_ok: "op_ok sees_config (sw_good E) (renew_subscription E) c"
proof -
  have after: "op_ok sees_config (sw_good E)
     (bindP (decode_application_server_key (js_opt ''publicKey'' current)) (\<lambda>key.
       bindP (requested (Subscribed key)) (\<lambda>_.
       bindP read_push_config (\<lambda>confirmed_config.
       if \<not> same_push_config current confirmed_config
       then bindP (requested Unsubscribed) (\<lambda>_. Ret JUndef)
       else bindP (fetch_ok (renewal_request E current)) (\<lambda>ok.
         if \<not> ok then Raise (SwError ''Push subscription renewal failed.'')
         else bindP read_push_config (\<lambda>confirmed.
           if \<not> same_push_config current confirmed then
             bindP (requested Unsubscribed) (\<lambda>_.
             bindP (fetch_ok (Request ''DELETE'' (JObj [(''managementKey'', js_opt ''managementKey'' current)])))
               (\<lambda>_. Ret JUndef))
           else Ret JUndef)))))) c" for current c
    unfolding renewal_request_def by (auto intro!: op_ok_calm own_addresses)
  show ?thesis
    unfolding renew_subscription_def
    by (rule op_ok_calm, blast, split if_split, intro conjI impI op_ok_Ret op_ok_bind after)
      (simp add: renew_migrated_ok)
qed

section \<open>The handlers\<close>

lemma calm_task: "acts_in (calm E) p \<Longrightarrow> task_ok sees_config (sw_good E) sw_quiet (lift_prog p)"
  unfolding calm_def [abs_def] by (rule task_ok_lift)

lemma flagged_ok: "task_ok sees_config (sw_good E) sw_quiet t \<Longrightarrow> task_ok sees_config (sw_good E) sw_quiet (flagged b t)"
  unfolding flagged_def by (rule task_ok_catchT) simp_all

lemma answering_ok: "task_ok sees_config (sw_good E) sw_quiet t \<Longrightarrow> task_ok sees_config (sw_good E) sw_quiet (answering port t x)"
  unfolding answering_def reply_def
  by (intro task_ok_catchT task_ok_bindT calm_task) (auto intro: own_addresses)

lemma calm_seq: "(\<And>p. p \<in> set ps \<Longrightarrow> acts_in (calm E) p) \<Longrightarrow> acts_in (calm E) (bindP (seqP ps) (\<lambda>_. Ret x))"
  by (intro acts_in_bindP acts_in_seqP) auto

lemma calm_confirm: "acts_in (calm E) (confirm_challenge payload)"
  unfolding confirm_challenge_def notify_clients_def
  by (auto intro!: acts_in_bindP calm_seq own_addresses)

lemma display_fallback_ok: "task_ok sees_config (sw_good E) sw_quiet display_fallback"
  unfolding display_fallback_def by (intro flagged_ok calm_task calm_fallback)

lemma push_note_generation [simp]: "note_generation (push_note t r e g w) = g"
  by (simp add: note_generation_def push_note_def)

lemma push_message_ok: "task_ok sees_config (sw_good E) sw_quiet (push_message E payload config)"
  unfolding push_message_def Let_def
  by (auto intro!: task_ok_bindT flagged_ok calm_task display_fallback_ok task_ok_queued badge_ok dismiss_stale_ok show_ok)

lemma push_ok: "task_ok sees_config (sw_good E) sw_quiet (push_handler E data)"
  unfolding push_handler_def push_body_def
  by (auto intro!: task_ok_catchT task_ok_bindT flagged_ok calm_task calm_show calm_confirm display_fallback_ok push_message_ok
      split: option.split bool.split)

lemma message_ok: "task_ok sees_config (sw_good E) sw_quiet (message_handler E d port)"
  unfolding message_handler_def Let_def
  by (auto intro!: task_ok_bindT answering_ok task_ok_queued calm_task set_ok migrate_ok clear_ok dismiss_room_ok own_addresses)

lemma acts_in_yields:
  "acts_in R p \<Longrightarrow> yields P p \<Longrightarrow> (\<And>a. P a \<Longrightarrow> acts_in R (k a)) \<Longrightarrow> acts_in R (bindP p k)"
  by (induction p rule: prog_induct) simp_all

lemma calm_lifecycle [simp]:
  "acts_in (calm E) (write_lifecycle_record r)" "acts_in (calm E) read_lifecycle_record"
  "acts_in (calm E) clear_lifecycle_record" "acts_in (calm E) (delete_cache k)"
  unfolding write_lifecycle_record_def read_lifecycle_record_def clear_lifecycle_record_def delete_cache_def
  by (rule calm_platform, simp add: calm_defs)+

lemma calm_old_caches [simp]: "acts_in (calm E) delete_old_caches"
  unfolding delete_old_caches_def
  by (intro calm_ignoring acts_in_bindP calm_platform) (auto intro!: acts_in_seqP simp: calm_defs)

lemma same_origin_own: "same_origin_window_client E c \<Longrightarrow> effect_ok E (Navigate i (cl_url c))"
  by (auto simp: same_origin_window_client_def effect_ok_def own_address_def split: jsval.splits option.splits)

lemma calm_install: "acts_in (calm E) (install_worker E)"
  unfolding install_worker_def by (intro acts_in_bindP) simp_all

lemma calm_activate: "acts_in (calm E) (activate_service_worker E)"
proof -
  let ?P = "\<lambda>cs. \<forall>(i, c) \<in> set cs. same_origin_window_client E c"
  have windows: "acts_in (calm E) (if b then bindP match_windows (\<lambda>cs. Ret (filter (\<lambda>(i, c). same_origin_window_client E c) cs)) else Ret [])" for b
    by (auto intro!: acts_in_bindP)
  have eligible: "yields ?P (if b then bindP match_windows (\<lambda>cs. Ret (filter (\<lambda>(i, c). same_origin_window_client E c) cs)) else Ret [])" for b
    by (auto intro!: yields_bindP [where Q = "\<lambda>_. True"] simp: match_windows_def platform_def Let_def map_prod_def split: if_splits sum.split)
  have go: "acts_in (calm E) (bindP delete_old_caches (\<lambda>_.
       bindP (requested ClaimClients) (\<lambda>_.
       bindP (seqP (map (\<lambda>(i, c). ignoring (requested (Navigate i (cl_url c)))) cs)) (\<lambda>_.
       ignoring clear_lifecycle_record))))" if "?P cs" for cs
    using that same_origin_own by (intro acts_in_bindP acts_in_seqP) auto
  show ?thesis
    unfolding activate_service_worker_def
    by (intro acts_in_bindP calm_lifecycle, split if_split, intro conjI impI acts_in_yields [OF windows eligible] go)
      simp_all
qed

lemma calm_click: "acts_in (calm E) (click_handler E n)"
proof -
  have "acts_in (calm E) (click_hash E d)" for d
    unfolding click_hash_def by (auto intro!: acts_in_bindP acts_in_catchP)
  moreover have "acts_in (calm E) (close_clicked n)"
    by (simp add: close_clicked_def calm_defs)
  ultimately show ?thesis
    unfolding click_handler_def Let_def by (auto intro!: acts_in_bindP split: list.split)
qed

lemma handler_ok: "sw_handler E t \<Longrightarrow> task_ok sees_config (sw_good E) sw_quiet t"
  by (auto simp: handle_event_def push_ok message_ok intro!: calm_task calm_install calm_activate calm_click
      task_ok_bindT task_ok_queued renew_ok split: sw_event.split)

lemma outside_quiet: "outside_step w w' \<Longrightarrow> sw_quiet w w'"
  by (auto simp: outside_step_def sw_quiet_def)

lemma worker_good: "sw_reachable E s \<Longrightarrow> work_step s s' \<Longrightarrow> sw_good E (wk_world s) (wk_world s')"
  by (rule sw.good_step [OF handler_ok outside_quiet])

text \<open>C22: A notification carries the generation of an account only while that account's configuration is
  installed: whenever one is shown that names a generation, the stored configuration has that
  generation, or a page has just removed it.
\<close>

theorem no_foreign_notification:
  "sw_reachable E s \<Longrightarrow> work_step s s' \<Longrightarrow> dv_shown (wk_world s') = n # dv_shown (wk_world s) \<Longrightarrow>
     note_generation n = JUndef \<or> stored_config (wk_world s) = JNull \<or>
     note_generation n = js_opt ''generation'' (stored_config (wk_world s))"
  using worker_good [of E s s'] by (auto simp: sw_good_def shows_ok_def stored_config_def split: option.splits if_splits)

text \<open>The worker navigates windows only within its own origin: to the address it computes for a click,
  or, on activation, to the address a window of its own origin has.
\<close>

theorem worker_navigates_home:
  "sw_reachable E s \<Longrightarrow> work_step s s' \<Longrightarrow>
     dv_sent (wk_world s') = Navigate i v # dv_sent (wk_world s) \<or>
     (\<exists>t. v = JStr t \<and> dv_sent (wk_world s') = OpenWindow t # dv_sent (wk_world s)) \<Longrightarrow>
   (\<exists>h. v = JStr (sw_href E h)) \<or> (\<exists>t u. v = JStr t \<and> sw_parse_url E t = Some u \<and> url_origin u = sw_origin E)"
  using worker_good [of E s s'] by (auto simp: sw_good_def effect_ok_def own_address_def)

text \<open>The worker always comes to rest: its handlers and queued operations cannot go on forever, and when
  none can move, every handler has finished. The queue never blocks, whatever operations fail.
\<close>

theorem worker_comes_to_rest:
  "wfp (\<lambda>s' s. work_step s (s' :: (device, sw_error, jsval, sw_error, unit) worker)) \<and>
   (sw_reachable E s \<longrightarrow> (\<nexists>s'. work_step s s') \<longrightarrow> list_all settled (wk_tasks s))"
  using work_ends work_progress reachable_queue by blast

section \<open>Every push is answered\<close>

text \<open>The calls of \<^verbatim>\<open>showNotification\<close> that a step makes, each with whether the browser showed it.\<close>

definition new_items :: "'a list \<Rightarrow> 'a list \<Rightarrow> 'a list" where
  "new_items xs ys = take (length ys - length xs) ys"

lemma new_items_simps [simp]: "new_items xs xs = []" "new_items xs (x # xs) = [x]"
  by (simp_all add: new_items_def)

definition notice_calls :: "device \<Rightarrow> device \<Rightarrow> (notice \<times> bool) list" where
  "notice_calls w w' =
     map (\<lambda>n. (n, True)) (new_items (dv_shown w) (dv_shown w')) @
     map (\<lambda>n. (n, False)) (new_items (dv_refused w) (dv_refused w'))"

lemma notice_calls_none: "dv_shown w' = dv_shown w \<Longrightarrow> dv_refused w' = dv_refused w \<Longrightarrow> notice_calls w w' = []"
  by (simp add: notice_calls_def)

abbreviation silent :: "('a sw_op) \<Rightarrow> bool" where
  "silent p \<equiv> acts_in (\<lambda>w w'. notice_calls w w' = []) p"

lemma silent_platform:
  "(\<And>w. dv_shown (snd (f w)) = dv_shown w \<and> dv_refused (snd (f w)) = dv_refused w) \<Longrightarrow> silent (platform f)"
  by (simp add: platform_def Let_def notice_calls_none)

lemma silent_parts [simp]:
  "silent read_push_config" "silent (hash_push_identifier E v)" "silent (fetch_ok x)" "silent (close_notes P)"
  "silent match_windows" "silent (send x)" "silent (requested x)"
  unfolding read_push_config_def hash_push_identifier_def fetch_ok_def close_notes_def match_windows_def requested_def
  by (simp_all add: silent_platform send_def notice_calls_none)

lemma silent_badge [simp]: "silent (sync_badge E u)"
  unfolding sync_badge_def ignoring_def Let_def
  by (auto intro!: acts_in_catchP silent_platform)

lemma silent_badge_for [simp]: "silent (sync_badge_for_generation E config u)"
  unfolding sync_badge_for_generation_def by (auto intro!: acts_in_bindP)

lemma silent_stale [simp]: "silent (dismiss_stale_notification config tag)"
  unfolding dismiss_stale_notification_def dismiss_notification_tag_def by (auto intro!: acts_in_bindP)

lemma silent_confirm [simp]: "silent (confirm_challenge payload)"
  unfolding confirm_challenge_def notify_clients_def by (auto intro!: acts_in_bindP acts_in_seqP)

text \<open>How many notifications the calls have shown.\<close>

definition shown_count :: "(notice \<times> bool) list \<Rightarrow> nat" where
  "shown_count cs = length (filter snd cs)"

lemma shown_count_simps [simp]:
  "shown_count [] = 0" "shown_count ((n, b) # cs) = (if b then Suc (shown_count cs) else shown_count cs)"
  by (simp_all add: shown_count_def)

lemma ends_show:
  "Q ((n, True) # cs) (Inr ()) \<Longrightarrow> Q ((n, False) # cs) (Inl PlatformFailure) \<Longrightarrow>
     op_ends notice_calls Q (show_notification n) cs"
  by (simp add: show_notification_def atom_def Let_def notice_calls_def)

lemma ends_shown:
  assumes "Q ((n, True) # cs) (Inr (JBool True))" and "Q ((n, False) # cs) (Inl PlatformFailure)"
    and "\<And>r. r \<noteq> Inr (JBool True) \<Longrightarrow> Q cs r"
  shows "op_ends notice_calls Q (show_notification_for_generation config n) cs"
  unfolding show_notification_for_generation_def
  by (intro op_ends_bindP op_ends_still) (auto intro!: op_ends_bindP ends_show assms split: sum.split)

text \<open>What the body of a push may end with: it returns after showing one notification, and the flag it
  throws tells whether it has shown one or none.\<close>

definition body_shown :: "(notice \<times> bool) list \<Rightarrow> bool + unit \<Rightarrow> bool" where
  "body_shown cs r = (shown_count cs = (case r of Inl displayed \<Rightarrow> if displayed then 1 else 0 | Inr _ \<Rightarrow> 1))"

lemma body_shown_simps [simp]:
  "body_shown cs (Inl d) = (shown_count cs = (if d then 1 else 0))" "body_shown cs (Inr u) = (shown_count cs = 1)"
  by (simp_all add: body_shown_def)

lemma ends_flagged:
  "task_ends notice_calls (\<lambda>cs r. case r of Inl x \<Rightarrow> Q cs (Inl d) | Inr a \<Rightarrow> Q cs (Inr a)) t cs \<Longrightarrow>
     task_ends notice_calls Q (flagged d t) cs"
  unfolding flagged_def by (rule task_ends_catchT) (simp cong: sum.case_cong)

lemma ends_bind_flagged:
  "task_ends notice_calls
     (\<lambda>cs r. case r of Inl x \<Rightarrow> body_shown cs (Inl d) | Inr a \<Rightarrow> task_ends notice_calls body_shown (k a) cs) t cs \<Longrightarrow>
   task_ends notice_calls body_shown (bindT (flagged d t) k) cs"
  by (rule task_ends_bindT, rule ends_flagged) (simp cong: sum.case_cong)

text \<open>A silent operation in the body, alone or queued, flagged with what has been shown before it.\<close>

lemma ends_silent:
  assumes "silent p" and "shown_count cs = (if d then 1 else 0)"
    and "\<And>a. task_ends notice_calls body_shown (k a) cs"
  shows "task_ends notice_calls body_shown (bindT (flagged d (lift_prog p)) k) cs"
  by (intro ends_bind_flagged task_ends_lift op_ends_still) (use assms in \<open>auto split: sum.split\<close>)

lemma ends_silent_queued:
  assumes "silent p" and "shown_count cs = (if d then 1 else 0)"
    and "\<And>a. task_ends notice_calls body_shown (k a) cs"
  shows "task_ends notice_calls body_shown (bindT (flagged d (queued p)) k) cs"
  by (intro ends_bind_flagged task_ends_queued op_ends_still) (use assms in \<open>auto split: sum.split\<close>)

lemma ends_fallback: "shown_count cs = 0 \<Longrightarrow> task_ends notice_calls body_shown display_fallback cs"
  unfolding display_fallback_def show_fallback_notification_def
  by (intro ends_flagged task_ends_lift ends_show) simp_all

lemma ends_fallback_then:
  assumes "shown_count cs = 0"
    and "\<And>a. task_ends notice_calls body_shown (k a) ((fallback_note, True) # cs)"
  shows "task_ends notice_calls body_shown (bindT display_fallback k) cs"
  unfolding display_fallback_def show_fallback_notification_def
  by (intro ends_bind_flagged task_ends_lift ends_show) (use assms in simp_all)

lemma ends_message: "shown_count cs = 0 \<Longrightarrow> task_ends notice_calls body_shown (push_message E payload config) cs"
proof -
  assume none: "shown_count cs = 0"
  have stale: "task_ends notice_calls body_shown
      (if c then bindT (flagged True (queued (dismiss_stale_notification config tag))) (\<lambda>_. TRet ()) else TRet ())
      ((n, True) # cs)" for c tag n
    using none by (auto intro!: ends_silent_queued)
  have rest: "task_ends notice_calls body_shown
      (bindT (flagged True (lift_prog read_push_config)) (\<lambda>final_config.
        if \<not> same_push_config config final_config
        then bindT (flagged True (queued (dismiss_stale_notification config tag))) (\<lambda>_. TRet ())
        else TRet ())) ((n, True) # cs)" for tag n
    by (rule ends_silent [OF _ _ stale]) (simp_all add: none)
  have after: "task_ends notice_calls body_shown
      (bindT (if test then TRet JUndef else flagged True (queued (sync_badge_for_generation E config u)))
        (\<lambda>_. bindT (flagged True (lift_prog read_push_config)) (\<lambda>final_config.
          if \<not> same_push_config config final_config
          then bindT (flagged True (queued (dismiss_stale_notification config tag))) (\<lambda>_. TRet ())
          else TRet ()))) ((n, True) # cs)" for test u tag n
    using rest by (cases test) (auto intro!: ends_silent_queued simp: none)
  have shown: "task_ends notice_calls body_shown
      (bindT (flagged False (queued (show_notification_for_generation config n))) (\<lambda>displayed.
        if displayed \<noteq> JBool True then display_fallback else k)) cs"
    if "task_ends notice_calls body_shown k ((n, True) # cs)" for n k
    by (intro ends_bind_flagged task_ends_queued ends_shown) (use that none in \<open>auto simp: ends_fallback split: sum.split\<close>)
  have branches: "task_ends notice_calls body_shown
      (if foreign then display_fallback
       else if no_event then
         bindT display_fallback (\<lambda>_.
           bindT (flagged True (queued (sync_badge_for_generation E config u))) (\<lambda>_. TRet ()))
       else bindT (flagged False (queued (show_notification_for_generation config n))) (\<lambda>displayed.
         if displayed \<noteq> JBool True then display_fallback else k)) cs"
    if "task_ends notice_calls body_shown k ((n, True) # cs)" for foreign no_event u n k
    using none that shown
    by (cases foreign; cases no_event) (auto intro!: ends_fallback ends_fallback_then ends_silent_queued)
  show ?thesis
    unfolding push_message_def Let_def
    by (intro ends_silent branches after) (simp_all add: none)
qed

lemma ends_body: "task_ends notice_calls body_shown (push_body E payload) []"
proof (cases "is_challenge payload")
  case (Some b)
  show ?thesis
  proof (cases b)
    case True
    have "task_ends notice_calls body_shown (flagged True (lift_prog (confirm_challenge payload))) [(setup_note, True)]"
      by (intro ends_flagged task_ends_lift op_ends_still) (auto split: sum.split)
    then have "task_ends notice_calls body_shown
        (bindT (flagged False (lift_prog (show_notification setup_note)))
          (\<lambda>_. flagged True (lift_prog (confirm_challenge payload)))) []"
      by (intro ends_bind_flagged task_ends_lift ends_show) simp_all
    then show ?thesis by (simp add: push_body_def Some True)
  next
    case False
    have "task_ends notice_calls body_shown
        (bindT (flagged False (lift_prog read_push_config)) (\<lambda>config.
          if \<not> truthy (js_opt ''deliveryKey'' config) \<or> \<not> truthy (js_opt ''managementKey'' config)
             \<or> \<not> truthy (js_opt ''generation'' config)
          then display_fallback
          else push_message E payload config)) []"
      by (rule ends_silent) (auto intro: ends_fallback ends_message)
    then show ?thesis by (simp add: push_body_def Some False)
  qed
qed (simp add: push_body_def)

text \<open>A push handler returns after one notification; it fails only when the fallback has been refused.\<close>

definition visibly_settled :: "(notice \<times> bool) list \<Rightarrow> sw_error + unit \<Rightarrow> bool" where
  "visibly_settled cs r =
     (case r of
        Inl e \<Rightarrow> e = PlatformFailure \<and> shown_count cs = 0 \<and> (\<exists>earlier. cs = (fallback_note, False) # earlier)
      | Inr _ \<Rightarrow> shown_count cs = 1)"

lemma ends_push: "task_ends notice_calls visibly_settled (push_handler E data) []"
proof -
  have fallback: "task_ends notice_calls visibly_settled (lift_prog show_fallback_notification) cs"
    if "shown_count cs = 0" for cs
    unfolding show_fallback_notification_def
    by (intro task_ends_lift ends_show) (simp_all add: visibly_settled_def that)
  show ?thesis
    unfolding push_handler_def
    by (rule task_ends_catchT, rule task_ends_weaken [OF ends_body])
      (auto simp: body_shown_def fallback visibly_settled_def split: sum.splits)
qed

text \<open>C23: Every push is answered. Whatever the other handlers, the pages and the browser do meanwhile: a push
  handler that has returned has, with its own calls, shown exactly one notification; one that has
  failed has shown none, and its last call was to show the fallback, which the browser refused. The
  calls counted are those of the handler and of the operations it waited for, in any run of the worker
  from the moment the handler starts; every run has such a list of calls.
\<close>

theorem push_is_visible:
  "i < length (wk_tasks s) \<Longrightarrow> wk_tasks s ! i = Running (push_handler E data) \<Longrightarrow>
     (worker_step (sw_handler E) outside_step)\<^sup>*\<^sup>* s s' \<Longrightarrow>
   (\<exists>calls. follows (sw_handler E) outside_step notice_calls i s calls s') \<and>
   (\<forall>calls. follows (sw_handler E) outside_step notice_calls i s calls s' \<longrightarrow>
     (wk_tasks s' ! i = Running (TRet ()) \<longrightarrow> length (filter snd calls) = 1) \<and>
     (\<forall>e. wk_tasks s' ! i = Running (TRaise e) \<longrightarrow>
        e = PlatformFailure \<and> filter snd calls = [] \<and> (\<exists>earlier. calls = (fallback_note, False) # earlier)))"
proof -
  assume i: "i < length (wk_tasks s)" "wk_tasks s ! i = Running (push_handler E data)"
    and steps: "(worker_step (sw_handler E) outside_step)\<^sup>*\<^sup>* s s'"
  have "state_ends notice_calls visibly_settled (wk_tasks s' ! i) calls"
    if "follows (sw_handler E) outside_step notice_calls i s calls s'" for calls
    by (rule follows_ends [OF that]) (simp_all add: i(2) ends_push notice_calls_none)
  then show ?thesis
    using follows_steps [OF steps i(1)]
    by (fastforce simp: visibly_settled_def shown_count_def)
qed

lemma reachable_steps:
  "worker_reachable handler rely s \<Longrightarrow> (worker_step handler rely)\<^sup>*\<^sup>* s s' \<Longrightarrow> worker_reachable handler rely s'"
  by (rotate_tac, induction rule: rtranclp_induct) (auto intro: worker_reachable.step)

section \<open>Changing and clearing the account\<close>

lemma run_platform [simp]:
  "run (platform f) w = (let w' = w\<lparr>dv_oracle := stl (dv_oracle w)\<rparr>
     in if shd (dv_oracle w) then map_prod Inr id (f w') else (Inl PlatformFailure, w'))"
  by (simp add: platform_def)

lemma run_badge:
  "run (sync_badge E u) w = (r, w') \<Longrightarrow> r = Inr () \<and> dv_config w' = dv_config w \<and> dv_notes w' = dv_notes w"
  by (auto simp: sync_badge_def ignoring_def Let_def split: if_splits)

lemma run_badge_clears:
  assumes "run (sync_badge E (Fin 0)) w = (r, w')" and "sw_can_clear_badge E" and "shd (dv_oracle w)"
  shows "dv_badge w' = 0"
  using assms by (auto simp: sync_badge_def badge_count_def ignoring_def Let_def)

text \<open>C25: Installing another configuration leaves no notification of the previous generation and, as long
  as the browser's calls succeed, no badge; clearing the configuration leaves no notification at all.
\<close>

theorem account_change_leaves_nothing:
  "run (set_push_config E config) w = (Inr v, w') \<Longrightarrow> truthy config \<Longrightarrow> truthy (stored_config w) \<Longrightarrow>
     \<not> same_push_config (stored_config w) config \<Longrightarrow>
     stored_config w' = config \<and>
     (\<forall>n \<in> set (dv_notes w'). \<not> (is_str (note_generation n) \<and> note_generation n = js_opt ''generation'' (stored_config w))) \<and>
     (sw_can_clear_badge E \<longrightarrow> dv_oracle w = sconst True \<longrightarrow> dv_badge w' = 0)"
proof -
  assume a: "run (set_push_config E config) w = (Inr v, w')" "truthy config" "truthy (stored_config w)"
    "\<not> same_push_config (stored_config w) config"
  obtain w1 w2 r where w1: "run (dismiss_notifications_for_generation (js_opt ''generation'' (stored_config w)))
        (w\<lparr>dv_oracle := stl (stl (dv_oracle w)), dv_config := Some config\<rparr>) = (Inr (), w1)"
      and w2: "run (sync_badge E (Fin 0)) w1 = (r, w2)" "w' = w2"
    using a(1,3,4) a(2)
    by (auto simp: set_push_config_def read_push_config_def write_push_config_def Let_def split: if_splits sum.splits prod.splits
        dest: run_badge)
  have w1': "dv_config w1 = Some config \<and>
      (\<forall>n \<in> set (dv_notes w1). \<not> (is_str (note_generation n) \<and> note_generation n = js_opt ''generation'' (stored_config w)))"
    using w1 by (auto simp: dismiss_notifications_for_generation_def close_notes_def Let_def elim!: is_strE split: if_splits)
  have "dv_oracle w = sconst True \<Longrightarrow> shd (dv_oracle w1)"
    using w1 by (auto simp: dismiss_notifications_for_generation_def close_notes_def Let_def split: if_splits)
  then show ?thesis
    using w1' run_badge [OF w2(1)] run_badge_clears [OF w2(1)] w2(2) a(2) by (auto simp: stored_config_def)
qed

theorem sign_out_clears:
  "run (clear_push_config_for_generation E g d) w = (Inr v, w') \<Longrightarrow>
     v = JBool (clears_config g d (case dv_config w of Some c \<Rightarrow> c | None \<Rightarrow> JUndef)) \<and>
     (v = JBool True \<longrightarrow> stored_config w' = JNull \<and> dv_notes w' = []) \<and>
     (v = JBool False \<longrightarrow> dv_config w' = dv_config w \<and> dv_notes w' = dv_notes w)"
proof -
  assume a: "run (clear_push_config_for_generation E g d) w = (Inr v, w')"
  show ?thesis
  proof (cases "clears_config g d (case dv_config w of Some c \<Rightarrow> c | None \<Rightarrow> JUndef)")
    case True
    then show ?thesis
      using a by (auto simp: clear_push_config_for_generation_def clear_push_config_def dismiss_all_notifications_def
          close_notes_def Let_def stored_config_def split: if_splits sum.splits prod.splits option.splits dest!: run_badge)
  next
    case False
    then show ?thesis
      using a by (auto simp: clear_push_config_for_generation_def clear_push_config_def Let_def split: if_splits)
  qed
qed

section \<open>Where a click leads\<close>

lemma hex_digit_alnum: "n < 16 \<Longrightarrow> is_alnum (hex_digit n)"
  by (simp add: hex_digit_def is_alnum_def is_digit_def is_upper_def code_of_def)

definition route_char :: "char \<Rightarrow> bool" where
  "route_char c \<longleftrightarrow> uri_unreserved c \<or> c = CHR ''%''"

lemma encode_route_chars: "list_all route_char (encode_uri_component s)"
proof -
  have "unat (b :: 8 word) div 16 < 16" for b using unsigned_less [of b] by (simp add: div_less_iff_less_mult)
  then have "list_all route_char (percent_byte b)" for b
    by (simp add: percent_byte_def route_char_def uri_unreserved_def hex_digit_alnum)
  then show ?thesis
    by (induction s) (auto simp: encode_uri_component_def route_char_def list_all_iff)
qed

text \<open>A click on a notification leads to the room it names only if the stored configuration has the
  generation of the notification and hashes to its owner; otherwise it leads to the start page. The
  room and the event are single path segments, whatever characters they have.
\<close>

theorem click_opens_own_room:
  "run (click_hash E data) w = (Inr h, w') \<Longrightarrow>
     h = ''#/'' \<or>
     (js_opt ''generation'' (stored_config w) = js_opt ''generation'' data \<and>
      js_opt ''owner'' data = JStr (sw_hash E (js_opt ''deliveryKey'' (stored_config w))) \<and>
      (\<exists>room rest. js_opt ''roomId'' data = JStr room \<and> h = ''#/room/'' @ encode_uri_component room @ rest \<and>
         list_all route_char (encode_uri_component room) \<and>
         (rest = [] \<or> (\<exists>seg. rest = ''/event/'' @ seg \<and> list_all route_char seg))))"
proof -
  assume a: "run (click_hash E data) w = (Inr h, w')"
  show ?thesis
  proof (cases "h = ''#/''")
    case False
    have "\<exists>room. js_opt ''roomId'' data = JStr room \<and>
        h = ''#/room/'' @ encode_uri_component room @ event_suffix (js_opt ''eventId'' data)"
      "js_same (js_opt ''generation'' (stored_config w)) (js_opt ''generation'' data)"
      "js_opt ''owner'' data = JStr (sw_hash E (js_opt ''deliveryKey'' (stored_config w)))"
      using a False
      by (auto simp: click_hash_def read_push_config_def hash_push_identifier_def Let_def room_text_def
          elim!: is_strE split: if_splits)
    moreover have "event_suffix v = [] \<or> (\<exists>seg. event_suffix v = ''/event/'' @ seg \<and> list_all route_char seg)" for v
      by (auto simp: event_suffix_def encode_route_chars)
    ultimately show ?thesis using encode_route_chars js_same_eq by blast
  qed simp
qed

end
