(* ===== verification/Worker_Examples.thy ===== *)
theory Worker_Examples
  imports Worker_Safety
begin

text \<open>
  A worker with one handler, run step by step; the concrete worker of the witnesses.
\<close>

section \<open>One handler alone\<close>

fun advance :: "'w \<times> ('w, 'e, 'q, 'x, 'a) task_state \<Rightarrow> 'w \<times> ('w, 'e, 'q, 'x, 'a) task_state" where
  "advance (w, Running (TAct f)) = (snd (f w), Running (fst (f w)))"
| "advance (w, Running (TQueue p k)) = (w, Waiting p k)"
| "advance (w, Waiting (Act f) k) = (snd (f w), Waiting (fst (f w)) k)"
| "advance (w, Waiting (Ret a) k) = (w, Running (k (Inr a)))"
| "advance (w, Waiting (Raise e) k) = (w, Running (k (Inl e)))"
| "advance s = s"

definition alone :: "'w \<times> ('w, 'e, 'q, 'x, 'a) task_state \<Rightarrow> ('w, 'e, 'q, 'x, 'a) worker" where
  "alone s = \<lparr>wk_world = fst s, wk_tasks = [snd s], wk_queue = (if waiting (snd s) then [0] else [])\<rparr>"

lemma advance_step: "\<not> settled (snd s) \<Longrightarrow> work_step (alone s) (alone (advance s))"
proof (induction s rule: advance.induct)
  case (1 w f)
  show ?case using work_step.act [of 0 "alone (w, Running (TAct f))" f] by (simp add: alone_def)
next
  case (2 w p k)
  show ?case using work_step.enqueue [of 0 "alone (w, Running (TQueue p k))" p k] by (simp add: alone_def)
next
  case (3 w f k)
  show ?case using work_step.operate [of "alone (w, Waiting (Act f) k)" 0 "[]" f k] by (simp add: alone_def)
next
  case (4 w a k)
  show ?case using work_step.return [of "alone (w, Waiting (Ret a) k)" 0 "[]" a k] by (simp add: alone_def)
next
  case (5 w e k)
  show ?case using work_step.fail [of "alone (w, Waiting (Raise e) k)" 0 "[]" e k] by (simp add: alone_def)
qed (simp_all add: settled_def)

lemma advance_settled: "settled (snd s) \<Longrightarrow> advance s = s"
  by (cases s rule: advance.cases) (simp_all add: settled_def)

lemma alone_start: "handler t \<Longrightarrow> worker_reachable handler rely (alone (w, Running t))"
  using worker_reachable.step [OF worker_reachable.start worker_step.arrive] by (fastforce simp: alone_def)

lemma alone_reachable:
  "worker_reachable handler rely (alone s) \<Longrightarrow> worker_reachable handler rely (alone ((advance ^^ n) s))"
proof (induction n)
  case (Suc n)
  then show ?case
    using advance_step [of "(advance ^^ n) s"] advance_settled [of "(advance ^^ n) s"]
    by (cases "settled (snd ((advance ^^ n) s))") (auto intro: worker_reachable.step worker_step.work)
qed simp

section \<open>A concrete worker\<close>

definition sample_sw :: sw_env where
  "sample_sw = \<lparr>sw_hash = (\<lambda>_. ''42''), sw_parse_url = (\<lambda>_. None), sw_href = (\<lambda>h. ''https://subetha.example/'' @ h),
     sw_origin = ''https://subetha.example'', sw_build_id = ''b'', sw_had_active = True, sw_can_set_badge = True,
     sw_can_clear_badge = True, sw_subscription = JNull\<rparr>"

definition sample_config :: jsval where
  "sample_config = JObj [(''deliveryKey'', JStr ''d''), (''managementKey'', JStr ''m''), (''generation'', JStr ''g'')]"

definition sample_device :: device where
  "sample_device = \<lparr>dv_config = Some sample_config, dv_lifecycle = None, dv_notes = [], dv_shown = [], dv_refused = [], dv_badge = 0,
     dv_clients = [], dv_caches = [], dv_sent = [], dv_oracle = sconst True\<rparr>"

definition sample_push :: jsval where
  "sample_push = JObj [(''kind'', JStr ''matrix''), (''roomId'', JStr ''!r''), (''eventId'', JStr ''$e''),
     (''owner'', JStr ''42''), (''unread'', js_int 3)]"

lemmas push_eval = push_handler_def push_body_def push_message_def Let_def is_challenge_def
  eval_nat_numeral read_push_config_def platform_def flagged_def stored_config_def truthy_def lift_prog.simps
  hash_push_identifier_def same_push_config_def queued_def show_notification_for_generation_def
  show_notification_def atom_def sample_sw_def sample_push_def sample_config_def sample_device_def

lemma push_shows:
  defines "x \<equiv> (sample_device, Running (push_handler sample_sw (Some sample_push)))"
  shows "dv_shown (fst ((advance ^^ 5) x)) = []"
    "dv_shown (fst ((advance ^^ 6) x)) = [push_note False (JStr ''!r'') (JStr ''$e'') (JStr ''g'') ''42'']"
    "\<not> settled (snd ((advance ^^ 5) x))"
  unfolding x_def by (simp_all add: push_eval settled_def)

lemma push_finishes:
  "snd ((advance ^^ 13) (sample_device, Running (push_handler sample_sw (Some sample_push)))) = Running (TRet ())"
  by (simp add: push_eval sync_badge_for_generation_def sync_badge_def ignoring_def)

lemma alone_steps: "(worker_step handler rely)\<^sup>*\<^sup>* (alone s) (alone ((advance ^^ n) s))"
proof (induction n)
  case (Suc n)
  then show ?case
    using advance_step [of "(advance ^^ n) s"] advance_settled [of "(advance ^^ n) s"]
    by (cases "settled (snd ((advance ^^ n) s))") (auto intro: rtranclp.rtrancl_into_rtrancl worker_step.work)
qed simp

lemma sample_started: "sw_reachable sample_sw (alone (sample_device, Running (handle_event sample_sw ev)))"
  by (rule alone_start) simp

lemma push_event [simp]: "handle_event E (PushEvent data) = push_handler E data"
  by (simp add: handle_event_def)

section \<open>Witnesses\<close>

theorem no_foreign_notification_witness:
  "\<exists>s s' n. sw_reachable sample_sw s \<and> work_step s s' \<and> dv_shown (wk_world s') = n # dv_shown (wk_world s) \<and>
     note_generation n = JStr ''g'' \<and> js_opt ''generation'' (stored_config (wk_world s)) = JStr ''g''"
proof -
  let ?x = "(sample_device, Running (push_handler sample_sw (Some sample_push)))"
  let ?s = "alone ((advance ^^ 5) ?x)" and ?s' = "alone ((advance ^^ 6) ?x)"
  have r: "sw_reachable sample_sw ?s" using sample_started [of "PushEvent (Some sample_push)"] alone_reachable by simp
  have "work_step (alone ((advance ^^ 5) ?x)) (alone (advance ((advance ^^ 5) ?x)))"
    using push_shows(3) by (rule advance_step)
  then have step: "work_step ?s ?s'" by (simp add: numeral_eq_Suc)
  have n: "dv_shown (wk_world ?s') = push_note False (JStr ''!r'') (JStr ''$e'') (JStr ''g'') ''42'' # dv_shown (wk_world ?s)"
    using push_shows(1,2) by (simp add: alone_def)
  have "stored_config (wk_world ?s) \<noteq> JNull"
    by (simp add: alone_def push_eval)
  then show ?thesis using no_foreign_notification [OF r step n] r step n by fastforce
qed

theorem push_is_visible_witness:
  "\<exists>s' calls. wk_tasks s' ! 0 = Running (TRet ()) \<and>
     follows (sw_handler sample_sw) outside_step notice_calls 0
       (alone (sample_device, Running (push_handler sample_sw (Some sample_push)))) calls s' \<and>
     length (filter snd calls) = 1"
proof -
  let ?x = "(sample_device, Running (push_handler sample_sw (Some sample_push)))"
  let ?s' = "alone ((advance ^^ 13) ?x)"
  have steps: "(worker_step (sw_handler sample_sw) outside_step)\<^sup>*\<^sup>* (alone ?x) ?s'" by (rule alone_steps)
  have run: "0 < length (wk_tasks (alone ?x))" "wk_tasks (alone ?x) ! 0 = Running (push_handler sample_sw (Some sample_push))"
    by (simp_all add: alone_def)
  have fin: "wk_tasks ?s' ! 0 = Running (TRet ())" using push_finishes by (simp add: alone_def)
  then show ?thesis using push_is_visible [OF run steps] by blast
qed

theorem worker_comes_to_rest_witness:
  "\<exists>s. sw_reachable sample_sw s \<and> (\<nexists>s'. work_step s s') \<and> wk_tasks s \<noteq> [] \<and> list_all settled (wk_tasks s)"
proof -
  let ?s = "alone ((advance ^^ 13) (sample_device, Running (push_handler sample_sw (Some sample_push))))"
  have r: "sw_reachable sample_sw ?s"
    using sample_started [of "PushEvent (Some sample_push)"] alone_reachable by simp
  have t: "wk_tasks ?s = [Running (TRet ())]" "wk_queue ?s = []" using push_finishes by (simp_all add: alone_def)
  have "\<nexists>s'. work_step ?s s'"
  proof
    assume "\<exists>s'. work_step ?s s'"
    then obtain s' where "work_step ?s s'" by blast
    then show False by (cases rule: work_step.cases) (simp_all add: t)
  qed
  then show ?thesis using worker_comes_to_rest [of sample_sw ?s] r t by auto
qed

definition sample_click :: notice where
  "sample_click = push_note False (JStr ''!r/x'') (JStr ''$e'') (JStr ''g'') ''42''"

lemma click_runs:
  defines "x \<equiv> (sample_device, Running (handle_event sample_sw (ClickEvent sample_click)))"
  shows "dv_sent (fst ((advance ^^ 5) x)) =
       OpenWindow (''https://subetha.example/#/room/'' @ encode_uri_component ''!r/x'' @ event_suffix (JStr ''$e'')) #
       dv_sent (fst ((advance ^^ 4) x))"
    "\<not> settled (snd ((advance ^^ 4) x))"
  unfolding x_def
  by (simp_all add: push_eval settled_def handle_event_def click_handler_def click_hash_def close_clicked_def match_windows_def
      requested_def sample_click_def push_note_def room_text_def enumerate_eq_zip)

theorem worker_navigates_home_witness:
  "\<exists>s s' t. sw_reachable sample_sw s \<and> work_step s s' \<and> dv_sent (wk_world s') = OpenWindow t # dv_sent (wk_world s) \<and>
     (\<exists>h. JStr t = JStr (sw_href sample_sw h))"
proof -
  let ?x = "(sample_device, Running (handle_event sample_sw (ClickEvent sample_click)))"
  let ?s = "alone ((advance ^^ 4) ?x)" and ?s' = "alone ((advance ^^ 5) ?x)"
  have r: "sw_reachable sample_sw ?s" using sample_started alone_reachable by blast
  have "work_step (alone ((advance ^^ 4) ?x)) (alone (advance ((advance ^^ 4) ?x)))"
    using click_runs(2) by (rule advance_step)
  then have step: "work_step ?s ?s'" by (simp add: numeral_eq_Suc)
  obtain t where t: "dv_sent (wk_world ?s') = OpenWindow t # dv_sent (wk_world ?s)"
    using click_runs(1) by (simp add: alone_def)
  have "(\<exists>h. JStr t = JStr (sw_href sample_sw h)) \<or>
      (\<exists>t' u. JStr t = JStr t' \<and> sw_parse_url sample_sw t' = Some u \<and> url_origin u = sw_origin sample_sw)"
    by (rule worker_navigates_home [OF r step]) (use t in blast)
  then show ?thesis using r step t by (auto simp: sample_sw_def)
qed

theorem account_change_leaves_nothing_witness:
  "\<exists>v w'. run (set_push_config sample_sw (JObj [(''generation'', JStr ''next'')]))
      (sample_device\<lparr>dv_notes := [push_note False JNull JNull (JStr ''g'') ''42''], dv_badge := 3\<rparr>) = (Inr v, w') \<and>
     stored_config w' = JObj [(''generation'', JStr ''next'')] \<and> dv_badge w' = 0 \<and> dv_notes w' = []"
proof -
  let ?c = "JObj [(''generation'', JStr ''next'')]"
  let ?w = "sample_device\<lparr>dv_notes := [push_note False JNull JNull (JStr ''g'') ''42''], dv_badge := 3\<rparr>"
  have c: "truthy ?c" "truthy (stored_config ?w)" "\<not> same_push_config (stored_config ?w) ?c"
    "js_opt ''generation'' (stored_config ?w) = JStr ''g''"
    by (simp_all add: truthy_def stored_config_def sample_device_def sample_config_def same_push_config_def)
  have r: "run (set_push_config sample_sw ?c) ?w = (Inr JUndef, ?w\<lparr>dv_config := Some ?c, dv_notes := [], dv_badge := 0\<rparr>)"
    by (simp add: set_push_config_def read_push_config_def write_push_config_def dismiss_notifications_for_generation_def
        close_notes_def sync_badge_def ignoring_def badge_count_def sample_device_def stored_config_def sample_config_def
        same_push_config_def truthy_def sample_sw_def)
  show ?thesis using account_change_leaves_nothing [OF r c(1-3)] r by (auto simp: sample_device_def sample_sw_def)
qed

theorem sign_out_clears_witness:
  "\<exists>w'. run (clear_push_config_for_generation sample_sw (JStr ''g'') JUndef) sample_device = (Inr (JBool True), w') \<and>
     stored_config w' = JNull"
proof -
  have r: "run (clear_push_config_for_generation sample_sw (JStr ''g'') JUndef) sample_device =
      (Inr (JBool True), sample_device\<lparr>dv_config := None\<rparr>)"
    by (simp add: clear_push_config_for_generation_def clear_push_config_def clears_config_def dismiss_all_notifications_def
        close_notes_def sync_badge_def ignoring_def badge_count_def sample_device_def sample_config_def truthy_def sample_sw_def)
  show ?thesis using sign_out_clears [OF r] r by blast
qed

theorem click_opens_own_room_witness:
  "\<exists>w' h. run (click_hash sample_sw (nt_data sample_click)) sample_device = (Inr h, w') \<and>
     prefix (''#/room/'' @ encode_uri_component ''!r/x'') h"
proof -
  obtain h w' where r: "run (click_hash sample_sw (nt_data sample_click)) sample_device = (Inr h, w')"
      and h: "h \<noteq> ''#/''"
    by (simp add: click_hash_def read_push_config_def hash_push_identifier_def sample_device_def sample_config_def
        stored_config_def truthy_def sample_sw_def sample_click_def push_note_def)
  then show ?thesis using click_opens_own_room [OF r] by (auto simp: sample_click_def push_note_def prefix_def)
qed

end
