(* ===== verification/Login.thy ===== *)
theory Login
  imports Session_Operations
begin

text \<open>
  lib/matrix/auth.ts: finding a homeserver, the checks on OAuth and SSO addresses, starting a
  redirect login and completing it. The Matrix SDK, the network, the URL and query parsers and the
  clock are parameters; the browser is the pending entry of the session storage, the registered
  clients of the local storage, the address bar, and what the login did: addresses visited, tokens
  handed to revocation. A session is the object \<open>createSession\<close> builds, as it is later given to the
  session store.
\<close>

section \<open>Environment and browser\<close>

record http_response =
  hr_ok :: bool
  hr_status :: int
  hr_body :: "jsval option"

record login_response =
  lr_user_id :: string
  lr_device_id :: string
  lr_access_token :: string
  lr_refresh_token :: "string option"
  lr_expires_in_ms :: "int option"

record login_identity =
  li_user_id :: string
  li_device_id :: "string option"

record issued_tokens =
  it_access_token :: string
  it_refresh_token :: "string option"
  it_expires_in :: "int option"

record login_flow =
  lf_type :: string
  lf_providers :: "(string \<times> string \<times> string option) list"

text \<open>When a revocation request settles, if it does, and whether it succeeded.\<close>

type_synonym revocation = "(int \<times> bool) option"

record login_env =
  lg_parse_url :: "string \<Rightarrow> url option"
  lg_production :: bool
  lg_app_origin :: "string option"
  lg_crypto :: web_crypto
  lg_parse_query :: "string \<Rightarrow> (string \<times> string) list"
  lg_fetch :: "string \<Rightarrow> http_response option"
  lg_now :: int
  lg_password_login :: "string \<Rightarrow> string \<Rightarrow> string \<Rightarrow> login_response option"
  lg_token_login :: "string \<Rightarrow> string \<Rightarrow> login_response option"
  lg_whoami :: "string \<Rightarrow> string \<Rightarrow> login_identity option"
  lg_login_flows :: "string \<Rightarrow> login_flow list option"
  lg_auth_metadata :: "string \<Rightarrow> jsval option"
  lg_register_client :: "jsval \<Rightarrow> jsval \<Rightarrow> string option"
  lg_code_verifier :: string
  lg_authorization_url :: "jsval \<Rightarrow> jsval \<Rightarrow> string \<Rightarrow> string option"
  lg_grant :: "jsval \<Rightarrow> jsval \<Rightarrow> string \<Rightarrow> issued_tokens option"
  lg_sso_login_url :: "string \<Rightarrow> string \<Rightarrow> string option \<Rightarrow> string"
  lg_revocation :: "string \<Rightarrow> revocation"

record browser =
  br_pending :: "string option"
  br_clients :: "string \<Rightarrow> string option"
  br_origin :: string
  br_protocol :: string
  br_pathname :: string
  br_search :: string
  br_hash :: string
  br_visited :: "string list"
  br_revoked :: "string list"
  br_entropy :: entropy

datatype login_error =
    LoginError string
  | InsecureHomeserver string
  | LoginVaultError vault_error
  | Thrown
  | RevocationUnconfirmed login_error

type_synonym 'a login_op = "browser \<Rightarrow> (login_error + 'a) \<times> browser"

definition login_result :: "login_error + 'a \<Rightarrow> 'a login_op" where
  "login_result r b = (r, b)"

definition bindL :: "'a login_op \<Rightarrow> ('a \<Rightarrow> 'b login_op) \<Rightarrow> 'b login_op" where
  "bindL m k b = (case m b of (Inl e, b') \<Rightarrow> (Inl e, b') | (Inr x, b') \<Rightarrow> k x b')"

definition login_fail :: "string \<Rightarrow> login_error + 'a" where
  "login_fail m = Inl (LoginError m)"

definition or_thrown :: "'a option \<Rightarrow> login_error + 'a" where
  "or_thrown r = (case r of None \<Rightarrow> Inl Thrown | Some x \<Rightarrow> Inr x)"

definition allowed_base :: "login_env \<Rightarrow> string \<Rightarrow> login_error + string" where
  "allowed_base E raw =
     (case assert_allowed_homeserver_url (lg_parse_url E) (lg_production E) (lg_app_origin E) raw of
        Inl m \<Rightarrow> Inl (InsecureHomeserver m)
      | Inr base \<Rightarrow> Inr base)"

section \<open>Revocation of issued tokens\<close>

definition legacy_sso_max_age_ms :: int where "legacy_sso_max_age_ms = 10 * 60 * 1000"

definition issued_token_revocation_timeout_ms :: int where "issued_token_revocation_timeout_ms = 10000"

definition fulfilled_within :: "int \<Rightarrow> revocation \<Rightarrow> bool" where
  "fulfilled_within limit r \<longleftrightarrow> (case r of Some (t, ok) \<Rightarrow> ok \<and> t < limit | None \<Rightarrow> False)"

text \<open>
  The tokens to revoke, the refresh token first and only if there is one; every request starts at
  once, and the answer is true when all have succeeded before the deadline.
\<close>

definition tokens_to_revoke :: "issued_tokens \<Rightarrow> string list" where
  "tokens_to_revoke t =
     (case it_refresh_token t of None \<Rightarrow> [] | Some r \<Rightarrow> if r = [] then [] else [r]) @ [it_access_token t]"

definition revoke_issued_oauth_tokens_within_deadline :: "login_env \<Rightarrow> issued_tokens \<Rightarrow> int \<Rightarrow> bool login_op" where
  "revoke_issued_oauth_tokens_within_deadline E t limit b =
     (Inr (list_all (\<lambda>x. fulfilled_within limit (lg_revocation E x)) (tokens_to_revoke t)),
      b\<lparr>br_revoked := br_revoked b @ tokens_to_revoke t\<rparr>)"

section \<open>Addresses\<close>

definition legacy_sso_state_param :: string where "legacy_sso_state_param = ''subetha_sso_state''"

definition oauth_url_fields :: "string list" where
  "oauth_url_fields = [''account_management_uri'', ''authorization_endpoint'', ''device_authorization_endpoint'',
     ''issuer'', ''registration_endpoint'', ''revocation_endpoint'', ''token_endpoint'']"

definition assert_safe_oauth_navigation_url :: "login_env \<Rightarrow> string \<Rightarrow> login_error + string" where
  "assert_safe_oauth_navigation_url E v =
     (case lg_parse_url E v of
        None \<Rightarrow> login_fail ''The homeserver returned an invalid OAuth URL.''
      | Some u \<Rightarrow>
          if url_protocol u \<noteq> ''https:'' then login_fail ''OAuth endpoints must use HTTPS.''
          else if url_username u \<noteq> [] \<or> url_password u \<noteq> []
          then login_fail ''OAuth endpoints must not contain credentials.''
          else Inr (url_href u))"

text \<open>One endpoint of the metadata: absent, or a safe address without a fragment.\<close>

definition safe_oauth_field :: "login_env \<Rightarrow> jsval \<Rightarrow> string \<Rightarrow> login_error + unit" where
  "safe_oauth_field E metadata field =
     (case js_opt field metadata of
        JUndef \<Rightarrow> Inr ()
      | JStr s \<Rightarrow>
          sum_bind (assert_safe_oauth_navigation_url E s) (\<lambda>href.
          case lg_parse_url E href of
            None \<Rightarrow> Inl Thrown
          | Some u \<Rightarrow> if url_hash u \<noteq> [] then login_fail ''OAuth metadata endpoints must not contain fragments.''
                      else Inr ())
      | _ \<Rightarrow> login_fail (''The homeserver returned an invalid OAuth '' @ field @ ''.''))"

fun all_fields :: "(string \<Rightarrow> login_error + unit) \<Rightarrow> string list \<Rightarrow> login_error + unit" where
  "all_fields f [] = Inr ()"
| "all_fields f (x # xs) = sum_bind (f x) (\<lambda>_. all_fields f xs)"

definition assert_safe_oauth_metadata :: "login_env \<Rightarrow> jsval \<Rightarrow> login_error + jsval" where
  "assert_safe_oauth_metadata E metadata =
     (if \<not> (is_object metadata \<or> is_array metadata)
      then login_fail ''The homeserver returned invalid OAuth metadata.''
      else sum_bind (all_fields (safe_oauth_field E metadata) oauth_url_fields) (\<lambda>_. Inr metadata))"

definition assert_safe_sso_navigation_url :: "login_env \<Rightarrow> string \<Rightarrow> string \<Rightarrow> login_error + string" where
  "assert_safe_sso_navigation_url E v base =
     (case lg_parse_url E v of
        None \<Rightarrow> login_fail ''The homeserver returned an invalid SSO URL.''
      | Some u \<Rightarrow>
          (case lg_parse_url E base of
             None \<Rightarrow> Inl Thrown
           | Some expected \<Rightarrow>
               if url_origin u \<noteq> url_origin expected \<or> url_username u \<noteq> [] \<or> url_password u \<noteq> []
               then login_fail ''The homeserver returned an unsafe SSO URL.''
               else Inr (url_href u)))"

section \<open>Error messages\<close>

text \<open>\<^verbatim>\<open>/fetch|network|cors/i.test(message)\<close>; the fields read are strings where present.\<close>

definition network_message :: "string \<Rightarrow> bool" where
  "network_message m \<longleftrightarrow> list_ex (\<lambda>w. includes_str w (to_lower m)) [''fetch'', ''network'', ''cors'']"

definition humanize_matrix_error :: "jsval \<Rightarrow> string" where
  "humanize_matrix_error e =
     (let other = ''Something improbable happened while contacting the homeserver.'' in
      if \<not> (is_object e \<or> is_array e) then other
      else if truthy (js_opt ''error'' (js_opt ''data'' e)) then text_of (js_opt ''error'' (js_opt ''data'' e))
      else if js_opt ''errcode'' e = JStr ''M_FORBIDDEN'' then ''The homeserver declined those credentials.''
      else if js_opt ''errcode'' e = JStr ''M_LIMIT_EXCEEDED''
      then ''The homeserver is busy. Give it a moment, then try again.''
      else if truthy (js_opt ''message'' e) then
        (if network_message (text_of (js_opt ''message'' e))
         then ''The homeserver could not be reached from this browser. Check its address and browser-client support.''
         else text_of (js_opt ''message'' e))
      else other)"

section \<open>Finding the homeserver\<close>

definition url_host :: "url \<Rightarrow> string" where
  "url_host u = url_hostname u @ (if url_port u = [] then [] else CHR '':'' # url_port u)"

definition is_http_address :: "string \<Rightarrow> bool" where
  "is_http_address s \<longleftrightarrow> prefix ''http://'' (to_lower s) \<or> prefix ''https://'' (to_lower s)"

text \<open>\<^verbatim>\<open>value.slice(value.indexOf(":") + 1)\<close> of a Matrix id.\<close>

definition server_part :: "string \<Rightarrow> string" where
  "server_part v =
     (case v of
        CHR ''@'' # r \<Rightarrow> (case index_char (CHR '':'') v of None \<Rightarrow> v | Some i \<Rightarrow> drop (i + 1) v)
      | _ \<Rightarrow> v)"

definition normalize_homeserver_input :: "login_env \<Rightarrow> string \<Rightarrow> login_error + string \<times> string option" where
  "normalize_homeserver_input E raw =
     (let v = js_trim raw in
      if v = [] then login_fail ''Enter a Matrix ID, server name, or homeserver URL.''
      else if is_http_address v then
        sum_bind (allowed_base E v) (\<lambda>base.
        case lg_parse_url E base of
          None \<Rightarrow> Inl Thrown
        | Some u \<Rightarrow> Inr (url_host u, Some (url_origin u)))
      else let name = server_part v in
        if name = [] \<or> list_ex (\<lambda>c. is_js_space c \<or> c = CHR ''/'') name
        then login_fail ''That does not look like a Matrix server.''
        else Inr (name, None))"

text \<open>The base address of the well-known document, if it has one; anything that throws gives none.\<close>

definition well_known_base :: "login_env \<Rightarrow> string \<Rightarrow> jsval option" where
  "well_known_base E name =
     (case lg_fetch E (''https://'' @ name @ ''/.well-known/matrix/client'') of
        Some r \<Rightarrow>
          if \<not> hr_ok r then None
          else (case hr_body r of
                  None \<Rightarrow> None
                | Some body \<Rightarrow>
                    (let v = js_opt ''base_url'' (js_opt ''m.homeserver'' body)
                     in if truthy v then Some v else None))
      | None \<Rightarrow> None)"

definition homeserver_candidates :: "login_env \<Rightarrow> string \<Rightarrow> string option \<Rightarrow> jsval list" where
  "homeserver_candidates E name explicit =
     (case explicit of
        Some (c # cs) \<Rightarrow> [JStr (c # cs)]
      | _ \<Rightarrow> (case well_known_base E name of None \<Rightarrow> [] | Some v \<Rightarrow> [v]) @ [JStr (''https://'' @ name)])"

text \<open>The candidates in turn: the first one whose versions endpoint answers, or the last error.\<close>

definition try_candidate :: "login_env \<Rightarrow> jsval \<Rightarrow> login_error + string" where
  "try_candidate E candidate =
     (case candidate of
        JStr s \<Rightarrow>
          sum_bind (allowed_base E (strip_slash s)) (\<lambda>base.
          case lg_fetch E (base @ ''/_matrix/client/versions'') of
            None \<Rightarrow> Inl Thrown
          | Some r \<Rightarrow> if hr_ok r then Inr base
                      else login_fail (''The server returned '' @ int_digits (hr_status r) @ ''.''))
      | _ \<Rightarrow> Inl Thrown)"

fun first_working :: "login_env \<Rightarrow> login_error \<Rightarrow> jsval list \<Rightarrow> login_error + string" where
  "first_working E last_error [] = Inl last_error"
| "first_working E last_error (c # cs) =
     (case try_candidate E c of Inr base \<Rightarrow> Inr base | Inl e \<Rightarrow> first_working E e cs)"

definition discover_homeserver :: "login_env \<Rightarrow> string \<Rightarrow> login_error + string \<times> string" where
  "discover_homeserver E raw =
     sum_bind (normalize_homeserver_input E raw) (\<lambda>(name, explicit).
     sum_bind (first_working E (LoginError ''No compatible Matrix homeserver was found.'')
        (js_unique (homeserver_candidates E name explicit))) (\<lambda>base. Inr (base, name)))"

record login_capabilities =
  lc_base_url :: string
  lc_server_name :: string
  lc_password :: bool
  lc_token :: bool
  lc_sso :: bool
  lc_oauth :: bool
  lc_identity_providers :: "(string \<times> string \<times> string option) list"

definition sso_flow :: "login_flow \<Rightarrow> bool" where
  "sso_flow f \<longleftrightarrow> lf_type f = ''m.login.sso'' \<or> lf_type f = ''m.login.cas''"

definition inspect_login_capabilities :: "login_env \<Rightarrow> string \<Rightarrow> login_error + login_capabilities" where
  "inspect_login_capabilities E raw =
     sum_bind (discover_homeserver E raw) (\<lambda>(base, name).
     let flows = (case lg_login_flows E base of Some fs \<Rightarrow> fs | None \<Rightarrow> []);
         oauth = sum_bind (or_thrown (lg_auth_metadata E base)) (assert_safe_oauth_metadata E);
         sso = find sso_flow flows
     in Inr \<lparr>lc_base_url = base, lc_server_name = name,
             lc_password = list_ex (\<lambda>f. lf_type f = ''m.login.password'') flows,
             lc_token = list_ex (\<lambda>f. lf_type f = ''m.login.token'') flows,
             lc_sso = (sso \<noteq> None), lc_oauth = (case oauth of Inr _ \<Rightarrow> True | Inl _ \<Rightarrow> False),
             lc_identity_providers = (case sso of Some f \<Rightarrow> lf_providers f | None \<Rightarrow> [])\<rparr>)"

end
