(* ===== verification/Redirect_Login.thy ===== *)
theory Redirect_Login
  imports Login
begin

text \<open>
  lib/matrix/auth.ts, continued: the password and token logins, starting a redirect login, and
  completing it when the browser comes back.
\<close>

section \<open>New sessions\<close>

text \<open>\<open>createSession\<close> on the object a login builds: its fields, then a fresh key and prefix.\<close>

definition create_session_value :: "(string \<times> jsval) list \<Rightarrow> login_env \<Rightarrow> jsval login_op" where
  "create_session_value members E b =
     (case sum_bind (random_base64url (lg_crypto E) (Fin 32) (br_entropy b)) (\<lambda>(key, g).
        sum_bind (random_base64url (lg_crypto E) (Fin 16) g) (\<lambda>(name, g). Inr (key, name, g))) of
        Inl e \<Rightarrow> (Inl (LoginVaultError e), b)
      | Inr (key, name, g) \<Rightarrow>
          (Inr (JObj (members @ [(''cryptoStorageKey'', JStr key),
             (''cryptoDatabasePrefix'', JStr (''sub-etha-crypto-'' @ name))])), b\<lparr>br_entropy := g\<rparr>))"

definition str_or_undef :: "string option \<Rightarrow> jsval" where
  "str_or_undef s = (case s of None \<Rightarrow> JUndef | Some x \<Rightarrow> JStr x)"

text \<open>An expiry \<open>n\<close> time units of \<open>factor\<close> milliseconds from now; zero counts as missing.\<close>

definition expiry_value :: "int \<Rightarrow> int \<Rightarrow> int option \<Rightarrow> jsval" where
  "expiry_value now factor n = (case n of None \<Rightarrow> JUndef | Some k \<Rightarrow> if k = 0 then JUndef else js_int (now + k * factor))"

definition session_from_login :: "login_env \<Rightarrow> string \<Rightarrow> login_response \<Rightarrow> string \<Rightarrow> jsval login_op" where
  "session_from_login E base r kind =
     create_session_value [(''baseUrl'', JStr base), (''userId'', JStr (lr_user_id r)), (''deviceId'', JStr (lr_device_id r)),
       (''accessToken'', JStr (lr_access_token r)), (''refreshToken'', str_or_undef (lr_refresh_token r)),
       (''expiresAt'', expiry_value (lg_now E) 1 (lr_expires_in_ms r)), (''authKind'', JStr kind)] E"

definition login_with_password :: "login_env \<Rightarrow> string \<Rightarrow> string \<Rightarrow> string \<Rightarrow> jsval login_op" where
  "login_with_password E base user password =
     bindL (login_result (allowed_base E base)) (\<lambda>base.
     bindL (login_result (or_thrown (lg_password_login E base user password))) (\<lambda>r.
     session_from_login E base r ''password''))"

definition login_with_access_token :: "login_env \<Rightarrow> string \<Rightarrow> string \<Rightarrow> jsval login_op" where
  "login_with_access_token E base token =
     bindL (login_result (allowed_base E base)) (\<lambda>base.
     bindL (login_result (or_thrown (lg_whoami E base token))) (\<lambda>i.
     case li_device_id i of
       Some (c # cs) \<Rightarrow>
         create_session_value [(''baseUrl'', JStr base), (''userId'', JStr (li_user_id i)),
           (''deviceId'', JStr (c # cs)), (''accessToken'', JStr token), (''authKind'', JStr ''token'')] E
     | _ \<Rightarrow> login_result (login_fail ''This access token is not attached to a Matrix device.'')))"

section \<open>Starting a redirect login\<close>

text \<open>\<open>legacySsoRedirectUrl\<close>: the state is a Base64URL token, which a query holds as it is.\<close>

definition legacy_sso_redirect_url :: "string \<Rightarrow> string \<Rightarrow> string" where
  "legacy_sso_redirect_url origin state = origin @ ''/?'' @ legacy_sso_state_param @ ''='' @ state"

definition fresh_token :: "login_env \<Rightarrow> nat \<Rightarrow> string login_op" where
  "fresh_token E n b =
     (case random_base64url (lg_crypto E) (Fin (of_nat n)) (br_entropy b) of
        Inl e \<Rightarrow> (Inl (LoginVaultError e), b)
      | Inr (t, g) \<Rightarrow> (Inr t, b\<lparr>br_entropy := g\<rparr>))"

definition pending_sso :: "string \<Rightarrow> string \<Rightarrow> int \<Rightarrow> jsval" where
  "pending_sso base state created_at = JObj [(''kind'', JStr ''sso''), (''baseUrl'', JStr base), (''state'', JStr state),
     (''createdAt'', js_int created_at)]"

definition pending_oauth :: "string \<Rightarrow> string \<Rightarrow> jsval \<Rightarrow> jsval \<Rightarrow> jsval" where
  "pending_oauth base state metadata context = JObj [(''kind'', JStr ''oauth''), (''baseUrl'', JStr base), (''state'', JStr state),
     (''metadata'', metadata), (''context'', context)]"

definition store_pending :: "jsval \<Rightarrow> unit login_op" where
  "store_pending p b = (Inr (), b\<lparr>br_pending := Some (json_string p)\<rparr>)"

definition visit :: "string \<Rightarrow> unit login_op" where
  "visit u b = (Inr (), b\<lparr>br_visited := u # br_visited b\<rparr>)"

definition begin_sso :: "login_env \<Rightarrow> string \<Rightarrow> string option \<Rightarrow> unit login_op" where
  "begin_sso E base provider =
     bindL (login_result (allowed_base E base)) (\<lambda>base.
     bindL (fresh_token E 24) (\<lambda>state b.
     bindL (store_pending (pending_sso base state (lg_now E))) (\<lambda>_.
     bindL (login_result (assert_safe_sso_navigation_url E
       (lg_sso_login_url E base (legacy_sso_redirect_url (br_origin b) state) provider) base)) visit) b))"

definition oauth_context_js :: "string \<Rightarrow> string \<Rightarrow> string \<Rightarrow> string \<Rightarrow> jsval" where
  "oauth_context_js cid did verifier uri = JObj [(''clientId'', JStr cid), (''deviceId'', JStr did),
     (''codeVerifier'', JStr verifier), (''redirectUri'', JStr uri)]"

text \<open>The client of this homeserver: the stored id, or a newly registered one, which is stored.\<close>

definition oauth_client_id_for :: "login_env \<Rightarrow> string \<Rightarrow> jsval \<Rightarrow> string login_op" where
  "oauth_client_id_for E base metadata b =
     (case br_clients b base of
        Some (c # cs) \<Rightarrow> (Inr (c # cs), b)
      | _ \<Rightarrow>
          (case lg_register_client E metadata (JObj [(''application_type'', JStr ''web''), (''client_name'', JStr ''Sub-Etha''),
              (''client_uri'', JStr (br_origin b @ ''/'')), (''logo_uri'', JStr (br_origin b @ ''/icon-192.png'')),
              (''redirect_uris'', js_array [JStr (br_origin b @ ''/'')])]) of
             None \<Rightarrow> (Inl Thrown, b)
           | Some cid \<Rightarrow> (Inr cid, b\<lparr>br_clients := (br_clients b)(base := Some cid)\<rparr>)))"

definition upper_char :: "char \<Rightarrow> char" where
  "upper_char c = (if is_lower c then char_of (code_of c - 32) else c)"

definition begin_oauth :: "login_env \<Rightarrow> string \<Rightarrow> unit login_op" where
  "begin_oauth E base =
     bindL (login_result (allowed_base E base)) (\<lambda>base b.
     if br_protocol b \<noteq> ''https:''
     then (login_fail ''OAuth login requires the deployed HTTPS version. Legacy SSO and password login still work locally.'', b)
     else bindL (login_result (sum_bind (or_thrown (lg_auth_metadata E base)) (assert_safe_oauth_metadata E))) (\<lambda>metadata.
       bindL (oauth_client_id_for E base metadata) (\<lambda>cid.
       bindL (fresh_token E 24) (\<lambda>state.
       bindL (fresh_token E 9) (\<lambda>did.
       let context = oauth_context_js cid (''SUBETHA_'' @ map upper_char did) (lg_code_verifier E) (br_origin b @ ''/'') in
       bindL (login_result (sum_bind (or_thrown (lg_authorization_url E metadata context state))
          (assert_safe_oauth_navigation_url E))) (\<lambda>url.
       bindL (store_pending (pending_oauth base state metadata context)) (\<lambda>_. visit url)))))) b)"

section \<open>Coming back\<close>

type_synonym params = "(string \<times> string) list"

definition param_get :: "string \<Rightarrow> params \<Rightarrow> jsval" where
  "param_get k ps = (case map_of ps k of None \<Rightarrow> JNull | Some v \<Rightarrow> JStr v)"

text \<open>The parameters of the fragment are added where the query has none of the name.\<close>

fun add_missing :: "params \<Rightarrow> params \<Rightarrow> params" where
  "add_missing q [] = q"
| "add_missing q ((k, v) # ps) = add_missing (if k \<in> fst ` set q then q else q @ [(k, v)]) ps"

definition parse_redirect_login_parameters :: "login_env \<Rightarrow> string \<Rightarrow> string \<Rightarrow> params" where
  "parse_redirect_login_parameters E search hash =
     add_missing (lg_parse_query E search) (lg_parse_query E (case hash of CHR ''#'' # h \<Rightarrow> h | _ \<Rightarrow> []))"

definition login_token :: "params \<Rightarrow> jsval" where
  "login_token ps = (if param_get ''loginToken'' ps \<noteq> JNull then param_get ''loginToken'' ps else param_get ''login_token'' ps)"

definition login_parameters :: "params \<Rightarrow> bool" where
  "login_parameters ps \<longleftrightarrow>
     truthy (login_token ps) \<or> truthy (param_get ''code'' ps) \<or> truthy (param_get ''error'' ps)"

definition has_redirect_login_parameters :: "login_env \<Rightarrow> string \<Rightarrow> string \<Rightarrow> bool" where
  "has_redirect_login_parameters E search hash = login_parameters (parse_redirect_login_parameters E search hash)"

definition kept_hash :: "string \<Rightarrow> string" where
  "kept_hash hash = (if prefix ''#/room/'' hash then hash else [])"

definition sanitized_callback_path :: "string \<Rightarrow> string \<Rightarrow> string" where
  "sanitized_callback_path pathname hash = pathname @ kept_hash hash"

definition sso_age :: "login_env \<Rightarrow> jsval \<Rightarrow> rat option" where
  "sso_age E pending =
     (case to_number (js_opt ''createdAt'' pending) of Fin t \<Rightarrow> Some (of_int (lg_now E) - t) | _ \<Rightarrow> None)"

definition validate_legacy_sso_callback :: "login_env \<Rightarrow> jsval \<Rightarrow> params \<Rightarrow> login_error + unit" where
  "validate_legacy_sso_callback E pending ps =
     (if \<not> truthy (js_opt ''state'' pending)
         \<or> \<not> js_same (param_get legacy_sso_state_param ps) (js_opt ''state'' pending)
      then login_fail ''The SSO state did not match; no credentials were accepted.''
      else case sso_age E pending of
        None \<Rightarrow> login_fail ''The SSO return expired. Please begin again.''
      | Some age \<Rightarrow>
          if age < 0 \<or> of_int legacy_sso_max_age_ms < age
          then login_fail ''The SSO return expired. Please begin again.'' else Inr ())"

text \<open>\<^verbatim>\<open>params.get("error_description") ?? params.get("error")\<close>\<close>

definition declined :: "params \<Rightarrow> login_error + unit" where
  "declined ps =
     (if truthy (param_get ''error'' ps)
      then login_fail (text_of (if param_get ''error_description'' ps \<noteq> JNull then param_get ''error_description'' ps
                                else param_get ''error'' ps))
      else Inr ())"

definition complete_sso :: "login_env \<Rightarrow> jsval \<Rightarrow> string \<Rightarrow> params \<Rightarrow> jsval login_op" where
  "complete_sso E pending base ps =
     bindL (login_result (validate_legacy_sso_callback E pending ps)) (\<lambda>_.
     bindL (login_result (declined ps)) (\<lambda>_.
     if \<not> truthy (login_token ps)
     then login_result (login_fail ''The homeserver returned an unexpected SSO response.'')
     else bindL (login_result (or_thrown (lg_token_login E base (text_of (login_token ps))))) (\<lambda>r.
       session_from_login E base r ''sso'')))"

text \<open>What follows the grant: the identity and the session. Reading a missing context throws.\<close>

definition oauth_session :: "login_env \<Rightarrow> jsval \<Rightarrow> string \<Rightarrow> jsval \<Rightarrow> issued_tokens \<Rightarrow> jsval login_op" where
  "oauth_session E pending base metadata t =
     bindL (login_result (or_thrown (lg_whoami E base (it_access_token t)))) (\<lambda>i.
     let context = js_opt ''context'' pending in
     if context = JUndef \<or> context = JNull then login_result (Inl Thrown)
     else create_session_value [(''baseUrl'', JStr base), (''userId'', JStr (li_user_id i)),
       (''deviceId'', case li_device_id i of Some d \<Rightarrow> JStr d | None \<Rightarrow> js_opt ''deviceId'' context),
       (''accessToken'', JStr (it_access_token t)), (''refreshToken'', str_or_undef (it_refresh_token t)),
       (''expiresAt'', expiry_value (lg_now E) 1000 (it_expires_in t)), (''authKind'', JStr ''oauth''),
       (''oauth'', JObj [(''clientId'', js_opt ''clientId'' context), (''deviceId'', js_opt ''deviceId'' context),
          (''redirectUri'', js_opt ''redirectUri'' context), (''metadata'', metadata)])] E)"

definition revoking_on_failure :: "login_env \<Rightarrow> issued_tokens \<Rightarrow> 'a login_op \<Rightarrow> 'a login_op" where
  "revoking_on_failure E t m b =
     (case m b of
        (Inr x, b') \<Rightarrow> (Inr x, b')
      | (Inl e, b') \<Rightarrow>
          bindL (revoke_issued_oauth_tokens_within_deadline E t issued_token_revocation_timeout_ms) (\<lambda>revoked.
            login_result (if revoked then Inl e else Inl (RevocationUnconfirmed e))) b')"

definition complete_oauth :: "login_env \<Rightarrow> jsval \<Rightarrow> string \<Rightarrow> params \<Rightarrow> jsval login_op" where
  "complete_oauth E pending base ps =
     (if \<not> js_same (param_get ''state'' ps) (js_opt ''state'' pending)
      then login_result (login_fail ''The OAuth state did not match; no credentials were accepted.'')
      else bindL (login_result (declined ps)) (\<lambda>_.
        if \<not> truthy (param_get ''code'' ps)
        then login_result (login_fail ''The homeserver returned an unexpected login response.'')
        else bindL (login_result (assert_safe_oauth_metadata E (js_opt ''metadata'' pending))) (\<lambda>metadata.
          bindL (login_result (or_thrown (lg_grant E metadata (js_opt ''context'' pending) (text_of (param_get ''code'' ps))))) (\<lambda>t.
          revoking_on_failure E t (oauth_session E pending base metadata t)))))"

definition complete_pending :: "login_env \<Rightarrow> params \<Rightarrow> string \<Rightarrow> jsval login_op" where
  "complete_pending E ps raw =
     (case json_parse raw of
        None \<Rightarrow> login_result (Inl Thrown)
      | Some pending \<Rightarrow>
          if \<not> (is_object pending \<or> is_array pending)
             \<or> (js_opt ''kind'' pending \<noteq> JStr ''sso'' \<and> js_opt ''kind'' pending \<noteq> JStr ''oauth'')
          then login_result (login_fail ''The login return had invalid departure paperwork. Please begin again.'')
          else bindL (login_result (allowed_base E (text_of (js_opt ''baseUrl'' pending)))) (\<lambda>base.
            if js_opt ''kind'' pending = JStr ''sso'' then complete_sso E pending base ps
            else complete_oauth E pending base ps))"

text \<open>The address bar and the pending entry are cleared before anything else can fail.\<close>

definition clear_callback :: "browser \<Rightarrow> browser" where
  "clear_callback b = b\<lparr>br_pending := None, br_search := [], br_hash := kept_hash (br_hash b)\<rparr>"

definition complete_redirect_login :: "login_env \<Rightarrow> jsval option login_op" where
  "complete_redirect_login E b =
     (let ps = parse_redirect_login_parameters E (br_search b) (br_hash b) in
      if \<not> login_parameters ps then (Inr None, b)
      else let raw = br_pending b; b' = clear_callback b in
        case raw of
          Some (c # cs) \<Rightarrow> bindL (complete_pending E ps (c # cs)) (\<lambda>s. login_result (Inr (Some s))) b'
        | _ \<Rightarrow> (login_fail ''The login return arrived without its departure paperwork. Please begin again.'', b'))"

end
