(* ===== verification/Login_Safety.thy ===== *)
theory Login_Safety
  imports Redirect_Login Vault_Sealing
begin

text \<open>
  What a redirect login guarantees: a session only for the state that was stored when it began, each
  stored entry used at most once, issued tokens revoked when the session cannot be built, and
  sessions that the vault accepts.
\<close>

section \<open>Decomposing a login\<close>

lemma bindL_Inr: "bindL m k b = (Inr y, b') \<longleftrightarrow> (\<exists>x b1. m b = (Inr x, b1) \<and> k x b1 = (Inr y, b'))"
  by (auto simp: bindL_def split: prod.splits sum.splits)

lemma bindL_result [simp]: "bindL (login_result (Inr x)) k b = k x b" "bindL (login_result (Inl e)) k b = (Inl e, b)"
  by (simp_all add: bindL_def login_result_def)

lemma login_result_eq [simp]: "login_result r b = (x, b') \<longleftrightarrow> r = x \<and> b' = b"
  by (auto simp: login_result_def)

lemma login_fail_Inr [simp]: "login_fail m \<noteq> Inr x"
  by (simp add: login_fail_def)

lemma or_thrown_Inr [simp]: "or_thrown r = Inr x \<longleftrightarrow> r = Some x"
  by (simp add: or_thrown_def split: option.split)

lemma created_session:
  assumes "create_session_value ms E b = (Inr v, b')"
  obtains key name where "v = JObj (ms @ [(''cryptoStorageKey'', JStr key), (''cryptoDatabasePrefix'', JStr (''sub-etha-crypto-'' @ name))])"
    "spells 32 32 key" "spells 16 16 name" "br_pending b' = br_pending b" "br_revoked b' = br_revoked b"
proof -
  obtain key name g g' where k: "random_base64url (lg_crypto E) (Fin 32) (br_entropy b) = Inr (key, g')"
      "random_base64url (lg_crypto E) (Fin 16) g' = Inr (name, g)"
    and v: "v = JObj (ms @ [(''cryptoStorageKey'', JStr key), (''cryptoDatabasePrefix'', JStr (''sub-etha-crypto-'' @ name))])"
      "b' = b\<lparr>br_entropy := g\<rparr>"
    using assms by (auto simp: create_session_value_def pair_bind_Inr split: sum.splits)
  have "random_base64url_bytes (lg_crypto E) 32 (br_entropy b) = Inr (key, g')"
    "random_base64url_bytes (lg_crypto E) 16 g' = Inr (name, g)"
    using k by (simp_all add: random_base64url_def split: if_splits)
  then obtain ks ns where "key = encode_base64url ks" "length ks = 32" "name = encode_base64url ns" "length ns = 16"
    by (blast dest: random64_Inr)
  then show ?thesis using that v by fastforce
qed

lemma created_failure:
  "create_session_value ms E b = (Inl e, b') \<Longrightarrow> (\<exists>x. e = LoginVaultError x) \<and> b' = b"
  by (auto simp: create_session_value_def split: sum.splits prod.splits)

section \<open>Only for the own departure\<close>

text \<open>What a stored entry must be for the parameters of a return to be accepted.\<close>

definition departure_matches :: "login_env \<Rightarrow> jsval \<Rightarrow> params \<Rightarrow> bool" where
  "departure_matches E pending ps \<longleftrightarrow>
     (js_opt ''kind'' pending = JStr ''sso'' \<and> truthy (js_opt ''state'' pending) \<and>
      param_get legacy_sso_state_param ps = js_opt ''state'' pending \<and>
      (\<exists>age. sso_age E pending = Some age \<and> 0 \<le> age \<and> age \<le> of_int legacy_sso_max_age_ms)) \<or>
     (js_opt ''kind'' pending = JStr ''oauth'' \<and> param_get ''state'' ps = js_opt ''state'' pending)"

lemma sso_accepted:
  assumes "complete_sso E pending base ps b = (Inr s, b')" and "js_opt ''kind'' pending = JStr ''sso''"
  shows "departure_matches E pending ps \<and> js_opt ''baseUrl'' s = JStr base"
proof -
  obtain r where v: "validate_legacy_sso_callback E pending ps = Inr ()"
      and s: "session_from_login E base r ''sso'' b = (Inr s, b')"
    using assms(1) by (auto simp: complete_sso_def bindL_Inr split: if_splits)
  have "js_opt ''baseUrl'' s = JStr base"
    using s by (auto simp: session_from_login_def elim!: created_session)
  moreover have "departure_matches E pending ps"
    using v assms(2) by (auto simp: validate_legacy_sso_callback_def departure_matches_def dest: js_same_eq split: if_splits option.splits)
  ultimately show ?thesis by blast
qed

lemma oauth_session_built:
  assumes "oauth_session E pending base metadata t b = (Inr s, b')"
  shows "js_opt ''baseUrl'' s = JStr base \<and> js_opt ''accessToken'' s = JStr (it_access_token t) \<and> br_revoked b' = br_revoked b"
  using assms by (auto simp: oauth_session_def bindL_Inr Let_def split: if_splits elim!: created_session)

lemma revoking_Inr: "revoking_on_failure E t m b = (Inr x, b') \<longleftrightarrow> m b = (Inr x, b')"
  by (auto simp: revoking_on_failure_def bindL_def login_result_def split: prod.splits sum.splits)

lemma oauth_accepted:
  assumes "complete_oauth E pending base ps b = (Inr s, b')" and "js_opt ''kind'' pending = JStr ''oauth''"
  shows "departure_matches E pending ps \<and> js_opt ''baseUrl'' s = JStr base"
proof -
  have same: "js_same (param_get ''state'' ps) (js_opt ''state'' pending)"
    using assms(1) by (auto simp: complete_oauth_def split: if_splits)
  obtain metadata t b1 where "oauth_session E pending base metadata t b1 = (Inr s, b')"
    using assms(1) by (auto simp: complete_oauth_def bindL_Inr revoking_Inr split: if_splits)
  then show ?thesis using oauth_session_built same assms(2) by (auto simp: departure_matches_def dest: js_same_eq)
qed

text \<open>C27: A return from a redirect login gives a session only if the browser had stored a departure whose
  state is the one of the return (within ten minutes for SSO), and the session is for the allowed
  homeserver of that departure.
\<close>

theorem login_needs_own_departure:
  "complete_redirect_login E b = (Inr (Some s), b') \<Longrightarrow>
     \<exists>raw pending base. br_pending b = Some raw \<and> json_parse raw = Some pending \<and>
       departure_matches E pending (parse_redirect_login_parameters E (br_search b) (br_hash b)) \<and>
       assert_allowed_homeserver_url (lg_parse_url E) (lg_production E) (lg_app_origin E)
         (text_of (js_opt ''baseUrl'' pending)) = Inr base \<and>
       js_opt ''baseUrl'' s = JStr base"
proof -
  assume a: "complete_redirect_login E b = (Inr (Some s), b')"
  let ?ps = "parse_redirect_login_parameters E (br_search b) (br_hash b)"
  obtain raw where raw: "br_pending b = Some raw" and c: "complete_pending E ?ps raw (clear_callback b) = (Inr s, b')"
    using a by (auto simp: complete_redirect_login_def Let_def bindL_Inr split: if_splits option.splits list.splits)
  obtain pending where p: "json_parse raw = Some pending"
      "js_opt ''kind'' pending = JStr ''sso'' \<or> js_opt ''kind'' pending = JStr ''oauth''"
    and c1: "bindL (login_result (allowed_base E (text_of (js_opt ''baseUrl'' pending)))) (\<lambda>base.
            if js_opt ''kind'' pending = JStr ''sso'' then complete_sso E pending base ?ps
            else complete_oauth E pending base ?ps) (clear_callback b) = (Inr s, b')"
    using c by (auto simp: complete_pending_def split: option.splits if_splits)
  obtain base where base: "allowed_base E (text_of (js_opt ''baseUrl'' pending)) = Inr base"
      and c2: "(if js_opt ''kind'' pending = JStr ''sso'' then complete_sso E pending base ?ps
            else complete_oauth E pending base ?ps) (clear_callback b) = (Inr s, b')"
    using c1 by (auto simp: bindL_Inr)
  have "departure_matches E pending ?ps \<and> js_opt ''baseUrl'' s = JStr base"
    using c2 p(2) sso_accepted oauth_accepted by (auto split: if_splits)
  moreover have "assert_allowed_homeserver_url (lg_parse_url E) (lg_production E) (lg_app_origin E)
         (text_of (js_opt ''baseUrl'' pending)) = Inr base"
    using base by (auto simp: allowed_base_def split: sum.splits)
  ultimately show ?thesis using raw p(1) by blast
qed

section \<open>Each departure is used once\<close>

text \<open>What the operations after the callback leave as it is.\<close>

definition keeps_callback :: "'a login_op \<Rightarrow> bool" where
  "keeps_callback m \<longleftrightarrow> (\<forall>b. br_pending (snd (m b)) = br_pending b \<and> br_search (snd (m b)) = br_search b \<and>
     br_hash (snd (m b)) = br_hash b)"

lemma keeps_result [intro, simp]: "keeps_callback (login_result r)"
  by (simp add: keeps_callback_def login_result_def)

lemma keeps_bindL [intro]: "keeps_callback m \<Longrightarrow> (\<And>x. keeps_callback (k x)) \<Longrightarrow> keeps_callback (bindL m k)"
  by (auto simp: keeps_callback_def bindL_def split: prod.splits sum.splits) (metis snd_conv)+

lemma keeps_create [intro, simp]: "keeps_callback (create_session_value ms E)"
  by (simp add: keeps_callback_def create_session_value_def split: sum.splits prod.splits)

lemma keeps_revoke [intro, simp]: "keeps_callback (revoke_issued_oauth_tokens_within_deadline E t n)"
  by (simp add: keeps_callback_def revoke_issued_oauth_tokens_within_deadline_def)

lemma keeps_revoking:
  assumes "keeps_callback m"
  shows "keeps_callback (revoking_on_failure E t m)"
  unfolding keeps_callback_def
proof (intro allI)
  fix b
  obtain x b1 where m: "m b = (x, b1)" by fastforce
  then have b1: "br_pending b1 = br_pending b \<and> br_search b1 = br_search b \<and> br_hash b1 = br_hash b"
    using assms by (metis keeps_callback_def snd_conv)
  show "br_pending (snd (revoking_on_failure E t m b)) = br_pending b \<and>
      br_search (snd (revoking_on_failure E t m b)) = br_search b \<and> br_hash (snd (revoking_on_failure E t m b)) = br_hash b"
    using b1 by (cases x) (simp_all add: revoking_on_failure_def m bindL_def revoke_issued_oauth_tokens_within_deadline_def
        login_result_def)
qed

lemma keeps_oauth_session: "keeps_callback (oauth_session E p base m t)"
  unfolding oauth_session_def Let_def by (auto intro!: keeps_bindL)

lemma keeps_pending: "keeps_callback (complete_pending E ps raw)"
  unfolding complete_pending_def complete_sso_def complete_oauth_def session_from_login_def
  by (auto intro!: keeps_bindL keeps_revoking keeps_oauth_session split: option.split)

text \<open>C28: A return with login parameters uses up the stored departure and clears the address bar, whatever
  comes of it; only a room address stays in the fragment.
\<close>

theorem departure_used_once:
  "login_parameters (parse_redirect_login_parameters E (br_search b) (br_hash b)) \<Longrightarrow>
     complete_redirect_login E b = (r, b') \<Longrightarrow>
   br_pending b' = None \<and> br_search b' = [] \<and> br_hash b' = kept_hash (br_hash b) \<and>
   (\<forall>E' search hash s. fst (complete_redirect_login E' (b'\<lparr>br_search := search, br_hash := hash\<rparr>)) \<noteq> Inr (Some s))"
proof -
  assume a: "login_parameters (parse_redirect_login_parameters E (br_search b) (br_hash b))"
    "complete_redirect_login E b = (r, b')"
  have keeps: "keeps_callback (bindL (complete_pending E ps raw) (\<lambda>s. login_result (Inr (Some s))))" for ps raw
    by (rule keeps_bindL) (simp_all add: keeps_pending)
  have c: "br_pending b' = None \<and> br_search b' = [] \<and> br_hash b' = kept_hash (br_hash b)"
  proof (cases "br_pending b = None \<or> br_pending b = Some []")
    case True
    then show ?thesis using a by (auto simp: complete_redirect_login_def Let_def clear_callback_def)
  next
    case False
    then obtain c cs where "br_pending b = Some (c # cs)" by (cases "br_pending b") (auto simp: neq_Nil_conv)
    then have "b' = snd (bindL (complete_pending E (parse_redirect_login_parameters E (br_search b) (br_hash b)) (c # cs))
        (\<lambda>s. login_result (Inr (Some s))) (clear_callback b))"
      using a by (simp add: complete_redirect_login_def Let_def)
    then show ?thesis using keeps by (simp add: keeps_callback_def clear_callback_def)
  qed
  then have "fst (complete_redirect_login E' (b'\<lparr>br_search := search, br_hash := hash\<rparr>)) \<noteq> Inr (Some s)" for E' search hash s
    by (simp add: complete_redirect_login_def Let_def login_fail_def)
  then show ?thesis using c by blast
qed

section \<open>Issued tokens\<close>

lemma oauth_session_failure:
  "oauth_session E p base m t b = (Inl e, b') \<Longrightarrow> (\<nexists>x. e = RevocationUnconfirmed x) \<and> b' = b"
  by (auto simp: oauth_session_def Let_def bindL_def login_result_def or_thrown_def split: if_splits option.splits
      dest!: created_failure)

text \<open>C29: Once the homeserver has issued OAuth tokens, either the session with them is returned, or both
  tokens have been handed to revocation, and the error says so when this was not confirmed in time.
\<close>

theorem failed_grant_revokes:
  "js_same (param_get ''state'' ps) (js_opt ''state'' pending) \<Longrightarrow> \<not> truthy (param_get ''error'' ps) \<Longrightarrow>
     param_get ''code'' ps = JStr code \<Longrightarrow> code \<noteq> [] \<Longrightarrow>
     assert_safe_oauth_metadata E (js_opt ''metadata'' pending) = Inr m \<Longrightarrow>
     lg_grant E m (js_opt ''context'' pending) code = Some t \<Longrightarrow> complete_oauth E pending base ps b = (r, b') \<Longrightarrow>
   (case r of
      Inr s \<Rightarrow> js_opt ''accessToken'' s = JStr (it_access_token t) \<and> br_revoked b' = br_revoked b
    | Inl e \<Rightarrow> br_revoked b' = br_revoked b @ tokens_to_revoke t \<and>
        ((\<exists>x. e = RevocationUnconfirmed x) \<longleftrightarrow>
           \<not> list_all (\<lambda>x. fulfilled_within issued_token_revocation_timeout_ms (lg_revocation E x)) (tokens_to_revoke t)))"
proof -
  assume a: "js_same (param_get ''state'' ps) (js_opt ''state'' pending)" "\<not> truthy (param_get ''error'' ps)"
    "param_get ''code'' ps = JStr code" "code \<noteq> []"
    "assert_safe_oauth_metadata E (js_opt ''metadata'' pending) = Inr m"
    "lg_grant E m (js_opt ''context'' pending) code = Some t" "complete_oauth E pending base ps b = (r, b')"
  have c: "revoking_on_failure E t (oauth_session E pending base m t) b = (r, b')"
    using a by (simp add: complete_oauth_def declined_def truthy_def text_of_def or_thrown_def)
  show ?thesis
  proof (cases "oauth_session E pending base m t b")
    case (Pair x b1)
    show ?thesis
    proof (cases x)
      case (Inl e)
      then have "b1 = b" "\<nexists>y. e = RevocationUnconfirmed y" using oauth_session_failure Pair by blast+
      then show ?thesis
        using c Pair Inl by (auto simp: revoking_on_failure_def bindL_def revoke_issued_oauth_tokens_within_deadline_def login_result_def)
    next
      case (Inr s)
      then have "r = Inr s" "b' = b1" using c Pair by (auto simp: revoking_on_failure_def)
      then show ?thesis using oauth_session_built [of E pending base m t b s b1] Pair Inr by simp
    qed
  qed
qed

section \<open>The vault accepts what a login returns\<close>

lemma random_prefix: "spells 16 16 name \<Longrightarrow> crypto_prefix_pattern (''sub-etha-crypto-'' @ name)"
  using length_encode(1) encode_token
  by (force simp: crypto_prefix_pattern_def name_pattern_def elim!: spellsE)

definition login_fits :: "login_env \<Rightarrow> login_response \<Rightarrow> bool" where
  "login_fits E r \<longleftrightarrow>
     text_upto 1024 (lr_user_id r) \<and> text_upto 1024 (lr_device_id r) \<and> text_upto 16384 (lr_access_token r) \<and>
     if_some (text_upto 16384) (lr_refresh_token r) \<and>
     if_some (\<lambda>n. n \<noteq> 0 \<longrightarrow> 0 < lg_now E + n \<and> lg_now E + n \<le> max_safe) (lr_expires_in_ms r)"

text \<open>C30: A session from a password or SSO login normalises in the session store to the tokens of the
  response, whenever the response keeps the lengths the store allows: it can be sealed as it is.
\<close>

theorem login_sessions_fit_vault:
  "session_from_login E base r kind b = (Inr v, b') \<Longrightarrow> kind = ''password'' \<or> kind = ''sso'' \<Longrightarrow>
     allowed_base E base = Inr base \<Longrightarrow> text_upto 4096 base \<Longrightarrow> login_fits E r \<Longrightarrow>
     se_parse_url V = lg_parse_url E \<Longrightarrow> se_production V = lg_production E \<Longrightarrow> se_origin V = lg_app_origin E \<Longrightarrow>
   \<exists>s. normalize_new_session V v = Inr s \<and> ses_base_url s = base \<and> ses_user_id s = lr_user_id r \<and>
     ses_device_id s = lr_device_id r \<and> ses_access_token s = lr_access_token r \<and>
     ses_refresh_token s = lr_refresh_token r \<and> ses_auth_kind s = kind"
proof -
  assume a: "session_from_login E base r kind b = (Inr v, b')" and kind: "kind = ''password'' \<or> kind = ''sso''"
    and base: "allowed_base E base = Inr base" "text_upto 4096 base" and fits: "login_fits E r"
    and same: "se_parse_url V = lg_parse_url E" "se_production V = lg_production E" "se_origin V = lg_app_origin E"
  obtain key name where v: "v = JObj [(''baseUrl'', JStr base), (''userId'', JStr (lr_user_id r)), (''deviceId'', JStr (lr_device_id r)),
       (''accessToken'', JStr (lr_access_token r)), (''refreshToken'', str_or_undef (lr_refresh_token r)),
       (''expiresAt'', expiry_value (lg_now E) 1 (lr_expires_in_ms r)), (''authKind'', JStr kind),
       (''cryptoStorageKey'', JStr key), (''cryptoDatabasePrefix'', JStr (''sub-etha-crypto-'' @ name))]"
      and k: "spells 32 32 key" "spells 16 16 name"
    using a by (auto simp: session_from_login_def elim!: created_session)
  define s where "s = \<lparr>ses_base_url = base, ses_user_id = lr_user_id r, ses_device_id = lr_device_id r,
     ses_access_token = lr_access_token r, ses_refresh_token = lr_refresh_token r,
     ses_expires_at = (case lr_expires_in_ms r of None \<Rightarrow> None | Some n \<Rightarrow> if n = 0 then None else Some (lg_now E + n)),
     ses_auth_kind = kind, ses_crypto_storage_key = key, ses_crypto_database_prefix = ''sub-etha-crypto-'' @ name,
     ses_oauth = None\<rparr>"
  have view: "js_opt i v = js_opt i (session_js s)" for i
    by (simp add: v s_def session_js_def or_undefined_def str_or_undef_def expiry_value_def split: option.split)
  have "safe_session (lg_parse_url E) s"
    using kind fits k random_prefix
    by (auto simp: safe_session_def s_def auth_kinds_def login_fits_def split: option.splits)
  moreover have "assert_allowed_homeserver_url (lg_parse_url E) (lg_production E) (lg_app_origin E) base = Inr base"
    using base(1) by (simp add: allowed_base_def split: sum.splits)
  ultimately have "normalize_persisted_session (lg_parse_url E) (lg_production E) (lg_app_origin E) True None v = Inr s"
    using base(2) view
    by (intro session_view_complete)
      (auto simp: s_def v session_js_def session_required_def object_keys_def is_object_def own_props_def)
  then show ?thesis by (auto simp: normalize_new_session_def same s_def)
qed

section \<open>From departure to return\<close>

lemma plain_sso: "plain (pending_sso base state t)"
  by (simp add: pending_sso_def js_int_def)

lemma fresh_tokenE:
  assumes "fresh_token E n b = (Inr t, b')"
  obtains g bs where "t = encode_base64url bs" "length bs = n" "b' = b\<lparr>br_entropy := g\<rparr>"
proof -
  obtain g where "random_base64url_bytes (lg_crypto E) n (br_entropy b) = Inr (t, g)" "b' = b\<lparr>br_entropy := g\<rparr>"
    using assms by (auto simp: fresh_token_def random_base64url_def split: sum.splits if_splits)
  then show ?thesis using that by (blast dest: random64_Inr)
qed

text \<open>A SSO login that began here can end here: within ten minutes, a return that carries the state of
  the stored departure and a token the homeserver accepts gives the session of that token, and the
  browser had been sent to an address of the homeserver's own origin.
\<close>

theorem sso_round_trip:
  "begin_sso E raw provider b = (Inr (), b1) \<Longrightarrow> E' = E\<lparr>lg_now := now\<rparr> \<Longrightarrow>
     0 \<le> now - lg_now E \<Longrightarrow> now - lg_now E \<le> legacy_sso_max_age_ms \<Longrightarrow>
   \<exists>base state href. allowed_base E raw = Inr base \<and>
     assert_safe_sso_navigation_url E
       (lg_sso_login_url E base (legacy_sso_redirect_url (br_origin b) state) provider) base = Inr href \<and>
     br_visited b1 = href # br_visited b \<and>
     (\<forall>b2 ps r token. parse_redirect_login_parameters E (br_search b2) (br_hash b2) = ps \<longrightarrow> br_pending b2 = br_pending b1 \<longrightarrow>
        param_get legacy_sso_state_param ps = JStr state \<longrightarrow> \<not> truthy (param_get ''error'' ps) \<longrightarrow>
        login_token ps = JStr token \<longrightarrow> token \<noteq> [] \<longrightarrow> allowed_base E base = Inr base \<longrightarrow> lg_token_login E base token = Some r \<longrightarrow>
        complete_redirect_login E' b2 =
          bindL (session_from_login E' base r ''sso'') (\<lambda>s. login_result (Inr (Some s))) (clear_callback b2))"
proof -
  assume a: "begin_sso E raw provider b = (Inr (), b1)" and E': "E' = E\<lparr>lg_now := now\<rparr>"
    and age: "0 \<le> now - lg_now E" "now - lg_now E \<le> legacy_sso_max_age_ms"
  obtain base state b0 href where base: "allowed_base E raw = Inr base" and state: "fresh_token E 24 b = (Inr state, b0)"
      and href: "assert_safe_sso_navigation_url E (lg_sso_login_url E base (legacy_sso_redirect_url (br_origin b0) state) provider) base = Inr href"
      and b1: "b1 = b0\<lparr>br_pending := Some (json_string (pending_sso base state (lg_now E))), br_visited := href # br_visited b0\<rparr>"
    using a by (auto simp: begin_sso_def bindL_Inr store_pending_def visit_def)
  obtain g bs where t: "state = encode_base64url bs" "length bs = 24" "b0 = b\<lparr>br_entropy := g\<rparr>"
    using state by (rule fresh_tokenE)
  have ne: "state \<noteq> []" using t length_encode(1) [of bs] by auto
  have parsed: "json_parse (json_string (pending_sso base state (lg_now E))) = Some (pending_sso base state (lg_now E))"
    by (rule json_parse_printed [OF plain_sso])
  have some: "json_string (pending_sso base state (lg_now E)) \<noteq> []"
    by (simp add: pending_sso_def)
  have allowed: "allowed_base E' x = allowed_base E x" for x by (simp add: allowed_base_def E')
  have age': "sso_age E' (pending_sso base state (lg_now E)) = Some (of_int (now - lg_now E))"
    by (simp add: sso_age_def pending_sso_def js_int_def to_number_def E')
  have fits: "\<not> (of_int (now - lg_now E) < (0::rat))" "\<not> ((of_int legacy_sso_max_age_ms :: rat) < of_int (now - lg_now E))"
    using age by simp_all
  have "complete_pending E' ps (json_string (pending_sso base state (lg_now E))) = session_from_login E' base r ''sso''"
    if "param_get legacy_sso_state_param ps = JStr state" "\<not> truthy (param_get ''error'' ps)" "login_token ps = JStr token" "token \<noteq> []"
      "allowed_base E base = Inr base" "lg_token_login E base token = Some r" for ps token r
    by (rule ext)
      (use that allowed age' fits ne in \<open>simp add: complete_pending_def parsed allowed, simp add: pending_sso_def
        complete_sso_def validate_legacy_sso_callback_def age'[unfolded pending_sso_def] declined_def text_of_def
        truthy_def is_object_def or_thrown_def own_props_def E' bindL_def [of "login_result _"] login_result_def\<close>)
  note complete = this
  have "complete_redirect_login E' b2 =
          bindL (session_from_login E' base r ''sso'') (\<lambda>s. login_result (Inr (Some s))) (clear_callback b2)"
    if h: "parse_redirect_login_parameters E (br_search b2) (br_hash b2) = ps" "br_pending b2 = br_pending b1"
      "param_get legacy_sso_state_param ps = JStr state" "\<not> truthy (param_get ''error'' ps)" "login_token ps = JStr token" "token \<noteq> []"
      "allowed_base E base = Inr base" "lg_token_login E base token = Some r" for b2 ps token r
  proof -
    have "parse_redirect_login_parameters E' (br_search b2) (br_hash b2) = ps" "login_parameters ps"
      using h by (simp_all add: parse_redirect_login_parameters_def E' login_parameters_def truthy_def)
    then show ?thesis
      using some complete [OF h(3-8)] h(2)
      by (auto simp: complete_redirect_login_def Let_def b1 split: list.split)
  qed
  then show ?thesis using base href t b1 by (intro exI [of _ base] exI [of _ state] exI [of _ href]) auto
qed

end
