(* ===== verification/Login_Examples.thy ===== *)
theory Login_Examples
  imports Login_Safety
begin

text \<open>A homeserver that answers and a browser that goes there and comes back.\<close>

section \<open>A homeserver and a browser\<close>

definition login_parse :: "string \<Rightarrow> url option" where
  "login_parse s =
     (if prefix ''https://h.example'' s
      then Some \<lparr>url_protocol = ''https:'', url_username = [], url_password = [], url_hostname = ''h.example'', url_port = [],
        url_pathname = ''/'', url_search = [], url_hash = [], url_origin = ''https://h.example'', url_href = s\<rparr>
      else None)"

definition login_query :: "string \<Rightarrow> (string \<times> string) list" where
  "login_query s = (if s = ''?back'' then [(legacy_sso_state_param, ''x''), (''loginToken'', ''t'')] else [])"

definition sample_response :: login_response where
  "sample_response = \<lparr>lr_user_id = ''@a:h.example'', lr_device_id = ''D'', lr_access_token = ''s'',
     lr_refresh_token = None, lr_expires_in_ms = Some 1000\<rparr>"

definition sample_issued :: issued_tokens where
  "sample_issued = \<lparr>it_access_token = ''at'', it_refresh_token = Some ''rt'', it_expires_in = None\<rparr>"

definition sample_login :: login_env where
  "sample_login = \<lparr>lg_parse_url = login_parse, lg_production = True, lg_app_origin = None, lg_crypto = plain_crypto,
     lg_parse_query = login_query, lg_fetch = (\<lambda>_. None), lg_now = 100,
     lg_password_login = (\<lambda>_ _ _. None), lg_token_login = (\<lambda>_ _. Some sample_response),
     lg_whoami = (\<lambda>_ _. None), lg_login_flows = (\<lambda>_. None), lg_auth_metadata = (\<lambda>_. None),
     lg_register_client = (\<lambda>_ _. None), lg_code_verifier = ''v'', lg_authorization_url = (\<lambda>_ _ _. None),
     lg_grant = (\<lambda>_ _ _. Some sample_issued), lg_sso_login_url = (\<lambda>_ _ _. ''https://h.example/sso''),
     lg_revocation = (\<lambda>t. if t = ''at'' then Some (20, True) else None)\<rparr>"

definition sample_browser :: browser where
  "sample_browser = \<lparr>br_pending = Some (json_string (pending_sso ''https://h.example'' ''x'' 50)), br_clients = (\<lambda>_. None),
     br_origin = ''https://subetha.example'', br_protocol = ''https:'', br_pathname = ''/'', br_search = ''?back'', br_hash = [],
     br_visited = [], br_revoked = [], br_entropy = sconst 1\<rparr>"

lemmas sample_login_simps = sample_login_def sample_browser_def login_parse_def login_query_def plain_crypto_def

lemma sample_allowed: "allowed_base sample_login ''https://h.example'' = Inr ''https://h.example''"
  by (simp add: allowed_base_def assert_allowed_homeserver_url_def sample_login_simps strip_slash_def)

lemma sample_grant:
  "lg_grant sample_login m c code = Some sample_issued" "lg_whoami sample_login base t = None"
  "lg_revocation sample_login t = (if t = ''at'' then Some (20, True) else None)" "br_revoked sample_browser = []"
  by (simp_all add: sample_login_simps)

lemma small_safe: "is_safe_integer (Fin 24)" "is_safe_integer (Fin 16)" "is_safe_integer (Fin 32)"
  by (simp_all add: is_safe_integer_def max_safe_def)

lemma sample_navigation:
  "assert_safe_sso_navigation_url sample_login (lg_sso_login_url sample_login a b c) ''https://h.example'' =
     Inr ''https://h.example/sso''"
  by (simp add: assert_safe_sso_navigation_url_def sample_login_simps)

lemma sample_token: "\<exists>g. fresh_token sample_login 24 sample_browser =
    (Inr (encode_base64url (map (\<lambda>n. 1) [0..<24])), sample_browser\<lparr>br_entropy := g\<rparr>)"
  by (simp add: fresh_token_def random_base64url_def random_base64url_bytes_def random_bytes_def sample_login_simps
      require_web_crypto_def small_safe)

lemma login_created: "\<exists>v b'. create_session_value ms sample_login b = (Inr v, b')"
  by (simp add: create_session_value_def random_base64url_def random_base64url_bytes_def random_bytes_def sample_login_simps
      require_web_crypto_def small_safe)

lemma session_created: "\<exists>v b'. session_from_login sample_login base r kind b = (Inr v, b')"
  by (simp add: session_from_login_def login_created)

lemma sample_parsed:
  "json_parse (json_string (pending_sso base state t)) = Some (pending_sso base state t)"
  by (rule json_parse_printed [OF plain_sso])

lemma sample_parameters:
  "parse_redirect_login_parameters sample_login (br_search sample_browser) (br_hash sample_browser) =
     [(legacy_sso_state_param, ''x''), (''loginToken'', ''t'')]"
  by (simp add: parse_redirect_login_parameters_def sample_login_simps)

lemma sample_return: "\<exists>s b'. complete_redirect_login sample_login sample_browser = (Inr (Some s), b')"
proof -
  have some: "json_string (pending_sso ''https://h.example'' ''x'' 50) \<noteq> []" by (simp add: pending_sso_def)
  have age: "sso_age sample_login (pending_sso ''https://h.example'' ''x'' 50) = Some 50"
    by (simp add: sso_age_def pending_sso_def js_int_def to_number_def sample_login_def)
  have "complete_sso sample_login (pending_sso ''https://h.example'' ''x'' 50) ''https://h.example''
      [(legacy_sso_state_param, ''x''), (''loginToken'', ''t'')] b = session_from_login sample_login ''https://h.example'' sample_response ''sso'' b" for b
    by (simp add: complete_sso_def validate_legacy_sso_callback_def age declined_def param_get_def login_token_def
        legacy_sso_state_param_def legacy_sso_max_age_ms_def text_of_def)
      (simp add: pending_sso_def truthy_def or_thrown_def sample_login_def)
  note sso = this
  let ?ps = "[(legacy_sso_state_param, ''x''), (''loginToken'', ''t'')]"
  let ?raw = "json_string (pending_sso ''https://h.example'' ''x'' 50)"
  have pending: "complete_pending sample_login ?ps ?raw b =
      session_from_login sample_login ''https://h.example'' sample_response ''sso'' b" for b
    using sso [of b] by (simp add: complete_pending_def sample_parsed bindL_def login_result_def)
      (simp add: pending_sso_def is_object_def own_props_def text_of_def sample_allowed)
  obtain v b' where v: "session_from_login sample_login ''https://h.example'' sample_response ''sso'' (clear_callback sample_browser) = (Inr v, b')"
    using session_created by blast
  have params: "login_parameters ?ps"
    by (simp add: login_parameters_def login_token_def param_get_def legacy_sso_state_param_def truthy_def)
  have raw: "br_pending sample_browser = Some ?raw" by (simp add: sample_browser_def)
  obtain c cs where "?raw = c # cs" using some by (cases ?raw) auto
  then have "complete_redirect_login sample_login sample_browser = (Inr (Some v), b')"
    using pending [of "clear_callback sample_browser"] v raw
    by (simp add: complete_redirect_login_def sample_parameters Let_def params bindL_def login_result_def)
  then show ?thesis by blast
qed

section \<open>Witnesses\<close>

theorem login_needs_own_departure_witness:
  "\<exists>raw pending base s. br_pending sample_browser = Some raw \<and> json_parse raw = Some pending \<and>
       departure_matches sample_login pending
         (parse_redirect_login_parameters sample_login (br_search sample_browser) (br_hash sample_browser)) \<and>
       assert_allowed_homeserver_url login_parse True None (text_of (js_opt ''baseUrl'' pending)) = Inr base \<and>
       js_opt ''baseUrl'' s = JStr base"
proof -
  obtain s b' where "complete_redirect_login sample_login sample_browser = (Inr (Some s), b')" using sample_return by blast
  then show ?thesis using login_needs_own_departure [of sample_login sample_browser s b'] by (auto simp: sample_login_def)
qed

theorem departure_used_once_witness:
  "br_pending (snd (complete_redirect_login sample_login sample_browser)) = None"
  using departure_used_once [of sample_login sample_browser] prod.collapse [of "complete_redirect_login sample_login sample_browser"]
  by (simp add: sample_parameters login_parameters_def login_token_def param_get_def truthy_def legacy_sso_state_param_def)
     (metis prod.collapse)

definition sample_pending :: jsval where
  "sample_pending = pending_oauth ''https://h.example'' ''y'' (JObj []) (JObj [])"

lemma sample_metadata: "assert_safe_oauth_metadata sample_login (JObj []) = Inr (JObj [])"
  by (simp add: assert_safe_oauth_metadata_def oauth_url_fields_def safe_oauth_field_def is_object_def own_props_def)

theorem failed_grant_revokes_witness:
  "br_revoked (snd (complete_oauth sample_login sample_pending ''https://h.example'' [(''state'', ''y''), (''code'', ''c'')] sample_browser)) =
     [''rt'', ''at''] \<and>
   (\<exists>x. fst (complete_oauth sample_login sample_pending ''https://h.example'' [(''state'', ''y''), (''code'', ''c'')] sample_browser) =
      Inl (RevocationUnconfirmed x))"
proof -
  let ?ps = "[(''state'', ''y''), (''code'', ''c'')]"
  obtain r b' where c: "complete_oauth sample_login sample_pending ''https://h.example'' ?ps sample_browser = (r, b')" by fastforce
  have f: "case r of
      Inr s \<Rightarrow> js_opt ''accessToken'' s = JStr (it_access_token sample_issued) \<and> br_revoked b' = br_revoked sample_browser
    | Inl e \<Rightarrow> br_revoked b' = br_revoked sample_browser @ tokens_to_revoke sample_issued \<and>
        ((\<exists>x. e = RevocationUnconfirmed x) \<longleftrightarrow>
           \<not> list_all (\<lambda>x. fulfilled_within issued_token_revocation_timeout_ms (lg_revocation sample_login x)) (tokens_to_revoke sample_issued))"
    by (rule failed_grant_revokes [OF _ _ _ _ _ _ c, where code = "''c''" and m = "JObj []"])
      (simp_all add: sample_pending_def pending_oauth_def param_get_def sample_metadata truthy_def sample_grant)
  have "\<exists>e. r = Inl e"
    using c by (auto simp: complete_oauth_def sample_pending_def pending_oauth_def param_get_def sample_metadata truthy_def
        declined_def or_thrown_def sample_grant text_of_def revoking_on_failure_def oauth_session_def bindL_def
        login_result_def revoke_issued_oauth_tokens_within_deadline_def)
  then show ?thesis using f c
    by (auto simp: tokens_to_revoke_def sample_issued_def fulfilled_within_def sample_grant)
qed

definition sample_store :: store_env where
  "sample_store = \<lparr>se_parse_url = login_parse, se_production = True, se_origin = None, se_crypto = plain_crypto,
     se_evaluate_prf = (\<lambda>_. Inl PlatformError), se_has_locks = True, se_delete = (\<lambda>_. Deleted),
     se_enumeration = Enumerates\<rparr>"

theorem login_sessions_fit_vault_witness:
  "\<exists>v b' s. session_from_login sample_login ''https://h.example'' sample_response ''sso'' sample_browser = (Inr v, b') \<and>
     normalize_new_session sample_store v = Inr s \<and> ses_access_token s = ''s''"
proof -
  obtain v b' where v: "session_from_login sample_login ''https://h.example'' sample_response ''sso'' sample_browser = (Inr v, b')"
    using session_created by blast
  have "login_fits sample_login sample_response" "text_upto 4096 ''https://h.example''"
    by (simp_all add: login_fits_def sample_response_def text_upto_def sample_login_def max_safe_def)
  then show ?thesis
    using v login_sessions_fit_vault [OF v _ sample_allowed, of sample_store]
    by (auto simp: sample_store_def sample_login_def sample_response_def)
qed

theorem sso_round_trip_witness:
  "\<exists>b1. begin_sso sample_login ''https://h.example'' None sample_browser = (Inr (), b1) \<and>
     br_visited b1 = [''https://h.example/sso'']"
proof -
  have "\<exists>b1. begin_sso sample_login ''https://h.example'' None sample_browser = (Inr (), b1)"
    using sample_token
    by (auto simp: begin_sso_def sample_allowed bindL_def [of "fresh_token _ _"] bindL_def [of "store_pending _"] store_pending_def
        visit_def sample_navigation)
  then obtain b1 where b1: "begin_sso sample_login ''https://h.example'' None sample_browser = (Inr (), b1)" by blast
  have "lg_now sample_login = 100" "br_visited sample_browser = []" by (simp_all add: sample_login_def sample_browser_def)
  then show ?thesis
    using sso_round_trip [OF b1 refl, of 100] b1 by (auto simp: legacy_sso_max_age_ms_def sample_allowed sample_navigation)
qed

end
