(* ===== verification/Message_Text.thy ===== *)
theory Message_Text
  imports Prelude
begin

text \<open>
  lib/matrix/message-text.ts: plain message bodies cut into text and links, and the plain fallback of
  replies. The pattern of the links is matched as a regular-expression engine does: the leftmost
  match, the alternatives in their order, greedy repetitions that give back where they must. The
  ellipsis among the trailing punctuation is a code unit above 255 and does not occur here.
\<close>

section \<open>Links\<close>

record message_text_segment =
  seg_text :: string
  seg_href :: "string option"

text \<open>\<^verbatim>\<open>[^\s<>"']\<close>, \<^verbatim>\<open>[A-Z0-9._%+-]\<close>, \<^verbatim>\<open>[A-Z0-9.-]\<close> and \<^verbatim>\<open>[A-Z]\<close>, ignoring case.\<close>

definition link_char :: "char \<Rightarrow> bool" where
  "link_char c \<longleftrightarrow> \<not> is_js_space c \<and> c \<noteq> CHR ''<'' \<and> c \<noteq> CHR ''>'' \<and> c \<noteq> CHR 0x22 \<and> c \<noteq> CHR 0x27"

definition local_char :: "char \<Rightarrow> bool" where
  "local_char c \<longleftrightarrow> is_alnum c \<or> c \<in> {CHR ''.'', CHR ''_'', CHR ''%'', CHR ''+'', CHR ''-''}"

definition domain_char :: "char \<Rightarrow> bool" where
  "domain_char c \<longleftrightarrow> is_alnum c \<or> c = CHR ''.'' \<or> c = CHR ''-''"

definition is_letter :: "char \<Rightarrow> bool" where
  "is_letter c \<longleftrightarrow> is_upper c \<or> is_lower c"

text \<open>The length of \<^verbatim>\<open>(scheme)[^\s<>"']+\<close> at the start of \<open>s\<close>.\<close>

definition scheme_match :: "string list \<Rightarrow> string \<Rightarrow> nat option" where
  "scheme_match schemes s =
     (case find (\<lambda>p. prefix p (to_lower s)) schemes of
        None \<Rightarrow> None
      | Some p \<Rightarrow>
          (let n = length (takeWhile link_char (drop (length p) s))
           in if n = 0 then None else Some (length p + n)))"

text \<open>
  \<^verbatim>\<open>[A-Z0-9.-]+\.[A-Z]{2,}\<close>: the run of domain characters is cut at its last dot that leaves a
  character before it and two letters after it. \<open>domain_cut i s\<close> tries the dots below \<open>i\<close>.
\<close>

fun domain_cut :: "nat \<Rightarrow> string \<Rightarrow> nat option" where
  "domain_cut 0 s = None"
| "domain_cut (Suc i) s =
     (let letters = length (takeWhile is_letter (drop (Suc i) s))
      in if 0 < i \<and> i < length s \<and> s ! i = CHR ''.'' \<and> 2 \<le> letters then Some (Suc i + letters) else domain_cut i s)"

definition domain_match :: "string \<Rightarrow> nat option" where
  "domain_match s = (let n = length (takeWhile domain_char s) in domain_cut (Suc n) s)"

text \<open>\<^verbatim>\<open>[A-Z0-9._%+-]+@[A-Z0-9.-]+\.[A-Z]{2,}\<close>\<close>

definition address_match :: "string \<Rightarrow> nat option" where
  "address_match s =
     (let n = length (takeWhile local_char s)
      in if n = 0 then None
         else case drop n s of
           c # r \<Rightarrow> if c = CHR ''@'' then map_option (\<lambda>k. n + 1 + k) (domain_match r) else None
         | [] \<Rightarrow> None)"

definition link_schemes :: "string list" where
  "link_schemes = [''https://'', ''http://'', ''ftp://'', ''www.'', ''magnet:?'']"

text \<open>The length of a match of \<^verbatim>\<open>LINK_PATTERN\<close> that starts here.\<close>

definition link_match :: "string \<Rightarrow> nat option" where
  "link_match s =
     (case scheme_match link_schemes s of
        Some n \<Rightarrow> Some n
      | None \<Rightarrow>
          (case if prefix ''mailto:'' (to_lower s) then map_option (\<lambda>k. 7 + k) (address_match (drop 7 s)) else None of
             Some n \<Rightarrow> Some n
           | None \<Rightarrow> address_match s))"

definition simple_trailing_punctuation :: "char list" where
  "simple_trailing_punctuation = ''.,!?;:''"

definition closing_pairs :: "char \<Rightarrow> char option" where
  "closing_pairs c =
     (if c = CHR '')'' then Some (CHR ''('') else if c = CHR '']'' then Some (CHR ''['')
      else if c = CHR ''}'' then Some (CHR ''{'') else None)"

text \<open>How much of the reversed link is kept: \<open>rest\<close> is what precedes the character \<open>c\<close>, reversed.\<close>

fun kept_reversed :: "string \<Rightarrow> string" where
  "kept_reversed [] = []"
| "kept_reversed (c # rest) =
     (if c \<in> set simple_trailing_punctuation then kept_reversed rest
      else case closing_pairs c of
        None \<Rightarrow> c # rest
      | Some opening \<Rightarrow>
          if count_list (c # rest) c \<le> count_list (c # rest) opening then c # rest
          else kept_reversed rest)"

definition split_trailing_punctuation :: "string \<Rightarrow> string \<times> string" where
  "split_trailing_punctuation v = (let link = rev (kept_reversed (rev v)) in (link, drop (length link) v))"

definition href_for :: "string \<Rightarrow> string" where
  "href_for v =
     (if prefix ''www.'' (to_lower v) then ''https://'' @ v
      else if prefix ''mailto:'' (to_lower v) \<or> prefix ''magnet:'' (to_lower v) then v
      else if \<not> includes_str ''://'' v then ''mailto:'' @ v
      else v)"

section \<open>Segments\<close>

text \<open>Text is appended to a text segment before it; \<open>segments\<close> are in reverse.\<close>

definition push_text :: "string \<Rightarrow> message_text_segment list \<Rightarrow> message_text_segment list" where
  "push_text t segments =
     (if t = [] then segments
      else case segments of
        s # ss \<Rightarrow> if seg_href s = None then s\<lparr>seg_text := seg_text s @ t\<rparr> # ss
                  else \<lparr>seg_text = t, seg_href = None\<rparr> # segments
      | [] \<Rightarrow> [\<lparr>seg_text = t, seg_href = None\<rparr>])"

text \<open>
  The scan: \<open>gap\<close> is the text since the last match, \<open>s\<close> what is left. After a match the search
  goes on behind it.
\<close>

function scan_links :: "message_text_segment list \<Rightarrow> string \<Rightarrow> string \<Rightarrow> message_text_segment list" where
  "scan_links segments gap [] = push_text gap segments"
| "scan_links segments gap (c # s) =
     (case link_match (c # s) of
        Some (Suc n) \<Rightarrow>
          (let (link, trail) = split_trailing_punctuation (take (Suc n) (c # s));
               segments = push_text gap segments;
               segments = (if link = [] then segments else \<lparr>seg_text = link, seg_href = Some (href_for link)\<rparr> # segments)
           in scan_links (push_text trail segments) [] (drop n s))
      | _ \<Rightarrow> scan_links segments (gap @ [c]) s)"
  by pat_completeness auto
termination
  by (relation "measure (\<lambda>(_, _, s). length s)") auto

definition message_text_segments :: "string \<Rightarrow> message_text_segment list" where
  "message_text_segments v = rev (scan_links [] [] v)"

section \<open>Replies\<close>

definition newline :: char where "newline = CHR 0x0A"

fun join_lines :: "string list \<Rightarrow> string" where
  "join_lines [] = []"
| "join_lines [x] = x"
| "join_lines (x # xs) = x @ newline # join_lines xs"

definition strip_plain_reply_fallback :: "string \<Rightarrow> string" where
  "strip_plain_reply_fallback v =
     (let lines = split_on newline v; quoted = takeWhile (prefix ''> '') lines; rest = drop (length quoted) lines
      in if quoted = [] then v
         else join_lines (case rest of [] # ls \<Rightarrow> ls | _ \<Rightarrow> rest))"

section \<open>Nothing is lost\<close>

abbreviation segments_text :: "message_text_segment list \<Rightarrow> string" where
  "segments_text segs \<equiv> concat (map seg_text segs)"

lemma kept_reversed_suffix: "\<exists>t. r = t @ kept_reversed r"
proof (induction r rule: kept_reversed.induct)
  case (2 c rest)
  have "kept_reversed (c # rest) = c # rest \<or> kept_reversed (c # rest) = kept_reversed rest"
    by (simp split: option.split)
  then consider "kept_reversed (c # rest) = c # rest"
    | "kept_reversed (c # rest) \<noteq> c # rest" "kept_reversed (c # rest) = kept_reversed rest" by blast
  then show ?case
  proof cases
    case 2
    moreover have "\<exists>t. rest = t @ kept_reversed rest"
      using "2.IH" 2 by (cases "c \<in> set simple_trailing_punctuation"; cases "closing_pairs c") (auto split: if_splits)
    ultimately show ?thesis by (metis append_Cons)
  qed simp
qed simp

lemma split_trailing_append: "split_trailing_punctuation v = (link, trail) \<Longrightarrow> v = link @ trail"
proof -
  assume a: "split_trailing_punctuation v = (link, trail)"
  obtain t where "rev v = t @ kept_reversed (rev v)" using kept_reversed_suffix by blast
  then have "v = rev (kept_reversed (rev v)) @ rev t" by (metis rev_append rev_rev_ident)
  moreover have "link = rev (kept_reversed (rev v))" "trail = drop (length link) v"
    using a by (auto simp: split_trailing_punctuation_def Let_def)
  ultimately show ?thesis by (metis append_eq_conv_conj)
qed

lemma push_text_appends: "segments_text (rev (push_text t segs)) = segments_text (rev segs) @ t"
  by (simp add: push_text_def split: list.split)

lemma push_text_links:
  "seg_href ` set (push_text t segs) \<subseteq> insert None (seg_href ` set segs)"
  "(\<exists>s \<in> set (push_text t segs). seg_href s = Some h) \<longleftrightarrow> (\<exists>s \<in> set segs. seg_href s = Some h)"
  by (auto simp: push_text_def split: list.split)

section \<open>Links have safe schemes\<close>

definition safe_schemes :: "string list" where
  "safe_schemes = [''https:'', ''http:'', ''ftp:'', ''mailto:'', ''magnet:'']"

definition safe_href :: "string \<Rightarrow> bool" where
  "safe_href h \<longleftrightarrow> list_ex (\<lambda>p. prefix p (to_lower h)) safe_schemes"

lemma lower_fixed: "to_lower ''https://'' = ''https://''" "to_lower ''mailto:'' = ''mailto:''" "to_lower ''://'' = ''://''"
  by (simp_all add: to_lower_def lower_char_def code_of_def)

lemma to_lower_append: "to_lower (a @ b) = to_lower a @ to_lower b"
  by (simp add: to_lower_def)

lemma includes_iff: "includes_str p s \<longleftrightarrow> (\<exists>a b. s = a @ p @ b)"
proof
  assume "includes_str p s"
  then obtain i where "index_str p s = Some i" by (auto simp: includes_str_def)
  then have "prefix p (drop i s)" by (rule index_str_prefix)
  then obtain b where "drop i s = p @ b" by (auto simp: prefix_def)
  then have "s = take i s @ p @ b" by (metis append_take_drop_id)
  then show "\<exists>a b. s = a @ p @ b" by blast
next
  assume "\<exists>a b. s = a @ p @ b"
  then obtain a b where s: "s = a @ p @ b" by blast
  have "index_str p (a @ p @ b) \<noteq> None"
  proof (induction a)
    case Nil
    then show ?case by (simp add: index_str_self)
  qed simp
  then show "includes_str p s" by (simp add: includes_str_def s)
qed

text \<open>A cut of a scheme has no \<^verbatim>\<open>://\<close>, so a link that has one starts with the whole scheme.\<close>

lemma short_scheme: "p \<in> set link_schemes \<Longrightarrow> k < length p \<Longrightarrow> \<not> includes_str ''://'' (take k p)"
proof -
  have "list_all (\<lambda>p. list_all (\<lambda>k. \<not> includes_str ''://'' (take k p)) [0..<length p]) link_schemes"
    by (simp add: link_schemes_def includes_str_def upt_rec)
  then show "p \<in> set link_schemes \<Longrightarrow> k < length p \<Longrightarrow> \<not> includes_str ''://'' (take k p)"
    by (auto simp: list_all_iff)
qed

lemma scheme_prefix:
  assumes "p \<in> set link_schemes" "prefix p (to_lower m)" "prefix v m" "includes_str ''://'' v"
  shows "prefix p (to_lower v)"
proof -
  have "prefix (to_lower v) (to_lower m)"
    using assms(3) by (auto simp: prefix_def to_lower_append)
  then have cases: "prefix p (to_lower v) \<or> prefix (to_lower v) p"
    using assms(2) prefix_same_cases by blast
  have low: "includes_str ''://'' (to_lower v)"
    using assms(4) lower_fixed(3) unfolding includes_iff by (metis to_lower_append)
  from cases show ?thesis
  proof
    assume "prefix (to_lower v) p"
    then have "to_lower v = take (length v) p" by (auto simp: prefix_def to_lower_def)
    moreover have "length v \<le> length p" using \<open>prefix (to_lower v) p\<close> by (auto simp: prefix_def to_lower_def)
    ultimately have "length v = length p" "to_lower v = p"
      using short_scheme [OF assms(1), of "length v"] low
      by (cases "length v < length p"; simp)+
    then show ?thesis by simp
  qed simp
qed

lemma no_slash: "is_alnum c \<Longrightarrow> c \<noteq> CHR ''/''" "\<not> local_char (CHR ''/'')" "\<not> domain_char (CHR ''/'')" "\<not> is_letter (CHR ''/'')"
  by (auto simp: is_alnum_def is_upper_def is_lower_def is_digit_def local_char_def domain_char_def is_letter_def code_of_def)

lemma take_run: "n \<le> length (takeWhile P s) \<Longrightarrow> \<not> P c \<Longrightarrow> c \<notin> set (take n s)"
proof
  assume n: "n \<le> length (takeWhile P s)" and c: "\<not> P c" "c \<in> set (take n s)"
  have "take n s = take n (takeWhile P s)"
    using n by (metis append_eq_append_conv_if append_eq_conv_conj takeWhile_dropWhile_id take_append take_take min_def)
  then show False using c by (metis in_set_takeD set_takeWhileD)
qed

lemma domain_cut_slash:
  "domain_cut j s = Some n \<Longrightarrow> j \<le> Suc (length (takeWhile domain_char s)) \<Longrightarrow> CHR ''/'' \<notin> set (take n s)"
proof (induction j)
  case (Suc i)
  let ?l = "length (takeWhile is_letter (drop (Suc i) s))"
  show ?case
  proof (cases "0 < i \<and> i < length s \<and> s ! i = CHR ''.'' \<and> 2 \<le> ?l")
    case True
    have "CHR ''/'' \<notin> set (take i s)" using Suc.prems(2) no_slash(3) by (intro take_run) auto
    moreover have "CHR ''/'' \<notin> set (take ?l (drop (Suc i) s))" using no_slash(4) by (intro take_run) auto
    moreover have "n = Suc i + ?l" using Suc.prems(1) True by (simp add: Let_def)
    moreover have "take (Suc i + ?l) s = take i s @ s ! i # take ?l (drop (Suc i) s)"
      using True by (simp only: take_add) (simp add: take_Suc_conv_app_nth)
    ultimately show ?thesis using True by simp
  next
    case False
    then show ?thesis using Suc by (auto simp: Let_def)
  qed
qed simp

lemma address_slash: "address_match s = Some n \<Longrightarrow> CHR ''/'' \<notin> set (take n s)"
proof -
  assume a: "address_match s = Some n"
  let ?k = "length (takeWhile local_char s)"
  obtain r m where r: "drop ?k s = CHR ''@'' # r" "domain_match r = Some m" "n = ?k + 1 + m"
    using a by (auto simp: address_match_def Let_def split: if_splits list.splits)
  have "take n s = take ?k s @ CHR ''@'' # take m r"
    using r by (simp add: take_add del: add.assoc) (metis One_nat_def add_Suc_right r(1) take_Suc_Cons take_add add_0_right)
  moreover have "CHR ''/'' \<notin> set (take m r)"
    using domain_cut_slash [OF r(2) [unfolded domain_match_def Let_def]] by simp
  ultimately show ?thesis using take_run [of ?k local_char s "CHR ''/''"] no_slash by simp
qed

lemma scheme_match_scheme:
  assumes "scheme_match schemes s = Some n"
  shows "\<exists>p \<in> set schemes. prefix p (to_lower s) \<and> length p \<le> n"
proof -
  obtain p where "find (\<lambda>p. prefix p (to_lower s)) schemes = Some p" "length p \<le> n"
    using assms by (auto simp: scheme_match_def Let_def split: option.splits if_splits)
  then show ?thesis by (auto simp: find_Some_iff)
qed

lemma link_match_kinds:
  assumes "link_match s = Some n"
  shows "(\<exists>p \<in> set link_schemes. prefix p (to_lower (take n s))) \<or> CHR ''/'' \<notin> set (take n s)"
proof (cases "scheme_match link_schemes s")
  case (Some k)
  then obtain p where p: "p \<in> set link_schemes" "prefix p (to_lower s)" "length p \<le> n"
    using assms Some scheme_match_scheme by (fastforce simp: link_match_def)
  have "prefix p (take n (to_lower s))"
    using p(2,3) by (metis prefix_def take_is_prefix prefix_length_prefix length_take min_def prefix_length_le)
  then show ?thesis using p(1) by (auto simp: to_lower_def take_map)
next
  case None
  have seven: "set (take (7 + k) s) = set (take 7 s) \<union> set (take k (drop 7 s))" for k by (simp add: take_add)
  have mail: "prefix ''mailto:'' (to_lower s) \<Longrightarrow> CHR ''/'' \<notin> set (take 7 s)"
  proof
    assume "prefix ''mailto:'' (to_lower s)" "CHR ''/'' \<in> set (take 7 s)"
    then have "to_lower (take 7 s) = ''mailto:''" "CHR ''/'' \<in> set (to_lower (take 7 s))"
      by (auto simp: prefix_def to_lower_def take_map [symmetric] lower_char_def code_of_def image_iff Let_def intro!: bexI [of _ "CHR ''/''"])
    then show False by simp
  qed
  show ?thesis using assms None address_slash
    by (auto simp: link_match_def seven dest: mail split: option.splits if_splits)
qed

lemma safe_same: "prefix p (to_lower v) \<Longrightarrow> p \<in> set safe_schemes \<Longrightarrow> safe_href v"
  by (auto simp: safe_href_def list_ex_iff)

lemma scheme_member: "''https:'' \<in> set safe_schemes" "''mailto:'' \<in> set safe_schemes" "''magnet:'' \<in> set safe_schemes"
  by (simp_all add: safe_schemes_def)

lemma safe_prefixed: "safe_href (''https://'' @ v)" "safe_href (''mailto:'' @ v)"
proof -
  have "prefix ''https:'' (''https://'' @ to_lower v)" "prefix ''mailto:'' (''mailto:'' @ to_lower v)" by simp_all
  then have "prefix ''https:'' (to_lower (''https://'' @ v))" "prefix ''mailto:'' (to_lower (''mailto:'' @ v))"
    by (simp_all only: to_lower_append lower_fixed)
  then show "safe_href (''https://'' @ v)" "safe_href (''mailto:'' @ v)"
    by (blast intro: safe_same scheme_member)+
qed

lemma safe_link_scheme: "p \<in> set link_schemes \<Longrightarrow> p \<noteq> ''www.'' \<Longrightarrow> prefix p (to_lower v) \<Longrightarrow> safe_href v"
  by (auto simp: link_schemes_def safe_href_def safe_schemes_def prefix_def)

lemma href_safe:
  assumes "link_match s = Some n" "prefix v (take n s)"
  shows "safe_href (href_for v)"
proof (cases "includes_str ''://'' v")
  case True
  then have "CHR ''/'' \<in> set v" by (auto simp: includes_iff)
  then have "CHR ''/'' \<in> set (take n s)" using assms(2) by (auto simp: prefix_def)
  then obtain p where "p \<in> set link_schemes" "prefix p (to_lower v)"
    using link_match_kinds [OF assms(1)] scheme_prefix [OF _ _ assms(2) True] by blast
  then show ?thesis
    using True safe_link_scheme [of p v] safe_prefixed [of v] safe_same [of _ v]
    by (auto simp: href_for_def safe_schemes_def simp del: append_Cons)
next
  case False
  then show ?thesis
    using safe_prefixed [of v] safe_same [of _ v] by (auto simp: href_for_def safe_schemes_def simp del: append_Cons)
qed

lemma scan_links_text: "segments_text (rev (scan_links segs gap s)) = segments_text (rev segs) @ gap @ s"
proof (induction segs gap s rule: scan_links.induct)
  case (2 segs gap c s)
  show ?case
  proof (cases "link_match (c # s)")
    case None
    then show ?thesis using 2(1) [OF None] by simp
  next
    case (Some k)
    show ?thesis
    proof (cases k)
      case 0
      then show ?thesis using 2(2) [OF Some] Some by simp
    next
      case (Suc n)
      obtain link trail where cut: "split_trailing_punctuation (take (Suc n) (c # s)) = (link, trail)" by fastforce
      then have "c # take n s = link @ trail" using split_trailing_append by fastforce
      moreover have "segments_text (rev (scan_links segs gap (c # s))) =
          segments_text (rev segs) @ gap @ link @ trail @ drop n s"
        using 2(3) [OF Some Suc cut [symmetric] refl refl refl] cut by (auto simp: Some Suc push_text_appends Let_def)
      ultimately show ?thesis by (metis append.assoc append_Cons append_take_drop_id)
    qed
  qed
qed (simp add: push_text_appends)

text \<open>The segments of a list that are links carry an address that may be followed.\<close>

definition links_safe :: "message_text_segment list \<Rightarrow> bool" where
  "links_safe segs \<longleftrightarrow> (\<forall>s \<in> set segs. seg_text s \<noteq> [] \<and> (\<forall>h. seg_href s = Some h \<longrightarrow> h = href_for (seg_text s) \<and> safe_href h))"

lemma push_text_safe: "links_safe segs \<Longrightarrow> links_safe (push_text t segs)"
  by (auto simp: links_safe_def push_text_def split: list.split)

lemma scan_links_safe: "links_safe segs \<Longrightarrow> links_safe (scan_links segs gap s)"
proof (induction segs gap s rule: scan_links.induct)
  case (2 segs gap c s)
  show ?case
  proof (cases "link_match (c # s)")
    case None
    then show ?thesis using 2(1) [OF None] 2(4) by simp
  next
    case (Some k)
    show ?thesis
    proof (cases k)
      case 0
      then show ?thesis using 2(2) [OF Some] 2(4) Some by simp
    next
      case (Suc n)
      obtain link trail where cut: "split_trailing_punctuation (take (Suc n) (c # s)) = (link, trail)" by fastforce
      then have "prefix link (take (Suc n) (c # s))" using split_trailing_append by (fastforce simp: prefix_def)
      then have "safe_href (href_for link)" using href_safe Some Suc by blast
      then have "links_safe (push_text trail (if link = [] then push_text gap segs
          else \<lparr>seg_text = link, seg_href = Some (href_for link)\<rparr> # push_text gap segs))"
        using push_text_safe [OF 2(4)] by (intro push_text_safe) (auto simp: links_safe_def)
      then show ?thesis using 2(3) [OF Some Suc cut [symmetric] refl refl refl] cut by (simp add: Some Suc Let_def)
    qed
  qed
qed (simp add: push_text_safe)

text \<open>The segments of a message spell the message; every link among them has the address computed from
  its text, and this has one of the schemes https, http, ftp, mailto and magnet, whatever the text.
\<close>

theorem message_links_safe:
  "segments_text (message_text_segments v) = v \<and>
   list_all (\<lambda>s. seg_text s \<noteq> [] \<and>
      (case seg_href s of None \<Rightarrow> True | Some h \<Rightarrow> h = href_for (seg_text s) \<and> safe_href h)) (message_text_segments v)"
  using scan_links_text [of "[]" "[]" v] scan_links_safe [of "[]" "[]" v]
  by (auto simp: message_text_segments_def links_safe_def list_all_iff split: option.split)

section \<open>A word that is no address\<close>

text \<open>The dots of an ellipsis match as the host behind \<^verbatim>\<open>www.\<close> and are then all cut off: what is
  left is linked as a mail address.
\<close>

theorem ellipsis_becomes_mail:
  "message_text_segments ''www...'' =
     [\<lparr>seg_text = ''www'', seg_href = Some ''mailto:www''\<rparr>, \<lparr>seg_text = ''...'', seg_href = None\<rparr>]"
proof -
  have m: "link_match ''www...'' = Some 6"
    by (simp add: link_match_def scheme_match_def link_schemes_def to_lower_def lower_char_def code_of_def link_char_def is_js_space_def)
  have c: "split_trailing_punctuation ''www...'' = (''www'', ''...'')"
    by (simp add: split_trailing_punctuation_def simple_trailing_punctuation_def closing_pairs_def)
  have h: "href_for ''www'' = ''mailto:www''"
    by (simp add: href_for_def to_lower_def lower_char_def code_of_def includes_str_def)
  show ?thesis by (simp add: message_text_segments_def m c h push_text_def numeral_eq_Suc)
qed

section \<open>Quoted lines\<close>

lemma split_lines_join: "join_lines (split_on newline v) = v"
proof (induction v)
  case (Cons c v)
  obtain l ls where "split_on newline v = l # ls" by (cases "split_on newline v") (auto simp: split_on_nonempty)
  then show ?case using Cons by (cases ls) auto
qed simp

definition plain_fallback :: "string list \<Rightarrow> string" where
  "plain_fallback quoted = concat (map (\<lambda>q. ''> '' @ q @ [newline]) quoted)"

lemma fallback_lines:
  "\<forall>q \<in> set quoted. newline \<notin> set q \<Longrightarrow>
   split_on newline (plain_fallback quoted @ v) = map (\<lambda>q. ''> '' @ q) quoted @ split_on newline v"
proof (induction quoted)
  case (Cons q qs)
  have "newline \<notin> set (''> '' @ q)" using Cons.prems by (simp add: newline_def)
  then have "split_on newline ((''> '' @ q) @ newline # plain_fallback qs @ v) = (''> '' @ q) # split_on newline (plain_fallback qs @ v)"
    by (rule split_on_append)
  then show ?case using Cons by (simp add: plain_fallback_def)
qed (simp add: plain_fallback_def)

lemma unquoted_kept: "\<not> prefix ''> '' w \<Longrightarrow> strip_plain_reply_fallback w = w"
proof -
  assume "\<not> prefix ''> '' w"
  obtain l ls where l: "split_on newline w = l # ls" by (cases "split_on newline w") (auto simp: split_on_nonempty)
  then have "prefix l w" by (metis split_lines_join join_lines.simps(2,3) list.exhaust prefixI prefix_order.refl)
  then have "\<not> prefix ''> '' l" using \<open>\<not> prefix ''> '' w\<close> prefix_order.trans by blast
  then show ?thesis by (simp add: strip_plain_reply_fallback_def Let_def l)
qed

text \<open>A reply with the plain fallback in front of it, quoted lines and a blank line, is shown as the
  reply alone; a message whose first line is not quoted is shown as it is.
\<close>

theorem reply_fallback_stripped:
  "quoted \<noteq> [] \<Longrightarrow> \<forall>q \<in> set quoted. newline \<notin> set q \<Longrightarrow>
   strip_plain_reply_fallback (plain_fallback quoted @ newline # v) = v \<and>
   (\<not> prefix ''> '' w \<longrightarrow> strip_plain_reply_fallback w = w)"
proof -
  assume a: "quoted \<noteq> []" "\<forall>q \<in> set quoted. newline \<notin> set q"
  let ?ls = "map (\<lambda>q. ''> '' @ q) quoted"
  have "split_on newline (newline # v) = [] # split_on newline v" by simp
  then have lines: "split_on newline (plain_fallback quoted @ newline # v) = ?ls @ [] # split_on newline v"
    by (simp only: fallback_lines [OF a(2)])
  have "takeWhile (prefix ''> '') (?ls @ [] # split_on newline v) = ?ls"
    by (subst takeWhile_append2) auto
  then have "strip_plain_reply_fallback (plain_fallback quoted @ newline # v) = v"
    using a(1) by (simp add: strip_plain_reply_fallback_def Let_def lines split_lines_join)
  then show ?thesis using unquoted_kept by blast
qed

theorem reply_fallback_stripped_witness:
  "strip_plain_reply_fallback (plain_fallback [''hi''] @ newline # ''yes'') = ''yes'' \<and>
   strip_plain_reply_fallback ''no'' = ''no''"
  using reply_fallback_stripped [of "[''hi'']" "''yes''" "''no''"] by (simp add: newline_def)

end
