(* ===== verification/Message_Content.thy ===== *)
theory Message_Content
  imports JsValue "HOL-Library.AList"
begin

text \<open>
  lib/matrix/message-content.ts: the content of the events that a client sends. Contents are objects
  with their properties in order; setting a property keeps its place.
\<close>

section \<open>Objects\<close>

text \<open>\<^verbatim>\<open>{...v, k: x}\<close> and \<^verbatim>\<open>delete v.k\<close>\<close>

definition set_prop :: "string \<Rightarrow> jsval \<Rightarrow> jsval \<Rightarrow> jsval" where
  "set_prop k x v = JObj (AList.update k x (own_props v))"

definition delete_prop :: "string \<Rightarrow> jsval \<Rightarrow> jsval" where
  "delete_prop k v = JObj (AList.delete k (own_props v))"

lemma js_opt_set [simp]: "js_opt k (set_prop j x v) = (if k = j then x else js_opt k (JObj (own_props v)))"
  by (simp add: set_prop_def update_conv')

lemma js_opt_delete [simp]: "js_opt k (delete_prop j v) = (if k = j then JUndef else js_opt k (JObj (own_props v)))"
  by (simp add: delete_prop_def delete_conv')

lemma own_props_edit [simp]:
  "own_props (set_prop j x v) = AList.update j x (own_props v)" "own_props (delete_prop j v) = AList.delete j (own_props v)"
  "own_props (JObj ps) = ps"
  by (simp_all add: set_prop_def delete_prop_def own_props_def)

section \<open>Mentions\<close>

text \<open>\<^verbatim>\<open>[A-Za-z0-9._=/+-]\<close> and \<^verbatim>\<open>[A-Za-z0-9._:-]\<close>\<close>

definition mention_local_char :: "char \<Rightarrow> bool" where
  "mention_local_char c \<longleftrightarrow> is_alnum c \<or> c \<in> {CHR ''.'', CHR ''_'', CHR ''='', CHR ''/'', CHR ''+'', CHR ''-''}"

definition mention_server_char :: "char \<Rightarrow> bool" where
  "mention_server_char c \<longleftrightarrow> is_alnum c \<or> c \<in> {CHR ''.'', CHR ''_'', CHR '':'', CHR ''-''}"

text \<open>The length of a user id at the start of \<open>s\<close>.\<close>

definition mention_match :: "string \<Rightarrow> nat option" where
  "mention_match s =
     (case s of
        [] \<Rightarrow> None
      | c # r \<Rightarrow>
          (let n = length (takeWhile mention_local_char r) in
           if c \<noteq> CHR ''@'' \<or> n = 0 then None
           else case drop n r of
             [] \<Rightarrow> None
           | d # t \<Rightarrow>
               (let m = length (takeWhile mention_server_char t)
                in if d \<noteq> CHR '':'' \<or> m = 0 then None else Some (n + m + 2))))"

function mention_matches :: "string \<Rightarrow> string list" where
  "mention_matches [] = []"
| "mention_matches (c # s) =
     (case mention_match (c # s) of
        Some (Suc n) \<Rightarrow> take (Suc n) (c # s) # mention_matches (drop n s)
      | _ \<Rightarrow> mention_matches s)"
  by pat_completeness auto
termination
  by (relation "measure length") auto

definition mentioned_user_ids :: "string \<Rightarrow> string list" where
  "mentioned_user_ids body = js_unique (mention_matches body)"

section \<open>Text messages\<close>

record text_options =
  to_reply_to :: "string option"
  to_reply_user_id :: "string option"
  to_edit_event_id :: "string option"

text \<open>A field of the options that counts: present and not empty.\<close>

definition given :: "string option \<Rightarrow> string option" where
  "given s = (case s of Some (c # cs) \<Rightarrow> s | _ \<Rightarrow> None)"

definition in_reply_to :: "string \<Rightarrow> jsval" where
  "in_reply_to e = JObj [(''m.in_reply_to'', JObj [(''event_id'', JStr e)])]"

definition replaces :: "string \<Rightarrow> jsval" where
  "replaces e = JObj [(''rel_type'', JStr ''m.replace''), (''event_id'', JStr e)]"

definition mentioned :: "string \<Rightarrow> text_options \<Rightarrow> string list" where
  "mentioned trimmed opts =
     js_unique (mentioned_user_ids trimmed @ (case given (to_reply_user_id opts) of None \<Rightarrow> [] | Some u \<Rightarrow> [u]))"

definition mentions_props :: "string \<Rightarrow> text_options \<Rightarrow> (string \<times> jsval) list" where
  "mentions_props trimmed opts =
     (let ids = mentioned trimmed opts; room = includes_str ''@room'' trimmed
      in if ids \<noteq> [] \<or> room
         then [(''m.mentions'', JObj ((''user_ids'', js_array (map JStr ids)) # (if room then [(''room'', JBool True)] else [])))]
         else [])"

definition plain_content :: "string \<Rightarrow> text_options \<Rightarrow> jsval" where
  "plain_content trimmed opts =
     JObj ([(''msgtype'', JStr ''m.text''), (''body'', JStr trimmed)] @ mentions_props trimmed opts)"

definition create_text_content :: "string \<Rightarrow> text_options \<Rightarrow> jsval" where
  "create_text_content body opts =
     (let trimmed = js_trim body; plain = plain_content trimmed opts in
      case given (to_edit_event_id opts) of
        Some e \<Rightarrow>
          JObj ([(''msgtype'', JStr ''m.text''), (''body'', JStr (''* '' @ trimmed)),
             (''m.new_content'', (case given (to_reply_to opts) of
                Some r \<Rightarrow> set_prop ''m.relates_to'' (in_reply_to r) plain | None \<Rightarrow> plain)),
             (''m.relates_to'', replaces e)] @ mentions_props trimmed opts)
      | None \<Rightarrow>
          (case given (to_reply_to opts) of
             Some r \<Rightarrow> set_prop ''m.relates_to'' (in_reply_to r) plain
           | None \<Rightarrow> plain))"

section \<open>Media messages\<close>

definition media_message_types :: "string list" where
  "media_message_types = [''m.image'', ''m.video'', ''m.audio'', ''m.file'']"

definition is_media_message_content :: "jsval \<Rightarrow> bool" where
  "is_media_message_content content \<longleftrightarrow>
     (case js_opt ''msgtype'' content of JStr t \<Rightarrow> t \<in> set media_message_types | _ \<Rightarrow> False)"

text \<open>The text of a string that is more than white space, or another text.\<close>

definition text_or :: "jsval \<Rightarrow> string \<Rightarrow> string" where
  "text_or v other = (case v of JStr s \<Rightarrow> if js_trim s \<noteq> [] then js_trim s else other | _ \<Rightarrow> other)"

definition create_media_edit_content :: "jsval \<Rightarrow> string \<Rightarrow> string \<Rightarrow> jsval option" where
  "create_media_edit_content original body edit_event_id =
     (if \<not> is_media_message_content original then None
      else
        let original_body = text_or (js_opt ''body'' original) ''attachment'';
            file_name = text_or (js_opt ''filename'' original) original_body;
            caption = js_trim body;
            shown = (if caption \<noteq> [] then caption else file_name);
            replacement = delete_prop ''m.new_content'' (delete_prop ''formatted_body'' (delete_prop ''format''
              (set_prop ''filename'' (JStr file_name) (set_prop ''body'' (JStr shown) original))))
        in Some (JObj [(''msgtype'', js_opt ''msgtype'' original), (''body'', JStr (''* '' @ shown)),
             (''m.new_content'', replacement), (''m.relates_to'', replaces edit_event_id)]))"

definition media_message_type :: "string \<Rightarrow> string" where
  "media_message_type mime_type =
     (if prefix ''image/'' mime_type then ''m.image''
      else if prefix ''video/'' mime_type then ''m.video''
      else if prefix ''audio/'' mime_type then ''m.audio''
      else ''m.file'')"

record media_options =
  mo_file_name :: string
  mo_mime_type :: string
  mo_content_uri :: string
  mo_info :: jsval
  mo_caption :: "string option"
  mo_reply_to :: "string option"
  mo_encrypted_file :: "jsval option"

definition create_media_content :: "media_options \<Rightarrow> jsval" where
  "create_media_content opts =
     (let caption = given (map_option js_trim (mo_caption opts)) in
      JObj ([(''msgtype'', JStr (media_message_type (mo_mime_type opts))),
             (''body'', JStr (case caption of Some c \<Rightarrow> c | None \<Rightarrow> mo_file_name opts)), (''info'', mo_info opts)]
        @ (case caption of Some c \<Rightarrow> [(''filename'', JStr (mo_file_name opts))] | None \<Rightarrow> [])
        @ (case given (mo_reply_to opts) of Some r \<Rightarrow> [(''m.relates_to'', in_reply_to r)] | None \<Rightarrow> [])
        @ (case mo_encrypted_file opts of
             Some f \<Rightarrow> [(''file'', set_prop ''url'' (JStr (mo_content_uri opts)) f)]
           | None \<Rightarrow> [(''url'', JStr (mo_content_uri opts))])))"

section \<open>Facts\<close>

lemma trim_cut: "\<exists>a b. s = a @ js_trim s @ b"
proof -
  let ?t = "dropWhile is_js_space s"
  have "s = takeWhile is_js_space s @ ?t" by simp
  moreover have "?t = rev (dropWhile is_js_space (rev ?t)) @ rev (takeWhile is_js_space (rev ?t))"
    by (metis rev_append rev_rev_ident takeWhile_dropWhile_id)
  ultimately show ?thesis unfolding js_trim_def by metis
qed

lemma trim_idem: "js_trim (js_trim s) = js_trim s"
proof -
  let ?t = "dropWhile is_js_space s"
  let ?u = "dropWhile is_js_space (rev ?t)"
  have "dropWhile is_js_space (rev ?u) = rev ?u"
  proof (cases "rev ?u")
    case (Cons c cs)
    then have "last ?u = c" by (metis hd_rev list.sel(1))
    moreover have "?u \<noteq> []" using Cons by auto
    moreover have "last ?u = last (rev ?t)" using \<open>?u \<noteq> []\<close> by (metis last_appendR takeWhile_dropWhile_id)
    ultimately have "c = hd ?t" by (metis hd_rev rev_rev_ident)
    moreover have "?t \<noteq> []" using \<open>?u \<noteq> []\<close> by (metis dropWhile.simps(1) rev.simps(1))
    ultimately have "\<not> is_js_space c" using hd_dropWhile [of is_js_space s] by (metis dropWhile_eq_Nil_conv)
    then show ?thesis using Cons by simp
  next
    case Nil
    then show ?thesis by (metis dropWhile.simps(1))
  qed
  then show ?thesis by (simp add: js_trim_def)
qed

lemma mention_match_parts:
  assumes "mention_match s = Some n"
  shows "prefix ''@'' (take n s) \<and> CHR '':'' \<in> set (take n s) \<and> 0 < n"
proof -
  obtain r where s: "s = CHR ''@'' # r"
    using assms by (auto simp: mention_match_def Let_def split: list.splits if_splits)
  let ?n = "length (takeWhile mention_local_char r)"
  obtain t where t: "drop ?n r = CHR '':'' # t"
    using assms by (auto simp: s mention_match_def Let_def split: list.splits if_splits)
  have n: "n = Suc (?n + Suc (length (takeWhile mention_server_char t)))"
    using assms t by (auto simp: s mention_match_def Let_def split: if_splits)
  have "take (?n + Suc k) r = take ?n r @ CHR '':'' # take k t" for k
    by (simp only: take_add t take_Suc_Cons)
  then show ?thesis by (simp add: s n)
qed

lemma mention_matches_parts: "m \<in> set (mention_matches s) \<Longrightarrow> sublist m s \<and> prefix ''@'' m \<and> CHR '':'' \<in> set m"
proof (induction s rule: mention_matches.induct)
  case (2 c s)
  have later: "sublist m (drop n s) \<Longrightarrow> sublist m (c # s)" for n
  proof -
    assume "sublist m (drop n s)"
    moreover have "sublist (drop n s) (c # s)" by (metis append_take_drop_id sublist_Cons_right sublist_append_leftI)
    ultimately show "sublist m (c # s)" by (metis sublist_order.order_trans)
  qed
  show ?case
  proof (cases "mention_match (c # s)")
    case None
    then show ?thesis using 2(1) [OF None] 2(4) by (auto intro: sublist_Cons_right [THEN iffD2])
  next
    case (Some k)
    then obtain n where k: "k = Suc n" using mention_match_parts by (cases k) auto
    from 2(4) consider "m = take k (c # s)" | "m \<in> set (mention_matches (drop n s))" by (auto simp: Some k)
    then show ?thesis
    proof cases
      case 1
      then show ?thesis using mention_match_parts [OF Some] by (auto intro: prefix_imp_sublist take_is_prefix)
    next
      case 2
      then show ?thesis using "2.IH"(3) [OF Some k] later by blast
    qed
  qed
qed simp

text \<open>Who is mentioned: the user ids in the text, each once, and the author of the message replied to;
  nobody else.
\<close>

theorem mentions_come_from_text:
  "distinct (mentioned t opts) \<and>
   (\<forall>m \<in> set (mentioned t opts). given (to_reply_user_id opts) = Some m \<or>
      (sublist m t \<and> prefix ''@'' m \<and> CHR '':'' \<in> set m)) \<and>
   (\<forall>u. given (to_reply_user_id opts) = Some u \<longrightarrow> u \<in> set (mentioned t opts))"
  using mention_matches_parts by (auto simp: mentioned_def mentioned_user_ids_def split: option.splits)

end
