(* ===== verification/Room_View.thy ===== *)
theory Room_View
  imports Message_Text Message_Content
begin

text \<open>
  lib/matrix/normalize.ts: what the screens show of rooms and events. An event and a room of the
  Matrix SDK are records of what their methods return; the HTML sanitizer, the locale's string
  comparison and the conversion of non-strings to text are parameters.
\<close>

section \<open>Sorting\<close>

text \<open>
  \<^verbatim>\<open>Array.prototype.sort\<close> with a comparator that may throw (\<open>None\<close>): stable, and each new element is
  compared with those before it. Which pairs are compared is left open by the language; where the
  comparator is consistent and does not throw, the result does not depend on it.
\<close>

fun insert_cmp :: "('a \<Rightarrow> 'a \<Rightarrow> rat option) \<Rightarrow> 'a \<Rightarrow> 'a list \<Rightarrow> 'a list option" where
  "insert_cmp cmp x [] = Some [x]"
| "insert_cmp cmp x (y # ys) =
     (case cmp x y of
        None \<Rightarrow> None
      | Some c \<Rightarrow> if c < 0 then Some (x # y # ys) else map_option ((#) y) (insert_cmp cmp x ys))"

fun sort_into :: "('a \<Rightarrow> 'a \<Rightarrow> rat option) \<Rightarrow> 'a list \<Rightarrow> 'a list \<Rightarrow> 'a list option" where
  "sort_into cmp acc [] = Some acc"
| "sort_into cmp acc (x # xs) =
     (case insert_cmp cmp x acc of None \<Rightarrow> None | Some acc \<Rightarrow> sort_into cmp acc xs)"

definition js_sort :: "('a \<Rightarrow> 'a \<Rightarrow> rat option) \<Rightarrow> 'a list \<Rightarrow> 'a list option" where
  "js_sort cmp xs = sort_into cmp [] xs"

section \<open>Events\<close>

record matrix_event =
  ev_type :: string
  ev_content :: jsval
  ev_sender :: "string option"
  ev_id :: "string option"
  ev_ts :: int
  ev_encrypted :: bool
  ev_failed :: bool
  ev_decrypting :: bool
  ev_replacing :: "jsval option"
  ev_relation :: jsval
  ev_status :: "string option"

record sdk_env =
  sd_sanitize :: "string \<Rightarrow> string"
  sd_compare :: "string \<Rightarrow> string \<Rightarrow> rat"
  sd_string :: "jsval \<Rightarrow> string"

definition event_decryption_state :: "matrix_event \<Rightarrow> string" where
  "event_decryption_state e =
     (if \<not> ev_encrypted e then ''ready''
      else if ev_failed e then ''failed''
      else if ev_decrypting e \<or> ev_type e = ''m.room.encrypted'' then ''decrypting''
      else ''ready'')"

text \<open>\<^verbatim>\<open>a ?? b\<close>\<close>

definition or_else :: "jsval \<Rightarrow> jsval \<Rightarrow> jsval" where
  "or_else a b = (if a = JUndef \<or> a = JNull then b else a)"

text \<open>The content that counts: the one of the latest edit, the new content of the event, its content.\<close>

definition current_content :: "matrix_event \<Rightarrow> jsval" where
  "current_content e =
     or_else (js_opt ''m.new_content'' (case ev_replacing e of Some c \<Rightarrow> c | None \<Rightarrow> JUndef))
       (or_else (js_opt ''m.new_content'' (ev_content e)) (ev_content e))"

definition reply_target :: "jsval \<Rightarrow> jsval" where
  "reply_target content = js_opt ''event_id'' (js_opt ''m.in_reply_to'' (js_opt ''m.relates_to'' content))"

definition event_body :: "matrix_event \<Rightarrow> string" where
  "event_body e =
     (if ev_failed e then ''This transmission could not be decrypted on this device.''
      else case js_opt ''body'' (current_content e) of
        JStr body \<Rightarrow> if truthy (reply_target (current_content e)) then strip_plain_reply_fallback body else body
      | _ \<Rightarrow> [])"

section \<open>Reactions\<close>

record reaction =
  rx_count :: nat
  rx_mine :: bool
  rx_own_event :: "string option"

text \<open>
  Keys of a \<^verbatim>\<open>Map\<close>: primitives by value; objects that come from different events are different keys.
\<close>

definition same_key :: "jsval \<Rightarrow> jsval \<Rightarrow> bool" where
  "same_key a b \<longleftrightarrow> a = b \<and> \<not> is_object a \<and> \<not> is_array a"

fun map_get :: "jsval \<Rightarrow> (jsval \<times> 'v) list \<Rightarrow> 'v option" where
  "map_get k [] = None"
| "map_get k ((j, v) # m) = (if same_key j k then Some v else map_get k m)"

fun map_set :: "jsval \<Rightarrow> 'v \<Rightarrow> (jsval \<times> 'v) list \<Rightarrow> (jsval \<times> 'v) list" where
  "map_set k v [] = [(k, v)]"
| "map_set k v ((j, w) # m) = (if same_key j k then (j, v) # m else (j, w) # map_set k v m)"

type_synonym reactions = "(jsval \<times> (jsval \<times> reaction) list) list"

definition reaction_relation :: "matrix_event \<Rightarrow> jsval" where
  "reaction_relation e = js_opt ''m.relates_to'' (ev_content e)"

definition is_annotation :: "matrix_event \<Rightarrow> bool" where
  "is_annotation e \<longleftrightarrow>
     ev_type e = ''m.reaction'' \<and> js_opt ''rel_type'' (reaction_relation e) = JStr ''m.annotation'' \<and>
     truthy (js_opt ''event_id'' (reaction_relation e)) \<and> truthy (js_opt ''key'' (reaction_relation e))"

definition add_reaction :: "string \<Rightarrow> matrix_event \<Rightarrow> reactions \<Rightarrow> reactions" where
  "add_reaction own e m =
     (if \<not> is_annotation e then m
      else
        let target = js_opt ''event_id'' (reaction_relation e); key = js_opt ''key'' (reaction_relation e);
            by_event = (case map_get target m of None \<Rightarrow> [] | Some r \<Rightarrow> r);
            current = (case map_get key by_event of None \<Rightarrow> \<lparr>rx_count = 0, rx_mine = False, rx_own_event = None\<rparr> | Some r \<Rightarrow> r);
            counted = current\<lparr>rx_count := rx_count current + 1\<rparr>;
            marked = (if ev_sender e = Some own then counted\<lparr>rx_mine := True, rx_own_event := ev_id e\<rparr> else counted)
        in map_set target (map_set key marked by_event) m)"

definition reaction_map :: "matrix_event list \<Rightarrow> string \<Rightarrow> reactions" where
  "reaction_map events own = fold (add_reaction own) events []"

definition compare_reactions :: "sdk_env \<Rightarrow> jsval \<times> reaction \<Rightarrow> jsval \<times> reaction \<Rightarrow> rat option" where
  "compare_reactions E l r =
     (if rx_count (snd l) \<noteq> rx_count (snd r) then Some (of_nat (rx_count (snd r)) - of_nat (rx_count (snd l)))
      else case fst l of
        JStr k \<Rightarrow> Some (sd_compare E k (case fst r of JStr j \<Rightarrow> j | v \<Rightarrow> sd_string E v))
      | _ \<Rightarrow> None)"

definition reactions_for :: "sdk_env \<Rightarrow> string \<Rightarrow> reactions \<Rightarrow> (jsval \<times> reaction) list option" where
  "reactions_for E event_id m =
     js_sort (compare_reactions E) (case map_get (JStr event_id) m of None \<Rightarrow> [] | Some r \<Rightarrow> r)"

section \<open>Items of the timeline\<close>

definition classify_message :: "jsval \<Rightarrow> matrix_event \<Rightarrow> string" where
  "classify_message content e =
     (if ev_failed e then ''encrypted''
      else if ev_type e = ''m.room.member'' then ''system''
      else
        let t = js_opt ''msgtype'' content in
        if t = JStr ''m.image'' then ''image''
        else if t = JStr ''m.video'' then ''video''
        else if t = JStr ''m.audio'' then ''audio''
        else if t = JStr ''m.file'' then ''file''
        else if t = JStr ''m.notice'' then ''notice''
        else ''message'')"

definition string_of :: "sdk_env \<Rightarrow> jsval \<Rightarrow> string" where
  "string_of E v = (case v of JStr s \<Rightarrow> s | _ \<Rightarrow> sd_string E v)"

definition membership_body :: "sdk_env \<Rightarrow> matrix_event \<Rightarrow> string \<Rightarrow> string" where
  "membership_body E e name =
     (let m = string_of E (or_else (js_opt ''membership'' (ev_content e)) (JStr ''changed their membership'')) in
      if m = ''join'' then name @ '' joined the room.''
      else if m = ''leave'' then name @ '' left the room.''
      else if m = ''invite'' then name @ '' sent an invitation.''
      else if m = ''ban'' then name @ '' was banned.''
      else name @ '' changed membership to '' @ m @ ''.'')"

record room_member =
  rm_user_id :: string
  rm_name :: string
  rm_avatar :: "string option"

record timeline_media =
  tm_url :: string
  tm_mime_type :: "string option"
  tm_size :: "jsnum option"
  tm_width :: "jsnum option"
  tm_height :: "jsnum option"
  tm_encrypted_file :: "jsval option"

record timeline_entry =
  te_id :: string
  te_type :: string
  te_sender_id :: string
  te_sender_name :: string
  te_sender_avatar :: "string option"
  te_body :: string
  te_formatted_body :: "string option"
  te_timestamp :: int
  te_own :: bool
  te_edited :: bool
  te_redacted :: bool
  te_encrypted :: bool
  te_decryption_state :: string
  te_media :: "timeline_media option"
  te_reply_to :: jsval
  te_reactions :: "(jsval \<times> reaction) list"
  te_sending_status :: "string option"
  te_read_by :: "string list"
  te_event :: matrix_event

record room =
  ro_events :: "matrix_event list"
  ro_members :: "room_member list"
  ro_has_read :: "string \<Rightarrow> string \<Rightarrow> bool"

definition visible_event :: "matrix_event \<Rightarrow> bool" where
  "visible_event e \<longleftrightarrow>
     ev_type e \<noteq> ''m.reaction'' \<and> js_opt ''rel_type'' (ev_relation e) \<noteq> JStr ''m.replace'' \<and>
     ev_type e \<in> {''m.room.message'', ''m.room.encrypted'', ''m.room.member''}"

text \<open>\<^verbatim>\<open>typeof v === "object"\<close> and not null\<close>

definition object_or_none :: "jsval \<Rightarrow> jsval option" where
  "object_or_none v = (if is_object v \<or> is_array v then Some v else None)"

definition str_of :: "jsval \<Rightarrow> string option" where
  "str_of v = (case v of JStr s \<Rightarrow> Some s | _ \<Rightarrow> None)"

definition num_of_js :: "jsval \<Rightarrow> jsnum option" where
  "num_of_js v = (case v of JNum n \<Rightarrow> Some n | _ \<Rightarrow> None)"

definition media_of :: "jsval \<Rightarrow> timeline_media option" where
  "media_of content =
     (let file = object_or_none (js_opt ''file'' content);
          url = (case str_of (js_opt ''url'' content) of
                   Some u \<Rightarrow> Some u
                 | None \<Rightarrow> (case file of Some f \<Rightarrow> str_of (js_opt ''url'' f) | None \<Rightarrow> None));
          info = js_opt ''info'' content
      in case url of
        Some (c # cs) \<Rightarrow>
          Some \<lparr>tm_url = c # cs, tm_mime_type = str_of (js_opt ''mimetype'' info), tm_size = num_of_js (js_opt ''size'' info),
                tm_width = num_of_js (js_opt ''w'' info), tm_height = num_of_js (js_opt ''h'' info), tm_encrypted_file = file\<rparr>
      | _ \<Rightarrow> None)"

definition name_or :: "string \<Rightarrow> string \<Rightarrow> string" where
  "name_or a b = (if a \<noteq> [] then a else b)"

definition read_by :: "room \<Rightarrow> string \<Rightarrow> string \<Rightarrow> matrix_event \<Rightarrow> string list" where
  "read_by r own event_id e =
     (if event_id \<noteq> [] \<and> ev_sender e = Some own
      then take 3 (map (\<lambda>m. name_or (rm_name m) (rm_user_id m))
             (filter (\<lambda>m. rm_user_id m \<noteq> own \<and> ro_has_read r (rm_user_id m) event_id) (ro_members r)))
      else [])"

definition timeline_item_of :: "sdk_env \<Rightarrow> room \<Rightarrow> string \<Rightarrow> reactions \<Rightarrow> matrix_event \<Rightarrow> timeline_entry option" where
  "timeline_item_of E r own reactions e =
     (let sender = (case ev_sender e of Some s \<Rightarrow> s | None \<Rightarrow> []);
          member = find (\<lambda>m. rm_user_id m = sender) (ro_members r);
          name = name_or (case member of Some m \<Rightarrow> rm_name m | None \<Rightarrow> []) (name_or sender ''Unknown traveller'');
          original = ev_content e;
          content = current_content e;
          event_id = (case ev_id e of Some i \<Rightarrow> i | None \<Rightarrow> ''local-'' @ int_digits (ev_ts e) @ ''-'' @ sender)
      in map_option (\<lambda>rs.
           \<lparr>te_id = event_id, te_type = classify_message content e, te_sender_id = sender, te_sender_name = name,
            te_sender_avatar = (case member of Some m \<Rightarrow> rm_avatar m | None \<Rightarrow> None),
            te_body = (if ev_type e = ''m.room.member'' then membership_body E e name else event_body e),
            te_formatted_body =
              (if js_opt ''format'' content = JStr ''org.matrix.custom.html''
               then map_option (sd_sanitize E) (str_of (js_opt ''formatted_body'' content)) else None),
            te_timestamp = ev_ts e, te_own = (sender = own),
            te_edited = (ev_replacing e \<noteq> None \<or> truthy (js_opt ''m.new_content'' original)),
            te_redacted = (own_props original = [] \<and> array_items original = [] \<and> \<not> ev_failed e),
            te_encrypted = ev_encrypted e, te_decryption_state = event_decryption_state e,
            te_media = media_of content, te_reply_to = reply_target content, te_reactions = rs,
            te_sending_status = ev_status e, te_read_by = read_by r own event_id e, te_event = e\<rparr>)
         (reactions_for E event_id reactions))"

fun map_all :: "('a \<Rightarrow> 'b option) \<Rightarrow> 'a list \<Rightarrow> 'b list option" where
  "map_all f [] = Some []"
| "map_all f (x # xs) =
     (case f x of None \<Rightarrow> None | Some y \<Rightarrow> map_option ((#) y) (map_all f xs))"

text \<open>\<^verbatim>\<open>None\<close> when the sort of the reactions throws.\<close>

definition normalize_timeline :: "sdk_env \<Rightarrow> room \<Rightarrow> string option \<Rightarrow> timeline_entry list option" where
  "normalize_timeline E r user =
     (let own = (case user of Some u \<Rightarrow> u | None \<Rightarrow> []); reactions = reaction_map (ro_events r) own
      in map_all (timeline_item_of E r own reactions) (filter visible_event (ro_events r)))"

section \<open>Rooms\<close>

text \<open>The text under the name of a room. The notice for a message being decrypted ends in an ellipsis,
  a code unit above 255, and is kept apart.\<close>

datatype last_text = LastText string | DecryptingText

record joined_room =
  jr_id :: string
  jr_name :: string
  jr_default_name :: string
  jr_topic :: jsval
  jr_avatar :: "string option"
  jr_fallback_avatar :: "string option"
  jr_membership :: string
  jr_last_event :: "matrix_event option"
  jr_timestamp :: rat
  jr_unread :: nat
  jr_highlights :: nat
  jr_encrypted :: bool
  jr_favourite_tag :: jsval
  jr_mute_actions :: "nat option"
  jr_member_count :: nat

definition last_message_text :: "joined_room \<Rightarrow> last_text" where
  "last_message_text r =
     (case jr_last_event r of
        None \<Rightarrow> LastText (if jr_membership r = ''invite'' then ''Invitation waiting'' else ''No transmissions yet'')
      | Some e \<Rightarrow>
          if event_decryption_state e = ''decrypting'' then DecryptingText
          else if event_body e \<noteq> [] then LastText (event_body e)
          else if ev_type e = ''m.room.member'' then LastText ''Room membership changed''
          else LastText ''New activity'')"

definition room_avatar_mxc_url :: "joined_room \<Rightarrow> string option" where
  "room_avatar_mxc_url r = (case jr_avatar r of Some u \<Rightarrow> Some u | None \<Rightarrow> jr_fallback_avatar r)"

record room_summary =
  rs_id :: string
  rs_name :: string
  rs_topic :: "string option"
  rs_avatar :: "string option"
  rs_membership :: string
  rs_last_message :: last_text
  rs_timestamp :: rat
  rs_unread :: nat
  rs_highlights :: nat
  rs_encrypted :: bool
  rs_favourite :: bool
  rs_muted :: bool
  rs_member_count :: nat

definition summarize_room :: "sdk_env \<Rightarrow> joined_room \<Rightarrow> room_summary" where
  "summarize_room E r =
     \<lparr>rs_id = jr_id r, rs_name = name_or (jr_name r) (jr_default_name r),
      rs_topic = given (Some (js_trim (string_of E (or_else (jr_topic r) (JStr []))))),
      rs_avatar = room_avatar_mxc_url r, rs_membership = jr_membership r, rs_last_message = last_message_text r,
      rs_timestamp = jr_timestamp r, rs_unread = jr_unread r, rs_highlights = jr_highlights r,
      rs_encrypted = jr_encrypted r, rs_favourite = truthy (jr_favourite_tag r), rs_muted = (jr_mute_actions r = Some 0),
      rs_member_count = jr_member_count r\<rparr>"

definition compare_rooms :: "room_summary \<Rightarrow> room_summary \<Rightarrow> rat" where
  "compare_rooms l r =
     (if rs_membership l \<noteq> rs_membership r then (if rs_membership l = ''invite'' then -1 else 1)
      else if rs_favourite l \<noteq> rs_favourite r then (if rs_favourite l then -1 else 1)
      else if (rs_unread l \<noteq> 0) \<noteq> (rs_unread r \<noteq> 0) then (if rs_unread l \<noteq> 0 then -1 else 1)
      else rs_timestamp r - rs_timestamp l)"

definition sort_room_summaries :: "room_summary list \<Rightarrow> room_summary list" where
  "sort_room_summaries rooms =
     (case js_sort (\<lambda>l r. Some (compare_rooms l r)) rooms of Some rs \<Rightarrow> rs | None \<Rightarrow> [])"

definition normalize_rooms :: "sdk_env \<Rightarrow> joined_room list \<Rightarrow> room_summary list" where
  "normalize_rooms E rooms =
     sort_room_summaries (map (summarize_room E) (filter (\<lambda>r. jr_membership r \<in> {''join'', ''invite''}) rooms))"

end
