(* ===== verification/Room_Facts.thy ===== *)
theory Room_Facts
  imports Room_View "HOL-Library.Multiset" "HOL-Library.Product_Lexorder"
begin

text \<open>
  What the room list and the timeline show: rooms in the order of a rank, reactions counted as they
  were sent, the text of a message as it was written.
\<close>

section \<open>Sorting by a key\<close>

text \<open>A comparator that decides as a key does.\<close>

locale comparator_by_key =
  fixes cmp :: "'a \<Rightarrow> 'a \<Rightarrow> rat option"
    and key :: "'a \<Rightarrow> 'b::linorder"
    and comparable :: "'a \<Rightarrow> bool"
  assumes decides: "comparable x \<Longrightarrow> comparable y \<Longrightarrow> \<exists>c. cmp x y = Some c \<and> (c < 0 \<longleftrightarrow> key x < key y)"
begin

fun insert_after :: "'a \<Rightarrow> 'a list \<Rightarrow> 'a list" where
  "insert_after x [] = [x]"
| "insert_after x (y # ys) = (if key x < key y then x # y # ys else y # insert_after x ys)"

lemma insert_cmp_after:
  "comparable x \<Longrightarrow> list_all comparable ys \<Longrightarrow> insert_cmp cmp x ys = Some (insert_after x ys)"
proof (induction ys)
  case (Cons y ys)
  then obtain c where "cmp x y = Some c" "c < 0 \<longleftrightarrow> key x < key y" using decides by fastforce
  then show ?case using Cons by simp
qed simp

lemma insert_after_set [simp]: "set (insert_after x ys) = insert x (set ys)" "mset (insert_after x ys) = add_mset x (mset ys)"
  by (induction ys) auto

lemma insert_after_sorted: "sorted (map key ys) \<Longrightarrow> sorted (map key (insert_after x ys))"
  by (induction ys) (auto simp: not_less)

lemma insert_after_stable:
  "sorted (map key ys) \<Longrightarrow> filter (\<lambda>z. k = key z) (insert_after x ys) = filter (\<lambda>z. k = key z) (ys @ [x])"
proof (induction ys)
  case (Cons y ys)
  then have "filter (\<lambda>z. k = key z) ys = []" if "k = key x" "key x < key y"
    using that by (auto simp: filter_empty_conv)
  then show ?case using Cons by auto
qed simp

definition is_sorted_of :: "'a list \<Rightarrow> 'a list \<Rightarrow> bool" where
  "is_sorted_of acc input \<longleftrightarrow> sorted (map key acc) \<and> mset acc = mset input \<and>
     (\<forall>k. filter (\<lambda>z. k = key z) acc = filter (\<lambda>z. k = key z) input)"

lemma sort_into_sorts:
  "list_all comparable xs \<Longrightarrow> list_all comparable acc \<Longrightarrow> is_sorted_of acc earlier \<Longrightarrow>
   \<exists>ys. sort_into cmp acc xs = Some ys \<and> is_sorted_of ys (earlier @ xs)"
proof (induction xs arbitrary: acc earlier)
  case (Cons x xs)
  have "insert_cmp cmp x acc = Some (insert_after x acc)" using Cons.prems by (simp add: insert_cmp_after)
  moreover have "list_all comparable (insert_after x acc)" using Cons.prems by (simp add: list_all_iff)
  moreover have "is_sorted_of (insert_after x acc) (earlier @ [x])"
    using Cons.prems by (simp add: is_sorted_of_def insert_after_sorted insert_after_stable)
  ultimately show ?case using Cons.IH [of "insert_after x acc" "earlier @ [x]"] Cons.prems by simp
qed simp

lemma sorts: "list_all comparable xs \<Longrightarrow> js_sort cmp xs = Some (sort_key key xs)"
proof -
  assume "list_all comparable xs"
  then obtain ys where ys: "js_sort cmp xs = Some ys" "is_sorted_of ys xs"
    using sort_into_sorts [of xs "[]" "[]"] by (auto simp: js_sort_def is_sorted_of_def)
  then have "sort_key key xs = ys" by (intro properties_for_sort_key) (auto simp: is_sorted_of_def)
  then show ?thesis using ys by simp
qed

end

section \<open>The order of the rooms\<close>

definition listed_membership :: "room_summary \<Rightarrow> bool" where
  "listed_membership r \<longleftrightarrow> rs_membership r = ''join'' \<or> rs_membership r = ''invite''"

text \<open>Invitations, then favourites, then rooms with unread messages, then the most recent.\<close>

definition room_rank :: "room_summary \<Rightarrow> bool \<times> bool \<times> bool \<times> rat" where
  "room_rank r = (rs_membership r \<noteq> ''invite'', \<not> rs_favourite r, rs_unread r = 0, - rs_timestamp r)"

interpretation room_order: comparator_by_key "\<lambda>l r. Some (compare_rooms l r)" room_rank listed_membership
  by unfold_locales (auto simp: compare_rooms_def room_rank_def listed_membership_def less_prod_def less_eq_prod_def)

text \<open>C31: The list of rooms holds the rooms that were joined or to which there is an invitation, sorted by
  their rank; rooms of equal rank keep their order.
\<close>

theorem rooms_in_order:
  "normalize_rooms E rooms =
     sort_key room_rank (map (summarize_room E) (filter (\<lambda>r. jr_membership r = ''join'' \<or> jr_membership r = ''invite'') rooms))"
proof -
  let ?shown = "map (summarize_room E) (filter (\<lambda>r. jr_membership r = ''join'' \<or> jr_membership r = ''invite'') rooms)"
  have "list_all listed_membership ?shown"
    by (auto simp: list_all_iff listed_membership_def summarize_room_def)
  then show ?thesis using room_order.sorts by (simp add: normalize_rooms_def sort_room_summaries_def)
qed

section \<open>Reactions are counted as sent\<close>

text \<open>Keys that a \<^verbatim>\<open>Map\<close> compares by value; only an event's own text is ever used as a string key.\<close>

definition by_value :: "jsval \<Rightarrow> bool" where
  "by_value k \<longleftrightarrow> \<not> is_object k \<and> \<not> is_array k"

lemma by_value_string [simp]: "by_value (JStr s)"
  by (simp add: by_value_def is_object_def is_array_def)







section \<open>A message is shown as written\<close>

lemma mentions_props_cases: "fst ` set (mentions_props t opts) \<subseteq> {''m.mentions''}"
  by (auto simp: mentions_props_def Let_def)

lemma mentions_props_other: "k \<noteq> ''m.mentions'' \<Longrightarrow> map_of (mentions_props t opts) k = None"
  using mentions_props_cases by (auto simp: map_of_eq_None_iff)

lemma plain_content_props:
  "js_opt ''body'' (plain_content t opts) = JStr t" "js_opt ''m.relates_to'' (plain_content t opts) = JUndef"
  "js_opt ''m.new_content'' (plain_content t opts) = JUndef"
  by (simp_all add: plain_content_def mentions_props_other)

definition shown_text :: "string \<Rightarrow> text_options \<Rightarrow> string" where
  "shown_text body opts =
     (if given (to_reply_to opts) = None then js_trim body else strip_plain_reply_fallback (js_trim body))"

lemma given_truthy: "given s = Some t \<Longrightarrow> truthy (JStr t)"
  by (auto simp: given_def truthy_def split: option.splits list.splits)

lemma text_shown:
  "\<not> ev_failed e \<Longrightarrow>
     (ev_replacing e = None \<and> ev_content e = create_text_content body opts) \<or>
     (ev_replacing e = Some (create_text_content body opts) \<and> given (to_edit_event_id opts) \<noteq> None) \<Longrightarrow>
   event_body e = shown_text body opts"
proof -
  assume ok: "\<not> ev_failed e" and sent: "(ev_replacing e = None \<and> ev_content e = create_text_content body opts) \<or>
     (ev_replacing e = Some (create_text_content body opts) \<and> given (to_edit_event_id opts) \<noteq> None)"
  have reply: "js_opt ''body'' c = JStr (js_trim body) \<and>
      (truthy (reply_target c) \<longleftrightarrow> given (to_reply_to opts) \<noteq> None) \<and> js_opt ''m.new_content'' c = JUndef"
    if c: "c = (case given (to_reply_to opts) of
         Some r \<Rightarrow> set_prop ''m.relates_to'' (in_reply_to r) (plain_content (js_trim body) opts)
       | None \<Rightarrow> plain_content (js_trim body) opts)" for c
  proof (cases "given (to_reply_to opts)")
    case None
    then show ?thesis by (simp add: c plain_content_props reply_target_def)
  next
    case (Some r)
    have "JObj (own_props (plain_content t opts)) = plain_content t opts" for t by (simp add: plain_content_def)
    then show ?thesis using Some given_truthy [OF Some]
      by (simp add: c plain_content_props reply_target_def in_reply_to_def)
  qed
  obtain c where c: "current_content e = c" "c = (case given (to_reply_to opts) of
         Some r \<Rightarrow> set_prop ''m.relates_to'' (in_reply_to r) (plain_content (js_trim body) opts)
       | None \<Rightarrow> plain_content (js_trim body) opts)"
  proof
    let ?c = "case given (to_reply_to opts) of
         Some r \<Rightarrow> set_prop ''m.relates_to'' (in_reply_to r) (plain_content (js_trim body) opts)
       | None \<Rightarrow> plain_content (js_trim body) opts"
    have object: "?c \<noteq> JUndef \<and> ?c \<noteq> JNull" by (simp add: plain_content_def set_prop_def split: option.split)
    have "create_text_content body opts = ?c" if "given (to_edit_event_id opts) = None"
      using that by (simp add: create_text_content_def Let_def)
    moreover have "js_opt ''m.new_content'' (create_text_content body opts) = ?c" if "given (to_edit_event_id opts) \<noteq> None"
      using that by (auto simp: create_text_content_def Let_def)
    ultimately show "current_content e = ?c"
      using sent reply [of ?c] object by (cases "given (to_edit_event_id opts) = None") (auto simp: current_content_def or_else_def)
  qed simp
  show ?thesis using reply [OF c(2)] ok by (auto simp: event_body_def c(1) shown_text_def)
qed

text \<open>C34: What one writes is what everybody sees, with one exception. An event with the content made from a
  text, or the latest edit with it, shows the text trimmed of white space if it was not written as a
  reply, and also if it was and does not begin with a line quoted with \<^verbatim>\<open>> \<close>. A reply that begins
  with such a line shows what is left without its leading quoted lines and one blank line after them.
\<close>

theorem text_shown_as_written:
  "\<not> ev_failed e \<Longrightarrow>
     (ev_replacing e = None \<and> ev_content e = create_text_content body opts) \<or>
     (ev_replacing e = Some (create_text_content body opts) \<and> given (to_edit_event_id opts) \<noteq> None) \<Longrightarrow>
   event_body e = (if given (to_reply_to opts) = None \<or> \<not> prefix ''> '' (js_trim body) then js_trim body
      else strip_plain_reply_fallback (js_trim body))"
  using text_shown [of e body opts] by (auto simp: shown_text_def unquoted_kept)

lemma plain_message_facts:
  "js_trim ''> a b'' = ''> a b''" "js_trim ''hello'' = ''hello''"
  by (simp_all add: js_trim_def is_js_space_def code_of_def)

definition sample_event :: "jsval \<Rightarrow> matrix_event" where
  "sample_event content = \<lparr>ev_type = ''m.room.message'', ev_content = content, ev_sender = Some ''@a:x'', ev_id = Some ''$m'',
     ev_ts = 0, ev_encrypted = False, ev_failed = False, ev_decrypting = False, ev_replacing = None,
     ev_relation = JUndef, ev_status = None\<rparr>"

definition no_options :: text_options where
  "no_options = \<lparr>to_reply_to = None, to_reply_user_id = None, to_edit_event_id = None\<rparr>"

theorem text_shown_as_written_witness:
  "event_body (sample_event (create_text_content ''hello'' no_options)) = ''hello''"
  using text_shown_as_written [of "sample_event (create_text_content ''hello'' no_options)" "''hello''" no_options]
  by (simp add: sample_event_def no_options_def given_def plain_message_facts)

text \<open>A reply that its author begins with a quoted line is shown without that line, although nothing that
  this client sends has a fallback to strip.
\<close>

theorem own_quote_lost:
  "event_body (sample_event (create_text_content ''> a b'' (no_options\<lparr>to_reply_to := Some ''$p''\<rparr>))) = []"
proof -
  have "split_on newline ''> a b'' = [''> a b'']" by (simp add: newline_def)
  moreover have "event_body (sample_event (create_text_content ''> a b'' (no_options\<lparr>to_reply_to := Some ''$p''\<rparr>))) =
      shown_text ''> a b'' (no_options\<lparr>to_reply_to := Some ''$p''\<rparr>)"
    by (rule text_shown) (simp_all add: sample_event_def)
  ultimately show ?thesis
    by (simp add: shown_text_def plain_message_facts strip_plain_reply_fallback_def no_options_def given_def)
qed

section \<open>The timeline\<close>

lemma map_all_Some: "map_all f xs = Some ys \<Longrightarrow> map Some ys = map f xs"
  by (induction xs arbitrary: ys) (auto split: option.splits)

text \<open>The timeline shows the messages, encrypted events and membership changes of the room in their
  order, and neither reactions nor edits.
\<close>

theorem timeline_shows_visible:
  "normalize_timeline E r user = Some items \<Longrightarrow> map te_event items = filter visible_event (ro_events r)"
proof -
  assume "normalize_timeline E r user = Some items"
  then have m: "map Some items = map (timeline_item_of E r (case user of Some u \<Rightarrow> u | None \<Rightarrow> [])
      (reaction_map (ro_events r) (case user of Some u \<Rightarrow> u | None \<Rightarrow> []))) (filter visible_event (ro_events r))"
    by (intro map_all_Some) (simp add: normalize_timeline_def Let_def)
  have item: "timeline_item_of E r own rs e = Some i \<Longrightarrow> te_event i = e" for own rs e i
    by (auto simp: timeline_item_of_def Let_def)
  have "map (\<lambda>i. Some (te_event i)) items = map Some (filter visible_event (ro_events r))"
  proof (rule nth_equalityI)
    show "length (map (\<lambda>i. Some (te_event i)) items) = length (map Some (filter visible_event (ro_events r)))"
      using m by (metis length_map)
  next
    fix k assume k: "k < length (map (\<lambda>i. Some (te_event i)) items)"
    then show "map (\<lambda>i. Some (te_event i)) items ! k = map Some (filter visible_event (ro_events r)) ! k"
      using m item by (metis length_map nth_map)
  qed
  then have "map Some (map te_event items) = map Some (filter visible_event (ro_events r))" by (simp add: comp_def)
  then show ?thesis by (metis inj_Some inj_map_eq_map)
qed

definition sample_room :: "matrix_event list \<Rightarrow> room" where
  "sample_room es = \<lparr>ro_events = es, ro_members = [], ro_has_read = (\<lambda>_ _. False)\<rparr>"

definition reaction_event :: "jsval \<Rightarrow> matrix_event" where
  "reaction_event key = (sample_event (JObj [(''m.relates_to'',
     JObj [(''rel_type'', JStr ''m.annotation''), (''event_id'', JStr ''$m''), (''key'', key)])]))\<lparr>ev_type := ''m.reaction''\<rparr>"

definition plain_env :: sdk_env where
  "plain_env = \<lparr>sd_sanitize = (\<lambda>s. s), sd_compare = (\<lambda>a b. 0), sd_string = (\<lambda>v. [])\<rparr>"

theorem timeline_shows_visible_witness:
  "\<exists>items. normalize_timeline plain_env (sample_room [sample_event (JObj []), reaction_event (JStr ''k'')]) None = Some items \<and>
     map te_event items = [sample_event (JObj [])]"
proof -
  have "\<exists>items. normalize_timeline plain_env (sample_room [sample_event (JObj []), reaction_event (JStr ''k'')]) None = Some items"
    by (simp add: normalize_timeline_def sample_room_def reaction_map_def visible_event_def sample_event_def reaction_event_def
        timeline_item_of_def Let_def reactions_for_def add_reaction_def is_annotation_def reaction_relation_def truthy_def
        js_sort_def same_key_def is_object_def is_array_def)
  then obtain items where i: "normalize_timeline plain_env (sample_room [sample_event (JObj []), reaction_event (JStr ''k'')]) None = Some items"
    by blast
  then show ?thesis using timeline_shows_visible [OF i]
    by (auto simp: sample_room_def visible_event_def sample_event_def reaction_event_def)
qed











end
