(* ===== verification/Device_Unlock.thy ===== *)
theory Device_Unlock
  imports Vault_Crypto Vault_Records
begin

text \<open>
  lib/security/webauthn-prf.ts: enrolling an authenticator and evaluating its pseudo-random function.
  The port to the browser is a parameter: the two ceremonies as functions of their options, the random
  bytes by purpose. What a ceremony returns is taken apart only as far as the code looks at it.
\<close>

section \<open>Errors and the port\<close>

datatype prf_error_code = PrfCancelled | CeremonyFailed | InsecureContext | PrfInvalidInput | InvalidResponse | PrfUnavailable

datatype prf_error = PrfError prf_error_code string

text \<open>What a ceremony may throw: an error of this module, or another one with its name.\<close>

datatype prf_exception = OwnError prf_error | NamedError string

record extension_results =
  xr_enabled :: bool
  xr_first :: "bytes option option"

text \<open>
  The credential: whether it is a public-key credential, its raw id and results where they are binary
  data and can be read, and the transports it reports, if it does.
\<close>

record prf_credential =
  pc_public_key :: bool
  pc_raw_id :: "bytes option"
  pc_results :: "extension_results option"
  pc_transports :: "string list option"

record prf_creation =
  cn_challenge :: bytes
  cn_rp_id :: string
  cn_rp_name :: string
  cn_user_id :: bytes
  cn_user_name :: string
  cn_display_name :: string
  cn_prf_input :: bytes
  cn_algorithms :: "int list"
  cn_attestation :: string
  cn_resident_key :: string
  cn_user_verification :: string

record prf_request =
  rq_credential_id :: bytes
  rq_transports :: "string list"
  rq_challenge :: bytes
  rq_prf_input :: bytes
  rq_rp_id :: string
  rq_user_verification :: string

text \<open>\<open>pp_capabilities\<close> is \<open>None\<close> without the method; the inner option is a call that rejects.\<close>

record prf_port =
  pp_hostname :: string
  pp_secure :: bool
  pp_available :: bool
  pp_create :: "prf_creation \<Rightarrow> prf_exception + prf_credential"
  pp_get :: "prf_request \<Rightarrow> prf_exception + prf_credential"
  pp_capabilities :: "(string \<Rightarrow> bool option) option option"
  pp_random :: "string \<Rightarrow> nat \<Rightarrow> bytes option"

definition challenge_bytes :: nat where "challenge_bytes = 32"
definition user_handle_bytes :: nat where "user_handle_bytes = 32"
definition prf_input_bytes :: nat where "prf_input_bytes = 32"
definition prf_output_bytes :: nat where "prf_output_bytes = 32"
definition max_credential_id_bytes :: nat where "max_credential_id_bytes = 1024"
definition max_rp_id_characters :: nat where "max_rp_id_characters = 253"

definition vault_user_name :: string where "vault_user_name = ''local-vault''"
definition vault_display_name :: string where "vault_display_name = ''Sub-Etha local vault''"
definition vault_rp_name :: string where "vault_rp_name = ''Sub-Etha local vault''"

definition prf_fail :: "prf_error_code \<Rightarrow> string \<Rightarrow> prf_error + 'a" where
  "prf_fail c m = Inl (PrfError c m)"

section \<open>Checks\<close>

definition decode_slot_field :: "jsval \<Rightarrow> string \<Rightarrow> nat \<Rightarrow> nat \<Rightarrow> prf_error + bytes" where
  "decode_slot_field v field minimum maximum =
     (case v of
        JStr value \<Rightarrow>
          if length value < (minimum * 4 + 2) div 3 \<or> length value > (maximum * 4 + 2) div 3
             \<or> length value mod 4 = 1 \<or> value = [] \<or> \<not> list_all is_token_char value
          then prf_fail PrfInvalidInput (field @ '' must be canonical unpadded base64url.'')
          else (case atob (padded value) of
            None \<Rightarrow> prf_fail PrfInvalidInput (field @ '' must be valid base64url.'')
          | Some bytes \<Rightarrow>
              if length bytes < minimum \<or> length bytes > maximum \<or> encode_base64url bytes \<noteq> value
              then prf_fail PrfInvalidInput (field @ '' has an invalid encoding or length.'')
              else Inr bytes)
      | _ \<Rightarrow> prf_fail PrfInvalidInput (field @ '' must be canonical unpadded base64url.''))"

definition validated_random_bytes :: "prf_port \<Rightarrow> nat \<Rightarrow> string \<Rightarrow> prf_error + bytes" where
  "validated_random_bytes port n purpose =
     (case pp_random port purpose n of
        None \<Rightarrow> prf_fail CeremonyFailed (''Secure randomness for '' @ purpose @ '' was unavailable.'')
      | Some bytes \<Rightarrow>
          if length bytes \<noteq> n then prf_fail CeremonyFailed (''Secure randomness for '' @ purpose @ '' was unavailable.'')
          else Inr bytes)"

definition forbidden_host_char :: "char \<Rightarrow> bool" where
  "forbidden_host_char c \<longleftrightarrow> code_of c \<le> 0x20 \<or> code_of c = 0x7f \<or> c = CHR ''/'' \<or> c = CHR 0x5C"

definition require_ceremony_port :: "prf_port \<Rightarrow> prf_error + string" where
  "require_ceremony_port port =
     (if \<not> pp_secure port then prf_fail InsecureContext ''A secure context is required for device unlock.''
      else if \<not> pp_available port then prf_fail PrfUnavailable ''WebAuthn is unavailable in this browser.''
      else if pp_hostname port = [] \<or> length (pp_hostname port) > max_rp_id_characters
           \<or> list_ex forbidden_host_char (pp_hostname port)
      then prf_fail PrfUnavailable ''The current WebAuthn RP ID is invalid.''
      else Inr (pp_hostname port))"

fun collect_transports :: "string list \<Rightarrow> jsval list \<Rightarrow> prf_error + string list" where
  "collect_transports found [] = Inr found"
| "collect_transports found (v # vs) =
     (case v of
        JStr t \<Rightarrow>
          if t \<notin> set authenticator_transports \<or> t \<in> set found
          then prf_fail PrfInvalidInput ''Authenticator transports are invalid.''
          else collect_transports (found @ [t]) vs
      | _ \<Rightarrow> prf_fail PrfInvalidInput ''Authenticator transports are invalid.'')"

definition slot_transports :: "jsval \<Rightarrow> prf_error + string list" where
  "slot_transports v =
     (if \<not> is_array v \<or> length (array_items v) > length authenticator_transports
      then prf_fail PrfInvalidInput ''Authenticator transports are invalid.''
      else collect_transports [] (array_items v))"

text \<open>The transports a credential reports: known ones, each where it first occurs.\<close>

definition transports_from_credential :: "prf_credential \<Rightarrow> string list" where
  "transports_from_credential c =
     (case pc_transports c of None \<Rightarrow> [] | Some ts \<Rightarrow> filter (\<lambda>t. t \<in> set authenticator_transports) (js_unique ts))"

definition validate_slot :: "jsval \<Rightarrow> string \<Rightarrow> prf_error + bytes \<times> bytes \<times> string list" where
  "validate_slot slot rp_id =
     (if \<not> (is_object slot \<or> is_array slot) then prf_fail PrfInvalidInput ''The WebAuthn PRF slot is invalid.''
      else if js_opt ''rpId'' slot \<noteq> JStr rp_id
      then prf_fail PrfInvalidInput ''The WebAuthn PRF slot belongs to a different RP ID.''
      else sum_bind (decode_slot_field (js_opt ''credentialId'' slot) ''credentialId'' 1 max_credential_id_bytes) (\<lambda>cid.
        sum_bind (decode_slot_field (js_opt ''prfInput'' slot) ''prfInput'' prf_input_bytes prf_input_bytes) (\<lambda>input.
        sum_bind (slot_transports (js_opt ''transports'' slot)) (\<lambda>ts. Inr (cid, input, ts)))))"

definition credential_details :: "prf_credential \<Rightarrow> prf_error + bytes" where
  "credential_details c =
     (if \<not> pc_public_key c then prf_fail InvalidResponse ''The browser did not return a public-key credential.''
      else case pc_raw_id c of
        None \<Rightarrow> prf_fail InvalidResponse ''The browser returned an invalid credential ID.''
      | Some i \<Rightarrow>
          if length i < 1 \<or> length i > max_credential_id_bytes
          then prf_fail InvalidResponse ''The browser returned an invalid credential ID.''
          else Inr i)"

definition read_extension_results :: "prf_credential \<Rightarrow> prf_error + extension_results" where
  "read_extension_results c =
     (case pc_results c of
        None \<Rightarrow> prf_fail InvalidResponse ''The browser did not return WebAuthn extension results.''
      | Some r \<Rightarrow> Inr r)"

definition prf_result :: "extension_results \<Rightarrow> bool \<Rightarrow> prf_error + bytes option" where
  "prf_result r required =
     (case xr_first r of
        None \<Rightarrow> if required then prf_fail InvalidResponse ''The authenticator did not return a PRF result.'' else Inr None
      | Some None \<Rightarrow> prf_fail InvalidResponse ''PRF result was not binary data.''
      | Some (Some result) \<Rightarrow>
          if length result \<noteq> prf_output_bytes
          then prf_fail InvalidResponse ''The authenticator returned an invalid PRF result.''
          else Inr (Some result))"

text \<open>The comparison visits every byte, whatever they are.\<close>

fun byte_difference :: "8 word \<Rightarrow> (8 word \<times> 8 word) list \<Rightarrow> 8 word" where
  "byte_difference d [] = d"
| "byte_difference d ((a, b) # ps) = byte_difference (or d (xor a b)) ps"

definition equal_bytes :: "bytes \<Rightarrow> bytes \<Rightarrow> bool" where
  "equal_bytes l r \<longleftrightarrow> length l = length r \<and> byte_difference 0 (zip l r) = 0"

definition ceremony_error :: "prf_exception \<Rightarrow> prf_error" where
  "ceremony_error e =
     (case e of
        OwnError p \<Rightarrow> p
      | NamedError name \<Rightarrow>
          if name = ''NotAllowedError'' \<or> name = ''AbortError''
          then PrfError PrfCancelled ''Device unlock was cancelled.''
          else if name = ''NotSupportedError'' \<or> name = ''SecurityError''
          then PrfError PrfUnavailable ''The authenticator cannot provide WebAuthn PRF unlock.''
          else PrfError CeremonyFailed ''The WebAuthn ceremony failed.'')"

definition ceremony :: "prf_exception + 'a \<Rightarrow> prf_error + 'a" where
  "ceremony r = (case r of Inl e \<Rightarrow> Inl (ceremony_error e) | Inr x \<Rightarrow> Inr x)"

section \<open>The adapter\<close>

definition get_credential :: "prf_port \<Rightarrow> jsval \<Rightarrow> prf_error + bytes" where
  "get_credential port slot =
     sum_bind (require_ceremony_port port) (\<lambda>rp_id.
     sum_bind (validate_slot slot rp_id) (\<lambda>(cid, input, ts).
     sum_bind (validated_random_bytes port challenge_bytes ''the WebAuthn challenge'') (\<lambda>challenge.
     sum_bind (ceremony (pp_get port \<lparr>rq_credential_id = cid, rq_transports = ts, rq_challenge = challenge,
        rq_prf_input = input, rq_rp_id = rp_id, rq_user_verification = ''required''\<rparr>)) (\<lambda>credential.
     sum_bind (credential_details credential) (\<lambda>returned.
     if \<not> equal_bytes returned cid
     then prf_fail InvalidResponse ''The authenticator returned a different credential.''
     else sum_bind (read_extension_results credential) (\<lambda>results.
       sum_bind (prf_result results True) (\<lambda>out. Inr (the out))))))))"

datatype support_hint = Likely | Unknown | NotSupported

definition support_hint_of :: "prf_port \<Rightarrow> support_hint" where
  "support_hint_of port =
     (if \<not> pp_secure port \<or> \<not> pp_available port then NotSupported
      else case pp_capabilities port of
        None \<Rightarrow> Unknown
      | Some None \<Rightarrow> Unknown
      | Some (Some caps) \<Rightarrow>
          (case caps ''extension:prf'' of
             None \<Rightarrow> Unknown
           | Some b \<Rightarrow> if b then Likely else NotSupported))"

datatype enrollment =
    Ready ready_enrollment
  | Pending prf_slot_input

definition begin_enrollment :: "prf_port \<Rightarrow> prf_error + enrollment" where
  "begin_enrollment port =
     sum_bind (require_ceremony_port port) (\<lambda>rp_id.
     sum_bind (validated_random_bytes port challenge_bytes ''the WebAuthn challenge'') (\<lambda>challenge.
     sum_bind (validated_random_bytes port user_handle_bytes ''the WebAuthn user handle'') (\<lambda>user_id.
     sum_bind (validated_random_bytes port prf_input_bytes ''the PRF input'') (\<lambda>input.
     sum_bind (ceremony (pp_create port \<lparr>cn_challenge = challenge, cn_rp_id = rp_id, cn_rp_name = vault_rp_name,
        cn_user_id = user_id, cn_user_name = vault_user_name, cn_display_name = vault_display_name, cn_prf_input = input,
        cn_algorithms = [-7, -257], cn_attestation = ''none'', cn_resident_key = ''preferred'',
        cn_user_verification = ''required''\<rparr>)) (\<lambda>credential.
     sum_bind (credential_details credential) (\<lambda>cid.
     sum_bind (read_extension_results credential) (\<lambda>results.
     sum_bind (prf_result results False) (\<lambda>result.
     case result of
       Some out \<Rightarrow> Inr (Ready \<lparr>prf_credential_id = encode_base64url cid, prf_transports = transports_from_credential credential,
          prf_rp_id = rp_id, prf_input = encode_base64url input, enrolled_prf_output = out\<rparr>)
     | None \<Rightarrow>
         if xr_enabled results
         then Inr (Pending \<lparr>prf_credential_id = encode_base64url cid, prf_transports = transports_from_credential credential,
            prf_rp_id = rp_id, prf_input = encode_base64url input\<rparr>)
         else prf_fail PrfUnavailable ''The authenticator did not enable the WebAuthn PRF extension.''))))))))"

text \<open>The slot as the object it is, and the enrollment completed with it.\<close>

definition slot_value :: "'a prf_slot_input_scheme \<Rightarrow> jsval" where
  "slot_value s = JObj [(''credentialId'', JStr (prf_credential_id s)), (''prfInput'', JStr (prf_input s)),
     (''rpId'', JStr (prf_rp_id s)), (''transports'', js_array (map JStr (prf_transports s)))]"

definition complete_enrollment :: "prf_port \<Rightarrow> enrollment \<Rightarrow> prf_error + ready_enrollment" where
  "complete_enrollment port pending =
     (case pending of
        Ready r \<Rightarrow> prf_fail PrfInvalidInput ''A pending WebAuthn PRF enrollment is required.''
      | Pending s \<Rightarrow>
          sum_bind (get_credential port (slot_value s)) (\<lambda>out.
          Inr \<lparr>prf_credential_id = prf_credential_id s, prf_transports = prf_transports s, prf_rp_id = prf_rp_id s,
               prf_input = prf_input s, enrolled_prf_output = out\<rparr>))"

definition evaluate_prf :: "prf_port \<Rightarrow> jsval \<Rightarrow> prf_error + bytes" where
  "evaluate_prf port slot = get_credential port slot"

section \<open>Comparing bytes\<close>

lemma xor_zero: "xor a b = (0::8 word) \<longleftrightarrow> a = b"
  by (metis xor.assoc xor_self_eq xor.right_neutral xor.left_neutral)

lemma byte_difference_zero: "byte_difference d ps = 0 \<longleftrightarrow> d = 0 \<and> (\<forall>(a, b) \<in> set ps. a = b)"
  by (induction d ps rule: byte_difference.induct) (auto simp: xor_zero or_eq_0_iff)

text \<open>The comparison without early exit is equality.\<close>

lemma equal_bytes_iff: "equal_bytes l r \<longleftrightarrow> l = r"
  by (simp add: equal_bytes_def byte_difference_zero list_eq_iff_zip_eq)

section \<open>What a device is asked and answers\<close>

lemma prf_fail_Inr [simp]: "prf_fail c m \<noteq> Inr x"
  by (simp add: prf_fail_def)

lemma ceremony_Inr [simp]: "ceremony r = Inr x \<longleftrightarrow> r = Inr x"
  by (simp add: ceremony_def split: sum.split)

lemma prf_required: "prf_result r True = Inr x \<Longrightarrow> \<exists>out. x = Some out"
  by (auto simp: prf_result_def split: option.splits if_splits)

lemma ceremony_host: "require_ceremony_port port = Inr h \<Longrightarrow> h = pp_hostname port \<and> pp_secure port"
  by (auto simp: require_ceremony_port_def split: if_splits)

lemma decode_slot_field_sound: "decode_slot_field v f lo hi = Inr bs \<Longrightarrow> v = JStr (encode_base64url bs) \<and> lo \<le> length bs \<and> length bs \<le> hi"
  by (auto simp: decode_slot_field_def split: jsval.splits if_splits option.splits)

lemma decode_slot_field_complete:
  assumes "lo \<le> length bs" "length bs \<le> hi" "bs \<noteq> []"
  shows "decode_slot_field (JStr (encode_base64url bs)) f lo hi = Inr bs"
proof -
  have "(lo * 4 + 2) div 3 \<le> (length bs * 4 + 2) div 3" "(length bs * 4 + 2) div 3 \<le> (hi * 4 + 2) div 3"
    using assms(1,2) by (auto intro!: div_le_mono)
  moreover have "encode_base64url bs \<noteq> []" using assms(3) length_encode(1) [of bs] by (cases bs) auto
  ultimately show ?thesis
    using assms length_encode [of bs] encode_token [of bs] atob_encode [of bs] by (simp add: decode_slot_field_def)
qed

text \<open>C32: A device unlock gives an out only in a secure context, for a slot of this host, from the very
  credential of the slot, asked with its input and verifying the user; the out has 32 bytes.
\<close>

theorem unlock_uses_own_credential:
  "evaluate_prf port slot = Inr out \<Longrightarrow>
   \<exists>request credential. pp_get port request = Inr credential \<and> pp_secure port \<and>
     js_opt ''rpId'' slot = JStr (pp_hostname port) \<and> rq_rp_id request = pp_hostname port \<and>
     js_opt ''credentialId'' slot = JStr (encode_base64url (rq_credential_id request)) \<and>
     js_opt ''prfInput'' slot = JStr (encode_base64url (rq_prf_input request)) \<and>
     length (rq_challenge request) = 32 \<and> rq_user_verification request = ''required'' \<and>
     pc_public_key credential \<and> pc_raw_id credential = Some (rq_credential_id request) \<and>
     (\<exists>r. pc_results credential = Some r \<and> xr_first r = Some (Some out)) \<and> length out = 32"
proof -
  assume a: "evaluate_prf port slot = Inr out"
  then obtain host where h0: "require_ceremony_port port = Inr host" by (auto simp: evaluate_prf_def get_credential_def sum_bind_Inr_iff)
  then have host: "host = pp_hostname port" "pp_secure port" using ceremony_host by blast+
  obtain cid input ts where v: "validate_slot slot (pp_hostname port) = Inr (cid, input, ts)"
    using a h0 host by (auto simp: evaluate_prf_def get_credential_def sum_bind_Inr_iff)
  obtain challenge where ch: "validated_random_bytes port challenge_bytes ''the WebAuthn challenge'' = Inr challenge"
    using a h0 host v by (auto simp: evaluate_prf_def get_credential_def sum_bind_Inr_iff)
  obtain credential where g: "pp_get port \<lparr>rq_credential_id = cid, rq_transports = ts, rq_challenge = challenge,
        rq_prf_input = input, rq_rp_id = pp_hostname port, rq_user_verification = ''required''\<rparr> = Inr credential"
    using a h0 host v ch by (auto simp: evaluate_prf_def get_credential_def sum_bind_Inr_iff)
  obtain results where r: "credential_details credential = Inr cid" "read_extension_results credential = Inr results"
      "prf_result results True = Inr (Some out)"
    using a h0 host v ch g prf_required
    by (fastforce simp: evaluate_prf_def get_credential_def sum_bind_Inr_iff ceremony_def equal_bytes_iff split: if_splits)
  note h = h0 [unfolded host] v ch g r
  have slot: "js_opt ''rpId'' slot = JStr (pp_hostname port)" "js_opt ''credentialId'' slot = JStr (encode_base64url cid)"
      "js_opt ''prfInput'' slot = JStr (encode_base64url input)"
    using h(2) by (auto simp: validate_slot_def sum_bind_Inr_iff dest!: decode_slot_field_sound split: if_splits)
  have "length challenge = 32"
    using h(3) by (auto simp: validated_random_bytes_def challenge_bytes_def split: option.splits if_splits)
  moreover have "pc_public_key credential \<and> pc_raw_id credential = Some cid"
    using h(5) by (auto simp: credential_details_def split: if_splits option.splits)
  moreover have "pc_results credential = Some results" using h(6) by (auto simp: read_extension_results_def split: option.splits)
  moreover have "xr_first results = Some (Some out)" "length out = 32"
    using h(7) by (auto simp: prf_result_def prf_output_bytes_def split: option.splits if_splits)
  ultimately show ?thesis using h(4) slot host(2) by fastforce
qed

section \<open>What is enrolled can be used\<close>

definition enrolled_slot :: "enrollment \<Rightarrow> prf_slot_input" where
  "enrolled_slot e = (case e of Ready r \<Rightarrow> prf_slot_input.truncate r | Pending s \<Rightarrow> s)"

lemma collect_complete:
  "distinct (found @ ts) \<Longrightarrow> set ts \<subseteq> set authenticator_transports \<Longrightarrow> collect_transports found (map JStr ts) = Inr (found @ ts)"
  by (induction ts arbitrary: found) auto

lemma reported_transports:
  "distinct (transports_from_credential c) \<and> set (transports_from_credential c) \<subseteq> set authenticator_transports"
  by (auto simp: transports_from_credential_def split: option.splits)

lemma few_transports: "distinct ts \<Longrightarrow> set ts \<subseteq> set authenticator_transports \<Longrightarrow> length ts \<le> length authenticator_transports"
  by (metis card_mono distinct_card List.finite_set length_remdups_leq card_length order_trans)

text \<open>The slot of an enrollment, complete or pending, passes the checks of every later unlock on the
  same host and stands for the credential that was created and the input that was drawn.
\<close>

theorem enrolled_slot_accepted:
  "begin_enrollment port = Inr e \<Longrightarrow>
   \<exists>cid input ts. validate_slot (slot_value (enrolled_slot e)) (pp_hostname port) = Inr (cid, input, ts) \<and>
     pp_random port ''the PRF input'' 32 = Some input \<and>
     (\<exists>options c. pp_create port options = Inr c \<and> pc_raw_id c = Some cid \<and> cn_prf_input options = input \<and>
        cn_rp_id options = pp_hostname port \<and> ts = transports_from_credential c)"
proof -
  assume a: "begin_enrollment port = Inr e"
  obtain challenge user_id input credential cid results out where
    h: "validated_random_bytes port prf_input_bytes ''the PRF input'' = Inr input"
      "pp_create port \<lparr>cn_challenge = challenge, cn_rp_id = pp_hostname port, cn_rp_name = vault_rp_name,
        cn_user_id = user_id, cn_user_name = vault_user_name, cn_display_name = vault_display_name, cn_prf_input = input,
        cn_algorithms = [-7, -257], cn_attestation = ''none'', cn_resident_key = ''preferred'',
        cn_user_verification = ''required''\<rparr> = Inr credential"
      "credential_details credential = Inr cid"
    and e: "enrolled_slot e = \<lparr>prf_credential_id = encode_base64url cid, prf_transports = transports_from_credential credential,
            prf_rp_id = pp_hostname port, prf_input = encode_base64url input\<rparr>"
    using a
    by (auto simp: begin_enrollment_def sum_bind_Inr_iff enrolled_slot_def prf_slot_input.truncate_def
        dest!: ceremony_host split: if_splits option.splits)
  have input: "pp_random port ''the PRF input'' 32 = Some input" "length input = 32"
    using h(1) by (auto simp: validated_random_bytes_def prf_input_bytes_def split: option.splits if_splits)
  have cid: "pc_raw_id credential = Some cid" "1 \<le> length cid" "length cid \<le> max_credential_id_bytes"
    using h(3) by (auto simp: credential_details_def Suc_le_eq split: if_splits option.splits)
  have "decode_slot_field (JStr (encode_base64url cid)) f 1 max_credential_id_bytes = Inr cid" for f
    using cid by (intro decode_slot_field_complete) auto
  moreover have "decode_slot_field (JStr (encode_base64url input)) f prf_input_bytes prf_input_bytes = Inr input" for f
    using input(2) by (intro decode_slot_field_complete) (auto simp: prf_input_bytes_def)
  moreover have "slot_transports (js_array (map JStr (transports_from_credential credential))) = Inr (transports_from_credential credential)"
    using collect_complete [of "[]" "transports_from_credential credential"] reported_transports [of credential]
      few_transports [of "transports_from_credential credential"] by (simp add: slot_transports_def)
  ultimately have "validate_slot (slot_value (enrolled_slot e)) (pp_hostname port) = Inr (cid, input, transports_from_credential credential)"
    by (simp add: validate_slot_def e slot_value_def is_object_def)
  then show ?thesis using input(1) h(2) cid(1) by fastforce
qed

section \<open>A concrete device\<close>

definition sample_credential :: prf_credential where
  "sample_credential = \<lparr>pc_public_key = True, pc_raw_id = Some [7], pc_results = Some \<lparr>xr_enabled = True, xr_first = Some (Some (replicate 32 9))\<rparr>,
     pc_transports = Some [''usb'', ''usb'']\<rparr>"

definition sample_port :: prf_port where
  "sample_port = \<lparr>pp_hostname = ''subetha.example'', pp_secure = True, pp_available = True, pp_create = (\<lambda>_. Inr sample_credential),
     pp_get = (\<lambda>_. Inr sample_credential), pp_capabilities = None, pp_random = (\<lambda>_ n. Some (replicate n 1))\<rparr>"

lemma sample_port_ready: "require_ceremony_port sample_port = Inr ''subetha.example''"
  by (simp add: require_ceremony_port_def sample_port_def max_rp_id_characters_def forbidden_host_char_def code_of_def)

lemma sample_enrolled: "\<exists>r. begin_enrollment sample_port = Inr (Ready r)"
  by (simp add: begin_enrollment_def sample_port_ready)
     (simp add: sample_port_def sample_credential_def validated_random_bytes_def ceremony_def credential_details_def
       max_credential_id_bytes_def read_extension_results_def prf_result_def prf_output_bytes_def)

theorem enrolled_slot_accepted_witness:
  "\<exists>e x. begin_enrollment sample_port = Inr e \<and> validate_slot (slot_value (enrolled_slot e)) ''subetha.example'' = Inr x"
proof -
  obtain r where r: "begin_enrollment sample_port = Inr (Ready r)" using sample_enrolled by blast
  then show ?thesis using enrolled_slot_accepted [OF r] by (auto simp: sample_port_def)
qed

definition sample_slot :: jsval where
  "sample_slot = JObj [(''credentialId'', JStr (encode_base64url [7])), (''prfInput'', JStr (encode_base64url (replicate 32 1))),
     (''rpId'', JStr ''subetha.example''), (''transports'', js_array [])]"

theorem unlock_uses_own_credential_witness:
  "\<exists>out. evaluate_prf sample_port sample_slot = Inr out \<and> length out = 32"
proof -
  have "decode_slot_field (JStr (encode_base64url [7])) f 1 max_credential_id_bytes = Inr [7]" for f
    by (rule decode_slot_field_complete) (simp_all add: max_credential_id_bytes_def)
  moreover have "decode_slot_field (JStr (encode_base64url (replicate 32 1))) f prf_input_bytes prf_input_bytes = Inr (replicate 32 1)" for f
    by (rule decode_slot_field_complete) (simp_all add: prf_input_bytes_def numeral_eq_Suc)
  ultimately have v: "validate_slot sample_slot ''subetha.example'' = Inr ([7], replicate 32 1, [])"
    by (simp add: validate_slot_def sample_slot_def is_object_def slot_transports_def)
  have "\<exists>out. evaluate_prf sample_port sample_slot = Inr out"
    by (simp add: evaluate_prf_def get_credential_def sample_port_ready v)
       (simp add: sample_port_def sample_credential_def validated_random_bytes_def ceremony_def credential_details_def
         max_credential_id_bytes_def read_extension_results_def prf_result_def prf_output_bytes_def equal_bytes_iff)
  then show ?thesis using unlock_uses_own_credential [of sample_port sample_slot] by blast
qed

end
