(* ===== verification/Document_Headers.thy ===== *)
theory Document_Headers
  imports JsValue Url_Policy Base64
begin

text \<open>
  lib/security/csp.ts and proxy.ts: which requests are for documents, and the security headers of
  their responses. Headers are maps from lower-case names; the parsed address of the request, its query
  parameters and \<^verbatim>\<open>decodeURIComponent\<close> (whose result may hold code units above 255) are given.
\<close>

section \<open>Constants\<close>

definition join_with :: "string \<Rightarrow> string list \<Rightarrow> string" where
  "join_with sep xs = (case xs of [] \<Rightarrow> [] | y # ys \<Rightarrow> y @ concat (map (\<lambda>s. sep @ s) ys))"

definition permissions_policy :: string where
  "permissions_policy = join_with '', ''
     [''accelerometer=()'', ''autoplay=()'', ''camera=()'', ''display-capture=()'', ''encrypted-media=()'', ''geolocation=()'',
      ''gyroscope=()'', ''magnetometer=()'', ''microphone=()'', ''payment=()'', ''screen-wake-lock=()'', ''usb=()'',
      ''clipboard-write=(self)'', ''publickey-credentials-create=(self)'', ''publickey-credentials-get=(self)'']"

type_synonym headers = "string \<Rightarrow> string option"

definition csp_header :: string where "csp_header = ''content-security-policy''"
definition csp_report_header :: string where "csp_report_header = ''content-security-policy-report-only''"

definition document_security_headers :: headers where
  "document_security_headers = [''referrer-policy'' \<mapsto> ''no-referrer'', ''x-content-type-options'' \<mapsto> ''nosniff'',
     ''x-frame-options'' \<mapsto> ''DENY'', ''x-xss-protection'' \<mapsto> ''0'', ''cross-origin-opener-policy'' \<mapsto> ''same-origin'',
     ''permissions-policy'' \<mapsto> permissions_policy]"

definition excluded_path_prefixes :: "string list" where
  "excluded_path_prefixes = [''/_next'', ''/api'', ''/_matrix'', ''/fonts'', ''/images'', ''/static'']"

definition excluded_document_headers :: "string list" where
  "excluded_document_headers = [''next-router-prefetch'', ''next-router-segment-prefetch'', ''next-router-state-tree'', ''rsc'',
     ''x-middleware-prefetch'', ''x-nextjs-data'']"

definition static_file_extensions :: "string list" where
  "static_file_extensions = [''avif'', ''bmp'', ''css'', ''eot'', ''gif'', ''ico'', ''jpeg'', ''jpg'', ''js'', ''json'', ''map'', ''mjs'',
     ''mp3'', ''mp4'', ''ogg'', ''otf'', ''png'', ''svg'', ''ttf'', ''txt'', ''wasm'', ''wav'', ''webm'', ''webmanifest'', ''woff2'', ''woff'',
     ''xml'']"

section \<open>Requests\<close>

record document_request =
  dr_headers :: headers
  dr_method :: string
  dr_url :: url
  dr_query :: "(string \<times> string) list"

definition is_dev_loopback_hostname :: "string \<Rightarrow> bool" where
  "is_dev_loopback_hostname h \<longleftrightarrow> h \<in> {''localhost'', ''127.0.0.1'', ''[::1]''}"

definition is_local_development_request :: "document_request \<Rightarrow> string option \<Rightarrow> bool" where
  "is_local_development_request r environment \<longleftrightarrow>
     environment = Some ''development'' \<and> is_dev_loopback_hostname (url_hostname (dr_url r))"

definition is_local_development_preview :: "document_request \<Rightarrow> string option \<Rightarrow> bool" where
  "is_local_development_preview r environment \<longleftrightarrow>
     is_local_development_request r environment \<and> ''design-preview'' \<in> fst ` set (dr_query r)"

definition has_path_prefix :: "string \<Rightarrow> string \<Rightarrow> bool" where
  "has_path_prefix pathname p \<longleftrightarrow> pathname = p \<or> prefix (p @ ''/'') pathname"

definition pathname_candidates :: "(string \<Rightarrow> string option) \<Rightarrow> document_request \<Rightarrow> string list" where
  "pathname_candidates decode r =
     (let pathname = to_lower (url_pathname (dr_url r)) in
      case decode pathname of
        None \<Rightarrow> [pathname]
      | Some decoded \<Rightarrow> if decoded = pathname then [pathname] else [pathname, decoded])"

text \<open>\<^verbatim>\<open>(?:[-.].*)?$\<close>, where a dot of the pattern matches no line terminator\<close>

definition icon_rest :: "string \<Rightarrow> bool" where
  "icon_rest s \<longleftrightarrow>
     (case s of [] \<Rightarrow> True
      | c # r \<Rightarrow> (c = CHR ''-'' \<or> c = CHR ''.'') \<and> list_all (\<lambda>x. x \<noteq> CHR 0x0A \<and> x \<noteq> CHR 0x0D) r)"

definition starts_icon :: "string \<Rightarrow> string \<Rightarrow> bool" where
  "starts_icon name leaf \<longleftrightarrow> prefix name leaf \<and> icon_rest (drop (length name) leaf)"

definition is_static_file :: "string \<Rightarrow> bool" where
  "is_static_file pathname \<longleftrightarrow> list_ex (\<lambda>e. suffix (CHR ''.'' # e) (to_lower pathname)) static_file_extensions"

definition path_leaf :: "string \<Rightarrow> string" where
  "path_leaf pathname = rev (takeWhile (\<lambda>c. c \<noteq> CHR ''/'') (rev pathname))"

definition is_excluded_path :: "string \<Rightarrow> bool" where
  "is_excluded_path pathname \<longleftrightarrow>
     list_ex (has_path_prefix pathname) excluded_path_prefixes \<or> is_static_file pathname \<or>
     list_ex (\<lambda>n. starts_icon n (path_leaf pathname)) [''icon'', ''apple-icon'', ''touch-icon'', ''apple-touch-icon'', ''favicon''] \<or>
     path_leaf pathname \<in> {''manifest'', ''manifest.json'', ''manifest.webmanifest'', ''site.manifest'', ''site.manifest.json'',
       ''site.manifest.webmanifest'', ''service-worker'', ''service-worker.js'', ''service-worker.mjs'', ''sw'', ''sw.js'', ''sw.mjs''}"

text \<open>\<^verbatim>\<open>/(?:^|[\s;,])prefetch(?:$|[\s;,])/i\<close>; \<open>start\<close> tells that the position may begin the word.\<close>

definition word_end :: "char \<Rightarrow> bool" where
  "word_end c \<longleftrightarrow> is_js_space c \<or> c = CHR '';'' \<or> c = CHR '',''"

fun prefetch_from :: "bool \<Rightarrow> string \<Rightarrow> bool" where
  "prefetch_from start [] = False"
| "prefetch_from start (c # s) =
     ((start \<and> prefix ''prefetch'' (to_lower (c # s)) \<and>
        (case drop 8 (c # s) of [] \<Rightarrow> True | d # _ \<Rightarrow> word_end d))
      \<or> prefetch_from (word_end c) s)"

definition requests_prefetch :: "headers \<Rightarrow> bool" where
  "requests_prefetch h \<longleftrightarrow>
     list_ex (\<lambda>n. h n \<noteq> None) excluded_document_headers \<or>
     list_ex (\<lambda>n. case h n of None \<Rightarrow> False | Some v \<Rightarrow> prefetch_from True v) [''purpose'', ''sec-purpose'']"

definition positive_quality :: "string \<Rightarrow> bool" where
  "positive_quality s \<longleftrightarrow> (case js_number s of Fin q \<Rightarrow> 0 < q | _ \<Rightarrow> False)"

definition component_range :: "string \<Rightarrow> bool" where
  "component_range r \<longleftrightarrow>
     (case map js_trim (split_on (CHR '';'') r) of
        [] \<Rightarrow> False
      | media_type # parameters \<Rightarrow>
          to_lower media_type = ''text/x-component'' \<and>
          (case find (\<lambda>p. prefix ''q='' (to_lower p)) parameters of
             None \<Rightarrow> True
           | Some p \<Rightarrow> positive_quality (drop 2 p)))"

definition accepts_react_server_components :: "headers \<Rightarrow> bool" where
  "accepts_react_server_components h \<longleftrightarrow>
     (case h ''accept'' of
        Some (c # cs) \<Rightarrow> list_ex component_range (split_on (CHR '','') (c # cs))
      | _ \<Rightarrow> False)"

definition is_document_request :: "(string \<Rightarrow> string option) \<Rightarrow> document_request \<Rightarrow> bool" where
  "is_document_request decode r \<longleftrightarrow>
     to_lower (dr_method r) = ''get'' \<and> \<not> accepts_react_server_components (dr_headers r) \<and> \<not> requests_prefetch (dr_headers r) \<and>
     (case dr_headers r ''sec-fetch-dest'' of
        Some (c # cs) \<Rightarrow> to_lower (c # cs) = ''document'' \<or> to_lower (c # cs) = ''iframe''
      | _ \<Rightarrow> True) \<and>
     list_all (\<lambda>p. \<not> is_excluded_path p) (pathname_candidates decode r)"

section \<open>The policy\<close>

definition generate_csp_nonce :: "8 word list \<Rightarrow> string" where
  "generate_csp_nonce bytes = encode_base64url bytes"

definition quoted_nonce :: "string \<Rightarrow> string" where
  "quoted_nonce nonce = CHR 0x27 # ''nonce-'' @ nonce @ [CHR 0x27]"

definition keyword :: "string \<Rightarrow> string" where
  "keyword k = CHR 0x27 # k @ [CHR 0x27]"

definition policy_directives :: "string \<Rightarrow> (string \<times> string list) list" where
  "policy_directives nonce =
     [(''default-src'', [keyword ''none'']), (''base-uri'', [keyword ''none'']), (''object-src'', [keyword ''none'']),
      (''frame-ancestors'', [keyword ''none'']), (''frame-src'', [keyword ''none'']), (''form-action'', [keyword ''none'']),
      (''script-src'', [keyword ''self'', quoted_nonce nonce, keyword ''strict-dynamic'', keyword ''wasm-unsafe-eval'']),
      (''script-src-attr'', [keyword ''none'']),
      (''style-src'', [keyword ''self'', quoted_nonce nonce]), (''style-src-elem'', [keyword ''self'', quoted_nonce nonce]),
      (''style-src-attr'', [keyword ''unsafe-inline'']), (''connect-src'', [keyword ''self'', ''https:'']),
      (''img-src'', [keyword ''self'', ''blob:'', ''data:'', ''https://i.ytimg.com'']),
      (''media-src'', [keyword ''self'', ''blob:'']), (''font-src'', [keyword ''self'']), (''worker-src'', [keyword ''self'']),
      (''manifest-src'', [keyword ''self'']), (''require-trusted-types-for'', [keyword ''script'']),
      (''trusted-types'', [''subetha-matrix-html'', ''subetha-service-worker''])]"

definition build_content_security_policy :: "string \<Rightarrow> string" where
  "build_content_security_policy nonce =
     join_with ''; '' (map (\<lambda>(d, vs). join_with '' '' (d # vs)) (policy_directives nonce))"

record document_security =
  ds_forwarded :: headers
  ds_nonce :: string
  ds_policy :: string
  ds_response :: headers

definition create_document_security_context ::
  "(string \<Rightarrow> string option) \<Rightarrow> document_request \<Rightarrow> string \<Rightarrow> bool \<Rightarrow> document_security option" where
  "create_document_security_context decode r nonce enforce =
     (if \<not> is_document_request decode r then None
      else
        let policy = build_content_security_policy nonce;
            cleared = (dr_headers r)(csp_header := None, csp_report_header := None);
            name = (if enforce then csp_header else csp_report_header)
        in Some \<lparr>ds_forwarded = cleared(name \<mapsto> policy), ds_nonce = nonce, ds_policy = policy,
                 ds_response = document_security_headers(name \<mapsto> policy)\<rparr>)"

text \<open>The middleware: \<open>None\<close> lets the request pass unchanged.\<close>

definition proxy :: "(string \<Rightarrow> string option) \<Rightarrow> string option \<Rightarrow> document_request \<Rightarrow> 8 word list \<Rightarrow> (headers \<times> headers) option" where
  "proxy decode environment r random =
     (if is_local_development_preview r environment then None
      else map_option (\<lambda>s. (ds_forwarded s, ds_response s))
        (create_document_security_context decode r (generate_csp_nonce random)
          (\<not> is_local_development_request r environment)))"

section \<open>Every document is protected\<close>

lemma header_names: "csp_header \<noteq> csp_report_header" "document_security_headers csp_header = None"
  "document_security_headers csp_report_header = None"
  by (simp_all add: csp_header_def csp_report_header_def document_security_headers_def)

text \<open>C35: Outside loopback development every document request is answered with the enforced policy of a
  fresh nonce, which is also what the renderer sees; whatever policy the request brought along is
  gone, and the other protective headers are set.
\<close>

theorem documents_protected:
  "\<not> is_local_development_request r environment \<Longrightarrow> is_document_request decode r \<Longrightarrow>
   \<exists>forwarded response. proxy decode environment r random = Some (forwarded, response) \<and>
     response csp_header = Some (build_content_security_policy (encode_base64url random)) \<and>
     forwarded csp_header = response csp_header \<and>
     forwarded csp_report_header = None \<and> response csp_report_header = None \<and>
     response ''x-frame-options'' = Some ''DENY'' \<and> response ''x-content-type-options'' = Some ''nosniff'' \<and>
     response ''referrer-policy'' = Some ''no-referrer'' \<and>
     (\<forall>n. n \<noteq> csp_header \<and> n \<noteq> csp_report_header \<longrightarrow> forwarded n = dr_headers r n)"
  by (simp add: proxy_def is_local_development_preview_def create_document_security_context_def Let_def header_names
      generate_csp_nonce_def) (simp add: csp_header_def csp_report_header_def document_security_headers_def)

text \<open>What the policy says of scripts: only those of the nonce, of this origin and those they load, no
  inline script and no evaluation but WebAssembly; the nonce consists of characters that end neither
  its quotes nor the directive.
\<close>

theorem policy_confines_scripts:
  "map_of (policy_directives nonce) ''script-src'' =
     Some [keyword ''self'', quoted_nonce nonce, keyword ''strict-dynamic'', keyword ''wasm-unsafe-eval''] \<and>
   map_of (policy_directives nonce) ''script-src-attr'' = Some [keyword ''none''] \<and>
   map_of (policy_directives nonce) ''object-src'' = Some [keyword ''none''] \<and>
   list_all is_token_char (generate_csp_nonce random) \<and>
   (length random = 16 \<longrightarrow> length (generate_csp_nonce random) = 22)"
  using encode_token [of random] length_encode(1) [of random]
  by (simp add: policy_directives_def generate_csp_nonce_def)

definition sample_request :: document_request where
  "sample_request = \<lparr>dr_headers = [csp_header \<mapsto> ''forged''], dr_method = ''GET'',
     dr_url = \<lparr>url_protocol = ''https:'', url_username = [], url_password = [], url_hostname = ''subetha.example'', url_port = [],
        url_pathname = ''/'', url_search = [], url_hash = [], url_origin = ''https://subetha.example'', url_href = ''https://subetha.example/''\<rparr>,
     dr_query = []\<rparr>"

lemma lower_get: "to_lower ''GET'' = ''get''"
proof -
  have "lower_char (CHR ''G'') = CHR ''g''" "lower_char (CHR ''E'') = CHR ''e''" "lower_char (CHR ''T'') = CHR ''t''"
    by (simp_all add: lower_char_def code_of_def) (simp_all add: char_of_def bit_iff_odd)
  then show ?thesis by (simp add: to_lower_def)
qed

theorem documents_protected_witness:
  "\<exists>response. proxy Some None sample_request [] = Some response"
proof -
  have "is_document_request Some sample_request"
    by (simp add: is_document_request_def sample_request_def lower_get)
      (simp add: accepts_react_server_components_def requests_prefetch_def
        excluded_document_headers_def csp_header_def pathname_candidates_def is_excluded_path_def excluded_path_prefixes_def
        has_path_prefix_def is_static_file_def static_file_extensions_def path_leaf_def starts_icon_def to_lower_def
        lower_char_def code_of_def suffix_def)
  then show ?thesis using documents_protected [of sample_request None Some "[]"]
    by (auto simp: is_local_development_request_def)
qed

end
