(* ===== verification/Client_Memory.thy ===== *)
theory Client_Memory
  imports Prelude
begin

text \<open>
  Small stores of the client: drafts (lib/matrix/drafts.ts), warnings about remote sessions
  (lib/matrix/remote-session-warning.ts), and the Trusted Types policies
  (lib/security/trusted-script-url.ts, lib/matrix/trusted-html.ts). A browser storage is a list of
  keys and values in its own order; a storage that is missing or throws is a value of its own.
\<close>

section \<open>Drafts\<close>

type_synonym drafts = "string \<Rightarrow> string option"

definition draft_key_prefix :: string where "draft_key_prefix = ''sub-etha-draft:''"

definition draft_key :: "string \<Rightarrow> string" where "draft_key room = draft_key_prefix @ room"

definition read_memory_draft :: "drafts \<Rightarrow> string \<Rightarrow> string" where
  "read_memory_draft d room = (case d room of Some s \<Rightarrow> s | None \<Rightarrow> [])"

definition write_memory_draft :: "string \<Rightarrow> string \<Rightarrow> drafts \<Rightarrow> drafts" where
  "write_memory_draft room body d = (if body \<noteq> [] then d(room \<mapsto> body) else d(room := None))"

definition remove_memory_draft :: "string \<Rightarrow> drafts \<Rightarrow> drafts" where
  "remove_memory_draft room d = d(room := None)"

definition clear_memory_drafts :: "drafts \<Rightarrow> drafts" where
  "clear_memory_drafts d = Map.empty"

type_synonym storage = "(string \<times> string) list"

text \<open>The keys are collected first and removed then, so that no removal shifts an index.\<close>

definition remove_item :: "string \<Rightarrow> storage \<Rightarrow> storage" where
  "remove_item k s = filter (\<lambda>(j, _). j \<noteq> k) s"

definition clear_legacy_persisted_drafts :: "storage \<Rightarrow> storage" where
  "clear_legacy_persisted_drafts s = fold remove_item (filter (prefix draft_key_prefix) (map fst s)) s"

lemma fold_remove: "fold remove_item ks s = filter (\<lambda>(j, _). j \<notin> set ks) s"
  by (induction ks arbitrary: s) (auto simp: remove_item_def intro!: filter_cong)

text \<open>Exactly the entries with the prefix of drafts are removed, in any order and number.\<close>

theorem legacy_drafts_removed:
  "clear_legacy_persisted_drafts s = filter (\<lambda>(k, _). \<not> prefix draft_key_prefix k) s"
  by (force simp: clear_legacy_persisted_drafts_def fold_remove intro!: filter_cong)

text \<open>A draft reads as it was last written; an empty one is no draft.\<close>

lemma draft_read:
  "read_memory_draft (write_memory_draft room body d) room = body"
  "r \<noteq> room \<Longrightarrow> read_memory_draft (write_memory_draft room body d) r = read_memory_draft d r"
  "read_memory_draft (clear_memory_drafts d) r = []"
  by (simp_all add: read_memory_draft_def write_memory_draft_def clear_memory_drafts_def)

section \<open>Warnings about remote sessions\<close>

datatype warning_kind = LogoutWarning | PendingWarning | RefreshWarning

text \<open>
  What the storage does at one call: it is missing, it throws, or it works. The durable entries are the
  kinds whose key holds the mark.
\<close>

datatype storage_state = StorageMissing | StorageThrows | StorageWorks

record warnings =
  wn_memory :: "warning_kind set"
  wn_durable :: "warning_kind set"

definition has_warning :: "storage_state \<Rightarrow> warnings \<Rightarrow> warning_kind \<Rightarrow> bool" where
  "has_warning st w k \<longleftrightarrow> k \<in> wn_memory w \<or> (st = StorageWorks \<and> k \<in> wn_durable w)"

definition persist_warning :: "storage_state \<Rightarrow> warning_kind \<Rightarrow> warnings \<Rightarrow> warnings" where
  "persist_warning st k w =
     (case st of
        StorageWorks \<Rightarrow> w\<lparr>wn_durable := insert k (wn_durable w), wn_memory := wn_memory w - {k}\<rparr>
      | _ \<Rightarrow> w\<lparr>wn_memory := insert k (wn_memory w)\<rparr>)"

definition read_warning :: "storage_state \<Rightarrow> warnings \<Rightarrow> warning_kind option" where
  "read_warning st w =
     (if has_warning st w RefreshWarning then Some RefreshWarning
      else if has_warning st w PendingWarning then Some PendingWarning
      else if has_warning st w LogoutWarning then Some LogoutWarning
      else None)"

definition clear_warnings :: "storage_state \<Rightarrow> warnings \<Rightarrow> warnings" where
  "clear_warnings st w = (if st = StorageWorks then w\<lparr>wn_memory := {}, wn_durable := {}\<rparr> else w\<lparr>wn_memory := {}\<rparr>)"

text \<open>Calls of the store, each with what the storage does at the time.\<close>

datatype warning_call = Persist storage_state warning_kind | Clear storage_state

fun warning_step :: "warning_call \<Rightarrow> warnings \<Rightarrow> warnings" where
  "warning_step (Persist st k) w = persist_warning st k w"
| "warning_step (Clear st) w = clear_warnings st w"

lemma persisted_stays:
  "k \<in> wn_memory w \<union> wn_durable w \<Longrightarrow> \<forall>c \<in> set calls. \<exists>st j. c = Persist st j \<Longrightarrow>
   k \<in> wn_memory (fold warning_step calls w) \<union> wn_durable (fold warning_step calls w)"
proof (induction calls arbitrary: w)
  case (Cons c calls)
  then obtain st j where c: "c = Persist st j" by auto
  have "k \<in> wn_memory (persist_warning st j w) \<union> wn_durable (persist_warning st j w)"
    using Cons.prems(1) by (auto simp: persist_warning_def split: storage_state.split)
  then show ?case using Cons by (simp add: c)
qed simp

text \<open>A warning that was given stays readable until warnings are cleared, whatever other warnings come and
  whatever the storage does at their time, as long as it works when the warnings are read.
\<close>

theorem warning_survives:
  "\<forall>c \<in> set calls. \<exists>st j. c = Persist st j \<Longrightarrow>
   has_warning StorageWorks (fold warning_step calls (persist_warning st k w)) k \<and>
   read_warning StorageWorks (fold warning_step calls (persist_warning st k w)) \<noteq> None"
proof -
  assume a: "\<forall>c \<in> set calls. \<exists>st j. c = Persist st j"
  have "k \<in> wn_memory (persist_warning st k w) \<union> wn_durable (persist_warning st k w)"
    by (simp add: persist_warning_def split: storage_state.split)
  then have "has_warning StorageWorks (fold warning_step calls (persist_warning st k w)) k"
    using persisted_stays [OF _ a] by (auto simp: has_warning_def)
  then show ?thesis by (cases k) (auto simp: read_warning_def)
qed

theorem warning_survives_witness:
  "read_warning StorageWorks (fold warning_step [Persist StorageThrows LogoutWarning]
      (persist_warning StorageMissing PendingWarning \<lparr>wn_memory = {}, wn_durable = {}\<rparr>)) \<noteq> None"
  using warning_survives [of "[Persist StorageThrows LogoutWarning]" StorageMissing PendingWarning "\<lparr>wn_memory = {}, wn_durable = {}\<rparr>"]
  by simp

section \<open>Trusted Types policies\<close>

text \<open>
  A factory creates its policy or throws. The caches of the module: the policy with its factory, and the
  factory that failed last; factories are compared by identity, a number.
\<close>

record script_policies =
  sp_cached :: "nat option"
  sp_failed :: "nat option"

definition service_worker_script_path :: string where "service_worker_script_path = ''/sw.js''"

definition trusted_service_worker_policy_name :: string where
  "trusted_service_worker_policy_name = ''subetha-service-worker''"

definition policy_for :: "(nat \<Rightarrow> bool) \<Rightarrow> nat \<Rightarrow> script_policies \<Rightarrow> bool \<times> script_policies" where
  "policy_for creates f p =
     (if sp_cached p = Some f then (True, p)
      else if sp_failed p = Some f then (False, p)
      else if creates f then (True, p\<lparr>sp_cached := Some f\<rparr>)
      else (False, p\<lparr>sp_failed := Some f\<rparr>))"

text \<open>The callback of the policy: only the fixed path passes.\<close>

definition create_script_url :: "string \<Rightarrow> string option" where
  "create_script_url input = (if input \<noteq> service_worker_script_path then None else Some input)"

datatype script_url = PlainUrl string | TrustedUrl string | NoUrl

definition trusted_service_worker_script_url ::
  "(nat \<Rightarrow> bool) \<Rightarrow> nat option \<Rightarrow> script_policies \<Rightarrow> script_url \<times> script_policies" where
  "trusted_service_worker_script_url creates factory p =
     (case factory of
        None \<Rightarrow> (PlainUrl service_worker_script_path, p)
      | Some f \<Rightarrow>
          (let (ok, p') = policy_for creates f p
           in (if ok then (case create_script_url service_worker_script_path of Some u \<Rightarrow> TrustedUrl u | None \<Rightarrow> NoUrl) else NoUrl, p')))"

text \<open>The service worker is registered from one address only, and where the browser has Trusted Types
  never with a plain string; a factory that refused the policy is not asked again.
\<close>

theorem worker_script_is_fixed:
  "fst (trusted_service_worker_script_url creates factory p) \<in>
     (if factory = None then {PlainUrl ''/sw.js''} else {TrustedUrl ''/sw.js'', NoUrl}) \<and>
   (\<forall>f. factory = Some f \<and> sp_cached p \<noteq> Some f \<and> sp_failed p = Some f \<longrightarrow>
      trusted_service_worker_script_url creates factory p = (NoUrl, p)) \<and>
   (create_script_url input = Some u \<longrightarrow> u = ''/sw.js'' \<and> input = ''/sw.js'')"
  by (auto simp: trusted_service_worker_script_url_def policy_for_def create_script_url_def service_worker_script_path_def
      split: option.split)

section \<open>Sanitized HTML\<close>

text \<open>
  The sanitizer (DOMPurify with the lists of tags and attributes) is a function that may throw;
  without a document there is none.
\<close>

record html_env =
  he_document :: bool
  he_factory :: "nat option"
  he_creates :: "nat \<Rightarrow> bool"
  he_policy_throws :: "string \<Rightarrow> bool"
  he_purify :: "string \<Rightarrow> string option"

record html_policies =
  hp_cached :: bool
  hp_failed :: "nat option"

text \<open>\<^verbatim>\<open>/^\s*<mx-reply(?:\s[^>]*)?>[\s\S]*?<\/mx-reply>\s*/i\<close>\<close>

definition close_reply :: string where "close_reply = ''</mx-reply>''"

definition strip_rich_reply :: "string \<Rightarrow> string" where
  "strip_rich_reply v =
     (let s = dropWhile is_js_space v in
      if \<not> prefix ''<mx-reply'' (to_lower s) then v
      else
        let r = drop 9 s;
            attributes = (case r of c # t \<Rightarrow> if is_js_space c then dropWhile (\<lambda>x. x \<noteq> CHR ''>'') t else r | [] \<Rightarrow> [])
        in case attributes of
          [] \<Rightarrow> v
        | c # content \<Rightarrow>
            if c \<noteq> CHR ''>'' then v
            else case index_str close_reply (to_lower content) of
              None \<Rightarrow> v
            | Some i \<Rightarrow> dropWhile is_js_space (drop (i + length close_reply) content))"

definition sanitize_to_string :: "html_env \<Rightarrow> string \<Rightarrow> string" where
  "sanitize_to_string E v =
     (if \<not> he_document E then []
      else case he_purify E (strip_rich_reply v) of Some s \<Rightarrow> s | None \<Rightarrow> [])"

text \<open>Whether there is a policy, and the caches afterwards.\<close>

definition get_policy :: "html_env \<Rightarrow> html_policies \<Rightarrow> bool \<times> html_policies" where
  "get_policy E p =
     (if hp_cached p then (True, p)
      else if \<not> he_document E then (False, p)
      else case he_factory E of
        None \<Rightarrow> (False, p)
      | Some f \<Rightarrow>
          if hp_failed p = Some f then (False, p)
          else if he_creates E f then (True, p\<lparr>hp_cached := True\<rparr>)
          else (False, p\<lparr>hp_failed := Some f\<rparr>))"

datatype matrix_html = TrustedHtml (html_text: string) | PlainHtml (html_text: string)

definition sanitize_matrix_html :: "html_env \<Rightarrow> string \<Rightarrow> html_policies \<Rightarrow> matrix_html \<times> html_policies" where
  "sanitize_matrix_html E v p =
     (let (policy, p') = get_policy E p
      in if policy \<and> \<not> he_policy_throws E v then (TrustedHtml (sanitize_to_string E v), p')
         else (PlainHtml (sanitize_to_string E v), p'))"

text \<open>C17: HTML of a message reaches the page only as the sanitizer left it, or not at all: neither a missing
  or failing policy nor a failing sanitizer lets the text through.
\<close>

theorem html_only_sanitized:
  "html_text (fst (sanitize_matrix_html E v p)) = [] \<or>
   (\<exists>w. suffix w v \<and> he_purify E w = Some (html_text (fst (sanitize_matrix_html E v p))))"
proof -
  have "suffix (strip_rich_reply v) v"
  proof (cases "strip_rich_reply v = v")
    case False
    let ?s = "dropWhile is_js_space v"
    obtain a where a: "suffix a (drop 9 ?s)" and cut: "\<exists>c content n. a = c # content \<and>
        strip_rich_reply v = dropWhile is_js_space (drop n content)"
    proof
      let ?a = "case drop 9 ?s of c # t \<Rightarrow> if is_js_space c then dropWhile (\<lambda>x. x \<noteq> CHR ''>'') t else drop 9 ?s | [] \<Rightarrow> []"
      show "suffix ?a (drop 9 ?s)"
        by (cases "drop 9 ?s") (auto intro: suffix_ConsI suffix_dropWhile)
      show "\<exists>c content n. ?a = c # content \<and> strip_rich_reply v = dropWhile is_js_space (drop n content)"
        using False by (cases ?a) (auto simp: strip_rich_reply_def Let_def split: if_splits option.splits)
    qed
    obtain c content n where c: "a = c # content" "strip_rich_reply v = dropWhile is_js_space (drop n content)"
      using cut by blast
    have "suffix (dropWhile is_js_space (drop n content)) (drop n content)" by (rule suffix_dropWhile)
    moreover have "suffix (drop n content) content" by (rule suffix_drop)
    moreover have "suffix content a" using c(1) by (simp add: suffix_Cons)
    moreover have "suffix (drop 9 ?s) ?s" by (rule suffix_drop)
    moreover have "suffix ?s v" by (rule suffix_dropWhile)
    ultimately show ?thesis using a c(2) by (metis suffix_order.order_trans)
  qed simp
  then show ?thesis
    by (auto simp: sanitize_matrix_html_def sanitize_to_string_def split: prod.split option.split)
qed

end
