(* ===== verification/Media_Cache.thy ===== *)
theory Media_Cache
  imports Prelude
begin

text \<open>
  lib/matrix/client.ts, the cache of media assets and of posters of animated images: entries with an
  object URL each, the least recently used evicted first. An entry is known by the number of its
  creation, as the code compares entries by identity. The steps are the synchronous stretches of the
  asynchronous methods: a request up to the start of its load, the end of a load, an invalidation,
  and the stop of the service.
\<close>

section \<open>State\<close>

definition max_media_cache_bytes :: nat where "max_media_cache_bytes = 128 * 1024 * 1024"
definition max_media_cache_entries :: nat where "max_media_cache_entries = 96"

datatype cache_kind = Media | Poster

text \<open>
  \<open>ce_value\<close> is the value of the entry that counts (\<open>entry.value\<close>, with a URL); \<open>ce_loaded\<close> tells that
  its promise is settled. \<open>ce_generation\<close> is the invalidation generation of its request.
\<close>

record cache_entry =
  ce_kind :: cache_kind
  ce_key :: string
  ce_alias :: string
  ce_bytes :: nat
  ce_last_used :: nat
  ce_settled :: bool
  ce_released :: bool
  ce_loaded :: bool
  ce_value :: bool
  ce_generation :: nat

type_synonym entry_map = "(string \<times> nat) list"

record media_cache =
  ca_entries :: "cache_entry list"
  ca_media :: entry_map
  ca_posters :: entry_map
  ca_aliases :: "string \<Rightarrow> string set"
  ca_bytes :: nat
  ca_clock :: nat
  ca_generation :: nat
  ca_active :: bool
  ca_revoked :: "nat list"

definition new_cache :: media_cache where
  "new_cache = \<lparr>ca_entries = [], ca_media = [], ca_posters = [], ca_aliases = (\<lambda>_. {}), ca_bytes = 0, ca_clock = 0,
     ca_generation = 0, ca_active = True, ca_revoked = []\<rparr>"

definition entry_map :: "cache_kind \<Rightarrow> media_cache \<Rightarrow> entry_map" where
  "entry_map k c = (case k of Media \<Rightarrow> ca_media c | Poster \<Rightarrow> ca_posters c)"

definition set_entry_map :: "cache_kind \<Rightarrow> entry_map \<Rightarrow> media_cache \<Rightarrow> media_cache" where
  "set_entry_map k m c = (case k of Media \<Rightarrow> c\<lparr>ca_media := m\<rparr> | Poster \<Rightarrow> c\<lparr>ca_posters := m\<rparr>)"

definition upd_entry :: "nat \<Rightarrow> (cache_entry \<Rightarrow> cache_entry) \<Rightarrow> media_cache \<Rightarrow> media_cache" where
  "upd_entry i f c = c\<lparr>ca_entries := (ca_entries c)[i := f (ca_entries c ! i)]\<rparr>"

definition without_key :: "string \<Rightarrow> entry_map \<Rightarrow> entry_map" where
  "without_key key m = filter (\<lambda>(k, _). k \<noteq> key) m"

definition cache_size :: "media_cache \<Rightarrow> nat" where
  "cache_size c = length (ca_media c) + length (ca_posters c)"

section \<open>Operations\<close>

definition add_media_alias :: "string \<Rightarrow> string \<Rightarrow> media_cache \<Rightarrow> media_cache" where
  "add_media_alias alias key c = c\<lparr>ca_aliases := (ca_aliases c)(alias := insert key (ca_aliases c alias))\<rparr>"

definition remove_media_alias :: "string \<Rightarrow> string \<Rightarrow> media_cache \<Rightarrow> media_cache" where
  "remove_media_alias alias key c = c\<lparr>ca_aliases := (ca_aliases c)(alias := ca_aliases c alias - {key})\<rparr>"

text \<open>
  \<open>releaseMediaEntry\<close> and \<open>releasePosterEntry\<close>: the URL is revoked now, or once the promise gives one.
\<close>

definition release_entry :: "nat \<Rightarrow> media_cache \<Rightarrow> media_cache" where
  "release_entry i c =
     (let e = ca_entries c ! i in
      if ce_released e then c
      else
        let c' = upd_entry i (\<lambda>e. e\<lparr>ce_released := True\<rparr>) c;
            c' = (if ce_settled e then c'\<lparr>ca_bytes := ca_bytes c' - ce_bytes e\<rparr> else c')
        in if ce_value e then c'\<lparr>ca_revoked := i # ca_revoked c'\<rparr> else c')"

text \<open>An entry leaves its map and the aliases and is released.\<close>

definition remove_entry :: "cache_kind \<Rightarrow> string \<Rightarrow> nat \<Rightarrow> media_cache \<Rightarrow> media_cache" where
  "remove_entry k key i c =
     (let c' = set_entry_map k (without_key key (entry_map k c)) c;
          c' = (if k = Media then remove_media_alias (ce_alias (ca_entries c ! i)) key c' else c')
      in release_entry i c')"

definition touch_cache_entry :: "cache_kind \<Rightarrow> string \<Rightarrow> nat \<Rightarrow> media_cache \<Rightarrow> media_cache" where
  "touch_cache_entry k key i c =
     (let c = c\<lparr>ca_clock := ca_clock c + 1\<rparr>;
          c = upd_entry i (\<lambda>e. e\<lparr>ce_last_used := ca_clock c\<rparr>) c
      in set_entry_map k (without_key key (entry_map k c) @ [(key, i)]) c)"

text \<open>The entries that may be evicted, and the least recently used of them.\<close>

definition evictable :: "(cache_kind \<times> string) option \<Rightarrow> media_cache \<Rightarrow> (cache_kind \<times> string \<times> nat) list" where
  "evictable protected c =
     filter (\<lambda>(k, key, i). ce_settled (ca_entries c ! i) \<and> \<not> ce_released (ca_entries c ! i) \<and> protected \<noteq> Some (k, key))
       (map (\<lambda>(key, i). (Media, key, i)) (ca_media c) @ map (\<lambda>(key, i). (Poster, key, i)) (ca_posters c))"

fun oldest :: "media_cache \<Rightarrow> (cache_kind \<times> string \<times> nat) option \<Rightarrow> (cache_kind \<times> string \<times> nat) list \<Rightarrow>
    (cache_kind \<times> string \<times> nat) option" where
  "oldest c best [] = best"
| "oldest c best (x # xs) =
     oldest c (case best of
         None \<Rightarrow> Some x
       | Some b \<Rightarrow> if ce_last_used (ca_entries c ! snd (snd x)) < ce_last_used (ca_entries c ! snd (snd b)) then Some x else best) xs"

definition evict_oldest_settled_entry :: "(cache_kind \<times> string) option \<Rightarrow> media_cache \<Rightarrow> media_cache option" where
  "evict_oldest_settled_entry protected c =
     (case oldest c None (evictable protected c) of
        None \<Rightarrow> None
      | Some (k, key, i) \<Rightarrow> Some (remove_entry k key i c))"

lemma set_entry_map_simps [simp]:
  "ca_entries (set_entry_map k m c) = ca_entries c" "ca_aliases (set_entry_map k m c) = ca_aliases c"
  "ca_bytes (set_entry_map k m c) = ca_bytes c" "ca_clock (set_entry_map k m c) = ca_clock c"
  "ca_generation (set_entry_map k m c) = ca_generation c" "ca_active (set_entry_map k m c) = ca_active c"
  "ca_revoked (set_entry_map k m c) = ca_revoked c"
  "entry_map j (set_entry_map k m c) = (if j = k then m else entry_map j c)"
  by (cases k; cases j; simp add: set_entry_map_def entry_map_def)+

lemma cache_size_maps: "cache_size c = length (entry_map Media c) + length (entry_map Poster c)"
  by (simp add: cache_size_def entry_map_def)

lemma upd_entry_simps [simp]:
  "entry_map k (upd_entry i f c) = entry_map k c" "ca_aliases (upd_entry i f c) = ca_aliases c"
  "ca_bytes (upd_entry i f c) = ca_bytes c" "ca_clock (upd_entry i f c) = ca_clock c"
  "ca_generation (upd_entry i f c) = ca_generation c" "ca_active (upd_entry i f c) = ca_active c"
  "ca_revoked (upd_entry i f c) = ca_revoked c" "length (ca_entries (upd_entry i f c)) = length (ca_entries c)"
  by (cases k; simp add: upd_entry_def entry_map_def)+

lemma alias_simps [simp]:
  "entry_map k (remove_media_alias a key c) = entry_map k c" "ca_entries (remove_media_alias a key c) = ca_entries c"
  "ca_bytes (remove_media_alias a key c) = ca_bytes c" "ca_clock (remove_media_alias a key c) = ca_clock c"
  "ca_generation (remove_media_alias a key c) = ca_generation c" "ca_active (remove_media_alias a key c) = ca_active c"
  "ca_revoked (remove_media_alias a key c) = ca_revoked c"
  "entry_map k (add_media_alias a key c) = entry_map k c" "ca_entries (add_media_alias a key c) = ca_entries c"
  "ca_bytes (add_media_alias a key c) = ca_bytes c" "ca_clock (add_media_alias a key c) = ca_clock c"
  "ca_generation (add_media_alias a key c) = ca_generation c" "ca_active (add_media_alias a key c) = ca_active c"
  "ca_revoked (add_media_alias a key c) = ca_revoked c"
  by (cases k; simp add: remove_media_alias_def add_media_alias_def entry_map_def)+

lemma release_maps [simp]:
  "entry_map k (release_entry i c) = entry_map k c" "ca_aliases (release_entry i c) = ca_aliases c"
  "ca_clock (release_entry i c) = ca_clock c" "ca_generation (release_entry i c) = ca_generation c"
  "ca_active (release_entry i c) = ca_active c" "length (ca_entries (release_entry i c)) = length (ca_entries c)"
  by (cases k; simp add: release_entry_def Let_def entry_map_def upd_entry_def)+

lemma without_key_length: "(key, i) \<in> set m \<Longrightarrow> length (without_key key m) < length m"
  unfolding without_key_def by (rule length_filter_less) auto

lemma oldest_in: "oldest c best xs = Some x \<Longrightarrow> x \<in> set xs \<or> best = Some x"
  by (induction xs arbitrary: best) (fastforce split: option.splits if_splits)+

lemma remove_maps: "entry_map j (remove_entry k key i c) = (if j = k then without_key key (entry_map k c) else entry_map j c)"
  by (simp add: remove_entry_def Let_def)

lemma evicted:
  assumes "evict_oldest_settled_entry p c = Some c'"
  obtains k key i where "(key, i) \<in> set (entry_map k c)" "ce_settled (ca_entries c ! i)" "p \<noteq> Some (k, key)"
    "c' = remove_entry k key i c"
proof -
  obtain k key i where o: "oldest c None (evictable p c) = Some (k, key, i)" "c' = remove_entry k key i c"
    using assms by (auto simp: evict_oldest_settled_entry_def split: option.splits)
  then have "(k, key, i) \<in> set (evictable p c)" using oldest_in by fastforce
  then have "(key, i) \<in> set (entry_map k c)" "ce_settled (ca_entries c ! i)" "p \<noteq> Some (k, key)"
    by (auto simp: evictable_def entry_map_def)
  then show ?thesis using that o(2) by blast
qed

lemma evict_smaller: "evict_oldest_settled_entry p c = Some c' \<Longrightarrow> cache_size c' < cache_size c"
proof -
  assume "evict_oldest_settled_entry p c = Some c'"
  then obtain k key i where "(key, i) \<in> set (entry_map k c)" "c' = remove_entry k key i c" by (rule evicted)
  then show ?thesis using without_key_length by (cases k) (auto simp: cache_size_maps remove_maps)
qed

function ensure_media_cache_slot :: "media_cache \<Rightarrow> bool \<times> media_cache" where
  "ensure_media_cache_slot c =
     (if cache_size c < max_media_cache_entries then (True, c)
      else case evict_oldest_settled_entry None c of None \<Rightarrow> (False, c) | Some c' \<Rightarrow> ensure_media_cache_slot c')"
  by pat_completeness auto
termination
  by (relation "measure cache_size") (auto dest: evict_smaller)

function evict_media_cache :: "cache_kind \<times> string \<Rightarrow> media_cache \<Rightarrow> media_cache" where
  "evict_media_cache protected c =
     (if ca_bytes c > max_media_cache_bytes \<or> cache_size c > max_media_cache_entries
      then case evict_oldest_settled_entry (Some protected) c of None \<Rightarrow> c | Some c' \<Rightarrow> evict_media_cache protected c'
      else c)"
  by pat_completeness auto
termination
  by (relation "measure (\<lambda>(_, c). cache_size c)") (auto dest: evict_smaller)

declare ensure_media_cache_slot.simps [simp del] evict_media_cache.simps [simp del]

section \<open>Steps\<close>

text \<open>What a request finds: the entry of its key, a new one, or a full cache; or the service has stopped.\<close>

datatype request_result = Hit nat | Started nat | CacheFull | ServiceStopped

definition request_entry :: "cache_kind \<Rightarrow> string \<Rightarrow> string \<Rightarrow> media_cache \<Rightarrow> request_result \<times> media_cache" where
  "request_entry k key alias c =
     (if \<not> ca_active c then (ServiceStopped, c)
      else case map_of (entry_map k c) key of
        Some i \<Rightarrow> (Hit i, touch_cache_entry k key i c)
      | None \<Rightarrow>
          (case ensure_media_cache_slot c of
             (False, c) \<Rightarrow> (CacheFull, c)
           | (True, c) \<Rightarrow>
               (let i = length (ca_entries c);
                    c = c\<lparr>ca_clock := ca_clock c + 1\<rparr>;
                    c = c\<lparr>ca_entries := ca_entries c @ [\<lparr>ce_kind = k, ce_key = key, ce_alias = alias, ce_bytes = 0,
                          ce_last_used = ca_clock c, ce_settled = False, ce_released = False, ce_loaded = False, ce_value = False,
                          ce_generation = ca_generation c\<rparr>]\<rparr>;
                    c = set_entry_map k (entry_map k c @ [(key, i)]) c
                in (Started i, if k = Media then add_media_alias alias key c else c))))"

text \<open>The catch block: the entry leaves the map if it is still the one of its key, and is released.\<close>

definition drop_failed :: "nat \<Rightarrow> media_cache \<Rightarrow> media_cache" where
  "drop_failed i c =
     (let e = ca_entries c ! i in
      if map_of (entry_map (ce_kind e) c) (ce_key e) = Some i then remove_entry (ce_kind e) (ce_key e) i c
      else release_entry i c)"

text \<open>
  The end of a load: \<open>None\<close> when it failed, else the size and whether there is a URL (a poster may be
  empty). \<open>alive\<close> tells that the lease of the operation has not been aborted.
\<close>

definition finish_load :: "nat \<Rightarrow> (nat \<times> bool) option \<Rightarrow> bool \<Rightarrow> media_cache \<Rightarrow> media_cache" where
  "finish_load i result alive c =
     (let e = ca_entries c ! i in
      if i \<ge> length (ca_entries c) \<or> ce_loaded e then c
      else case result of
        None \<Rightarrow> drop_failed i (upd_entry i (\<lambda>e. e\<lparr>ce_loaded := True\<rparr>) c)
      | Some (n, url) \<Rightarrow>
          (let c = upd_entry i (\<lambda>e. e\<lparr>ce_loaded := True, ce_value := url\<rparr>) c;
               c' = (if \<not> alive \<or> \<not> ca_active c \<or> ce_generation e \<noteq> ca_generation c then drop_failed i c
                     else
                       let c = upd_entry i (\<lambda>e. e\<lparr>ce_settled := True\<rparr>) c in
                       if map_of (entry_map (ce_kind e) c) (ce_key e) = Some i \<and> \<not> ce_released e
                       then (let c = upd_entry i (\<lambda>e. e\<lparr>ce_bytes := n\<rparr>) c
                             in evict_media_cache (ce_kind e, ce_key e) (c\<lparr>ca_bytes := ca_bytes c + n\<rparr>))
                       else c)
           in if ce_released e \<and> url then c'\<lparr>ca_revoked := i # ca_revoked c'\<rparr> else c'))"

definition remove_entries :: "(cache_kind \<times> string \<times> nat) list \<Rightarrow> media_cache \<Rightarrow> media_cache" where
  "remove_entries xs c = fold (\<lambda>(k, key, i). remove_entry k key i) xs c"

text \<open>
  \<open>invalidateMedia\<close>: the media entries with a key under the alias, then the posters with the alias.
\<close>

definition invalidate_media :: "string \<Rightarrow> media_cache \<Rightarrow> media_cache" where
  "invalidate_media alias c =
     (let c = c\<lparr>ca_generation := ca_generation c + 1\<rparr>;
          media = map (\<lambda>(key, i). (Media, key, i)) (filter (\<lambda>(key, i). key \<in> ca_aliases c alias) (ca_media c));
          posters = map (\<lambda>(key, i). (Poster, key, i)) (filter (\<lambda>(key, i). ce_alias (ca_entries c ! i) = alias) (ca_posters c))
      in remove_entries posters (remove_entries media c))"

text \<open>\<open>releaseMediaAssets\<close>, when the service stops.\<close>

definition release_media_assets :: "media_cache \<Rightarrow> media_cache" where
  "release_media_assets c =
     (let c = fold (\<lambda>(_, i). release_entry i) (ca_media c @ ca_posters c) c
      in c\<lparr>ca_media := [], ca_posters := [], ca_aliases := (\<lambda>_. {}), ca_bytes := 0, ca_active := False\<rparr>)"

text \<open>
  The loaders give no asset above the largest receive limit (\<open>mediaReceiveLimit\<close>, and a poster is a
  picture of at most 1000 by 1000 pixels); the steps of a life of the service, which ends with its stop.
\<close>

inductive cache_step :: "media_cache \<Rightarrow> media_cache \<Rightarrow> bool" where
  request: "cache_step c (snd (request_entry k key alias c))"
| finish: "(\<And>n url. result = Some (n, url) \<Longrightarrow> n \<le> max_media_cache_bytes) \<Longrightarrow> cache_step c (finish_load i result alive c)"
| invalidate: "cache_step c (invalidate_media alias c)"
| stop: "cache_step c (release_media_assets c)"

inductive cache_reachable :: "media_cache \<Rightarrow> bool" where
  start: "cache_reachable new_cache"
| step: "cache_reachable c \<Longrightarrow> cache_step c c' \<Longrightarrow> cache_reachable c'"

end
