(* ===== verification/Cache_Safety.thy ===== *)
theory Cache_Safety
  imports Media_Cache
begin

text \<open>
  The invariant of the media cache and what follows from it: bounded size, exact accounting, and object
  URLs that are revoked once, and only after their entry has left the cache.
\<close>

section \<open>The invariant\<close>

definition weight :: "cache_entry \<Rightarrow> nat" where
  "weight e = (if ce_settled e \<and> \<not> ce_released e then ce_bytes e else 0)"

definition entries_ok :: "media_cache \<Rightarrow> bool" where
  "entries_ok c \<longleftrightarrow>
     (\<forall>e \<in> set (ca_entries c). (ce_settled e \<or> ce_value e \<longrightarrow> ce_loaded e) \<and> ce_generation e \<le> ca_generation c \<and> ce_bytes e \<le> max_media_cache_bytes) \<and>
     distinct (ca_revoked c) \<and>
     set (ca_revoked c) = {i. i < length (ca_entries c) \<and> ce_released (ca_entries c ! i) \<and> ce_value (ca_entries c ! i)}"

definition maps_ok :: "media_cache \<Rightarrow> bool" where
  "maps_ok c \<longleftrightarrow>
     (\<forall>k. distinct (map fst (entry_map k c))) \<and>
     (\<forall>k key i. (key, i) \<in> set (entry_map k c) \<longleftrightarrow>
        i < length (ca_entries c) \<and> ce_kind (ca_entries c ! i) = k \<and> ce_key (ca_entries c ! i) = key \<and> \<not> ce_released (ca_entries c ! i)) \<and>
     (\<forall>a key. key \<in> ca_aliases c a \<longleftrightarrow> (\<exists>i. (key, i) \<in> set (entry_map Media c) \<and> ce_alias (ca_entries c ! i) = a))"

definition accounted :: "media_cache \<Rightarrow> bool" where
  "accounted c \<longleftrightarrow> ca_bytes c = (\<Sum>e\<leftarrow>ca_entries c. weight e)"

text \<open>An entry released before its load ended belongs to an earlier generation, or the service has stopped.\<close>

definition stale_ok :: "media_cache \<Rightarrow> bool" where
  "stale_ok c \<longleftrightarrow> (\<forall>e \<in> set (ca_entries c). ce_released e \<and> \<not> ce_loaded e \<longrightarrow>
     ce_generation e < ca_generation c \<or> \<not> ca_active c)"

definition cache_core :: "media_cache \<Rightarrow> bool" where
  "cache_core c \<longleftrightarrow> entries_ok c \<and> maps_ok c \<and> accounted c \<and> stale_ok c"

definition cache_ok :: "media_cache \<Rightarrow> bool" where
  "cache_ok c \<longleftrightarrow> cache_core c \<and> cache_size c \<le> max_media_cache_entries \<and> ca_bytes c \<le> max_media_cache_bytes"

section \<open>Releasing and removing\<close>

lemma released_again [simp]: "ce_released e \<Longrightarrow> e\<lparr>ce_released := True\<rparr> = e"
  by (cases e) simp

lemma release_entries:
  "i < length (ca_entries c) \<Longrightarrow>
   ca_entries (release_entry i c) = (ca_entries c)[i := (ca_entries c ! i)\<lparr>ce_released := True\<rparr>]"
  by (simp add: release_entry_def Let_def upd_entry_def)

lemma release_revoked:
  "ca_revoked (release_entry i c) =
     (if ce_released (ca_entries c ! i) \<or> \<not> ce_value (ca_entries c ! i) then ca_revoked c else i # ca_revoked c)"
  by (simp add: release_entry_def Let_def)

lemma release_bytes:
  "ca_bytes (release_entry i c) = ca_bytes c - weight (ca_entries c ! i)"
  by (simp add: release_entry_def Let_def weight_def)

lemma release_entries_ok:
  assumes ok: "entries_ok c" and i: "i < length (ca_entries c)"
  shows "entries_ok (release_entry i c)"
proof -
  have "\<forall>e \<in> set (ca_entries (release_entry i c)). (ce_settled e \<or> ce_value e \<longrightarrow> ce_loaded e) \<and> ce_generation e \<le> ca_generation c \<and>
      ce_bytes e \<le> max_media_cache_bytes"
    using ok i by (auto simp: release_entries entries_ok_def dest!: set_update_subset_insert [THEN subsetD])
  moreover have "set (ca_revoked (release_entry i c)) =
      {j. j < length (ca_entries c) \<and> ce_released (ca_entries (release_entry i c) ! j) \<and> ce_value (ca_entries (release_entry i c) ! j)}"
    using ok i by (auto simp: release_entries release_revoked entries_ok_def nth_list_update)
  moreover have "distinct (ca_revoked (release_entry i c))"
    using ok by (auto simp: release_revoked entries_ok_def)
  ultimately show ?thesis by (simp add: entries_ok_def)
qed

lemma sum_weight_update:
  fixes es :: "cache_entry list"
  shows "i < length es \<Longrightarrow> (\<Sum>e\<leftarrow>es[i := e']. weight e) = (\<Sum>e\<leftarrow>es. weight e) - weight (es ! i) + weight e'"
  using elem_le_sum_list [of i "map weight es"] by (simp add: map_update sum_list_update)

lemma release_accounted: "accounted c \<Longrightarrow> i < length (ca_entries c) \<Longrightarrow> accounted (release_entry i c)"
  by (simp add: accounted_def release_entries release_bytes sum_weight_update) (simp add: weight_def)

lemma released_not_mapped: "maps_ok c \<Longrightarrow> (key, i) \<in> set (entry_map k c) \<Longrightarrow> i < length (ca_entries c) \<and> \<not> ce_released (ca_entries c ! i)"
  by (auto simp: maps_ok_def)

lemma remove_facts:
  assumes "i < length (ca_entries c)"
  shows "ca_entries (remove_entry k key i c) = (ca_entries c)[i := (ca_entries c ! i)\<lparr>ce_released := True\<rparr>]"
    "ca_generation (remove_entry k key i c) = ca_generation c" "ca_active (remove_entry k key i c) = ca_active c"
    "ca_bytes (remove_entry k key i c) = ca_bytes c - weight (ca_entries c ! i)"
    "ca_revoked (remove_entry k key i c) =
       (if ce_released (ca_entries c ! i) \<or> \<not> ce_value (ca_entries c ! i) then ca_revoked c else i # ca_revoked c)"
    "ca_aliases (remove_entry k key i c) a =
       (if k = Media \<and> a = ce_alias (ca_entries c ! i) then ca_aliases c a - {key} else ca_aliases c a)"
  using assms by (auto simp: remove_entry_def Let_def release_entries release_bytes release_revoked) (auto simp: remove_media_alias_def set_entry_map_def entry_map_def)

lemma remove_entries_ok: "entries_ok c \<Longrightarrow> i < length (ca_entries c) \<Longrightarrow> entries_ok (remove_entry k key i c)"
  using release_entries_ok [of c i] by (simp add: entries_ok_def remove_facts release_entries release_revoked)

lemma remove_accounted: "accounted c \<Longrightarrow> i < length (ca_entries c) \<Longrightarrow> accounted (remove_entry k key i c)"
  using release_accounted [of c i] by (simp add: accounted_def remove_facts release_entries release_bytes)

lemma map_unique:
  assumes "maps_ok c" "(key, i) \<in> set (entry_map k c)" "(key, j) \<in> set (entry_map k c)"
  shows "j = i"
proof -
  have "distinct (map fst (entry_map k c))" using assms(1) by (simp add: maps_ok_def)
  then show ?thesis using assms(2,3) by (metis eq_key_imp_eq_value)
qed

lemma mapped_entry:
  "maps_ok c \<Longrightarrow> (x, j) \<in> set (entry_map l c) \<Longrightarrow>
   j < length (ca_entries c) \<and> ce_kind (ca_entries c ! j) = l \<and> ce_key (ca_entries c ! j) = x \<and> \<not> ce_released (ca_entries c ! j)"
  by (simp add: maps_ok_def)

lemma remove_mapped:
  assumes ok: "maps_ok c" and m: "(key, i) \<in> set (entry_map k c)"
  shows "(x, j) \<in> set (entry_map l (remove_entry k key i c)) \<longleftrightarrow> (x, j) \<in> set (entry_map l c) \<and> j \<noteq> i"
proof (cases "l = k")
  case True
  have "x \<noteq> key \<longleftrightarrow> j \<noteq> i" if "(x, j) \<in> set (entry_map k c)"
    using that map_unique [OF ok m] mapped_entry [OF ok m] mapped_entry [OF ok that] by blast
  then show ?thesis using True by (auto simp: remove_maps without_key_def)
next
  case False
  then have "j \<noteq> i" if "(x, j) \<in> set (entry_map l c)"
    using mapped_entry [OF ok m] mapped_entry [OF ok that] by blast
  then show ?thesis using False by (auto simp: remove_maps)
qed

lemma remove_alias_ok:
  assumes ok: "maps_ok c" and m: "(key, i) \<in> set (entry_map k c)"
  shows "x \<in> ca_aliases (remove_entry k key i c) a \<longleftrightarrow>
    (\<exists>j. (x, j) \<in> set (entry_map Media c) \<and> j \<noteq> i \<and> ce_alias (ca_entries c ! j) = a)"
proof -
  have i: "i < length (ca_entries c)" using mapped_entry [OF ok m] by simp
  have old: "x \<in> ca_aliases c a \<longleftrightarrow> (\<exists>j. (x, j) \<in> set (entry_map Media c) \<and> ce_alias (ca_entries c ! j) = a)"
    using ok by (simp add: maps_ok_def)
  show ?thesis
  proof (cases "k = Media \<and> a = ce_alias (ca_entries c ! i)")
    case True
    have "x \<noteq> key \<longleftrightarrow> j \<noteq> i" if "(x, j) \<in> set (entry_map Media c)" for j
      using map_unique [OF ok m, of j] mapped_entry [OF ok m] mapped_entry [OF ok that] that True by metis
    then show ?thesis using True old i by (auto simp: remove_facts)
  next
    case False
    have "j \<noteq> i" if "(x, j) \<in> set (entry_map Media c)" "ce_alias (ca_entries c ! j) = a" for j
      using that(2) mapped_entry [OF ok m] mapped_entry [OF ok that(1)] False by auto
    then show ?thesis using False old i by (auto simp: remove_facts)
  qed
qed

lemma remove_maps_ok:
  assumes ok: "maps_ok c" and m: "(key, i) \<in> set (entry_map k c)"
  shows "maps_ok (remove_entry k key i c)"
proof -
  let ?c = "remove_entry k key i c"
  note mapped = remove_mapped [OF ok m]
  have i: "i < length (ca_entries c)" using mapped_entry [OF ok m] by simp
  have "distinct (map fst (entry_map l ?c))" for l
    using ok by (auto simp: maps_ok_def remove_maps without_key_def distinct_map_filter_imp)
  moreover have "(x, j) \<in> set (entry_map l ?c) \<longleftrightarrow>
      j < length (ca_entries ?c) \<and> ce_kind (ca_entries ?c ! j) = l \<and> ce_key (ca_entries ?c ! j) = x \<and> \<not> ce_released (ca_entries ?c ! j)" for l x j
    using ok i unfolding mapped by (cases "j = i") (simp_all add: maps_ok_def remove_facts)
  moreover have "x \<in> ca_aliases ?c a \<longleftrightarrow> (\<exists>j. (x, j) \<in> set (entry_map Media ?c) \<and> ce_alias (ca_entries ?c ! j) = a)" for a x
    unfolding remove_alias_ok [OF ok m] mapped using i by (auto simp: remove_facts)
  ultimately show ?thesis by (simp add: maps_ok_def)
qed

lemma remove_core:
  assumes ok: "cache_core c" and m: "(key, i) \<in> set (entry_map k c)"
    and fine: "ce_loaded (ca_entries c ! i) \<or> ce_generation (ca_entries c ! i) < ca_generation c \<or> \<not> ca_active c"
  shows "cache_core (remove_entry k key i c)"
proof -
  have i: "i < length (ca_entries c)" using ok m by (auto simp: cache_core_def dest: released_not_mapped)
  have "stale_ok (remove_entry k key i c)"
    using ok fine i by (auto simp: stale_ok_def cache_core_def remove_facts dest!: set_update_subset_insert [THEN subsetD])
  then show ?thesis
    using ok i m by (simp add: cache_core_def remove_entries_ok remove_maps_ok remove_accounted)
qed

section \<open>Eviction\<close>

lemma evict_core:
  assumes "cache_core c" "evict_oldest_settled_entry p c = Some c'"
  shows "cache_core c' \<and> ca_bytes c' \<le> ca_bytes c \<and> cache_size c' < cache_size c \<and> ca_active c' = ca_active c \<and>
    ca_generation c' = ca_generation c \<and> length (ca_entries c') = length (ca_entries c)"
proof -
  obtain k key i where e: "(key, i) \<in> set (entry_map k c)" "ce_settled (ca_entries c ! i)" "c' = remove_entry k key i c"
    using assms(2) by (rule evicted)
  have i: "i < length (ca_entries c)" using e(1) assms(1) by (auto simp: cache_core_def dest: released_not_mapped)
  have "ce_loaded (ca_entries c ! i)"
    using e(2) assms(1) i by (auto simp: cache_core_def entries_ok_def)
  then show ?thesis using remove_core [OF assms(1) e(1)] evict_smaller [OF assms(2)] i by (simp add: e(3) remove_facts)
qed

lemma ensure_core:
  "cache_core c \<Longrightarrow> cache_core (snd (ensure_media_cache_slot c)) \<and> ca_bytes (snd (ensure_media_cache_slot c)) \<le> ca_bytes c \<and>
     cache_size (snd (ensure_media_cache_slot c)) \<le> cache_size c \<and> ca_active (snd (ensure_media_cache_slot c)) = ca_active c \<and>
     (fst (ensure_media_cache_slot c) \<longrightarrow> cache_size (snd (ensure_media_cache_slot c)) < max_media_cache_entries)"
proof (induction c rule: ensure_media_cache_slot.induct)
  case (1 c)
  show ?case
  proof (cases "cache_size c < max_media_cache_entries")
    case True
    then show ?thesis using 1(2) by (subst (1 2 3 4 5 6) ensure_media_cache_slot.simps) simp
  next
    case False
    show ?thesis
    proof (cases "evict_oldest_settled_entry None c")
      case None
      then show ?thesis using 1(2) False by (subst (1 2 3 4 5 6) ensure_media_cache_slot.simps) simp
    next
      case (Some c')
      have "ensure_media_cache_slot c = ensure_media_cache_slot c'"
        by (subst ensure_media_cache_slot.simps) (simp add: False Some)
      then show ?thesis using 1(1) [OF False Some] evict_core [OF 1(2) Some] by auto
    qed
  qed
qed

lemma evictable_none: "evict_oldest_settled_entry p c = None \<Longrightarrow> evictable p c = []"
proof -
  have some: "oldest c (Some b) xs \<noteq> None" for b xs by (induction xs arbitrary: b) auto
  assume "evict_oldest_settled_entry p c = None"
  then have "oldest c None (evictable p c) = None" by (auto simp: evict_oldest_settled_entry_def split: option.splits)
  then show "evictable p c = []" using some by (cases "evictable p c") auto
qed

text \<open>When nothing but the protected entry can be evicted, it is all that counts.\<close>

lemma protected_only:
  assumes ok: "cache_core c" and none: "evict_oldest_settled_entry (Some (k, key)) c = None"
  shows "ca_bytes c \<le> max_media_cache_bytes"
proof -
  have idle: "weight (ca_entries c ! j) = 0" if "j < length (ca_entries c)" "\<not> (ce_kind (ca_entries c ! j) = k \<and> ce_key (ca_entries c ! j) = key)" for j
  proof (rule ccontr)
    assume "weight (ca_entries c ! j) \<noteq> 0"
    then have s: "ce_settled (ca_entries c ! j)" "\<not> ce_released (ca_entries c ! j)" by (auto simp: weight_def split: if_splits)
    then have "(ce_key (ca_entries c ! j), j) \<in> set (entry_map (ce_kind (ca_entries c ! j)) c)"
      using ok that(1) by (simp add: cache_core_def maps_ok_def)
    then have "(ce_kind (ca_entries c ! j), ce_key (ca_entries c ! j), j) \<in> set (evictable (Some (k, key)) c)"
      using s that(2) by (cases "ce_kind (ca_entries c ! j)") (auto simp: evictable_def entry_map_def)
    then show False using evictable_none [OF none] by simp
  qed
  have bytes: "ca_bytes c = (\<Sum>j<length (ca_entries c). weight (ca_entries c ! j))"
    using ok by (simp add: cache_core_def accounted_def sum_list_sum_nth atLeast0LessThan)
  show ?thesis
  proof (cases "\<exists>i. (key, i) \<in> set (entry_map k c)")
    case False
    have "weight (ca_entries c ! j) = 0" if "j < length (ca_entries c)" for j
    proof (cases "ce_released (ca_entries c ! j)")
      case False
      then have "(ce_key (ca_entries c ! j), j) \<in> set (entry_map (ce_kind (ca_entries c ! j)) c)"
        using that ok by (simp add: cache_core_def maps_ok_def)
      then show ?thesis using \<open>\<not> (\<exists>i. (key, i) \<in> set (entry_map k c))\<close> idle [OF that] by auto
    qed (simp add: weight_def)
    then show ?thesis by (simp add: bytes)
  next
    case True
    then obtain i where i: "(key, i) \<in> set (entry_map k c)" "i < length (ca_entries c)"
      using ok by (auto simp: cache_core_def dest: released_not_mapped)
    have "weight (ca_entries c ! j) = 0" if "j < length (ca_entries c)" "j \<noteq> i" for j
    proof (cases "ce_kind (ca_entries c ! j) = k \<and> ce_key (ca_entries c ! j) = key \<and> \<not> ce_released (ca_entries c ! j)")
      case True
      then have "(key, j) \<in> set (entry_map k c)" using ok that(1) by (simp add: cache_core_def maps_ok_def)
      then show ?thesis using map_unique i(1) ok that(2) by (auto simp: cache_core_def)
    next
      case False
      show ?thesis
      proof (cases "ce_released (ca_entries c ! j)")
        case False
        then show ?thesis using idle [OF that(1)] \<open>\<not> (_ \<and> _ \<and> _)\<close> by blast
      qed (simp add: weight_def)
    qed
    then have "ca_bytes c = weight (ca_entries c ! i)"
      using i(2) by (simp add: bytes sum.remove [of _ i])
    then show ?thesis using ok i(2) by (auto simp: weight_def cache_core_def entries_ok_def)
  qed
qed

lemma evict_cache_core:
  "cache_core c \<Longrightarrow> cache_core (evict_media_cache p c) \<and> ca_bytes (evict_media_cache p c) \<le> max_media_cache_bytes \<and>
   cache_size (evict_media_cache p c) \<le> cache_size c"
proof (induction p c rule: evict_media_cache.induct)
  case (1 p c)
  show ?case
  proof (cases "max_media_cache_bytes < ca_bytes c \<or> max_media_cache_entries < cache_size c")
    case False
    then have "evict_media_cache p c = c" by (subst evict_media_cache.simps) simp
    then show ?thesis using 1 False by simp
  next
    case True
    show ?thesis
    proof (cases "evict_oldest_settled_entry (Some p) c")
      case None
      then have "evict_media_cache p c = c" by (subst evict_media_cache.simps) simp
      then show ?thesis using 1 None protected_only [of c "fst p" "snd p"] by simp
    next
      case (Some c')
      have e: "evict_media_cache p c = evict_media_cache p c'" by (subst evict_media_cache.simps) (simp add: True Some)
      then show ?thesis using 1(1) [OF True Some] evict_core [OF 1(2) Some] unfolding e by auto
    qed
  qed
qed

section \<open>Changing one entry\<close>

lemma changed_maps_ok:
  assumes "maps_ok c" "i < length (ca_entries c)" "ca_entries c' = (ca_entries c)[i := e']" "ca_aliases c' = ca_aliases c"
    "\<And>k. set (entry_map k c') = set (entry_map k c)" "\<And>k. distinct (map fst (entry_map k c'))"
    "ce_kind e' = ce_kind (ca_entries c ! i)" "ce_key e' = ce_key (ca_entries c ! i)" "ce_alias e' = ce_alias (ca_entries c ! i)"
    "ce_released e' = ce_released (ca_entries c ! i)"
  shows "maps_ok c'"
proof -
  have same: "ce_kind (ca_entries c' ! j) = ce_kind (ca_entries c ! j)" "ce_key (ca_entries c' ! j) = ce_key (ca_entries c ! j)"
      "ce_alias (ca_entries c' ! j) = ce_alias (ca_entries c ! j)" "ce_released (ca_entries c' ! j) = ce_released (ca_entries c ! j)" for j
    using assms by (cases "j = i"; simp)+
  have "length (ca_entries c') = length (ca_entries c)" using assms by simp
  then show ?thesis using assms(1) unfolding maps_ok_def same assms(4,5) by (simp add: assms(6))
qed

lemma changed_accounted:
  "accounted c \<Longrightarrow> i < length (ca_entries c) \<Longrightarrow> ca_entries c' = (ca_entries c)[i := e'] \<Longrightarrow> weight (ca_entries c ! i) = 0 \<Longrightarrow>
   ca_bytes c' = ca_bytes c + weight e' \<Longrightarrow> accounted c'"
  by (simp add: accounted_def sum_weight_update)

lemma changed_entries_ok:
  assumes "entries_ok c" "i < length (ca_entries c)" "ca_entries c' = (ca_entries c)[i := e']" "ca_generation c' = ca_generation c"
    "ce_loaded e'" "ce_generation e' = ce_generation (ca_entries c ! i)" "ce_bytes e' \<le> max_media_cache_bytes"
    "ce_released e' = ce_released (ca_entries c ! i)" "\<not> ce_value (ca_entries c ! i)"
    "ca_revoked c' = (if ce_released e' \<and> ce_value e' then i # ca_revoked c else ca_revoked c)"
  shows "entries_ok c'"
proof -
  have "\<forall>e \<in> set (ca_entries c'). (ce_settled e \<or> ce_value e \<longrightarrow> ce_loaded e) \<and> ce_generation e \<le> ca_generation c' \<and>
      ce_bytes e \<le> max_media_cache_bytes"
    using assms(1-7) by (auto simp: entries_ok_def dest!: set_update_subset_insert [THEN subsetD])
  moreover have "i \<notin> set (ca_revoked c)" using assms(1,9) by (simp add: entries_ok_def)
  then have "distinct (ca_revoked c')" using assms(1) by (simp add: assms(10) entries_ok_def)
  moreover have "set (ca_revoked c') = {j. j < length (ca_entries c') \<and> ce_released (ca_entries c' ! j) \<and> ce_value (ca_entries c' ! j)}"
    using assms(1,2,8,9) by (auto simp: assms(3,10) entries_ok_def nth_list_update)
  ultimately show ?thesis by (simp add: entries_ok_def)
qed

lemma changed_stale_ok:
  "stale_ok c \<Longrightarrow> ca_entries c' = (ca_entries c)[i := e'] \<Longrightarrow> ca_generation c' = ca_generation c \<Longrightarrow> ca_active c' = ca_active c \<Longrightarrow>
   ce_loaded e' \<Longrightarrow> stale_ok c'"
  by (auto simp: stale_ok_def dest!: set_update_subset_insert [THEN subsetD])

text \<open>The entry whose load ends.\<close>

lemma loaded_core:
  assumes ok: "cache_core c" and i: "i < length (ca_entries c)" and open_entry: "\<not> ce_loaded (ca_entries c ! i)"
    and c': "ca_entries c' = (ca_entries c)[i := (ca_entries c ! i)\<lparr>ce_loaded := True, ce_value := v, ce_settled := s, ce_bytes := n\<rparr>]"
      "ca_aliases c' = ca_aliases c" "\<And>k. entry_map k c' = entry_map k c" "ca_generation c' = ca_generation c" "ca_active c' = ca_active c"
    and n: "n \<le> max_media_cache_bytes"
    and bytes: "ca_bytes c' = ca_bytes c + (if s \<and> \<not> ce_released (ca_entries c ! i) then n else 0)"
    and revoked: "ca_revoked c' = (if ce_released (ca_entries c ! i) \<and> v then i # ca_revoked c else ca_revoked c)"
  shows "cache_core c'"
proof -
  let ?e' = "(ca_entries c ! i)\<lparr>ce_loaded := True, ce_value := v, ce_settled := s, ce_bytes := n\<rparr>"
  have idle: "\<not> ce_settled (ca_entries c ! i)" "\<not> ce_value (ca_entries c ! i)"
    using ok i open_entry by (auto simp: cache_core_def entries_ok_def)
  have parts: "entries_ok c" "maps_ok c" "accounted c" "stale_ok c" using ok by (simp_all add: cache_core_def)
  have "entries_ok c'"
    by (rule changed_entries_ok [OF parts(1) i c'(1) c'(4)]) (simp_all add: idle n revoked)
  moreover have "maps_ok c'"
    by (rule changed_maps_ok [OF parts(2) i c'(1) c'(2)]) (use parts(2) in \<open>simp_all add: c'(3) maps_ok_def\<close>)
  moreover have "accounted c'"
    by (rule changed_accounted [OF parts(3) i c'(1)]) (simp_all add: idle weight_def bytes)
  moreover have "stale_ok c'"
    by (rule changed_stale_ok [OF parts(4) c'(1) c'(4,5)]) simp
  ultimately show ?thesis by (simp add: cache_core_def)
qed

section \<open>The end of a load\<close>

lemma release_idle: "ce_released (ca_entries c ! i) \<Longrightarrow> release_entry i c = c"
  by (simp add: release_entry_def Let_def)

lemma own_key:
  assumes ok: "maps_ok c" and i: "i < length (ca_entries c)"
  shows "map_of (entry_map (ce_kind (ca_entries c ! i)) c) (ce_key (ca_entries c ! i)) = Some i \<longleftrightarrow> \<not> ce_released (ca_entries c ! i)"
proof -
  have "distinct (map fst (entry_map (ce_kind (ca_entries c ! i)) c))" using ok by (simp add: maps_ok_def)
  then have "map_of (entry_map (ce_kind (ca_entries c ! i)) c) (ce_key (ca_entries c ! i)) = Some i \<longleftrightarrow>
      (ce_key (ca_entries c ! i), i) \<in> set (entry_map (ce_kind (ca_entries c ! i)) c)"
    by (rule map_of_eq_Some_iff)
  then show ?thesis using ok i by (simp add: maps_ok_def)
qed

lemma remove_sizes:
  assumes "(key, i) \<in> set (entry_map k c)" "i < length (ca_entries c)"
  shows "cache_size (remove_entry k key i c) \<le> cache_size c" "ca_bytes (remove_entry k key i c) \<le> ca_bytes c"
  using without_key_length [OF assms(1)] assms(2) by (cases k; simp add: cache_size_maps remove_maps remove_facts)+

lemma drop_core:
  assumes ok: "cache_core c" and i: "i < length (ca_entries c)" and loaded: "ce_loaded (ca_entries c ! i)"
  shows "cache_core (drop_failed i c) \<and> cache_size (drop_failed i c) \<le> cache_size c \<and> ca_bytes (drop_failed i c) \<le> ca_bytes c"
proof -
  have maps: "maps_ok c" using ok by (simp add: cache_core_def)
  show ?thesis
  proof (cases "ce_released (ca_entries c ! i)")
    case True
    then show ?thesis using own_key [OF maps i] ok by (simp add: drop_failed_def Let_def release_idle)
  next
    case False
    then have m: "(ce_key (ca_entries c ! i), i) \<in> set (entry_map (ce_kind (ca_entries c ! i)) c)"
      using maps i by (simp add: maps_ok_def)
    have "drop_failed i c = remove_entry (ce_kind (ca_entries c ! i)) (ce_key (ca_entries c ! i)) i c"
      using False own_key [OF maps i] by (simp add: drop_failed_def Let_def)
    then show ?thesis using remove_core [OF ok m] loaded remove_sizes [OF m i] by simp
  qed
qed

lemma drop_released:
  "maps_ok c \<Longrightarrow> i < length (ca_entries c) \<Longrightarrow> ce_released (ca_entries c ! i) \<Longrightarrow> drop_failed i c = c"
  using own_key [of c i] by (simp add: drop_failed_def Let_def release_idle)

lemma core_okI: "cache_core c' \<Longrightarrow> cache_size c' \<le> cache_size c \<Longrightarrow> ca_bytes c' \<le> ca_bytes c \<Longrightarrow> cache_ok c \<Longrightarrow> cache_ok c'"
  by (simp add: cache_ok_def)

lemma upd_entries [simp]: "ca_entries (upd_entry i f c) = (ca_entries c)[i := f (ca_entries c ! i)]"
  by (simp add: upd_entry_def)

lemma cache_size_upd [simp]: "cache_size (upd_entry i f c) = cache_size c"
  by (simp add: cache_size_maps)

lemma fresh_value: "\<not> ce_settled e \<Longrightarrow> e\<lparr>ce_loaded := True, ce_value := v, ce_settled := False\<rparr> = e\<lparr>ce_loaded := True, ce_value := v\<rparr>"
  by (cases e) simp

lemma fresh_failure: "\<not> ce_value e \<Longrightarrow> e\<lparr>ce_loaded := True, ce_value := False\<rparr> = e\<lparr>ce_loaded := True\<rparr>"
  by (cases e) simp

lemma entry_idle:
  "cache_core c \<Longrightarrow> i < length (ca_entries c) \<Longrightarrow> \<not> ce_loaded (ca_entries c ! i) \<Longrightarrow>
   \<not> ce_settled (ca_entries c ! i) \<and> \<not> ce_value (ca_entries c ! i) \<and> ce_bytes (ca_entries c ! i) \<le> max_media_cache_bytes"
  by (auto simp: cache_core_def entries_ok_def)

lemma valued_core:
  assumes core: "cache_core c" and i: "i < length (ca_entries c)" and open_entry: "\<not> ce_loaded (ca_entries c ! i)"
    and c': "ca_entries c' = (ca_entries c)[i := (ca_entries c ! i)\<lparr>ce_loaded := True, ce_value := v\<rparr>]"
      "ca_aliases c' = ca_aliases c" "\<And>k. entry_map k c' = entry_map k c" "ca_generation c' = ca_generation c" "ca_active c' = ca_active c"
      "ca_bytes c' = ca_bytes c" "ca_revoked c' = (if ce_released (ca_entries c ! i) \<and> v then i # ca_revoked c else ca_revoked c)"
  shows "cache_core c'"
proof -
  note idle = entry_idle [OF core i open_entry]
  show ?thesis
    by (rule loaded_core [OF core i open_entry, where v = v and s = False and n = "ce_bytes (ca_entries c ! i)"])
      (simp_all add: fresh_value idle c')
qed

lemma failed_load_ok:
  assumes ok: "cache_ok c" and i: "i < length (ca_entries c)" and open_entry: "\<not> ce_loaded (ca_entries c ! i)"
  shows "cache_ok (drop_failed i (upd_entry i (\<lambda>e. e\<lparr>ce_loaded := True\<rparr>) c))"
proof -
  let ?c = "upd_entry i (\<lambda>e. e\<lparr>ce_loaded := True\<rparr>) c"
  have core: "cache_core c" using ok by (simp add: cache_ok_def)
  note idle = entry_idle [OF core i open_entry]
  have "cache_core ?c"
    by (rule valued_core [OF core i open_entry, where v = False]) (simp_all add: fresh_failure idle)
  then show ?thesis using drop_core [of ?c i] i ok core_okI [of "drop_failed i ?c" c] by simp
qed

text \<open>A load that ends in success: for an entry released meanwhile, for a stale request, and for a live one.\<close>

lemma released_load_ok:
  assumes ok: "cache_ok c" and i: "i < length (ca_entries c)" and open_entry: "\<not> ce_loaded (ca_entries c ! i)"
    and released: "ce_released (ca_entries c ! i)"
  shows "cache_ok (finish_load i (Some (n, url)) alive c)"
proof -
  let ?c = "upd_entry i (\<lambda>e. e\<lparr>ce_loaded := True, ce_value := url\<rparr>) c"
  let ?d = "if url then ?c\<lparr>ca_revoked := i # ca_revoked c\<rparr> else ?c"
  have core: "cache_core c" using ok by (simp add: cache_ok_def)
  have "maps_ok c" "stale_ok c" using core by (simp_all add: cache_core_def)
  have maps: "maps_ok ?c"
    by (rule changed_maps_ok [OF \<open>maps_ok c\<close> i, where e' = "(ca_entries c ! i)\<lparr>ce_loaded := True, ce_value := url\<rparr>"]) (use \<open>maps_ok c\<close> in \<open>simp_all add: maps_ok_def\<close>)
  have stale: "ce_generation (ca_entries c ! i) \<noteq> ca_generation c \<or> \<not> ca_active c"
    using \<open>stale_ok c\<close> i open_entry released by (fastforce simp: stale_ok_def)
  have "drop_failed i ?c = ?c" by (rule drop_released [OF maps]) (simp_all add: i released)
  then have f: "finish_load i (Some (n, url)) alive c = ?d"
    using i open_entry released stale by (auto simp: finish_load_def Let_def)
  have "entry_map k ?d = entry_map k c" for k by (cases k; simp add: entry_map_def upd_entry_def)
  then have "cache_core ?d"
    by (intro valued_core [OF core i open_entry, where v = url]) (simp_all add: released)
  moreover have "cache_size ?d = cache_size c" "ca_bytes ?d = ca_bytes c"
    using \<open>\<And>k. entry_map k ?d = entry_map k c\<close> by (simp_all add: cache_size_maps)
  ultimately show ?thesis using ok core_okI [of ?d c] f by simp
qed

lemma live_load_ok:
  assumes ok: "cache_ok c" and i: "i < length (ca_entries c)" and open_entry: "\<not> ce_loaded (ca_entries c ! i)"
    and live: "\<not> ce_released (ca_entries c ! i)" and n: "n \<le> max_media_cache_bytes"
  shows "cache_ok (finish_load i (Some (n, url)) alive c)"
proof -
  let ?c = "upd_entry i (\<lambda>e. e\<lparr>ce_loaded := True, ce_value := url\<rparr>) c"
  let ?s = "upd_entry i (\<lambda>e. e\<lparr>ce_settled := True\<rparr>) ?c"
  let ?d = "(upd_entry i (\<lambda>e. e\<lparr>ce_bytes := n\<rparr>) ?s)\<lparr>ca_bytes := ca_bytes c + n\<rparr>"
  have core: "cache_core c" using ok by (simp add: cache_ok_def)
  have valued: "cache_core ?c"
    by (rule valued_core [OF core i open_entry, where v = url]) (simp_all add: live)
  show ?thesis
  proof (cases "\<not> alive \<or> \<not> ca_active c \<or> ce_generation (ca_entries c ! i) \<noteq> ca_generation c")
    case True
    then have "finish_load i (Some (n, url)) alive c = drop_failed i ?c"
      using i open_entry live by (auto simp: finish_load_def Let_def)
    then show ?thesis using drop_core [OF valued, of i] i ok core_okI [of "drop_failed i ?c" c] by simp
  next
    case False
    have "maps_ok c" using core by (simp add: cache_core_def)
    then have "map_of (entry_map (ce_kind (ca_entries c ! i)) c) (ce_key (ca_entries c ! i)) = Some i"
      using own_key i live by simp
    then have f: "finish_load i (Some (n, url)) alive c = evict_media_cache (ce_kind (ca_entries c ! i), ce_key (ca_entries c ! i)) ?d"
      using False i open_entry live by (simp add: finish_load_def Let_def)
    have maps: "entry_map k ?d = entry_map k c" for k by (cases k; simp add: entry_map_def upd_entry_def)
    have "cache_core ?d"
      by (rule loaded_core [OF core i open_entry, where v = url and s = True and n = n])
        (simp_all add: maps i live n)
    then show ?thesis using evict_cache_core [of ?d] maps ok by (fastforce simp: f cache_ok_def cache_size_maps)
  qed
qed

lemma finish_load_ok:
  assumes ok: "cache_ok c" and n: "\<And>n url. result = Some (n, url) \<Longrightarrow> n \<le> max_media_cache_bytes"
  shows "cache_ok (finish_load i result alive c)"
proof (cases "i \<ge> length (ca_entries c) \<or> ce_loaded (ca_entries c ! i)")
  case True
  then show ?thesis using ok by (auto simp: finish_load_def Let_def)
next
  case False
  then have i: "i < length (ca_entries c)" "\<not> ce_loaded (ca_entries c ! i)" by auto
  show ?thesis
  proof (cases result)
    case None
    then show ?thesis using failed_load_ok [OF ok i] i by (simp add: finish_load_def Let_def)
  next
    case (Some r)
    then obtain m url where r: "result = Some (m, url)" by (cases r) simp
    show ?thesis
      using released_load_ok [OF ok i] live_load_ok [OF ok i] n [OF r] r by (cases "ce_released (ca_entries c ! i)") simp_all
  qed
qed

section \<open>Requests\<close>

lemma weight_touched: "weight (e\<lparr>ce_last_used := n\<rparr>) = weight e"
  by (simp add: weight_def)

lemma touch_core:
  assumes core: "cache_core c" and m: "(key, i) \<in> set (entry_map k c)"
  shows "cache_core (touch_cache_entry k key i c) \<and> cache_size (touch_cache_entry k key i c) \<le> cache_size c \<and>
    ca_bytes (touch_cache_entry k key i c) = ca_bytes c"
proof -
  let ?n = "ca_clock c + 1"
  let ?e' = "(ca_entries c ! i)\<lparr>ce_last_used := ?n\<rparr>"
  let ?c = "touch_cache_entry k key i c"
  have parts: "entries_ok c" "maps_ok c" "accounted c" "stale_ok c" using core by (simp_all add: cache_core_def)
  have i: "i < length (ca_entries c)" using mapped_entry [OF parts(2) m] by simp
  have es: "ca_entries ?c = (ca_entries c)[i := ?e']" by (simp add: touch_cache_entry_def Let_def)
  have map_k: "entry_map j ?c = (if j = k then without_key key (entry_map k c) @ [(key, i)] else entry_map j c)" for j
    by (cases j; cases k; simp add: touch_cache_entry_def Let_def entry_map_def upd_entry_def set_entry_map_def)
  have rest: "ca_aliases ?c = ca_aliases c" "ca_generation ?c = ca_generation c" "ca_active ?c = ca_active c"
      "ca_bytes ?c = ca_bytes c" "ca_revoked ?c = ca_revoked c"
    by (simp_all add: touch_cache_entry_def Let_def)
  have unique: "j = i" if "(key, j) \<in> set (entry_map k c)" for j by (rule map_unique [OF parts(2) m that])
  have "set (entry_map j ?c) = set (entry_map j c)" for j
    using m by (auto simp: map_k without_key_def dest: unique)
  moreover have "distinct (map fst (entry_map j ?c))" for j
    using parts(2) by (auto simp: map_k maps_ok_def without_key_def distinct_map_filter_imp)
  ultimately have "maps_ok ?c"
    by (intro changed_maps_ok [OF parts(2) i es rest(1)]) simp_all
  moreover have "entries_ok ?c"
    using parts(1) i by (auto simp: entries_ok_def es rest nth_list_update dest!: set_update_subset_insert [THEN subsetD])
  moreover have "accounted ?c"
    using parts(3) i elem_le_sum_list [of i "map weight (ca_entries c)"]
    by (simp add: accounted_def es rest sum_weight_update weight_touched)
  moreover have "stale_ok ?c"
    using parts(4) i by (auto simp: stale_ok_def es rest dest!: set_update_subset_insert [THEN subsetD])
  moreover have "cache_size ?c \<le> cache_size c"
    using without_key_length [OF m] map_k by (cases k) (simp_all add: cache_size_maps)
  ultimately show ?thesis by (simp add: cache_core_def rest)
qed

lemma ensure_maps:
  "set (entry_map k (snd (ensure_media_cache_slot c))) \<subseteq> set (entry_map k c)"
proof (induction c rule: ensure_media_cache_slot.induct)
  case (1 c)
  show ?case
  proof (cases "cache_size c < max_media_cache_entries")
    case False
    show ?thesis
    proof (cases "evict_oldest_settled_entry None c")
      case None
      then show ?thesis using False by (subst ensure_media_cache_slot.simps) simp
    next
      case (Some c')
      have e: "ensure_media_cache_slot c = ensure_media_cache_slot c'"
        by (subst ensure_media_cache_slot.simps) (simp add: False Some)
      obtain l key i where "c' = remove_entry l key i c" using Some by (rule evicted)
      then have "set (entry_map k c') \<subseteq> set (entry_map k c)" by (auto simp: remove_maps without_key_def)
      then show ?thesis using 1 [OF False Some] e by simp
    qed
  qed (subst ensure_media_cache_slot.simps, simp)
qed

lemma new_entry_core:
  assumes core: "cache_core c" and free: "\<forall>i. (key, i) \<notin> set (entry_map k c)"
    and e: "ce_kind e = k" "ce_key e = key" "ce_alias e = alias" "\<not> ce_released e" "\<not> ce_settled e" "\<not> ce_value e"
      "ce_generation e = ca_generation c" "ce_bytes e = 0"
    and c': "ca_entries c' = ca_entries c @ [e]"
      "\<And>j. entry_map j c' = (if j = k then entry_map k c @ [(key, length (ca_entries c))] else entry_map j c)"
      "ca_aliases c' = (if k = Media then (ca_aliases c)(alias := insert key (ca_aliases c alias)) else ca_aliases c)"
      "ca_generation c' = ca_generation c" "ca_active c' = ca_active c" "ca_bytes c' = ca_bytes c" "ca_revoked c' = ca_revoked c"
  shows "cache_core c'"
proof -
  have parts: "entries_ok c" "maps_ok c" "accounted c" "stale_ok c" using core by (simp_all add: cache_core_def)
  have "entries_ok c'" using parts(1) e by (auto simp: entries_ok_def c' nth_append less_Suc_eq)
  moreover have "accounted c'" using parts(3) e by (simp add: accounted_def c' weight_def)
  moreover have "stale_ok c'" using parts(4) e by (simp add: stale_ok_def c')
  moreover have "maps_ok c'"
  proof -
    have old: "j < length (ca_entries c)" if "(x, j) \<in> set (entry_map l c)" for x j l using mapped_entry [OF parts(2) that] by simp
    have "distinct (map fst (entry_map l c'))" for l
      using parts(2) free by (auto simp: c' maps_ok_def)
    moreover have "(x, j) \<in> set (entry_map l c') \<longleftrightarrow>
        j < length (ca_entries c') \<and> ce_kind (ca_entries c' ! j) = l \<and> ce_key (ca_entries c' ! j) = x \<and> \<not> ce_released (ca_entries c' ! j)" for l x j
    proof (cases "j < length (ca_entries c)")
      case True
      then show ?thesis using parts(2) by (auto simp: maps_ok_def c' nth_append)
    next
      case False
      then have "(x, j) \<notin> set (entry_map l c)" using old by blast
      then show ?thesis using False e by (auto simp: c' nth_append)
    qed
    moreover have "x \<in> ca_aliases c' a \<longleftrightarrow> (\<exists>j. (x, j) \<in> set (entry_map Media c') \<and> ce_alias (ca_entries c' ! j) = a)" for a x
    proof -
      have "x \<in> ca_aliases c a \<longleftrightarrow> (\<exists>j. (x, j) \<in> set (entry_map Media c) \<and> ce_alias (ca_entries c ! j) = a)"
        using parts(2) by (simp add: maps_ok_def)
      also have "\<dots> \<longleftrightarrow> (\<exists>j. (x, j) \<in> set (entry_map Media c) \<and> ce_alias (ca_entries c' ! j) = a)"
        using old by (auto simp: c' nth_append)
      finally show ?thesis using e by (auto simp: c')
    qed
    ultimately show ?thesis by (simp add: maps_ok_def)
  qed
  ultimately show ?thesis by (simp add: cache_core_def)
qed

lemma request_ok:
  assumes ok: "cache_ok c"
  shows "cache_ok (snd (request_entry k key alias c))"
proof (cases "map_of (entry_map k c) key")
  case (Some i)
  then have m: "(key, i) \<in> set (entry_map k c)" by (rule map_of_SomeD)
  show ?thesis
    using ok touch_core [OF _ m] core_okI [of "touch_cache_entry k key i c" c] Some by (simp add: request_entry_def cache_ok_def)
next
  case None
  obtain b d where e: "ensure_media_cache_slot c = (b, d)" by (cases "ensure_media_cache_slot c") simp
  have core: "cache_core d" and small: "ca_bytes d \<le> ca_bytes c" "cache_size d \<le> cache_size c" and slot: "b \<longrightarrow> cache_size d < max_media_cache_entries"
    using ensure_core [of c] ok e by (simp_all add: cache_ok_def)
  have "\<forall>i. (key, i) \<notin> set (entry_map k c)" using None by (auto dest: weak_map_of_SomeI)
  then have free: "\<forall>i. (key, i) \<notin> set (entry_map k d)" using ensure_maps [of k c] e by auto
  show ?thesis
  proof (cases b)
    case False
    then show ?thesis using None e core small ok by (simp add: request_entry_def cache_ok_def)
  next
    case True
    define i where "i = length (ca_entries d)"
    define e' where "e' = \<lparr>ce_kind = k, ce_key = key, ce_alias = alias, ce_bytes = 0,
        ce_last_used = ca_clock d + 1, ce_settled = False, ce_released = False, ce_loaded = False, ce_value = False,
        ce_generation = ca_generation d\<rparr>"
    define d' where "d' = set_entry_map k (entry_map k d @ [(key, i)]) (d\<lparr>ca_clock := ca_clock d + 1, ca_entries := ca_entries d @ [e']\<rparr>)"
    define d'' where "d'' = (if k = Media then add_media_alias alias key d' else d')"
    have r: "snd (request_entry k key alias c) = (if ca_active c then d'' else c)"
      using None e True by (cases k) (simp_all add: request_entry_def Let_def d''_def d'_def e'_def i_def entry_map_def)
    have maps: "entry_map j d'' = (if j = k then entry_map k d @ [(key, i)] else entry_map j d)" for j
      by (cases j; cases k; simp add: d''_def d'_def entry_map_def set_entry_map_def add_media_alias_def)
    have "cache_core d''"
      by (rule new_entry_core [OF core free, where e = e'])
        (simp_all add: e'_def maps i_def, simp_all add: d''_def d'_def e'_def add_media_alias_def)
    moreover have "cache_size d'' \<le> max_media_cache_entries"
      using slot True by (cases k) (simp_all add: cache_size_maps maps)
    moreover have "ca_bytes d'' \<le> max_media_cache_bytes" using small ok by (simp add: d''_def d'_def cache_ok_def)
    ultimately show ?thesis using ok r by (simp add: cache_ok_def)
  qed
qed

section \<open>Invalidation and stop\<close>

lemma remove_entries_ok_all:
  assumes "cache_core c" "distinct xs" "\<forall>(k, key, i) \<in> set xs. (key, i) \<in> set (entry_map k c)"
    "\<forall>e \<in> set (ca_entries c). ce_generation e < ca_generation c"
  shows "cache_core (remove_entries xs c) \<and> cache_size (remove_entries xs c) \<le> cache_size c \<and> ca_bytes (remove_entries xs c) \<le> ca_bytes c"
  using assms
proof (induction xs arbitrary: c)
  case Nil
  then show ?case by (simp add: remove_entries_def)
next
  case (Cons x xs)
  obtain k key i where x: "x = (k, key, i)" by (cases x)
  let ?c = "remove_entry k key i c"
  have maps: "maps_ok c" using Cons.prems(1) by (simp add: cache_core_def)
  have m: "(key, i) \<in> set (entry_map k c)" using Cons.prems(3) by (simp add: x)
  have i: "i < length (ca_entries c)" using mapped_entry [OF maps m] by simp
  have core: "cache_core ?c" by (rule remove_core [OF Cons.prems(1) m]) (use Cons.prems(4) i in simp)
  have "(key', j) \<in> set (entry_map l ?c)" if "(l, key', j) \<in> set xs" for l key' j
  proof -
    have m': "(key', j) \<in> set (entry_map l c)" using Cons.prems(3) that by auto
    have "j \<noteq> i" using mapped_entry [OF maps m] mapped_entry [OF maps m'] that Cons.prems(2) by (auto simp: x)
    then show ?thesis using m' by (simp add: remove_mapped [OF maps m])
  qed
  then have mapped: "\<forall>(l, key', j) \<in> set xs. (key', j) \<in> set (entry_map l ?c)" by auto
  have older: "\<forall>e \<in> set (ca_entries ?c). ce_generation e < ca_generation ?c"
    using Cons.prems(4) i by (auto simp: remove_facts dest!: set_update_subset_insert [THEN subsetD])
  have "distinct xs" using Cons.prems(2) by simp
  then have "cache_core (remove_entries xs ?c) \<and> cache_size (remove_entries xs ?c) \<le> cache_size ?c \<and>
      ca_bytes (remove_entries xs ?c) \<le> ca_bytes ?c"
    by (rule Cons.IH [OF core _ mapped older])
  moreover have "remove_entries (x # xs) c = remove_entries xs ?c" by (simp add: remove_entries_def x)
  ultimately show ?case using remove_sizes [OF m i] by simp
qed

lemma invalidate_ok:
  assumes ok: "cache_ok c"
  shows "cache_ok (invalidate_media alias c)"
proof -
  define d where "d = c\<lparr>ca_generation := ca_generation c + 1\<rparr>"
  define media where "media = map (\<lambda>(key, i). (Media, key, i)) (filter (\<lambda>(key, i). key \<in> ca_aliases c alias) (ca_media c))"
  define posters where "posters = map (\<lambda>(key, i). (Poster, key, i)) (filter (\<lambda>(key, i). ce_alias (ca_entries c ! i) = alias) (ca_posters c))"
  have core: "cache_core c" using ok by (simp add: cache_ok_def)
  have maps: "entry_map k d = entry_map k c" for k by (cases k; simp add: entry_map_def d_def)
  have rest: "ca_entries d = ca_entries c" "ca_aliases d = ca_aliases c" "ca_bytes d = ca_bytes c" "ca_active d = ca_active c"
      "ca_revoked d = ca_revoked c" "ca_generation d = ca_generation c + 1"
    by (simp_all add: d_def)
  have parts: "entries_ok c" "maps_ok c" "accounted c" "stale_ok c" using core by (simp_all add: cache_core_def)
  have old: "\<forall>e \<in> set (ca_entries d). ce_generation e < ca_generation d"
    using parts(1) by (auto simp: entries_ok_def rest)
  have "entries_ok d" using parts(1) by (auto simp: entries_ok_def rest)
  moreover have "maps_ok d" using parts(2) unfolding maps_ok_def maps rest .
  moreover have "accounted d" using parts(3) by (simp add: accounted_def rest)
  moreover have "stale_ok d" using old by (auto simp: stale_ok_def)
  ultimately have c: "cache_core d" by (simp add: cache_core_def)
  have size: "cache_size d = cache_size c" by (simp add: cache_size_maps maps)
  have "distinct (map fst (entry_map k c))" for k using core by (simp add: cache_core_def maps_ok_def)
  from this [of Media] this [of Poster] have "distinct (ca_media c)" "distinct (ca_posters c)"
    by (simp_all add: entry_map_def distinct_map)
  then have "distinct (media @ posters)" by (auto simp: media_def posters_def distinct_map inj_on_def)
  moreover have "\<forall>(k, key, i) \<in> set (media @ posters). (key, i) \<in> set (entry_map k d)"
    unfolding maps by (auto simp: media_def posters_def entry_map_def)
  moreover have "invalidate_media alias c = remove_entries (media @ posters) d"
    by (simp add: invalidate_media_def Let_def d_def media_def posters_def remove_entries_def)
  ultimately show ?thesis using remove_entries_ok_all [OF c _ _ old, of "media @ posters"] size ok by (simp add: cache_ok_def rest)
qed

lemma release_all:
  assumes "entries_ok c" "\<forall>(key, i) \<in> set ms. i < length (ca_entries c)"
  shows "entries_ok (fold (\<lambda>(_, i). release_entry i) ms c) \<and>
    length (ca_entries (fold (\<lambda>(_, i). release_entry i) ms c)) = length (ca_entries c) \<and>
    (\<forall>j < length (ca_entries c). ce_released (ca_entries c ! j) \<or> j \<in> snd ` set ms \<longrightarrow>
       ce_released (ca_entries (fold (\<lambda>(_, i). release_entry i) ms c) ! j))"
  using assms
proof (induction ms arbitrary: c)
  case (Cons m ms)
  obtain key i where m: "m = (key, i)" by (cases m)
  have i: "i < length (ca_entries c)" using Cons.prems(2) by (simp add: m)
  have "entries_ok (release_entry i c)" by (rule release_entries_ok [OF Cons.prems(1) i])
  moreover have "ce_released (ca_entries (release_entry i c) ! j)" if "ce_released (ca_entries c ! j) \<or> j = i" for j
    using that i by (cases "j = i") (simp_all add: release_entries)
  ultimately show ?case
    using Cons.IH [of "release_entry i c"] Cons.prems(2) by (auto simp: m)
qed simp

lemma stop_ok:
  assumes ok: "cache_ok c"
  shows "cache_ok (release_media_assets c)"
proof -
  let ?ms = "ca_media c @ ca_posters c"
  let ?r = "fold (\<lambda>(_, i). release_entry i) ?ms c"
  let ?c = "release_media_assets c"
  have maps: "maps_ok c" and es: "entries_ok c" using ok by (simp_all add: cache_ok_def cache_core_def)
  have "\<forall>(key, i) \<in> set ?ms. i < length (ca_entries c)"
    using mapped_entry [OF maps, of _ _ Media] mapped_entry [OF maps, of _ _ Poster] by (auto simp: entry_map_def)
  note all = release_all [OF es this]
  have released: "ce_released (ca_entries ?r ! j)" if j: "j < length (ca_entries c)" for j
  proof (cases "ce_released (ca_entries c ! j)")
    case True
    then show ?thesis using all j by simp
  next
    case False
    then have "(ce_key (ca_entries c ! j), j) \<in> set (entry_map (ce_kind (ca_entries c ! j)) c)"
      using maps j by (simp add: maps_ok_def)
    then have "j \<in> snd ` set ?ms" by (cases "ce_kind (ca_entries c ! j)") (force simp: entry_map_def)+
    then show ?thesis using all j by simp
  qed
  have c: "ca_entries ?c = ca_entries ?r" "ca_revoked ?c = ca_revoked ?r" "ca_generation ?c = ca_generation ?r" "ca_bytes ?c = 0"
      "ca_aliases ?c = (\<lambda>_. {})" "ca_active ?c = False" "entry_map k ?c = []" for k
    by (cases k; simp add: release_media_assets_def Let_def entry_map_def)+
  have gone: "\<forall>e \<in> set (ca_entries ?r). ce_released e" using released all by (auto simp: in_set_conv_nth)
  then have "map weight (ca_entries ?r) = map (\<lambda>_. 0) (ca_entries ?r)" by (simp add: weight_def)
  then have "accounted ?c" unfolding accounted_def c by simp
  moreover have "maps_ok ?c" using gone by (auto simp: maps_ok_def c)
  moreover have "entries_ok ?c" using all by (simp add: entries_ok_def c)
  ultimately show ?thesis by (simp add: cache_ok_def cache_core_def c stale_ok_def cache_size_maps)
qed

lemma start_ok: "cache_ok new_cache"
proof -
  have "entry_map k new_cache = []" for k by (cases k; simp add: entry_map_def new_cache_def)
  then show ?thesis
    by (simp add: cache_ok_def cache_core_def entries_ok_def maps_ok_def accounted_def stale_ok_def cache_size_maps)
      (simp add: new_cache_def)
qed

lemma reachable_cache_ok: "cache_reachable c \<Longrightarrow> cache_ok c"
proof (induction rule: cache_reachable.induct)
  case (step c c')
  from step(2,3) show ?case
    by cases (auto intro: request_ok finish_load_ok invalidate_ok stop_ok)
qed (rule start_ok)

section \<open>An example\<close>

text \<open>One asset of five bytes is requested and loaded; then its media is invalidated.\<close>

definition loaded_asset :: media_cache where
  "loaded_asset = finish_load 0 (Some (5, True)) True (snd (request_entry Media ''k'' ''a'' new_cache))"

definition invalidated_asset :: media_cache where
  "invalidated_asset = invalidate_media ''a'' loaded_asset"

lemma asset_examples_reachable: "cache_reachable loaded_asset" "cache_reachable invalidated_asset"
proof -
  have "cache_reachable (snd (request_entry Media ''k'' ''a'' new_cache))"
    by (rule cache_reachable.step [OF cache_reachable.start cache_step.request])
  then show "cache_reachable loaded_asset"
    unfolding loaded_asset_def by (rule cache_reachable.step [OF _ cache_step.finish]) (auto simp: max_media_cache_bytes_def)
  then show "cache_reachable invalidated_asset"
    unfolding invalidated_asset_def by (rule cache_reachable.step [OF _ cache_step.invalidate])
qed

lemmas cache_evaluation = request_entry_def finish_load_def invalidate_media_def remove_entries_def remove_entry_def release_entry_def
  ensure_media_cache_slot.simps evict_media_cache.simps new_cache_def cache_size_def entry_map_def set_entry_map_def upd_entry_def
  without_key_def add_media_alias_def remove_media_alias_def max_media_cache_entries_def max_media_cache_bytes_def Let_def

lemma loaded_asset_values:
  "ca_bytes loaded_asset = 5" "cache_size loaded_asset = 1" "ca_media loaded_asset = [(''k'', 0)]" "ca_revoked loaded_asset = []"
  by (simp_all add: loaded_asset_def cache_evaluation)

lemma invalidated_asset_values:
  "ca_revoked invalidated_asset = [0]" "ca_media invalidated_asset = []"
  by (simp_all add: invalidated_asset_def loaded_asset_def cache_evaluation)

section \<open>Properties\<close>

text \<open>C37: C1. At any time the cache holds at most 96 entries and accounts for at most 128 MiB, and what it
  accounts for is exactly the sum of the sizes of the entries it holds whose load has ended.
\<close>

theorem media_cache_bounded:
  assumes "cache_reachable c"
  shows "cache_size c \<le> max_media_cache_entries \<and> ca_bytes c \<le> max_media_cache_bytes \<and>
    ca_bytes c = (\<Sum>i | i < length (ca_entries c) \<and> ce_settled (ca_entries c ! i) \<and>
        (ce_key (ca_entries c ! i), i) \<in> set (entry_map (ce_kind (ca_entries c ! i)) c). ce_bytes (ca_entries c ! i))"
proof -
  have ok: "cache_ok c" by (rule reachable_cache_ok [OF assms])
  then have maps: "maps_ok c" and acc: "accounted c" by (simp_all add: cache_ok_def cache_core_def)
  let ?live = "\<lambda>i. ce_settled (ca_entries c ! i) \<and> \<not> ce_released (ca_entries c ! i)"
  have "{i. i < length (ca_entries c) \<and> ce_settled (ca_entries c ! i) \<and>
        (ce_key (ca_entries c ! i), i) \<in> set (entry_map (ce_kind (ca_entries c ! i)) c)} =
      {i \<in> {..<length (ca_entries c)}. ?live i}"
    using maps by (auto simp: maps_ok_def)
  moreover have "ca_bytes c = (\<Sum>i<length (ca_entries c). weight (ca_entries c ! i))"
    using acc by (simp add: accounted_def sum_list_sum_nth atLeast0LessThan)
  moreover have "\<dots> = (\<Sum>i \<in> {i \<in> {..<length (ca_entries c)}. ?live i}. ce_bytes (ca_entries c ! i))"
    by (simp add: sum.inter_filter [symmetric] weight_def)
  ultimately show ?thesis using ok by (simp add: cache_ok_def)
qed

text \<open>C38: C2. No object URL is revoked twice, and a URL is revoked exactly when a load has created it and the
  cache no longer holds its entry: none is revoked while it is served, and none is leaked.
\<close>

theorem urls_revoked_once:
  assumes "cache_reachable c"
  shows "distinct (ca_revoked c) \<and>
    (i \<in> set (ca_revoked c) \<longleftrightarrow> i < length (ca_entries c) \<and> ce_value (ca_entries c ! i) \<and>
       (\<nexists>k key. (key, i) \<in> set (entry_map k c)))"
proof -
  have "entries_ok c" "maps_ok c" using reachable_cache_ok [OF assms] by (simp_all add: cache_ok_def cache_core_def)
  then show ?thesis by (auto simp: entries_ok_def maps_ok_def)
qed

theorem media_cache_bounded_witness:
  "ca_bytes loaded_asset = 5 \<and> ca_bytes loaded_asset \<le> max_media_cache_bytes \<and> cache_size loaded_asset \<le> max_media_cache_entries"
  using media_cache_bounded [OF asset_examples_reachable(1)] loaded_asset_values(1) by simp

theorem urls_revoked_once_witness:
  "0 \<in> set (ca_revoked invalidated_asset) \<and> (\<nexists>k key. (key, 0) \<in> set (entry_map k invalidated_asset)) \<and> distinct (ca_revoked invalidated_asset)"
  using urls_revoked_once [OF asset_examples_reachable(2), of 0] invalidated_asset_values by simp

end
