(* ===== verification/Push_Journal.thy ===== *)
theory Push_Journal
  imports Effects Json_Roundtrip
begin

text \<open>
  lib/matrix/notifications.ts: the cleanup journal of closed-app notifications, in the local storage of
  the page. A registration with the gateway can be revoked with its management key only, so setup and
  cleanup write the key down before they use it. Every access to the storage and every call of the
  browser, the worker, the gateway or the homeserver is one action; what the outside answers, whether
  a write fails, and what \<open>randomBase64Url\<close> draws is read from \<open>pp_env\<close> at that action. Reading and
  removing items of the storage do not fail. Properties of a stored record that the format does not
  have are not carried over.
\<close>

section \<open>The page\<close>

record push_env =
  en_write_fails :: bool
  en_random :: string
  en_registration :: "string + bool"
  en_worker :: bool
  en_reply :: "string + jsval"
  en_digest :: "string + string"
  en_database :: "string + jsval option"
  en_call :: "string option"
  en_gateway :: "string + jsval"
  en_subscription :: "string + string option"
  en_unsubscribe :: "string + bool"

text \<open>
  \<open>pp_exposed\<close> holds the management keys that a setup has sent to the gateway, or that a cleanup has taken
  over from the database of an old worker, and whose deletion the gateway has not confirmed;
  \<open>pp_unsaved\<close> is set when a setup could write its keys down nowhere, which it reports.
\<close>

record push_page =
  pp_items :: "string \<Rightarrow> string option"
  pp_warned :: bool
  pp_exposed :: "string set"
  pp_unsaved :: bool
  pp_env :: push_env

type_synonym 'a page_prog = "(push_page, string, 'a) prog"

definition ls_get :: "string \<Rightarrow> string option page_prog" where
  "ls_get k = atom (\<lambda>w. (Inr (pp_items w k), w))"

definition ls_set :: "string \<Rightarrow> string \<Rightarrow> unit page_prog" where
  "ls_set k v = atom (\<lambda>w. if en_write_fails (pp_env w) then (Inl ''QuotaExceededError'', w)
     else (Inr (), w\<lparr>pp_items := (pp_items w)(k \<mapsto> v)\<rparr>))"

definition ls_remove :: "string \<Rightarrow> unit page_prog" where
  "ls_remove k = atom (\<lambda>w. (Inr (), w\<lparr>pp_items := (pp_items w)(k := None)\<rparr>))"

definition ask :: "(push_env \<Rightarrow> 'a) \<Rightarrow> 'a page_prog" where
  "ask sel = atom (\<lambda>w. (Inr (sel (pp_env w)), w))"

definition ask_sum :: "(push_env \<Rightarrow> string + 'a) \<Rightarrow> 'a page_prog" where
  "ask_sum sel = atom (\<lambda>w. (sel (pp_env w), w))"

definition call_browser :: "unit page_prog" where
  "call_browser = atom (\<lambda>w. (case en_call (pp_env w) of None \<Rightarrow> Inr () | Some e \<Rightarrow> Inl e, w))"

definition legacy_push_key_storage :: string where "legacy_push_key_storage = ''sub-etha-push-key''"
definition push_delivery_key_storage :: string where "push_delivery_key_storage = ''sub-etha-push-delivery-key''"
definition push_management_key_storage :: string where "push_management_key_storage = ''sub-etha-push-management-key''"
definition push_generation_storage :: string where "push_generation_storage = ''sub-etha-push-generation''"
definition push_endpoint_storage :: string where "push_endpoint_storage = ''sub-etha-push-endpoint''"
definition push_cleanup_storage :: string where "push_cleanup_storage = ''sub-etha-push-cleanup-v1''"
definition push_fallback_cleanup_storage :: string where "push_fallback_cleanup_storage = ''sub-etha-push-fallback-cleanup-v1''"
definition push_cleanup_intent_storage :: string where "push_cleanup_intent_storage = ''sub-etha-push-cleanup-intent-v1''"
definition abandoned_warning_storage :: string where "abandoned_warning_storage = ''sub-etha-matrix-pusher-abandoned-warning-v1''"
definition push_lifecycle_epoch_storage :: string where "push_lifecycle_epoch_storage = ''sub-etha-push-lifecycle-epoch''"

section \<open>Records and their text\<close>

record push_credentials =
  cr_delivery :: string
  cr_management :: string
  cr_generation :: string
  cr_legacy :: bool

record cleanup_target =
  ct_delivery :: string
  ct_management :: string
  ct_gateway_done :: bool
  ct_pusher_done :: bool

record pending_cleanup =
  pc_id :: string
  pc_generation :: "string option"
  pc_delivery :: "string option"
  pc_management :: "string option"
  pc_endpoint :: "string option"
  pc_gateway_done :: bool
  pc_pusher_done :: bool
  pc_abandon :: bool
  pc_subscription_done :: bool
  pc_worker_done :: bool
  pc_notifications_done :: bool
  pc_badge_done :: bool
  pc_targets :: "cleanup_target list option"

record fallback_target =
  ft_delivery :: string
  ft_management :: string
  ft_generation :: string
  ft_endpoint :: string
  ft_worker :: bool

text \<open>\<^verbatim>\<open>Boolean(s)\<close> of a string or null, and \<^verbatim>\<open>a ?? b\<close>.\<close>

definition filled :: "string option \<Rightarrow> bool" where
  "filled s \<longleftrightarrow> s \<noteq> None \<and> s \<noteq> Some []"

definition or_null :: "'a option \<Rightarrow> 'a option \<Rightarrow> 'a option" where
  "or_null a b = (case a of Some x \<Rightarrow> Some x | None \<Rightarrow> b)"

definition targets_of :: "pending_cleanup \<Rightarrow> cleanup_target list" where
  "targets_of c = (case pc_targets c of None \<Rightarrow> [] | Some ts \<Rightarrow> ts)"

definition js_string_or_null :: "string option \<Rightarrow> jsval" where
  "js_string_or_null s = (case s of None \<Rightarrow> JNull | Some x \<Rightarrow> JStr x)"

definition target_js :: "cleanup_target \<Rightarrow> jsval" where
  "target_js t = JObj [(''deliveryKey'', JStr (ct_delivery t)), (''managementKey'', JStr (ct_management t)),
     (''gatewayDone'', JBool (ct_gateway_done t)), (''pusherDone'', JBool (ct_pusher_done t))]"

definition journal_js :: "pending_cleanup \<Rightarrow> jsval" where
  "journal_js c = JObj ([(''version'', js_int 1), (''cleanupId'', JStr (pc_id c)),
     (''generation'', js_string_or_null (pc_generation c)), (''deliveryKey'', js_string_or_null (pc_delivery c)),
     (''managementKey'', js_string_or_null (pc_management c)), (''endpoint'', js_string_or_null (pc_endpoint c)),
     (''gatewayDone'', JBool (pc_gateway_done c)), (''pusherDone'', JBool (pc_pusher_done c)),
     (''allowPusherAbandonment'', JBool (pc_abandon c)), (''subscriptionDone'', JBool (pc_subscription_done c)),
     (''workerDone'', JBool (pc_worker_done c)), (''notificationsDone'', JBool (pc_notifications_done c)),
     (''badgeDone'', JBool (pc_badge_done c))] @
     (case pc_targets c of None \<Rightarrow> [] | Some ts \<Rightarrow> [(''additionalTargets'', js_array (map target_js ts))]))"

definition fallback_js :: "fallback_target list \<Rightarrow> jsval" where
  "fallback_js ts = JObj [(''version'', js_int 1), (''targets'', js_array (map (\<lambda>t.
     JObj [(''deliveryKey'', JStr (ft_delivery t)), (''managementKey'', JStr (ft_management t)),
       (''generation'', JStr (ft_generation t)), (''endpoint'', JStr (ft_endpoint t)),
       (''workerMayBeConfigured'', JBool (ft_worker t))]) ts))]"

definition is_bool :: "jsval \<Rightarrow> bool" where
  "is_bool v = (case v of JBool b \<Rightarrow> True | _ \<Rightarrow> False)"

definition bool_of :: "jsval \<Rightarrow> bool" where
  "bool_of v = (case v of JBool b \<Rightarrow> b | _ \<Rightarrow> False)"

definition json_str_of :: "jsval \<Rightarrow> string option" where
  "json_str_of v = (case v of JStr s \<Rightarrow> Some s | _ \<Rightarrow> None)"

definition json_text_of :: "jsval \<Rightarrow> string" where
  "json_text_of v = (case v of JStr s \<Rightarrow> s | _ \<Rightarrow> [])"

definition valid_target :: "jsval \<Rightarrow> bool" where
  "valid_target t \<longleftrightarrow> (is_object t \<or> is_array t) \<and> is_str (js_opt ''deliveryKey'' t) \<and> is_str (js_opt ''managementKey'' t) \<and>
     is_bool (js_opt ''gatewayDone'' t) \<and> (js_opt ''pusherDone'' t = JUndef \<or> is_bool (js_opt ''pusherDone'' t))"

definition valid_cleanup :: "jsval \<Rightarrow> bool" where
  "valid_cleanup v \<longleftrightarrow>
     (is_object v \<or> is_array v) \<and> js_opt ''version'' v = js_int 1 \<and> is_str (js_opt ''cleanupId'' v) \<and>
     (js_opt ''generation'' v = JNull \<or> is_str (js_opt ''generation'' v)) \<and>
     (js_opt ''deliveryKey'' v = JNull \<or> is_str (js_opt ''deliveryKey'' v)) \<and>
     (js_opt ''managementKey'' v = JNull \<or> is_str (js_opt ''managementKey'' v)) \<and>
     (js_opt ''endpoint'' v = JNull \<or> is_str (js_opt ''endpoint'' v)) \<and>
     is_bool (js_opt ''gatewayDone'' v) \<and>
     (js_opt ''pusherDone'' v = JUndef \<or> is_bool (js_opt ''pusherDone'' v)) \<and>
     (js_opt ''allowPusherAbandonment'' v = JUndef \<or> is_bool (js_opt ''allowPusherAbandonment'' v)) \<and>
     is_bool (js_opt ''subscriptionDone'' v) \<and> is_bool (js_opt ''workerDone'' v) \<and>
     is_bool (js_opt ''notificationsDone'' v) \<and> is_bool (js_opt ''badgeDone'' v) \<and>
     (js_opt ''additionalTargets'' v = JUndef \<or>
        (is_array (js_opt ''additionalTargets'' v) \<and> list_all valid_target (array_items (js_opt ''additionalTargets'' v))))"

definition decode_target :: "jsval \<Rightarrow> cleanup_target" where
  "decode_target t = \<lparr>ct_delivery = json_text_of (js_opt ''deliveryKey'' t), ct_management = json_text_of (js_opt ''managementKey'' t),
     ct_gateway_done = bool_of (js_opt ''gatewayDone'' t), ct_pusher_done = bool_of (js_opt ''pusherDone'' t)\<rparr>"

definition decode_cleanup :: "jsval \<Rightarrow> pending_cleanup" where
  "decode_cleanup v = \<lparr>pc_id = json_text_of (js_opt ''cleanupId'' v), pc_generation = json_str_of (js_opt ''generation'' v),
     pc_delivery = json_str_of (js_opt ''deliveryKey'' v), pc_management = json_str_of (js_opt ''managementKey'' v),
     pc_endpoint = json_str_of (js_opt ''endpoint'' v), pc_gateway_done = bool_of (js_opt ''gatewayDone'' v),
     pc_pusher_done = (if js_opt ''pusherDone'' v = JUndef then \<not> filled (json_str_of (js_opt ''deliveryKey'' v)) else bool_of (js_opt ''pusherDone'' v)),
     pc_abandon = bool_of (js_opt ''allowPusherAbandonment'' v), pc_subscription_done = bool_of (js_opt ''subscriptionDone'' v),
     pc_worker_done = bool_of (js_opt ''workerDone'' v), pc_notifications_done = bool_of (js_opt ''notificationsDone'' v),
     pc_badge_done = bool_of (js_opt ''badgeDone'' v),
     pc_targets = (if js_opt ''additionalTargets'' v = JUndef then None
                   else Some (map decode_target (array_items (js_opt ''additionalTargets'' v))))\<rparr>"

definition damaged_cleanup :: string where
  "damaged_cleanup = ''The saved notification cleanup record is damaged. Clear this site's data.''"

definition damaged_fallback :: string where
  "damaged_fallback = ''The fallback notification cleanup record is damaged. Clear this site's data.''"

definition pending_of :: "(string \<Rightarrow> string option) \<Rightarrow> string + pending_cleanup option" where
  "pending_of items =
     (case items push_cleanup_storage of
        None \<Rightarrow> Inr None
      | Some s \<Rightarrow> if s = [] then Inr None
                  else case json_parse s of
                    None \<Rightarrow> Inl damaged_cleanup
                  | Some v \<Rightarrow> if valid_cleanup v then Inr (Some (decode_cleanup v)) else Inl damaged_cleanup)"

definition read_pending_push_cleanup :: "pending_cleanup option page_prog" where
  "read_pending_push_cleanup = atom (\<lambda>w. (pending_of (pp_items w), w))"

definition persist_pending_push_cleanup :: "pending_cleanup \<Rightarrow> unit page_prog" where
  "persist_pending_push_cleanup c = ls_set push_cleanup_storage (json_string (journal_js c))"

definition valid_fallback_target :: "jsval \<Rightarrow> bool" where
  "valid_fallback_target t \<longleftrightarrow> truthy t \<and> is_str (js_opt ''deliveryKey'' t) \<and> is_str (js_opt ''managementKey'' t) \<and>
     is_str (js_opt ''generation'' t) \<and> is_str (js_opt ''endpoint'' t) \<and> is_bool (js_opt ''workerMayBeConfigured'' t)"

definition decode_fallback_target :: "jsval \<Rightarrow> fallback_target" where
  "decode_fallback_target t = \<lparr>ft_delivery = json_text_of (js_opt ''deliveryKey'' t), ft_management = json_text_of (js_opt ''managementKey'' t),
     ft_generation = json_text_of (js_opt ''generation'' t), ft_endpoint = json_text_of (js_opt ''endpoint'' t),
     ft_worker = bool_of (js_opt ''workerMayBeConfigured'' t)\<rparr>"

text \<open>The list of targets; the empty list when there is no record, which no stored record has.\<close>

definition fallback_of :: "(string \<Rightarrow> string option) \<Rightarrow> string + fallback_target list" where
  "fallback_of items =
     (case items push_fallback_cleanup_storage of
        None \<Rightarrow> Inr []
      | Some s \<Rightarrow> if s = [] then Inr []
                  else case json_parse s of
                    None \<Rightarrow> Inl damaged_fallback
                  | Some v \<Rightarrow>
                      let ts = js_opt ''targets'' v in
                      if js_opt ''version'' v = js_int 1 \<and> is_array ts \<and> array_items ts \<noteq> [] \<and> list_all valid_fallback_target (array_items ts)
                      then Inr (map decode_fallback_target (array_items ts)) else Inl damaged_fallback)"

definition read_fallback_push_cleanup :: "fallback_target list page_prog" where
  "read_fallback_push_cleanup = atom (\<lambda>w. (fallback_of (pp_items w), w))"

section \<open>What was written reads back\<close>

lemma string_or_null [simp]:
  "plain (js_string_or_null s)" "json_str_of (js_string_or_null s) = s" "js_string_or_null s = JNull \<or> is_str (js_string_or_null s)"
  "js_string_or_null s \<noteq> JUndef"
  by (cases s; simp add: js_string_or_null_def json_str_of_def)+

lemma plain_array [simp]: "plain (js_array xs) \<longleftrightarrow> list_all plain xs"
  by (simp add: js_array_def) (induction xs; simp)

lemma js_array_defined [simp]: "js_array xs \<noteq> JUndef"
  by (simp add: js_array_def)

lemma cleanup_plain: "plain (journal_js c)"
  by (cases "pc_targets c") (simp_all add: journal_js_def js_int_def list_all_iff target_js_def)

lemma target_reads: "valid_target (target_js t)" "decode_target (target_js t) = t"
  by (simp_all add: valid_target_def decode_target_def target_js_def is_object_def is_bool_def json_text_of_def bool_of_def)

lemma cleanup_reads: "valid_cleanup (journal_js c)" "decode_cleanup (journal_js c) = c"
  by (cases "pc_targets c";
      simp add: valid_cleanup_def decode_cleanup_def journal_js_def is_object_def is_bool_def json_text_of_def bool_of_def
        target_reads list_all_iff comp_def)+

lemma json_string_object: "json_string (JObj ps) \<noteq> []"
  by simp

lemma pending_written: "pending_of (items(push_cleanup_storage \<mapsto> json_string (journal_js c))) = Inr (Some c)"
proof -
  have "json_string (journal_js c) \<noteq> []" by (simp add: journal_js_def)
  then show ?thesis by (simp add: pending_of_def json_parse_printed [OF cleanup_plain] cleanup_reads)
qed

lemma fallback_plain: "plain (fallback_js ts)"
  by (simp add: fallback_js_def js_int_def list_all_iff)

lemma fallback_written:
  assumes "ts \<noteq> []"
  shows "fallback_of (items(push_fallback_cleanup_storage \<mapsto> json_string (fallback_js ts))) = Inr ts"
proof -
  have "json_string (fallback_js ts) \<noteq> []" by (simp add: fallback_js_def)
  moreover have "map (decode_fallback_target \<circ> (\<lambda>t.
     JObj [(''deliveryKey'', JStr (ft_delivery t)), (''managementKey'', JStr (ft_management t)),
       (''generation'', JStr (ft_generation t)), (''endpoint'', JStr (ft_endpoint t)),
       (''workerMayBeConfigured'', JBool (ft_worker t))])) ts = ts"
    by (rule map_idI) (simp add: decode_fallback_target_def json_text_of_def bool_of_def)
  ultimately show ?thesis
    using assms json_parse_printed [OF fallback_plain [of ts]]
    by (simp add: fallback_of_def Let_def) (simp add: fallback_js_def list_all_iff valid_fallback_target_def is_bool_def truthy_def)
qed

end
