(* ===== verification/Push_Cleanup.thy ===== *)
theory Push_Cleanup
  imports Push_Journal
begin

text \<open>
  lib/matrix/notifications.ts, continued: the credentials of an enrollment, the start of a cleanup, the
  journal entry of a setup, and the whole cleanup with its retries. The five parts of the cleanup that
  run at once (worker, notifications, badge, gateway, pusher) each change flags of their own; they are
  given one after the other, which fixes the order of their error messages only.
\<close>

section \<open>Credentials\<close>

definition read_push_credentials :: "bool \<Rightarrow> push_credentials option page_prog" where
  "read_push_credentials create =
     bindP (ls_get push_delivery_key_storage) (\<lambda>d.
     bindP (ls_get legacy_push_key_storage) (\<lambda>l.
     bindP (ls_get push_management_key_storage) (\<lambda>m.
     bindP (ls_get push_generation_storage) (\<lambda>g.
       let d = or_null d l in
       if (\<not> filled d \<or> \<not> filled m) \<and> \<not> create then Ret None
       else bindP (case d of Some x \<Rightarrow> Ret x | None \<Rightarrow> ask en_random) (\<lambda>delivery.
            bindP (case m of Some x \<Rightarrow> Ret x | None \<Rightarrow> ask en_random) (\<lambda>management.
            bindP (case or_null g m of Some x \<Rightarrow> Ret x | None \<Rightarrow> ask en_random) (\<lambda>generation.
              Ret (Some \<lparr>cr_delivery = delivery, cr_management = management, cr_generation = generation,
                cr_legacy = (filled m \<and> (g = None \<or> g = m))\<rparr>))))))))"

definition persist_push_credentials :: "push_credentials \<Rightarrow> string \<Rightarrow> unit page_prog" where
  "persist_push_credentials c endpoint =
     bindP (ls_set push_delivery_key_storage (cr_delivery c)) (\<lambda>_.
     bindP (ls_set push_management_key_storage (cr_management c)) (\<lambda>_.
     bindP (ls_set push_generation_storage (cr_generation c)) (\<lambda>_.
     bindP (ls_set push_endpoint_storage endpoint) (\<lambda>_.
       ls_remove legacy_push_key_storage))))"

definition clear_push_credentials :: "string option \<Rightarrow> string option \<Rightarrow> string option \<Rightarrow> unit page_prog" where
  "clear_push_credentials generation management delivery =
     bindP (ls_get push_generation_storage) (\<lambda>stored.
     bindP (ls_get push_management_key_storage) (\<lambda>m.
     bindP (ls_get push_delivery_key_storage) (\<lambda>d.
       if filled generation \<and> stored \<noteq> generation \<and>
          \<not> ((stored = None \<or> stored = management) \<and> filled management \<and> filled delivery \<and> m = management \<and> d = delivery)
       then Ret ()
       else bindP (ls_remove push_delivery_key_storage) (\<lambda>_.
            bindP (ls_remove push_management_key_storage) (\<lambda>_.
            bindP (ls_remove push_generation_storage) (\<lambda>_.
            bindP (ls_remove push_endpoint_storage) (\<lambda>_.
              ls_remove legacy_push_key_storage)))))))"

section \<open>The fallback record\<close>

fun note_worker :: "string \<Rightarrow> bool \<Rightarrow> fallback_target list \<Rightarrow> fallback_target list" where
  "note_worker m b [] = []"
| "note_worker m b (t # ts) =
     (if ft_management t = m then t\<lparr>ft_worker := ft_worker t \<or> b\<rparr> # ts else t # note_worker m b ts)"

definition persist_fallback_push_cleanup_target :: "push_credentials \<Rightarrow> string \<Rightarrow> bool \<Rightarrow> bool page_prog" where
  "persist_fallback_push_cleanup_target c endpoint worker =
     catchP
       (bindP read_fallback_push_cleanup (\<lambda>ts.
        bindP (ls_set push_fallback_cleanup_storage (json_string (fallback_js
            (if cr_management c \<in> ft_management ` set ts then note_worker (cr_management c) worker ts
             else ts @ [\<lparr>ft_delivery = cr_delivery c, ft_management = cr_management c, ft_generation = cr_generation c,
                         ft_endpoint = endpoint, ft_worker = worker\<rparr>])))) (\<lambda>_.
          Ret True)))
       (\<lambda>_. Ret False)"

definition new_target :: "string \<Rightarrow> string \<Rightarrow> cleanup_target" where
  "new_target delivery management = \<lparr>ct_delivery = delivery, ct_management = management, ct_gateway_done = False, ct_pusher_done = False\<rparr>"

definition known_management :: "pending_cleanup \<Rightarrow> string \<Rightarrow> bool" where
  "known_management c m \<longleftrightarrow> pc_management c = Some m \<or> m \<in> ct_management ` set (targets_of c)"

definition add_target :: "string \<Rightarrow> string \<Rightarrow> pending_cleanup \<Rightarrow> pending_cleanup" where
  "add_target delivery management c =
     (if known_management c management then c else c\<lparr>pc_targets := Some (targets_of c @ [new_target delivery management])\<rparr>)"

definition merge_fallback_push_cleanup :: "fallback_target list \<Rightarrow> pending_cleanup \<Rightarrow> pending_cleanup" where
  "merge_fallback_push_cleanup ts c =
     (fold (\<lambda>t. add_target (ft_delivery t) (ft_management t)) ts c)\<lparr>pc_subscription_done := False\<rparr>"

section \<open>The start of a cleanup\<close>

definition begin_local_push_cleanup :: "pending_cleanup page_prog" where
  "begin_local_push_cleanup =
     bindP (ask en_random) (\<lambda>epoch.
     bindP (ls_set push_lifecycle_epoch_storage epoch) (\<lambda>_.
     bindP read_pending_push_cleanup (\<lambda>pending.
     bindP read_fallback_push_cleanup (\<lambda>fallback.
       case pending of
         Some p \<Rightarrow>
           (let p = (if fallback = [] then p else merge_fallback_push_cleanup fallback p)
            in bindP (clear_push_credentials (pc_generation p) (pc_management p) (pc_delivery p)) (\<lambda>_. Ret p))
       | None \<Rightarrow>
           (case fallback of
              t # ts \<Rightarrow>
                bindP (ask en_random) (\<lambda>cid.
                  let c = \<lparr>pc_id = cid, pc_generation = Some (ft_generation t), pc_delivery = Some (ft_delivery t),
                      pc_management = Some (ft_management t), pc_endpoint = Some (ft_endpoint t), pc_gateway_done = False,
                      pc_pusher_done = False, pc_abandon = False, pc_subscription_done = False, pc_worker_done = (\<not> ft_worker t),
                      pc_notifications_done = False, pc_badge_done = False,
                      pc_targets = Some (map (\<lambda>t. new_target (ft_delivery t) (ft_management t)) ts)\<rparr>
                  in bindP (catchP (persist_pending_push_cleanup c) (\<lambda>_. Ret ())) (\<lambda>_.
                     bindP (clear_push_credentials (pc_generation c) (pc_management c) (pc_delivery c)) (\<lambda>_.
                       Ret c)))
            | [] \<Rightarrow>
                bindP (read_push_credentials False) (\<lambda>credentials.
                bindP (ls_get push_delivery_key_storage) (\<lambda>d.
                bindP (ls_get legacy_push_key_storage) (\<lambda>l.
                bindP (ls_get push_management_key_storage) (\<lambda>m.
                bindP (ls_get push_generation_storage) (\<lambda>g.
                bindP (ls_get push_endpoint_storage) (\<lambda>endpoint.
                bindP (ask en_random) (\<lambda>cid.
                  let delivery = or_null (map_option cr_delivery credentials) (or_null d l);
                      management = or_null (map_option cr_management credentials) m;
                      generation = or_null (map_option cr_generation credentials) (or_null g management);
                      c = \<lparr>pc_id = cid, pc_generation = generation, pc_delivery = delivery, pc_management = management,
                        pc_endpoint = endpoint, pc_gateway_done = (\<not> filled management), pc_pusher_done = (\<not> filled delivery),
                        pc_abandon = False, pc_subscription_done = False, pc_worker_done = False,
                        pc_notifications_done = False, pc_badge_done = False, pc_targets = None\<rparr>
                  in bindP (persist_pending_push_cleanup c) (\<lambda>_.
                     bindP (clear_push_credentials (pc_generation c) (pc_management c) (pc_delivery c)) (\<lambda>_.
                       Ret c))))))))))))))"

definition push_lifecycle_epoch :: "string page_prog" where
  "push_lifecycle_epoch =
     bindP (ls_get push_lifecycle_epoch_storage) (\<lambda>stored.
       if filled stored then Ret (the stored)
       else bindP (ask en_random) (\<lambda>created.
            bindP (ls_set push_lifecycle_epoch_storage created) (\<lambda>_. Ret created)))"

section \<open>The journal entry of a setup\<close>

datatype queue_result = Primary | Fallback | NoRecord

definition setup_cleanup :: "string \<Rightarrow> push_credentials \<Rightarrow> string \<Rightarrow> bool \<Rightarrow> pending_cleanup" where
  "setup_cleanup cid c endpoint browser_done = \<lparr>pc_id = cid, pc_generation = Some (cr_generation c), pc_delivery = Some (cr_delivery c),
     pc_management = Some (cr_management c), pc_endpoint = Some endpoint, pc_gateway_done = False, pc_pusher_done = False,
     pc_abandon = False, pc_subscription_done = browser_done, pc_worker_done = browser_done,
     pc_notifications_done = browser_done, pc_badge_done = browser_done, pc_targets = None\<rparr>"

definition queue_push_setup_cleanup :: "push_credentials \<Rightarrow> string \<Rightarrow> bool \<Rightarrow> string \<Rightarrow> queue_result page_prog" where
  "queue_push_setup_cleanup c endpoint worker epoch =
     catchP
       (bindP read_pending_push_cleanup (\<lambda>pending.
          case pending of
            Some p \<Rightarrow>
              bindP (ls_set push_lifecycle_epoch_storage epoch) (\<lambda>_.
              bindP (persist_pending_push_cleanup ((add_target (cr_delivery c) (cr_management c) p)\<lparr>pc_subscription_done := False\<rparr>)) (\<lambda>_.
                Ret Primary))
          | None \<Rightarrow>
              bindP (read_push_credentials False) (\<lambda>active.
              bindP (ask en_random) (\<lambda>cid.
                let protects = (case active of
                      None \<Rightarrow> False
                    | Some a \<Rightarrow> cr_generation a \<noteq> cr_generation c \<and>
                        (cr_delivery a \<noteq> cr_delivery c \<or> cr_management a \<noteq> cr_management c))
                in bindP (ls_set push_lifecycle_epoch_storage epoch) (\<lambda>_.
                   bindP (persist_pending_push_cleanup (setup_cleanup cid c endpoint protects)) (\<lambda>_.
                   bindP (if protects then Ret ()
                          else clear_push_credentials (Some (cr_generation c)) (Some (cr_management c)) (Some (cr_delivery c))) (\<lambda>_.
                     Ret Primary)))))))
       (\<lambda>_. bindP (persist_fallback_push_cleanup_target c endpoint worker) (\<lambda>saved.
              Ret (if saved then Fallback else NoRecord)))"

definition has_pending_local_push_cleanup :: "bool page_prog" where
  "has_pending_local_push_cleanup =
     bindP (ls_get push_cleanup_storage) (\<lambda>a.
     bindP (ls_get push_fallback_cleanup_storage) (\<lambda>b.
     bindP (ls_get push_cleanup_intent_storage) (\<lambda>c.
       Ret (a \<noteq> None \<or> b \<noteq> None \<or> c \<noteq> None))))"

definition has_durable_push_cleanup_record :: "bool page_prog" where
  "has_durable_push_cleanup_record =
     bindP (ls_get push_cleanup_storage) (\<lambda>a.
     bindP (ls_get push_fallback_cleanup_storage) (\<lambda>b.
       Ret (a \<noteq> None \<or> b \<noteq> None)))"

section \<open>The worker's configuration\<close>

record worker_config =
  wc_delivery :: string
  wc_management :: string
  wc_generation :: "string option"
  wc_legacy :: bool

definition update_required :: string where
  "update_required = ''This app requires a service-worker update before push notifications can be changed.''"

record config_message =
  cm_cleared :: "bool option"
  cm_config :: "worker_config option option"

text \<open>The message of the worker as \<open>sendPushConfigMessage\<close> reads it.\<close>

definition reply_config :: "jsval \<Rightarrow> worker_config option option" where
  "reply_config raw =
     (if raw = JNull then Some None
      else if truthy raw \<and> is_str (js_opt ''deliveryKey'' raw) \<and> is_str (js_opt ''managementKey'' raw) \<and>
              (js_opt ''generation'' raw = JNull \<or> is_str (js_opt ''generation'' raw)) \<and>
              (js_opt ''legacyGeneration'' raw = JUndef \<or> is_bool (js_opt ''legacyGeneration'' raw))
      then Some (Some \<lparr>wc_delivery = json_text_of (js_opt ''deliveryKey'' raw), wc_management = json_text_of (js_opt ''managementKey'' raw),
                   wc_generation = json_str_of (js_opt ''generation'' raw), wc_legacy = (js_opt ''legacyGeneration'' raw = JBool True)\<rparr>)
      else None)"

definition read_reply :: "string + jsval \<Rightarrow> string + config_message" where
  "read_reply r =
     (case r of
        Inl e \<Rightarrow> Inl (if includes_str ''timed out'' (to_lower e) \<or> includes_str ''unavailable'' (to_lower e) then update_required else e)
      | Inr v \<Rightarrow>
          if js_opt ''protocolVersion'' v \<noteq> js_int 2 then Inl update_required
          else if js_opt ''ok'' v = JBool True
          then Inr \<lparr>cm_cleared = (case js_opt ''cleared'' v of JBool b \<Rightarrow> Some b | _ \<Rightarrow> None), cm_config = reply_config (js_opt ''config'' v)\<rparr>
          else Inl ''The service worker rejected the push configuration change.'')"

definition send_push_config_message :: "config_message page_prog" where
  "send_push_config_message = atom (\<lambda>w. (read_reply (en_reply (pp_env w)), w))"

definition read_service_worker_push_config :: "worker_config option page_prog" where
  "read_service_worker_push_config =
     bindP send_push_config_message (\<lambda>r.
       case cm_config r of
         None \<Rightarrow> Raise ''The service worker did not return its push configuration state.''
       | Some c \<Rightarrow> Ret c)"

definition clear_service_worker_push_config :: "unit page_prog" where
  "clear_service_worker_push_config =
     bindP send_push_config_message (\<lambda>r.
       if cm_cleared r \<noteq> Some True then Raise ''The active push configuration did not match this cleanup generation.'' else Ret ())"

definition migrate_service_worker_push_config :: "string \<Rightarrow> string \<Rightarrow> worker_config page_prog" where
  "migrate_service_worker_push_config management generation =
     bindP send_push_config_message (\<lambda>r.
       case cm_config r of
         Some (Some c) \<Rightarrow>
           if wc_management c \<noteq> management \<or> wc_generation c \<noteq> Some generation \<or> \<not> wc_legacy c
           then Raise ''The legacy service-worker push configuration could not be migrated.''
           else Ret c
       | _ \<Rightarrow> Raise ''The legacy service-worker push configuration could not be migrated.'')"

text \<open>The hex digest of a key, which the browser may refuse to compute.\<close>

definition generation_for_management_key :: "string \<Rightarrow> string page_prog" where
  "generation_for_management_key m = ask_sum en_digest"

definition read_and_migrate_service_worker_push_config :: "worker_config option page_prog" where
  "read_and_migrate_service_worker_push_config =
     bindP read_service_worker_push_config (\<lambda>config.
       case config of
         None \<Rightarrow> Ret None
       | Some c \<Rightarrow>
           if wc_generation c \<noteq> None \<and> \<not> wc_legacy c \<and> wc_generation c \<noteq> Some (wc_management c) then Ret (Some c)
           else bindP (generation_for_management_key (wc_management c)) (\<lambda>g.
                bindP (migrate_service_worker_push_config (wc_management c) g) (\<lambda>c. Ret (Some c))))"

text \<open>Whether a waiting, installing or active worker is found is the browser's answer.\<close>

definition probe_service_worker :: "worker_config option page_prog" where
  "probe_service_worker =
     bindP (ask en_worker) (\<lambda>found.
       if \<not> found then Raise update_required else read_and_migrate_service_worker_push_config)"

end
