(* ===== verification/Push_Lifecycle.thy ===== *)
theory Push_Lifecycle
  imports Push_Cleanup
begin

text \<open>
  lib/matrix/notifications.ts, continued: the cleanup of everything an enrollment left (in the browser,
  at the gateway, at the homeserver), and the setup, which writes its journal entry first and removes it
  last. Both run under one lock that all windows of the page share.
\<close>

section \<open>Calls to the gateway\<close>

definition not_found :: "string \<Rightarrow> bool" where
  "not_found e \<longleftrightarrow> includes_str ''not found'' (to_lower e)"

text \<open>A deletion the gateway confirms, or that finds nothing, leaves nothing to delete.\<close>

definition gateway_delete :: "string \<Rightarrow> unit page_prog" where
  "gateway_delete m = atom (\<lambda>w.
     case en_gateway (pp_env w) of
       Inr v \<Rightarrow> (Inr (), w\<lparr>pp_exposed := pp_exposed w - {m}\<rparr>)
     | Inl e \<Rightarrow> (Inl e, if not_found e then w\<lparr>pp_exposed := pp_exposed w - {m}\<rparr> else w))"

definition gateway_post :: "push_credentials \<Rightarrow> jsval page_prog" where
  "gateway_post c = atom (\<lambda>w. (en_gateway (pp_env w), w\<lparr>pp_exposed := insert (cr_management c) (pp_exposed w)\<rparr>))"

definition register_gateway_subscription :: "push_credentials \<Rightarrow> unit page_prog" where
  "register_gateway_subscription c =
     bindP (gateway_post c) (\<lambda>r.
       if js_opt ''registered'' r = JBool True then Ret ()
       else if js_opt ''pending'' r \<noteq> JBool True then Raise ''The push gateway returned an invalid registration state.''
       else bindP (gateway_post c) (\<lambda>r.
         if js_opt ''registered'' r \<noteq> JBool True then Raise ''The browser push endpoint was not confirmed.'' else Ret ()))"

section \<open>What an old worker left in its database\<close>

definition is_capability :: "jsval \<Rightarrow> bool" where
  "is_capability v = (case v of JStr s \<Rightarrow> list_all is_token_char s \<and> 40 \<le> length s \<and> length s \<le> 128 | _ \<Rightarrow> False)"

definition is_generation :: "jsval \<Rightarrow> bool" where
  "is_generation v = (case v of JStr s \<Rightarrow> list_all is_token_char s \<and> 16 \<le> length s \<and> length s \<le> 128 | _ \<Rightarrow> False)"

definition is_push_token :: "jsval \<Rightarrow> bool" where
  "is_push_token v = (case v of JStr s \<Rightarrow> s \<noteq> [] \<and> length s \<le> 512 | _ \<Rightarrow> False)"

definition strict_persisted_push_config :: "jsval \<Rightarrow> push_credentials option" where
  "strict_persisted_push_config v =
     (let keys = sort (map fst (own_props v)); d = js_opt ''deliveryKey'' v; m = js_opt ''managementKey'' v;
          g = js_opt ''generation'' v in
      if \<not> is_object v \<or>
         \<not> (keys = [''deliveryKey'', ''generation'', ''legacyGeneration'', ''managementKey'', ''publicKey''] \<or>
            keys = [''deliveryKey'', ''generation'', ''managementKey'', ''publicKey''] \<or>
            keys = [''deliveryKey'', ''managementKey'', ''publicKey'']) \<or>
         \<not> is_capability d \<or> \<not> is_capability m \<or> d = m \<or> \<not> is_push_token (js_opt ''publicKey'' v) \<or>
         (''generation'' \<in> set keys \<and> \<not> is_generation g) \<or>
         (''legacyGeneration'' \<in> set keys \<and> \<not> is_bool (js_opt ''legacyGeneration'' v))
      then None
      else Some \<lparr>cr_delivery = json_text_of d, cr_management = json_text_of m,
        cr_generation = (if is_str g then json_text_of g else json_text_of m), cr_legacy = False\<rparr>)"

definition inspect_orphaned_push_database :: "push_credentials option page_prog" where
  "inspect_orphaned_push_database =
     bindP (ask_sum en_database) (\<lambda>stored.
       case stored of
         None \<Rightarrow> Ret None
       | Some v \<Rightarrow>
           (case strict_persisted_push_config v of
              None \<Rightarrow> Raise ''The orphaned push configuration is missing or malformed.''
            | Some c \<Rightarrow>
                if cr_generation c = cr_management c
                then bindP (generation_for_management_key (cr_management c)) (\<lambda>g. Ret (Some (c\<lparr>cr_generation := g, cr_legacy := True\<rparr>)))
                else Ret (Some c)))"

definition orphan_conflict :: string where
  "orphan_conflict = ''The orphaned push configuration conflicts with its cleanup journal.''"

definition recovered_cleanup :: "push_credentials \<Rightarrow> pending_cleanup \<Rightarrow> string + pending_cleanup" where
  "recovered_cleanup k c =
     (let found =
        (if \<not> filled (pc_delivery c) \<and> \<not> filled (pc_management c)
         then Inr (c\<lparr>pc_delivery := Some (cr_delivery k), pc_management := Some (cr_management k),
                     pc_generation := Some (cr_generation k), pc_gateway_done := False, pc_pusher_done := False\<rparr>)
         else if pc_management c = Some (cr_management k)
         then if (filled (pc_delivery c) \<and> pc_delivery c \<noteq> Some (cr_delivery k)) \<or>
                 (filled (pc_generation c) \<and> pc_generation c \<noteq> Some (cr_generation k))
              then Inl orphan_conflict
              else let c = (if filled (pc_delivery c) then c else c\<lparr>pc_delivery := Some (cr_delivery k), pc_pusher_done := False\<rparr>)
                   in Inr (c\<lparr>pc_generation := or_null (pc_generation c) (Some (cr_generation k))\<rparr>)
         else case find (\<lambda>t. ct_management t = cr_management k) (targets_of c) of
                Some t \<Rightarrow> if ct_delivery t \<noteq> cr_delivery k then Inl orphan_conflict else Inr c
              | None \<Rightarrow> Inr (c\<lparr>pc_targets := Some (targets_of c @ [new_target (cr_delivery k) (cr_management k)])\<rparr>))
      in sum_bind found (\<lambda>c. Inr (c\<lparr>pc_subscription_done := False, pc_worker_done := False, pc_notifications_done := False\<rparr>)))"

definition merge_orphaned_push_credentials :: "push_credentials \<Rightarrow> pending_cleanup \<Rightarrow> pending_cleanup page_prog" where
  "merge_orphaned_push_credentials k c =
     (case recovered_cleanup k c of
        Inl e \<Rightarrow> Raise e
      | Inr r \<Rightarrow> bindP (persist_pending_push_cleanup r) (\<lambda>_. Ret r))"

text \<open>
  The key of an old worker's database belongs to a registration of that worker. Once a cleanup has taken
  it over, it counts as exposed, unless the journal says that it has been deleted already. This is
  bookkeeping of the model; the code does nothing here.
\<close>

definition journal_deleted :: "pending_cleanup \<Rightarrow> string \<Rightarrow> bool" where
  "journal_deleted c m \<longleftrightarrow> (pc_management c = Some m \<and> pc_gateway_done c) \<or>
     list_ex (\<lambda>t. ct_management t = m \<and> ct_gateway_done t) (targets_of c)"

definition count_found :: "push_credentials \<Rightarrow> pending_cleanup \<Rightarrow> unit page_prog" where
  "count_found k c = atom (\<lambda>w. (Inr (),
     if journal_deleted c (cr_management k) then w else w\<lparr>pp_exposed := insert (cr_management k) (pp_exposed w)\<rparr>))"

section \<open>Warning about a pusher left behind\<close>

definition has_abandoned_matrix_pusher_warning :: "bool page_prog" where
  "has_abandoned_matrix_pusher_warning =
     atom (\<lambda>w. (Inr (pp_warned w \<or> pp_items w abandoned_warning_storage = Some ''1''), w))"

definition persist_abandoned_matrix_pusher_warning :: "bool page_prog" where
  "persist_abandoned_matrix_pusher_warning =
     catchP (bindP (ls_set abandoned_warning_storage ''1'') (\<lambda>_.
               atom (\<lambda>w. (Inr True, w\<lparr>pp_warned := False\<rparr>))))
            (\<lambda>_. atom (\<lambda>w. (Inr False, w\<lparr>pp_warned := True\<rparr>)))"

section \<open>The parts of a cleanup\<close>

type_synonym progress = "pending_cleanup \<times> string list"

definition try_part :: "unit page_prog \<Rightarrow> (pending_cleanup \<Rightarrow> pending_cleanup) \<Rightarrow> progress \<Rightarrow> progress page_prog" where
  "try_part p f x =
     catchP (bindP p (\<lambda>_. Ret (f (fst x), snd x))) (\<lambda>e. Ret (fst x, snd x @ [e]))"

text \<open>\<open>registered\<close>: there is a registration, whose worker has answered the probe.\<close>

definition worker_cleanup :: "bool \<Rightarrow> progress \<Rightarrow> progress page_prog" where
  "worker_cleanup registered x =
     (if pc_worker_done (fst x) \<or> \<not> registered then Ret x
      else try_part clear_service_worker_push_config (\<lambda>c. c\<lparr>pc_worker_done := True\<rparr>) x)"

definition notification_cleanup :: "bool \<Rightarrow> progress \<Rightarrow> progress page_prog" where
  "notification_cleanup registered x =
     (if pc_notifications_done (fst x) \<or> \<not> registered then Ret x
      else try_part call_browser (\<lambda>c. c\<lparr>pc_notifications_done := True\<rparr>) x)"

definition badge_cleanup :: "progress \<Rightarrow> progress page_prog" where
  "badge_cleanup x =
     (if pc_badge_done (fst x) then Ret x else try_part call_browser (\<lambda>c. c\<lparr>pc_badge_done := True\<rparr>) x)"

text \<open>A removal gives the error it met, or none; an address the gateway does not know is removed.\<close>

definition gateway_remove :: "string \<Rightarrow> string option page_prog" where
  "gateway_remove m =
     catchP (bindP (gateway_delete m) (\<lambda>_. Ret None)) (\<lambda>e. Ret (if not_found e then None else Some e))"

definition pusher_remove :: "bool \<Rightarrow> string option page_prog" where
  "pusher_remove service =
     (if \<not> service then Ret (Some ''Unlock this account to finish removing its Matrix notification pusher.'')
      else catchP (bindP call_browser (\<lambda>_. Ret None)) (\<lambda>e. Ret (Some e)))"

definition error_list :: "string option \<Rightarrow> string list" where
  "error_list e = (case e of None \<Rightarrow> [] | Some m \<Rightarrow> [m])"

primrec gateway_targets :: "cleanup_target list \<Rightarrow> (cleanup_target list \<times> string list) page_prog" where
  "gateway_targets [] = Ret ([], [])"
| "gateway_targets (t # ts) =
     bindP (if ct_gateway_done t then Ret (t, [])
            else bindP (gateway_remove (ct_management t)) (\<lambda>e.
                 Ret (if e = None then t\<lparr>ct_gateway_done := True\<rparr> else t, error_list e))) (\<lambda>(t, e).
     bindP (gateway_targets ts) (\<lambda>(ts, es). Ret (t # ts, e @ es)))"

primrec pusher_targets :: "bool \<Rightarrow> cleanup_target list \<Rightarrow> (cleanup_target list \<times> string list) page_prog" where
  "pusher_targets service [] = Ret ([], [])"
| "pusher_targets service (t # ts) =
     bindP (if ct_pusher_done t then Ret (t, [])
            else bindP (pusher_remove service) (\<lambda>e.
                 Ret (if e = None then t\<lparr>ct_pusher_done := True\<rparr> else t, error_list e))) (\<lambda>(t, e).
     bindP (pusher_targets service ts) (\<lambda>(ts, es). Ret (t # ts, e @ es)))"

definition set_targets :: "cleanup_target list \<Rightarrow> pending_cleanup \<Rightarrow> pending_cleanup" where
  "set_targets ts c = c\<lparr>pc_targets := map_option (\<lambda>_. ts) (pc_targets c)\<rparr>"

definition gateway_cleanup :: "progress \<Rightarrow> progress page_prog" where
  "gateway_cleanup x =
     (let c = fst x in
      bindP (if \<not> filled (pc_management c) then Ret (c\<lparr>pc_gateway_done := True\<rparr>, [])
             else if pc_gateway_done c then Ret (c, [])
             else bindP (gateway_remove (the (pc_management c))) (\<lambda>e.
                  Ret (if e = None then c\<lparr>pc_gateway_done := True\<rparr> else c, error_list e))) (\<lambda>(c, e).
      bindP (gateway_targets (targets_of c)) (\<lambda>(ts, es).
        Ret (set_targets ts c, snd x @ e @ es))))"

definition pusher_cleanup :: "bool \<Rightarrow> progress \<Rightarrow> progress page_prog" where
  "pusher_cleanup service x =
     (let c = fst x in
      bindP (if \<not> filled (pc_delivery c) then Ret (c\<lparr>pc_pusher_done := True\<rparr>, [])
             else if pc_pusher_done c then Ret (c, [])
             else bindP (pusher_remove service) (\<lambda>e.
                  Ret (if e = None then c\<lparr>pc_pusher_done := True\<rparr> else c, error_list e))) (\<lambda>(c, e).
      bindP (pusher_targets service (targets_of c)) (\<lambda>(ts, es).
        Ret (set_targets ts c, snd x @ e @ es))))"

definition subscription_cleanup :: "bool \<Rightarrow> progress \<Rightarrow> progress page_prog" where
  "subscription_cleanup registered x =
     (let c = fst x in
      if pc_subscription_done c \<or> \<not> registered then Ret x
      else catchP
        (bindP (ask_sum en_subscription) (\<lambda>found.
           case found of
             None \<Rightarrow> Ret (c\<lparr>pc_subscription_done := True\<rparr>, snd x)
           | Some endpoint \<Rightarrow>
               (let c' = (if filled (pc_endpoint c) then c else c\<lparr>pc_endpoint := Some endpoint\<rparr>) in
                catchP
                  (bindP (if filled (pc_endpoint c) then Ret () else persist_pending_push_cleanup c') (\<lambda>_.
                   bindP (ask_sum en_unsubscribe) (\<lambda>removed.
                     if \<not> removed then Raise ''The browser did not confirm push subscription removal.''
                     else Ret (c'\<lparr>pc_subscription_done := True\<rparr>, snd x))))
                  (\<lambda>e. Ret (c', snd x @ [e])))))
        (\<lambda>e. Ret (c, snd x @ [e])))"

definition gateway_finished :: "pending_cleanup \<Rightarrow> bool" where
  "gateway_finished c \<longleftrightarrow> pc_gateway_done c \<and> list_all ct_gateway_done (targets_of c)"

definition pusher_finished :: "pending_cleanup \<Rightarrow> bool" where
  "pusher_finished c \<longleftrightarrow> pc_pusher_done c \<and> list_all ct_pusher_done (targets_of c)"

text \<open>A pusher that cannot be removed is given up only where that was asked for, and only with a warning.\<close>

definition abandon_pushers :: "progress \<Rightarrow> progress page_prog" where
  "abandon_pushers x =
     (let c = fst x in
      if pc_abandon c \<and> gateway_finished c \<and> \<not> pusher_finished c
      then bindP persist_abandoned_matrix_pusher_warning (\<lambda>saved.
             if saved
             then Ret (set_targets (map (\<lambda>t. t\<lparr>ct_pusher_done := True\<rparr>) (targets_of c)) (c\<lparr>pc_pusher_done := True\<rparr>), snd x)
             else Ret (c, snd x @ [''The Matrix pusher warning could not be saved; cleanup will retry before removing its journal.'']))
      else Ret x)"

definition orphan_cleanup :: "bool \<Rightarrow> progress \<Rightarrow> progress page_prog" where
  "orphan_cleanup ready x =
     (if ready \<and> gateway_finished (fst x) \<and> pusher_finished (fst x)
      then try_part call_browser (\<lambda>c. c\<lparr>pc_subscription_done := True, pc_worker_done := True, pc_notifications_done := True\<rparr>) x
      else Ret x)"

definition cleanup_complete :: "pending_cleanup \<Rightarrow> bool" where
  "cleanup_complete c \<longleftrightarrow> gateway_finished c \<and> pusher_finished c \<and> pc_subscription_done c \<and> pc_worker_done c \<and>
     pc_notifications_done c \<and> pc_badge_done c"

section \<open>A whole cleanup\<close>

record cleanup_result =
  res_complete :: bool
  res_durable :: bool
  res_abandoned :: bool
  res_error :: "string option"

definition cleanup_result_of :: "bool \<Rightarrow> bool \<Rightarrow> string option \<Rightarrow> cleanup_result page_prog" where
  "cleanup_result_of full durable error =
     bindP has_abandoned_matrix_pusher_warning (\<lambda>abandoned.
       Ret \<lparr>res_complete = full, res_durable = durable, res_abandoned = abandoned, res_error = error\<rparr>)"

fun join_words :: "string list \<Rightarrow> string" where
  "join_words [] = []"
| "join_words [x] = x"
| "join_words (x # xs) = x @ '' '' @ join_words xs"

definition finish_cleanup :: "progress \<Rightarrow> cleanup_result page_prog" where
  "finish_cleanup x =
     (let c = fst x in
      bindP (catchP
          (bindP (if cleanup_complete c
                  then bindP (ls_remove push_cleanup_storage) (\<lambda>_.
                       bindP (ls_remove push_fallback_cleanup_storage) (\<lambda>_.
                       bindP (ls_remove push_cleanup_intent_storage) (\<lambda>_.
                         ls_remove push_lifecycle_epoch_storage)))
                  else persist_pending_push_cleanup c) (\<lambda>_. Ret None))
          (\<lambda>e. Ret (Some e))) (\<lambda>failure.
        case failure of
          Some e \<Rightarrow> bindP has_pending_local_push_cleanup (\<lambda>durable. cleanup_result_of False durable (Some e))
        | None \<Rightarrow> cleanup_result_of (cleanup_complete c) True
            (if cleanup_complete c then None
             else Some (if join_words (snd x) = [] then ''Notification cleanup is safely queued and needs another retry.''
                        else join_words (snd x)))))"

text \<open>Everything after the journal is there: remote and local parts, in the order of the code.\<close>

definition cleanup_parts :: "bool \<Rightarrow> bool \<Rightarrow> bool \<Rightarrow> progress \<Rightarrow> cleanup_result page_prog" where
  "cleanup_parts service registered orphan x =
     bindP (worker_cleanup registered x) (\<lambda>x.
     bindP (notification_cleanup registered x) (\<lambda>x.
     bindP (badge_cleanup x) (\<lambda>x.
     bindP (gateway_cleanup x) (\<lambda>x.
     bindP (pusher_cleanup service x) (\<lambda>x.
     bindP (abandon_pushers x) (\<lambda>x.
     bindP (orphan_cleanup orphan x) (\<lambda>x.
     bindP (if pc_worker_done (fst x) then subscription_cleanup registered x
            else if \<not> pc_subscription_done (fst x)
            then Ret (fst x, snd x @ [''Push subscription removal is waiting for durable service-worker cleanup.''])
            else Ret x)
       finish_cleanup)))))))"

text \<open>The generation and keys of the journal, completed from what the worker holds.\<close>

definition adopt_worker_config :: "worker_config option \<Rightarrow> pending_cleanup \<Rightarrow> pending_cleanup page_prog" where
  "adopt_worker_config config c =
     (case config of
        None \<Rightarrow> Ret c
      | Some k \<Rightarrow>
          if \<not> filled (pc_generation c) \<or> \<not> filled (pc_delivery c) \<or> \<not> filled (pc_management c)
          then (let c = c\<lparr>pc_generation := wc_generation k, pc_delivery := Some (wc_delivery k), pc_management := Some (wc_management k),
                          pc_gateway_done := False, pc_pusher_done := False\<rparr>
                in bindP (persist_pending_push_cleanup c) (\<lambda>_. Ret c))
          else if pc_delivery c = Some (wc_delivery k) \<and> pc_management c = Some (wc_management k) \<and> pc_generation c \<noteq> wc_generation k
          then (let c = c\<lparr>pc_generation := wc_generation k\<rparr> in bindP (persist_pending_push_cleanup c) (\<lambda>_. Ret c))
          else Ret c)"

definition canonical_cleanup_generation :: "pending_cleanup \<Rightarrow> pending_cleanup page_prog" where
  "canonical_cleanup_generation c =
     (if filled (pc_generation c) \<and> pc_generation c = pc_management c
      then bindP (generation_for_management_key (the (pc_management c))) (\<lambda>g.
           bindP (persist_pending_push_cleanup (c\<lparr>pc_generation := Some g\<rparr>)) (\<lambda>_. Ret (c\<lparr>pc_generation := Some g\<rparr>)))
      else Ret c)"

definition orphan_inspection :: "bool \<Rightarrow> progress \<Rightarrow> (bool \<times> progress) page_prog" where
  "orphan_inspection look x =
     (if \<not> look then Ret (False, x)
      else catchP
        (bindP inspect_orphaned_push_database (\<lambda>found.
           case found of
             Some k \<Rightarrow>
               bindP (merge_orphaned_push_credentials k (fst x)) (\<lambda>c.
               bindP (count_found k (fst x)) (\<lambda>_. Ret (True, (c, snd x))))
           | None \<Rightarrow> Ret (False, ((fst x)\<lparr>pc_subscription_done := True, pc_worker_done := True, pc_notifications_done := True\<rparr>, snd x))))
        (\<lambda>e. Ret (False, (fst x, snd x @ [e]))))"

definition continue_cleanup :: "bool \<Rightarrow> bool \<Rightarrow> worker_config option \<Rightarrow> bool \<Rightarrow> progress \<Rightarrow> cleanup_result page_prog" where
  "continue_cleanup service registered config known x =
     bindP (adopt_worker_config config (fst x)) (\<lambda>c.
     bindP (if filled (pc_generation c)
            then clear_push_credentials (pc_generation c) (pc_management c) (pc_delivery c) else Ret ()) (\<lambda>_.
     bindP (orphan_inspection (\<not> registered \<and> known) (c, snd x)) (\<lambda>(orphan, x).
       cleanup_parts service registered orphan x)))"

text \<open>
  A step that may end the whole cleanup with a result: \<open>Inl\<close> the message it ends with, else its value.
\<close>

definition attempt :: "'a page_prog \<Rightarrow> (string + 'a) page_prog" where
  "attempt p = catchP (bindP p (\<lambda>x. Ret (Inr x))) (\<lambda>e. Ret (Inl e))"

definition journal_cleanup :: "bool \<Rightarrow> pending_cleanup page_prog" where
  "journal_cleanup abandon =
     bindP begin_local_push_cleanup (\<lambda>c.
       if abandon \<and> \<not> pc_abandon c
       then bindP (persist_pending_push_cleanup (c\<lparr>pc_abandon := True\<rparr>)) (\<lambda>_. Ret (c\<lparr>pc_abandon := True\<rparr>))
       else Ret c)"

definition perform_local_push_cleanup :: "bool \<Rightarrow> bool \<Rightarrow> bool \<Rightarrow> cleanup_result page_prog" where
  "perform_local_push_cleanup workers service abandon =
     bindP (if workers then attempt (ask_sum en_registration) else Ret (Inr False)) (\<lambda>lookup.
       let registered = (lookup = Inr True); known = (\<not> workers \<or> (case lookup of Inl _ \<Rightarrow> False | Inr _ \<Rightarrow> True));
           errors = (case lookup of Inl e \<Rightarrow> [e] | Inr _ \<Rightarrow> [])
       in bindP (if registered then attempt probe_service_worker else Ret (Inr None)) (\<lambda>session.
          case session of
            Inl e \<Rightarrow> cleanup_result_of False False (Some e)
          | Inr config \<Rightarrow>
              bindP (attempt (journal_cleanup abandon)) (\<lambda>journal.
                case journal of
                  Inl e \<Rightarrow> cleanup_result_of False False (Some e)
                | Inr c \<Rightarrow>
                    bindP (attempt (canonical_cleanup_generation c)) (\<lambda>canonical.
                      case canonical of
                        Inl e \<Rightarrow> cleanup_result_of False True (Some e)
                      | Inr c \<Rightarrow> continue_cleanup service registered config known (c, errors)))))"

definition with_push_lifecycle_lock :: "'a page_prog \<Rightarrow> 'a page_prog" where
  "with_push_lifecycle_lock p = bindP call_browser (\<lambda>_. p)"

definition forget_local_push_state :: "bool \<Rightarrow> bool \<Rightarrow> bool \<Rightarrow> cleanup_result page_prog" where
  "forget_local_push_state workers service abandon =
     bindP (catchP
         (bindP (ask en_random) (\<lambda>intent.
          bindP (ls_set push_cleanup_intent_storage intent) (\<lambda>_.
          bindP (ask en_random) (\<lambda>epoch.
          bindP (ls_set push_lifecycle_epoch_storage epoch) (\<lambda>_. Ret True)))))
         (\<lambda>_. Ret False)) (\<lambda>intent.
     catchP
       (bindP (with_push_lifecycle_lock (perform_local_push_cleanup workers service abandon)) (\<lambda>r.
        bindP has_durable_push_cleanup_record (\<lambda>d. Ret (r\<lparr>res_durable := res_durable r \<or> intent \<or> d\<rparr>))))
       (\<lambda>e. bindP has_durable_push_cleanup_record (\<lambda>d. cleanup_result_of False (d \<or> intent) (Some e))))"

section \<open>A durable setup\<close>

definition interrupted_setup :: string where
  "interrupted_setup = ''Notification cleanup started while push setup was in progress.''"

definition assert_owned_push_setup_journal :: "push_credentials \<Rightarrow> string \<Rightarrow> unit page_prog" where
  "assert_owned_push_setup_journal c epoch =
     bindP read_pending_push_cleanup (\<lambda>pending.
     bindP (ls_get push_lifecycle_epoch_storage) (\<lambda>e.
     bindP (ls_get push_cleanup_intent_storage) (\<lambda>i.
       case pending of
         None \<Rightarrow> Raise interrupted_setup
       | Some p \<Rightarrow>
           if e \<noteq> Some epoch \<or> i \<noteq> None \<or> pc_management p \<noteq> Some (cr_management c) \<or> pc_delivery p \<noteq> Some (cr_delivery c) \<or>
              pc_generation p \<noteq> Some (cr_generation c) \<or> targets_of p \<noteq> []
           then Raise interrupted_setup else Ret ())))"

text \<open>What the setup does when it could write no journal: revoke what may be there, as far as it goes.\<close>

definition rollback_undurable_push_setup :: "string \<Rightarrow> push_credentials \<Rightarrow> unit page_prog" where
  "rollback_undurable_push_setup endpoint c =
     bindP (attempt (gateway_delete (cr_management c))) (\<lambda>_.
     bindP (attempt call_browser) (\<lambda>_.
     bindP (read_push_credentials False) (\<lambda>active.
       if (case active of None \<Rightarrow> False | Some a \<Rightarrow> cr_generation a \<noteq> cr_generation c) then Ret ()
       else
         bindP (catchP (bindP clear_service_worker_push_config (\<lambda>_. Ret True))
                  (\<lambda>_. catchP (bindP read_service_worker_push_config (\<lambda>k. Ret (k = None))) (\<lambda>_. Ret False))) (\<lambda>safe.
         bindP (if safe
                then catchP (bindP (ask_sum en_subscription) (\<lambda>current.
                       if current = Some endpoint then bindP (ask_sum en_unsubscribe) (\<lambda>_. Ret ()) else Ret ()))
                     (\<lambda>_. Ret ())
                else Ret ()) (\<lambda>_.
           clear_push_credentials (Some (cr_generation c)) (Some (cr_management c)) (Some (cr_delivery c)))))))"

definition effective_credentials :: "worker_config option \<Rightarrow> push_credentials \<Rightarrow> push_credentials page_prog" where
  "effective_credentials config c =
     (if cr_legacy c then bindP (generation_for_management_key (cr_management c)) (\<lambda>g. Ret (c\<lparr>cr_generation := g\<rparr>))
      else case config of
        None \<Rightarrow> Ret c
      | Some k \<Rightarrow> if wc_delivery k = cr_delivery c \<and> wc_management k = cr_management c
                  then (case wc_generation k of None \<Rightarrow> Ret c | Some g \<Rightarrow> Ret (c\<lparr>cr_generation := g\<rparr>))
                  else Ret c)"

text \<open>From the journal entry on; the entry goes when the credentials are stored.\<close>

definition journaled_setup :: "string \<Rightarrow> string \<Rightarrow> push_credentials \<Rightarrow> unit page_prog" where
  "journaled_setup endpoint epoch c =
     bindP (assert_owned_push_setup_journal c epoch) (\<lambda>_.
     bindP send_push_config_message (\<lambda>_.
     bindP (assert_owned_push_setup_journal c epoch) (\<lambda>_.
     bindP (register_gateway_subscription c) (\<lambda>_.
     bindP (assert_owned_push_setup_journal c epoch) (\<lambda>_.
     bindP call_browser (\<lambda>_.
     bindP (assert_owned_push_setup_journal c epoch) (\<lambda>_.
     bindP (ask_sum en_subscription) (\<lambda>current.
     bindP (assert_owned_push_setup_journal c epoch) (\<lambda>_.
       if current \<noteq> Some endpoint then Raise ''The browser push subscription changed during setup.''
       else bindP (persist_push_credentials c endpoint) (\<lambda>_.
            bindP (ask en_random) (\<lambda>e.
            bindP (ls_set push_lifecycle_epoch_storage e) (\<lambda>_.
              ls_remove push_cleanup_storage))))))))))))"

definition unsaved_setup :: string where
  "unsaved_setup = ''Notification cleanup could not preserve its retry capability. Clear this site's data and revoke this device from another trusted Matrix client.''"

definition prepared_setup :: "string \<Rightarrow> worker_config option \<Rightarrow> push_credentials option \<Rightarrow> unit page_prog" where
  "prepared_setup endpoint config credentials =
     (case credentials of
        None \<Rightarrow> Raise ''Push credentials could not be created.''
      | Some c \<Rightarrow>
          bindP (effective_credentials config c) (\<lambda>c.
          bindP (ask en_random) (\<lambda>epoch.
          bindP (queue_push_setup_cleanup c endpoint True epoch) (\<lambda>queued.
            case queued of
              Primary \<Rightarrow> journaled_setup endpoint epoch c
            | Fallback \<Rightarrow> bindP (rollback_undurable_push_setup endpoint c) (\<lambda>_.
                Raise ''Notification setup was interrupted and cleanup has been safely queued.'')
            | NoRecord \<Rightarrow>
                bindP (atom (\<lambda>w. (Inr (), w\<lparr>pp_unsaved := True\<rparr>))) (\<lambda>_.
                bindP (rollback_undurable_push_setup endpoint c) (\<lambda>_. Raise unsaved_setup))))))"

definition run_durable_push_setup :: "string \<Rightarrow> push_credentials option page_prog \<Rightarrow> unit page_prog" where
  "run_durable_push_setup initial_epoch credentials_for_setup =
     with_push_lifecycle_lock
       (bindP has_pending_local_push_cleanup (\<lambda>pending.
        if pending then Raise interrupted_setup
        else
          bindP push_lifecycle_epoch (\<lambda>e.
          if e \<noteq> initial_epoch then Raise interrupted_setup
          else
            bindP probe_service_worker (\<lambda>config.
            bindP (ask_sum en_subscription) (\<lambda>subscription.
              case subscription of
                None \<Rightarrow> Raise ''The browser push subscription is unavailable.''
              | Some endpoint \<Rightarrow>
                  bindP push_lifecycle_epoch (\<lambda>e.
                  if e \<noteq> initial_epoch then Raise interrupted_setup
                  else bindP credentials_for_setup (prepared_setup endpoint config)))))))"

end
