(* ===== verification/Journal_Logic.thy ===== *)
theory Journal_Logic
  imports Push_Lifecycle
begin

text \<open>
  Reasoning about setup and cleanup while other windows run. A window changes the intent and the epoch
  at any time, and everything else under the lock only; so between any two actions of a program that
  holds the lock, those two items and the answers of the outside may change. \<open>upholds\<close> says that a
  program upholds an assertion after each of its actions, under every such interference, and ends with a
  postcondition: where the page dies, the assertion holds.
\<close>

section \<open>Programs under interference\<close>

primrec upholds :: "('w \<Rightarrow> 'w \<Rightarrow> bool) \<Rightarrow> ('w \<Rightarrow> bool) \<Rightarrow> ('e + 'a \<Rightarrow> 'w \<Rightarrow> bool) \<Rightarrow> ('w, 'e, 'a) prog \<Rightarrow> 'w \<Rightarrow> bool" where
  "upholds R I Q (Ret a) = Q (Inr a)"
| "upholds R I Q (Raise e) = Q (Inl e)"
| "upholds R I Q (Act f) = (\<lambda>w. \<forall>w'. R w w' \<longrightarrow> (case map_prod (upholds R I Q) id (f w') of (g, w'') \<Rightarrow> I w'' \<and> g w''))"

lemma upholds_Act [simp]:
  "upholds R I Q (Act f) w \<longleftrightarrow> (\<forall>w'. R w w' \<longrightarrow> I (snd (f w')) \<and> upholds R I Q (fst (f w')) (snd (f w')))"
  by (simp add: case_prod_beta)

declare upholds.simps(3) [simp del]

lemma upholds_mono:
  "upholds R I Q p w \<Longrightarrow> (\<And>r w. Q r w \<Longrightarrow> Q' r w) \<Longrightarrow> (\<And>w. I w \<Longrightarrow> I' w) \<Longrightarrow> upholds R I' Q' p w"
  by (induction p arbitrary: w rule: prog_induct) auto

lemma upholds_bindP:
  "upholds R I Q (bindP p k) w \<longleftrightarrow> upholds R I (\<lambda>r w. case r of Inl e \<Rightarrow> Q (Inl e) w | Inr a \<Rightarrow> upholds R I Q (k a) w) p w"
  by (induction p arbitrary: w rule: prog_induct) simp_all

lemma upholds_catchP:
  "upholds R I Q (catchP p h) w \<longleftrightarrow> upholds R I (\<lambda>r w. case r of Inl e \<Rightarrow> upholds R I Q (h e) w | Inr a \<Rightarrow> Q (Inr a) w) p w"
  by (induction p arbitrary: w rule: prog_induct) simp_all

lemma upholds_atom:
  "upholds R I Q (atom f) w \<longleftrightarrow> (\<forall>w'. R w w' \<longrightarrow> I (snd (f w')) \<and> Q (fst (f w')) (snd (f w')))"
proof -
  have "upholds R I Q (case_sum Raise Ret r) w = Q r w" for r w by (cases r) simp_all
  then show ?thesis by (simp add: atom_def)
qed

text \<open>Without interference it is a statement about \<open>run\<close>.\<close>

lemma upholds_run: "upholds R I Q p w \<Longrightarrow> (\<And>w. R w w) \<Longrightarrow> Q (fst (run p w)) (snd (run p w))"
  by (induction p arbitrary: w rule: prog_induct) auto

section \<open>What the storage says\<close>

text \<open>The part of a page that the journal is about.\<close>

record journal_view =
  jv_pending :: "string + pending_cleanup option"
  jv_fallback :: "string + fallback_target list"
  jv_delivery :: "string option"
  jv_legacy :: "string option"
  jv_management :: "string option"
  jv_generation :: "string option"
  jv_exposed :: "string set"
  jv_unsaved :: bool

definition view :: "push_page \<Rightarrow> journal_view" where
  "view w = \<lparr>jv_pending = pending_of (pp_items w), jv_fallback = fallback_of (pp_items w),
     jv_delivery = pp_items w push_delivery_key_storage, jv_legacy = pp_items w legacy_push_key_storage,
     jv_management = pp_items w push_management_key_storage, jv_generation = pp_items w push_generation_storage,
     jv_exposed = pp_exposed w, jv_unsaved = pp_unsaved w\<rparr>"

text \<open>
  What the outside never does: draw an empty random text, give an empty digest, or have a worker hold
  an empty key or generation.
\<close>

definition sane_env :: "push_env \<Rightarrow> bool" where
  "sane_env e \<longleftrightarrow> en_random e \<noteq> [] \<and> en_digest e \<noteq> Inr [] \<and>
     (case read_reply (en_reply e) of
        Inl _ \<Rightarrow> True
      | Inr m \<Rightarrow>
          (case cm_config m of
             Some (Some k) \<Rightarrow> wc_delivery k \<noteq> [] \<and> wc_management k \<noteq> [] \<and> wc_generation k \<noteq> Some []
           | _ \<Rightarrow> True))"

definition others :: "push_page \<Rightarrow> push_page \<Rightarrow> bool" where
  "others w w' \<longleftrightarrow>
     (\<forall>k. k \<noteq> push_cleanup_intent_storage \<and> k \<noteq> push_lifecycle_epoch_storage \<longrightarrow> pp_items w' k = pp_items w k) \<and>
     pp_exposed w' = pp_exposed w \<and> pp_unsaved w' = pp_unsaved w \<and> sane_env (pp_env w')"

lemmas storage_keys = legacy_push_key_storage_def push_delivery_key_storage_def push_management_key_storage_def
  push_generation_storage_def push_endpoint_storage_def push_cleanup_storage_def push_fallback_cleanup_storage_def
  push_cleanup_intent_storage_def abandoned_warning_storage_def push_lifecycle_epoch_storage_def

lemma others_view: "others w w' \<Longrightarrow> view w' = view w"
  by (simp add: others_def view_def pending_of_def fallback_of_def storage_keys)

lemma others_sane: "others w w' \<Longrightarrow> sane_env (pp_env w')"
  by (simp add: others_def)

section \<open>The judgment on views\<close>

definition holds :: "(journal_view \<Rightarrow> bool) \<Rightarrow> 'a page_prog \<Rightarrow> (string + 'a \<Rightarrow> journal_view \<Rightarrow> bool) \<Rightarrow> journal_view \<Rightarrow> bool" where
  "holds J p Q v \<longleftrightarrow> (\<forall>w. view w = v \<longrightarrow> upholds others (\<lambda>w. J (view w)) (\<lambda>r w. Q r (view w)) p w)"

lemma h_Ret: "Q (Inr a) v \<Longrightarrow> holds J (Ret a) Q v"
  by (simp add: holds_def)

lemma h_Raise: "Q (Inl e) v \<Longrightarrow> holds J (Raise e) Q v"
  by (simp add: holds_def)

lemma h_mono: "holds J p Q v \<Longrightarrow> (\<And>r v. Q r v \<Longrightarrow> Q' r v) \<Longrightarrow> holds J p Q' v"
  unfolding holds_def by (blast intro: upholds_mono)

lemma h_bind:
  assumes "holds J p (\<lambda>r v. case r of Inl e \<Rightarrow> Q (Inl e) v | Inr a \<Rightarrow> holds J (k a) Q v) v"
  shows "holds J (bindP p k) Q v"
  unfolding holds_def
proof (intro allI impI)
  fix w assume "view w = v"
  then have "upholds others (\<lambda>w. J (view w)) (\<lambda>r w. case r of Inl e \<Rightarrow> Q (Inl e) (view w) | Inr a \<Rightarrow> holds J (k a) Q (view w)) p w"
    using assms by (simp add: holds_def)
  then show "upholds others (\<lambda>w. J (view w)) (\<lambda>r w. Q r (view w)) (bindP p k) w"
    unfolding upholds_bindP by (rule upholds_mono) (auto simp: holds_def split: sum.splits)
qed

lemma h_catch:
  assumes "holds J p (\<lambda>r v. case r of Inl e \<Rightarrow> holds J (h e) Q v | Inr a \<Rightarrow> Q (Inr a) v) v"
  shows "holds J (catchP p h) Q v"
  unfolding holds_def
proof (intro allI impI)
  fix w assume "view w = v"
  then have "upholds others (\<lambda>w. J (view w)) (\<lambda>r w. case r of Inl e \<Rightarrow> holds J (h e) Q (view w) | Inr a \<Rightarrow> Q (Inr a) (view w)) p w"
    using assms by (simp add: holds_def)
  then show "upholds others (\<lambda>w. J (view w)) (\<lambda>r w. Q r (view w)) (catchP p h) w"
    unfolding upholds_catchP by (rule upholds_mono) (auto simp: holds_def split: sum.splits)
qed

text \<open>An action: what it does to a page of this view, the outside being sane.\<close>

lemma h_atom:
  assumes "\<And>w. view w = v \<Longrightarrow> sane_env (pp_env w) \<Longrightarrow> J (view (snd (f w))) \<and> Q (fst (f w)) (view (snd (f w)))"
  shows "holds J (atom f) Q v"
  using assms by (auto simp: holds_def upholds_atom dest: others_view others_sane)

lemma h_ask: "J v \<Longrightarrow> (\<And>e. sane_env e \<Longrightarrow> Q (Inr (sel e)) v) \<Longrightarrow> holds J (ask sel) Q v"
  unfolding ask_def by (rule h_atom) auto

lemma h_ask_sum: "J v \<Longrightarrow> (\<And>e. sane_env e \<Longrightarrow> Q (sel e) v) \<Longrightarrow> holds J (ask_sum sel) Q v"
  unfolding ask_sum_def by (rule h_atom) auto

lemma h_call: "J v \<Longrightarrow> Q (Inr ()) v \<Longrightarrow> (\<And>e. Q (Inl e) v) \<Longrightarrow> holds J call_browser Q v"
  unfolding call_browser_def by (rule h_atom) (auto split: option.split)

lemma h_message: "J v \<Longrightarrow> (\<And>e. sane_env e \<Longrightarrow> Q (read_reply (en_reply e)) v) \<Longrightarrow> holds J send_push_config_message Q v"
  unfolding send_push_config_message_def by (rule h_atom) auto

section \<open>Rules for the storage\<close>

lemma view_sel [simp]:
  "jv_pending (view w) = pending_of (pp_items w)" "jv_fallback (view w) = fallback_of (pp_items w)"
  "jv_delivery (view w) = pp_items w push_delivery_key_storage" "jv_legacy (view w) = pp_items w legacy_push_key_storage"
  "jv_management (view w) = pp_items w push_management_key_storage" "jv_generation (view w) = pp_items w push_generation_storage"
  "jv_exposed (view w) = pp_exposed w" "jv_unsaved (view w) = pp_unsaved w"
  by (simp_all add: view_def)

lemma h_get_any: "J v \<Longrightarrow> (\<And>x. Q (Inr x) v) \<Longrightarrow> holds J (ls_get k) Q v"
  unfolding ls_get_def by (rule h_atom) auto

lemma h_get:
  "J v \<Longrightarrow> Q (Inr (jv_delivery v)) v \<Longrightarrow> holds J (ls_get push_delivery_key_storage) Q v"
  "J v \<Longrightarrow> Q (Inr (jv_legacy v)) v \<Longrightarrow> holds J (ls_get legacy_push_key_storage) Q v"
  "J v \<Longrightarrow> Q (Inr (jv_management v)) v \<Longrightarrow> holds J (ls_get push_management_key_storage) Q v"
  "J v \<Longrightarrow> Q (Inr (jv_generation v)) v \<Longrightarrow> holds J (ls_get push_generation_storage) Q v"
  "J v \<Longrightarrow> (\<And>x. x = None \<Longrightarrow> jv_pending v = Inr None \<Longrightarrow> Q (Inr None) v) \<Longrightarrow> (\<And>x. Q (Inr (Some x)) v) \<Longrightarrow>
     holds J (ls_get push_cleanup_storage) Q v"
  "J v \<Longrightarrow> (jv_fallback v = Inr [] \<Longrightarrow> Q (Inr None) v) \<Longrightarrow> (\<And>x. Q (Inr (Some x)) v) \<Longrightarrow>
     holds J (ls_get push_fallback_cleanup_storage) Q v"
proof -
  show "holds J (ls_get push_cleanup_storage) Q v"
    if "J v" "\<And>x. x = None \<Longrightarrow> jv_pending v = Inr None \<Longrightarrow> Q (Inr None) v" "\<And>x. Q (Inr (Some x)) v"
    unfolding ls_get_def
  proof (rule h_atom)
    fix w assume w: "view w = v"
    then have "pp_items w push_cleanup_storage = None \<Longrightarrow> jv_pending v = Inr None"
      by (auto simp: pending_of_def)
    then show "J (view (snd (Inr (pp_items w push_cleanup_storage), w))) \<and>
        Q (fst (Inr (pp_items w push_cleanup_storage), w)) (view (snd (Inr (pp_items w push_cleanup_storage), w)))"
      using that w by (cases "pp_items w push_cleanup_storage") auto
  qed
  show "holds J (ls_get push_fallback_cleanup_storage) Q v"
    if "J v" "jv_fallback v = Inr [] \<Longrightarrow> Q (Inr None) v" "\<And>x. Q (Inr (Some x)) v"
    unfolding ls_get_def
  proof (rule h_atom)
    fix w assume w: "view w = v"
    then have "pp_items w push_fallback_cleanup_storage = None \<Longrightarrow> jv_fallback v = Inr []"
      by (auto simp: fallback_of_def)
    then show "J (view (snd (Inr (pp_items w push_fallback_cleanup_storage), w))) \<and>
        Q (fst (Inr (pp_items w push_fallback_cleanup_storage), w)) (view (snd (Inr (pp_items w push_fallback_cleanup_storage), w)))"
      using that w by (cases "pp_items w push_fallback_cleanup_storage") auto
  qed
qed (auto simp: ls_get_def intro!: h_atom)

lemma pending_other: "k \<noteq> push_cleanup_storage \<Longrightarrow> pending_of (items(k := x)) = pending_of items"
  by (simp add: pending_of_def)

lemma fallback_other: "k \<noteq> push_fallback_cleanup_storage \<Longrightarrow> fallback_of (items(k := x)) = fallback_of items"
  by (simp add: fallback_of_def)

lemma view_items:
  "view (w\<lparr>pp_items := items\<rparr>) = \<lparr>jv_pending = pending_of items, jv_fallback = fallback_of items,
     jv_delivery = items push_delivery_key_storage, jv_legacy = items legacy_push_key_storage,
     jv_management = items push_management_key_storage, jv_generation = items push_generation_storage,
     jv_exposed = pp_exposed w, jv_unsaved = pp_unsaved w\<rparr>"
  by (simp add: view_def)

lemma pending_other_keys [simp]:
  "k \<in> {push_fallback_cleanup_storage, push_delivery_key_storage, legacy_push_key_storage, push_management_key_storage,
     push_generation_storage, push_endpoint_storage, push_cleanup_intent_storage, push_lifecycle_epoch_storage, abandoned_warning_storage} \<Longrightarrow>
   pending_of (items(k := x)) = pending_of items"
  by (auto simp: pending_of_def storage_keys)

lemma fallback_other_keys [simp]:
  "k \<in> {push_cleanup_storage, push_delivery_key_storage, legacy_push_key_storage, push_management_key_storage,
     push_generation_storage, push_endpoint_storage, push_cleanup_intent_storage, push_lifecycle_epoch_storage, abandoned_warning_storage} \<Longrightarrow>
   fallback_of (items(k := x)) = fallback_of items"
  by (auto simp: fallback_of_def storage_keys)

lemma view_update:
  "view (w\<lparr>pp_items := (pp_items w)(push_delivery_key_storage := x)\<rparr>) = (view w)\<lparr>jv_delivery := x\<rparr>"
  "view (w\<lparr>pp_items := (pp_items w)(legacy_push_key_storage := x)\<rparr>) = (view w)\<lparr>jv_legacy := x\<rparr>"
  "view (w\<lparr>pp_items := (pp_items w)(push_management_key_storage := x)\<rparr>) = (view w)\<lparr>jv_management := x\<rparr>"
  "view (w\<lparr>pp_items := (pp_items w)(push_generation_storage := x)\<rparr>) = (view w)\<lparr>jv_generation := x\<rparr>"
  "view (w\<lparr>pp_items := (pp_items w)(push_endpoint_storage := x)\<rparr>) = view w"
  "view (w\<lparr>pp_items := (pp_items w)(push_cleanup_intent_storage := x)\<rparr>) = view w"
  "view (w\<lparr>pp_items := (pp_items w)(push_lifecycle_epoch_storage := x)\<rparr>) = view w"
  "view (w\<lparr>pp_items := (pp_items w)(abandoned_warning_storage := x)\<rparr>) = view w"
  "view (w\<lparr>pp_items := (pp_items w)(push_cleanup_storage := x)\<rparr>) =
     (view w)\<lparr>jv_pending := pending_of ((pp_items w)(push_cleanup_storage := x))\<rparr>"
  "view (w\<lparr>pp_items := (pp_items w)(push_fallback_cleanup_storage := x)\<rparr>) =
     (view w)\<lparr>jv_fallback := fallback_of ((pp_items w)(push_fallback_cleanup_storage := x))\<rparr>"
  by (simp_all add: view_items) (simp_all add: view_def storage_keys)

lemma h_set:
  "J v \<Longrightarrow> (\<And>e. Q (Inl e) v) \<Longrightarrow> J (v\<lparr>jv_delivery := Some x\<rparr>) \<Longrightarrow> Q (Inr ()) (v\<lparr>jv_delivery := Some x\<rparr>) \<Longrightarrow>
     holds J (ls_set push_delivery_key_storage x) Q v"
  "J v \<Longrightarrow> (\<And>e. Q (Inl e) v) \<Longrightarrow> J (v\<lparr>jv_management := Some x\<rparr>) \<Longrightarrow> Q (Inr ()) (v\<lparr>jv_management := Some x\<rparr>) \<Longrightarrow>
     holds J (ls_set push_management_key_storage x) Q v"
  "J v \<Longrightarrow> (\<And>e. Q (Inl e) v) \<Longrightarrow> J (v\<lparr>jv_generation := Some x\<rparr>) \<Longrightarrow> Q (Inr ()) (v\<lparr>jv_generation := Some x\<rparr>) \<Longrightarrow>
     holds J (ls_set push_generation_storage x) Q v"
  "J v \<Longrightarrow> (\<And>e. Q (Inl e) v) \<Longrightarrow> Q (Inr ()) v \<Longrightarrow> holds J (ls_set push_endpoint_storage x) Q v"
  "J v \<Longrightarrow> (\<And>e. Q (Inl e) v) \<Longrightarrow> Q (Inr ()) v \<Longrightarrow> holds J (ls_set push_cleanup_intent_storage x) Q v"
  "J v \<Longrightarrow> (\<And>e. Q (Inl e) v) \<Longrightarrow> Q (Inr ()) v \<Longrightarrow> holds J (ls_set push_lifecycle_epoch_storage x) Q v"
  "J v \<Longrightarrow> (\<And>e. Q (Inl e) v) \<Longrightarrow> Q (Inr ()) v \<Longrightarrow> holds J (ls_set abandoned_warning_storage x) Q v"
  unfolding ls_set_def by (rule h_atom; auto simp: view_update)+

lemma h_persist:
  "J v \<Longrightarrow> (\<And>e. Q (Inl e) v) \<Longrightarrow> J (v\<lparr>jv_pending := Inr (Some c)\<rparr>) \<Longrightarrow> Q (Inr ()) (v\<lparr>jv_pending := Inr (Some c)\<rparr>) \<Longrightarrow>
     holds J (persist_pending_push_cleanup c) Q v"
  unfolding persist_pending_push_cleanup_def ls_set_def by (rule h_atom) (auto simp: view_update pending_written)

lemma h_persist_fallback:
  "ts \<noteq> [] \<Longrightarrow> J v \<Longrightarrow> (\<And>e. Q (Inl e) v) \<Longrightarrow> J (v\<lparr>jv_fallback := Inr ts\<rparr>) \<Longrightarrow> Q (Inr ()) (v\<lparr>jv_fallback := Inr ts\<rparr>) \<Longrightarrow>
     holds J (ls_set push_fallback_cleanup_storage (json_string (fallback_js ts))) Q v"
  unfolding ls_set_def by (rule h_atom) (auto simp: view_update fallback_written)

lemma h_remove:
  "J (v\<lparr>jv_delivery := None\<rparr>) \<Longrightarrow> Q (Inr ()) (v\<lparr>jv_delivery := None\<rparr>) \<Longrightarrow> holds J (ls_remove push_delivery_key_storage) Q v"
  "J (v\<lparr>jv_legacy := None\<rparr>) \<Longrightarrow> Q (Inr ()) (v\<lparr>jv_legacy := None\<rparr>) \<Longrightarrow> holds J (ls_remove legacy_push_key_storage) Q v"
  "J (v\<lparr>jv_management := None\<rparr>) \<Longrightarrow> Q (Inr ()) (v\<lparr>jv_management := None\<rparr>) \<Longrightarrow> holds J (ls_remove push_management_key_storage) Q v"
  "J (v\<lparr>jv_generation := None\<rparr>) \<Longrightarrow> Q (Inr ()) (v\<lparr>jv_generation := None\<rparr>) \<Longrightarrow> holds J (ls_remove push_generation_storage) Q v"
  "J v \<Longrightarrow> Q (Inr ()) v \<Longrightarrow> holds J (ls_remove push_endpoint_storage) Q v"
  "J v \<Longrightarrow> Q (Inr ()) v \<Longrightarrow> holds J (ls_remove push_cleanup_intent_storage) Q v"
  "J v \<Longrightarrow> Q (Inr ()) v \<Longrightarrow> holds J (ls_remove push_lifecycle_epoch_storage) Q v"
  "J (v\<lparr>jv_pending := Inr None\<rparr>) \<Longrightarrow> Q (Inr ()) (v\<lparr>jv_pending := Inr None\<rparr>) \<Longrightarrow> holds J (ls_remove push_cleanup_storage) Q v"
  "J (v\<lparr>jv_fallback := Inr []\<rparr>) \<Longrightarrow> Q (Inr ()) (v\<lparr>jv_fallback := Inr []\<rparr>) \<Longrightarrow> holds J (ls_remove push_fallback_cleanup_storage) Q v"
  unfolding ls_remove_def by (rule h_atom; auto simp: view_update pending_of_def fallback_of_def)+

lemma h_read_pending: "J v \<Longrightarrow> Q (jv_pending v) v \<Longrightarrow> holds J read_pending_push_cleanup Q v"
  unfolding read_pending_push_cleanup_def by (rule h_atom) auto

lemma h_read_fallback: "J v \<Longrightarrow> Q (jv_fallback v) v \<Longrightarrow> holds J read_fallback_push_cleanup Q v"
  unfolding read_fallback_push_cleanup_def by (rule h_atom) auto

lemma h_found:
  "J v \<Longrightarrow> Q (Inr ()) v \<Longrightarrow>
   (\<not> journal_deleted c (cr_management k) \<Longrightarrow> J (v\<lparr>jv_exposed := insert (cr_management k) (jv_exposed v)\<rparr>) \<and>
      Q (Inr ()) (v\<lparr>jv_exposed := insert (cr_management k) (jv_exposed v)\<rparr>)) \<Longrightarrow>
   holds J (count_found k c) Q v"
  unfolding count_found_def by (rule h_atom) (auto simp: view_def)

lemma h_post:
  "J (v\<lparr>jv_exposed := insert (cr_management c) (jv_exposed v)\<rparr>) \<Longrightarrow> (\<And>r. Q r (v\<lparr>jv_exposed := insert (cr_management c) (jv_exposed v)\<rparr>)) \<Longrightarrow>
     holds J (gateway_post c) Q v"
  unfolding gateway_post_def by (rule h_atom) (auto simp: view_def)

text \<open>A deletion that ends well, or with an error that says there is nothing, leaves the key unexposed.\<close>

lemma h_delete:
  assumes "J v" "J (v\<lparr>jv_exposed := jv_exposed v - {m}\<rparr>)" "Q (Inr ()) (v\<lparr>jv_exposed := jv_exposed v - {m}\<rparr>)"
    "\<And>e. not_found e \<Longrightarrow> Q (Inl e) (v\<lparr>jv_exposed := jv_exposed v - {m}\<rparr>)" "\<And>e. \<not> not_found e \<Longrightarrow> Q (Inl e) v"
  shows "holds J (gateway_delete m) Q v"
  unfolding gateway_delete_def
proof (rule h_atom)
  fix w assume w: "view w = v"
  then have "view (w\<lparr>pp_exposed := pp_exposed w - {m}\<rparr>) = v\<lparr>jv_exposed := jv_exposed v - {m}\<rparr>"
    by (auto simp: view_def)
  then show "J (view (snd (case en_gateway (pp_env w) of Inr y \<Rightarrow> (Inr (), w\<lparr>pp_exposed := pp_exposed w - {m}\<rparr>)
        | Inl e \<Rightarrow> (Inl e, if not_found e then w\<lparr>pp_exposed := pp_exposed w - {m}\<rparr> else w)))) \<and>
      Q (fst (case en_gateway (pp_env w) of Inr y \<Rightarrow> (Inr (), w\<lparr>pp_exposed := pp_exposed w - {m}\<rparr>)
        | Inl e \<Rightarrow> (Inl e, if not_found e then w\<lparr>pp_exposed := pp_exposed w - {m}\<rparr> else w)))
      (view (snd (case en_gateway (pp_env w) of Inr y \<Rightarrow> (Inr (), w\<lparr>pp_exposed := pp_exposed w - {m}\<rparr>)
        | Inl e \<Rightarrow> (Inl e, if not_found e then w\<lparr>pp_exposed := pp_exposed w - {m}\<rparr> else w))))"
    using assms w by (auto split: sum.split)
qed

section \<open>One action, then the rest\<close>

lemma s_ask: "J v \<Longrightarrow> (\<And>e. sane_env e \<Longrightarrow> holds J (k (sel e)) Q v) \<Longrightarrow> holds J (bindP (ask sel) k) Q v"
  by (intro h_bind h_ask) simp_all

lemma s_ask_sum:
  "J v \<Longrightarrow> (\<And>m. Q (Inl m) v) \<Longrightarrow> (\<And>e x. sane_env e \<Longrightarrow> sel e = Inr x \<Longrightarrow> holds J (k x) Q v) \<Longrightarrow> holds J (bindP (ask_sum sel) k) Q v"
  by (intro h_bind h_ask_sum) (simp_all split: sum.split)

lemma s_call: "J v \<Longrightarrow> (\<And>e. Q (Inl e) v) \<Longrightarrow> holds J (k ()) Q v \<Longrightarrow> holds J (bindP call_browser k) Q v"
  by (intro h_bind h_call) simp_all

lemma s_get_any: "J v \<Longrightarrow> (\<And>x. holds J (k x) Q v) \<Longrightarrow> holds J (bindP (ls_get key) k) Q v"
  by (intro h_bind h_get_any) simp_all

lemma s_get:
  "J v \<Longrightarrow> holds J (k (jv_delivery v)) Q v \<Longrightarrow> holds J (bindP (ls_get push_delivery_key_storage) k) Q v"
  "J v \<Longrightarrow> holds J (k (jv_legacy v)) Q v \<Longrightarrow> holds J (bindP (ls_get legacy_push_key_storage) k) Q v"
  "J v \<Longrightarrow> holds J (k (jv_management v)) Q v \<Longrightarrow> holds J (bindP (ls_get push_management_key_storage) k) Q v"
  "J v \<Longrightarrow> holds J (k (jv_generation v)) Q v \<Longrightarrow> holds J (bindP (ls_get push_generation_storage) k) Q v"
  by (intro h_bind h_get; simp)+

lemma s_set:
  "J v \<Longrightarrow> (\<And>e. Q (Inl e) v) \<Longrightarrow> holds J (k ()) Q v \<Longrightarrow> holds J (bindP (ls_set push_endpoint_storage x) k) Q v"
  "J v \<Longrightarrow> (\<And>e. Q (Inl e) v) \<Longrightarrow> holds J (k ()) Q v \<Longrightarrow> holds J (bindP (ls_set push_cleanup_intent_storage x) k) Q v"
  "J v \<Longrightarrow> (\<And>e. Q (Inl e) v) \<Longrightarrow> holds J (k ()) Q v \<Longrightarrow> holds J (bindP (ls_set push_lifecycle_epoch_storage x) k) Q v"
  "J v \<Longrightarrow> (\<And>e. Q (Inl e) v) \<Longrightarrow> holds J (k ()) Q v \<Longrightarrow> holds J (bindP (ls_set abandoned_warning_storage x) k) Q v"
  by (intro h_bind h_set; simp)+

lemma s_read:
  "J v \<Longrightarrow> (\<And>e. jv_pending v = Inl e \<Longrightarrow> Q (Inl e) v) \<Longrightarrow> (\<And>p. jv_pending v = Inr p \<Longrightarrow> holds J (k p) Q v) \<Longrightarrow>
     holds J (bindP read_pending_push_cleanup k) Q v"
  "J v \<Longrightarrow> (\<And>e. jv_fallback v = Inl e \<Longrightarrow> Q (Inl e) v) \<Longrightarrow> (\<And>ts. jv_fallback v = Inr ts \<Longrightarrow> holds J (k2 ts) Q v) \<Longrightarrow>
     holds J (bindP read_fallback_push_cleanup k2) Q v"
  by (intro h_bind h_read_pending h_read_fallback; simp split: sum.split)+

lemma s_message:
  "J v \<Longrightarrow> (\<And>m. Q (Inl m) v) \<Longrightarrow> (\<And>e m. sane_env e \<Longrightarrow> read_reply (en_reply e) = Inr m \<Longrightarrow> holds J (k m) Q v) \<Longrightarrow>
     holds J (bindP send_push_config_message k) Q v"
  by (intro h_bind h_message) (simp_all split: sum.split)

lemma h_if: "(b \<Longrightarrow> holds J p Q v) \<Longrightarrow> (\<not> b \<Longrightarrow> holds J q Q v) \<Longrightarrow> holds J (if b then p else q) Q v"
  by simp

text \<open>A program whose errors become values, and one whose errors are dropped.\<close>

lemma h_attempt:
  "holds J p (\<lambda>r v. Q (Inr r) v) v \<Longrightarrow> holds J (attempt p) Q v"
  unfolding attempt_def
  by (intro h_catch h_bind) (erule h_mono, auto intro!: h_Ret split: sum.splits)

end
