(* ===== verification/Journal_Safety.thy ===== *)
theory Journal_Safety
  imports Journal_Logic
begin

text \<open>
  Setup and cleanup keep every registration revocable: after each action, whatever fails and whenever the
  page dies, the storage names the management key of everything that was sent to the gateway and not yet
  deleted there. A cleanup that reports success has left nothing at the gateway.
\<close>

section \<open>The invariant\<close>

lemma filled_simps [simp]: "\<not> filled None" "\<not> filled (Some [])"
  by (simp_all add: filled_def)

definition target_keys :: "cleanup_target list \<Rightarrow> string set" where
  "target_keys ts = {k. \<exists>t \<in> set ts. ct_management t = k \<and> \<not> ct_gateway_done t}"

definition open_keys :: "pending_cleanup \<Rightarrow> string set" where
  "open_keys c = (if pc_gateway_done c then {} else set_option (pc_management c)) \<union> target_keys (targets_of c)"

text \<open>The primary entry of a journal is not taken for an incomplete one while its key is exposed.\<close>

definition primary_ok :: "string set \<Rightarrow> pending_cleanup \<Rightarrow> bool" where
  "primary_ok X c \<longleftrightarrow>
     (\<forall>k. pc_management c = Some k \<and> k \<in> X \<and> k \<notin> target_keys (targets_of c) \<longrightarrow> filled (pc_delivery c) \<and> filled (pc_generation c))"

text \<open>What a journal has marked done is not exposed, and its generation is no empty text.\<close>

definition truthful :: "string set \<Rightarrow> pending_cleanup \<Rightarrow> bool" where
  "truthful X c \<longleftrightarrow> (pc_gateway_done c \<longrightarrow> set_option (pc_management c) \<inter> X = {}) \<and>
     (\<forall>t \<in> set (targets_of c). ct_gateway_done t \<longrightarrow> ct_management t \<notin> X) \<and> pc_generation c \<noteq> Some []"

definition knows :: "string set \<Rightarrow> pending_cleanup \<Rightarrow> bool" where
  "knows X c \<longleftrightarrow> X \<subseteq> open_keys c \<and> primary_ok X c \<and> truthful X c"

definition fallback_ok :: "fallback_target list \<Rightarrow> bool" where
  "fallback_ok ts \<longleftrightarrow> (\<forall>t \<in> set ts. ft_delivery t \<noteq> [] \<and> ft_generation t \<noteq> [])"

definition journaled :: "journal_view \<Rightarrow> bool" where
  "journaled v \<longleftrightarrow> jv_pending v \<noteq> Inr None \<or> jv_fallback v \<noteq> Inr []"

definition journal_covers :: "string + pending_cleanup option \<Rightarrow> string + fallback_target list \<Rightarrow> string set \<Rightarrow> bool" where
  "journal_covers p f X =
     (case (p, f) of
        (Inr p, Inr ts) \<Rightarrow>
          X \<subseteq> (case p of None \<Rightarrow> {} | Some c \<Rightarrow> open_keys c) \<union> ft_management ` set ts \<and>
          (case p of None \<Rightarrow> True | Some c \<Rightarrow> primary_ok X c \<and> truthful X c) \<and> fallback_ok ts
      | _ \<Rightarrow> False)"

definition covered :: "journal_view \<Rightarrow> bool" where
  "covered v \<longleftrightarrow>
     (if journaled v then journal_covers (jv_pending v) (jv_fallback v) (jv_exposed v)
      else jv_exposed v \<subseteq> set_option (jv_management v) \<and>
        (jv_exposed v \<noteq> {} \<longrightarrow> filled (or_null (jv_delivery v) (jv_legacy v))))"

definition clean_items :: "journal_view \<Rightarrow> bool" where
  "clean_items v \<longleftrightarrow> jv_delivery v \<noteq> Some [] \<and> jv_legacy v \<noteq> Some [] \<and> jv_management v \<noteq> Some [] \<and> jv_generation v \<noteq> Some [] \<and>
     [] \<notin> jv_exposed v"

definition wellkept :: "journal_view \<Rightarrow> bool" where
  "wellkept v \<longleftrightarrow> covered v \<and> clean_items v"

text \<open>The cleanup a program holds in its hands knows all there is; the storage covers it too.\<close>

definition in_hand :: "pending_cleanup \<Rightarrow> journal_view \<Rightarrow> bool" where
  "in_hand c v \<longleftrightarrow> wellkept v \<and> journaled v \<and> knows (jv_exposed v) c"

lemma open_keys_same:
  "pc_management c' = pc_management c \<Longrightarrow> pc_gateway_done c' = pc_gateway_done c \<Longrightarrow> targets_of c' = targets_of c \<Longrightarrow> open_keys c' = open_keys c"
  by (simp add: open_keys_def)

lemma knows_same:
  "pc_management c' = pc_management c \<Longrightarrow> pc_gateway_done c' = pc_gateway_done c \<Longrightarrow> targets_of c' = targets_of c \<Longrightarrow>
   pc_delivery c' = pc_delivery c \<Longrightarrow> pc_generation c' = pc_generation c \<Longrightarrow> knows X c' = knows X c"
  by (simp add: knows_def primary_ok_def open_keys_def truthful_def)

lemma knows_less: "knows X c \<Longrightarrow> Y \<subseteq> X \<Longrightarrow> knows Y c"
  by (auto simp: knows_def primary_ok_def truthful_def)

lemma in_hand_wellkept: "in_hand c v \<Longrightarrow> wellkept v"
  by (simp add: in_hand_def)

text \<open>Writing the cleanup down.\<close>

lemma written_wellkept:
  assumes "wellkept v" "knows (jv_exposed v) c"
  shows "in_hand c (v\<lparr>jv_pending := Inr (Some c)\<rparr>)"
proof -
  obtain ts where ts: "jv_fallback v = Inr ts" "fallback_ok ts"
  proof (cases "journaled v")
    case True
    then show ?thesis using assms(1) that by (auto simp: wellkept_def covered_def journal_covers_def split: sum.splits)
  next
    case False
    then show ?thesis using that [of "[]"] by (simp add: journaled_def fallback_ok_def)
  qed
  then show ?thesis
    using assms by (auto simp: in_hand_def wellkept_def covered_def journal_covers_def journaled_def knows_def clean_items_def)
qed

lemma persist_ok:
  assumes "wellkept v" "knows (jv_exposed v) c" "\<And>e. Q (Inl e) v"
    "\<And>v'. in_hand c v' \<Longrightarrow> v' = v\<lparr>jv_pending := Inr (Some c)\<rparr> \<Longrightarrow> Q (Inr ()) v'"
  shows "holds wellkept (persist_pending_push_cleanup c) Q v"
  by (rule h_persist) (use assms written_wellkept [OF assms(1,2)] in \<open>auto dest: in_hand_wellkept\<close>)

text \<open>The credentials may go when there is a journal.\<close>

definition same_journal :: "journal_view \<Rightarrow> journal_view \<Rightarrow> bool" where
  "same_journal v v' \<longleftrightarrow> jv_pending v' = jv_pending v \<and> jv_fallback v' = jv_fallback v \<and> jv_exposed v' = jv_exposed v \<and>
     jv_unsaved v' = jv_unsaved v"

lemma forget_credential:
  assumes "wellkept v" "journaled v"
  shows "wellkept (v\<lparr>jv_delivery := None\<rparr>)" "wellkept (v\<lparr>jv_legacy := None\<rparr>)" "wellkept (v\<lparr>jv_management := None\<rparr>)"
    "wellkept (v\<lparr>jv_generation := None\<rparr>)"
  using assms by (simp_all add: wellkept_def covered_def clean_items_def journaled_def)

lemma journaled_update [simp]:
  "journaled (v\<lparr>jv_delivery := x\<rparr>) = journaled v" "journaled (v\<lparr>jv_legacy := x\<rparr>) = journaled v"
  "journaled (v\<lparr>jv_management := x\<rparr>) = journaled v" "journaled (v\<lparr>jv_generation := x\<rparr>) = journaled v"
  "journaled (v\<lparr>jv_exposed := X\<rparr>) = journaled v"
  by (simp_all add: journaled_def)

lemma clear_credentials_ok:
  assumes v: "wellkept v" "journaled v" and Q: "\<And>v'. wellkept v' \<Longrightarrow> same_journal v v' \<Longrightarrow> Q (Inr ()) v'"
  shows "holds wellkept (clear_push_credentials g m d) Q v"
proof -
  have same: "same_journal v v" by (simp add: same_journal_def)
  have "holds wellkept (bindP (ls_remove push_delivery_key_storage) (\<lambda>_.
            bindP (ls_remove push_management_key_storage) (\<lambda>_.
            bindP (ls_remove push_generation_storage) (\<lambda>_.
            bindP (ls_remove push_endpoint_storage) (\<lambda>_.
              ls_remove legacy_push_key_storage))))) Q v"
    by (intro h_bind h_remove) (auto simp: v forget_credential same_journal_def intro!: h_bind h_remove Q forget_credential)
  then show ?thesis
    unfolding clear_push_credentials_def
    by (intro h_bind h_get) (auto simp: v same intro!: h_bind h_get h_Ret Q)
qed

lemma targets_of_update [simp]: "targets_of (c\<lparr>pc_targets := Some ts\<rparr>) = ts"
  by (simp add: targets_of_def)

section \<open>The start of a cleanup\<close>

text \<open>What reading the credentials gives: what is stored, and nonempty texts for the rest.\<close>

definition given_text :: "string option \<Rightarrow> string \<Rightarrow> bool" where
  "given_text stored x \<longleftrightarrow> (case stored of Some y \<Rightarrow> x = y | None \<Rightarrow> x \<noteq> [])"

definition credentials_read :: "bool \<Rightarrow> journal_view \<Rightarrow> push_credentials option \<Rightarrow> bool" where
  "credentials_read create v r \<longleftrightarrow>
     (case r of
        None \<Rightarrow> \<not> create \<and> (\<not> filled (or_null (jv_delivery v) (jv_legacy v)) \<or> \<not> filled (jv_management v))
      | Some c \<Rightarrow> (create \<or> (filled (or_null (jv_delivery v) (jv_legacy v)) \<and> filled (jv_management v))) \<and>
          given_text (or_null (jv_delivery v) (jv_legacy v)) (cr_delivery c) \<and> given_text (jv_management v) (cr_management c) \<and>
          given_text (or_null (jv_generation v) (jv_management v)) (cr_generation c))"

lemma draw_ok:
  "wellkept v \<Longrightarrow> (\<And>x. given_text s x \<Longrightarrow> Q (Inr x) v) \<Longrightarrow> holds wellkept (case s of Some x \<Rightarrow> Ret x | None \<Rightarrow> ask en_random) Q v"
  by (cases s) (auto simp: given_text_def sane_env_def intro!: h_Ret h_ask)

lemma read_credentials_ok:
  assumes v: "wellkept v" and Q: "\<And>r. credentials_read create v r \<Longrightarrow> Q (Inr r) v"
  shows "holds wellkept (read_push_credentials create) Q v"
proof -
  let ?d = "or_null (jv_delivery v) (jv_legacy v)"
  have made: "holds wellkept
      (bindP (case ?d of Some x \<Rightarrow> Ret x | None \<Rightarrow> ask en_random) (\<lambda>delivery.
       bindP (case jv_management v of Some x \<Rightarrow> Ret x | None \<Rightarrow> ask en_random) (\<lambda>management.
       bindP (case or_null (jv_generation v) (jv_management v) of Some x \<Rightarrow> Ret x | None \<Rightarrow> ask en_random) (\<lambda>generation.
         Ret (Some \<lparr>cr_delivery = delivery, cr_management = management, cr_generation = generation, cr_legacy = b\<rparr>))))) Q v"
    if c: "create \<or> (filled ?d \<and> filled (jv_management v))" for b
  proof (rule h_bind, rule draw_ok [OF v], unfold sum.case, rule h_bind, rule draw_ok [OF v], unfold sum.case, rule h_bind,
      rule draw_ok [OF v], unfold sum.case, rule h_Ret)
    fix d m g assume "given_text ?d d" "given_text (jv_management v) m" "given_text (or_null (jv_generation v) (jv_management v)) g"
    then show "Q (Inr (Some \<lparr>cr_delivery = d, cr_management = m, cr_generation = g, cr_legacy = b\<rparr>)) v"
      using c by (intro Q) (simp add: credentials_read_def)
  qed
  show ?thesis
    unfolding read_push_credentials_def
  proof (rule h_bind, rule h_get(1) [where J = wellkept, OF v], unfold sum.case, rule h_bind, rule h_get(2) [where J = wellkept, OF v], unfold sum.case, rule h_bind,
      rule h_get(3) [where J = wellkept, OF v], unfold sum.case, rule h_bind, rule h_get(4) [where J = wellkept, OF v], unfold sum.case Let_def)
    show "holds wellkept (if (\<not> filled ?d \<or> \<not> filled (jv_management v)) \<and> \<not> create then Ret None
        else bindP (case ?d of Some x \<Rightarrow> Ret x | None \<Rightarrow> ask en_random) (\<lambda>delivery.
          bindP (case jv_management v of Some x \<Rightarrow> Ret x | None \<Rightarrow> ask en_random) (\<lambda>management.
          bindP (case or_null (jv_generation v) (jv_management v) of Some x \<Rightarrow> Ret x | None \<Rightarrow> ask en_random) (\<lambda>generation.
            Ret (Some \<lparr>cr_delivery = delivery, cr_management = management, cr_generation = generation,
              cr_legacy = filled (jv_management v) \<and> (jv_generation v = None \<or> jv_generation v = jv_management v)\<rparr>))))) Q v"
    proof (cases "(\<not> filled ?d \<or> \<not> filled (jv_management v)) \<and> \<not> create")
      case True
      show ?thesis unfolding if_P [OF True] by (intro h_Ret Q) (use True in \<open>simp add: credentials_read_def\<close>)
    next
      case False
      show ?thesis unfolding if_not_P [OF False] by (rule made) (use False in auto)
    qed
  qed
qed

lemma add_target_facts:
  "pc_management (add_target d m c) = pc_management c" "pc_gateway_done (add_target d m c) = pc_gateway_done c"
  "pc_delivery (add_target d m c) = pc_delivery c" "pc_generation (add_target d m c) = pc_generation c"
  "target_keys (targets_of (add_target d m c)) = (if known_management c m then target_keys (targets_of c) else insert m (target_keys (targets_of c)))"
  by (cases "known_management c m"; auto simp: add_target_def target_keys_def new_target_def)+

text \<open>Merging the fallback record into a journal that is truthful: everything exposed is open in it.\<close>

lemma add_target_truthful: "truthful X c \<Longrightarrow> truthful X (add_target d m c)"
  by (auto simp: add_target_def truthful_def new_target_def)

lemma known_open: "truthful X c \<Longrightarrow> known_management c m \<Longrightarrow> m \<in> X \<Longrightarrow> m \<in> open_keys c"
  by (force simp: truthful_def known_management_def open_keys_def target_keys_def)

lemma add_target_open:
  "truthful X c \<Longrightarrow> X \<inter> (open_keys c \<union> {m}) \<subseteq> open_keys (add_target d m c)"
  using known_open [of X c m] by (auto simp: open_keys_def add_target_facts split: if_splits)

lemma add_target_primary: "primary_ok X c \<Longrightarrow> primary_ok X (add_target d m c)"
  by (auto simp: primary_ok_def add_target_facts split: if_splits)

lemma merged_knows:
  "X \<subseteq> open_keys c \<union> ft_management ` set ts \<Longrightarrow> primary_ok X c \<Longrightarrow> truthful X c \<Longrightarrow>
   knows X (fold (\<lambda>t. add_target (ft_delivery t) (ft_management t)) ts c)"
proof (induction ts arbitrary: c)
  case Nil
  then show ?case by (simp add: knows_def)
next
  case (Cons t ts)
  let ?c = "add_target (ft_delivery t) (ft_management t) c"
  have "X \<subseteq> open_keys ?c \<union> ft_management ` set ts"
    using Cons.prems(1) add_target_open [OF Cons.prems(3), of "ft_management t" "ft_delivery t"] by auto
  then show ?case
    using Cons.IH [of ?c] Cons.prems(2,3) add_target_truthful add_target_primary by simp
qed

lemma knows_flags:
  "knows X (c\<lparr>pc_subscription_done := b\<rparr>) = knows X c" "knows X (c\<lparr>pc_worker_done := b\<rparr>) = knows X c"
  "knows X (c\<lparr>pc_notifications_done := b\<rparr>) = knows X c" "knows X (c\<lparr>pc_badge_done := b\<rparr>) = knows X c"
  "knows X (c\<lparr>pc_abandon := b\<rparr>) = knows X c" "knows X (c\<lparr>pc_endpoint := e\<rparr>) = knows X c" "knows X (c\<lparr>pc_pusher_done := b\<rparr>) = knows X c"
  by (rule knows_same; simp add: targets_of_def)+

lemma in_hand_flags:
  "in_hand (c\<lparr>pc_subscription_done := b\<rparr>) v = in_hand c v" "in_hand (c\<lparr>pc_worker_done := b\<rparr>) v = in_hand c v"
  "in_hand (c\<lparr>pc_notifications_done := b\<rparr>) v = in_hand c v" "in_hand (c\<lparr>pc_badge_done := b\<rparr>) v = in_hand c v"
  "in_hand (c\<lparr>pc_abandon := b\<rparr>) v = in_hand c v" "in_hand (c\<lparr>pc_endpoint := e\<rparr>) v = in_hand c v"
  "in_hand (c\<lparr>pc_pusher_done := b\<rparr>) v = in_hand c v"
  by (simp_all add: in_hand_def knows_flags)

lemma same_journal_in_hand: "in_hand c v \<Longrightarrow> wellkept v' \<Longrightarrow> same_journal v v' \<Longrightarrow> in_hand c v'"
  by (simp add: in_hand_def same_journal_def journaled_def)

lemma clear_in_hand:
  assumes "in_hand c v" and "\<And>v'. in_hand c v' \<Longrightarrow> same_journal v v' \<Longrightarrow> Q (Inr ()) v'"
  shows "holds wellkept (clear_push_credentials g m d) Q v"
proof (rule clear_credentials_ok)
  show "wellkept v" "journaled v" using assms(1) by (simp_all add: in_hand_def)
  show "Q (Inr ()) v'" if "wellkept v'" "same_journal v v'" for v'
    using assms(2) same_journal_in_hand [OF assms(1) that] that(2) by blast
qed

text \<open>The three ways a cleanup starts: from the journal, from the fallback record, from the credentials.\<close>

lemma pending_in_hand:
  assumes "wellkept v" "jv_pending v = Inr (Some p)" "jv_fallback v = Inr ts"
  shows "in_hand (if ts = [] then p else merge_fallback_push_cleanup ts p) v"
proof -
  have j: "journaled v" using assms(2) by (simp add: journaled_def)
  then have "jv_exposed v \<subseteq> open_keys p \<union> ft_management ` set ts" "primary_ok (jv_exposed v) p" "truthful (jv_exposed v) p"
    using assms by (auto simp: wellkept_def covered_def journal_covers_def)
  from merged_knows [OF this]
  have k: "knows (jv_exposed v) (fold (\<lambda>t. add_target (ft_delivery t) (ft_management t)) ts p)" .
  show ?thesis
  proof (cases "ts = []")
    case True
    then show ?thesis using k assms(1) j by (simp add: in_hand_def)
  next
    case False
    then show ?thesis using k assms(1) j by (simp add: in_hand_def merge_fallback_push_cleanup_def knows_flags)
  qed
qed

lemma fallback_knows:
  assumes "wellkept v" "jv_pending v = Inr None" "jv_fallback v = Inr (t # ts)"
    and c: "pc_generation c = Some (ft_generation t)" "pc_delivery c = Some (ft_delivery t)" "pc_management c = Some (ft_management t)"
      "\<not> pc_gateway_done c" "pc_targets c = Some (map (\<lambda>t. new_target (ft_delivery t) (ft_management t)) ts)"
  shows "knows (jv_exposed v) c"
proof -
  have "journaled v" using assms(3) by (simp add: journaled_def)
  then have "jv_exposed v \<subseteq> ft_management ` set (t # ts)" "fallback_ok (t # ts)"
    using assms(1-3) by (auto simp: wellkept_def covered_def journal_covers_def)
  then show ?thesis
    using c by (auto simp: knows_def open_keys_def target_keys_def primary_ok_def truthful_def targets_of_def new_target_def
        fallback_ok_def filled_def)
qed

lemma stored_knows:
  assumes v: "wellkept v" "jv_pending v = Inr None" "jv_fallback v = Inr []" and r: "credentials_read False v r"
    and c: "pc_management c = or_null (map_option cr_management r) (jv_management v)"
      "pc_delivery c = or_null (map_option cr_delivery r) (or_null (jv_delivery v) (jv_legacy v))"
      "pc_generation c = or_null (map_option cr_generation r) (or_null (jv_generation v) (pc_management c))"
      "pc_gateway_done c \<longleftrightarrow> \<not> filled (pc_management c)" "pc_targets c = None"
  shows "knows (jv_exposed v) c"
proof -
  have m: "pc_management c = jv_management v"
    using r c(1) by (cases r; cases "jv_management v") (auto simp: credentials_read_def given_text_def or_null_def filled_def)
  have x: "jv_exposed v \<subseteq> set_option (jv_management v)" "[] \<notin> jv_exposed v"
      "jv_exposed v \<noteq> {} \<longrightarrow> filled (or_null (jv_delivery v) (jv_legacy v))" "jv_generation v \<noteq> Some []"
      "jv_management v \<noteq> Some []"
    using v by (auto simp: wellkept_def covered_def journaled_def clean_items_def)
  have g: "pc_generation c \<noteq> Some []"
  proof (cases r)
    case None
    then show ?thesis using x(4,5) by (cases "jv_generation v") (simp_all add: c(3) m or_null_def)
  next
    case (Some cr)
    then have "given_text (or_null (jv_generation v) (jv_management v)) (cr_generation cr)"
      using r by (simp add: credentials_read_def)
    then have "cr_generation cr \<noteq> []"
      using x(4,5) by (cases "jv_generation v"; cases "jv_management v") (auto simp: given_text_def or_null_def)
    then show ?thesis by (simp add: c(3) Some or_null_def)
  qed
  show ?thesis
  proof (cases "jv_management v")
    case None
    then show ?thesis using x g by (simp add: knows_def primary_ok_def truthful_def m c(5) targets_of_def)
  next
    case (Some k)
    show ?thesis
    proof (cases "k \<in> jv_exposed v")
      case False
      then have "jv_exposed v = {}" using x(1) Some by auto
      then show ?thesis using g by (simp add: knows_def primary_ok_def truthful_def)
    next
      case True
      then have k: "k \<noteq> []" "filled (or_null (jv_delivery v) (jv_legacy v))" using x by auto
      then obtain cr where cr: "r = Some cr" "cr_delivery cr \<noteq> []" "cr_generation cr \<noteq> []"
        using r Some x(4) by (cases r; cases "or_null (jv_delivery v) (jv_legacy v)"; cases "jv_generation v")
          (auto simp: credentials_read_def given_text_def filled_def or_null_def)
      then have "filled (pc_delivery c)" "filled (pc_generation c)" by (simp_all add: c or_null_def filled_def)
      moreover have "\<not> pc_gateway_done c" using k Some by (simp add: c(4) m filled_def)
      ultimately show ?thesis
        using x(1) Some g by (auto simp: knows_def open_keys_def primary_ok_def truthful_def m c(5) targets_of_def)
    qed
  qed
qed

lemma begin_ok:
  assumes v: "wellkept v" and failed: "\<And>e. Q (Inl e) v" and begun: "\<And>c v'. in_hand c v' \<Longrightarrow> Q (Inr c) v'"
  shows "holds wellkept begin_local_push_cleanup Q v"
proof -
  have finish: "holds wellkept (bindP (clear_push_credentials g m d) (\<lambda>_. Ret c)) Q v'" if "in_hand c v'" for c v' g m d
    by (intro h_bind clear_in_hand [OF that]) (simp add: h_Ret begun)
  have fallback: "holds wellkept (bindP (catchP (persist_pending_push_cleanup c) (\<lambda>_. Ret ())) (\<lambda>_.
       bindP (clear_push_credentials g m d) (\<lambda>_. Ret c))) Q v"
    if "knows (jv_exposed v) c" "journaled v" for c g m d
  proof (rule h_bind, rule h_catch, rule persist_ok [OF v that(1)])
    have "in_hand c v" using that v by (simp add: in_hand_def)
    then show "case Inl e of Inl e \<Rightarrow> holds wellkept (Ret ()) (\<lambda>r v. case r of Inl e \<Rightarrow> Q (Inl e) v
        | Inr a \<Rightarrow> holds wellkept (bindP (clear_push_credentials g m d) (\<lambda>_. Ret c)) Q v) v
        | Inr a \<Rightarrow> (case Inr a of Inl e \<Rightarrow> Q (Inl e) v | Inr a \<Rightarrow> holds wellkept (bindP (clear_push_credentials g m d) (\<lambda>_. Ret c)) Q v)" for e
      by (simp add: h_Ret finish)
  qed (simp add: finish)
  have stored: "holds wellkept (bindP (persist_pending_push_cleanup c) (\<lambda>_. bindP (clear_push_credentials g m d) (\<lambda>_. Ret c))) Q v"
    if "knows (jv_exposed v) c" for c g m d
    by (rule h_bind, rule persist_ok [OF v that]) (simp_all add: finish failed)
  show ?thesis
    unfolding begin_local_push_cleanup_def
  proof (rule s_ask [where J = wellkept, OF v], rule s_set(3) [where J = wellkept, OF v], rule failed, rule s_read(1) [where J = wellkept, OF v], rule failed, rule s_read(2) [where J = wellkept, OF v], rule failed, goal_cases)
    case (1 e p ts)
    show ?case
    proof (cases p)
      case (Some c)
      then show ?thesis using finish [OF pending_in_hand [OF v]] 1 by (simp add: Let_def)
    next
      case None
      show ?thesis
      proof (cases ts)
        case (Cons t ts')
        then have "journaled v" using 1 by (simp add: journaled_def)
        then show ?thesis
          unfolding None Cons option.case list.case
          using 1 None Cons by (intro s_ask [where J = wellkept, OF v]) (simp add: Let_def, intro fallback fallback_knows [OF v], simp_all)
      next
        case Nil
        show ?thesis
          unfolding None Nil option.case list.case
        proof (rule h_bind, rule read_credentials_ok [OF v], unfold sum.case, rule s_get(1) [where J = wellkept, OF v],
            rule s_get(2) [where J = wellkept, OF v], rule s_get(3) [where J = wellkept, OF v], rule s_get(4) [where J = wellkept, OF v],
            rule s_get_any [where J = wellkept, OF v], rule s_ask [where J = wellkept, OF v], goal_cases)
          case (1 r)
          then show ?case
            unfolding Let_def using 1 \<open>jv_pending v = Inr p\<close> \<open>jv_fallback v = Inr ts\<close> None Nil
            by (intro stored stored_knows [OF v _ _ 1(1)]) simp_all
        qed
      qed
    qed
  qed
qed

section \<open>Completing the journal\<close>

lemma journal_cleanup_ok:
  assumes v: "wellkept v" and failed: "\<And>e v'. wellkept v' \<Longrightarrow> Q (Inl e) v'" and begun: "\<And>c v'. in_hand c v' \<Longrightarrow> Q (Inr c) v'"
  shows "holds wellkept (journal_cleanup abandon) Q v"
  unfolding journal_cleanup_def
proof (rule h_bind, rule begin_ok [OF v], goal_cases)
  case (1 e)
  then show ?case using failed [OF v] by simp
next
  case (2 c v')
  then have k: "knows (jv_exposed v') (c\<lparr>pc_abandon := True\<rparr>)" "wellkept v'" by (simp_all add: in_hand_def knows_flags)
  have "holds wellkept (bindP (persist_pending_push_cleanup (c\<lparr>pc_abandon := True\<rparr>)) (\<lambda>_. Ret (c\<lparr>pc_abandon := True\<rparr>))) Q v'"
    by (rule h_bind, rule persist_ok [OF k(2,1)]) (simp_all add: h_Ret begun failed k)
  then show ?case using 2 begun by (simp add: h_Ret)
qed

lemma canonical_ok:
  assumes c: "in_hand c v" and failed: "\<And>e v'. wellkept v' \<Longrightarrow> Q (Inl e) v'" and made: "\<And>c v'. in_hand c v' \<Longrightarrow> Q (Inr c) v'"
  shows "holds wellkept (canonical_cleanup_generation c) Q v"
proof -
  have v: "wellkept v" using c by (rule in_hand_wellkept)
  have step: "holds wellkept (bindP (persist_pending_push_cleanup (c\<lparr>pc_generation := Some g\<rparr>)) (\<lambda>_. Ret (c\<lparr>pc_generation := Some g\<rparr>))) Q v"
    if "g \<noteq> []" for g
  proof (rule h_bind, rule persist_ok [OF v])
    show "knows (jv_exposed v) (c\<lparr>pc_generation := Some g\<rparr>)"
      using c that by (auto simp: in_hand_def knows_def primary_ok_def truthful_def open_keys_def targets_of_def filled_def)
  qed (simp_all add: h_Ret made failed v)
  show ?thesis
    unfolding canonical_cleanup_generation_def generation_for_management_key_def
    by (rule h_if, rule s_ask_sum [where J = wellkept, OF v])
      (use c in \<open>auto simp: failed v sane_env_def intro!: step h_Ret made\<close>)
qed

definition config_ok :: "worker_config option \<Rightarrow> bool" where
  "config_ok config \<longleftrightarrow>
     (case config of None \<Rightarrow> True | Some k \<Rightarrow> wc_delivery k \<noteq> [] \<and> wc_management k \<noteq> [] \<and> filled (wc_generation k))"

text \<open>Talking to the worker changes nothing here.\<close>

definition inert :: "'a page_prog \<Rightarrow> bool" where
  "inert p \<longleftrightarrow> (\<forall>Q v. wellkept v \<longrightarrow> (\<forall>r. Q r v) \<longrightarrow> holds wellkept p Q v)"

lemma inertD: "inert p \<Longrightarrow> wellkept v \<Longrightarrow> (\<And>r. Q r v) \<Longrightarrow> holds wellkept p Q v"
  by (simp add: inert_def)

lemma inert_bind: "inert p \<Longrightarrow> (\<And>a. inert (k a)) \<Longrightarrow> inert (bindP p k)"
  by (auto simp: inert_def intro!: h_bind split: sum.split)

lemma inert_catch: "inert p \<Longrightarrow> (\<And>e. inert (h e)) \<Longrightarrow> inert (catchP p h)"
  by (auto simp: inert_def intro!: h_catch split: sum.split)

lemma inert_simps [simp]:
  "inert (Ret a)" "inert (Raise e)" "inert call_browser" "inert send_push_config_message" "inert (ask_sum sel)" "inert (ask sel2)"
  "inert (ls_get key)"
  by (auto simp: inert_def intro: h_Ret h_Raise h_call h_message h_ask_sum h_ask h_get_any)

lemma inert_worker [simp]: "inert clear_service_worker_push_config" "inert read_service_worker_push_config"
  by (auto simp: clear_service_worker_push_config_def read_service_worker_push_config_def intro!: inert_bind split: option.split)

lemma inert_attempt [simp]: "inert p \<Longrightarrow> inert (attempt p)"
  by (auto simp: attempt_def intro!: inert_catch inert_bind)

lemma probe_ok:
  assumes v: "wellkept v" and failed: "\<And>e. Q (Inl e) v" and found: "\<And>config. config_ok config \<Longrightarrow> Q (Inr config) v"
  shows "holds wellkept probe_service_worker Q v"
proof -
  have migrate: "holds wellkept (bindP (migrate_service_worker_push_config m g) (\<lambda>c. Ret (Some c))) Q v" if "g \<noteq> []" for m g
    unfolding migrate_service_worker_push_config_def bindP_assoc
    by (rule s_message [where J = wellkept, OF v])
      (use that in \<open>auto simp: failed sane_env_def config_ok_def filled_def intro!: h_Ret h_Raise found h_bind split: option.split\<close>)
  have config: "wc_delivery k \<noteq> [] \<and> wc_management k \<noteq> [] \<and> wc_generation k \<noteq> Some []"
    if "sane_env e" "read_reply (en_reply e) = Inr m" "cm_config m = Some (Some k)" for e m k
    using that by (simp add: sane_env_def)
  have read: "holds wellkept read_and_migrate_service_worker_push_config Q v"
    unfolding read_and_migrate_service_worker_push_config_def read_service_worker_push_config_def bindP_assoc
  proof (rule s_message [where J = wellkept, OF v], rule failed, goal_cases)
    case (1 e m)
    show ?case
    proof (cases "cm_config m")
      case None
      then show ?thesis by (auto intro!: h_bind h_Raise failed)
    next
      case (Some config)
      show ?thesis
      proof (cases config)
        case None
        then show ?thesis using Some by (auto intro!: h_Ret found simp: config_ok_def)
      next
        case (Some k)
        have k: "wc_delivery k \<noteq> [] \<and> wc_management k \<noteq> [] \<and> wc_generation k \<noteq> Some []"
          using config [OF 1] Some \<open>cm_config m = Some config\<close> by simp
        have g: "holds wellkept (bindP (generation_for_management_key (wc_management k)) (\<lambda>g.
            bindP (migrate_service_worker_push_config (wc_management k) g) (\<lambda>c. Ret (Some c)))) Q v"
          unfolding generation_for_management_key_def
          by (rule s_ask_sum [where J = wellkept, OF v]) (auto simp: failed sane_env_def intro!: migrate)
        show ?thesis
          using k g Some \<open>cm_config m = Some config\<close> by (auto intro!: h_Ret found simp: config_ok_def filled_def)
      qed
    qed
  qed
  show ?thesis
    unfolding probe_service_worker_def
    by (rule s_ask [where J = wellkept, OF v]) (auto intro!: read h_Raise failed)
qed

lemma adopt_ok:
  assumes c: "in_hand c v" and config: "config_ok config"
    and failed: "\<And>e v'. wellkept v' \<Longrightarrow> Q (Inl e) v'" and made: "\<And>c v'. in_hand c v' \<Longrightarrow> Q (Inr c) v'"
  shows "holds wellkept (adopt_worker_config config c) Q v"
proof (cases config)
  case None
  then show ?thesis using made [OF c] by (simp add: adopt_worker_config_def h_Ret)
next
  case (Some k)
  have v: "wellkept v" using c by (rule in_hand_wellkept)
  have k: "wc_delivery k \<noteq> []" "wc_management k \<noteq> []" "filled (wc_generation k)" using config Some by (auto simp: config_ok_def)
  have x: "[] \<notin> jv_exposed v" using v by (simp add: wellkept_def clean_items_def)
  have saved: "holds wellkept (bindP (persist_pending_push_cleanup d) (\<lambda>_. Ret d)) Q v" if "knows (jv_exposed v) d" for d
    by (rule h_bind, rule persist_ok [OF v that]) (simp_all add: h_Ret made failed v)
  have "knows (jv_exposed v) (c\<lparr>pc_generation := wc_generation k, pc_delivery := Some (wc_delivery k), pc_management := Some (wc_management k),
      pc_gateway_done := False, pc_pusher_done := False\<rparr>)"
    if "\<not> filled (pc_generation c) \<or> \<not> filled (pc_delivery c) \<or> \<not> filled (pc_management c)"
  proof -
    have "jv_exposed v \<subseteq> target_keys (targets_of c)"
    proof
      fix m assume m: "m \<in> jv_exposed v"
      then show "m \<in> target_keys (targets_of c)"
        using c x m that by (auto simp: in_hand_def knows_def primary_ok_def open_keys_def filled_def split: if_splits)
    qed
    then show ?thesis
      using c k by (auto simp: in_hand_def knows_def primary_ok_def truthful_def open_keys_def targets_of_def filled_def)
  qed
  moreover have "knows (jv_exposed v) (c\<lparr>pc_generation := wc_generation k\<rparr>)"
    using c k by (auto simp: in_hand_def knows_def primary_ok_def truthful_def open_keys_def targets_of_def)
  ultimately show ?thesis
    unfolding adopt_worker_config_def Some option.case Let_def
    by (intro h_if saved) (auto intro!: h_Ret made c)
qed

section \<open>The orphaned database\<close>

lemma token_texts:
  "is_capability x \<Longrightarrow> json_text_of x \<noteq> []" "is_generation x \<Longrightarrow> json_text_of x \<noteq> []"
  by (cases x; force simp: is_capability_def is_generation_def json_text_of_def)+

lemma strict_config_filled:
  assumes "strict_persisted_push_config x = Some k"
  shows "cr_delivery k \<noteq> [] \<and> cr_management k \<noteq> [] \<and> cr_generation k \<noteq> []"
proof -
  let ?g = "js_opt ''generation'' x"
  have d: "is_capability (js_opt ''deliveryKey'' x)" "is_capability (js_opt ''managementKey'' x)"
    and g: "''generation'' \<in> set (map fst (own_props x)) \<longrightarrow> is_generation ?g"
    and k: "k = \<lparr>cr_delivery = json_text_of (js_opt ''deliveryKey'' x), cr_management = json_text_of (js_opt ''managementKey'' x),
      cr_generation = (if is_str ?g then json_text_of ?g else json_text_of (js_opt ''managementKey'' x)), cr_legacy = False\<rparr>"
    using assms unfolding strict_persisted_push_config_def Let_def by (simp_all split: if_splits)
  have "is_generation ?g" if s: "is_str ?g"
  proof (rule g [THEN mp], rule ccontr)
    assume "''generation'' \<notin> set (map fst (own_props x))"
    then have "map_of (own_props x) ''generation'' = None" by (simp add: map_of_eq_None_iff)
    then have "?g = JUndef" by (auto simp: js_opt_def js_prop_def)
    then show False using s by (simp add: is_str_def)
  qed
  then show ?thesis using d k token_texts by auto
qed

lemma orphan_add_knows:
  "knows X c \<Longrightarrow> knows X (c\<lparr>pc_targets := Some (targets_of c @ [new_target d m])\<rparr>)"
  by (auto simp: knows_def primary_ok_def truthful_def open_keys_def target_keys_def new_target_def)

lemma knows_completed:
  "knows X c \<Longrightarrow> pc_management d = pc_management c \<Longrightarrow> pc_gateway_done d = pc_gateway_done c \<Longrightarrow> targets_of d = targets_of c \<Longrightarrow>
   (filled (pc_delivery c) \<Longrightarrow> filled (pc_delivery d)) \<Longrightarrow> (filled (pc_generation c) \<Longrightarrow> filled (pc_generation d)) \<Longrightarrow>
   (pc_generation c \<noteq> Some [] \<Longrightarrow> pc_generation d \<noteq> Some []) \<Longrightarrow> knows X d"
  by (simp add: knows_def primary_ok_def truthful_def open_keys_same [of d c])

lemma unfilled_targets: "knows X c \<Longrightarrow> [] \<notin> X \<Longrightarrow> \<not> filled (pc_management c) \<Longrightarrow> X \<subseteq> target_keys (targets_of c)"
  by (auto simp: knows_def open_keys_def filled_def split: if_splits)

lemma replaced_knows:
  assumes "X \<subseteq> target_keys (targets_of c)" "truthful X c" "filled d" "filled g"
    "pc_delivery c' = d" "pc_generation c' = g" "\<not> pc_gateway_done c'" "targets_of c' = targets_of c"
  shows "knows X c'"
  using assms by (auto simp: knows_def primary_ok_def truthful_def open_keys_def)

lemma recovered_knows:
  assumes r: "recovered_cleanup k c = Inr c'" and c: "knows X c" "[] \<notin> X"
    and k: "cr_delivery k \<noteq> []" "cr_management k \<noteq> []" "cr_generation k \<noteq> []"
  shows "knows X c'"
proof (cases "\<not> filled (pc_delivery c) \<and> \<not> filled (pc_management c)")
  case True
  then have "c' = c\<lparr>pc_delivery := Some (cr_delivery k), pc_management := Some (cr_management k),
      pc_generation := Some (cr_generation k), pc_gateway_done := False, pc_pusher_done := False,
      pc_subscription_done := False, pc_worker_done := False, pc_notifications_done := False\<rparr>"
    using r by (simp add: recovered_cleanup_def)
  then show ?thesis
    using unfilled_targets [OF c] True c(1) k
    by (intro replaced_knows [of X c "Some (cr_delivery k)" "Some (cr_generation k)"]) (simp_all add: knows_def filled_def targets_of_def)
next
  case False
  show ?thesis
  proof (cases "pc_management c = Some (cr_management k)")
    case True
    then have "c' = (if filled (pc_delivery c) then c else c\<lparr>pc_delivery := Some (cr_delivery k), pc_pusher_done := False\<rparr>)
        \<lparr>pc_generation := or_null (pc_generation c) (Some (cr_generation k)),
         pc_subscription_done := False, pc_worker_done := False, pc_notifications_done := False\<rparr>"
      using r False unfolding recovered_cleanup_def Let_def if_not_P [OF False] if_P [OF True]
      by (simp split: if_splits)
    then show ?thesis
      by (intro knows_completed [OF c(1)]) (use k in \<open>auto simp: targets_of_def or_null_def filled_def split: option.split\<close>)
  next
    case other: False
    show ?thesis
    proof (cases "find (\<lambda>t. ct_management t = cr_management k) (targets_of c)")
      case None
      then show ?thesis
        using r orphan_add_knows [OF c(1)] unfolding recovered_cleanup_def Let_def if_not_P [OF False] if_not_P [OF other]
        by (auto simp: knows_flags)
    next
      case (Some t)
      then show ?thesis
        using r c(1) unfolding recovered_cleanup_def Let_def if_not_P [OF False] if_not_P [OF other]
        by (auto simp: knows_flags split: if_splits)
    qed
  qed
qed

text \<open>A key that the journal has taken over may count as exposed.\<close>

lemma knows_insert:
  "knows X c \<Longrightarrow> m \<in> open_keys c \<Longrightarrow> \<not> journal_deleted c m \<Longrightarrow>
   (pc_management c = Some m \<Longrightarrow> m \<notin> target_keys (targets_of c) \<Longrightarrow> filled (pc_delivery c) \<and> filled (pc_generation c)) \<Longrightarrow>
   knows (insert m X) c"
  by (auto simp: knows_def primary_ok_def truthful_def journal_deleted_def list_ex_iff)

lemma journal_deleted_same:
  "pc_management d = pc_management c \<Longrightarrow> pc_gateway_done d = pc_gateway_done c \<Longrightarrow> targets_of d = targets_of c \<Longrightarrow>
   journal_deleted d m = journal_deleted c m"
  by (simp add: journal_deleted_def)

lemma recovered_found:
  assumes r: "recovered_cleanup k c = Inr c'" and c: "knows X c" "[] \<notin> X"
    and k: "cr_delivery k \<noteq> []" "cr_management k \<noteq> []" "cr_generation k \<noteq> []"
    and left: "\<not> journal_deleted c (cr_management k)"
  shows "knows (insert (cr_management k) X) c'"
proof (rule knows_insert [OF recovered_knows [OF r c k]])
  let ?m = "cr_management k"
  consider (fresh) "pc_management c' = Some ?m" "\<not> pc_gateway_done c'" "targets_of c' = targets_of c"
      "filled (pc_delivery c')" "filled (pc_generation c')"
    | (listed) "pc_management c' = pc_management c" "pc_management c \<noteq> Some ?m" "pc_gateway_done c' = pc_gateway_done c"
      "targets_of c' = targets_of c" "?m \<in> ct_management ` set (targets_of c)"
    | (added) "pc_management c' = pc_management c" "pc_management c \<noteq> Some ?m" "pc_gateway_done c' = pc_gateway_done c"
      "targets_of c' = targets_of c @ [new_target (cr_delivery k) ?m]"
  proof (cases "\<not> filled (pc_delivery c) \<and> \<not> filled (pc_management c)")
    case True
    then show thesis
      using r k by (intro that(1)) (auto simp: recovered_cleanup_def targets_of_def filled_def)
  next
    case False
    show thesis
    proof (cases "pc_management c = Some ?m")
      case True
      have "\<not> pc_gateway_done c" using left True by (simp add: journal_deleted_def)
      moreover have "pc_generation c \<noteq> Some []" using c(1) by (simp add: knows_def truthful_def)
      ultimately show thesis
        using r True k unfolding recovered_cleanup_def Let_def if_not_P [OF False] if_P [OF True]
        by (intro that(1)) (auto simp: targets_of_def or_null_def filled_def split: if_splits option.split)
    next
      case other: False
      show thesis
      proof (cases "find (\<lambda>t. ct_management t = ?m) (targets_of c)")
        case None
        then show thesis
          using r other unfolding recovered_cleanup_def Let_def if_not_P [OF False] if_not_P [OF other]
          by (intro that(3)) (auto simp: targets_of_def)
      next
        case (Some t)
        then have t: "?m \<in> ct_management ` set (targets_of c)" by (metis (mono_tags, lifting) find_Some_iff image_eqI nth_mem)
        have "c' = c\<lparr>pc_subscription_done := False, pc_worker_done := False, pc_notifications_done := False\<rparr>"
          using r Some unfolding recovered_cleanup_def Let_def if_not_P [OF False] if_not_P [OF other]
          by (simp split: if_splits)
        then show thesis using t other by (intro that(2)) (simp_all add: targets_of_def)
      qed
    qed
  qed
  note cases = this
  show "?m \<in> open_keys c'"
    using cases left by cases (auto simp: open_keys_def target_keys_def new_target_def journal_deleted_def list_ex_iff)
  show "\<not> journal_deleted c' ?m"
    using cases left by cases (auto simp: new_target_def journal_deleted_def list_ex_iff)
  show "filled (pc_delivery c') \<and> filled (pc_generation c')" if "pc_management c' = Some ?m"
    using cases that by cases auto
qed

lemma exposed_in_hand:
  assumes c: "in_hand c v" "jv_pending v = Inr (Some c)" and k: "knows (insert m (jv_exposed v)) c" "m \<noteq> []"
  shows "in_hand c (v\<lparr>jv_exposed := insert m (jv_exposed v)\<rparr>)"
  using assms
  by (auto simp: in_hand_def wellkept_def covered_def clean_items_def journal_covers_def knows_def split: sum.splits)

lemma orphan_inspection_ok:
  assumes c: "in_hand (fst x) v" and Q: "\<And>b x' v'. in_hand (fst x') v' \<Longrightarrow> Q (Inr (b, x')) v'"
  shows "holds wellkept (orphan_inspection look x) Q v"
proof (cases look)
  case False
  then show ?thesis using Q [OF c] by (simp add: orphan_inspection_def h_Ret)
next
  case True
  have v: "wellkept v" "[] \<notin> jv_exposed v" using c by (simp_all add: in_hand_def wellkept_def clean_items_def)
  let ?R = "\<lambda>r v. case r of Inl e \<Rightarrow> holds wellkept (Ret (False, fst x, snd x @ [e])) Q v | Inr a \<Rightarrow> Q (Inr a) v"
  have merge: "holds wellkept (bindP (merge_orphaned_push_credentials k (fst x)) (\<lambda>c.
      bindP (count_found k (fst x)) (\<lambda>_. Ret (True, c, snd x)))) ?R v"
    if k: "cr_delivery k \<noteq> []" "cr_management k \<noteq> []" "cr_generation k \<noteq> []" for k
  proof (cases "recovered_cleanup k (fst x)")
    case (Inl e)
    then show ?thesis by (auto simp: merge_orphaned_push_credentials_def intro!: h_Ret Q c h_bind h_Raise)
  next
    case (Inr c')
    then have k': "knows (jv_exposed v) c'" using recovered_knows c v k by (auto simp: in_hand_def)
    have found: "holds wellkept (bindP (count_found k (fst x)) (\<lambda>_. Ret (True, c', snd x))) ?R v'"
      if "in_hand c' v'" "v' = v\<lparr>jv_pending := Inr (Some c')\<rparr>" for v'
    proof (rule h_bind, rule h_found, goal_cases)
      case 1
      show ?case using that(1) by (rule in_hand_wellkept)
    next
      case 2
      show ?case using that(1) by (auto intro!: h_Ret Q)
    next
      case 3
      have "knows (insert (cr_management k) (jv_exposed v)) c'"
        by (rule recovered_found [OF Inr _ v(2) k 3]) (use c in \<open>simp add: in_hand_def\<close>)
      then have "in_hand c' (v'\<lparr>jv_exposed := insert (cr_management k) (jv_exposed v')\<rparr>)"
        using that k by (intro exposed_in_hand) simp_all
      then show ?case by (auto intro!: h_Ret Q dest: in_hand_wellkept)
    qed
    show ?thesis
      unfolding merge_orphaned_push_credentials_def Inr sum.case bindP_assoc
    proof (rule h_bind, rule persist_ok [OF v(1) k'], goal_cases)
      case (1 e)
      show ?case by (auto intro!: h_Ret Q c)
    next
      case (2 v')
      show ?case unfolding sum.case bindP.simps(1) by (rule found [OF 2])
    qed
  qed
  show ?thesis
    unfolding orphan_inspection_def inspect_orphaned_push_database_def bindP_assoc
  proof (rule h_if, goal_cases)
    case 2
    show ?case
    proof (rule h_catch, rule s_ask_sum [where J = wellkept, OF v(1)], goal_cases)
      case (1 e)
      then show ?case by (auto intro!: h_Ret Q c)
    next
      case (2 e stored)
      show ?case
      proof (cases stored)
        case None
        then show ?thesis using c by (auto intro!: h_Ret Q simp: in_hand_flags)
      next
        case (Some y)
        show ?thesis
        proof (cases "strict_persisted_push_config y")
          case None
          then show ?thesis using Some by (auto intro!: h_Raise h_bind h_Ret Q c)
        next
          case (Some k)
          note k = strict_config_filled [OF this]
          have m: "holds wellkept (bindP (merge_orphaned_push_credentials k' (fst x)) (\<lambda>c.
              bindP (count_found k' (fst x)) (\<lambda>_. Ret (True, c, snd x)))) ?R v"
            if "k' = k \<or> (\<exists>g. g \<noteq> [] \<and> k' = k\<lparr>cr_generation := g, cr_legacy := True\<rparr>)" for k'
            using that k by (intro merge) auto
          show ?thesis
            unfolding \<open>stored = Some y\<close> Some option.case generation_for_management_key_def
          proof (rule h_bind, rule h_if, goal_cases)
            case 1
            show ?case
              by (rule s_ask_sum [where J = wellkept, OF v(1)]) (auto intro!: h_Ret Q c m simp: sane_env_def)
          qed (auto intro!: h_Ret m)
        qed
      qed
    qed
  qed (use True in simp)
qed

section \<open>The parts of a cleanup\<close>

lemma try_part_ok:
  assumes "inert p" and c: "in_hand (fst x) v" and f: "in_hand (f (fst x)) v"
    and Q: "\<And>x' v'. in_hand (fst x') v' \<Longrightarrow> Q (Inr x') v'"
  shows "holds wellkept (try_part p f x) Q v"
  unfolding try_part_def
  by (intro h_catch h_bind inertD [OF assms(1) in_hand_wellkept [OF c]])
    (auto intro!: h_Ret Q c f split: sum.split)

lemma local_parts_ok:
  assumes c: "in_hand (fst x) v" and Q: "\<And>x' v'. in_hand (fst x') v' \<Longrightarrow> Q (Inr x') v'"
  shows "holds wellkept (worker_cleanup r x) Q v" "holds wellkept (notification_cleanup r x) Q v" "holds wellkept (badge_cleanup x) Q v"
    "holds wellkept (orphan_cleanup r x) Q v"
  unfolding worker_cleanup_def notification_cleanup_def badge_cleanup_def orphan_cleanup_def
  by (intro h_if h_Ret Q c try_part_ok; simp add: in_hand_flags c Q)+

lemma wellkept_less:
  assumes "wellkept v" "Y \<subseteq> jv_exposed v"
  shows "wellkept (v\<lparr>jv_exposed := Y\<rparr>)"
proof (cases "journaled v")
  case True
  then have "journal_covers (jv_pending v) (jv_fallback v) (jv_exposed v)" using assms(1) by (simp add: wellkept_def covered_def)
  then have "journal_covers (jv_pending v) (jv_fallback v) Y"
    using assms(2) unfolding journal_covers_def
    by (auto simp: primary_ok_def truthful_def fallback_ok_def split: sum.splits option.splits)
  then show ?thesis using True assms by (auto simp: wellkept_def covered_def clean_items_def)
next
  case False
  then show ?thesis using assms by (auto simp: wellkept_def covered_def clean_items_def)
qed

lemma gateway_remove_ok:
  assumes v: "wellkept v" and removed: "Q (Inr None) (v\<lparr>jv_exposed := jv_exposed v - {m}\<rparr>)" and failed: "\<And>e. Q (Inr (Some e)) v"
  shows "holds wellkept (gateway_remove m) Q v"
  unfolding gateway_remove_def
  by (intro h_catch h_bind h_delete) (auto intro!: h_Ret removed failed v wellkept_less)

lemma marked_target_knows:
  assumes "knows X (c\<lparr>pc_targets := Some (pre @ t # ts)\<rparr>)"
  shows "knows (X - {ct_management t}) (c\<lparr>pc_targets := Some (pre @ t\<lparr>ct_gateway_done := True\<rparr> # ts)\<rparr>)"
proof -
  have keys: "target_keys (pre @ t # ts) - {ct_management t} \<subseteq> target_keys (pre @ t\<lparr>ct_gateway_done := True\<rparr> # ts)"
    by (auto simp: target_keys_def)
  show ?thesis
    using assms keys unfolding knows_def primary_ok_def truthful_def open_keys_def targets_of_update by auto
qed

lemma in_hand_same_targets: "targets_of d = targets_of c \<Longrightarrow> pc_management d = pc_management c \<Longrightarrow> pc_gateway_done d = pc_gateway_done c \<Longrightarrow>
  pc_delivery d = pc_delivery c \<Longrightarrow> pc_generation d = pc_generation c \<Longrightarrow> in_hand d v = in_hand c v"
  by (simp add: in_hand_def knows_same [of d c])

lemma gateway_targets_ok:
  assumes "in_hand (c\<lparr>pc_targets := Some (pre @ ts)\<rparr>) v"
    and "\<And>ts' es v'. length ts' = length ts \<Longrightarrow> in_hand (c\<lparr>pc_targets := Some (pre @ ts')\<rparr>) v' \<Longrightarrow> Q (Inr (ts', es)) v'"
  shows "holds wellkept (gateway_targets ts) Q v"
  using assms
proof (induction ts arbitrary: pre v Q)
  case Nil
  then show ?case by (simp add: h_Ret)
next
  case (Cons t ts)
  have rest: "holds wellkept (bindP (gateway_targets ts) (\<lambda>(ts, es). Ret (t' # ts, e @ es))) Q v'"
    if "in_hand (c\<lparr>pc_targets := Some (pre @ t' # ts)\<rparr>) v'" for t' e v'
  proof (intro h_bind Cons.IH [of "pre @ [t']"])
    show "in_hand (c\<lparr>pc_targets := Some ((pre @ [t']) @ ts)\<rparr>) v'" using that by simp
  qed (auto intro!: h_Ret Cons.prems(2))
  show ?case
    unfolding gateway_targets.simps
  proof (rule h_bind, rule h_if, goal_cases)
    case 1
    show ?case by (rule h_Ret, unfold sum.case prod.case, rule rest, rule Cons.prems(1))
  next
    case 2
    have v: "wellkept v" using Cons.prems(1) by (rule in_hand_wellkept)
    have "in_hand (c\<lparr>pc_targets := Some (pre @ t\<lparr>ct_gateway_done := True\<rparr> # ts)\<rparr>) (v\<lparr>jv_exposed := jv_exposed v - {ct_management t}\<rparr>)"
      using Cons.prems(1) marked_target_knows wellkept_less [OF v] by (auto simp: in_hand_def)
    then show ?case
      by (intro h_bind gateway_remove_ok [OF v]) (auto intro!: h_Ret rest Cons.prems(1))
  qed
qed

lemma set_targets_in_hand:
  "in_hand (c\<lparr>pc_targets := Some ts\<rparr>) v \<Longrightarrow> length ts = length (targets_of c) \<Longrightarrow> in_hand (set_targets ts c) v"
proof -
  assume a: "in_hand (c\<lparr>pc_targets := Some ts\<rparr>) v" "length ts = length (targets_of c)"
  then have "targets_of (set_targets ts c) = ts" by (cases "pc_targets c") (simp_all add: set_targets_def targets_of_def)
  then have "in_hand (set_targets ts c) v = in_hand (c\<lparr>pc_targets := Some ts\<rparr>) v"
    by (intro in_hand_same_targets) (simp_all add: set_targets_def)
  then show ?thesis using a by simp
qed

lemma in_hand_own_targets: "in_hand (c\<lparr>pc_targets := Some (targets_of c)\<rparr>) v = in_hand c v"
  by (rule in_hand_same_targets) simp_all

lemma gateway_cleanup_ok:
  assumes c: "in_hand (fst x) v" and Q: "\<And>x' v'. in_hand (fst x') v' \<Longrightarrow> Q (Inr x') v'"
  shows "holds wellkept (gateway_cleanup x) Q v"
proof -
  let ?c = "fst x"
  have v: "wellkept v" "[] \<notin> jv_exposed v" using c by (simp_all add: in_hand_def wellkept_def clean_items_def)
  have rest: "holds wellkept (bindP (gateway_targets (targets_of d)) (\<lambda>(ts, es). Ret (set_targets ts d, snd x @ e @ es))) Q v'"
    if "in_hand d v'" for d e v'
    using that
    by (intro h_bind gateway_targets_ok [where pre = "[]" and c = d]) (auto simp: in_hand_own_targets intro!: h_Ret Q set_targets_in_hand)
  have unfilled: "in_hand (?c\<lparr>pc_gateway_done := True\<rparr>) v" if "\<not> filled (pc_management ?c)"
    using c v that by (auto simp: in_hand_def knows_def primary_ok_def truthful_def open_keys_def targets_of_def filled_def split: if_splits)
  have done_now: "in_hand (?c\<lparr>pc_gateway_done := True\<rparr>) (v\<lparr>jv_exposed := jv_exposed v - {the (pc_management ?c)}\<rparr>)"
    if f: "filled (pc_management ?c)"
  proof -
    obtain m where m: "pc_management ?c = Some m" using f by (cases "pc_management ?c") (auto simp: filled_def)
    have "knows (jv_exposed v - {m}) (?c\<lparr>pc_gateway_done := True\<rparr>)"
      using c m by (auto simp: in_hand_def knows_def primary_ok_def truthful_def open_keys_def targets_of_def split: if_splits)
    then show ?thesis using c wellkept_less [OF v(1), of "jv_exposed v - {m}"] m by (auto simp: in_hand_def)
  qed
  show ?thesis
    unfolding gateway_cleanup_def Let_def
  proof (rule h_bind, rule h_if, goal_cases)
    case 1
    from unfilled [OF this] show ?case by (intro h_Ret) (unfold sum.case prod.case, rule rest)
  next
    case 2
    show ?case
    proof (rule h_if, goal_cases)
      case 1
      show ?case by (rule h_Ret, unfold sum.case prod.case, rule rest [OF c])
    next
      case again: 2
      have "filled (pc_management ?c)" using 2 by simp
      then show ?case
        by (intro h_bind gateway_remove_ok [OF v(1)]) (auto intro!: h_Ret rest done_now c)
    qed
  qed
qed

lemma pusher_remove_ok: "wellkept v \<Longrightarrow> (\<And>r. Q (Inr r) v) \<Longrightarrow> holds wellkept (pusher_remove service) Q v"
  unfolding pusher_remove_def by (intro h_if h_catch h_bind h_call) (auto intro!: h_Ret)

text \<open>The pushers' marks are no concern of the gateway.\<close>

definition gateway_side :: "cleanup_target list \<Rightarrow> (string \<times> bool) list" where
  "gateway_side ts = map (\<lambda>t. (ct_management t, ct_gateway_done t)) ts"

lemma gateway_side_keys:
  assumes "gateway_side ts' = gateway_side ts"
  shows "target_keys ts' = target_keys ts"
    "(\<forall>t \<in> set ts'. ct_gateway_done t \<longrightarrow> ct_management t \<notin> X) = (\<forall>t \<in> set ts. ct_gateway_done t \<longrightarrow> ct_management t \<notin> X)"
proof -
  have "target_keys us = {k. (k, False) \<in> set (gateway_side us)}" for us by (auto simp: target_keys_def gateway_side_def image_iff)
  then show "target_keys ts' = target_keys ts" using assms by simp
  have "(\<forall>t \<in> set us. ct_gateway_done t \<longrightarrow> ct_management t \<notin> X) = (\<forall>k. (k, True) \<in> set (gateway_side us) \<longrightarrow> k \<notin> X)" for us
    by (auto simp: gateway_side_def image_iff)
  then show "(\<forall>t \<in> set ts'. ct_gateway_done t \<longrightarrow> ct_management t \<notin> X) = (\<forall>t \<in> set ts. ct_gateway_done t \<longrightarrow> ct_management t \<notin> X)"
    using assms by simp
qed

lemma pusher_targets_ok:
  "wellkept v \<Longrightarrow> (\<And>ts' es. gateway_side ts' = gateway_side ts \<Longrightarrow> Q (Inr (ts', es)) v) \<Longrightarrow> holds wellkept (pusher_targets service ts) Q v"
proof (induction ts arbitrary: Q)
  case Nil
  then show ?case by (simp add: h_Ret)
next
  case (Cons t ts)
  have rest: "holds wellkept (bindP (pusher_targets service ts) (\<lambda>(ts, es). Ret (t' # ts, e @ es))) Q v"
    if "ct_management t' = ct_management t" "ct_gateway_done t' = ct_gateway_done t" for t' e
    using that by (intro h_bind Cons.IH) (auto intro!: h_Ret Cons.prems simp: gateway_side_def)
  show ?case
    unfolding pusher_targets.simps
  proof (rule h_bind, rule h_if, goal_cases)
    case 1
    show ?case by (rule h_Ret, unfold sum.case prod.case, rule rest) simp_all
  next
    case 2
    show ?case by (intro h_bind pusher_remove_ok Cons.prems(1)) (auto intro!: h_Ret rest)
  qed
qed

lemma set_targets_same_side:
  assumes "in_hand c v" "gateway_side ts = gateway_side (targets_of c)"
  shows "in_hand (set_targets ts c) v"
proof -
  have t: "targets_of (set_targets ts c) = ts"
  proof (cases "pc_targets c")
    case None
    then show ?thesis using assms(2) by (simp add: set_targets_def targets_of_def gateway_side_def)
  qed (simp add: set_targets_def targets_of_def)
  have f: "pc_management (set_targets ts c) = pc_management c" "pc_gateway_done (set_targets ts c) = pc_gateway_done c"
      "pc_delivery (set_targets ts c) = pc_delivery c" "pc_generation (set_targets ts c) = pc_generation c"
    by (simp_all add: set_targets_def)
  show ?thesis
    using assms(1) unfolding in_hand_def knows_def primary_ok_def truthful_def open_keys_def t f gateway_side_keys [OF assms(2)] .
qed

lemma pusher_cleanup_ok:
  assumes c: "in_hand (fst x) v" and Q: "\<And>x' v'. in_hand (fst x') v' \<Longrightarrow> Q (Inr x') v'"
  shows "holds wellkept (pusher_cleanup service x) Q v"
proof -
  have v: "wellkept v" using c by (rule in_hand_wellkept)
  have rest: "holds wellkept (bindP (pusher_targets service (targets_of d)) (\<lambda>(ts, es). Ret (set_targets ts d, snd x @ e @ es))) Q v"
    if "in_hand d v" for d e
    using that by (intro h_bind pusher_targets_ok [OF v]) (auto intro!: h_Ret Q set_targets_same_side)
  have marked: "in_hand ((fst x)\<lparr>pc_pusher_done := True\<rparr>) v" using c by (simp add: in_hand_flags)
  show ?thesis
    unfolding pusher_cleanup_def Let_def
  proof (rule h_bind, rule h_if, goal_cases)
    case 1
    show ?case by (rule h_Ret, unfold sum.case prod.case, rule rest [OF marked])
  next
    case 2
    show ?case
    proof (rule h_if, goal_cases)
      case 1
      show ?case by (rule h_Ret, unfold sum.case prod.case, rule rest [OF c])
    next
      case 2
      show ?case by (intro h_bind pusher_remove_ok [OF v]) (auto intro!: h_Ret rest c marked)
    qed
  qed
qed

lemma abandon_ok:
  assumes c: "in_hand (fst x) v" and Q: "\<And>x' v'. in_hand (fst x') v' \<Longrightarrow> Q (Inr x') v'"
  shows "holds wellkept (abandon_pushers x) Q v"
proof -
  have v: "wellkept v" using c by (rule in_hand_wellkept)
  have warned: "holds wellkept persist_abandoned_matrix_pusher_warning Q' v" if "\<And>b. Q' (Inr b) v" for Q'
    unfolding persist_abandoned_matrix_pusher_warning_def
  proof (rule h_catch, rule s_set(4) [where J = wellkept, OF v], unfold sum.case)
    have same: "view (w\<lparr>pp_warned := b\<rparr>) = view w" for w b by (simp add: view_def)
    show "holds wellkept (atom (\<lambda>w. (Inr b, w\<lparr>pp_warned := d\<rparr>))) Q' v" for b d
      by (rule h_atom) (auto simp: same v that)
    then show "holds wellkept (atom (\<lambda>w. (Inr True, w\<lparr>pp_warned := False\<rparr>)))
        (\<lambda>r v. case r of Inl e \<Rightarrow> holds wellkept (atom (\<lambda>w. (Inr False, w\<lparr>pp_warned := True\<rparr>))) Q' v | Inr a \<Rightarrow> Q' (Inr a) v) v"
      by (intro h_atom) (auto simp: same v that)
  qed
  have side: "gateway_side (map (\<lambda>t. t\<lparr>ct_pusher_done := True\<rparr>) ts) = gateway_side ts" for ts
    by (simp add: gateway_side_def)
  have marked: "in_hand (set_targets (map (\<lambda>t. t\<lparr>ct_pusher_done := True\<rparr>) (targets_of (fst x))) ((fst x)\<lparr>pc_pusher_done := True\<rparr>)) v"
    using c by (intro set_targets_same_side) (simp_all add: in_hand_flags side, simp add: targets_of_def)
  show ?thesis
    unfolding abandon_pushers_def Let_def
    by (intro h_if h_bind warned) (auto intro!: h_Ret Q c marked)
qed

lemma subscription_ok:
  assumes c: "in_hand (fst x) v" and Q: "\<And>x' v'. in_hand (fst x') v' \<Longrightarrow> Q (Inr x') v'"
  shows "holds wellkept (subscription_cleanup r x) Q v"
proof -
  have v: "wellkept v" using c by (rule in_hand_wellkept)
  have unsubscribe: "holds wellkept (bindP (ask_sum en_unsubscribe) (\<lambda>removed.
        if \<not> removed then Raise ''The browser did not confirm push subscription removal.''
        else Ret (d\<lparr>pc_subscription_done := True\<rparr>, snd x))) Q' v'"
    if "in_hand d v'" "\<And>e. Q' (Inl e) v'" "Q' (Inr (d\<lparr>pc_subscription_done := True\<rparr>, snd x)) v'" for d v' Q'
    by (rule s_ask_sum [where J = wellkept, OF in_hand_wellkept [OF that(1)]]) (auto intro!: h_Raise h_Ret that)
  have keep: "holds wellkept
      (catchP
        (bindP (if filled (pc_endpoint (fst x)) then Ret () else persist_pending_push_cleanup d) (\<lambda>_.
         bindP (ask_sum en_unsubscribe) (\<lambda>removed.
           if \<not> removed then Raise ''The browser did not confirm push subscription removal.''
           else Ret (d\<lparr>pc_subscription_done := True\<rparr>, snd x))))
        (\<lambda>e. Ret (d, snd x @ [e]))) Q' v"
    if d: "in_hand d v" and Q': "\<And>x' v'. in_hand (fst x') v' \<Longrightarrow> Q' (Inr x') v'" for d Q'
  proof (rule h_catch, rule h_bind, rule h_if, goal_cases)
    case 1
    show ?case
      by (rule h_Ret, unfold sum.case, rule unsubscribe [OF d]) (use d Q' in \<open>auto intro!: h_Ret simp: in_hand_flags\<close>)
  next
    case 2
    have "knows (jv_exposed v) d" using d by (simp add: in_hand_def)
    show ?case
    proof (rule persist_ok [OF v \<open>knows (jv_exposed v) d\<close>], goal_cases)
      case (1 e)
      show ?case unfolding sum.case by (intro h_Ret Q') (use d in simp)
    next
      case (2 v')
      show ?case
        unfolding sum.case by (rule unsubscribe [OF 2(1)]) (use 2(1) Q' in \<open>auto intro!: h_Ret simp: in_hand_flags\<close>)
    qed
  qed
  show ?thesis
    unfolding subscription_cleanup_def Let_def
  proof (rule h_if, goal_cases)
    case 1
    show ?case by (intro h_Ret Q c)
  next
    case 2
    show ?case
    proof (rule h_catch, rule s_ask_sum [where J = wellkept, OF v], goal_cases)
      case (1 e)
      show ?case unfolding sum.case by (intro h_Ret Q) (use c in simp)
    next
      case (2 e found)
      show ?case
      proof (cases found)
        case None
        then show ?thesis using c by (auto intro!: h_Ret Q simp: in_hand_flags)
      next
        case (Some endpoint)
        show ?thesis
          unfolding Some option.case by (intro keep) (use c Q in \<open>auto simp: in_hand_flags\<close>)
      qed
    qed
  qed
qed

section \<open>A whole cleanup\<close>

text \<open>How a cleanup ends: well kept, and with nothing at the gateway if it reports success.\<close>

definition ends_well :: "string + cleanup_result \<Rightarrow> journal_view \<Rightarrow> bool" where
  "ends_well r v \<longleftrightarrow> wellkept v \<and> (case r of Inl e \<Rightarrow> True | Inr res \<Rightarrow> res_complete res \<longrightarrow> jv_exposed v = {})"

lemma result_ok:
  "wellkept v \<Longrightarrow> (full \<longrightarrow> jv_exposed v = {}) \<Longrightarrow> holds wellkept (cleanup_result_of full durable error) ends_well v"
  unfolding cleanup_result_of_def has_abandoned_matrix_pusher_warning_def
  by (intro h_bind h_atom) (auto intro!: h_Ret simp: ends_well_def)

lemma finished_none_exposed:
  assumes "in_hand c v" "cleanup_complete c"
  shows "jv_exposed v = {}"
proof -
  have "target_keys (targets_of c) = {}" using assms(2) by (auto simp: target_keys_def cleanup_complete_def gateway_finished_def list_all_iff)
  then show ?thesis using assms by (auto simp: in_hand_def knows_def open_keys_def cleanup_complete_def gateway_finished_def)
qed

lemma finish_ok:
  assumes c: "in_hand (fst x) v"
  shows "holds wellkept (finish_cleanup x) ends_well v"
proof -
  let ?c = "fst x"
  have v: "wellkept v" using c by (rule in_hand_wellkept)
  have k: "knows (jv_exposed v) ?c" using c by (simp add: in_hand_def)
  have failed: "holds wellkept (bindP has_pending_local_push_cleanup (\<lambda>durable. cleanup_result_of False durable (Some e))) ends_well v" for e
    unfolding has_pending_local_push_cleanup_def bindP_assoc
    by (intro s_get_any [where J = wellkept, OF v]) (simp add: result_ok v)
  have gone: "wellkept v'" if "jv_exposed v' = {}" "clean_items v'" "jv_pending v' = Inr None" "\<exists>ts. jv_fallback v' = Inr ts \<and> fallback_ok ts" for v'
    using that by (auto simp: wellkept_def covered_def journal_covers_def split: option.splits)
  have removed: "holds wellkept (bindP (ls_remove push_cleanup_storage) (\<lambda>_.
        bindP (ls_remove push_fallback_cleanup_storage) (\<lambda>_.
        bindP (ls_remove push_cleanup_intent_storage) (\<lambda>_.
          ls_remove push_lifecycle_epoch_storage)))) Q v"
    if f: "cleanup_complete ?c" and Q: "\<And>v'. wellkept v' \<Longrightarrow> jv_exposed v' = {} \<Longrightarrow> Q (Inr ()) v'" for Q
  proof -
    have x: "jv_exposed v = {}" by (rule finished_none_exposed [OF c f])
    have "\<exists>ts. jv_fallback v = Inr ts \<and> fallback_ok ts" "clean_items v"
      using c by (auto simp: in_hand_def wellkept_def covered_def journal_covers_def split: sum.splits)
    then have "wellkept (v\<lparr>jv_pending := Inr None\<rparr>)" "wellkept (v\<lparr>jv_pending := Inr None, jv_fallback := Inr []\<rparr>)"
      using x by (auto intro!: gone simp: clean_items_def fallback_ok_def)
    then show ?thesis
      using x by (intro h_bind h_remove) (auto intro!: h_bind h_remove Q)
  qed
  show ?thesis
    unfolding finish_cleanup_def Let_def
  proof (rule h_bind, rule h_catch, rule h_bind, rule h_if, goal_cases)
    case 1
    then show ?case
      by (intro removed) (auto intro!: h_Ret result_ok)
  next
    case 2
    show ?case
    proof (rule persist_ok [OF v k], goal_cases)
      case (1 e)
      show ?case unfolding sum.case by (intro h_Ret) (simp add: failed)
    next
      case (2 v')
      then show ?case
        unfolding sum.case using \<open>\<not> cleanup_complete ?c\<close> by (intro h_Ret) (simp add: result_ok in_hand_def)
    qed
  qed
qed

lemma cleanup_parts_ok:
  assumes c: "in_hand (fst x) v"
  shows "holds wellkept (cleanup_parts service registered orphan x) ends_well v"
proof -
  have last: "holds wellkept (if pc_worker_done (fst x) then subscription_cleanup registered x
      else if \<not> pc_subscription_done (fst x)
      then Ret (fst x, snd x @ [''Push subscription removal is waiting for durable service-worker cleanup.''])
      else Ret x) (\<lambda>r v. case r of Inl e \<Rightarrow> ends_well (Inl e) v | Inr x \<Rightarrow> holds wellkept (finish_cleanup x) ends_well v) v"
    if "in_hand (fst x) v" for x v
    using that by (intro h_if subscription_ok) (auto intro!: h_Ret finish_ok)
  show ?thesis
    unfolding cleanup_parts_def
  proof (rule h_bind, rule local_parts_ok(1) [OF c], unfold sum.case, rule h_bind, rule local_parts_ok(2), assumption, unfold sum.case,
      rule h_bind, rule local_parts_ok(3), assumption, unfold sum.case, rule h_bind, rule gateway_cleanup_ok, assumption, unfold sum.case,
      rule h_bind, rule pusher_cleanup_ok, assumption, unfold sum.case, rule h_bind, rule abandon_ok, assumption, unfold sum.case,
      rule h_bind, rule local_parts_ok(4), assumption, unfold sum.case, rule h_bind)
  qed (rule last)
qed

lemma continue_ok:
  assumes c: "in_hand (fst x) v" and config: "config_ok config"
  shows "holds wellkept (continue_cleanup service registered config known x) ends_well v"
  unfolding continue_cleanup_def
proof (rule h_bind, rule adopt_ok [OF c config], goal_cases)
  case (1 e v')
  then show ?case by (simp add: ends_well_def)
next
  case (2 c' v')
  have rest: "holds wellkept (bindP (orphan_inspection b (c', snd x)) (\<lambda>(orphan, x). cleanup_parts service registered orphan x)) ends_well v'"
    if "in_hand c' v'" for b v'
    using that by (intro h_bind orphan_inspection_ok) (auto intro!: cleanup_parts_ok)
  show ?case
    unfolding sum.case
  proof (rule h_bind, rule h_if, goal_cases)
    case 1
    show ?case by (rule clear_in_hand [OF 2]) (unfold sum.case, rule rest)
  next
    case 2
    show ?case by (rule h_Ret, unfold sum.case, rule rest [OF \<open>in_hand c' v'\<close>])
  qed
qed

lemma perform_ok:
  assumes v: "wellkept v"
  shows "holds wellkept (perform_local_push_cleanup workers service abandon) ends_well v"
proof -
  have given_up: "holds wellkept (cleanup_result_of False d e) ends_well v'" if "wellkept v'" for d e v'
    using that by (simp add: result_ok)
  have begun: "holds wellkept
      (bindP (attempt (journal_cleanup abandon)) (\<lambda>journal.
         case journal of
           Inl e \<Rightarrow> cleanup_result_of False False (Some e)
         | Inr c \<Rightarrow>
             bindP (attempt (canonical_cleanup_generation c)) (\<lambda>canonical.
               case canonical of
                 Inl e \<Rightarrow> cleanup_result_of False True (Some e)
               | Inr c \<Rightarrow> continue_cleanup service registered config known (c, errors)))) ends_well v"
    if config: "config_ok config" for registered config known errors
  proof (rule h_bind, rule h_attempt, rule journal_cleanup_ok [OF v], goal_cases)
    case (1 e v')
    then show ?case by (simp add: given_up)
  next
    case (2 c v')
    show ?case
      unfolding sum.case
    proof (rule h_bind, rule h_attempt, rule canonical_ok [OF 2], goal_cases)
      case (1 e v'')
      then show ?case by (simp add: given_up)
    next
      case (2 c' v'')
      then show ?case unfolding sum.case by (intro continue_ok config) simp
    qed
  qed
  have probed: "holds wellkept (bindP (if registered then attempt probe_service_worker else Ret (Inr None)) (\<lambda>session.
      case session of
        Inl e \<Rightarrow> cleanup_result_of False False (Some e)
      | Inr config \<Rightarrow>
          bindP (attempt (journal_cleanup abandon)) (\<lambda>journal.
            case journal of
              Inl e \<Rightarrow> cleanup_result_of False False (Some e)
            | Inr c \<Rightarrow>
                bindP (attempt (canonical_cleanup_generation c)) (\<lambda>canonical.
                  case canonical of
                    Inl e \<Rightarrow> cleanup_result_of False True (Some e)
                  | Inr c \<Rightarrow> continue_cleanup service registered config known (c, errors))))) ends_well v"
    for registered known errors
  proof (rule h_bind, rule h_if, goal_cases)
    case 1
    show ?case
      by (rule h_attempt, rule probe_ok [OF v]; unfold sum.case) (rule given_up [OF v], rule begun)
  next
    case 2
    show ?case by (rule h_Ret, unfold sum.case, rule begun) (simp add: config_ok_def)
  qed
  show ?thesis
    unfolding perform_local_push_cleanup_def Let_def
  proof (rule h_bind, rule h_if, goal_cases)
    case 1
    show ?case by (rule h_attempt, rule h_ask_sum [where J = wellkept, OF v], unfold sum.case, rule probed)
  next
    case 2
    show ?case by (rule h_Ret, unfold sum.case, rule probed)
  qed
qed

lemma forget_ok:
  assumes v: "wellkept v"
  shows "holds wellkept (forget_local_push_state workers service abandon) ends_well v"
proof -
  have durable: "holds wellkept (bindP has_durable_push_cleanup_record k) Q v'" if "wellkept v'" "\<And>d. holds wellkept (k d) Q v'" for k v' and Q :: "string + 'b \<Rightarrow> journal_view \<Rightarrow> bool"
    unfolding has_durable_push_cleanup_record_def bindP_assoc
    by (intro s_get_any [where J = wellkept, OF that(1)]) (simp add: that)
  have locked: "holds wellkept (catchP
      (bindP (with_push_lifecycle_lock (perform_local_push_cleanup workers service abandon)) (\<lambda>r.
       bindP has_durable_push_cleanup_record (\<lambda>d. Ret (r\<lparr>res_durable := res_durable r \<or> intent \<or> d\<rparr>))))
      (\<lambda>e. bindP has_durable_push_cleanup_record (\<lambda>d. cleanup_result_of False (d \<or> intent) (Some e)))) ends_well v" for intent
    unfolding with_push_lifecycle_lock_def bindP_assoc
  proof (rule h_catch, rule s_call [where J = wellkept, OF v], goal_cases)
    case (1 e)
    show ?case unfolding sum.case by (intro durable v) (simp add: result_ok v)
  next
    case 2
    show ?case
    proof (rule h_bind, rule h_mono [OF perform_ok [OF v]], goal_cases)
      case (1 r v')
      have v': "wellkept v'" using 1 by (simp add: ends_well_def)
      show ?case
      proof (cases r)
        case (Inl e)
        show ?thesis unfolding Inl sum.case by (intro durable v') (simp add: result_ok v')
      next
        case (Inr res)
        show ?thesis unfolding Inr sum.case by (intro durable v' h_Ret) (use 1 Inr in \<open>simp add: ends_well_def\<close>)
      qed
    qed
  qed
  show ?thesis
    unfolding forget_local_push_state_def
  proof (rule h_bind, rule h_catch, goal_cases)
    case 1
    have fin: "(case r of Inl e \<Rightarrow> holds wellkept (Ret False) Q v | Inr a \<Rightarrow> Q (Inr a) v)"
      if "\<And>b. Q (Inr b) v" for r and Q :: "string + bool \<Rightarrow> journal_view \<Rightarrow> bool"
      using that by (auto intro!: h_Ret split: sum.split)
    show ?case
      by (intro s_ask [where J = wellkept, OF v] s_set(2) [where J = wellkept, OF v] s_set(3) [where J = wellkept, OF v] h_Ret fin) (simp_all only: sum.case locked)
  qed
qed

end
