(* ===== verification/Setup_Safety.thy ===== *)
theory Setup_Safety
  imports Journal_Safety
begin

text \<open>
  The setup of closed-app notifications keeps the invariant of the journal, and the properties of setup
  and cleanup: a registration stays revocable, a cleanup that reports success has revoked everything.
\<close>

section \<open>The setup\<close>

definition credentials_ok :: "push_credentials \<Rightarrow> bool" where
  "credentials_ok c \<longleftrightarrow> cr_delivery c \<noteq> [] \<and> cr_management c \<noteq> [] \<and> cr_generation c \<noteq> []"

text \<open>No journal yet, and nothing exposed but the key of these credentials.\<close>

definition ready :: "push_credentials \<Rightarrow> journal_view \<Rightarrow> bool" where
  "ready c v \<longleftrightarrow> wellkept v \<and> jv_pending v = Inr None \<and> jv_fallback v = Inr [] \<and> credentials_ok c \<and> jv_exposed v \<subseteq> {cr_management c}"

definition own_journal :: "push_credentials \<Rightarrow> journal_view \<Rightarrow> bool" where
  "own_journal c v \<longleftrightarrow> wellkept v \<and> credentials_ok c \<and> jv_fallback v = Inr [] \<and> jv_exposed v \<subseteq> {cr_management c} \<and>
     (\<exists>p. jv_pending v = Inr (Some p) \<and> pc_management p = Some (cr_management c) \<and> pc_delivery p = Some (cr_delivery c) \<and>
        pc_generation p = Some (cr_generation c) \<and> \<not> pc_gateway_done p \<and> targets_of p = [])"

lemma setup_cleanup_facts:
  "pc_management (setup_cleanup i c e b) = Some (cr_management c)" "pc_delivery (setup_cleanup i c e b) = Some (cr_delivery c)"
  "pc_generation (setup_cleanup i c e b) = Some (cr_generation c)" "\<not> pc_gateway_done (setup_cleanup i c e b)"
  "targets_of (setup_cleanup i c e b) = []"
  by (simp_all add: setup_cleanup_def targets_of_def)

lemma setup_cleanup_knows: "ready c v \<Longrightarrow> knows (jv_exposed v) (setup_cleanup i c e b)"
  by (auto simp: ready_def knows_def open_keys_def primary_ok_def truthful_def setup_cleanup_facts credentials_ok_def filled_def target_keys_def)

lemma fallback_written_ok:
  "ready c v \<Longrightarrow> ft_management t = cr_management c \<Longrightarrow> ft_delivery t = cr_delivery c \<Longrightarrow> ft_generation t = cr_generation c \<Longrightarrow>
   wellkept (v\<lparr>jv_fallback := Inr [t]\<rparr>) \<and> journaled (v\<lparr>jv_fallback := Inr [t]\<rparr>)"
  by (auto simp: ready_def wellkept_def covered_def journal_covers_def journaled_def fallback_ok_def clean_items_def credentials_ok_def)

lemma persist_fallback_ok:
  assumes r: "ready c v" and saved: "\<And>v'. wellkept v' \<Longrightarrow> journaled v' \<Longrightarrow> Q (Inr True) v'" and failed: "Q (Inr False) v"
  shows "holds wellkept (persist_fallback_push_cleanup_target c endpoint worker) Q v"
proof -
  have v: "wellkept v" "jv_fallback v = Inr []" using r by (simp_all add: ready_def)
  let ?t = "\<lparr>ft_delivery = cr_delivery c, ft_management = cr_management c, ft_generation = cr_generation c, ft_endpoint = endpoint, ft_worker = worker\<rparr>"
  have "wellkept (v\<lparr>jv_fallback := Inr [?t]\<rparr>)" "journaled (v\<lparr>jv_fallback := Inr [?t]\<rparr>)"
    using fallback_written_ok [OF r, of ?t] by simp_all
  then show ?thesis
    unfolding persist_fallback_push_cleanup_target_def
    by (intro h_catch s_read(2) [where J = wellkept, OF v(1)]) (auto simp: v intro!: h_bind h_persist_fallback h_Ret saved failed)
qed

lemma queue_ok:
  assumes r: "ready c v" and primary: "\<And>v'. own_journal c v' \<Longrightarrow> Q (Inr Primary) v'"
    and saved: "\<And>v'. wellkept v' \<Longrightarrow> journaled v' \<Longrightarrow> Q (Inr Fallback) v'" and lost: "Q (Inr NoRecord) v"
  shows "holds wellkept (queue_push_setup_cleanup c endpoint worker epoch) Q v"
proof -
  have v: "wellkept v" "jv_pending v = Inr None" "jv_fallback v = Inr []" "credentials_ok c" "jv_exposed v \<subseteq> {cr_management c}"
    using r by (simp_all add: ready_def)
  let ?h = "\<lambda>v. holds wellkept (bindP (persist_fallback_push_cleanup_target c endpoint worker) (\<lambda>saved. Ret (if saved then Fallback else NoRecord))) Q v"
  let ?Q = "\<lambda>r v. case r of Inl e \<Rightarrow> ?h v | Inr a \<Rightarrow> Q (Inr a) v"
  have fall: "?h v" by (intro h_bind persist_fallback_ok [OF r]) (auto intro!: h_Ret saved lost)
  have own: "own_journal c v'" if "in_hand (setup_cleanup i c e b) w" "w = v\<lparr>jv_pending := Inr (Some (setup_cleanup i c e b))\<rparr>"
      "wellkept v'" "same_journal w v'" for i e b w v'
    using that v by (auto simp: own_journal_def same_journal_def setup_cleanup_facts)
  have recorded: "holds wellkept (bindP (ls_set push_lifecycle_epoch_storage epoch) (\<lambda>_.
      bindP (persist_pending_push_cleanup (setup_cleanup cid c endpoint protects)) (\<lambda>_.
      bindP (if protects then Ret () else clear_push_credentials g m d) (\<lambda>_. Ret Primary)))) ?Q v" for cid protects g m d
  proof (rule s_set(3) [where J = wellkept, OF v(1)], goal_cases)
    case (1 e)
    show ?case using fall by simp
  next
    case 2
    show ?case
    proof (rule h_bind, rule persist_ok [OF v(1) setup_cleanup_knows [OF r]], goal_cases)
      case (1 e)
      show ?case using fall by simp
    next
      case (2 w)
      show ?case
        unfolding sum.case
      proof (rule h_bind, rule h_if, goal_cases)
        case 1
        show ?case
          by (intro h_Ret) (unfold sum.case, intro h_Ret, unfold sum.case, intro primary own [OF 2],
              use 2 in \<open>simp_all add: in_hand_def same_journal_def\<close>)
      next
        case clear: 2
        show ?case
          by (rule clear_in_hand [OF 2(1)], unfold sum.case, rule h_Ret, unfold sum.case, rule primary, rule own [OF 2])
            (simp_all add: in_hand_def)
      qed
    qed
  qed
  show ?thesis
    unfolding queue_push_setup_cleanup_def
  proof (rule h_catch, rule s_read(1) [where J = wellkept, OF v(1)], goal_cases)
    case (1 e)
    show ?case using fall by simp
  next
    case (2 p)
    then have p: "p = None" using v(2) by simp
    show ?case
      unfolding p option.case
    proof (rule h_bind, rule read_credentials_ok [OF v(1)], unfold sum.case, rule s_ask [where J = wellkept, OF v(1)], goal_cases)
      case 1
      show ?case unfolding Let_def by (rule recorded)
    qed
  qed
qed

lemma assert_ok: "wellkept v \<Longrightarrow> (\<And>r. Q r v) \<Longrightarrow> holds wellkept (assert_owned_push_setup_journal c epoch) Q v"
  unfolding assert_owned_push_setup_journal_def
  by (intro s_read s_get_any) (auto intro!: h_Raise h_Ret split: option.split)

lemma exposed_own:
  assumes "own_journal c v"
  shows "own_journal c (v\<lparr>jv_exposed := insert (cr_management c) (jv_exposed v)\<rparr>)"
proof -
  obtain p where p: "jv_pending v = Inr (Some p)" "pc_management p = Some (cr_management c)" "pc_delivery p = Some (cr_delivery c)"
      "pc_generation p = Some (cr_generation c)" "\<not> pc_gateway_done p" "targets_of p = []" "jv_fallback v = Inr []"
    using assms by (auto simp: own_journal_def)
  have "journaled v" using p by (simp add: journaled_def)
  then show ?thesis
    using assms p
    by (auto simp: own_journal_def wellkept_def covered_def journal_covers_def clean_items_def credentials_ok_def
        primary_ok_def truthful_def open_keys_def fallback_ok_def filled_def)
qed

lemma register_ok:
  assumes c: "own_journal c v" and Q: "\<And>r v'. own_journal c v' \<Longrightarrow> Q r v'"
  shows "holds wellkept (register_gateway_subscription c) Q v"
proof -
  have post: "holds wellkept (gateway_post c) Q' v" if "own_journal c v" "\<And>r v'. own_journal c v' \<Longrightarrow> Q' r v'" for v Q'
    using exposed_own [OF that(1)] by (intro h_post that(2)) (simp_all add: own_journal_def)
  show ?thesis
    unfolding register_gateway_subscription_def
    by (intro h_bind post [OF c]) (auto intro!: h_if h_Ret h_Raise Q h_bind post split: sum.split)
qed

lemma own_stored:
  assumes "own_journal c v" "x \<noteq> []"
  shows "own_journal c (v\<lparr>jv_delivery := Some x\<rparr>)" "own_journal c (v\<lparr>jv_management := Some x\<rparr>)" "own_journal c (v\<lparr>jv_generation := Some x\<rparr>)"
    "own_journal c (v\<lparr>jv_legacy := None\<rparr>)"
proof -
  have "journaled v" using assms(1) by (auto simp: own_journal_def journaled_def)
  then show "own_journal c (v\<lparr>jv_delivery := Some x\<rparr>)" "own_journal c (v\<lparr>jv_management := Some x\<rparr>)"
    "own_journal c (v\<lparr>jv_generation := Some x\<rparr>)" "own_journal c (v\<lparr>jv_legacy := None\<rparr>)"
    using assms by (auto simp: own_journal_def wellkept_def covered_def clean_items_def)
qed

lemma persist_credentials_ok:
  assumes c: "own_journal c v" and failed: "\<And>e v'. wellkept v' \<Longrightarrow> Q (Inl e) v'"
    and stored: "\<And>v'. own_journal c v' \<Longrightarrow> jv_management v' = Some (cr_management c) \<Longrightarrow> jv_delivery v' = Some (cr_delivery c) \<Longrightarrow> Q (Inr ()) v'"
  shows "holds wellkept (persist_push_credentials c endpoint) Q v"
proof -
  have ok: "credentials_ok c" using c by (simp add: own_journal_def)
  let ?v1 = "v\<lparr>jv_delivery := Some (cr_delivery c)\<rparr>" let ?v2 = "?v1\<lparr>jv_management := Some (cr_management c)\<rparr>"
  let ?v3 = "?v2\<lparr>jv_generation := Some (cr_generation c)\<rparr>" let ?v4 = "?v3\<lparr>jv_legacy := None\<rparr>"
  have own1: "own_journal c ?v1" and own2: "own_journal c ?v2" and own3: "own_journal c ?v3" and own4: "own_journal c ?v4"
    using c ok own_stored(1-3) own_stored(4) [of c ?v3 "cr_delivery c"] by (simp_all add: credentials_ok_def)
  have w: "wellkept v'" if "own_journal c v'" for v' using that by (simp add: own_journal_def)
  have l: "holds wellkept (ls_remove legacy_push_key_storage) Q ?v3"
    by (intro h_remove) (use w [OF own4] stored [OF own4] in simp_all)
  show ?thesis
    unfolding persist_push_credentials_def
    by (rule h_bind, rule h_set(1), rule w [OF c], unfold sum.case, rule failed [OF w [OF c]], rule w [OF own1],
        rule h_bind, rule h_set(2), rule w [OF own1], unfold sum.case, rule failed [OF w [OF own1]], rule w [OF own2],
        rule h_bind, rule h_set(3), rule w [OF own2], unfold sum.case, rule failed [OF w [OF own2]], rule w [OF own3],
        rule s_set(1) [where J = wellkept, OF w [OF own3]], rule failed [OF w [OF own3]], rule l)
qed

text \<open>How a setup ends: with the credentials stored, or with an error and everything revocable.\<close>

definition setup_ends :: "string + unit \<Rightarrow> journal_view \<Rightarrow> bool" where
  "setup_ends r v \<longleftrightarrow> wellkept v \<and> (r = Inr () \<longrightarrow> \<not> journaled v)"

lemma journaled_setup_ok:
  assumes c: "own_journal c v"
  shows "holds wellkept (journaled_setup endpoint epoch c) setup_ends v"
proof -
  have failed: "setup_ends (Inl e) v'" if "own_journal c v'" for e v' using that by (simp add: setup_ends_def own_journal_def)
  have w: "wellkept v'" if "own_journal c v'" for v' using that by (simp add: own_journal_def)
  have assert: "holds wellkept (bindP (assert_owned_push_setup_journal c epoch) k) setup_ends v'"
    if "own_journal c v'" "holds wellkept (k ()) setup_ends v'" for k v'
    by (intro h_bind assert_ok w that(1)) (auto simp: that failed split: sum.split)
  have commit: "holds wellkept (bindP (persist_push_credentials c endpoint) (\<lambda>_.
      bindP (ask en_random) (\<lambda>e. bindP (ls_set push_lifecycle_epoch_storage e) (\<lambda>_. ls_remove push_cleanup_storage)))) setup_ends v'"
    if "own_journal c v'" for v'
  proof (rule h_bind, rule persist_credentials_ok [OF that], goal_cases)
    case (1 e v'')
    then show ?case by (simp add: setup_ends_def)
  next
    case (2 v'')
    have "wellkept (v''\<lparr>jv_pending := Inr None\<rparr>)" "\<not> journaled (v''\<lparr>jv_pending := Inr None\<rparr>)"
      using 2 by (auto simp: own_journal_def wellkept_def covered_def journaled_def clean_items_def credentials_ok_def filled_def or_null_def)
    then show ?case
      unfolding sum.case using 2 w failed
      by (intro s_ask s_set(3) h_remove) (auto simp: setup_ends_def)
  qed
  have rest: "holds wellkept (bindP (assert_owned_push_setup_journal c epoch) (\<lambda>_.
      bindP call_browser (\<lambda>_.
      bindP (assert_owned_push_setup_journal c epoch) (\<lambda>_.
      bindP (ask_sum en_subscription) (\<lambda>current.
      bindP (assert_owned_push_setup_journal c epoch) (\<lambda>_.
        if current \<noteq> Some endpoint then Raise ''The browser push subscription changed during setup.''
        else bindP (persist_push_credentials c endpoint) (\<lambda>_.
             bindP (ask en_random) (\<lambda>e.
             bindP (ls_set push_lifecycle_epoch_storage e) (\<lambda>_.
               ls_remove push_cleanup_storage))))))))) setup_ends v'"
    if o: "own_journal c v'" for v'
    by (intro assert [OF o] s_call [where J = wellkept, OF w [OF o]] s_ask_sum [where J = wellkept, OF w [OF o]] failed [OF o] h_if h_Raise commit o)
  show ?thesis
    unfolding journaled_setup_def
    by (intro assert [OF c] s_message [where J = wellkept, OF w [OF c]] failed [OF c] h_bind register_ok [OF c])
      (auto intro!: rest failed split: sum.split)
qed

section \<open>A setup that could write nothing down\<close>

text \<open>Once a setup has reported that it could save nothing, nothing is promised.\<close>

definition saved_or_told :: "journal_view \<Rightarrow> bool" where
  "saved_or_told v \<longleftrightarrow> jv_unsaved v \<or> wellkept v"

lemma h_weaken: "holds wellkept p Q v \<Longrightarrow> (\<And>r v. Q r v \<Longrightarrow> Q' r v) \<Longrightarrow> holds saved_or_told p Q' v"
  unfolding holds_def by (blast intro: upholds_mono [where I = "\<lambda>w. wellkept (view w)"] saved_or_told_def [THEN iffD2])

lemma h_lift: "holds wellkept p Q v \<Longrightarrow> holds saved_or_told p Q v"
  by (erule h_weaken)

definition stays_told :: "push_page \<Rightarrow> push_page \<Rightarrow> bool" where
  "stays_told w w' \<longleftrightarrow> (pp_unsaved w \<longrightarrow> pp_unsaved w')"

lemma stays_toldD: "stays_told w w' \<Longrightarrow> pp_unsaved w \<Longrightarrow> pp_unsaved w'"
  by (simp add: stays_told_def)

lemma told_upholds:
  "acts_in stays_told p \<Longrightarrow> pp_unsaved w \<Longrightarrow>
   upholds others (\<lambda>w. saved_or_told (view w)) (\<lambda>r w. pp_unsaved w) p w"
proof (induction p arbitrary: w rule: prog_induct)
  case (Act f)
  have "saved_or_told (view (snd (f w'))) \<and> upholds others (\<lambda>w. saved_or_told (view w)) (\<lambda>r w. pp_unsaved w) (fst (f w')) (snd (f w'))"
    if "others w w'" for w'
  proof -
    have "pp_unsaved w'" using that Act.prems(2) by (simp add: others_def)
    moreover have "stays_told w' (snd (f w'))" "acts_in stays_told (fst (f w'))" using Act.prems(1) by simp_all
    ultimately show ?thesis using Act.IH stays_toldD by (simp add: saved_or_told_def)
  qed
  then show ?case by simp
qed simp_all

lemma told_holds: "acts_in stays_told p \<Longrightarrow> jv_unsaved v \<Longrightarrow> holds saved_or_told p (\<lambda>r v. jv_unsaved v) v"
  using told_upholds by (auto simp: holds_def)

lemma told_steps [simp]:
  "acts_in stays_told (ls_get k)" "acts_in stays_told (ls_set k x)" "acts_in stays_told (ls_remove k)" "acts_in stays_told (ask sel)"
  "acts_in stays_told (ask_sum sel2)" "acts_in stays_told call_browser" "acts_in stays_told (gateway_delete m)"
  "acts_in stays_told send_push_config_message"
  by (auto simp: ls_get_def ls_set_def ls_remove_def ask_def ask_sum_def call_browser_def gateway_delete_def send_push_config_message_def
      stays_told_def split: sum.split)

lemma told_programs:
  "acts_in stays_told (clear_push_credentials g m d)" "acts_in stays_told (read_push_credentials b)"
  "acts_in stays_told clear_service_worker_push_config" "acts_in stays_told read_service_worker_push_config"
  by (auto simp: clear_push_credentials_def read_push_credentials_def clear_service_worker_push_config_def
      read_service_worker_push_config_def Let_def split: option.split intro!: acts_in_bindP)

lemma told_attempt: "acts_in stays_told p \<Longrightarrow> acts_in stays_told (attempt p)"
  by (auto simp: attempt_def intro!: acts_in_catchP acts_in_bindP)

lemma told_rollback: "acts_in stays_told (rollback_undurable_push_setup endpoint c)"
  unfolding rollback_undurable_push_setup_def
  by (auto intro!: acts_in_bindP acts_in_catchP told_attempt told_programs)

lemma rollback_ok:
  assumes v: "wellkept v" "journaled v" and Q: "\<And>r v'. wellkept v' \<Longrightarrow> Q r v'"
  shows "holds wellkept (rollback_undurable_push_setup endpoint c) Q v"
proof -
  have rest: "holds wellkept (bindP (attempt call_browser) (\<lambda>_.
     bindP (read_push_credentials False) (\<lambda>active.
       if (case active of None \<Rightarrow> False | Some a \<Rightarrow> cr_generation a \<noteq> cr_generation c) then Ret ()
       else
         bindP (catchP (bindP clear_service_worker_push_config (\<lambda>_. Ret True))
                  (\<lambda>_. catchP (bindP read_service_worker_push_config (\<lambda>k. Ret (k = None))) (\<lambda>_. Ret False))) (\<lambda>safe.
         bindP (if safe
                then catchP (bindP (ask_sum en_subscription) (\<lambda>current.
                       if current = Some endpoint then bindP (ask_sum en_unsubscribe) (\<lambda>_. Ret ()) else Ret ()))
                     (\<lambda>_. Ret ())
                else Ret ()) (\<lambda>_.
           clear_push_credentials (Some (cr_generation c)) (Some (cr_management c)) (Some (cr_delivery c))))))) Q v'"
    if w: "wellkept v'" "journaled v'" for v'
  proof (intro h_bind inertD [OF _ w(1)], goal_cases)
    case (2 r)
    have clear: "holds wellkept (clear_push_credentials g m d) Q v'" for g m d by (rule clear_credentials_ok [OF w]) (rule Q)
    have worker: "inert (catchP (bindP clear_service_worker_push_config (\<lambda>_. Ret True))
        (\<lambda>_. catchP (bindP read_service_worker_push_config (\<lambda>k. Ret (k = None))) (\<lambda>_. Ret False)))"
      by (intro inert_catch inert_bind) simp_all
    have sub: "inert (if safe then catchP (bindP (ask_sum en_subscription) (\<lambda>current.
                       if current = Some endpoint then bindP (ask_sum en_unsubscribe) (\<lambda>_. Ret ()) else Ret ()))
                     (\<lambda>_. Ret ()) else Ret ())" for safe
      by (cases safe) (auto intro!: inert_catch inert_bind)
    have tail: "holds wellkept (bindP (catchP (bindP clear_service_worker_push_config (\<lambda>_. Ret True))
                  (\<lambda>_. catchP (bindP read_service_worker_push_config (\<lambda>k. Ret (k = None))) (\<lambda>_. Ret False))) (\<lambda>safe.
         bindP (if safe
                then catchP (bindP (ask_sum en_subscription) (\<lambda>current.
                       if current = Some endpoint then bindP (ask_sum en_unsubscribe) (\<lambda>_. Ret ()) else Ret ()))
                     (\<lambda>_. Ret ())
                else Ret ()) (\<lambda>_.
           clear_push_credentials (Some (cr_generation c)) (Some (cr_management c)) (Some (cr_delivery c))))) Q v'"
    proof (rule h_bind, rule inertD [OF worker w(1)])
      fix r :: "string + bool"
      show "case r of Inl e \<Rightarrow> Q (Inl e) v' | Inr safe \<Rightarrow> holds wellkept (bindP (if safe
                then catchP (bindP (ask_sum en_subscription) (\<lambda>current.
                       if current = Some endpoint then bindP (ask_sum en_unsubscribe) (\<lambda>_. Ret ()) else Ret ()))
                     (\<lambda>_. Ret ())
                else Ret ()) (\<lambda>_.
           clear_push_credentials (Some (cr_generation c)) (Some (cr_management c)) (Some (cr_delivery c)))) Q v'"
      proof (cases r)
        case (Inr safe)
        show ?thesis
          unfolding Inr sum.case
        proof (rule h_bind, rule inertD [OF sub w(1)])
          fix r' :: "string + unit"
          show "case r' of Inl e \<Rightarrow> Q (Inl e) v'
              | Inr a \<Rightarrow> holds wellkept (clear_push_credentials (Some (cr_generation c)) (Some (cr_management c)) (Some (cr_delivery c))) Q v'"
            by (cases r') (simp_all add: Q w clear)
        qed
      qed (simp add: Q w)
    qed
    show ?case
      by (cases r) (auto intro!: h_bind read_credentials_ok [OF w(1)] h_if h_Ret Q w tail)
  qed simp
  show ?thesis
    unfolding rollback_undurable_push_setup_def
    by (rule h_bind, rule h_attempt, rule h_delete, rule v(1), rule wellkept_less [OF v(1)])
      (auto intro!: rest v wellkept_less)
qed

section \<open>The whole setup\<close>

definition setup_outcome :: "string + unit \<Rightarrow> journal_view \<Rightarrow> bool" where
  "setup_outcome r v \<longleftrightarrow> (if r = Inr () then wellkept v \<and> \<not> journaled v else saved_or_told v)"

lemma effective_ok:
  assumes r: "ready c v" and config: "config_ok config"
    and Q: "\<And>c'. ready c' v \<Longrightarrow> Q (Inr c') v" and failed: "\<And>e. Q (Inl e) v"
  shows "holds wellkept (effective_credentials config c) Q v"
proof -
  have v: "wellkept v" using r by (simp add: ready_def)
  have "ready (c\<lparr>cr_generation := g\<rparr>) v" if "g \<noteq> []" for g
    using r that by (simp add: ready_def credentials_ok_def)
  then show ?thesis
    unfolding effective_credentials_def generation_for_management_key_def using config
    by (intro h_if s_ask_sum [where J = wellkept, OF v])
      (auto simp: failed config_ok_def filled_def sane_env_def intro!: h_Ret Q r split: option.split)
qed

lemma prepared_ok:
  assumes r: "\<And>c. credentials = Some c \<Longrightarrow> ready c v" and config: "config_ok config" and v: "wellkept v"
  shows "holds saved_or_told (prepared_setup endpoint config credentials) setup_outcome v"
proof (cases credentials)
  case None
  then show ?thesis using v by (auto simp: prepared_setup_def setup_outcome_def saved_or_told_def intro!: h_Raise)
next
  case (Some c)
  have failed: "setup_outcome (Inl e) v'" if "wellkept v'" for e v' using that by (simp add: setup_outcome_def saved_or_told_def)
  have queued: "holds saved_or_told (case q of
        Primary \<Rightarrow> journaled_setup endpoint epoch c'
      | Fallback \<Rightarrow> bindP (rollback_undurable_push_setup endpoint c') (\<lambda>_.
          Raise ''Notification setup was interrupted and cleanup has been safely queued.'')
      | NoRecord \<Rightarrow> bindP (atom (\<lambda>w. (Inr (), w\<lparr>pp_unsaved := True\<rparr>))) (\<lambda>_.
          bindP (rollback_undurable_push_setup endpoint c') (\<lambda>_. Raise unsaved_setup))) setup_outcome v'"
    if "case q of Primary \<Rightarrow> own_journal c' v' | Fallback \<Rightarrow> wellkept v' \<and> journaled v' | NoRecord \<Rightarrow> wellkept v'" for q epoch c' v'
  proof (cases q)
    case Primary
    then have "own_journal c' v'" using that by simp
    then have "holds saved_or_told (journaled_setup endpoint epoch c') setup_outcome v'"
      by (intro h_weaken [OF journaled_setup_ok]) (auto simp: setup_ends_def setup_outcome_def saved_or_told_def)
    then show ?thesis using Primary by simp
  next
    case Fallback
    then have "holds wellkept (bindP (rollback_undurable_push_setup endpoint c') (\<lambda>_.
        Raise ''Notification setup was interrupted and cleanup has been safely queued.'')) setup_outcome v'"
      using that by (intro h_bind rollback_ok) (auto intro!: h_Raise failed split: sum.split)
    then show ?thesis using Fallback by (auto intro: h_weaken)
  next
    case NoRecord
    have told: "holds saved_or_told (bindP (rollback_undurable_push_setup endpoint c') (\<lambda>_. Raise unsaved_setup)) setup_outcome v''"
      if "jv_unsaved v''" for v''
      by (rule h_bind, rule h_mono [OF told_holds [OF told_rollback that]])
        (auto intro!: h_Raise simp: setup_outcome_def saved_or_told_def split: sum.split)
    show ?thesis
      unfolding NoRecord queue_result.case
      by (rule h_bind, rule h_atom) (auto simp: saved_or_told_def intro!: told)
  qed
  show ?thesis
    unfolding prepared_setup_def Some option.case
  proof (rule h_bind, rule h_lift, rule effective_ok [OF r [OF Some] config], goal_cases)
    case (1 c')
    then have w: "wellkept v" by (simp add: ready_def)
    show ?case
      unfolding sum.case
    proof (rule h_bind, rule h_lift, rule h_ask [where J = wellkept, OF w], unfold sum.case, rule h_bind, rule h_lift, rule queue_ok [OF 1], goal_cases)
      case (1 e v')
      then show ?case unfolding sum.case by (intro queued) simp
    next
      case (2 e v')
      then show ?case unfolding sum.case by (intro queued) simp
    next
      case (3 e)
      then show ?case unfolding sum.case by (intro queued) (simp add: w)
    qed
  next
    case (2 e)
    show ?case by (simp add: failed v)
  qed
qed

lemma epoch_ok: "wellkept v \<Longrightarrow> (\<And>r. Q r v) \<Longrightarrow> holds wellkept push_lifecycle_epoch Q v"
  unfolding push_lifecycle_epoch_def
  by (intro s_get_any h_if s_ask s_set(3)) (auto intro!: h_Ret)

lemma none_pending_ok:
  assumes v: "wellkept v" and Q: "Q (Inr True) v" "jv_pending v = Inr None \<Longrightarrow> jv_fallback v = Inr [] \<Longrightarrow> Q (Inr False) v"
  shows "holds wellkept has_pending_local_push_cleanup Q v"
  unfolding has_pending_local_push_cleanup_def
proof (rule h_bind, rule h_get(5) [where J = wellkept, OF v]; unfold sum.case; rule h_bind; rule h_get(6) [where J = wellkept, OF v]; unfold sum.case)
  show "holds wellkept (bindP (ls_get push_cleanup_intent_storage) (\<lambda>c. Ret (None \<noteq> None \<or> None \<noteq> None \<or> c \<noteq> None))) Q v"
    if "jv_pending v = Inr None" "jv_fallback v = Inr []"
  proof (intro s_get_any v)
    fix x :: "string option"
    show "holds wellkept (Ret (None \<noteq> None \<or> None \<noteq> None \<or> x \<noteq> None)) Q v"
      using Q that by (cases x) (simp_all add: h_Ret)
  qed
qed (auto intro!: s_get_any v h_Ret Q)

text \<open>
  The credentials of a setup: read from the storage under the lock, or read before it. Those must still
  be the stored ones, or none may be stored; a cleanup or setup of another window in between would have
  changed the epoch, and this setup ends before it uses them.
\<close>

definition credentials_source :: "push_credentials option page_prog \<Rightarrow> journal_view \<Rightarrow> bool" where
  "credentials_source p v \<longleftrightarrow> p = read_push_credentials True \<or>
     (\<exists>c. p = Ret (Some c) \<and> credentials_ok c \<and> jv_management v \<in> {None, Some (cr_management c)})"

lemma read_ready:
  assumes v: "wellkept v" "jv_pending v = Inr None" "jv_fallback v = Inr []" and c: "credentials_read True v (Some c)"
  shows "ready c v"
proof -
  have x: "jv_exposed v \<subseteq> set_option (jv_management v)" "clean_items v"
    using v by (auto simp: wellkept_def covered_def journaled_def)
  have nonempty: "given_text s y \<Longrightarrow> s \<noteq> Some [] \<Longrightarrow> y \<noteq> []" for s y by (cases s) (auto simp: given_text_def)
  have "or_null (jv_delivery v) (jv_legacy v) \<noteq> Some []" "jv_management v \<noteq> Some []" "or_null (jv_generation v) (jv_management v) \<noteq> Some []"
    using x(2) by (auto simp: clean_items_def or_null_def split: option.split)
  then have "credentials_ok c" using c nonempty unfolding credentials_read_def credentials_ok_def option.case by blast
  moreover have "jv_exposed v \<subseteq> {cr_management c}"
    using x(1) c by (cases "jv_management v") (auto simp: credentials_read_def given_text_def)
  ultimately show ?thesis using v by (simp add: ready_def)
qed

lemma setup_ok:
  assumes v: "wellkept v" and source: "credentials_source p v"
  shows "holds saved_or_told (run_durable_push_setup initial_epoch p) setup_outcome v"
proof -
  have s: "saved_or_told v" using v by (simp add: saved_or_told_def)
  have failed: "setup_outcome (Inl e) v" for e using s by (simp add: setup_outcome_def)
  have prepared: "holds saved_or_told (bindP p (prepared_setup endpoint config)) setup_outcome v"
    if j: "jv_pending v = Inr None" "jv_fallback v = Inr []" and config: "config_ok config" for endpoint config
    using source unfolding credentials_source_def
  proof (elim disjE exE conjE)
    assume "p = read_push_credentials True"
    then show ?thesis
      by (simp only:) (rule h_bind, rule h_lift, rule read_credentials_ok [OF v], unfold sum.case, rule prepared_ok,
        simp add: read_ready [OF v j], rule config, rule v)
  next
    fix c assume c: "p = Ret (Some c)" "credentials_ok c" "jv_management v \<in> {None, Some (cr_management c)}"
    have "jv_exposed v \<subseteq> set_option (jv_management v)" using v j by (simp add: wellkept_def covered_def journaled_def)
    then have "ready c v" using v j c by (auto simp: ready_def)
    then show ?thesis
      unfolding c(1) by (intro h_bind h_Ret) (unfold sum.case, rule prepared_ok, simp, rule config, rule v)
  qed
  have subscribed: "holds saved_or_told (bindP probe_service_worker (\<lambda>config.
      bindP (ask_sum en_subscription) (\<lambda>subscription.
        case subscription of
          None \<Rightarrow> Raise ''The browser push subscription is unavailable.''
        | Some endpoint \<Rightarrow>
            bindP push_lifecycle_epoch (\<lambda>e.
            if e \<noteq> initial_epoch then Raise interrupted_setup
            else bindP p (prepared_setup endpoint config))))) setup_outcome v"
    if j: "jv_pending v = Inr None" "jv_fallback v = Inr []"
  proof (rule h_bind, rule h_lift, rule probe_ok [OF v], unfold sum.case, rule failed, rule s_ask_sum [where J = saved_or_told, OF s], rule failed, goal_cases)
    case (1 config e subscription)
    show ?case
    proof (cases subscription)
      case None
      then show ?thesis by (simp add: h_Raise failed)
    next
      case (Some endpoint)
      show ?thesis
        unfolding Some option.case
      proof (rule h_bind, rule h_lift, rule epoch_ok [OF v])
        fix r :: "string + string"
        show "case r of Inl e \<Rightarrow> setup_outcome (Inl e) v | Inr e \<Rightarrow>
            holds saved_or_told (if e \<noteq> initial_epoch then Raise interrupted_setup else bindP p (prepared_setup endpoint config)) setup_outcome v"
          using prepared [OF j 1(1)] by (cases r) (auto simp: failed intro!: h_Raise)
      qed
    qed
  qed
  show ?thesis
    unfolding run_durable_push_setup_def with_push_lifecycle_lock_def
  proof (rule s_call [where J = saved_or_told, OF s], rule failed, rule h_bind, rule h_lift, rule none_pending_ok [OF v], goal_cases)
    case 1
    show ?case by (simp add: h_Raise failed)
  next
    case 2
    show ?case
      unfolding sum.case
    proof (simp, rule h_bind, rule h_lift, rule epoch_ok [OF v])
      fix r :: "string + string"
      show "case r of Inl e \<Rightarrow> setup_outcome (Inl e) v | Inr a \<Rightarrow> holds saved_or_told (if a \<noteq> initial_epoch then Raise interrupted_setup else
          bindP probe_service_worker (\<lambda>config. bindP (ask_sum en_subscription) (\<lambda>subscription. case subscription of None \<Rightarrow> Raise ''The browser push subscription is unavailable.''
            | Some endpoint \<Rightarrow> bindP push_lifecycle_epoch (\<lambda>e. if e \<noteq> initial_epoch then Raise interrupted_setup else bindP p (prepared_setup endpoint config))))) setup_outcome v"
        using subscribed [OF 2] by (cases r) (auto simp: failed intro!: h_Raise)
    qed
  qed
qed

section \<open>Lives of a page\<close>

text \<open>
  \<open>dies p w w'\<close>: the page runs \<open>p\<close> from \<open>w\<close>, other windows and the outside act between the actions, and
  \<open>w'\<close> is what is left when it stops after some action. \<open>ends p w r w'\<close>: the program ends with \<open>r\<close>.
\<close>

inductive dies :: "'a page_prog \<Rightarrow> push_page \<Rightarrow> push_page \<Rightarrow> bool" where
  now: "dies p w w"
| later: "others w w1 \<Longrightarrow> dies (fst (f w1)) (snd (f w1)) w' \<Longrightarrow> dies (Act f) w w'"

inductive ends :: "'a page_prog \<Rightarrow> push_page \<Rightarrow> string + 'a \<Rightarrow> push_page \<Rightarrow> bool" where
  returned: "ends (Ret a) w (Inr a) w"
| thrown: "ends (Raise e) w (Inl e) w"
| acted: "others w w1 \<Longrightarrow> ends (fst (f w1)) (snd (f w1)) r w' \<Longrightarrow> ends (Act f) w r w'"

lemma dies_upholds: "dies p w w' \<Longrightarrow> upholds others I Q p w \<Longrightarrow> I w \<Longrightarrow> I w'"
  by (induction rule: dies.induct) auto

lemma ends_upholds: "ends p w r w' \<Longrightarrow> upholds others I Q p w \<Longrightarrow> Q r w'"
  by (induction rule: ends.induct) auto

definition new_page :: "push_env \<Rightarrow> push_page" where
  "new_page e = \<lparr>pp_items = Map.empty, pp_warned = False, pp_exposed = {}, pp_unsaved = False, pp_env = e\<rparr>"

text \<open>
  What may happen to the storage of a page, until a setup has told that it could save nothing: setups
  and cleanups that end or die, of this window or of another, one after the other, since each holds the
  lock. What a window writes before it has the lock (the intent and the epoch of a cleanup) falls into
  the step \<open>others\<close>, which is also taken between any two actions of a setup or cleanup.
\<close>

inductive page_reachable :: "push_page \<Rightarrow> bool" where
  fresh: "page_reachable (new_page e)"
| outside: "page_reachable w \<Longrightarrow> others w w' \<Longrightarrow> page_reachable w'"
| cleanup: "page_reachable w \<Longrightarrow> \<not> pp_unsaved w \<Longrightarrow> dies (forget_local_push_state workers service abandon) w w' \<Longrightarrow> page_reachable w'"
| enrolment: "page_reachable w \<Longrightarrow> \<not> pp_unsaved w \<Longrightarrow> credentials_source p (view w) \<Longrightarrow> dies (run_durable_push_setup epoch p) w w' \<Longrightarrow>
    page_reachable w'"

lemma new_page_ok: "wellkept (view (new_page e))"
  by (simp add: view_def new_page_def wellkept_def covered_def journaled_def clean_items_def pending_of_def fallback_of_def)

lemma reachable_ok: "page_reachable w \<Longrightarrow> saved_or_told (view w)"
proof (induction rule: page_reachable.induct)
  case (fresh e)
  show ?case using new_page_ok by (simp add: saved_or_told_def)
next
  case (outside w w')
  then show ?case by (simp add: others_view)
next
  case (cleanup w workers service abandon w')
  then have v: "wellkept (view w)" by (simp add: saved_or_told_def)
  then have "wellkept (view w')"
    using dies_upholds [OF cleanup.hyps(3), of "\<lambda>w. wellkept (view w)" "\<lambda>r w. ends_well r (view w)"] forget_ok by (auto simp: holds_def)
  then show ?case by (simp add: saved_or_told_def)
next
  case (enrolment w p epoch w')
  then have v: "wellkept (view w)" by (simp add: saved_or_told_def)
  then show ?case
    using dies_upholds [OF enrolment.hyps(4), of "\<lambda>w. saved_or_told (view w)" "\<lambda>r w. setup_outcome r (view w)"] setup_ok [OF v enrolment.hyps(3)] enrolment.IH
    by (auto simp: holds_def)
qed

section \<open>Properties\<close>

text \<open>The storage names the key where the next cleanup finds it.\<close>

definition revocable :: "(string \<Rightarrow> string option) \<Rightarrow> string \<Rightarrow> bool" where
  "revocable items k \<longleftrightarrow>
     (case (pending_of items, fallback_of items) of
        (Inr p, Inr ts) \<Rightarrow>
          if p = None \<and> ts = [] then items push_management_key_storage = Some k
          else k \<in> (case p of None \<Rightarrow> {} | Some c \<Rightarrow> open_keys c) \<or> k \<in> ft_management ` set ts
      | _ \<Rightarrow> False)"

lemma wellkept_revocable: "wellkept (view w) \<Longrightarrow> k \<in> pp_exposed w \<Longrightarrow> revocable (pp_items w) k"
  by (cases "pending_of (pp_items w)"; cases "fallback_of (pp_items w)")
    (auto simp: wellkept_def covered_def journaled_def journal_covers_def revocable_def split: if_splits option.splits)

text \<open>C19: Every registration that was sent to the gateway and not yet deleted there can be revoked: after any
  setups and cleanups, whatever fails, and whenever the page dies, the storage names its management key,
  unless a setup has told that it could write nothing. So can what a cleanup has taken over from the
  database of an old worker.
\<close>

theorem registrations_stay_revocable:
  assumes "page_reachable w" "\<not> pp_unsaved w" "k \<in> pp_exposed w"
  shows "revocable (pp_items w) k"
  using reachable_ok [OF assms(1)] assms(2,3) wellkept_revocable by (simp add: saved_or_told_def)

text \<open>C20: On a page where no setup has told that it could write nothing, a cleanup that reports success has
  left no registration at the gateway: every key that a setup has sent there, and every key that this
  or an earlier cleanup has found in the database of an old worker and taken over into the journal, is
  deleted. A database that could not be read, or whose keys the journal could not take over, counts as
  not found.
\<close>

theorem complete_cleanup_revokes_all:
  assumes "page_reachable w" "\<not> pp_unsaved w" "ends (forget_local_push_state workers service abandon) w (Inr result) w'"
    "res_complete result"
  shows "pp_exposed w' = {}"
proof -
  have "wellkept (view w)" using reachable_ok [OF assms(1)] assms(2) by (simp add: saved_or_told_def)
  then have "ends_well (Inr result) (view w')"
    using ends_upholds [OF assms(3), of "\<lambda>w. wellkept (view w)" "\<lambda>r w. ends_well r (view w)"] forget_ok by (auto simp: holds_def)
  then show ?thesis using assms(4) by (simp add: ends_well_def)
qed

text \<open>C21: A setup that succeeds leaves no journal, and the one registration there may be is that of the
  credentials it has stored.
\<close>

theorem setup_stores_credentials:
  assumes "page_reachable w" "\<not> pp_unsaved w" "credentials_source p (view w)" "ends (run_durable_push_setup epoch p) w (Inr ()) w'"
  shows "pending_of (pp_items w') = Inr None \<and> fallback_of (pp_items w') = Inr [] \<and>
    pp_exposed w' \<subseteq> set_option (pp_items w' push_management_key_storage)"
proof -
  have "wellkept (view w)" using reachable_ok [OF assms(1)] assms(2) by (simp add: saved_or_told_def)
  then have "setup_outcome (Inr ()) (view w')"
    using ends_upholds [OF assms(4), of "\<lambda>w. saved_or_told (view w)" "\<lambda>r w. setup_outcome r (view w)"] setup_ok assms(3)
    by (auto simp: holds_def)
  then show ?thesis by (auto simp: setup_outcome_def wellkept_def covered_def journaled_def)
qed

end
