(* ===== verification/Setup_Examples.thy ===== *)
theory Setup_Examples
  imports Setup_Safety
begin

text \<open>
  A page that enrolls and then cleans up, with an outside that answers everything well: the witnesses of
  the properties of setup and cleanup.
\<close>

section \<open>Runs without interference\<close>

lemma others_refl: "sane_env (pp_env w) \<Longrightarrow> others w w"
  by (simp add: others_def)

definition keeps_env :: "push_page \<Rightarrow> push_page \<Rightarrow> bool" where
  "keeps_env w w' \<longleftrightarrow> pp_env w' = pp_env w"

lemma run_ends: "acts_in keeps_env p \<Longrightarrow> sane_env (pp_env w) \<Longrightarrow> ends p w (fst (run p w)) (snd (run p w))"
proof (induction p arbitrary: w rule: prog_induct)
  case (Act f)
  then have "pp_env (snd (f w)) = pp_env w" "acts_in keeps_env (fst (f w))" by (simp_all add: keeps_env_def [symmetric])
  then show ?case
    using Act.IH Act.prems(2) by (auto intro!: ends.acted [OF others_refl])
qed (simp_all add: ends.intros)

lemma ends_dies: "ends p w r w' \<Longrightarrow> dies p w w'"
  by (induction rule: ends.induct) (auto intro: dies.intros)

lemma env_steps [simp]:
  "acts_in keeps_env (ls_get k)" "acts_in keeps_env (ls_set k x)" "acts_in keeps_env (ls_remove k)" "acts_in keeps_env (ask sel)"
  "acts_in keeps_env (ask_sum sel2)" "acts_in keeps_env call_browser" "acts_in keeps_env (gateway_delete m)" "acts_in keeps_env (gateway_post c)"
  "acts_in keeps_env send_push_config_message" "acts_in keeps_env read_pending_push_cleanup" "acts_in keeps_env read_fallback_push_cleanup"
  by (auto simp: ls_get_def ls_set_def ls_remove_def ask_def ask_sum_def call_browser_def gateway_delete_def gateway_post_def
      send_push_config_message_def read_pending_push_cleanup_def read_fallback_push_cleanup_def keeps_env_def split: sum.split)

lemma env_parts [simp]:
  "acts_in keeps_env (clear_push_credentials g m d)" "acts_in keeps_env (read_push_credentials b)" "acts_in keeps_env (persist_push_credentials c e)"
  "acts_in keeps_env (persist_pending_push_cleanup p)" "acts_in keeps_env (persist_fallback_push_cleanup_target c e b)"
  "acts_in keeps_env push_lifecycle_epoch" "acts_in keeps_env has_pending_local_push_cleanup" "acts_in keeps_env has_durable_push_cleanup_record"
  "acts_in keeps_env (assert_owned_push_setup_journal c e)" "acts_in keeps_env (register_gateway_subscription c)"
  "acts_in keeps_env read_service_worker_push_config" "acts_in keeps_env clear_service_worker_push_config"
  by (auto simp: clear_push_credentials_def read_push_credentials_def persist_push_credentials_def persist_pending_push_cleanup_def
      persist_fallback_push_cleanup_target_def push_lifecycle_epoch_def has_pending_local_push_cleanup_def has_durable_push_cleanup_record_def
      assert_owned_push_setup_journal_def register_gateway_subscription_def read_service_worker_push_config_def
      clear_service_worker_push_config_def Let_def split: option.split intro!: acts_in_bindP acts_in_catchP)

lemma env_probe [simp]: "acts_in keeps_env probe_service_worker"
  by (auto simp: probe_service_worker_def read_and_migrate_service_worker_push_config_def generation_for_management_key_def
      migrate_service_worker_push_config_def split: option.split intro!: acts_in_bindP)

lemma env_setup: "acts_in keeps_env (run_durable_push_setup e (read_push_credentials b))"
proof -
  have queue: "acts_in keeps_env (queue_push_setup_cleanup c endpoint w epoch)" for c endpoint w epoch
    by (auto simp: queue_push_setup_cleanup_def Let_def split: option.split intro!: acts_in_bindP acts_in_catchP)
  have journaled: "acts_in keeps_env (journaled_setup endpoint epoch c)" for endpoint epoch c
    by (auto simp: journaled_setup_def intro!: acts_in_bindP)
  have rollback: "acts_in keeps_env (rollback_undurable_push_setup endpoint c)" for endpoint c
    by (auto simp: rollback_undurable_push_setup_def attempt_def intro!: acts_in_bindP acts_in_catchP)
  have effective: "acts_in keeps_env (effective_credentials config c)" for config c
    by (auto simp: effective_credentials_def generation_for_management_key_def split: option.split intro!: acts_in_bindP)
  have prepared: "acts_in keeps_env (prepared_setup endpoint config cr)" for endpoint config cr
    by (auto simp: prepared_setup_def keeps_env_def split: option.split queue_result.split intro!: acts_in_bindP queue journaled rollback effective)
  show ?thesis
    by (auto simp: run_durable_push_setup_def with_push_lifecycle_lock_def split: option.split intro!: acts_in_bindP prepared)
qed

section \<open>An outside that answers well\<close>

definition good_env :: push_env where
  "good_env = \<lparr>en_write_fails = False, en_random = ''r'', en_registration = Inr True, en_worker = True,
     en_reply = Inr (JObj [(''protocolVersion'', js_int 2), (''ok'', JBool True), (''cleared'', JBool True), (''config'', JNull)]),
     en_digest = Inr ''d'', en_database = Inr None, en_call = None, en_gateway = Inr (JObj [(''registered'', JBool True)]),
     en_subscription = Inr (Some ''e''), en_unsubscribe = Inr True\<rparr>"

lemma good_reply: "read_reply (en_reply good_env) = Inr \<lparr>cm_cleared = Some True, cm_config = Some None\<rparr>"
  by (simp add: good_env_def read_reply_def reply_config_def)

lemma good_sane: "sane_env good_env"
  using good_reply by (simp add: sane_env_def) (simp add: good_env_def)

lemma good_answers:
  "en_write_fails good_env = False" "en_random good_env = ''r''" "en_registration good_env = Inr True" "en_worker good_env = True"
  "en_digest good_env = Inr ''d''" "en_database good_env = Inr None" "en_call good_env = None"
  "en_gateway good_env = Inr (JObj [(''registered'', JBool True)])" "en_subscription good_env = Inr (Some ''e'')"
  "en_unsubscribe good_env = Inr True"
  by (simp_all add: good_env_def)

lemma keys_apart:
  "push_delivery_key_storage \<notin> {legacy_push_key_storage, push_management_key_storage, push_generation_storage, push_endpoint_storage,
     push_cleanup_storage, push_fallback_cleanup_storage, push_cleanup_intent_storage, abandoned_warning_storage, push_lifecycle_epoch_storage}"
  "legacy_push_key_storage \<notin> {push_delivery_key_storage, push_management_key_storage, push_generation_storage, push_endpoint_storage,
     push_cleanup_storage, push_fallback_cleanup_storage, push_cleanup_intent_storage, abandoned_warning_storage, push_lifecycle_epoch_storage}"
  "push_management_key_storage \<notin> {push_delivery_key_storage, legacy_push_key_storage, push_generation_storage, push_endpoint_storage,
     push_cleanup_storage, push_fallback_cleanup_storage, push_cleanup_intent_storage, abandoned_warning_storage, push_lifecycle_epoch_storage}"
  "push_generation_storage \<notin> {push_delivery_key_storage, legacy_push_key_storage, push_management_key_storage, push_endpoint_storage,
     push_cleanup_storage, push_fallback_cleanup_storage, push_cleanup_intent_storage, abandoned_warning_storage, push_lifecycle_epoch_storage}"
  "push_endpoint_storage \<notin> {push_delivery_key_storage, legacy_push_key_storage, push_management_key_storage, push_generation_storage,
     push_cleanup_storage, push_fallback_cleanup_storage, push_cleanup_intent_storage, abandoned_warning_storage, push_lifecycle_epoch_storage}"
  "push_cleanup_storage \<notin> {push_delivery_key_storage, legacy_push_key_storage, push_management_key_storage, push_generation_storage,
     push_endpoint_storage, push_fallback_cleanup_storage, push_cleanup_intent_storage, abandoned_warning_storage, push_lifecycle_epoch_storage}"
  "push_fallback_cleanup_storage \<notin> {push_delivery_key_storage, legacy_push_key_storage, push_management_key_storage, push_generation_storage,
     push_endpoint_storage, push_cleanup_storage, push_cleanup_intent_storage, abandoned_warning_storage, push_lifecycle_epoch_storage}"
  "push_cleanup_intent_storage \<notin> {push_delivery_key_storage, legacy_push_key_storage, push_management_key_storage, push_generation_storage,
     push_endpoint_storage, push_cleanup_storage, push_fallback_cleanup_storage, abandoned_warning_storage, push_lifecycle_epoch_storage}"
  "push_lifecycle_epoch_storage \<notin> {push_delivery_key_storage, legacy_push_key_storage, push_management_key_storage, push_generation_storage,
     push_endpoint_storage, push_cleanup_storage, push_fallback_cleanup_storage, push_cleanup_intent_storage, abandoned_warning_storage}"
  by (simp_all add: storage_keys)

lemma pending_read: "pending_of items = Inr p \<Longrightarrow> k \<noteq> push_cleanup_storage \<Longrightarrow> pending_of (items(k := x)) = Inr p"
  by (simp add: pending_of_def)

lemmas actions = ls_get_def ls_set_def ls_remove_def ask_def ask_sum_def call_browser_def gateway_delete_def gateway_post_def
  send_push_config_message_def read_pending_push_cleanup_def read_fallback_push_cleanup_def good_reply good_answers

text \<open>A page with this outside, and its programs step by step.\<close>

definition page :: "(string \<Rightarrow> string option) \<Rightarrow> string set \<Rightarrow> push_page" where
  "page items X = \<lparr>pp_items = items, pp_warned = False, pp_exposed = X, pp_unsaved = False, pp_env = good_env\<rparr>"

lemma page_sel [simp]: "pp_items (page items X) = items" "pp_exposed (page items X) = X" "pp_unsaved (page items X) = False"
  "pp_env (page items X) = good_env" "pp_warned (page items X) = False"
  by (simp_all add: page_def)

lemma page_steps [simp]:
  "run (ls_get k) (page items X) = (Inr (items k), page items X)"
  "run (ls_set k x) (page items X) = (Inr (), page (items(k \<mapsto> x)) X)"
  "run (ls_remove k) (page items X) = (Inr (), page (items(k := None)) X)"
  "run (ask en_random) (page items X) = (Inr ''r'', page items X)"
  "run (ask en_worker) (page items X) = (Inr True, page items X)"
  "run (ask_sum en_registration) (page items X) = (Inr True, page items X)"
  "run (ask_sum en_subscription) (page items X) = (Inr (Some ''e''), page items X)"
  "run (ask_sum en_unsubscribe) (page items X) = (Inr True, page items X)"
  "run call_browser (page items X) = (Inr (), page items X)"
  "run (gateway_delete m) (page items X) = (Inr (), page items (X - {m}))"
  "run (gateway_post c) (page items X) = (Inr (JObj [(''registered'', JBool True)]), page items (insert (cr_management c) X))"
  "run send_push_config_message (page items X) = (Inr \<lparr>cm_cleared = Some True, cm_config = Some None\<rparr>, page items X)"
  "run read_pending_push_cleanup (page items X) = (pending_of items, page items X)"
  "run read_fallback_push_cleanup (page items X) = (fallback_of items, page items X)"
  "run (persist_pending_push_cleanup p) (page items X) = (Inr (), page (items(push_cleanup_storage \<mapsto> json_string (journal_js p))) X)"
  by (simp_all add: actions persist_pending_push_cleanup_def page_def)

lemma page_probe [simp]: "run probe_service_worker (page items X) = (Inr None, page items X)"
  by (simp add: probe_service_worker_def read_and_migrate_service_worker_push_config_def read_service_worker_push_config_def)

lemma page_clear_worker [simp]: "run clear_service_worker_push_config (page items X) = (Inr (), page items X)"
  by (simp add: clear_service_worker_push_config_def)

lemma page_register [simp]:
  "run (register_gateway_subscription c) (page items X) = (Inr (), page items (insert (cr_management c) X))"
  by (simp add: register_gateway_subscription_def)

definition demo_credentials :: push_credentials where
  "demo_credentials = \<lparr>cr_delivery = ''r'', cr_management = ''r'', cr_generation = ''r'', cr_legacy = False\<rparr>"

lemma page_read_new [simp]:
  "run (read_push_credentials True) (page Map.empty X) = (Inr (Some demo_credentials), page Map.empty X)"
  by (simp add: read_push_credentials_def or_null_def filled_def Let_def demo_credentials_def)

lemma page_epoch [simp]:
  "items push_lifecycle_epoch_storage = Some ''r'' \<Longrightarrow> run push_lifecycle_epoch (page items X) = (Inr ''r'', page items X)"
  "items push_lifecycle_epoch_storage = None \<Longrightarrow>
     run push_lifecycle_epoch (page items X) = (Inr ''r'', page (items(push_lifecycle_epoch_storage \<mapsto> ''r'')) X)"
  by (simp_all add: push_lifecycle_epoch_def filled_def)

text \<open>The storage with the journal entry of the setup, and with the credentials instead.\<close>

definition demo_entry :: pending_cleanup where
  "demo_entry = setup_cleanup ''r'' demo_credentials ''e'' False"

definition journal_items :: "string \<Rightarrow> string option" where
  "journal_items = (Map.empty(push_lifecycle_epoch_storage \<mapsto> ''r''))(push_cleanup_storage \<mapsto> json_string (journal_js demo_entry))"

definition enrolled_items :: "string \<Rightarrow> string option" where
  "enrolled_items = [push_delivery_key_storage \<mapsto> ''r'', push_management_key_storage \<mapsto> ''r'', push_generation_storage \<mapsto> ''r'',
     push_endpoint_storage \<mapsto> ''e'', push_lifecycle_epoch_storage \<mapsto> ''r'']"

lemma journal_items_facts:
  "pending_of journal_items = Inr (Some demo_entry)" "fallback_of journal_items = Inr []"
  "journal_items push_lifecycle_epoch_storage = Some ''r''" "journal_items push_cleanup_intent_storage = None"
  "journal_items push_fallback_cleanup_storage = None"
  by (simp_all add: journal_items_def pending_written) (simp_all add: storage_keys fallback_of_def)

lemma pending_none: "items push_cleanup_storage = None \<Longrightarrow> pending_of items = Inr None"
  by (simp add: pending_of_def)

lemma page_queue:
  "run (queue_push_setup_cleanup demo_credentials ''e'' True ''r'') (page (Map.empty(push_lifecycle_epoch_storage \<mapsto> ''r'')) {}) =
     (Inr Primary, page journal_items {})"
proof -
  have none: "pending_of (Map.empty(push_lifecycle_epoch_storage \<mapsto> ''r'')) = Inr None"
    by (rule pending_none) (simp add: storage_keys)
  have items: "journal_items(push_delivery_key_storage := None, push_management_key_storage := None, push_generation_storage := None,
      push_endpoint_storage := None, legacy_push_key_storage := None) = journal_items"
    by (auto simp: journal_items_def storage_keys)
  have stored: "journal_items push_generation_storage = None" "journal_items push_management_key_storage = None"
      "journal_items push_delivery_key_storage = None"
    by (simp_all add: journal_items_def storage_keys)
  have clear: "run (clear_push_credentials g m d) (page journal_items {}) = (Inr (), page journal_items {})" for g m d
    by (simp add: clear_push_credentials_def stored items)
  have read: "run (read_push_credentials False) (page (Map.empty(push_lifecycle_epoch_storage \<mapsto> ''r'')) {}) =
      (Inr None, page (Map.empty(push_lifecycle_epoch_storage \<mapsto> ''r'')) {})"
    by (simp add: read_push_credentials_def storage_keys or_null_def filled_def)
  show ?thesis
    by (simp add: queue_push_setup_cleanup_def none read Let_def demo_entry_def [symmetric] journal_items_def [symmetric] clear)
qed

lemma page_owned: "run (assert_owned_push_setup_journal demo_credentials ''r'') (page journal_items X) = (Inr (), page journal_items X)"
  by (simp add: assert_owned_push_setup_journal_def journal_items_facts) (simp add: demo_entry_def setup_cleanup_facts)

lemma page_commit: "run (journaled_setup ''e'' ''r'' demo_credentials) (page journal_items {}) = (Inr (), page enrolled_items {''r''})"
proof -
  have items: "(journal_items(push_delivery_key_storage \<mapsto> ''r'', push_management_key_storage \<mapsto> ''r'', push_generation_storage \<mapsto> ''r'',
      push_endpoint_storage \<mapsto> ''e'', legacy_push_key_storage := None, push_lifecycle_epoch_storage \<mapsto> ''r'', push_cleanup_storage := None)) = enrolled_items"
    by (auto simp: journal_items_def enrolled_items_def storage_keys)
  show ?thesis
    using items by (simp add: journaled_setup_def page_owned persist_push_credentials_def) (simp add: demo_credentials_def)
qed

lemma enrolled: "run (run_durable_push_setup ''r'' (read_push_credentials True)) (page Map.empty {}) = (Inr (), page enrolled_items {''r''})"
proof -
  have read: "run (read_push_credentials True) (page (Map.empty(push_lifecycle_epoch_storage \<mapsto> ''r'')) {}) =
      (Inr (Some demo_credentials), page (Map.empty(push_lifecycle_epoch_storage \<mapsto> ''r'')) {})"
    by (simp add: read_push_credentials_def storage_keys or_null_def filled_def Let_def demo_credentials_def)
  have effective: "effective_credentials None demo_credentials = Ret demo_credentials"
    by (simp add: effective_credentials_def demo_credentials_def)
  show ?thesis
    by (simp add: run_durable_push_setup_def with_push_lifecycle_lock_def has_pending_local_push_cleanup_def read prepared_setup_def
        effective page_queue page_commit)
qed

section \<open>A cleanup that succeeds\<close>

lemma page_parts:
  assumes c: "pc_targets c = None" "pc_management c = Some m" "m \<noteq> []" "pc_delivery c = Some d" "d \<noteq> []" "pc_endpoint c = Some e" "e \<noteq> []"
      "\<not> pc_gateway_done c" "\<not> pc_pusher_done c" "\<not> pc_abandon c" "\<not> pc_subscription_done c" "\<not> pc_worker_done c"
      "\<not> pc_notifications_done c" "\<not> pc_badge_done c"
    and items: "items abandoned_warning_storage = None"
  shows "run (cleanup_parts True True False (c, [])) (page items X) =
     (Inr \<lparr>res_complete = True, res_durable = True, res_abandoned = False, res_error = None\<rparr>,
      page (items(push_cleanup_storage := None, push_fallback_cleanup_storage := None, push_cleanup_intent_storage := None,
        push_lifecycle_epoch_storage := None)) (X - {m}))"
proof -
  let ?c1 = "c\<lparr>pc_worker_done := True, pc_notifications_done := True, pc_badge_done := True\<rparr>"
  let ?c2 = "?c1\<lparr>pc_gateway_done := True\<rparr>"
  let ?c3 = "?c2\<lparr>pc_pusher_done := True\<rparr>"
  let ?c4 = "?c3\<lparr>pc_subscription_done := True\<rparr>"
  have none: "targets_of c' = []" "set_targets [] c' = c'" if "pc_targets c' = None" for c'
    using that by (simp_all add: targets_of_def set_targets_def)
  have local: "run (worker_cleanup True (c, [])) (page items X) = (Inr (c\<lparr>pc_worker_done := True\<rparr>, []), page items X)"
      "run (notification_cleanup True (c\<lparr>pc_worker_done := True\<rparr>, [])) (page items X) = (Inr (c\<lparr>pc_worker_done := True, pc_notifications_done := True\<rparr>, []), page items X)"
      "run (badge_cleanup (c\<lparr>pc_worker_done := True, pc_notifications_done := True\<rparr>, [])) (page items X) = (Inr (?c1, []), page items X)"
    using c by (simp_all add: worker_cleanup_def notification_cleanup_def badge_cleanup_def try_part_def)
  have gateway: "run (gateway_cleanup (?c1, [])) (page items X) = (Inr (?c2, []), page items (X - {m}))"
    using c by (simp add: gateway_cleanup_def Let_def filled_def gateway_remove_def error_list_def none)
  have pusher: "run (pusher_cleanup True (?c2, [])) (page items (X - {m})) = (Inr (?c3, []), page items (X - {m}))"
    using c by (simp add: pusher_cleanup_def Let_def filled_def pusher_remove_def error_list_def none)
  have skipped: "abandon_pushers (?c3, []) = Ret (?c3, [])" "orphan_cleanup False (?c3, []) = Ret (?c3, [])"
    using c by (simp_all add: abandon_pushers_def orphan_cleanup_def)
  have subscription: "run (subscription_cleanup True (?c3, [])) (page items (X - {m})) = (Inr (?c4, []), page items (X - {m}))"
    using c by (simp add: subscription_cleanup_def Let_def filled_def)
  have complete: "cleanup_complete ?c4"
    using c none [of ?c4] by (simp add: cleanup_complete_def gateway_finished_def pusher_finished_def)
  have warned: "run (cleanup_result_of True True None) (page items' X) =
      (Inr \<lparr>res_complete = True, res_durable = True, res_abandoned = False, res_error = None\<rparr>, page items' X)"
    if "items' abandoned_warning_storage = None" for items' X
    using that by (simp add: cleanup_result_of_def has_abandoned_matrix_pusher_warning_def)
  have apart: "(items(push_cleanup_storage := None, push_fallback_cleanup_storage := None, push_cleanup_intent_storage := None,
      push_lifecycle_epoch_storage := None)) abandoned_warning_storage = None"
    using items by (simp add: storage_keys)
  have finished: "run (finish_cleanup (?c4, [])) (page items (X - {m})) =
     (Inr \<lparr>res_complete = True, res_durable = True, res_abandoned = False, res_error = None\<rparr>,
      page (items(push_cleanup_storage := None, push_fallback_cleanup_storage := None, push_cleanup_intent_storage := None,
        push_lifecycle_epoch_storage := None)) (X - {m}))"
    using apart by (simp add: finish_cleanup_def Let_def complete warned del: fun_upd_apply)
  show ?thesis
    using local gateway pusher skipped subscription finished by (simp add: cleanup_parts_def)
qed

text \<open>On the enrolled page: the journal is written from the credentials, its generation made canonical.\<close>

definition stored_entry :: pending_cleanup where
  "stored_entry = \<lparr>pc_id = ''r'', pc_generation = Some ''r'', pc_delivery = Some ''r'', pc_management = Some ''r'', pc_endpoint = Some ''e'',
     pc_gateway_done = False, pc_pusher_done = False, pc_abandon = False, pc_subscription_done = False, pc_worker_done = False,
     pc_notifications_done = False, pc_badge_done = False, pc_targets = None\<rparr>"

definition intent_items :: "string \<Rightarrow> string option" where
  "intent_items = enrolled_items(push_cleanup_intent_storage \<mapsto> ''r'', push_lifecycle_epoch_storage \<mapsto> ''r'')"

definition begun_items :: "string \<Rightarrow> string option" where
  "begun_items = [push_cleanup_intent_storage \<mapsto> ''r'', push_lifecycle_epoch_storage \<mapsto> ''r'',
     push_cleanup_storage \<mapsto> json_string (journal_js stored_entry)]"

lemma page_begin: "run begin_local_push_cleanup (page intent_items X) = (Inr stored_entry, page begun_items X)"
proof -
  have same: "intent_items(push_lifecycle_epoch_storage \<mapsto> ''r'') = intent_items"
    by (simp add: intent_items_def)
  have none: "pending_of intent_items = Inr None" "fallback_of intent_items = Inr []"
    by (simp_all add: pending_of_def fallback_of_def intent_items_def enrolled_items_def storage_keys)
  have stored: "intent_items push_delivery_key_storage = Some ''r''" "intent_items legacy_push_key_storage = None"
      "intent_items push_management_key_storage = Some ''r''" "intent_items push_generation_storage = Some ''r''"
      "intent_items push_endpoint_storage = Some ''e''"
    by (simp_all add: intent_items_def enrolled_items_def storage_keys)
  let ?w = "intent_items(push_cleanup_storage \<mapsto> json_string (journal_js stored_entry))"
  have written: "?w push_delivery_key_storage = Some ''r''" "?w push_management_key_storage = Some ''r''" "?w push_generation_storage = Some ''r''"
    by (simp_all add: intent_items_def enrolled_items_def storage_keys)
  have cleared: "?w(push_delivery_key_storage := None, push_management_key_storage := None, push_generation_storage := None,
      push_endpoint_storage := None, legacy_push_key_storage := None) = begun_items"
    by (auto simp: intent_items_def enrolled_items_def begun_items_def storage_keys)
  have clear: "run (clear_push_credentials (Some ''r'') (Some ''r'') (Some ''r'')) (page ?w X) = (Inr (), page begun_items X)"
    using cleared written by (simp add: clear_push_credentials_def filled_def del: fun_upd_apply)
  have read: "run (read_push_credentials False) (page intent_items X) =
      (Inr (Some \<lparr>cr_delivery = ''r'', cr_management = ''r'', cr_generation = ''r'', cr_legacy = True\<rparr>), page intent_items X)"
    by (simp add: read_push_credentials_def stored or_null_def filled_def Let_def)
  show ?thesis
    using clear
    by (simp add: begin_local_push_cleanup_def same none read stored or_null_def filled_def Let_def stored_entry_def [symmetric] del: fun_upd_apply)
qed

definition canonical_entry :: pending_cleanup where
  "canonical_entry = stored_entry\<lparr>pc_generation := Some ''d''\<rparr>"

definition canonical_items :: "string \<Rightarrow> string option" where
  "canonical_items = begun_items(push_cleanup_storage \<mapsto> json_string (journal_js canonical_entry))"

lemma page_canonical: "run (canonical_cleanup_generation stored_entry) (page begun_items X) = (Inr canonical_entry, page canonical_items X)"
proof -
  have digest: "run (ask_sum en_digest) (page begun_items X) = (Inr ''d'', page begun_items X)"
    by (simp add: ask_sum_def good_answers)
  have entry: "pc_generation stored_entry = Some ''r''" "pc_management stored_entry = Some ''r''" by (simp_all add: stored_entry_def)
  show ?thesis
    by (simp add: canonical_cleanup_generation_def generation_for_management_key_def digest entry filled_def canonical_entry_def [symmetric]
        canonical_items_def [symmetric])
qed

lemma page_continue:
  "run (continue_cleanup True True None True (canonical_entry, [])) (page canonical_items {''r''}) =
     (Inr \<lparr>res_complete = True, res_durable = True, res_abandoned = False, res_error = None\<rparr>, page Map.empty {})"
proof -
  have none: "canonical_items push_delivery_key_storage = None" "canonical_items push_management_key_storage = None"
      "canonical_items push_generation_storage = None" "canonical_items abandoned_warning_storage = None"
    by (simp_all add: canonical_items_def begun_items_def storage_keys)
  have clear: "run (clear_push_credentials (Some ''d'') (Some ''r'') (Some ''r'')) (page canonical_items X) = (Inr (), page canonical_items X)" for X
    by (simp add: clear_push_credentials_def filled_def none)
  have empty: "canonical_items(push_cleanup_storage := None, push_fallback_cleanup_storage := None, push_cleanup_intent_storage := None,
      push_lifecycle_epoch_storage := None) = Map.empty"
    by (auto simp: canonical_items_def begun_items_def storage_keys)
  have entry: "pc_generation canonical_entry = Some ''d''" "pc_management canonical_entry = Some ''r''" "pc_delivery canonical_entry = Some ''r''"
    by (simp_all add: canonical_entry_def stored_entry_def)
  have parts: "run (cleanup_parts True True False (canonical_entry, [])) (page canonical_items {''r''}) =
      (Inr \<lparr>res_complete = True, res_durable = True, res_abandoned = False, res_error = None\<rparr>, page Map.empty {})"
    using page_parts [of canonical_entry "''r''" "''r''" "''e''" canonical_items "{''r''}"] none(4) empty
    by (simp add: canonical_entry_def stored_entry_def del: fun_upd_apply)
  show ?thesis
    by (simp add: continue_cleanup_def adopt_worker_config_def entry filled_def clear orphan_inspection_def parts)
qed

lemma forgotten:
  "run (forget_local_push_state True True False) (page enrolled_items {''r''}) =
     (Inr \<lparr>res_complete = True, res_durable = True, res_abandoned = False, res_error = None\<rparr>, page Map.empty {})"
proof -
  have entry: "\<not> pc_abandon stored_entry" by (simp add: stored_entry_def)
  have perform: "run (perform_local_push_cleanup True True False) (page intent_items {''r''}) =
      (Inr \<lparr>res_complete = True, res_durable = True, res_abandoned = False, res_error = None\<rparr>, page Map.empty {})"
    by (simp add: perform_local_push_cleanup_def attempt_def journal_cleanup_def page_begin page_canonical page_continue)
  show ?thesis
    by (simp add: forget_local_push_state_def with_push_lifecycle_lock_def has_durable_push_cleanup_record_def intent_items_def [symmetric] perform)
qed

section \<open>Witnesses\<close>

lemma env_cleanup: "acts_in keeps_env (forget_local_push_state workers service abandon)"
proof -
  have gateway: "acts_in keeps_env (gateway_targets ts)" for ts
    by (induction ts) (auto simp: gateway_remove_def intro!: acts_in_bindP acts_in_catchP)
  have pusher: "acts_in keeps_env (pusher_targets b ts)" for b ts
    by (induction ts) (auto simp: pusher_remove_def intro!: acts_in_bindP acts_in_catchP)
  have result: "acts_in keeps_env (cleanup_result_of a b e)" for a b e
    by (auto simp: cleanup_result_of_def has_abandoned_matrix_pusher_warning_def keeps_env_def intro!: acts_in_bindP)
  have part: "acts_in keeps_env p \<Longrightarrow> acts_in keeps_env (try_part p f x)" for p f x
    by (auto simp: try_part_def intro!: acts_in_bindP acts_in_catchP)
  have warn: "acts_in keeps_env persist_abandoned_matrix_pusher_warning"
    by (auto simp: persist_abandoned_matrix_pusher_warning_def keeps_env_def intro!: acts_in_bindP acts_in_catchP)
  have local: "acts_in keeps_env (worker_cleanup r x)" "acts_in keeps_env (notification_cleanup r x)" "acts_in keeps_env (badge_cleanup x)"
      "acts_in keeps_env (orphan_cleanup r x)" "acts_in keeps_env (abandon_pushers x)" for r x
    by (auto simp: worker_cleanup_def notification_cleanup_def badge_cleanup_def orphan_cleanup_def abandon_pushers_def Let_def
        intro!: part acts_in_bindP warn)
  have remote: "acts_in keeps_env (gateway_cleanup x)" "acts_in keeps_env (pusher_cleanup service x)" for x service
    by (auto simp: gateway_cleanup_def pusher_cleanup_def gateway_remove_def pusher_remove_def Let_def
        intro!: acts_in_bindP acts_in_catchP gateway pusher)
  have subscription: "acts_in keeps_env (subscription_cleanup r x)" for r x
    by (auto simp: subscription_cleanup_def Let_def split: option.split intro!: acts_in_bindP acts_in_catchP)
  have finish: "acts_in keeps_env (finish_cleanup x)" for x
    by (auto simp: finish_cleanup_def Let_def split: option.split intro!: acts_in_bindP acts_in_catchP result)
  have parts: "acts_in keeps_env (cleanup_parts service registered orphan x)" for service registered orphan x
    by (auto simp: cleanup_parts_def intro!: acts_in_bindP local remote subscription finish)
  have begun: "acts_in keeps_env begin_local_push_cleanup"
    by (auto simp: begin_local_push_cleanup_def Let_def split: option.split list.split intro!: acts_in_bindP acts_in_catchP)
  have journal: "acts_in keeps_env (journal_cleanup abandon)"
    by (auto simp: journal_cleanup_def intro!: acts_in_bindP begun)
  have canonical: "acts_in keeps_env (canonical_cleanup_generation c)" "acts_in keeps_env (adopt_worker_config config c)" for c config
    by (auto simp: canonical_cleanup_generation_def generation_for_management_key_def adopt_worker_config_def Let_def split: option.split
        intro!: acts_in_bindP)
  have orphan: "acts_in keeps_env (orphan_inspection look x)" for look x
    by (auto simp: orphan_inspection_def inspect_orphaned_push_database_def merge_orphaned_push_credentials_def
        count_found_def keeps_env_def generation_for_management_key_def split: option.split sum.split intro!: acts_in_bindP acts_in_catchP)
  have continued: "acts_in keeps_env (continue_cleanup service registered config known x)" for registered config known x
    by (auto simp: continue_cleanup_def intro!: acts_in_bindP canonical orphan parts)
  have perform: "acts_in keeps_env (perform_local_push_cleanup workers service abandon)"
    by (auto simp: perform_local_push_cleanup_def attempt_def Let_def split: sum.split
        intro!: acts_in_bindP acts_in_catchP result continued journal canonical)
  show ?thesis
    by (auto simp: forget_local_push_state_def with_push_lifecycle_lock_def intro!: acts_in_bindP acts_in_catchP perform result)
qed

text \<open>The pages of the witnesses: one that has enrolled, and the same after its cleanup.\<close>

lemma first_reachable: "page_reachable (page Map.empty {})"
  using page_reachable.fresh [of good_env] by (simp add: new_page_def page_def)

lemma enrolled_ends: "ends (run_durable_push_setup ''r'' (read_push_credentials True)) (page Map.empty {}) (Inr ()) (page enrolled_items {''r''})"
  using run_ends [OF env_setup, of "page Map.empty {}" "''r''" True] good_sane by (simp add: enrolled)

lemma new_source: "credentials_source (read_push_credentials True) v"
  by (simp add: credentials_source_def)

lemma enrolled_reachable: "page_reachable (page enrolled_items {''r''})"
  by (rule page_reachable.enrolment [OF first_reachable _ new_source ends_dies [OF enrolled_ends]]) simp

lemma forgotten_ends: "ends (forget_local_push_state True True False) (page enrolled_items {''r''})
    (Inr \<lparr>res_complete = True, res_durable = True, res_abandoned = False, res_error = None\<rparr>) (page Map.empty {})"
  using run_ends [OF env_cleanup, of "page enrolled_items {''r''}" True True False] good_sane by (simp add: forgotten)

theorem registrations_stay_revocable_witness:
  "''r'' \<in> pp_exposed (page enrolled_items {''r''}) \<and> revocable (pp_items (page enrolled_items {''r''})) ''r''"
  using registrations_stay_revocable [OF enrolled_reachable, of "''r''"] by simp

theorem complete_cleanup_revokes_all_witness:
  "pp_exposed (page enrolled_items {''r''}) = {''r''} \<and> pp_exposed (page Map.empty {}) = {}"
  using complete_cleanup_revokes_all [OF enrolled_reachable _ forgotten_ends] by simp

theorem setup_stores_credentials_witness:
  "pending_of enrolled_items = Inr None \<and> {''r''} \<subseteq> set_option (enrolled_items push_management_key_storage)"
  using setup_stores_credentials [OF first_reachable _ new_source enrolled_ends] by simp

end
