(* ===== verification/Spec2Isabelle.thy ===== *)
theory Spec2Isabelle
  imports Push_Service Push_Gateway Vault_Contracts Store_Examples YouTube_Links Timeline_Policy
    Viewer_Geometry Image_Safety Media_Helpers Worker_Examples Login_Examples Room_Facts
    Device_Unlock Document_Headers Client_Memory Cache_Safety Setup_Examples
begin

text \<open>
  Sub-Etha is a Matrix web client with its own push gateway. This library models the parts of it that
  carry the program's own logic and proves what they promise. The file names below are relative to
  \<^verbatim>\<open>src\<close>.

  \<^bold>\<open>The program.\<close> The server side is the push gateway. A browser registers a push
  subscription (\<^verbatim>\<open>lib/push-server.ts\<close>), proves through a challenge that it owns the endpoint,
  and hands its delivery key to its homeserver, which then posts notifications to the gateway; the
  gateway deduplicates them, budgets them, and sends a small payload to the push service of the
  browser. Its state is a PostgreSQL database (\<^verbatim>\<open>db/schema.ts\<close>,
  \<^verbatim>\<open>drizzle/*.sql\<close>), reached through \<^verbatim>\<open>lib/push-repository.ts\<close>. The client side keeps
  one Matrix session, sealed under a recovery key and optionally an authenticator, in one entry of
  IndexedDB (\<^verbatim>\<open>lib/security/session-vault-*.ts\<close>, \<^verbatim>\<open>lib/matrix/session-store.ts\<close>), which
  any number of windows may open; it checks the homeserver address
  (\<^verbatim>\<open>lib/matrix/url-policy.ts\<close>), guards image and media work (\<^verbatim>\<open>lib/matrix/media.ts\<close>),
  and decides link previews, scrolling and geometry (\<^verbatim>\<open>lib/youtube-preview.ts\<close>,
  \<^verbatim>\<open>lib/timeline-*.ts\<close>, \<^verbatim>\<open>lib/image-viewer.ts\<close> and others).

  \<^bold>\<open>Shared ground.\<close> \<open>Prelude\<close> holds strings (one \<^typ>\<open>char\<close> per UTF-16 code unit below
  256; the code's checks never look further) and generic list lemmas; \<open>JsValue\<close> the JavaScript values
  of untrusted data with exact rational numbers; \<open>Base64\<close> the two codecs; \<open>Effects\<close> asynchronous
  functions as programs whose atomic actions a scheduler interleaves; \<open>Tokens\<close> the permission
  accounting that lifts a contract of one program to every schedule of a pool.

  \<^bold>\<open>The push gateway.\<close> \<open>Push_Store\<close> gives the tables as lists of rows and each stored
  function of \<^verbatim>\<open>drizzle/*.sql\<close> as one atomic step, with unique indexes and triggers;
  \<open>Push_Invariants\<close> their invariant; \<open>Rate_Window\<close> the limiter of both SQL expressions;
  \<open>Push_Repository\<close> the methods of \<^verbatim>\<open>push-repository.ts\<close>; \<open>Push_Ledger\<close>, \<open>Push_Budgets\<close>
  and \<open>Push_Claims\<close> deduplication, budgets, and the properties of the persistence layer over every
  sequence of calls. \<open>Push_Gateway\<close> is the endpoint policy and payload of
  \<^verbatim>\<open>push-gateway.ts\<close>, \<open>Push_Server\<close> and \<open>Push_Handlers\<close> the handlers of
  \<^verbatim>\<open>push-server.ts\<close>; \<open>Push_Contract\<close>, \<open>Push_Licence\<close>, \<open>Push_Safety\<close> and \<open>Push_Service\<close>
  prove, for every schedule of every pool of requests and any failing database call, that an event
  reaches a device once, that a run of n minutes sends at most n + 1 budgets, that messages go to accepted endpoints only, and that
  the log holds no secret.

  \<^bold>\<open>The session vault.\<close> \<open>Vault_Format\<close>, \<open>Session_Format\<close>, \<open>Vault_Binding\<close> and
  \<open>Stored_Equality\<close> translate \<^verbatim>\<open>session-vault-format.ts\<close>: validators, normaliser, the bytes the
  encryption binds, and the stored-value comparison. \<open>Vault_Records\<close>, \<open>Session_Records\<close> and
  \<open>Vault_Contracts\<close> describe what they accept and prove the round trips (locale
  \<open>stored_format\<close>). \<open>Json_Text\<close> and \<open>Json_Roundtrip\<close> are \<^verbatim>\<open>JSON.stringify\<close>,
  \<^verbatim>\<open>JSON.parse\<close> and UTF-8 on the values that are sealed; the parser recurses on the rest of the
  text and needs no fuel. \<open>Vault_Crypto\<close> translates \<^verbatim>\<open>session-vault-crypto.ts\<close>, and
  \<open>Vault_Sealing\<close> proves that what is sealed opens. \<open>Session_Store\<close> and \<open>Session_Operations\<close>
  translate \<^verbatim>\<open>session-store.ts\<close>: transactions, commits, leases, and the operations under the vault
  lock; an operation's cancellation points are numbered and a parameter says which have been reached
  by an abort. \<open>Store_Steps\<close> interleaves any number of windows, leases and cancelled operations as
  an inductive step relation and relates it to an abstract register of versions; \<open>Store_Safety\<close> draws
  the consequences (no stale lease writes, versions only grow), \<open>Store_Lifecycle\<close> follows one session
  from creation to cleanup and shows what forgetting does at the largest revision, and \<open>Store_Examples\<close> holds the concrete vaults of the witnesses.

  \<^bold>\<open>The rest of the client.\<close> \<open>Url_Policy\<close>: homeserver addresses. \<open>YouTube_Preview\<close> and
  \<open>YouTube_Links\<close>: links, cards and failed thumbnails. \<open>Timeline_Policy\<close>: changes of the timeline
  and the scroll mode. \<open>Viewer_Geometry\<close>: the image viewer, swipes, composer height, guide codes.
  \<open>Media_Gate\<close>: the gate of heavy media work as a state machine. \<open>Image_Bytes\<close> and
  \<open>Image_Safety\<close>: the scanners of image bytes. \<open>Media_Helpers\<close>: bounded reading, file names.

  \<^bold>\<open>The service worker.\<close> \<open>Worker_Tasks\<close> gives tasks that run their own actions freely and
  queue some of them behind one promise chain (\<^verbatim>\<open>queuePushConfigMutation\<close>), the step relation of a
  worker with any number of handlers, the order by which every task ends, the contract of what a
  queued operation may assume (locale \<open>queue_views\<close>), and \<open>follows\<close>, which tells the calls of one
  handler from those of the others in a run. \<open>Service_Worker\<close> and \<open>Worker_Handlers\<close> translate \<^verbatim>\<open>public/sw.js\<close>;
  \<open>Worker_Safety\<close> proves that no notification of another account is shown, that a push handler shows
  exactly one notification or has had its fallback refused, that the worker comes to rest, and what sign-out and account changes leave behind;
  \<open>Worker_Examples\<close> runs concrete handlers.

  \<^bold>\<open>Logging in.\<close> \<open>Login\<close> and \<open>Redirect_Login\<close> translate \<^verbatim>\<open>lib/matrix/auth.ts\<close> over a
  browser (the pending entry, the stored clients, the address bar) and the Matrix SDK as parameters;
  \<open>Login_Safety\<close> proves that a return needs its own departure, that a departure is used once, that
  tokens issued in vain are revoked, and that the vault accepts the session; \<open>Login_Examples\<close> holds
  the concrete homeserver of the witnesses.

  \<^bold>\<open>Messages and rooms.\<close> \<open>Message_Text\<close> and \<open>Message_Content\<close> translate
  \<^verbatim>\<open>message-text.ts\<close> and \<^verbatim>\<open>message-content.ts\<close>: links in plain messages, reply
  fallbacks, mentions, and the content of each kind of event. \<open>Room_View\<close> translates
  \<^verbatim>\<open>normalize.ts\<close> over the values the SDK returns; \<open>Room_Facts\<close> proves that the room list is
  the stable sort by one key (locale \<open>comparator_by_key\<close>), that reactions are counted as sent, that a
  text is shown as it was written (a reply that begins with a quoted line excepted), and which
  reactions make normalizing throw.

  \<^bold>\<open>Client security.\<close> \<open>Device_Unlock\<close> translates \<^verbatim>\<open>webauthn-prf.ts\<close> over a port to the
  browser's authenticators; \<open>Document_Headers\<close> translates \<^verbatim>\<open>csp.ts\<close> and \<^verbatim>\<open>proxy.ts\<close>;
  \<open>Client_Memory\<close> translates drafts, the warnings about remote sessions and the Trusted Types
  policies, with the sanitizer as a parameter.

  \<^bold>\<open>The media cache.\<close> \<open>Media_Cache\<close> translates the cache of assets and posters of
  \<^verbatim>\<open>lib/matrix/client.ts\<close>: each synchronous stretch of its methods is a step, and a reachable
  cache is any order of requests, ends of loads, invalidations and the stop. \<open>Cache_Safety\<close> proves
  its invariant, the bound on its size and that object URLs are revoked exactly once.

  \<^bold>\<open>The notification journal.\<close> \<open>Push_Journal\<close>, \<open>Push_Cleanup\<close> and \<open>Push_Lifecycle\<close>
  translate the setup and cleanup of closed-app notifications in \<^verbatim>\<open>lib/matrix/notifications.ts\<close>.
  A program of a page makes one action per access to the storage or call to the outside; before each
  action other windows may write the cleanup intent and the epoch, and the page may die. The model keeps
  beside the page the set of keys that the gateway may still hold: those a setup has sent, and those a
  cleanup has taken over from an old worker's database, until their deletion is confirmed. \<open>Journal_Logic\<close> is the judgment that
  a program keeps an invariant of the storage at every action and ends in a postcondition;
  \<open>Journal_Safety\<close> and \<open>Setup_Safety\<close> prove it for cleanup and setup, and that a registration stays
  revocable, that a complete cleanup has revoked everything, and what a setup leaves;
  \<open>Setup_Examples\<close> runs an enrollment and its cleanup.

  \<^bold>\<open>Parameters.\<close> Code that is not in the repository is an argument: the WHATWG URL parser
  (a function to an optional record), the ipaddr.js classification, the outcome of every database call
  and push, the clocks, Web Crypto's cipher and key derivations, the random bytes, the authenticator,
  the availability of Web Locks, and the outcome of each database deletion. Where a theorem needs
  their documented behaviour it is a named hypothesis (\<open>aead_laws\<close>: decrypting what was encrypted
  with the same key, nonce and additional data gives it back, and a ciphertext is 16 bytes longer).

  \<^bold>\<open>Bounds.\<close> Loops over bytes, rows and windows recurse on what is left and are total; the
  few that run on a counter carry a measure. Numbers the code compares are exact; the code's limits lie
  where doubles are exact. Bytes and hashes are words of their width.

  \<^bold>\<open>Not modelled.\<close> React components, styles and the service that glues routes to handlers
  (rendering and wiring); the rest of \<^verbatim>\<open>lib/matrix/client.ts\<close>, and the rest of \<^verbatim>\<open>lib/matrix/notifications.ts\<close>
  (drivers of the Matrix SDK and of browser services);
  the scripts, migrations' history and tests. Zeroing of buffers and freezing of objects change
  no value and are left out.
\<close>

end
